(* ===== verification/Prelude.thy ===== *)
theory Prelude
  imports Main "HOL-Library.Word" "HOL-Library.Monad_Syntax" "HOL-Library.Sublist"
begin

section \<open>Shared vocabulary of the development\<close>

text \<open>
  The C code is modelled by functions into the option type of \<open>Option.bind\<close>:
  \<^const>\<open>None\<close> is undefined behaviour (a NULL dereference, a read or a write outside a
  buffer, a call through a NULL function pointer), \<open>Some r\<close> is a run that returns \<open>r\<close>.
  A C pointer is an option as well, \<^const>\<open>None\<close> being NULL; \<open>deref\<close> marks the places
  where the code follows one.  A \<open>uint8_t\<close> buffer is a list of 8-bit words whose length is
  the size of the allocation, a \<open>char *\<close> string an optional list of characters, an
  \<open>uint32_t\<close> counter a 32-bit word that wraps, a \<open>size_t\<close> a natural number.
  An unchecked \<open>malloc\<close> succeeds; where the code tests the result of an allocation the
  outcome is an argument of the model.  Calls of the log handler are left out: they return
  nothing and change no state of the library.

  The theory holds the types, the result codes, the buffer primitives
  (\<open>memcpy\<close>, \<open>memcmp\<close>, a bounded write), the array loops shared by the validators and the
  copy routines, and the lemmas about them.
\<close>

subsection \<open>Types and result codes\<close>

type_synonym byte = "8 word"
type_synonym bytes = "8 word list"
type_synonym u32 = "32 word"
type_synonym cstr = "string option"
type_synonym 'a ptr = "'a option"
type_synonym 'a array = "'a list option"
type_synonym seed = nat

abbreviation (input) E2EES_RESULT_SUCC :: int where
  "E2EES_RESULT_SUCC \<equiv> 0"

abbreviation (input) E2EES_RESULT_FAIL :: int where
  "E2EES_RESULT_FAIL \<equiv> - 1"

named_theorems buffer_simps \<open>evaluation of the buffer primitives\<close>
named_theorems valid_simps \<open>the validators, unfolded on struct values\<close>
named_theorems copy_simps \<open>the copy routines on well-formed structs\<close>

subsection \<open>Pointers and buffers\<close>

definition deref :: "'a ptr \<Rightarrow> 'a option" where
  "deref p = p"

text \<open>The first \<open>n\<close> bytes behind a pointer; NULL is readable for zero bytes only.\<close>

definition read_bytes :: "bytes ptr \<Rightarrow> nat \<Rightarrow> bytes option" where
  "read_bytes p n =
     (case p of None \<Rightarrow> (if n = 0 then Some [] else None)
      | Some bs \<Rightarrow> (if n \<le> length bs then Some (take n bs) else None))"

text \<open>A write of \<open>bs\<close> at the start of a buffer: undefined past the buffer's end.\<close>

definition write_buf :: "bytes \<Rightarrow> bytes \<Rightarrow> bytes option" where
  "write_buf buf bs = (if length bs \<le> length buf then Some (bs @ drop (length bs) buf) else None)"

text \<open>
  A callee that fills a fresh buffer of \<open>n\<close> bytes: fewer bytes would leave
  indeterminate bytes for the reader, more would overflow.
\<close>

definition fill :: "nat \<Rightarrow> bytes \<Rightarrow> bytes option" where
  "fill n bs = (if length bs = n then Some bs else None)"

text \<open>Reading and writing one slot of an array.\<close>

definition array_get :: "'a array \<Rightarrow> nat \<Rightarrow> 'a option" where
  "array_get a i = (case a of None \<Rightarrow> None | Some xs \<Rightarrow> (if i < length xs then Some (xs ! i) else None))"

definition array_set :: "'a array \<Rightarrow> nat \<Rightarrow> 'a \<Rightarrow> 'a array option" where
  "array_set a i x =
     (case a of None \<Rightarrow> None | Some xs \<Rightarrow> (if i < length xs then Some (Some (xs[i := x])) else None))"

lemma deref_Some [simp]: "deref (Some x) = Some x"
  by (simp add: deref_def)

lemma deref_None [simp]: "deref None = None"
  by (simp add: deref_def)

lemma read_bytes_full [simp]: "read_bytes (Some bs) (length bs) = Some bs"
  by (simp add: read_bytes_def)

lemma read_bytes_len [simp]: "length bs = n \<Longrightarrow> read_bytes (Some bs) n = Some bs"
  by (simp add: read_bytes_def)

lemma read_bytes_take: "n \<le> length bs \<Longrightarrow> read_bytes (Some bs) n = Some (take n bs)"
  by (simp add: read_bytes_def)

lemma write_buf_same [simp]: "length bs = length buf \<Longrightarrow> write_buf buf bs = Some bs"
  by (simp add: write_buf_def)

lemma fill_length [simp]: "length bs = n \<Longrightarrow> fill n bs = Some bs"
  by (simp add: fill_def)

lemma fill_SomeD: "fill n bs = Some cs \<Longrightarrow> cs = bs \<and> length bs = n"
  by (simp add: fill_def split: if_splits)

lemma array_get_Some: "i < length xs \<Longrightarrow> array_get (Some xs) i = Some (xs ! i)"
  by (simp add: array_get_def)

lemma array_get_append [simp]: "i < length xs \<Longrightarrow> array_get (Some (xs @ ys)) i = Some (xs ! i)"
  by (simp add: array_get_def nth_append)

lemma array_set_Some: "i < length xs \<Longrightarrow> array_set (Some xs) i x = Some (Some (xs[i := x]))"
  by (simp add: array_set_def)

lemmas buffer_defs = read_bytes_def write_buf_def fill_def array_get_def array_set_def

lemma bind_SomeE:
  assumes "m \<bind> f = Some r"
  obtains x where "m = Some x" "f x = Some r"
  using assms by (auto simp: bind_eq_Some_conv)

subsection \<open>Array loops\<close>

text \<open>
  \<open>all_loop p a i n\<close> is the loop \<open>for (; i < n; i++) if (!p(a[i])) return false; return true\<close>
  on an array of pointers, with \<open>k = n - i\<close> rounds left.
\<close>

fun all_loop :: "('a \<Rightarrow> bool) \<Rightarrow> 'a array \<Rightarrow> nat \<Rightarrow> nat \<Rightarrow> bool option" where
  "all_loop p a i 0 = Some True"
| "all_loop p a i (Suc k) =
     do { x \<leftarrow> array_get a i; if \<not> p x then Some False else all_loop p a (Suc i) k }"

text \<open>
  \<open>map_loop f a i k\<close> is the loop that fills slots \<open>i, i+1, \<dots>\<close> of a fresh array with \<open>f\<close> of
  the source's slots.
\<close>

fun map_loop :: "('a \<Rightarrow> 'b option) \<Rightarrow> 'a array \<Rightarrow> nat \<Rightarrow> nat \<Rightarrow> 'b list option" where
  "map_loop f a i 0 = Some []"
| "map_loop f a i (Suc k) =
     do { x \<leftarrow> array_get a i; y \<leftarrow> f x; ys \<leftarrow> map_loop f a (Suc i) k; Some (y # ys) }"

lemma all_loop_eq:
  "i + k \<le> length xs \<Longrightarrow> all_loop p (Some xs) i k = Some (\<forall>j. i \<le> j \<and> j < i + k \<longrightarrow> p (xs ! j))"
proof (induction k arbitrary: i)
  case 0
  then show ?case by auto
next
  case (Suc k)
  then have IH: "all_loop p (Some xs) (Suc i) k =
      Some (\<forall>j. Suc i \<le> j \<and> j < Suc i + k \<longrightarrow> p (xs ! j))" by simp
  have "(\<forall>j. i \<le> j \<and> j < i + Suc k \<longrightarrow> p (xs ! j)) \<longleftrightarrow>
      p (xs ! i) \<and> (\<forall>j. Suc i \<le> j \<and> j < Suc i + k \<longrightarrow> p (xs ! j))"
    by (auto simp: less_Suc_eq_le le_Suc_eq Suc_le_eq) (metis le_neq_implies_less)
  then show ?case using Suc.prems IH by (simp add: array_get_Some)
qed

lemma all_loop_take:
  assumes "n \<le> length xs"
  shows "all_loop p (Some xs) 0 n = Some (list_all p (take n xs))"
proof -
  have "(\<forall>j. j < n \<longrightarrow> p (xs ! j)) \<longleftrightarrow> list_all p (take n xs)"
    using assms by (auto simp: list_all_length)
  then show ?thesis using assms by (simp add: all_loop_eq)
qed

lemma all_loop_True_bound: "all_loop p a i k = Some True \<Longrightarrow> 0 < k \<Longrightarrow> \<exists>xs. a = Some xs \<and> i + k \<le> length xs"
proof (induction k arbitrary: i)
  case 0
  then show ?case by simp
next
  case (Suc k)
  from Suc.prems(1) obtain x where x: "array_get a i = Some x" and px: "p x"
    and rest: "all_loop p a (Suc i) k = Some True"
    by (auto simp: bind_eq_Some_conv split: if_splits)
  from x obtain xs where a: "a = Some xs" and i: "i < length xs"
    by (auto simp: array_get_def split: option.splits if_splits)
  show ?case
  proof (cases k)
    case 0
    with a i show ?thesis by simp
  next
    case (Suc k')
    with Suc.IH [OF rest] a show ?thesis by simp
  qed
qed

lemma map_loop_Some:
  assumes "i + k \<le> length xs"
    and "\<And>j. i \<le> j \<Longrightarrow> j < i + k \<Longrightarrow> f (xs ! j) = Some (g (xs ! j))"
  shows "map_loop f (Some xs) i k = Some (map g (take k (drop i xs)))"
  using assms
proof (induction k arbitrary: i)
  case 0
  then show ?case by simp
next
  case (Suc k)
  have IH: "map_loop f (Some xs) (Suc i) k = Some (map g (take k (drop (Suc i) xs)))"
    using Suc.prems by (intro Suc.IH) auto
  have i: "i < length xs" using Suc.prems(1) by simp
  then have "drop i xs = xs ! i # drop (Suc i) xs" by (simp add: Cons_nth_drop_Suc)
  then show ?case using i IH Suc.prems(2) [of i] by (simp add: array_get_Some)
qed

corollary map_loop_id:
  assumes "n \<le> length xs" and "\<And>x. x \<in> set (take n xs) \<Longrightarrow> f x = Some x"
  shows "map_loop f (Some xs) 0 n = Some (take n xs)"
proof -
  have "map_loop f (Some xs) 0 n = Some (map id (take n (drop 0 xs)))"
  proof (rule map_loop_Some)
    fix j assume "0 \<le> j" and "j < 0 + n"
    then have "xs ! j \<in> set (take n xs)" using assms(1)
      by (auto simp: in_set_conv_nth intro!: exI [of _ j])
    then show "f (xs ! j) = Some (id (xs ! j))" using assms(2) by simp
  qed (use assms(1) in simp)
  then show ?thesis by simp
qed

lemma find_append:
  "find p (xs @ ys) = (case find p xs of None \<Rightarrow> find p ys | Some x \<Rightarrow> Some x)"
  by (induction xs) auto

subsection \<open>Counters\<close>

lemma unat_Suc_less:
  fixes i m :: "'w::len word"
  assumes "i < m"
  shows "unat (i + 1) = Suc (unat i)"
proof -
  have "unat i < unat m" using assms by (simp add: word_less_nat_alt)
  moreover have "unat m < 2 ^ LENGTH('w)" by (rule unsigned_less)
  ultimately have "Suc (unat i) < 2 ^ LENGTH('w)" by linarith
  then show ?thesis by (simp add: unat_word_ariths)
qed

lemma word_Suc_le:
  fixes i m :: "'w::len word"
  assumes "i < m"
  shows "i + 1 \<le> m"
  using assms unat_Suc_less [OF assms] by (simp add: word_le_nat_alt word_less_nat_alt)

end
