(* ===== verification/Cipher.thy ===== *)
theory Cipher
  imports Prelude
begin

section \<open>Cipher suites\<close>

text \<open>
  The structs of \<open>include/e2ees/cipher.h\<close> and the suite objects of \<open>src/cipher_ecc.c\<close>,
  \<open>src/cipher_kem_pqc.c\<close>, \<open>src/cipher_ds_pqc.c\<close>, \<open>src/cipher_se.c\<close> and
  \<open>src/cipher_hf.c\<close>, with the wrappers of \<open>src/crypto.c\<close> they point to.

  A function pointer is an optional function.  A pair (pointer, length) of a C argument list is
  the byte list the callee reads; a pointer passed without a length stays a pointer.  A suite
  function may fail to return (\<^const>\<open>None\<close>), so that a wrapper's own undefined behaviour is
  visible to its caller.

  PQClean, mbedtls and curve25519-donna are the parameters collected in the record
  \<open>prims\<close>.  Functions that draw random bytes take and return the position in the random
  tape of the platform's \<open>gen_rand\<close> handler.
\<close>

unbundle bit_operations_syntax

subsection \<open>Binary data\<close>

text \<open>\<open>ProtobufCBinaryData\<close>: the recorded length and the buffer, which need not agree.\<close>

record bdata =
  pb_len :: nat
  pb_data :: "bytes ptr"

definition buf :: "bytes \<Rightarrow> bdata" where
  "buf bs = \<lparr>pb_len = length bs, pb_data = Some bs\<rparr>"

definition empty_bdata :: bdata where
  "empty_bdata = \<lparr>pb_len = 0, pb_data = None\<rparr>"

abbreviation read_pb :: "bdata \<Rightarrow> bytes option" where
  "read_pb b \<equiv> read_bytes (pb_data b) (pb_len b)"

lemma buf_simps [simp]: "pb_len (buf bs) = length bs" "pb_data (buf bs) = Some bs"
  by (simp_all add: buf_def)

lemma empty_bdata_simps [simp]: "pb_len empty_bdata = 0" "pb_data empty_bdata = None"
  by (simp_all add: empty_bdata_def)

lemma buf_eq_iff [simp]: "buf a = buf b \<longleftrightarrow> a = b"
  by (auto simp: buf_def)

subsection \<open>The structs of cipher.h\<close>

record crypto_ds_param =
  dsp_pqc_param :: bool
  dsp_sign_pub_key_len :: nat
  dsp_sign_priv_key_len :: nat
  dsp_sig_len :: nat

record crypto_kem_param =
  kp_pqc_param :: bool
  kp_asym_pub_key_len :: nat
  kp_asym_priv_key_len :: nat
  kp_kem_ciphertext_len :: nat
  kp_shared_secret_len :: nat

record crypto_se_param =
  sep_aead_key_len :: nat
  sep_aead_iv_len :: nat
  sep_aead_tag_len :: nat

record crypto_hf_param =
  hfp_hf_len :: nat

record ds_suite =
  ds_get_param :: "crypto_ds_param ptr"
  ds_key_gen :: "(seed \<Rightarrow> (int \<times> bdata \<times> bdata \<times> seed) option) ptr"
  ds_sign :: "(seed \<Rightarrow> bytes \<Rightarrow> bytes ptr \<Rightarrow> (int \<times> bytes \<times> seed) option) ptr"
  ds_verify :: "(bytes \<Rightarrow> bytes \<Rightarrow> bytes ptr \<Rightarrow> int option) ptr"

record kem_suite =
  kem_get_param :: "crypto_kem_param ptr"
  kem_asym_key_gen :: "(seed \<Rightarrow> (int \<times> bdata \<times> bdata \<times> seed) option) ptr"
  kem_encaps :: "(seed \<Rightarrow> bdata \<Rightarrow> (int \<times> bytes \<times> bdata \<times> seed) option) ptr"
  kem_decaps :: "(bdata \<Rightarrow> bdata \<Rightarrow> (int \<times> bytes) option) ptr"

record se_suite =
  se_get_param :: "crypto_se_param ptr"
  se_encrypt :: "(bdata \<Rightarrow> bytes ptr \<Rightarrow> bytes \<Rightarrow> (int \<times> bdata) option) ptr"
  se_decrypt :: "(bdata \<Rightarrow> bytes ptr \<Rightarrow> bytes \<Rightarrow> (int \<times> bdata) option) ptr"

record hf_suite =
  hf_get_param :: "crypto_hf_param ptr"
  hf_hkdf :: "(bytes \<Rightarrow> bytes \<Rightarrow> bytes \<Rightarrow> nat \<Rightarrow> (int \<times> bytes) option) ptr"
  hf_hmac :: "(bytes \<Rightarrow> bytes \<Rightarrow> (int \<times> bytes) option) ptr"
  hf_hash :: "(bytes \<Rightarrow> (int \<times> bytes) option) ptr"

record cipher_suite =
  cs_ds_suite :: "ds_suite ptr"
  cs_kem_suite :: "kem_suite ptr"
  cs_se_suite :: "se_suite ptr"
  cs_hf_suite :: "hf_suite ptr"

subsection \<open>Algorithms and third-party primitives\<close>

text \<open>One constructor per suite object of the sources.\<close>

datatype ds_alg =
    DS_CURVE25519 | DS_MLDSA44 | DS_MLDSA65 | DS_MLDSA87 | DS_FALCON512 | DS_FALCON1024
  | DS_SPHINCS_SHA2_128F | DS_SPHINCS_SHA2_128S | DS_SPHINCS_SHA2_192F | DS_SPHINCS_SHA2_192S
  | DS_SPHINCS_SHA2_256F | DS_SPHINCS_SHA2_256S | DS_SPHINCS_SHAKE_128F | DS_SPHINCS_SHAKE_128S
  | DS_SPHINCS_SHAKE_192F | DS_SPHINCS_SHAKE_192S | DS_SPHINCS_SHAKE_256F | DS_SPHINCS_SHAKE_256S

datatype kem_alg =
    KEM_CURVE25519_ECDH | KEM_HQC128 | KEM_HQC192 | KEM_HQC256
  | KEM_MLKEM512 | KEM_MLKEM768 | KEM_MLKEM1024
  | KEM_MCELIECE348864 | KEM_MCELIECE348864F | KEM_MCELIECE460896 | KEM_MCELIECE460896F
  | KEM_MCELIECE6688128 | KEM_MCELIECE6688128F | KEM_MCELIECE6960119 | KEM_MCELIECE6960119F
  | KEM_MCELIECE8192128 | KEM_MCELIECE8192128F

record prims =
  pr_gen_rand :: "seed \<Rightarrow> nat \<Rightarrow> bytes \<times> seed"
  \<comment> \<open>PQClean, per algorithm: key sizes, key generation, encapsulation, signatures\<close>
  pr_kem_pk_bytes :: "kem_alg \<Rightarrow> nat"
  pr_kem_sk_bytes :: "kem_alg \<Rightarrow> nat"
  pr_kem_ct_bytes :: "kem_alg \<Rightarrow> nat"
  pr_kem_ss_bytes :: "kem_alg \<Rightarrow> nat"
  pr_kem_keypair :: "kem_alg \<Rightarrow> seed \<Rightarrow> int \<times> bytes \<times> bytes \<times> seed"
  pr_kem_enc :: "kem_alg \<Rightarrow> seed \<Rightarrow> bytes ptr \<Rightarrow> int \<times> bytes \<times> bytes \<times> seed"
  pr_kem_dec :: "kem_alg \<Rightarrow> bytes ptr \<Rightarrow> bytes ptr \<Rightarrow> int \<times> bytes"
  pr_sign_pk_bytes :: "ds_alg \<Rightarrow> nat"
  pr_sign_sk_bytes :: "ds_alg \<Rightarrow> nat"
  pr_sign_bytes :: "ds_alg \<Rightarrow> nat"
  pr_sign_keypair :: "ds_alg \<Rightarrow> seed \<Rightarrow> int \<times> bytes \<times> bytes \<times> seed"
  pr_sign_signature :: "ds_alg \<Rightarrow> seed \<Rightarrow> bytes \<Rightarrow> bytes ptr \<Rightarrow> int \<times> bytes \<times> seed"
  pr_sign_verify :: "ds_alg \<Rightarrow> bytes \<Rightarrow> bytes \<Rightarrow> bytes ptr \<Rightarrow> int"
  \<comment> \<open>curve25519-donna and the curve25519 signatures\<close>
  pr_curve25519_donna :: "bytes ptr \<Rightarrow> bytes ptr \<Rightarrow> int \<times> bytes"
  pr_curve25519_sign :: "bytes ptr \<Rightarrow> bytes \<Rightarrow> bytes \<Rightarrow> int \<times> bytes"
  pr_curve25519_verify :: "bytes \<Rightarrow> bytes ptr \<Rightarrow> bytes \<Rightarrow> int"
  \<comment> \<open>mbedtls: AES-GCM, HKDF, HMAC and SHA-256\<close>
  pr_gcm_setkey :: "bytes \<Rightarrow> int"
  pr_gcm_crypt_and_tag :: "bool \<Rightarrow> bytes \<Rightarrow> bytes \<Rightarrow> bytes \<Rightarrow> bytes \<Rightarrow> int \<times> bytes \<times> bytes"
  pr_hkdf :: "bytes \<Rightarrow> bytes \<Rightarrow> bytes \<Rightarrow> nat \<Rightarrow> int \<times> bytes"
  pr_hmac :: "bytes \<Rightarrow> bytes \<Rightarrow> int \<times> bytes"
  pr_sha256 :: "bytes \<Rightarrow> int \<times> bytes"

abbreviation (input) SHA256_OUTPUT_LENGTH :: nat where "SHA256_OUTPUT_LENGTH \<equiv> 32"
abbreviation (input) CURVE25519_KEY_LENGTH :: nat where "CURVE25519_KEY_LENGTH \<equiv> 32"
abbreviation (input) CURVE_SIGNATURE_LENGTH :: nat where "CURVE_SIGNATURE_LENGTH \<equiv> 64"
abbreviation (input) AES256_KEY_LENGTH :: nat where "AES256_KEY_LENGTH \<equiv> 32"
abbreviation (input) AES256_IV_LENGTH :: nat where "AES256_IV_LENGTH \<equiv> 16"
abbreviation (input) AES256_GCM_TAG_LENGTH :: nat where "AES256_GCM_TAG_LENGTH \<equiv> 16"

subsection \<open>Curve25519 (src/crypto.c, src/cipher_ecc.c)\<close>

definition CURVE25519_BASEPOINT :: bytes where
  "CURVE25519_BASEPOINT = 9 # replicate 31 0"

definition crypto_generate_private_key_curve25519 :: "prims \<Rightarrow> seed \<Rightarrow> (bytes \<times> seed) option" where
  "crypto_generate_private_key_curve25519 P s =
     (let (r, s') = pr_gen_rand P s CURVE25519_KEY_LENGTH in
      do { r \<leftarrow> fill CURVE25519_KEY_LENGTH r;
           Some (r[0 := r ! 0 AND 248, 31 := (r ! 31 AND 127) OR 64], s') })"

definition crypto_kem_asym_key_gen_curve25519 ::
    "prims \<Rightarrow> seed \<Rightarrow> (int \<times> bdata \<times> bdata \<times> seed) option" where
  "crypto_kem_asym_key_gen_curve25519 P s =
     do { (priv, s') \<leftarrow> crypto_generate_private_key_curve25519 P s;
          let (ret, pub) = pr_curve25519_donna P (Some priv) (Some CURVE25519_BASEPOINT);
          pub \<leftarrow> fill CURVE25519_KEY_LENGTH pub;
          Some (ret, buf pub, buf priv, s') }"

definition crypto_kem_decaps_curve25519 :: "prims \<Rightarrow> bdata \<Rightarrow> bdata \<Rightarrow> (int \<times> bytes) option" where
  "crypto_kem_decaps_curve25519 P our_key ciphertext =
     Some (pr_curve25519_donna P (pb_data our_key) (pb_data ciphertext))"

definition crypto_ds_sign_curve25519 ::
    "prims \<Rightarrow> seed \<Rightarrow> bytes \<Rightarrow> bytes ptr \<Rightarrow> (int \<times> bytes \<times> seed) option" where
  "crypto_ds_sign_curve25519 P s msg private_key =
     (let (nonce, s') = pr_gen_rand P s CURVE_SIGNATURE_LENGTH;
          (ret, sig) = pr_curve25519_sign P private_key msg nonce
      in do { sig \<leftarrow> fill CURVE_SIGNATURE_LENGTH sig; Some (ret, sig, s') })"

definition crypto_ds_verify_curve25519 :: "prims \<Rightarrow> bytes \<Rightarrow> bytes \<Rightarrow> bytes ptr \<Rightarrow> int option" where
  "crypto_ds_verify_curve25519 P signature_in msg public_key =
     Some (pr_curve25519_verify P signature_in public_key msg)"

text \<open>
  The key generation retries until a trial signature verifies; the code has no bound on the
  number of rounds, so not returning is the value \<^const>\<open>None\<close>.
\<close>

partial_function (option) crypto_ds_key_gen_curve25519 ::
    "prims \<Rightarrow> seed \<Rightarrow> (int \<times> bdata \<times> bdata \<times> seed) option" where
  "crypto_ds_key_gen_curve25519 P s =
     do { (priv, s1) \<leftarrow> crypto_generate_private_key_curve25519 P s;
          let (ret, pub) = pr_curve25519_donna P (Some priv) (Some CURVE25519_BASEPOINT);
          pub \<leftarrow> fill CURVE25519_KEY_LENGTH pub;
          (ret2, sig, s2) \<leftarrow> crypto_ds_sign_curve25519 P s1 (replicate 10 0) (Some priv);
          let result = pr_curve25519_verify P sig (Some pub) (replicate 10 0);
          if result \<noteq> 0 then crypto_ds_key_gen_curve25519 P s2
          else Some (result, buf pub, buf priv, s2) }"

definition E2EES_DS_CURVE25519 :: "prims \<Rightarrow> ds_suite" where
  "E2EES_DS_CURVE25519 P =
     \<lparr>ds_get_param = Some \<lparr>dsp_pqc_param = False, dsp_sign_pub_key_len = CURVE25519_KEY_LENGTH,
                           dsp_sign_priv_key_len = CURVE25519_KEY_LENGTH,
                           dsp_sig_len = CURVE_SIGNATURE_LENGTH\<rparr>,
      ds_key_gen = Some (crypto_ds_key_gen_curve25519 P),
      ds_sign = Some (crypto_ds_sign_curve25519 P),
      ds_verify = Some (crypto_ds_verify_curve25519 P)\<rparr>"

definition E2EES_KEM_CURVE25519_ECDH :: "prims \<Rightarrow> kem_suite" where
  "E2EES_KEM_CURVE25519_ECDH P =
     \<lparr>kem_get_param = Some \<lparr>kp_pqc_param = False, kp_asym_pub_key_len = CURVE25519_KEY_LENGTH,
                            kp_asym_priv_key_len = CURVE25519_KEY_LENGTH,
                            kp_kem_ciphertext_len = 0,
                            kp_shared_secret_len = CURVE25519_KEY_LENGTH\<rparr>,
      kem_asym_key_gen = Some (crypto_kem_asym_key_gen_curve25519 P),
      kem_encaps = None,
      kem_decaps = Some (crypto_kem_decaps_curve25519 P)\<rparr>"

subsection \<open>PQClean wrappers (src/cipher_kem_pqc.c, src/cipher_ds_pqc.c)\<close>

text \<open>
  The sixteen KEM wrappers and the seventeen signature wrappers of the sources are copies of
  one text up to the algorithm's name, which is the argument \<open>a\<close> here.
\<close>

definition crypto_kem_params_pqc :: "prims \<Rightarrow> kem_alg \<Rightarrow> crypto_kem_param" where
  "crypto_kem_params_pqc P a =
     \<lparr>kp_pqc_param = True, kp_asym_pub_key_len = pr_kem_pk_bytes P a,
      kp_asym_priv_key_len = pr_kem_sk_bytes P a, kp_kem_ciphertext_len = pr_kem_ct_bytes P a,
      kp_shared_secret_len = pr_kem_ss_bytes P a\<rparr>"

definition crypto_kem_asym_key_gen_pqc ::
    "prims \<Rightarrow> kem_alg \<Rightarrow> seed \<Rightarrow> (int \<times> bdata \<times> bdata \<times> seed) option" where
  "crypto_kem_asym_key_gen_pqc P a s =
     (let (ret, pk, sk, s') = pr_kem_keypair P a s in
      do { sk \<leftarrow> fill (pr_kem_sk_bytes P a) sk;
           pk \<leftarrow> fill (pr_kem_pk_bytes P a) pk;
           Some (ret, buf pk, buf sk, s') })"

definition crypto_kem_encaps_pqc ::
    "prims \<Rightarrow> kem_alg \<Rightarrow> seed \<Rightarrow> bdata \<Rightarrow> (int \<times> bytes \<times> bdata \<times> seed) option" where
  "crypto_kem_encaps_pqc P a s their_key =
     (let (ret, ct, ss, s') = pr_kem_enc P a s (pb_data their_key) in
      do { ct \<leftarrow> fill (pr_kem_ct_bytes P a) ct; Some (ret, ss, buf ct, s') })"

definition crypto_kem_decaps_pqc :: "prims \<Rightarrow> kem_alg \<Rightarrow> bdata \<Rightarrow> bdata \<Rightarrow> (int \<times> bytes) option" where
  "crypto_kem_decaps_pqc P a our_key ciphertext =
     Some (pr_kem_dec P a (pb_data ciphertext) (pb_data our_key))"

definition E2EES_KEM_PQC :: "prims \<Rightarrow> kem_alg \<Rightarrow> kem_suite" where
  "E2EES_KEM_PQC P a =
     \<lparr>kem_get_param = Some (crypto_kem_params_pqc P a),
      kem_asym_key_gen = Some (crypto_kem_asym_key_gen_pqc P a),
      kem_encaps = Some (crypto_kem_encaps_pqc P a),
      kem_decaps = Some (crypto_kem_decaps_pqc P a)\<rparr>"

definition crypto_ds_params_pqc :: "prims \<Rightarrow> ds_alg \<Rightarrow> crypto_ds_param" where
  "crypto_ds_params_pqc P a =
     \<lparr>dsp_pqc_param = True, dsp_sign_pub_key_len = pr_sign_pk_bytes P a,
      dsp_sign_priv_key_len = pr_sign_sk_bytes P a, dsp_sig_len = pr_sign_bytes P a\<rparr>"

definition crypto_ds_key_gen_pqc ::
    "prims \<Rightarrow> ds_alg \<Rightarrow> seed \<Rightarrow> (int \<times> bdata \<times> bdata \<times> seed) option" where
  "crypto_ds_key_gen_pqc P a s =
     (let (ret, pk, sk, s') = pr_sign_keypair P a s in
      do { sk \<leftarrow> fill (pr_sign_sk_bytes P a) sk;
           pk \<leftarrow> fill (pr_sign_pk_bytes P a) pk;
           Some (ret, buf pk, buf sk, s') })"

definition E2EES_DS_PQC :: "prims \<Rightarrow> ds_alg \<Rightarrow> ds_suite" where
  "E2EES_DS_PQC P a =
     \<lparr>ds_get_param = Some (crypto_ds_params_pqc P a),
      ds_key_gen = Some (crypto_ds_key_gen_pqc P a),
      ds_sign = Some (\<lambda>s msg sk. Some (pr_sign_signature P a s msg sk)),
      ds_verify = Some (\<lambda>sig msg pk. Some (pr_sign_verify P a sig msg pk))\<rparr>"

subsection \<open>AES-256-GCM (src/cipher_se.c, src/crypto.c)\<close>

definition crypto_aes256_gcm_ciphertext_data_len :: "nat \<Rightarrow> nat" where
  "crypto_aes256_gcm_ciphertext_data_len n = n + AES256_GCM_TAG_LENGTH"

text \<open>The \<open>size_t\<close> subtraction wraps for a ciphertext shorter than the tag.\<close>

definition crypto_aes256_gcm_plaintext_data_len :: "nat \<Rightarrow> nat" where
  "crypto_aes256_gcm_plaintext_data_len n = (n + 2 ^ 64 - AES256_GCM_TAG_LENGTH) mod 2 ^ 64"

definition crypto_aes_encrypt_gcm ::
    "prims \<Rightarrow> bytes \<Rightarrow> bytes \<Rightarrow> bytes \<Rightarrow> bytes \<Rightarrow> bytes \<Rightarrow> (int \<times> bytes) option" where
  "crypto_aes_encrypt_gcm P plaintext_data aes_key iv ad ciphertext_data =
     (let ret = pr_gcm_setkey P aes_key in
      if ret = E2EES_RESULT_SUCC then
        (let (ret, ct, tag) = pr_gcm_crypt_and_tag P True aes_key iv ad plaintext_data in
         do { ct \<leftarrow> fill (length plaintext_data) ct;
              tag \<leftarrow> fill AES256_GCM_TAG_LENGTH tag;
              out \<leftarrow> write_buf ciphertext_data (ct @ tag);
              Some (ret, out) })
      else Some (ret, ciphertext_data))"

text \<open>
  The tag comparison of \<open>crypto_aes_decrypt_gcm\<close>: \<open>diff |= input_tag_buf[i] ^ tag_buf[i]\<close>
  over the tag's bytes.
\<close>

fun tag_diff :: "bytes \<Rightarrow> bytes \<Rightarrow> byte \<Rightarrow> byte" where
  "tag_diff (a # as) (b # bs) diff = tag_diff as bs (diff OR (a XOR b))"
| "tag_diff _ _ diff = diff"

text \<open>
  The tag is read at \<open>ciphertext_data + ciphertext_data_len - 16\<close>, before the buffer when the
  ciphertext is shorter.  On a failure the plaintext is wiped and its length set to zero.
\<close>

definition crypto_aes_decrypt_gcm ::
    "prims \<Rightarrow> bytes \<Rightarrow> bytes \<Rightarrow> bytes \<Rightarrow> bytes \<Rightarrow> (int \<times> bytes \<times> nat) option" where
  "crypto_aes_decrypt_gcm P ciphertext_data aes_key iv ad =
     (if length ciphertext_data < AES256_GCM_TAG_LENGTH then None
      else
        let n = crypto_aes256_gcm_plaintext_data_len (length ciphertext_data);
            input_tag = drop n ciphertext_data;
            ret = pr_gcm_setkey P aes_key;
            (ret, pt, tag) = (if ret = 0
               then pr_gcm_crypt_and_tag P False aes_key iv ad (take n ciphertext_data)
               else (ret, replicate n 0, replicate AES256_GCM_TAG_LENGTH 0))
        in do { pt \<leftarrow> fill n pt; tag \<leftarrow> fill AES256_GCM_TAG_LENGTH tag;
                if ret = 0 \<and> tag_diff input_tag tag 0 = 0 then Some (E2EES_RESULT_SUCC, pt, n)
                else Some (E2EES_RESULT_FAIL, replicate n 0, 0) })"

definition crypto_se_encrypt_aes256_gcm ::
    "prims \<Rightarrow> bdata \<Rightarrow> bytes ptr \<Rightarrow> bytes \<Rightarrow> (int \<times> bdata) option" where
  "crypto_se_encrypt_aes256_gcm P ad aes_key plaintext_data =
     do { key \<leftarrow> read_bytes aes_key (AES256_KEY_LENGTH + AES256_IV_LENGTH);
          add \<leftarrow> read_pb ad;
          let n = crypto_aes256_gcm_ciphertext_data_len (length plaintext_data);
          (ret, out) \<leftarrow> crypto_aes_encrypt_gcm P plaintext_data (take AES256_KEY_LENGTH key)
             (drop AES256_KEY_LENGTH key) add (replicate n 0);
          Some (ret, \<lparr>pb_len = n, pb_data = Some out\<rparr>) }"

definition crypto_se_decrypt_aes256_gcm ::
    "prims \<Rightarrow> bdata \<Rightarrow> bytes ptr \<Rightarrow> bytes \<Rightarrow> (int \<times> bdata) option" where
  "crypto_se_decrypt_aes256_gcm P ad aes_key ciphertext_data =
     do { key \<leftarrow> read_bytes aes_key (AES256_KEY_LENGTH + AES256_IV_LENGTH);
          add \<leftarrow> read_pb ad;
          (ret, pt, n) \<leftarrow> crypto_aes_decrypt_gcm P ciphertext_data (take AES256_KEY_LENGTH key)
             (drop AES256_KEY_LENGTH key) add;
          Some (ret, if n > 0 then \<lparr>pb_len = n, pb_data = Some pt\<rparr>
                     else \<lparr>pb_len = n, pb_data = None\<rparr>) }"

definition E2EES_SE_AES256_SHA256 :: "prims \<Rightarrow> se_suite" where
  "E2EES_SE_AES256_SHA256 P =
     \<lparr>se_get_param = Some \<lparr>sep_aead_key_len = AES256_KEY_LENGTH,
                           sep_aead_iv_len = AES256_IV_LENGTH,
                           sep_aead_tag_len = AES256_GCM_TAG_LENGTH\<rparr>,
      se_encrypt = Some (crypto_se_encrypt_aes256_gcm P),
      se_decrypt = Some (crypto_se_decrypt_aes256_gcm P)\<rparr>"

subsection \<open>SHA-256 (src/cipher_hf.c, src/crypto.c)\<close>

definition crypto_hf_hkdf_sha256 ::
    "prims \<Rightarrow> bytes \<Rightarrow> bytes \<Rightarrow> bytes \<Rightarrow> nat \<Rightarrow> (int \<times> bytes) option" where
  "crypto_hf_hkdf_sha256 P input salt info output_len = Some (pr_hkdf P salt input info output_len)"

definition crypto_hf_hmac_sha256 :: "prims \<Rightarrow> bytes \<Rightarrow> bytes \<Rightarrow> (int \<times> bytes) option" where
  "crypto_hf_hmac_sha256 P key input =
     (let (ret, out) = pr_hmac P key input
      in Some (if ret = 0 then E2EES_RESULT_SUCC else E2EES_RESULT_FAIL, out))"

definition crypto_hf_sha256 :: "prims \<Rightarrow> bytes \<Rightarrow> (int \<times> bytes) option" where
  "crypto_hf_sha256 P msg =
     (let (ret, out) = pr_sha256 P msg
      in Some (if ret = 0 then E2EES_RESULT_SUCC else E2EES_RESULT_FAIL, out))"

definition E2EES_HF_SHA256 :: "prims \<Rightarrow> hf_suite" where
  "E2EES_HF_SHA256 P =
     \<lparr>hf_get_param = Some \<lparr>hfp_hf_len = SHA256_OUTPUT_LENGTH\<rparr>,
      hf_hkdf = Some (crypto_hf_hkdf_sha256 P),
      hf_hmac = Some (crypto_hf_hmac_sha256 P),
      hf_hash = Some (crypto_hf_sha256 P)\<rparr>"

subsection \<open>Calls through a suite\<close>

text \<open>
  \<open>cipher_suite->kem_suite->encaps(...)\<close> and its siblings: two pointers followed, then the call.
\<close>

definition kem_param :: "cipher_suite \<Rightarrow> crypto_kem_param option" where
  "kem_param cs = do { k \<leftarrow> deref (cs_kem_suite cs); deref (kem_get_param k) }"

definition ds_param :: "cipher_suite \<Rightarrow> crypto_ds_param option" where
  "ds_param cs = do { d \<leftarrow> deref (cs_ds_suite cs); deref (ds_get_param d) }"

definition se_param :: "cipher_suite \<Rightarrow> crypto_se_param option" where
  "se_param cs = do { e \<leftarrow> deref (cs_se_suite cs); deref (se_get_param e) }"

definition hf_param :: "cipher_suite \<Rightarrow> crypto_hf_param option" where
  "hf_param cs = do { h \<leftarrow> deref (cs_hf_suite cs); deref (hf_get_param h) }"

definition call_asym_key_gen :: "cipher_suite \<Rightarrow> seed \<Rightarrow> (int \<times> bdata \<times> bdata \<times> seed) option" where
  "call_asym_key_gen cs s = do { k \<leftarrow> deref (cs_kem_suite cs); f \<leftarrow> deref (kem_asym_key_gen k); f s }"

definition call_encaps :: "cipher_suite \<Rightarrow> seed \<Rightarrow> bdata \<Rightarrow> (int \<times> bytes \<times> bdata \<times> seed) option" where
  "call_encaps cs s pk = do { k \<leftarrow> deref (cs_kem_suite cs); f \<leftarrow> deref (kem_encaps k); f s pk }"

definition call_decaps :: "cipher_suite \<Rightarrow> bdata \<Rightarrow> bdata \<Rightarrow> (int \<times> bytes) option" where
  "call_decaps cs sk ct = do { k \<leftarrow> deref (cs_kem_suite cs); f \<leftarrow> deref (kem_decaps k); f sk ct }"

definition call_ds_key_gen :: "cipher_suite \<Rightarrow> seed \<Rightarrow> (int \<times> bdata \<times> bdata \<times> seed) option" where
  "call_ds_key_gen cs s = do { d \<leftarrow> deref (cs_ds_suite cs); f \<leftarrow> deref (ds_key_gen d); f s }"

definition call_sign :: "cipher_suite \<Rightarrow> seed \<Rightarrow> bytes \<Rightarrow> bytes ptr \<Rightarrow> (int \<times> bytes \<times> seed) option" where
  "call_sign cs s msg sk = do { d \<leftarrow> deref (cs_ds_suite cs); f \<leftarrow> deref (ds_sign d); f s msg sk }"

definition call_verify :: "cipher_suite \<Rightarrow> bytes \<Rightarrow> bytes \<Rightarrow> bytes ptr \<Rightarrow> int option" where
  "call_verify cs sig msg pk = do { d \<leftarrow> deref (cs_ds_suite cs); f \<leftarrow> deref (ds_verify d); f sig msg pk }"

definition call_encrypt :: "cipher_suite \<Rightarrow> bdata \<Rightarrow> bytes ptr \<Rightarrow> bytes \<Rightarrow> (int \<times> bdata) option" where
  "call_encrypt cs ad key pt = do { e \<leftarrow> deref (cs_se_suite cs); f \<leftarrow> deref (se_encrypt e); f ad key pt }"

definition call_decrypt :: "cipher_suite \<Rightarrow> bdata \<Rightarrow> bytes ptr \<Rightarrow> bytes \<Rightarrow> (int \<times> bdata) option" where
  "call_decrypt cs ad key ct = do { e \<leftarrow> deref (cs_se_suite cs); f \<leftarrow> deref (se_decrypt e); f ad key ct }"

definition call_hkdf :: "cipher_suite \<Rightarrow> bytes \<Rightarrow> bytes \<Rightarrow> bytes \<Rightarrow> nat \<Rightarrow> (int \<times> bytes) option" where
  "call_hkdf cs ikm salt info n =
     do { h \<leftarrow> deref (cs_hf_suite cs); f \<leftarrow> deref (hf_hkdf h); f ikm salt info n }"

definition call_hmac :: "cipher_suite \<Rightarrow> bytes \<Rightarrow> bytes \<Rightarrow> (int \<times> bytes) option" where
  "call_hmac cs key msg = do { h \<leftarrow> deref (cs_hf_suite cs); f \<leftarrow> deref (hf_hmac h); f key msg }"

lemmas call_defs = kem_param_def ds_param_def se_param_def hf_param_def call_asym_key_gen_def
  call_encaps_def call_decaps_def call_ds_key_gen_def call_sign_def call_verify_def
  call_encrypt_def call_decrypt_def call_hkdf_def call_hmac_def

subsection \<open>The tag comparison\<close>

lemma word_or_eq_0: "(a OR b = (0 :: 'w::len word)) \<longleftrightarrow> a = 0 \<and> b = 0"
  by (auto simp: bit_eq_iff bit_simps)

lemma word_xor_eq_0: "(a XOR b = (0 :: 'w::len word)) \<longleftrightarrow> a = b"
  by (auto simp: bit_eq_iff bit_simps)

lemma tag_diff_eq_0:
  "length as = length bs \<Longrightarrow> tag_diff as bs d = 0 \<longleftrightarrow> d = 0 \<and> as = bs"
  by (induction as bs d rule: tag_diff.induct) (auto simp: word_or_eq_0 word_xor_eq_0)

lemma plaintext_len_ok:
  "16 \<le> n \<Longrightarrow> n < 2 ^ 64 \<Longrightarrow> crypto_aes256_gcm_plaintext_data_len n = n - AES256_GCM_TAG_LENGTH"
  by (simp add: crypto_aes256_gcm_plaintext_data_len_def nat_mod_eq_iff le_mod_geq mod_if)

end
