(* ===== verification/Proto.thy ===== *)
theory Proto
  imports Cipher
begin

section \<open>Message and state structs\<close>

text \<open>
  The structs the library keeps and exchanges.  Their C declarations are generated from
  protocol buffer files that are not part of the repository, so the records hold the fields
  the sources read and write, with the types they are used at.  A nested message is a pointer,
  a repeated field an array pointer with its own counter, and \<open>init_\<dots>\<close> is what the
  generated \<open>e2ees__\<dots>__init\<close> leaves behind: zero, false, NULL, and for strings and
  enums the defaults of the generator.
\<close>

subsection \<open>Addresses and keys\<close>

datatype peer_case = PEER_NOT_SET | PEER_USER | PEER_GROUP

record peer_user =
  pu_user_name :: cstr
  pu_user_id :: cstr
  pu_device_id :: cstr

record peer_group =
  pg_group_name :: cstr
  pg_group_id :: cstr

record address =
  ad_domain :: cstr
  ad_peer_case :: peer_case
  ad_user :: "peer_user ptr"
  ad_group :: "peer_group ptr"

record key_pair =
  kpr_private_key :: bdata
  kpr_public_key :: bdata

record identity_key =
  ik_asym_key_pair :: "key_pair ptr"
  ik_sign_key_pair :: "key_pair ptr"

record signed_pre_key =
  spk_id :: u32
  spk_key_pair :: "key_pair ptr"
  spk_signature :: bdata
  spk_ttl :: int

record one_time_pre_key =
  opk_id :: u32
  opk_used :: bool
  opk_key_pair :: "key_pair ptr"

record identity_key_public =
  ikp_asym_public_key :: bdata
  ikp_sign_public_key :: bdata

record signed_pre_key_public =
  spkp_spk_id :: u32
  spkp_public_key :: bdata
  spkp_signature :: bdata

record one_time_pre_key_public =
  opkp_opk_id :: u32
  opkp_public_key :: bdata

record subject =
  su_cn :: cstr
  su_domain :: cstr
  su_o :: cstr
  su_n_ou :: nat
  su_ou :: "cstr array"

record server_signed_signature =
  sss_signer :: "subject ptr"
  sss_signing_alg :: u32
  sss_signing_public_key_fingerprint :: bdata
  sss_msg_fingerprint :: bdata
  sss_signature :: bdata

record pre_key_bundle =
  pkb_e2ees_pack_id :: u32
  pkb_user_address :: "address ptr"
  pkb_identity_key_public :: "identity_key_public ptr"
  pkb_signed_pre_key_public :: "signed_pre_key_public ptr"
  pkb_one_time_pre_key_public :: "one_time_pre_key_public ptr"
  pkb_signature :: "server_signed_signature ptr"

subsection \<open>Certificates and accounts\<close>

record cert =
  ce_issuee :: "subject ptr"
  ce_public_key_alg :: int
  ce_public_key :: bdata
  ce_issuer :: "subject ptr"
  ce_not_before :: int
  ce_not_after :: int

record certificate =
  ct_version :: int
  ct_hash_alg :: int
  ct_signing_alg :: int
  ct_cert :: "cert ptr"
  ct_cert_fingerprint :: bdata
  ct_signing_public_key_fingerprint :: bdata
  ct_signature :: bdata
  ct_ts :: int
  ct_valid :: bool

record account =
  acc_version :: cstr
  acc_saved :: bool
  acc_address :: "address ptr"
  acc_password :: cstr
  acc_auth :: cstr
  acc_e2ees_pack_id :: u32
  acc_identity_key :: "identity_key ptr"
  acc_signed_pre_key :: "signed_pre_key ptr"
  acc_one_time_pre_key_list :: "one_time_pre_key ptr array"
  acc_n_one_time_pre_key_list :: nat
  acc_next_one_time_pre_key_id :: u32
  acc_server_cert :: "certificate ptr"
  acc_expires_in :: int

subsection \<open>Ratchet and session state\<close>

record chain_key =
  ck_index :: u32
  ck_shared_key :: bdata

record msg_key =
  mk_index :: u32
  mk_derived_key :: bdata

record sender_chain =
  sc_their_ratchet_public_key :: bdata
  sc_our_ratchet_public_key :: bdata
  sc_chain_key :: "chain_key ptr"

record receiver_chain =
  rc_their_ratchet_public_key :: bdata
  rc_our_ratchet_private_key :: bdata
  rc_chain_key :: "chain_key ptr"

record skipped_node =
  sk_ratchet_key_public :: bdata
  sk_msg_key :: "msg_key ptr"

record ratchet =
  rt_root_key :: bdata
  rt_root_sequence :: u32
  rt_sending_message_sequence :: u32
  rt_received_message_sequence :: u32
  rt_sender_chain :: "sender_chain ptr"
  rt_receiver_chain :: "receiver_chain ptr"
  rt_n_skipped_msg_key_list :: nat
  rt_skipped_msg_key_list :: "skipped_node ptr array"

record one2one_payload =
  pl_sequence :: u32
  pl_ratchet_key :: bdata
  pl_root_sequence :: u32
  pl_sending_message_sequence :: u32
  pl_ciphertext :: bdata

record session =
  se_version :: cstr
  se_e2ees_pack_id :: u32
  se_session_id :: cstr
  se_our_address :: "address ptr"
  se_their_address :: "address ptr"
  se_ratchet :: "ratchet ptr"
  se_associated_data :: bdata
  se_temp_shared_secret :: bdata
  se_fingerprint :: bdata
  se_alice_base_key :: "key_pair ptr"
  se_bob_signed_pre_key_id :: u32
  se_bob_one_time_pre_key_id :: u32
  se_n_pre_shared_input_list :: nat
  se_pre_shared_input_list :: "bdata array"
  se_f2f :: bool
  se_responded :: bool
  se_invite_t :: int

subsection \<open>Groups\<close>

text \<open>
  The role is an enum; values other than the four the code names are possible on the wire.
\<close>

datatype group_role =
    GROUP_ROLE_MEMBER | GROUP_ROLE_MANAGER | GROUP_ROLE_PENDING_MEMBER | GROUP_ROLE_PENDING_MANAGER
  | GROUP_ROLE_OTHER int

record group_member =
  gm_user_id :: cstr
  gm_domain :: cstr
  gm_role :: group_role

record group_info =
  gi_group_name :: cstr
  gi_group_address :: "address ptr"
  gi_n_group_member_list :: nat
  gi_group_member_list :: "group_member ptr array"

record group_member_info =
  gmi_member_address :: "address ptr"
  gmi_sign_public_key :: bdata

record group_session =
  gs_version :: cstr
  gs_e2ees_pack_id :: u32
  gs_session_id :: cstr
  gs_sender :: "address ptr"
  gs_session_owner :: "address ptr"
  gs_group_info :: "group_info ptr"
  gs_sequence :: u32
  gs_group_seed :: bdata
  gs_chain_key :: bdata
  gs_associated_data :: bdata

text \<open>Group management messages.\<close>

record create_group_msg =
  cgm_e2ees_pack_id :: u32
  cgm_sender_address :: "address ptr"
  cgm_group_info :: "group_info ptr"
  cgm_n_member_info_list :: nat
  cgm_member_info_list :: "group_member_info ptr array"

record add_group_members_msg =
  agm_e2ees_pack_id :: u32
  agm_sender_address :: "address ptr"
  agm_sequence :: u32
  agm_group_info :: "group_info ptr"
  agm_n_adding_member_info_list :: nat
  agm_adding_member_info_list :: "group_member_info ptr array"
  agm_n_adding_member_list :: nat
  agm_adding_member_list :: "group_member ptr array"

record add_group_member_device_msg =
  agd_e2ees_pack_id :: u32
  agd_sender_address :: "address ptr"
  agd_sequence :: u32
  agd_group_info :: "group_info ptr"
  agd_adding_member_device :: "group_member_info ptr"

record remove_group_members_msg =
  rgm_e2ees_pack_id :: u32
  rgm_sender_address :: "address ptr"
  rgm_group_info :: "group_info ptr"
  rgm_n_member_info_list :: nat
  rgm_member_info_list :: "group_member_info ptr array"
  rgm_n_removing_member_list :: nat
  rgm_removing_member_list :: "group_member ptr array"

record leave_group_msg =
  lgm_user_address :: "address ptr"
  lgm_group_address :: "address ptr"

subsection \<open>Initial values\<close>

definition init_chain_key :: chain_key where
  "init_chain_key = \<lparr>ck_index = 0, ck_shared_key = empty_bdata\<rparr>"

definition init_receiver_chain :: receiver_chain where
  "init_receiver_chain = \<lparr>rc_their_ratchet_public_key = empty_bdata,
     rc_our_ratchet_private_key = empty_bdata, rc_chain_key = None\<rparr>"

definition init_sender_chain :: sender_chain where
  "init_sender_chain = \<lparr>sc_their_ratchet_public_key = empty_bdata,
     sc_our_ratchet_public_key = empty_bdata, sc_chain_key = None\<rparr>"

definition init_ratchet :: ratchet where
  "init_ratchet = \<lparr>rt_root_key = empty_bdata, rt_root_sequence = 0, rt_sending_message_sequence = 0,
     rt_received_message_sequence = 0, rt_sender_chain = None, rt_receiver_chain = None,
     rt_n_skipped_msg_key_list = 0, rt_skipped_msg_key_list = None\<rparr>"

text \<open>
  What the generated code fixes and the sources do not show is a parameter: a string field starts as
  NULL or as the empty string, an enum field as the enum's first value, and two levels of notification
  have numbers.
\<close>

record gen_defaults =
  gd_string :: cstr
  gd_role :: group_role
  gd_notif_level_normal :: u32
  gd_notif_level_session :: u32

definition init_peer_user :: "gen_defaults \<Rightarrow> peer_user" where
  "init_peer_user D = \<lparr>pu_user_name = gd_string D, pu_user_id = gd_string D, pu_device_id = gd_string D\<rparr>"

definition init_peer_group :: "gen_defaults \<Rightarrow> peer_group" where
  "init_peer_group D = \<lparr>pg_group_name = gd_string D, pg_group_id = gd_string D\<rparr>"

definition init_address :: "gen_defaults \<Rightarrow> address" where
  "init_address D =
     \<lparr>ad_domain = gd_string D, ad_peer_case = PEER_NOT_SET, ad_user = None, ad_group = None\<rparr>"

definition init_group_member :: "gen_defaults \<Rightarrow> group_member" where
  "init_group_member D = \<lparr>gm_user_id = gd_string D, gm_domain = gd_string D, gm_role = gd_role D\<rparr>"

definition init_group_info :: "gen_defaults \<Rightarrow> group_info" where
  "init_group_info D = \<lparr>gi_group_name = gd_string D, gi_group_address = None,
     gi_n_group_member_list = 0, gi_group_member_list = None\<rparr>"

definition init_account :: "gen_defaults \<Rightarrow> account" where
  "init_account D = \<lparr>acc_version = gd_string D, acc_saved = False, acc_address = None,
     acc_password = gd_string D, acc_auth = gd_string D, acc_e2ees_pack_id = 0,
     acc_identity_key = None, acc_signed_pre_key = None, acc_one_time_pre_key_list = None,
     acc_n_one_time_pre_key_list = 0, acc_next_one_time_pre_key_id = 0, acc_server_cert = None, acc_expires_in = 0\<rparr>"

lemmas init_defs = init_chain_key_def init_receiver_chain_def init_sender_chain_def init_ratchet_def
  init_peer_user_def init_peer_group_def init_address_def init_group_member_def init_group_info_def
  init_account_def

end
