(* ===== verification/Pack.thy ===== *)
theory Pack
  imports Proto
begin

section \<open>E2EE pack ids\<close>

text \<open>
  \<open>src/e2ees.c\<close>: the 32-bit pack id and its bit fields, the tables that map algorithm ids to
  suite objects, and \<open>get_e2ees_pack\<close>.  The globals \<open>E2EES_CIPHER_SUITE\<close> and
  \<open>E2EES_PACK\<close> that the code fills and returns are overwritten by each call, so the model
  returns their contents.
\<close>

unbundle bit_operations_syntax

subsection \<open>The id and its fields\<close>

text \<open>
  \<open>e2ees_pack_id_t\<close> has bit fields of 8, 8, 8, 4 and 4 bits; an assignment to a field keeps
  the low bits.  A field read in an expression is promoted to \<open>int\<close>: \<open>ver << 24\<close> is the
  32-bit word with \<open>ver\<close> in its top byte.
\<close>

record pack_id =
  pid_ver :: "8 word"
  pid_ds :: "8 word"
  pid_kem :: "8 word"
  pid_se :: "4 word"
  pid_hash :: "4 word"

definition e2ees_pack_id_to_raw :: "pack_id \<Rightarrow> u32" where
  "e2ees_pack_id_to_raw p =
     (0xff000000 AND push_bit 24 (ucast (pid_ver p))) OR
     (0x00ff0000 AND push_bit 16 (ucast (pid_ds p))) OR
     (0x0000ff00 AND push_bit 8 (ucast (pid_kem p))) OR
     (0x000000f0 AND push_bit 4 (ucast (pid_se p))) OR
     (0x0000000f AND ucast (pid_hash p))"

definition raw_to_e2ees_pack_id :: "u32 \<Rightarrow> pack_id" where
  "raw_to_e2ees_pack_id raw =
     \<lparr>pid_ver = ucast (drop_bit 24 (0xff000000 AND raw)),
      pid_ds = ucast (drop_bit 16 (0x00ff0000 AND raw)),
      pid_kem = ucast (drop_bit 8 (0x0000ff00 AND raw)),
      pid_se = ucast (drop_bit 4 (0x000000f0 AND raw)),
      pid_hash = ucast (0x0000000f AND raw)\<rparr>"

definition gen_e2ees_pack_id_raw :: "u32 \<Rightarrow> u32 \<Rightarrow> u32 \<Rightarrow> u32 \<Rightarrow> u32 \<Rightarrow> u32" where
  "gen_e2ees_pack_id_raw ver ds kem se hash =
     e2ees_pack_id_to_raw
       \<lparr>pid_ver = ucast ver, pid_ds = ucast ds, pid_kem = ucast kem, pid_se = ucast se,
        pid_hash = ucast hash\<rparr>"

abbreviation (input) E2EES_PACK_ID_DEFAULT :: u32 where "E2EES_PACK_ID_DEFAULT \<equiv> 0x113101"
abbreviation (input) E2EES_PACK_ID_UNSPECIFIED :: u32 where "E2EES_PACK_ID_UNSPECIFIED \<equiv> 0"

subsection \<open>The tables\<close>

definition ds_table :: "(u32 \<times> ds_alg) list" where
  "ds_table =
     [(0, DS_CURVE25519), (1, DS_MLDSA44), (9, DS_MLDSA65), (17, DS_MLDSA87),
      (33, DS_FALCON512), (41, DS_FALCON1024),
      (65, DS_SPHINCS_SHA2_128F), (69, DS_SPHINCS_SHA2_128S),
      (73, DS_SPHINCS_SHA2_192F), (77, DS_SPHINCS_SHA2_192S),
      (81, DS_SPHINCS_SHA2_256F), (85, DS_SPHINCS_SHA2_256S),
      (89, DS_SPHINCS_SHAKE_128F), (93, DS_SPHINCS_SHAKE_128S),
      (97, DS_SPHINCS_SHAKE_192F), (101, DS_SPHINCS_SHAKE_192S),
      (105, DS_SPHINCS_SHAKE_256F), (109, DS_SPHINCS_SHAKE_256S)]"

definition kem_table :: "(u32 \<times> kem_alg) list" where
  "kem_table =
     [(0, KEM_CURVE25519_ECDH), (1, KEM_HQC128), (9, KEM_HQC192), (17, KEM_HQC256),
      (33, KEM_MLKEM512), (41, KEM_MLKEM768), (49, KEM_MLKEM1024),
      (65, KEM_MCELIECE348864), (69, KEM_MCELIECE348864F),
      (73, KEM_MCELIECE460896), (77, KEM_MCELIECE460896F),
      (81, KEM_MCELIECE6688128), (85, KEM_MCELIECE6688128F),
      (89, KEM_MCELIECE6960119), (93, KEM_MCELIECE6960119F),
      (97, KEM_MCELIECE8192128), (101, KEM_MCELIECE8192128F)]"

text \<open>The suite object of an algorithm.\<close>

definition ds_suite_object :: "prims \<Rightarrow> ds_alg \<Rightarrow> ds_suite" where
  "ds_suite_object P a = (if a = DS_CURVE25519 then E2EES_DS_CURVE25519 P else E2EES_DS_PQC P a)"

definition kem_suite_object :: "prims \<Rightarrow> kem_alg \<Rightarrow> kem_suite" where
  "kem_suite_object P a =
     (if a = KEM_CURVE25519_ECDH then E2EES_KEM_CURVE25519_ECDH P else E2EES_KEM_PQC P a)"

definition get_ds_suite :: "prims \<Rightarrow> u32 \<Rightarrow> ds_suite ptr" where
  "get_ds_suite P digital_signature_id = map_option (ds_suite_object P) (map_of ds_table digital_signature_id)"

definition get_kem_suite :: "prims \<Rightarrow> u32 \<Rightarrow> kem_suite ptr" where
  "get_kem_suite P kem_id = map_option (kem_suite_object P) (map_of kem_table kem_id)"

definition get_se_suite :: "prims \<Rightarrow> u32 \<Rightarrow> se_suite ptr" where
  "get_se_suite P symmetric_encryption_id =
     (if symmetric_encryption_id = 0 then Some (E2EES_SE_AES256_SHA256 P) else None)"

definition get_hf_suite :: "prims \<Rightarrow> u32 \<Rightarrow> hf_suite ptr" where
  "get_hf_suite P hf_id = (if hf_id = 1 then Some (E2EES_HF_SHA256 P) else None)"

definition get_cipher_suite :: "prims \<Rightarrow> pack_id \<Rightarrow> cipher_suite" where
  "get_cipher_suite P pid =
     \<lparr>cs_ds_suite = get_ds_suite P (ucast (pid_ds pid)),
      cs_kem_suite = get_kem_suite P (ucast (pid_kem pid)),
      cs_se_suite = get_se_suite P (ucast (pid_se pid)),
      cs_hf_suite = get_hf_suite P (ucast (pid_hash pid))\<rparr>"

datatype session_suite = E2EES_SESSION_ECC | E2EES_SESSION_PQC

record e2ees_pack =
  pk_cipher_suite :: cipher_suite
  pk_session_suite :: session_suite

definition get_e2ees_pack :: "prims \<Rightarrow> u32 \<Rightarrow> e2ees_pack" where
  "get_e2ees_pack P raw =
     (let pid = raw_to_e2ees_pack_id raw in
      \<lparr>pk_cipher_suite = get_cipher_suite P pid,
       pk_session_suite = (if pid_kem pid \<noteq> 0 then E2EES_SESSION_PQC else E2EES_SESSION_ECC)\<rparr>)"

abbreviation suite_of :: "prims \<Rightarrow> u32 \<Rightarrow> cipher_suite" where
  "suite_of P raw \<equiv> pk_cipher_suite (get_e2ees_pack P raw)"

subsection \<open>The bits of an id\<close>

lemma field_masks:
  "(0xff000000 :: u32) = push_bit 24 (mask 8)" "(0x00ff0000 :: u32) = push_bit 16 (mask 8)"
  "(0x0000ff00 :: u32) = push_bit 8 (mask 8)" "(0x000000f0 :: u32) = push_bit 4 (mask 4)"
  "(0x0000000f :: u32) = push_bit 0 (mask 4)"
  by (simp_all add: mask_eq_exp_minus_1)

lemma bit_field_put:
  fixes x :: "'w::len word"
  assumes "a + k \<le> 32"
  shows "bit ((push_bit a (mask k) :: u32) AND push_bit a (ucast x)) n \<longleftrightarrow>
         a \<le> n \<and> n < a + k \<and> bit x (n - a)"
proof -
  have "bit x i \<Longrightarrow> i < LENGTH('w)" for i by (rule bit_imp_le_length)
  then show ?thesis using assms
    by (simp add: bit_and_iff bit_push_bit_iff bit_mask_iff bit_unsigned_iff) fastforce
qed

lemma bit_field_get:
  assumes "a + k \<le> 32" and "LENGTH('w) = k"
  shows "bit (ucast (drop_bit a ((push_bit a (mask k) :: u32) AND r)) :: 'w::len word) n \<longleftrightarrow>
         n < k \<and> bit r (a + n)"
  using assms by (simp add: bit_and_iff bit_push_bit_iff bit_mask_iff bit_unsigned_iff bit_drop_bit_eq) fastforce

lemma bit_raw:
  "bit (e2ees_pack_id_to_raw p) n \<longleftrightarrow>
     (if n < 4 then bit (pid_hash p) n else if n < 8 then bit (pid_se p) (n - 4)
      else if n < 16 then bit (pid_kem p) (n - 8) else if n < 24 then bit (pid_ds p) (n - 16)
      else n < 32 \<and> bit (pid_ver p) (n - 24))"
proof -
  have h: "bit ((0xf :: u32) AND ucast (pid_hash p)) n \<longleftrightarrow> n < 4 \<and> bit (pid_hash p) n"
    using bit_field_put [of 0 4 "pid_hash p" n] by (simp add: field_masks)
  show ?thesis
    unfolding e2ees_pack_id_to_raw_def bit_or_iff h field_masks(1-4)
    by (simp add: bit_field_put)
qed

lemma bit_fields:
  "bit (pid_ver (raw_to_e2ees_pack_id r)) n \<longleftrightarrow> n < 8 \<and> bit r (24 + n)"
  "bit (pid_ds (raw_to_e2ees_pack_id r)) n \<longleftrightarrow> n < 8 \<and> bit r (16 + n)"
  "bit (pid_kem (raw_to_e2ees_pack_id r)) n \<longleftrightarrow> n < 8 \<and> bit r (8 + n)"
  "bit (pid_se (raw_to_e2ees_pack_id r)) n \<longleftrightarrow> n < 4 \<and> bit r (4 + n)"
  "bit (pid_hash (raw_to_e2ees_pack_id r)) n \<longleftrightarrow> n < 4 \<and> bit r n"
  using bit_field_get [of 0 4, where ?'w = 4, of r n]
  by (simp_all add: raw_to_e2ees_pack_id_def field_masks bit_field_get del: drop_bit_and)

lemma to_raw_inverse: "raw_to_e2ees_pack_id (e2ees_pack_id_to_raw p) = p"
  by (rule pack_id.equality) (auto intro!: bit_word_eqI simp: bit_raw bit_fields)

lemma raw_inverse: "e2ees_pack_id_to_raw (raw_to_e2ees_pack_id raw) = raw"
  by (rule bit_word_eqI) (auto simp: bit_raw bit_fields)

end
