(* ===== verification/Mem_Util.thy ===== *)
theory Mem_Util
  imports Pack
begin

section \<open>Comparison, copy and release of structs\<close>

text \<open>
  \<open>src/mem_util.c\<close>: the comparisons of buffers, addresses and group member lists, the deep
  copies of every struct the library keeps, the edits of a group's member list and the release
  functions.  A copy function of the source writes through a double pointer; here it returns the
  struct it allocates.  A release sets the pointer to NULL and has no other effect in the model.

  The copies share one contract, the locale \<open>deep_copy\<close>: on a well-formed struct the copy is
  the struct itself.  It is interpreted for each of them, and the copies of arrays are proved
  once from it.
\<close>

subsection \<open>Comparisons\<close>

definition is_equal :: "bytes ptr \<Rightarrow> bytes ptr \<Rightarrow> nat \<Rightarrow> bool option" where
  "is_equal buffer_a buffer_b n =
     do { a \<leftarrow> read_bytes buffer_a n; b \<leftarrow> read_bytes buffer_b n; Some (tag_diff a b 0 = 0) }"

definition compare_protobuf :: "bdata ptr \<Rightarrow> bdata ptr \<Rightarrow> bool option" where
  "compare_protobuf src_1 src_2 =
     (case (src_1, src_2) of
        (None, None) \<Rightarrow> Some True
      | (Some a, Some b) \<Rightarrow>
          (if pb_len a = pb_len b
           then do { x \<leftarrow> read_bytes (pb_data a) (pb_len a); y \<leftarrow> read_bytes (pb_data b) (pb_len a);
                     Some (x = y) }
           else Some False)
      | _ \<Rightarrow> Some False)"

definition safe_strcmp :: "cstr \<Rightarrow> cstr \<Rightarrow> bool" where
  "safe_strcmp str_1 str_2 =
     (case (str_1, str_2) of
        (None, None) \<Rightarrow> True | (Some a, Some b) \<Rightarrow> a = b | _ \<Rightarrow> False)"

definition compare_user_id :: "address ptr \<Rightarrow> cstr \<Rightarrow> cstr \<Rightarrow> bool option" where
  "compare_user_id address user_id domain =
     (if address = None \<and> user_id = None \<and> domain = None then Some True
      else if (user_id = None \<and> domain \<noteq> None) \<or> (user_id \<noteq> None \<and> domain = None) then Some False
      else if (address = None \<and> user_id \<noteq> None) \<or> (address \<noteq> None \<and> user_id = None) then Some False
      else do { a \<leftarrow> deref address;
                if \<not> safe_strcmp (ad_domain a) domain then Some False
                else if ad_peer_case a \<noteq> PEER_USER then Some False
                else do { u \<leftarrow> deref (ad_user a); Some (safe_strcmp (pu_user_id u) user_id) } })"

definition compare_address :: "address ptr \<Rightarrow> address ptr \<Rightarrow> bool option" where
  "compare_address address_1 address_2 =
     (if address_1 = None \<and> address_2 = None then Some True
      else if (address_1 = None \<and> address_2 \<noteq> None) \<or> (address_1 \<noteq> None \<and> address_2 = None)
      then Some False
      else do { a \<leftarrow> deref address_1; b \<leftarrow> deref address_2;
                if \<not> safe_strcmp (ad_domain a) (ad_domain b) then Some False
                else if ad_peer_case a \<noteq> ad_peer_case b then Some False
                else if ad_peer_case a = PEER_USER then
                  do { u \<leftarrow> deref (ad_user a); v \<leftarrow> deref (ad_user b);
                       Some (safe_strcmp (pu_user_id u) (pu_user_id v) \<and>
                             safe_strcmp (pu_device_id u) (pu_device_id v)) }
                else if ad_peer_case a = PEER_GROUP then
                  do { g \<leftarrow> deref (ad_group a); h \<leftarrow> deref (ad_group b);
                       Some (safe_strcmp (pg_group_id g) (pg_group_id h)) }
                else Some False })"

text \<open>
  The inner loop of \<open>compare_group_member\<close> over the second list, then the outer one, which
  tests the previous round's \<open>matched\<close> at the start of the next round.
\<close>

fun member_scan :: "group_member \<Rightarrow> group_member ptr array \<Rightarrow> nat \<Rightarrow> nat \<Rightarrow> bool option" where
  "member_scan m group_members_2 j 0 = Some False"
| "member_scan m group_members_2 j (Suc k) =
     do { p \<leftarrow> array_get group_members_2 j; m2 \<leftarrow> deref p;
          if safe_strcmp (gm_user_id m) (gm_user_id m2) \<and> safe_strcmp (gm_domain m) (gm_domain m2)
          then Some True else member_scan m group_members_2 (Suc j) k }"

fun compare_members_loop ::
    "group_member ptr array \<Rightarrow> group_member ptr array \<Rightarrow> nat \<Rightarrow> nat \<Rightarrow> bool \<Rightarrow> nat \<Rightarrow> bool option" where
  "compare_members_loop a b n i matched 0 = Some True"
| "compare_members_loop a b n i matched (Suc k) =
     (if matched then
        do { p \<leftarrow> array_get a i; m \<leftarrow> deref p; found \<leftarrow> member_scan m b 0 n;
             compare_members_loop a b n (Suc i) found k }
      else Some False)"

definition compare_group_member ::
    "group_member ptr array \<Rightarrow> nat \<Rightarrow> group_member ptr array \<Rightarrow> nat \<Rightarrow> bool option" where
  "compare_group_member group_members_1 group_member_num_1 group_members_2 group_member_num_2 =
     (if group_members_1 = None \<and> group_members_2 = None then Some True
      else if (group_members_1 = None \<and> group_members_2 \<noteq> None) \<or>
              (group_members_1 \<noteq> None \<and> group_members_2 = None) then Some False
      else if group_member_num_1 \<noteq> group_member_num_2 then Some False
      else compare_members_loop group_members_1 group_members_2 group_member_num_2 0 True
             group_member_num_1)"

subsection \<open>Binary data\<close>

definition init_protobuf :: bdata where
  "init_protobuf = empty_bdata"

definition get_identity_public_key_ds_uint8_from_account :: "account ptr \<Rightarrow> bytes ptr" where
  "get_identity_public_key_ds_uint8_from_account src =
     (case src of None \<Rightarrow> None
      | Some a \<Rightarrow> (case acc_identity_key a of None \<Rightarrow> None
          | Some ik \<Rightarrow> (case ik_sign_key_pair ik of None \<Rightarrow> None | Some k \<Rightarrow> pb_data (kpr_public_key k))))"

definition get_identity_public_key_ds_bytes_from_account :: "account ptr \<Rightarrow> bdata ptr" where
  "get_identity_public_key_ds_bytes_from_account src =
     (case src of None \<Rightarrow> None
      | Some a \<Rightarrow> (case acc_identity_key a of None \<Rightarrow> None
          | Some ik \<Rightarrow> (case ik_sign_key_pair ik of None \<Rightarrow> None
              | Some k \<Rightarrow> if pb_data (kpr_public_key k) \<noteq> None then Some (kpr_public_key k) else None)))"

definition copy_protobuf_from_protobuf :: "bdata \<Rightarrow> bdata \<Rightarrow> bdata option" where
  "copy_protobuf_from_protobuf dest src =
     (if pb_len src = 0 then Some dest
      else do { bs \<leftarrow> read_pb src; Some \<lparr>pb_len = pb_len src, pb_data = Some bs\<rparr> })"

definition copy_protobuf_from_bool :: "bool \<Rightarrow> bdata" where
  "copy_protobuf_from_bool src = \<lparr>pb_len = 1, pb_data = Some [if src then 84 else 70]\<rparr>"

definition copy_protobuf_from_array :: "bytes \<Rightarrow> nat \<Rightarrow> bdata option" where
  "copy_protobuf_from_array src n =
     do { bs \<leftarrow> read_bytes (Some src) n; Some \<lparr>pb_len = n, pb_data = Some bs\<rparr> }"

definition overwrite_protobuf_from_array :: "bdata \<Rightarrow> bytes \<Rightarrow> bdata option" where
  "overwrite_protobuf_from_array dest src =
     do { bs \<leftarrow> read_bytes (Some src) (pb_len dest); old \<leftarrow> deref (pb_data dest);
          new \<leftarrow> write_buf old bs; Some (dest\<lparr>pb_data := Some new\<rparr>) }"

definition copy_protobuf_list_from_protobuf_list :: "bdata array \<Rightarrow> nat \<Rightarrow> bdata list option" where
  "copy_protobuf_list_from_protobuf_list src n = map_loop (copy_protobuf_from_protobuf empty_bdata) src 0 n"

definition free_protobuf :: "bdata \<Rightarrow> bdata" where
  "free_protobuf output = empty_bdata"

text \<open>\<open>free_mem\<close> clears and frees the buffer and sets the caller's pointer to NULL.\<close>

definition free_mem :: "'a ptr \<Rightarrow> nat \<Rightarrow> 'a ptr" where
  "free_mem buffer n = (if buffer = None \<or> n = 0 then buffer else None)"

subsection \<open>Addresses and keys\<close>

text \<open>\<open>if (src->f != NULL) dest->f = strdup(src->f)\<close>\<close>

definition str_or :: "cstr \<Rightarrow> cstr \<Rightarrow> cstr" where
  "str_or dest src = (case src of None \<Rightarrow> dest | Some s \<Rightarrow> Some s)"

definition copy_address_from_address :: "gen_defaults \<Rightarrow> address ptr \<Rightarrow> address option" where
  "copy_address_from_address D src =
     (case src of
        None \<Rightarrow> Some (init_address D)
      | Some a \<Rightarrow>
          let d = (init_address D)\<lparr>ad_domain := str_or (gd_string D) (ad_domain a)\<rparr> in
          (case ad_peer_case a of
             PEER_USER \<Rightarrow>
               do { u \<leftarrow> deref (ad_user a);
                    Some (d\<lparr>ad_peer_case := PEER_USER,
                            ad_user := Some \<lparr>pu_user_name = str_or (gd_string D) (pu_user_name u),
                                             pu_user_id = str_or (gd_string D) (pu_user_id u),
                                             pu_device_id = str_or (gd_string D) (pu_device_id u)\<rparr>\<rparr>) }
           | PEER_GROUP \<Rightarrow>
               do { g \<leftarrow> deref (ad_group a);
                    Some (d\<lparr>ad_peer_case := PEER_GROUP,
                            ad_group := Some \<lparr>pg_group_name = str_or (gd_string D) (pg_group_name g),
                                              pg_group_id = str_or (gd_string D) (pg_group_id g)\<rparr>\<rparr>) }
           | PEER_NOT_SET \<Rightarrow> Some d))"

definition copy_key_pair_from_key_pair :: "key_pair ptr \<Rightarrow> key_pair option" where
  "copy_key_pair_from_key_pair src =
     do { k \<leftarrow> deref src;
          priv \<leftarrow> copy_protobuf_from_protobuf empty_bdata (kpr_private_key k);
          pub \<leftarrow> copy_protobuf_from_protobuf empty_bdata (kpr_public_key k);
          Some \<lparr>kpr_private_key = priv, kpr_public_key = pub\<rparr> }"

definition copy_ik_from_ik :: "identity_key ptr \<Rightarrow> identity_key option" where
  "copy_ik_from_ik src =
     do { ik \<leftarrow> deref src;
          a \<leftarrow> copy_key_pair_from_key_pair (ik_asym_key_pair ik);
          s \<leftarrow> copy_key_pair_from_key_pair (ik_sign_key_pair ik);
          Some \<lparr>ik_asym_key_pair = Some a, ik_sign_key_pair = Some s\<rparr> }"

definition copy_spk_from_spk :: "signed_pre_key ptr \<Rightarrow> signed_pre_key option" where
  "copy_spk_from_spk src =
     do { k \<leftarrow> deref src;
          kp \<leftarrow> copy_key_pair_from_key_pair (spk_key_pair k);
          sig \<leftarrow> copy_protobuf_from_protobuf empty_bdata (spk_signature k);
          Some \<lparr>spk_id = spk_id k, spk_key_pair = Some kp, spk_signature = sig, spk_ttl = spk_ttl k\<rparr> }"

definition copy_opk :: "one_time_pre_key ptr \<Rightarrow> one_time_pre_key option" where
  "copy_opk src =
     do { k \<leftarrow> deref src;
          kp \<leftarrow> copy_key_pair_from_key_pair (opk_key_pair k);
          Some \<lparr>opk_id = opk_id k, opk_used = opk_used k, opk_key_pair = Some kp\<rparr> }"

text \<open>The copy of an array of messages: one fresh struct per slot.\<close>

abbreviation copy_array :: "('a ptr \<Rightarrow> 'b option) \<Rightarrow> 'a ptr array \<Rightarrow> nat \<Rightarrow> 'b ptr list option" where
  "copy_array copy src n \<equiv> map_loop (\<lambda>p. map_option Some (copy p)) src 0 n"

definition copy_opks_from_opks ::
    "one_time_pre_key ptr array \<Rightarrow> nat \<Rightarrow> one_time_pre_key ptr list option" where
  "copy_opks_from_opks src opk_num = copy_array copy_opk src opk_num"

subsection \<open>Certificates and accounts\<close>

definition copy_subject_from_subject :: "subject ptr \<Rightarrow> subject option" where
  "copy_subject_from_subject src =
     do { s \<leftarrow> deref src;
          ou \<leftarrow> map_loop (\<lambda>x. Some x) (su_ou s) 0 (su_n_ou s);
          Some \<lparr>su_cn = su_cn s, su_domain = su_domain s, su_o = su_o s, su_n_ou = su_n_ou s,
                su_ou = Some ou\<rparr> }"

definition copy_cert_from_cert :: "cert ptr \<Rightarrow> cert option" where
  "copy_cert_from_cert src =
     do { c \<leftarrow> deref src;
          issuee \<leftarrow> copy_subject_from_subject (ce_issuee c);
          pk \<leftarrow> copy_protobuf_from_protobuf empty_bdata (ce_public_key c);
          issuer \<leftarrow> copy_subject_from_subject (ce_issuer c);
          Some \<lparr>ce_issuee = Some issuee, ce_public_key_alg = ce_public_key_alg c, ce_public_key = pk,
                ce_issuer = Some issuer, ce_not_before = ce_not_before c, ce_not_after = ce_not_after c\<rparr> }"

definition copy_certificate_from_certificate :: "certificate ptr \<Rightarrow> certificate option" where
  "copy_certificate_from_certificate src =
     do { c \<leftarrow> deref src;
          cert \<leftarrow> copy_cert_from_cert (ct_cert c);
          fp \<leftarrow> copy_protobuf_from_protobuf empty_bdata (ct_cert_fingerprint c);
          sfp \<leftarrow> copy_protobuf_from_protobuf empty_bdata (ct_signing_public_key_fingerprint c);
          sig \<leftarrow> copy_protobuf_from_protobuf empty_bdata (ct_signature c);
          Some \<lparr>ct_version = ct_version c, ct_hash_alg = ct_hash_alg c, ct_signing_alg = ct_signing_alg c,
                ct_cert = Some cert, ct_cert_fingerprint = fp,
                ct_signing_public_key_fingerprint = sfp, ct_signature = sig, ct_ts = ct_ts c,
                ct_valid = ct_valid c\<rparr> }"

text \<open>\<open>if (src->f) copy(&dest->f, src->f)\<close>\<close>

definition copy_if_set :: "('a ptr \<Rightarrow> 'a option) \<Rightarrow> 'a ptr \<Rightarrow> 'a ptr option" where
  "copy_if_set copy src = (case src of None \<Rightarrow> Some None | Some x \<Rightarrow> map_option Some (copy (Some x)))"

definition copy_array_if_set :: "('a ptr \<Rightarrow> 'a option) \<Rightarrow> 'a ptr array \<Rightarrow> nat \<Rightarrow> 'a ptr array option" where
  "copy_array_if_set copy src n =
     (case src of None \<Rightarrow> Some None | Some xs \<Rightarrow> map_option Some (copy_array copy (Some xs) n))"

definition copy_account_from_account :: "gen_defaults \<Rightarrow> account ptr \<Rightarrow> account option" where
  "copy_account_from_account D src =
     do { a \<leftarrow> deref src;
          version \<leftarrow> deref (acc_version a);
          address \<leftarrow> copy_if_set (copy_address_from_address D) (acc_address a);
          password \<leftarrow> deref (acc_password a);
          ik \<leftarrow> copy_if_set copy_ik_from_ik (acc_identity_key a);
          spk \<leftarrow> copy_if_set copy_spk_from_spk (acc_signed_pre_key a);
          opks \<leftarrow> (case acc_one_time_pre_key_list a of
                     None \<Rightarrow> Some None
                   | Some xs \<Rightarrow> map_option Some
                       (copy_opks_from_opks (Some xs) (acc_n_one_time_pre_key_list a)));
          Some ((init_account D)\<lparr>acc_version := Some version, acc_saved := acc_saved a,
                 acc_address := address, acc_password := Some password,
                 acc_e2ees_pack_id := acc_e2ees_pack_id a, acc_identity_key := ik,
                 acc_signed_pre_key := spk, acc_one_time_pre_key_list := opks,
                 acc_n_one_time_pre_key_list := acc_n_one_time_pre_key_list a,
                 acc_next_one_time_pre_key_id := acc_next_one_time_pre_key_id a\<rparr>) }"

subsection \<open>Ratchet and session\<close>

definition copy_chain_key_from_chain_key :: "chain_key ptr \<Rightarrow> chain_key option" where
  "copy_chain_key_from_chain_key src =
     do { c \<leftarrow> deref src;
          k \<leftarrow> copy_protobuf_from_protobuf empty_bdata (ck_shared_key c);
          Some \<lparr>ck_index = ck_index c, ck_shared_key = k\<rparr> }"

definition copy_msg_key_from_msg_key :: "msg_key ptr \<Rightarrow> msg_key option" where
  "copy_msg_key_from_msg_key src =
     do { m \<leftarrow> deref src;
          k \<leftarrow> copy_protobuf_from_protobuf empty_bdata (mk_derived_key m);
          Some \<lparr>mk_index = mk_index m, mk_derived_key = k\<rparr> }"

definition copy_sender_chain_from_sender_chain :: "sender_chain ptr \<Rightarrow> sender_chain option" where
  "copy_sender_chain_from_sender_chain src =
     do { c \<leftarrow> deref src;
          our \<leftarrow> copy_protobuf_from_protobuf empty_bdata (sc_our_ratchet_public_key c);
          their \<leftarrow> copy_protobuf_from_protobuf empty_bdata (sc_their_ratchet_public_key c);
          k \<leftarrow> copy_chain_key_from_chain_key (sc_chain_key c);
          Some \<lparr>sc_their_ratchet_public_key = their, sc_our_ratchet_public_key = our,
                sc_chain_key = Some k\<rparr> }"

definition copy_receiver_chain_from_receiver_chain :: "receiver_chain ptr \<Rightarrow> receiver_chain option" where
  "copy_receiver_chain_from_receiver_chain src =
     do { c \<leftarrow> deref src;
          their \<leftarrow> copy_protobuf_from_protobuf empty_bdata (rc_their_ratchet_public_key c);
          our \<leftarrow> copy_protobuf_from_protobuf empty_bdata (rc_our_ratchet_private_key c);
          k \<leftarrow> copy_chain_key_from_chain_key (rc_chain_key c);
          Some \<lparr>rc_their_ratchet_public_key = their, rc_our_ratchet_private_key = our,
                rc_chain_key = Some k\<rparr> }"

definition copy_skipped_node :: "skipped_node ptr \<Rightarrow> skipped_node option" where
  "copy_skipped_node src =
     do { n \<leftarrow> deref src;
          r \<leftarrow> copy_protobuf_from_protobuf empty_bdata (sk_ratchet_key_public n);
          m \<leftarrow> copy_msg_key_from_msg_key (sk_msg_key n);
          Some \<lparr>sk_ratchet_key_public = r, sk_msg_key = Some m\<rparr> }"

definition copy_skipped_msg_keys_from_skipped_msg_keys ::
    "skipped_node ptr array \<Rightarrow> nat \<Rightarrow> skipped_node ptr list option" where
  "copy_skipped_msg_keys_from_skipped_msg_keys src n = copy_array copy_skipped_node src n"

text \<open>
  The two message counters keep the values of \<^const>\<open>init_ratchet\<close>: the source copies neither.
\<close>

definition copy_ratchet_from_ratchet :: "ratchet ptr \<Rightarrow> ratchet option" where
  "copy_ratchet_from_ratchet src =
     do { r \<leftarrow> deref src;
          root \<leftarrow> copy_protobuf_from_protobuf empty_bdata (rt_root_key r);
          sc \<leftarrow> copy_sender_chain_from_sender_chain (rt_sender_chain r);
          rc \<leftarrow> copy_receiver_chain_from_receiver_chain (rt_receiver_chain r);
          sk \<leftarrow> copy_skipped_msg_keys_from_skipped_msg_keys (rt_skipped_msg_key_list r)
                  (rt_n_skipped_msg_key_list r);
          Some (init_ratchet\<lparr>rt_root_key := root, rt_root_sequence := rt_root_sequence r,
                  rt_sender_chain := Some sc, rt_receiver_chain := Some rc,
                  rt_n_skipped_msg_key_list := rt_n_skipped_msg_key_list r,
                  rt_skipped_msg_key_list := Some sk\<rparr>) }"

definition copy_session_from_session :: "gen_defaults \<Rightarrow> session ptr \<Rightarrow> session option" where
  "copy_session_from_session D src =
     do { s \<leftarrow> deref src;
          version \<leftarrow> deref (se_version s);
          session_id \<leftarrow> deref (se_session_id s);
          our \<leftarrow> copy_address_from_address D (se_our_address s);
          their \<leftarrow> copy_address_from_address D (se_their_address s);
          rt \<leftarrow> copy_ratchet_from_ratchet (se_ratchet s);
          ad \<leftarrow> copy_protobuf_from_protobuf empty_bdata (se_associated_data s);
          tss \<leftarrow> copy_protobuf_from_protobuf empty_bdata (se_temp_shared_secret s);
          abk \<leftarrow> copy_key_pair_from_key_pair (se_alice_base_key s);
          psi \<leftarrow> copy_protobuf_list_from_protobuf_list (se_pre_shared_input_list s)
                   (se_n_pre_shared_input_list s);
          Some \<lparr>se_version = Some version, se_e2ees_pack_id = se_e2ees_pack_id s,
                se_session_id = Some session_id, se_our_address = Some our,
                se_their_address = Some their, se_ratchet = Some rt, se_associated_data = ad,
                se_temp_shared_secret = tss, se_fingerprint = empty_bdata,
                se_alice_base_key = Some abk, se_bob_signed_pre_key_id = se_bob_signed_pre_key_id s,
                se_bob_one_time_pre_key_id = se_bob_one_time_pre_key_id s,
                se_n_pre_shared_input_list = se_n_pre_shared_input_list s,
                se_pre_shared_input_list = Some psi, se_f2f = se_f2f s, se_responded = se_responded s,
                se_invite_t = se_invite_t s\<rparr> }"

subsection \<open>Public parts of keys\<close>

definition copy_ik_public_from_ik_public :: "identity_key_public ptr \<Rightarrow> identity_key_public option" where
  "copy_ik_public_from_ik_public src =
     do { k \<leftarrow> deref src;
          a \<leftarrow> copy_protobuf_from_protobuf empty_bdata (ikp_asym_public_key k);
          s \<leftarrow> copy_protobuf_from_protobuf empty_bdata (ikp_sign_public_key k);
          Some \<lparr>ikp_asym_public_key = a, ikp_sign_public_key = s\<rparr> }"

definition copy_spk_public_from_spk_public :: "signed_pre_key_public ptr \<Rightarrow> signed_pre_key_public option" where
  "copy_spk_public_from_spk_public src =
     do { k \<leftarrow> deref src;
          p \<leftarrow> copy_protobuf_from_protobuf empty_bdata (spkp_public_key k);
          s \<leftarrow> copy_protobuf_from_protobuf empty_bdata (spkp_signature k);
          Some \<lparr>spkp_spk_id = spkp_spk_id k, spkp_public_key = p, spkp_signature = s\<rparr> }"

definition copy_opk_public_from_opk_public :: "one_time_pre_key_public ptr \<Rightarrow> one_time_pre_key_public option" where
  "copy_opk_public_from_opk_public src =
     do { k \<leftarrow> deref src;
          p \<leftarrow> copy_protobuf_from_protobuf empty_bdata (opkp_public_key k);
          Some \<lparr>opkp_opk_id = opkp_opk_id k, opkp_public_key = p\<rparr> }"

definition copy_ik_to_public :: "identity_key ptr \<Rightarrow> identity_key_public option" where
  "copy_ik_to_public src =
     do { k \<leftarrow> deref src;
          akp \<leftarrow> deref (ik_asym_key_pair k);
          a \<leftarrow> copy_protobuf_from_protobuf empty_bdata (kpr_public_key akp);
          skp \<leftarrow> deref (ik_sign_key_pair k);
          s \<leftarrow> copy_protobuf_from_protobuf empty_bdata (kpr_public_key skp);
          Some \<lparr>ikp_asym_public_key = a, ikp_sign_public_key = s\<rparr> }"

definition copy_spk_to_public :: "signed_pre_key ptr \<Rightarrow> signed_pre_key_public option" where
  "copy_spk_to_public src =
     do { k \<leftarrow> deref src;
          kp \<leftarrow> deref (spk_key_pair k);
          p \<leftarrow> copy_protobuf_from_protobuf empty_bdata (kpr_public_key kp);
          s \<leftarrow> copy_protobuf_from_protobuf empty_bdata (spk_signature k);
          Some \<lparr>spkp_spk_id = spk_id k, spkp_public_key = p, spkp_signature = s\<rparr> }"

definition copy_opk_to_public :: "one_time_pre_key ptr \<Rightarrow> one_time_pre_key_public option" where
  "copy_opk_to_public src =
     do { k \<leftarrow> deref src;
          kp \<leftarrow> deref (opk_key_pair k);
          p \<leftarrow> copy_protobuf_from_protobuf empty_bdata (kpr_public_key kp);
          Some \<lparr>opkp_opk_id = opk_id k, opkp_public_key = p\<rparr> }"

definition copy_opk_list_to_public ::
    "one_time_pre_key ptr array \<Rightarrow> nat \<Rightarrow> one_time_pre_key_public ptr list option" where
  "copy_opk_list_to_public src n = copy_array copy_opk_to_public src n"

subsection \<open>Groups\<close>

definition copy_group_member_id :: "gen_defaults \<Rightarrow> group_member_info ptr \<Rightarrow> group_member_info option" where
  "copy_group_member_id D src =
     do { m \<leftarrow> deref src;
          a \<leftarrow> copy_address_from_address D (gmi_member_address m);
          k \<leftarrow> copy_protobuf_from_protobuf empty_bdata (gmi_sign_public_key m);
          Some \<lparr>gmi_member_address = Some a, gmi_sign_public_key = k\<rparr> }"

definition copy_group_member_ids ::
    "gen_defaults \<Rightarrow> group_member_info ptr array \<Rightarrow> nat \<Rightarrow> group_member_info ptr list option" where
  "copy_group_member_ids D src n = copy_array (copy_group_member_id D) src n"

definition copy_group_member :: "gen_defaults \<Rightarrow> group_member ptr \<Rightarrow> group_member option" where
  "copy_group_member D src =
     (case src of
        None \<Rightarrow> Some (init_group_member D)
      | Some m \<Rightarrow> Some \<lparr>gm_user_id = str_or (gd_string D) (gm_user_id m),
                         gm_domain = str_or (gd_string D) (gm_domain m), gm_role = gm_role m\<rparr>)"

definition copy_group_members ::
    "gen_defaults \<Rightarrow> group_member ptr array \<Rightarrow> nat \<Rightarrow> group_member ptr list option" where
  "copy_group_members D src n = copy_array (copy_group_member D) src n"

definition copy_group_info :: "gen_defaults \<Rightarrow> group_info ptr \<Rightarrow> group_info option" where
  "copy_group_info D src =
     (case src of
        None \<Rightarrow> Some (init_group_info D)
      | Some g \<Rightarrow>
          do { a \<leftarrow> copy_if_set (copy_address_from_address D) (gi_group_address g);
               ms \<leftarrow> copy_array_if_set (copy_group_member D) (gi_group_member_list g) (gi_n_group_member_list g);
               Some \<lparr>gi_group_name = str_or (gd_string D) (gi_group_name g), gi_group_address = a,
                     gi_n_group_member_list = gi_n_group_member_list g, gi_group_member_list = ms\<rparr> })"

subsection \<open>Group messages\<close>

definition copy_create_group_msg :: "gen_defaults \<Rightarrow> create_group_msg ptr \<Rightarrow> create_group_msg option" where
  "copy_create_group_msg D src =
     (case src of
        None \<Rightarrow> Some \<lparr>cgm_e2ees_pack_id = 0, cgm_sender_address = None, cgm_group_info = None,
                      cgm_n_member_info_list = 0, cgm_member_info_list = None\<rparr>
      | Some m \<Rightarrow>
          do { a \<leftarrow> copy_if_set (copy_address_from_address D) (cgm_sender_address m);
               g \<leftarrow> copy_if_set (copy_group_info D) (cgm_group_info m);
               is \<leftarrow> copy_array_if_set (copy_group_member_id D) (cgm_member_info_list m) (cgm_n_member_info_list m);
               Some \<lparr>cgm_e2ees_pack_id = cgm_e2ees_pack_id m, cgm_sender_address = a, cgm_group_info = g,
                     cgm_n_member_info_list = cgm_n_member_info_list m, cgm_member_info_list = is\<rparr> })"

definition copy_add_group_members_msg ::
    "gen_defaults \<Rightarrow> add_group_members_msg ptr \<Rightarrow> add_group_members_msg option" where
  "copy_add_group_members_msg D src =
     (case src of
        None \<Rightarrow> Some \<lparr>agm_e2ees_pack_id = 0, agm_sender_address = None, agm_sequence = 0,
                      agm_group_info = None, agm_n_adding_member_info_list = 0,
                      agm_adding_member_info_list = None, agm_n_adding_member_list = 0,
                      agm_adding_member_list = None\<rparr>
      | Some m \<Rightarrow>
          do { a \<leftarrow> copy_if_set (copy_address_from_address D) (agm_sender_address m);
               g \<leftarrow> copy_if_set (copy_group_info D) (agm_group_info m);
               is \<leftarrow> copy_array_if_set (copy_group_member_id D) (agm_adding_member_info_list m)
                      (agm_n_adding_member_info_list m);
               ms \<leftarrow> copy_array_if_set (copy_group_member D) (agm_adding_member_list m) (agm_n_adding_member_list m);
               Some \<lparr>agm_e2ees_pack_id = agm_e2ees_pack_id m, agm_sender_address = a,
                     agm_sequence = agm_sequence m, agm_group_info = g,
                     agm_n_adding_member_info_list = agm_n_adding_member_info_list m,
                     agm_adding_member_info_list = is,
                     agm_n_adding_member_list = agm_n_adding_member_list m,
                     agm_adding_member_list = ms\<rparr> })"

definition copy_add_group_member_device_msg ::
    "gen_defaults \<Rightarrow> add_group_member_device_msg ptr \<Rightarrow> add_group_member_device_msg option" where
  "copy_add_group_member_device_msg D src =
     (case src of
        None \<Rightarrow> Some \<lparr>agd_e2ees_pack_id = 0, agd_sender_address = None, agd_sequence = 0,
                      agd_group_info = None, agd_adding_member_device = None\<rparr>
      | Some m \<Rightarrow>
          do { a \<leftarrow> copy_if_set (copy_address_from_address D) (agd_sender_address m);
               g \<leftarrow> copy_if_set (copy_group_info D) (agd_group_info m);
               d \<leftarrow> copy_if_set (copy_group_member_id D) (agd_adding_member_device m);
               Some \<lparr>agd_e2ees_pack_id = agd_e2ees_pack_id m, agd_sender_address = a,
                     agd_sequence = agd_sequence m, agd_group_info = g, agd_adding_member_device = d\<rparr> })"

definition copy_remove_group_members_msg ::
    "gen_defaults \<Rightarrow> remove_group_members_msg ptr \<Rightarrow> remove_group_members_msg option" where
  "copy_remove_group_members_msg D src =
     (case src of
        None \<Rightarrow> Some \<lparr>rgm_e2ees_pack_id = 0, rgm_sender_address = None, rgm_group_info = None,
                      rgm_n_member_info_list = 0, rgm_member_info_list = None,
                      rgm_n_removing_member_list = 0, rgm_removing_member_list = None\<rparr>
      | Some m \<Rightarrow>
          do { a \<leftarrow> copy_if_set (copy_address_from_address D) (rgm_sender_address m);
               g \<leftarrow> copy_if_set (copy_group_info D) (rgm_group_info m);
               is \<leftarrow> copy_array_if_set (copy_group_member_id D) (rgm_member_info_list m) (rgm_n_member_info_list m);
               ms \<leftarrow> copy_array_if_set (copy_group_member D) (rgm_removing_member_list m)
                      (rgm_n_removing_member_list m);
               Some \<lparr>rgm_e2ees_pack_id = rgm_e2ees_pack_id m, rgm_sender_address = a, rgm_group_info = g,
                     rgm_n_member_info_list = rgm_n_member_info_list m, rgm_member_info_list = is,
                     rgm_n_removing_member_list = rgm_n_removing_member_list m,
                     rgm_removing_member_list = ms\<rparr> })"

definition copy_leave_group_msg :: "gen_defaults \<Rightarrow> leave_group_msg ptr \<Rightarrow> leave_group_msg option" where
  "copy_leave_group_msg D src =
     (case src of
        None \<Rightarrow> Some \<lparr>lgm_user_address = None, lgm_group_address = None\<rparr>
      | Some m \<Rightarrow>
          do { u \<leftarrow> copy_if_set (copy_address_from_address D) (lgm_user_address m);
               g \<leftarrow> copy_if_set (copy_address_from_address D) (lgm_group_address m);
               Some \<lparr>lgm_user_address = u, lgm_group_address = g\<rparr> })"

subsection \<open>Editing a group's members\<close>

definition add_group_members_to_group_info ::
    "gen_defaults \<Rightarrow> group_info \<Rightarrow> group_member ptr array \<Rightarrow> nat \<Rightarrow> group_info option" where
  "add_group_members_to_group_info D old_group_info adding_member_list adding_members_num =
     (let old_num = gi_n_group_member_list old_group_info in
      do { a \<leftarrow> copy_if_set (copy_address_from_address D) (gi_group_address old_group_info);
           olds \<leftarrow> copy_array (copy_group_member D) (gi_group_member_list old_group_info) old_num;
           news \<leftarrow> copy_array (copy_group_member D) adding_member_list adding_members_num;
           Some \<lparr>gi_group_name = str_or (gd_string D) (gi_group_name old_group_info),
                 gi_group_address = a, gi_n_group_member_list = old_num + adding_members_num,
                 gi_group_member_list = Some (olds @ news)\<rparr> })"

text \<open>
  One pass over the old members with a cursor into the members to remove: a member that does not
  match the cursor's is copied to slot \<open>i - cur_pos\<close> of the new array, whose size is the
  difference of the two counts.
\<close>

definition same_member :: "group_member \<Rightarrow> group_member \<Rightarrow> bool" where
  "same_member m r \<longleftrightarrow> gm_role m = gm_role r \<and> safe_strcmp (gm_user_id m) (gm_user_id r) \<and>
     safe_strcmp (gm_domain m) (gm_domain r)"

fun remove_members_loop ::
    "gen_defaults \<Rightarrow> group_member ptr array \<Rightarrow> group_member ptr array \<Rightarrow> nat \<Rightarrow> nat \<Rightarrow> nat \<Rightarrow> nat \<Rightarrow>
     group_member ptr array \<Rightarrow> group_member ptr array option" where
  "remove_members_loop D old rem removing_num i cur_pos 0 dest = Some dest"
| "remove_members_loop D old rem removing_num i cur_pos (Suc k) dest =
     do { keep \<leftarrow> (if cur_pos = removing_num then Some True
                   else do { p \<leftarrow> array_get old i; m \<leftarrow> deref p;
                             q \<leftarrow> array_get rem cur_pos; r \<leftarrow> deref q;
                             Some (\<not> same_member m r) });
          if keep then
            do { p \<leftarrow> array_get old i; c \<leftarrow> copy_group_member D p;
                 dest' \<leftarrow> array_set dest (i - cur_pos) (Some c);
                 remove_members_loop D old rem removing_num (Suc i) cur_pos k dest' }
          else remove_members_loop D old rem removing_num (Suc i) (Suc cur_pos) k dest }"

text \<open>The \<open>size_t\<close> difference wraps when more members are removed than there are; no
  allocation of the wrapped size succeeds.\<close>

definition remove_group_members_from_group_info ::
    "gen_defaults \<Rightarrow> group_info \<Rightarrow> group_member ptr array \<Rightarrow> nat \<Rightarrow> group_info option" where
  "remove_group_members_from_group_info D old_group_info removing_member_list removing_members_num =
     (let old_num = gi_n_group_member_list old_group_info;
          dest = (if removing_members_num \<le> old_num
                  then Some (replicate (old_num - removing_members_num) None) else None) in
      do { a \<leftarrow> copy_if_set (copy_address_from_address D) (gi_group_address old_group_info);
           ms \<leftarrow> remove_members_loop D (gi_group_member_list old_group_info) removing_member_list
                  removing_members_num 0 0 old_num dest;
           Some \<lparr>gi_group_name = str_or (gd_string D) (gi_group_name old_group_info),
                 gi_group_address = a,
                 gi_n_group_member_list = (old_num + 2 ^ 64 - removing_members_num) mod 2 ^ 64,
                 gi_group_member_list = ms\<rparr> })"

definition member_info_to_group_member :: "gen_defaults \<Rightarrow> group_member_info ptr \<Rightarrow> group_member ptr" where
  "member_info_to_group_member D member_info =
     do { mi \<leftarrow> member_info; a \<leftarrow> gmi_member_address mi; u \<leftarrow> ad_user a;
          uid \<leftarrow> pu_user_id u; dom \<leftarrow> ad_domain a;
          Some ((init_group_member D)\<lparr>gm_user_id := Some uid, gm_domain := Some dom\<rparr>) }"

text \<open>
  \<open>member_info_to_group_members\<close>: the first loop counts the distinct users (the test
  \<open>j != i\<close> in the loop's condition stops it at \<open>i\<close>), the second fills an array of that many
  slots, taking each user's role from the given members.
\<close>

fun info_seen :: "group_member_info ptr array \<Rightarrow> address ptr \<Rightarrow> nat \<Rightarrow> nat \<Rightarrow> bool option" where
  "info_seen infos a j 0 = Some False"
| "info_seen infos a j (Suc k) =
     do { p \<leftarrow> array_get infos j; mi \<leftarrow> deref p; sa \<leftarrow> deref (gmi_member_address mi);
          su \<leftarrow> deref (ad_user sa);
          same \<leftarrow> compare_user_id a (pu_user_id su) (ad_domain sa);
          if same then Some True else info_seen infos a (Suc j) k }"

fun count_users :: "group_member_info ptr array \<Rightarrow> nat \<Rightarrow> nat \<Rightarrow> nat \<Rightarrow> nat option" where
  "count_users infos i 0 num = Some num"
| "count_users infos i (Suc k) num =
     do { p \<leftarrow> array_get infos i; mi \<leftarrow> deref p;
          exist \<leftarrow> info_seen infos (gmi_member_address mi) 0 i;
          count_users infos (Suc i) k (if exist then num else Suc num) }"

fun member_seen :: "group_member ptr array \<Rightarrow> address ptr \<Rightarrow> nat \<Rightarrow> nat \<Rightarrow> group_member option option" where
  "member_seen ms a j 0 = Some None"
| "member_seen ms a j (Suc k) =
     do { p \<leftarrow> array_get ms j; m \<leftarrow> deref p;
          same \<leftarrow> compare_user_id a (gm_user_id m) (gm_domain m);
          if same then Some (Some m) else member_seen ms a (Suc j) k }"

fun fill_users ::
    "gen_defaults \<Rightarrow> group_member_info ptr array \<Rightarrow> group_member ptr array \<Rightarrow> nat \<Rightarrow> nat \<Rightarrow> nat \<Rightarrow>
     group_member ptr array \<Rightarrow> nat \<Rightarrow> (group_member ptr array \<times> nat) option" where
  "fill_users D infos members members_num i 0 dest pos = Some (dest, pos)"
| "fill_users D infos members members_num i (Suc k) dest pos =
     do { p \<leftarrow> array_get infos i; mi \<leftarrow> deref p;
          exist \<leftarrow> member_seen dest (gmi_member_address mi) 0 pos;
          if exist \<noteq> None then fill_users D infos members members_num (Suc i) k dest pos
          else do { r \<leftarrow> member_seen members (gmi_member_address mi) 0 members_num;
                    gm \<leftarrow> deref (member_info_to_group_member D (Some mi));
                    let gm' = (case r of None \<Rightarrow> gm | Some m \<Rightarrow> gm\<lparr>gm_role := gm_role m\<rparr>);
                    dest' \<leftarrow> array_set dest pos (Some gm');
                    fill_users D infos members members_num (Suc i) k dest' (Suc pos) } }"

definition member_info_to_group_members ::
    "gen_defaults \<Rightarrow> group_member_info ptr array \<Rightarrow> nat \<Rightarrow> group_member ptr array \<Rightarrow> nat \<Rightarrow>
     (nat \<times> group_member ptr array) option" where
  "member_info_to_group_members D infos infos_num members members_num =
     do { dest_num \<leftarrow> (if infos_num > 0 then count_users infos 1 (infos_num - 1) 1 else Some 0);
          (dest, pos) \<leftarrow> fill_users D infos members members_num 0 infos_num
                           (Some (replicate dest_num None)) 0;
          Some (dest_num, dest) }"

subsection \<open>Strings and addresses\<close>

lemma safe_strcmp_eq [simp]: "safe_strcmp a b \<longleftrightarrow> a = b"
  by (auto simp: safe_strcmp_def split: option.splits)

lemma str_or_id [simp]: "str_or d s = s \<longleftrightarrow> s \<noteq> None \<or> s = d"
  by (auto simp: str_or_def split: option.splits)

text \<open>
  An address whose peer case names the peer it carries, and the identity that
  \<^const>\<open>compare_address\<close> compares.
\<close>

definition wf_peer :: "address \<Rightarrow> bool" where
  "wf_peer a \<longleftrightarrow> (case ad_peer_case a of PEER_USER \<Rightarrow> ad_user a \<noteq> None
      | PEER_GROUP \<Rightarrow> ad_group a \<noteq> None | PEER_NOT_SET \<Rightarrow> False)"

definition address_id :: "address \<Rightarrow> cstr \<times> peer_case \<times> cstr \<times> cstr" where
  "address_id a =
     (ad_domain a, ad_peer_case a,
      case ad_peer_case a of PEER_USER \<Rightarrow> (pu_user_id (the (ad_user a)), pu_device_id (the (ad_user a)))
        | PEER_GROUP \<Rightarrow> (pg_group_id (the (ad_group a)), None)
        | PEER_NOT_SET \<Rightarrow> (None, None))"

lemma compare_address_id:
  assumes "wf_peer a" and "wf_peer b"
  shows "compare_address (Some a) (Some b) = Some (address_id a = address_id b)"
  using assms
  by (cases "ad_peer_case a"; cases "ad_peer_case b")
     (auto simp: compare_address_def wf_peer_def address_id_def)

subsection \<open>Binary data\<close>

text \<open>A buffer whose recorded length is its size; the empty one has no buffer.\<close>

definition wf_bdata :: "bdata \<Rightarrow> bool" where
  "wf_bdata b \<longleftrightarrow> (case pb_data b of None \<Rightarrow> pb_len b = 0 | Some bs \<Rightarrow> pb_len b = length bs \<and> bs \<noteq> [])"

lemma wf_bdata_buf [simp]: "wf_bdata (buf bs) \<longleftrightarrow> bs \<noteq> []"
  by (simp add: wf_bdata_def)

lemma wf_bdata_empty [simp]: "wf_bdata empty_bdata"
  by (simp add: wf_bdata_def)

lemma wf_bdata_cases:
  assumes "wf_bdata b"
  obtains "b = empty_bdata" | bs where "b = buf bs" "bs \<noteq> []"
proof (cases "pb_data b")
  case None
  with assms have "b = empty_bdata" by (cases b) (simp add: wf_bdata_def empty_bdata_def)
  then show ?thesis by (rule that(1))
next
  case (Some bs)
  with assms have "b = buf bs" "bs \<noteq> []" by (cases b; simp add: wf_bdata_def buf_def)+
  then show ?thesis by (rule that(2))
qed

lemma copy_pb_id [copy_simps]: "wf_bdata b \<Longrightarrow> copy_protobuf_from_protobuf empty_bdata b = Some b"
  by (erule wf_bdata_cases) (auto simp: copy_protobuf_from_protobuf_def buf_def)

lemma copy_pb_buf [simp]: "bs \<noteq> [] \<Longrightarrow> copy_protobuf_from_protobuf d (buf bs) = Some (buf bs)"
  by (simp add: copy_protobuf_from_protobuf_def buf_def)

lemma copy_pb_array [simp]: "n \<le> length bs \<Longrightarrow> copy_protobuf_from_array bs n = Some (buf (take n bs))"
  by (simp add: copy_protobuf_from_array_def read_bytes_take buf_def min_absorb2)

lemma overwrite_pb [simp]:
  "length src = length old \<Longrightarrow> overwrite_protobuf_from_array (buf old) src = Some (buf src)"
  by (simp add: overwrite_protobuf_from_array_def buf_def read_bytes_take)

lemma compare_pb_buf [simp]: "compare_protobuf (Some (buf a)) (Some (buf b)) = Some (a = b)"
  by (auto simp: compare_protobuf_def read_bytes_def)

lemma is_equal_iff: "length a = length b \<Longrightarrow> is_equal (Some a) (Some b) (length a) = Some (a = b)"
  by (simp add: is_equal_def read_bytes_def tag_diff_eq_0)

subsection \<open>The contract of a deep copy\<close>

definition set_ptr :: "('a \<Rightarrow> bool) \<Rightarrow> 'a ptr \<Rightarrow> bool" where
  "set_ptr ok p \<longleftrightarrow> (case p of None \<Rightarrow> False | Some x \<Rightarrow> ok x)"

lemma set_ptr_Some [simp]: "set_ptr ok (Some x) = ok x" "\<not> set_ptr ok None"
  by (simp_all add: set_ptr_def)

lemma set_ptrE: "set_ptr ok p \<Longrightarrow> (\<And>x. p = Some x \<Longrightarrow> ok x \<Longrightarrow> thesis) \<Longrightarrow> thesis"
  by (auto simp: set_ptr_def split: option.splits)

locale deep_copy =
  fixes copy :: "'a ptr \<Rightarrow> 'a option" and ok :: "'a \<Rightarrow> bool"
  assumes copy_id: "ok x \<Longrightarrow> copy (Some x) = Some x"
begin

lemma copy_ptr: "set_ptr ok p \<Longrightarrow> copy p = p"
  by (auto elim: set_ptrE simp: copy_id)

lemma if_set_id: "p = None \<or> set_ptr ok p \<Longrightarrow> copy_if_set copy p = Some p"
  by (auto simp: copy_if_set_def copy_id elim: set_ptrE)

lemma array_id:
  assumes "n \<le> length xs" and "list_all (set_ptr ok) (take n xs)"
  shows "copy_array copy (Some xs) n = Some (take n xs)"
proof (rule map_loop_id [OF assms(1)])
  fix p assume "p \<in> set (take n xs)"
  with assms(2) have "set_ptr ok p" by (simp add: list_all_iff)
  then show "map_option Some (copy p) = Some p" by (auto elim: set_ptrE simp: copy_id)
qed

lemma array_if_set_id:
  assumes "a = None \<or> (\<exists>xs. a = Some xs \<and> length xs = n \<and> list_all (set_ptr ok) xs)"
  shows "copy_array_if_set copy a n = Some a"
  using assms array_id by (auto simp: copy_array_if_set_def)

end


subsection \<open>The copies keep well-formed structs\<close>

definition wf_key_pair :: "key_pair \<Rightarrow> bool" where
  "wf_key_pair k \<longleftrightarrow> wf_bdata (kpr_private_key k) \<and> wf_bdata (kpr_public_key k)"

definition wf_identity_key :: "identity_key \<Rightarrow> bool" where
  "wf_identity_key k \<longleftrightarrow> set_ptr wf_key_pair (ik_asym_key_pair k) \<and> set_ptr wf_key_pair (ik_sign_key_pair k)"

definition wf_spk :: "signed_pre_key \<Rightarrow> bool" where
  "wf_spk k \<longleftrightarrow> set_ptr wf_key_pair (spk_key_pair k) \<and> wf_bdata (spk_signature k)"

definition wf_opk :: "one_time_pre_key \<Rightarrow> bool" where
  "wf_opk k \<longleftrightarrow> set_ptr wf_key_pair (opk_key_pair k)"

definition wf_chain_key :: "chain_key \<Rightarrow> bool" where
  "wf_chain_key c \<longleftrightarrow> wf_bdata (ck_shared_key c)"

definition wf_msg_key :: "msg_key \<Rightarrow> bool" where
  "wf_msg_key m \<longleftrightarrow> wf_bdata (mk_derived_key m)"

definition wf_sender_chain :: "sender_chain \<Rightarrow> bool" where
  "wf_sender_chain c \<longleftrightarrow> wf_bdata (sc_our_ratchet_public_key c) \<and>
     wf_bdata (sc_their_ratchet_public_key c) \<and> set_ptr wf_chain_key (sc_chain_key c)"

definition wf_receiver_chain :: "receiver_chain \<Rightarrow> bool" where
  "wf_receiver_chain c \<longleftrightarrow> wf_bdata (rc_their_ratchet_public_key c) \<and>
     wf_bdata (rc_our_ratchet_private_key c) \<and> set_ptr wf_chain_key (rc_chain_key c)"

definition wf_skipped_node :: "skipped_node \<Rightarrow> bool" where
  "wf_skipped_node n \<longleftrightarrow> wf_bdata (sk_ratchet_key_public n) \<and> set_ptr wf_msg_key (sk_msg_key n)"

text \<open>Strings that a copy reproduces: set, or NULL where the generator's default is NULL.\<close>

definition wf_str :: "gen_defaults \<Rightarrow> cstr \<Rightarrow> bool" where
  "wf_str D s \<longleftrightarrow> s \<noteq> None \<or> s = gd_string D"

definition wf_address :: "gen_defaults \<Rightarrow> address \<Rightarrow> bool" where
  "wf_address D a \<longleftrightarrow> wf_str D (ad_domain a) \<and>
     (case ad_peer_case a of
        PEER_USER \<Rightarrow> ad_group a = None \<and>
          set_ptr (\<lambda>u. wf_str D (pu_user_name u) \<and> wf_str D (pu_user_id u) \<and> wf_str D (pu_device_id u)) (ad_user a)
      | PEER_GROUP \<Rightarrow> ad_user a = None \<and>
          set_ptr (\<lambda>g. wf_str D (pg_group_name g) \<and> wf_str D (pg_group_id g)) (ad_group a)
      | PEER_NOT_SET \<Rightarrow> ad_user a = None \<and> ad_group a = None)"

definition wf_member :: "gen_defaults \<Rightarrow> group_member \<Rightarrow> bool" where
  "wf_member D m \<longleftrightarrow> wf_str D (gm_user_id m) \<and> wf_str D (gm_domain m)"

definition wf_member_info :: "gen_defaults \<Rightarrow> group_member_info \<Rightarrow> bool" where
  "wf_member_info D m \<longleftrightarrow> set_ptr (wf_address D) (gmi_member_address m) \<and> wf_bdata (gmi_sign_public_key m)"

lemma str_or_wf [simp]: "wf_str D s \<Longrightarrow> str_or (gd_string D) s = s"
  by (auto simp: wf_str_def)

interpretation kp_copy: deep_copy copy_key_pair_from_key_pair wf_key_pair
  by unfold_locales (simp add: copy_key_pair_from_key_pair_def wf_key_pair_def copy_simps)

interpretation ik_copy: deep_copy copy_ik_from_ik wf_identity_key
  by unfold_locales
     (auto simp: copy_ik_from_ik_def wf_identity_key_def kp_copy.copy_id elim!: set_ptrE)

interpretation spk_copy: deep_copy copy_spk_from_spk wf_spk
  by unfold_locales
     (auto simp: copy_spk_from_spk_def wf_spk_def kp_copy.copy_id copy_simps elim!: set_ptrE)

interpretation opk_copy: deep_copy copy_opk wf_opk
  by unfold_locales (auto simp: copy_opk_def wf_opk_def kp_copy.copy_id elim!: set_ptrE)

interpretation ck_copy: deep_copy copy_chain_key_from_chain_key wf_chain_key
  by unfold_locales (simp add: copy_chain_key_from_chain_key_def wf_chain_key_def copy_simps)

interpretation mk_copy: deep_copy copy_msg_key_from_msg_key wf_msg_key
  by unfold_locales (simp add: copy_msg_key_from_msg_key_def wf_msg_key_def copy_simps)

interpretation sc_copy: deep_copy copy_sender_chain_from_sender_chain wf_sender_chain
  by unfold_locales
     (auto simp: copy_sender_chain_from_sender_chain_def wf_sender_chain_def ck_copy.copy_id copy_simps
       elim!: set_ptrE)

interpretation rc_copy: deep_copy copy_receiver_chain_from_receiver_chain wf_receiver_chain
  by unfold_locales
     (auto simp: copy_receiver_chain_from_receiver_chain_def wf_receiver_chain_def ck_copy.copy_id
       copy_simps elim!: set_ptrE)

interpretation sk_copy: deep_copy copy_skipped_node wf_skipped_node
  by unfold_locales
     (auto simp: copy_skipped_node_def wf_skipped_node_def mk_copy.copy_id copy_simps elim!: set_ptrE)

interpretation address_copy: deep_copy "copy_address_from_address D" "wf_address D" for D
  by unfold_locales
     (auto simp: copy_address_from_address_def wf_address_def init_address_def Let_def
       split: peer_case.splits elim!: set_ptrE)

interpretation member_copy: deep_copy "copy_group_member D" "wf_member D" for D
  by unfold_locales (auto simp: copy_group_member_def wf_member_def)

interpretation info_copy: deep_copy "copy_group_member_id D" "wf_member_info D" for D
  by unfold_locales
     (auto simp: copy_group_member_id_def wf_member_info_def address_copy.copy_id copy_simps
       elim!: set_ptrE)

definition wf_group_info :: "gen_defaults \<Rightarrow> group_info \<Rightarrow> bool" where
  "wf_group_info D g \<longleftrightarrow> wf_str D (gi_group_name g) \<and>
     (gi_group_address g = None \<or> set_ptr (wf_address D) (gi_group_address g)) \<and>
     (\<exists>xs. gi_group_member_list g = Some xs \<and> length xs = gi_n_group_member_list g \<and>
           list_all (set_ptr (wf_member D)) xs)"

interpretation group_info_copy: deep_copy "copy_group_info D" "wf_group_info D" for D
  by unfold_locales
     (auto simp: copy_group_info_def wf_group_info_def address_copy.if_set_id
       member_copy.array_if_set_id)


subsection \<open>Comparing member lists\<close>

lemma member_scan_eq:
  "j + k \<le> length ys \<Longrightarrow> list_all (\<lambda>p. p \<noteq> None) ys \<Longrightarrow>
   member_scan m (Some ys) j k =
     Some (\<exists>i. j \<le> i \<and> i < j + k \<and> gm_user_id m = gm_user_id (the (ys ! i)) \<and>
             gm_domain m = gm_domain (the (ys ! i)))"
proof (induction k arbitrary: j)
  case 0
  then show ?case by auto
next
  case (Suc k)
  let ?Q = "\<lambda>i. gm_user_id m = gm_user_id (the (ys ! i)) \<and> gm_domain m = gm_domain (the (ys ! i))"
  have j: "j < length ys" using Suc.prems by simp
  then obtain y where y: "ys ! j = Some y"
    using Suc.prems(2) by (auto simp: list_all_length)
  have IH: "member_scan m (Some ys) (Suc j) k = Some (\<exists>i. Suc j \<le> i \<and> i < Suc j + k \<and> ?Q i)"
    using Suc.prems by (intro Suc.IH) auto
  have "(\<exists>i. j \<le> i \<and> i < j + Suc k \<and> ?Q i) \<longleftrightarrow> ?Q j \<or> (\<exists>i. Suc j \<le> i \<and> i < Suc j + k \<and> ?Q i)"
    by (metis Suc_le_eq add_Suc_right add_Suc le_add1 le_eq_less_or_eq less_Suc_eq_le)
  then show ?case using j y IH by (auto simp: array_get_Some)
qed

definition has_member :: "group_member ptr list \<Rightarrow> group_member ptr \<Rightarrow> bool" where
  "has_member ys p \<longleftrightarrow> (\<exists>q \<in> set ys. gm_user_id (the p) = gm_user_id (the q) \<and> gm_domain (the p) = gm_domain (the q))"

lemma member_scan_has:
  "list_all (\<lambda>p. p \<noteq> None) ys \<Longrightarrow> member_scan m (Some ys) 0 (length ys) = Some (has_member ys (Some m))"
  by (auto simp: member_scan_eq has_member_def set_conv_nth)

lemma compare_members_loop_eq:
  assumes "list_all (\<lambda>p. p \<noteq> None) xs" "list_all (\<lambda>p. p \<noteq> None) ys"
  shows "i + k = length xs \<Longrightarrow>
    compare_members_loop (Some xs) (Some ys) (length ys) i matched k =
      Some (k = 0 \<or> matched \<and> list_all (has_member ys) (butlast (drop i xs)))"
proof (induction k arbitrary: i matched)
  case 0
  then show ?case by simp
next
  case (Suc k)
  then have i: "i < length xs" by simp
  then obtain x where x: "xs ! i = Some x" using assms(1) by (auto simp: list_all_length)
  have d: "drop i xs = Some x # drop (Suc i) xs" using i x by (metis Cons_nth_drop_Suc)
  have IH: "compare_members_loop (Some xs) (Some ys) (length ys) (Suc i) m k =
      Some (k = 0 \<or> m \<and> list_all (has_member ys) (butlast (drop (Suc i) xs)))" for m
    using Suc.prems by (intro Suc.IH) simp
  have "k = 0 \<longleftrightarrow> drop (Suc i) xs = []" using Suc.prems by auto
  then show ?case using i x d assms(2) by (auto simp: array_get_Some member_scan_has IH)
qed

lemma compare_group_member_eq:
  assumes "list_all (\<lambda>p. p \<noteq> None) xs" "list_all (\<lambda>p. p \<noteq> None) ys" "length xs = length ys"
  shows "compare_group_member (Some xs) (length xs) (Some ys) (length ys) =
         Some (list_all (has_member ys) (butlast xs))"
proof -
  have "compare_members_loop (Some xs) (Some ys) (length ys) 0 True (length xs) =
      Some (list_all (has_member ys) (butlast xs))"
    using compare_members_loop_eq [OF assms(1,2), of 0 "length xs" True] by auto
  then show ?thesis using assms(3) by (simp add: compare_group_member_def)
qed

subsection \<open>Adding and removing members\<close>

lemma add_members_eq:
  assumes "wf_group_info D g" and "gi_group_member_list g = Some xs"
    and "list_all (set_ptr (wf_member D)) ys"
  shows "add_group_members_to_group_info D g (Some ys) (length ys) =
    Some (g\<lparr>gi_n_group_member_list := length xs + length ys, gi_group_member_list := Some (xs @ ys)\<rparr>)"
proof -
  have "copy_array (copy_group_member D) (Some xs) (length xs) = Some xs"
    using assms member_copy.array_id [of "length xs" xs D] by (simp add: wf_group_info_def)
  moreover have "copy_array (copy_group_member D) (Some ys) (length ys) = Some ys"
    using assms(3) member_copy.array_id [of "length ys" ys D] by simp
  ultimately show ?thesis using assms(1,2)
    by (auto simp: add_group_members_to_group_info_def wf_group_info_def address_copy.if_set_id Let_def)
qed

text \<open>
  What one pass with a cursor removes: the members that match the cursor's, in order.  The
  second component is what is left of the members to remove.
\<close>

fun remove_in_order :: "group_member list \<Rightarrow> group_member list \<Rightarrow> group_member list \<times> group_member list" where
  "remove_in_order [] rs = ([], rs)"
| "remove_in_order (m # ms) [] = (m # ms, [])"
| "remove_in_order (m # ms) (r # rs) =
     (if same_member m r then remove_in_order ms rs
      else (let (ks, ls) = remove_in_order ms (r # rs) in (m # ks, ls)))"

lemma remove_in_order_length:
  "remove_in_order ms rs = (ks, ls) \<Longrightarrow> length ks + length rs = length ms + length ls"
  by (induction ms rs arbitrary: ks ls rule: remove_in_order.induct)
     (auto split: if_splits prod.splits)

lemma remove_in_order_Nil [simp]: "remove_in_order ms [] = (ms, [])"
  by (cases ms) auto

lemma remove_loop:
  assumes "old = pre @ ms" and "rem = gone @ rs"
    and "list_all (wf_member D) old" and "length kept + length gone = length pre"
  shows "remove_members_loop D (Some (map Some old)) (Some (map Some rem)) (length rem)
           (length pre) (length gone) (length ms) (Some (map Some kept @ replicate n None)) =
         (let (ks, ls) = remove_in_order ms rs in
          if length ks \<le> n then Some (Some (map Some (kept @ ks) @ replicate (n - length ks) None))
          else None)"
  using assms
proof (induction ms arbitrary: rs pre gone kept n)
  case Nil
  then show ?case by simp
next
  case (Cons m ms)
  have cm: "copy_group_member D (Some m) = Some m" using Cons.prems by (simp add: member_copy.copy_id)
  have slot: "length pre - length gone = length kept" using Cons.prems(4) by simp
  have get: "array_get (Some (map Some old)) (length pre) = Some (Some m)"
    using Cons.prems(1) by (simp add: array_get_def nth_append)
  have put: "array_set (Some (map Some kept @ replicate n None)) (length kept) (Some m) =
      (case n of 0 \<Rightarrow> None | Suc n' \<Rightarrow> Some (Some (map Some (kept @ [m]) @ replicate n' None)))"
    by (simp add: array_set_def list_update_append split: nat.splits)
  have IH_keep: "remove_members_loop D (Some (map Some old)) (Some (map Some rem)) (length rem)
      (Suc (length pre)) (length gone) (length ms) (Some (map Some (kept @ [m]) @ replicate n' None)) =
      (let (ks, ls) = remove_in_order ms rs in if length ks \<le> n'
       then Some (Some (map Some ((kept @ [m]) @ ks) @ replicate (n' - length ks) None)) else None)" for n'
    using Cons.IH [of "pre @ [m]" gone rs "kept @ [m]" n'] Cons.prems by simp
  show ?case
  proof (cases rs)
    case Nil
    then show ?thesis using Cons.prems(2) cm slot get put IH_keep
      by (cases n) (auto simp: Let_def)
  next
    case rs: (Cons r rs')
    have getr: "array_get (Some (map Some rem)) (length gone) = Some (Some r)"
      using Cons.prems(2) rs by (simp add: array_get_def nth_append)
    have lt: "length gone \<noteq> length rem" using Cons.prems(2) rs by simp
    have IH_drop: "same_member m r \<Longrightarrow> remove_members_loop D (Some (map Some old)) (Some (map Some rem))
      (length rem) (Suc (length pre)) (Suc (length gone)) (length ms)
      (Some (map Some kept @ replicate n None)) =
      (let (ks, ls) = remove_in_order ms rs' in if length ks \<le> n
       then Some (Some (map Some (kept @ ks) @ replicate (n - length ks) None)) else None)"
      using Cons.IH [of "pre @ [m]" "gone @ [r]" rs' kept n] Cons.prems rs by simp
    show ?thesis
      using rs lt getr cm slot get put IH_keep IH_drop
      by (cases n) (auto simp: Let_def split: prod.splits)
  qed
qed

lemma remove_members_ok:
  assumes "wf_group_info D g" and "gi_group_member_list g = Some (map Some ms)"
    and "remove_in_order ms rs = (ks, [])" and "length ms < 2 ^ 64"
  shows "remove_group_members_from_group_info D g (Some (map Some rs)) (length rs) =
     Some (g\<lparr>gi_n_group_member_list := length ks, gi_group_member_list := Some (map Some ks)\<rparr>)"
proof -
  have len: "length ks + length rs = length ms" using remove_in_order_length [OF assms(3)] by simp
  have n: "gi_n_group_member_list g = length ms" and w: "list_all (wf_member D) ms"
    using assms(1,2) by (auto simp: wf_group_info_def list_all_iff)
  have "remove_members_loop D (Some (map Some ms)) (Some (map Some rs)) (length rs) 0 0 (length ms)
      (Some (replicate (length ks) None)) = Some (Some (map Some ks))"
    using remove_loop [of ms "[]" ms rs "[]" rs D "[]" "length ks"] w assms(3) by simp
  moreover have "length ms - length rs = length ks" "(length ms + 2 ^ 64 - length rs) mod 2 ^ 64 = length ks"
    using len assms(4) by (auto simp flip: len)
  ultimately show ?thesis using assms(1,2) n len
    by (auto simp: remove_group_members_from_group_info_def wf_group_info_def
      address_copy.if_set_id Let_def)
qed

lemma remove_members_overflow:
  assumes "wf_group_info D g" and "gi_group_member_list g = Some (map Some ms)"
    and "remove_in_order ms rs = (ks, ls)" and "ls \<noteq> []" and "length rs \<le> length ms"
  shows "remove_group_members_from_group_info D g (Some (map Some rs)) (length rs) = None"
proof -
  have len: "length ks + length rs = length ms + length ls" using remove_in_order_length [OF assms(3)] .
  have n: "gi_n_group_member_list g = length ms" and w: "list_all (wf_member D) ms"
    using assms(1,2) by (auto simp: wf_group_info_def list_all_iff)
  have "\<not> length ks \<le> length ms - length rs" using len assms(4,5) by (cases ls) auto
  then have "remove_members_loop D (Some (map Some ms)) (Some (map Some rs)) (length rs) 0 0 (length ms)
      (Some (replicate (length ms - length rs) None)) = None"
    using remove_loop [of ms "[]" ms rs "[]" rs D "[]" "length ms - length rs"] w assms(3) by simp
  then show ?thesis using assms n by (auto simp: remove_group_members_from_group_info_def Let_def bind_eq_None_conv)
qed

subsection \<open>From member devices to members\<close>

text \<open>
  A group member's info names one device; several devices belong to one user, who is identified
  by domain and user id.
\<close>

definition user_info :: "group_member_info \<Rightarrow> bool" where
  "user_info mi \<longleftrightarrow> (\<exists>a u. gmi_member_address mi = Some a \<and> ad_peer_case a = PEER_USER \<and>
     ad_user a = Some u \<and> pu_user_id u \<noteq> None \<and> ad_domain a \<noteq> None)"

definition info_key :: "group_member_info \<Rightarrow> cstr \<times> cstr" where
  "info_key mi = (let a = the (gmi_member_address mi) in (pu_user_id (the (ad_user a)), ad_domain a))"

definition member_key :: "group_member \<Rightarrow> cstr \<times> cstr" where
  "member_key m = (gm_user_id m, gm_domain m)"

text \<open>The elements of a list in the order of their first occurrences.\<close>

definition firsts :: "'a list \<Rightarrow> 'a list" where
  "firsts xs = rev (remdups (rev xs))"

lemma firsts_Nil [simp]: "firsts [] = []"
  by (simp add: firsts_def)

lemma firsts_snoc: "firsts (xs @ [x]) = (if x \<in> set xs then firsts xs else firsts xs @ [x])"
  by (simp add: firsts_def)

lemma set_firsts [simp]: "set (firsts xs) = set xs"
  by (simp add: firsts_def)

lemma distinct_firsts: "distinct (firsts xs)"
  by (simp add: firsts_def)

lemma length_firsts: "length (firsts xs) = card (set xs)"
  using distinct_card [OF distinct_firsts, of xs] by simp

lemma compare_user_id_key:
  assumes "user_info mi"
  shows "compare_user_id (gmi_member_address mi) uid d = Some (info_key mi = (uid, d))"
  using assms by (cases uid; cases d) (auto simp: user_info_def info_key_def compare_user_id_def)

lemma info_seen_eq:
  assumes "list_all user_info is" and "user_info mi"
  shows "j + k \<le> length is \<Longrightarrow> info_seen (Some (map Some is)) (gmi_member_address mi) j k =
     Some (info_key mi \<in> set (take k (drop j (map info_key is))))"
proof (induction k arbitrary: j)
  case 0
  then show ?case by simp
next
  case (Suc k)
  then have j: "j < length is" by simp
  then have u: "user_info (is ! j)" using assms(1) by (simp add: list_all_length)
  then obtain a v where a: "gmi_member_address (is ! j) = Some a" "ad_user a = Some v"
    and key: "info_key (is ! j) = (pu_user_id v, ad_domain a)"
    by (auto simp: user_info_def info_key_def)
  have d: "drop j (map info_key is) = info_key (is ! j) # drop (Suc j) (map info_key is)"
    using j by (simp add: Cons_nth_drop_Suc [symmetric] drop_map)
  show ?case using Suc j a key assms(2) by (auto simp: d array_get_Some compare_user_id_key)
qed

lemma count_users_eq:
  assumes "list_all user_info is"
  shows "i + k \<le> length is \<Longrightarrow> num = length (firsts (take i (map info_key is))) \<Longrightarrow>
    count_users (Some (map Some is)) i k num = Some (length (firsts (take (i + k) (map info_key is))))"
proof (induction k arbitrary: i num)
  case 0
  then show ?case by simp
next
  case (Suc k)
  then have i: "i < length is" by simp
  then have u: "user_info (is ! i)" using assms by (simp add: list_all_length)
  have t: "take (Suc i) (map info_key is) = take i (map info_key is) @ [info_key (is ! i)]"
    using i by (simp add: take_Suc_conv_app_nth)
  have seen: "info_seen (Some (map Some is)) (gmi_member_address (is ! i)) 0 i =
      Some (info_key (is ! i) \<in> set (take i (map info_key is)))"
    using info_seen_eq [OF assms u, of 0 i] i by simp
  have "count_users (Some (map Some is)) (Suc i) k
      (if info_key (is ! i) \<in> set (take i (map info_key is)) then num else Suc num) =
      Some (length (firsts (take (Suc i + k) (map info_key is))))"
    using Suc.prems t by (intro Suc.IH) (auto simp: firsts_snoc)
  then show ?case using i seen by (simp add: array_get_Some)
qed

lemma member_seen_find:
  assumes "user_info mi"
  shows "j + k \<le> length ms \<Longrightarrow> member_seen (Some (map Some ms @ rest)) (gmi_member_address mi) j k =
     Some (find (\<lambda>m. member_key m = info_key mi) (take k (drop j ms)))"
proof (induction k arbitrary: j)
  case 0
  then show ?case by simp
next
  case (Suc k)
  then have j: "j < length ms" by simp
  have g: "array_get (Some (map Some ms @ rest)) j = Some (Some (ms ! j))"
    using j by (simp add: array_get_def nth_append)
  have d: "drop j ms = ms ! j # drop (Suc j) ms" using j by (simp add: Cons_nth_drop_Suc)
  show ?case using Suc g j assms by (auto simp: d compare_user_id_key member_key_def)
qed

text \<open>The member made of an info: the user's key, the role found in the given list.\<close>

definition member_of_key :: "gen_defaults \<Rightarrow> group_member list \<Rightarrow> cstr \<times> cstr \<Rightarrow> group_member" where
  "member_of_key D members k =
     \<lparr>gm_user_id = fst k, gm_domain = snd k,
      gm_role = (case find (\<lambda>m. member_key m = k) members of None \<Rightarrow> gd_role D | Some m \<Rightarrow> gm_role m)\<rparr>"

lemma member_key_of_key [simp]: "member_key (member_of_key D ms k) = k"
  by (simp add: member_key_def member_of_key_def)

lemma member_info_to_group_member_eq:
  assumes "user_info mi"
  shows "member_info_to_group_member D (Some mi) =
    Some \<lparr>gm_user_id = fst (info_key mi), gm_domain = snd (info_key mi), gm_role = gd_role D\<rparr>"
  using assms by (auto simp: user_info_def info_key_def member_info_to_group_member_def init_group_member_def)

lemma find_key_None: "find (\<lambda>m. member_key m = k) ms = None \<longleftrightarrow> k \<notin> member_key ` set ms"
  by (auto simp: find_None_iff)

lemma fill_users_eq:
  assumes "list_all user_info is"
  shows "i + k = length is \<Longrightarrow> keys = map info_key is \<Longrightarrow> ms = map (member_of_key D members) (firsts (take i keys)) \<Longrightarrow>
    length ms + length rest = card (set keys) \<Longrightarrow>
    fill_users D (Some (map Some is)) (Some (map Some members)) (length members) i k
      (Some (map Some ms @ rest)) (length ms) =
    Some (Some (map Some (map (member_of_key D members) (firsts keys))), card (set keys))"
proof (induction k arbitrary: i ms rest)
  case 0
  then have "length ms = card (set keys)" by (simp add: length_firsts)
  with 0 show ?case by simp
next
  case (Suc k)
  then have i: "i < length is" by simp
  define mi where "mi = is ! i"
  have u: "user_info mi" using i assms by (simp add: list_all_length mi_def)
  have t: "take (Suc i) keys = take i keys @ [info_key mi]"
    using i Suc.prems(2) by (simp add: take_Suc_conv_app_nth mi_def)
  have seen: "member_seen (Some (map Some ms @ rest)) (gmi_member_address mi) 0 (length ms) =
      Some (find (\<lambda>m. member_key m = info_key mi) ms)"
    using member_seen_find [OF u, of 0 "length ms" ms rest] by simp
  have role: "member_seen (Some (map Some members)) (gmi_member_address mi) 0 (length members) =
      Some (find (\<lambda>m. member_key m = info_key mi) members)"
    using member_seen_find [OF u, of 0 "length members" members "[]"] by simp
  have iff: "find (\<lambda>m. member_key m = info_key mi) ms = None \<longleftrightarrow> info_key mi \<notin> set (take i keys)"
    unfolding find_key_None using Suc.prems(3) by (simp add: image_image)
  have get: "array_get (Some (map Some is)) i = Some (Some mi)" using i by (simp add: array_get_def mi_def)
  show ?case
  proof (cases "info_key mi \<in> set (take i keys)")
    case True
    then have "ms = map (member_of_key D members) (firsts (take (Suc i) keys))"
      using Suc.prems(3) t by (simp add: firsts_snoc)
    from Suc.IH [OF _ Suc.prems(2) this Suc.prems(4)] show ?thesis
      using Suc.prems(1) True get seen iff by auto
  next
    case False
    let ?m = "member_of_key D members (info_key mi)"
    have ms': "ms @ [?m] = map (member_of_key D members) (firsts (take (Suc i) keys))"
      using Suc.prems(3) t False by (simp add: firsts_snoc)
    have "length (ms @ [?m]) \<le> card (set keys)"
      unfolding ms' by (simp add: length_firsts card_mono set_take_subset)
    then obtain x rest' where rest: "rest = x # rest'" using Suc.prems(4) by (cases rest) auto
    have set: "array_set (Some (map Some ms @ rest)) (length ms) (Some ?m) =
        Some (Some (map Some (ms @ [?m]) @ rest'))"
      by (simp add: array_set_def rest list_update_append)
    have IH: "fill_users D (Some (map Some is)) (Some (map Some members)) (length members) (Suc i) k
      (Some (map Some (ms @ [?m]) @ rest')) (length (ms @ [?m])) =
      Some (Some (map Some (map (member_of_key D members) (firsts keys))), card (set keys))"
      using Suc.prems rest by (intro Suc.IH [OF _ Suc.prems(2) ms']) auto
    show ?thesis
      using IH get seen iff False role set u
      by (simp add: member_info_to_group_member_eq member_of_key_def split: option.splits)
  qed
qed

lemma member_info_to_group_members_eq:
  assumes "list_all user_info is"
  shows "member_info_to_group_members D (Some (map Some is)) (length is) (Some (map Some members)) (length members) =
    Some (card (set (map info_key is)),
          Some (map Some (map (member_of_key D members) (firsts (map info_key is)))))"
proof -
  let ?keys = "map info_key is"
  have count: "(if length is > 0 then count_users (Some (map Some is)) 1 (length is - 1) 1 else Some 0) =
      Some (card (set ?keys))"
  proof (cases "is")
    case (Cons m is')
    have "take 1 ?keys = [] @ [info_key m]" using Cons by simp
    then have "length (firsts (take 1 ?keys)) = 1" by (simp only: firsts_snoc) simp
    then show ?thesis using Cons count_users_eq [OF assms, of 1 "length is - 1" 1]
      by (simp add: length_firsts)
  qed simp
  have "fill_users D (Some (map Some is)) (Some (map Some members)) (length members) 0 (length is)
      (Some (map Some [] @ replicate (card (set ?keys)) None)) (length ([] :: group_member list)) =
      Some (Some (map Some (map (member_of_key D members) (firsts ?keys))), card (set ?keys))"
    by (rule fill_users_eq [OF assms]) auto
  then show ?thesis unfolding member_info_to_group_members_def count by simp
qed

subsection \<open>Copies of a ratchet and of an account\<close>

lemma copy_ratchet_eq:
  assumes "wf_bdata (rt_root_key r)" and "set_ptr wf_sender_chain (rt_sender_chain r)"
    and "set_ptr wf_receiver_chain (rt_receiver_chain r)"
    and "rt_skipped_msg_key_list r = Some xs" and "rt_n_skipped_msg_key_list r \<le> length xs"
    and "list_all (set_ptr wf_skipped_node) (take (rt_n_skipped_msg_key_list r) xs)"
  shows "copy_ratchet_from_ratchet (Some r) =
    Some (r\<lparr>rt_sending_message_sequence := 0, rt_received_message_sequence := 0,
            rt_skipped_msg_key_list := Some (take (rt_n_skipped_msg_key_list r) xs)\<rparr>)"
  using assms sk_copy.array_id [OF assms(5,6)]
  by (auto simp: copy_ratchet_from_ratchet_def copy_skipped_msg_keys_from_skipped_msg_keys_def
    copy_simps init_ratchet_def sc_copy.copy_id rc_copy.copy_id elim!: set_ptrE)

definition wf_account :: "gen_defaults \<Rightarrow> account \<Rightarrow> bool" where
  "wf_account D a \<longleftrightarrow> acc_version a \<noteq> None \<and> acc_password a \<noteq> None \<and>
     (acc_address a = None \<or> set_ptr (wf_address D) (acc_address a)) \<and>
     (acc_identity_key a = None \<or> set_ptr wf_identity_key (acc_identity_key a)) \<and>
     (acc_signed_pre_key a = None \<or> set_ptr wf_spk (acc_signed_pre_key a)) \<and>
     (acc_one_time_pre_key_list a = None \<or>
      (\<exists>xs. acc_one_time_pre_key_list a = Some xs \<and> length xs = acc_n_one_time_pre_key_list a \<and>
            list_all (set_ptr wf_opk) xs))"

lemma copy_account_eq:
  assumes "wf_account D a"
  shows "copy_account_from_account D (Some a) =
    Some (a\<lparr>acc_auth := gd_string D, acc_server_cert := None, acc_expires_in := 0\<rparr>)"
proof -
  have opks: "(case acc_one_time_pre_key_list a of None \<Rightarrow> Some None
      | Some xs \<Rightarrow> map_option Some (copy_opks_from_opks (Some xs) (acc_n_one_time_pre_key_list a))) =
      Some (acc_one_time_pre_key_list a)"
    using assms opk_copy.array_id by (auto simp: wf_account_def copy_opks_from_opks_def)
  have "acc_version a = Some (the (acc_version a))" "acc_password a = Some (the (acc_password a))"
    using assms by (auto simp: wf_account_def)
  then show ?thesis using assms
    by (auto simp: copy_account_from_account_def wf_account_def opks init_account_def
      address_copy.if_set_id ik_copy.if_set_id spk_copy.if_set_id)
qed

end
