(* ===== verification/Validation.thy ===== *)
theory Validation
  imports Mem_Util
begin

section \<open>Validation of structs\<close>

text \<open>
  \<open>src/validation.c\<close>, from the key and address checks to the ratchet, session and group
  session checks.  A validator of the source returns false at the first check that fails, so
  each is the conjunction of its checks in the order of the source.  A validator that walks an
  array reads the slots its counter promises: when the counter exceeds the array the read is
  undefined behaviour, and its type is \<open>bool option\<close>.
\<close>

subsection \<open>Scalars and keys\<close>

definition accurate_key_pair :: "key_pair ptr \<Rightarrow> nat \<Rightarrow> nat \<Rightarrow> bool" where
  "accurate_key_pair key_pair pub_key_len priv_key_len =
     (case key_pair of None \<Rightarrow> False
      | Some k \<Rightarrow> pb_len (kpr_public_key k) = pub_key_len \<and> pb_len (kpr_private_key k) = priv_key_len)"

definition is_valid_cipher_suite :: "cipher_suite ptr \<Rightarrow> bool" where
  "is_valid_cipher_suite cipher_suite =
     (case cipher_suite of None \<Rightarrow> False
      | Some cs \<Rightarrow>
          (case cs_ds_suite cs of None \<Rightarrow> False
           | Some d \<Rightarrow> ds_get_param d \<noteq> None \<and> ds_sign d \<noteq> None \<and> ds_key_gen d \<noteq> None \<and> ds_verify d \<noteq> None) \<and>
          (case cs_kem_suite cs of None \<Rightarrow> False
           | Some k \<Rightarrow> kem_asym_key_gen k \<noteq> None \<and> kem_get_param k \<noteq> None \<and> kem_encaps k \<noteq> None \<and>
                       kem_decaps k \<noteq> None) \<and>
          (case cs_se_suite cs of None \<Rightarrow> False
           | Some e \<Rightarrow> se_decrypt e \<noteq> None \<and> se_encrypt e \<noteq> None \<and> se_get_param e \<noteq> None) \<and>
          (case cs_hf_suite cs of None \<Rightarrow> False
           | Some h \<Rightarrow> hf_hash h \<noteq> None \<and> hf_hkdf h \<noteq> None \<and> hf_hmac h \<noteq> None))"

definition is_valid_e2ees_pack_id :: "prims \<Rightarrow> u32 \<Rightarrow> bool" where
  "is_valid_e2ees_pack_id P e2ees_pack_id = is_valid_cipher_suite (Some (suite_of P e2ees_pack_id))"

definition is_valid_protobuf :: "bdata ptr \<Rightarrow> bool" where
  "is_valid_protobuf src = (case src of None \<Rightarrow> False | Some b \<Rightarrow> pb_len b \<noteq> 0 \<and> pb_data b \<noteq> None)"

text \<open>The two tests of a list pointer against its counter, then the loop over the slots.\<close>

definition valid_array :: "('a \<Rightarrow> bool) \<Rightarrow> 'a array \<Rightarrow> nat \<Rightarrow> bool option" where
  "valid_array valid src n =
     (if n > 0 \<and> src = None then Some False
      else if n = 0 \<and> src \<noteq> None then Some False
      else all_loop valid src 0 n)"

definition is_valid_protobuf_list :: "bdata array \<Rightarrow> nat \<Rightarrow> bool option" where
  "is_valid_protobuf_list src n = valid_array (\<lambda>b. is_valid_protobuf (Some b)) src n"

definition is_valid_string :: "cstr \<Rightarrow> bool" where
  "is_valid_string src = (case src of None \<Rightarrow> False | Some s \<Rightarrow> s \<noteq> [])"

definition is_valid_optional_string :: "cstr \<Rightarrow> bool" where
  "is_valid_optional_string src = (case src of None \<Rightarrow> True | Some _ \<Rightarrow> True)"

definition is_invalid_string :: "cstr \<Rightarrow> bool" where
  "is_invalid_string src = (case src of None \<Rightarrow> True | Some s \<Rightarrow> s = [])"

definition is_valid_string_list :: "cstr array \<Rightarrow> nat \<Rightarrow> bool option" where
  "is_valid_string_list src n = all_loop is_valid_string src 0 n"

definition is_valid_address :: "address ptr \<Rightarrow> bool" where
  "is_valid_address src =
     (case src of None \<Rightarrow> False
      | Some a \<Rightarrow> is_valid_string (ad_domain a) \<and>
          (case ad_peer_case a of
             PEER_USER \<Rightarrow> (case ad_user a of None \<Rightarrow> False
               | Some u \<Rightarrow> is_valid_string (pu_user_id u) \<and> is_valid_string (pu_device_id u))
           | PEER_GROUP \<Rightarrow> (case ad_group a of None \<Rightarrow> False | Some g \<Rightarrow> is_valid_string (pg_group_id g))
           | PEER_NOT_SET \<Rightarrow> False))"

definition is_valid_no_device_id_user_address :: "address ptr \<Rightarrow> bool" where
  "is_valid_no_device_id_user_address src =
     (case src of None \<Rightarrow> False
      | Some a \<Rightarrow> is_valid_string (ad_domain a) \<and> ad_peer_case a = PEER_USER \<and>
          (case ad_user a of None \<Rightarrow> False
           | Some u \<Rightarrow> is_valid_string (pu_user_id u) \<and> is_invalid_string (pu_device_id u)))"

definition is_invalid_address :: "address ptr \<Rightarrow> bool" where
  "is_invalid_address src \<longleftrightarrow> src = None"

definition is_valid_address_list :: "address ptr array \<Rightarrow> nat \<Rightarrow> bool option" where
  "is_valid_address_list src n = valid_array is_valid_address src n"

definition is_valid_no_device_id_user_address_list :: "address ptr array \<Rightarrow> nat \<Rightarrow> bool option" where
  "is_valid_no_device_id_user_address_list src n = valid_array is_valid_no_device_id_user_address src n"

definition is_valid_key_pair :: "key_pair ptr \<Rightarrow> bool" where
  "is_valid_key_pair src =
     (case src of None \<Rightarrow> False
      | Some k \<Rightarrow> is_valid_protobuf (Some (kpr_private_key k)) \<and> is_valid_protobuf (Some (kpr_public_key k)))"

definition is_valid_identity_key :: "identity_key ptr \<Rightarrow> bool" where
  "is_valid_identity_key src =
     (case src of None \<Rightarrow> False
      | Some k \<Rightarrow> is_valid_key_pair (ik_asym_key_pair k) \<and> is_valid_key_pair (ik_sign_key_pair k))"

definition is_valid_signed_pre_key :: "signed_pre_key ptr \<Rightarrow> bool" where
  "is_valid_signed_pre_key src =
     (case src of None \<Rightarrow> False
      | Some k \<Rightarrow> is_valid_key_pair (spk_key_pair k) \<and> is_valid_protobuf (Some (spk_signature k)))"

definition is_valid_one_time_pre_key :: "one_time_pre_key ptr \<Rightarrow> bool" where
  "is_valid_one_time_pre_key src =
     (case src of None \<Rightarrow> False | Some k \<Rightarrow> is_valid_key_pair (opk_key_pair k))"

definition is_valid_one_time_pre_key_list :: "one_time_pre_key ptr array \<Rightarrow> nat \<Rightarrow> bool option" where
  "is_valid_one_time_pre_key_list src n = valid_array is_valid_one_time_pre_key src n"

text \<open>\<open>if (!check) return false; rest\<close> for a check that reads an array.\<close>

definition and_then :: "bool option \<Rightarrow> bool option \<Rightarrow> bool option" where
  "and_then check rest = do { b \<leftarrow> check; if b then rest else Some False }"

definition is_valid_unregistered_account :: "prims \<Rightarrow> account ptr \<Rightarrow> bool option" where
  "is_valid_unregistered_account P src =
     do { a \<leftarrow> deref src;
          if acc_version a = None then Some False
          else if \<not> is_valid_e2ees_pack_id P (acc_e2ees_pack_id a) then Some False
          else if \<not> is_valid_identity_key (acc_identity_key a) then Some False
          else if \<not> is_valid_signed_pre_key (acc_signed_pre_key a) then Some False
          else and_then
            (is_valid_one_time_pre_key_list (acc_one_time_pre_key_list a) (acc_n_one_time_pre_key_list a))
            (Some (is_invalid_address (acc_address a) \<and> is_invalid_string (acc_password a) \<and>
                   is_invalid_string (acc_auth a))) }"

definition is_valid_registered_account :: "prims \<Rightarrow> account ptr \<Rightarrow> bool option" where
  "is_valid_registered_account P src =
     (case src of None \<Rightarrow> Some False
      | Some a \<Rightarrow>
          if acc_version a = None then Some False
          else if \<not> is_valid_e2ees_pack_id P (acc_e2ees_pack_id a) then Some False
          else if \<not> is_valid_address (acc_address a) then Some False
          else if \<not> is_valid_identity_key (acc_identity_key a) then Some False
          else if \<not> is_valid_signed_pre_key (acc_signed_pre_key a) then Some False
          else and_then
            (is_valid_one_time_pre_key_list (acc_one_time_pre_key_list a) (acc_n_one_time_pre_key_list a))
            (Some (is_valid_string (acc_password a) \<and> is_valid_string (acc_auth a))))"

subsection \<open>Ratchet state\<close>

definition is_valid_msg_key :: "msg_key ptr \<Rightarrow> bool" where
  "is_valid_msg_key msg_key =
     (case msg_key of None \<Rightarrow> False | Some m \<Rightarrow> is_valid_protobuf (Some (mk_derived_key m)))"

definition is_valid_chain_key :: "chain_key ptr \<Rightarrow> bool" where
  "is_valid_chain_key chain_key =
     (case chain_key of None \<Rightarrow> False | Some c \<Rightarrow> is_valid_protobuf (Some (ck_shared_key c)))"

definition is_valid_sender_chain :: "sender_chain ptr \<Rightarrow> bool" where
  "is_valid_sender_chain sender_chain =
     (case sender_chain of None \<Rightarrow> False
      | Some c \<Rightarrow> is_valid_protobuf (Some (sc_our_ratchet_public_key c)) \<and>
          is_valid_protobuf (Some (sc_their_ratchet_public_key c)) \<and> is_valid_chain_key (sc_chain_key c))"

definition is_valid_receiver_chain :: "receiver_chain ptr \<Rightarrow> bool" where
  "is_valid_receiver_chain receiver_chain =
     (case receiver_chain of None \<Rightarrow> False
      | Some c \<Rightarrow> is_valid_protobuf (Some (rc_our_ratchet_private_key c)) \<and>
          is_valid_protobuf (Some (rc_their_ratchet_public_key c)) \<and> is_valid_chain_key (rc_chain_key c))"

definition is_valid_skipped_msg_key_node :: "skipped_node ptr \<Rightarrow> bool" where
  "is_valid_skipped_msg_key_node node =
     (case node of None \<Rightarrow> False
      | Some n \<Rightarrow> is_valid_protobuf (Some (sk_ratchet_key_public n)) \<and> is_valid_msg_key (sk_msg_key n))"

definition is_valid_skipped_msg_key_list :: "skipped_node ptr array \<Rightarrow> nat \<Rightarrow> bool option" where
  "is_valid_skipped_msg_key_list skipped_msg_key_list n =
     (if n = 0 \<and> skipped_msg_key_list \<noteq> None then Some False
      else if n > 0 \<and> skipped_msg_key_list = None then Some False
      else all_loop is_valid_skipped_msg_key_node skipped_msg_key_list 0 n)"

definition is_valid_ratchet :: "ratchet ptr \<Rightarrow> bool option" where
  "is_valid_ratchet ratchet =
     (case ratchet of None \<Rightarrow> Some False
      | Some r \<Rightarrow>
          if \<not> is_valid_protobuf (Some (rt_root_key r)) then Some False
          else if \<not> is_valid_sender_chain (rt_sender_chain r) then Some False
          else if rt_root_sequence r > 0 \<and> \<not> is_valid_receiver_chain (rt_receiver_chain r) then Some False
          else if \<not> rt_root_sequence r > 0 \<and>
                  (case rt_receiver_chain r of None \<Rightarrow> True
                   | Some c \<Rightarrow> \<not> is_valid_protobuf (Some (rc_our_ratchet_private_key c))) then Some False
          else is_valid_skipped_msg_key_list (rt_skipped_msg_key_list r) (rt_n_skipped_msg_key_list r))"

definition is_valid_one2one_msg_payload :: "one2one_payload ptr \<Rightarrow> bool" where
  "is_valid_one2one_msg_payload payload =
     (case payload of None \<Rightarrow> False
      | Some p \<Rightarrow> is_valid_protobuf (Some (pl_ratchet_key p)) \<and> is_valid_protobuf (Some (pl_ciphertext p)))"

subsection \<open>Sessions\<close>

definition is_valid_uncompleted_session :: "prims \<Rightarrow> session ptr \<Rightarrow> bool option" where
  "is_valid_uncompleted_session P src =
     (case src of None \<Rightarrow> Some False
      | Some s \<Rightarrow>
          if \<not> (is_valid_string (se_version s) \<and> is_valid_e2ees_pack_id P (se_e2ees_pack_id s) \<and>
                 is_valid_string (se_session_id s) \<and> is_valid_address (se_our_address s) \<and>
                 is_valid_address (se_their_address s) \<and>
                 is_valid_protobuf (Some (se_temp_shared_secret s)) \<and>
                 is_valid_protobuf (Some (se_fingerprint s)) \<and>
                 is_valid_key_pair (se_alice_base_key s) \<and> se_n_pre_shared_input_list s \<noteq> 0)
          then Some False
          else and_then (is_valid_protobuf_list (se_pre_shared_input_list s) (se_n_pre_shared_input_list s))
            (Some (case se_ratchet s of None \<Rightarrow> False
               | Some r \<Rightarrow> (case rt_sender_chain r of None \<Rightarrow> False
                   | Some c \<Rightarrow> is_valid_protobuf (Some (sc_their_ratchet_public_key c))))))"

definition is_valid_completed_session :: "prims \<Rightarrow> session ptr \<Rightarrow> bool option" where
  "is_valid_completed_session P src =
     (case src of None \<Rightarrow> Some False
      | Some s \<Rightarrow>
          if \<not> (is_valid_string (se_version s) \<and> is_valid_e2ees_pack_id P (se_e2ees_pack_id s) \<and>
                 is_valid_string (se_session_id s) \<and> is_valid_address (se_our_address s) \<and>
                 is_valid_address (se_their_address s))
          then Some False
          else and_then (is_valid_ratchet (se_ratchet s))
            (Some (is_valid_protobuf (Some (se_associated_data s)) \<and> is_valid_protobuf (Some (se_fingerprint s)))))"

definition is_valid_inbound_session :: "prims \<Rightarrow> session ptr \<Rightarrow> bool option" where
  "is_valid_inbound_session P src =
     (case src of None \<Rightarrow> Some False
      | Some s \<Rightarrow>
          if \<not> (is_valid_string (se_version s) \<and> is_valid_e2ees_pack_id P (se_e2ees_pack_id s) \<and>
                 is_valid_string (se_session_id s) \<and> is_valid_address (se_our_address s) \<and>
                 is_valid_address (se_their_address s))
          then Some False
          else and_then (is_valid_ratchet (se_ratchet s))
            (Some (is_valid_protobuf (Some (se_associated_data s)) \<and> is_valid_protobuf (Some (se_fingerprint s)))))"

subsection \<open>Public keys and bundles\<close>

definition is_valid_identity_key_public :: "identity_key_public ptr \<Rightarrow> bool" where
  "is_valid_identity_key_public src =
     (case src of None \<Rightarrow> False
      | Some k \<Rightarrow> is_valid_protobuf (Some (ikp_asym_public_key k)) \<and> is_valid_protobuf (Some (ikp_sign_public_key k)))"

definition is_valid_signed_pre_key_public :: "signed_pre_key_public ptr \<Rightarrow> bool" where
  "is_valid_signed_pre_key_public src =
     (case src of None \<Rightarrow> False
      | Some k \<Rightarrow> is_valid_protobuf (Some (spkp_public_key k)) \<and> is_valid_protobuf (Some (spkp_signature k)))"

definition is_valid_one_time_pre_key_public :: "one_time_pre_key_public ptr \<Rightarrow> bool" where
  "is_valid_one_time_pre_key_public src =
     (case src of None \<Rightarrow> False | Some k \<Rightarrow> is_valid_protobuf (Some (opkp_public_key k)))"

definition is_valid_one_time_pre_key_public_list :: "one_time_pre_key_public ptr array \<Rightarrow> nat \<Rightarrow> bool option" where
  "is_valid_one_time_pre_key_public_list src n =
     (if n > 0 \<and> src = None then Some False
      else if n = 0 then Some True
      else all_loop (\<lambda>p. p \<noteq> None \<and> is_valid_one_time_pre_key_public p) src 0 n)"

definition is_valid_pre_key_bundle :: "pre_key_bundle ptr \<Rightarrow> bool" where
  "is_valid_pre_key_bundle src =
     (case src of None \<Rightarrow> False
      | Some b \<Rightarrow> is_valid_address (pkb_user_address b) \<and>
          is_valid_identity_key_public (pkb_identity_key_public b) \<and>
          is_valid_signed_pre_key_public (pkb_signed_pre_key_public b))"

definition is_valid_pre_key_bundle_list :: "pre_key_bundle ptr array \<Rightarrow> nat \<Rightarrow> bool option" where
  "is_valid_pre_key_bundle_list src n = valid_array is_valid_pre_key_bundle src n"

subsection \<open>Groups\<close>

definition is_valid_group_member :: "group_member ptr \<Rightarrow> bool" where
  "is_valid_group_member src =
     (case src of None \<Rightarrow> False
      | Some m \<Rightarrow> is_valid_string (gm_user_id m) \<and> is_valid_string (gm_domain m) \<and>
          \<not> (gm_role m \<noteq> GROUP_ROLE_MEMBER \<and> gm_role m \<noteq> GROUP_ROLE_MANAGER \<and>
             gm_role m \<noteq> GROUP_ROLE_PENDING_MEMBER \<and> gm_role m \<noteq> GROUP_ROLE_PENDING_MANAGER))"

definition is_valid_group_member_list :: "group_member ptr array \<Rightarrow> nat \<Rightarrow> bool option" where
  "is_valid_group_member_list src n = valid_array is_valid_group_member src n"

definition is_valid_group_info :: "group_info ptr \<Rightarrow> bool option" where
  "is_valid_group_info src =
     (case src of None \<Rightarrow> Some False
      | Some g \<Rightarrow>
          if \<not> (is_valid_string (gi_group_name g) \<and> is_valid_address (gi_group_address g)) then Some False
          else is_valid_group_member_list (gi_group_member_list g) (gi_n_group_member_list g))"

definition is_valid_group_member_info :: "group_member_info ptr \<Rightarrow> bool" where
  "is_valid_group_member_info src =
     (case src of None \<Rightarrow> False
      | Some m \<Rightarrow> is_valid_address (gmi_member_address m) \<and> is_valid_protobuf (Some (gmi_sign_public_key m)))"

definition is_valid_group_member_info_list :: "group_member_info ptr array \<Rightarrow> nat \<Rightarrow> bool option" where
  "is_valid_group_member_info_list src n = valid_array is_valid_group_member_info src n"

definition is_valid_group_session_by_member_id :: "prims \<Rightarrow> group_session ptr \<Rightarrow> bool option" where
  "is_valid_group_session_by_member_id P src =
     (case src of None \<Rightarrow> Some False
      | Some g \<Rightarrow>
          if \<not> (is_valid_e2ees_pack_id P (gs_e2ees_pack_id g) \<and> is_valid_address (gs_sender g) \<and>
                 is_valid_address (gs_session_owner g)) then Some False
          else and_then (is_valid_group_info (gs_group_info g))
                 (Some (is_valid_protobuf (Some (gs_associated_data g)))))"

definition is_valid_group_session_by_pre_key_bundle :: "prims \<Rightarrow> group_session ptr \<Rightarrow> bool option" where
  "is_valid_group_session_by_pre_key_bundle P src =
     (case src of None \<Rightarrow> Some False
      | Some g \<Rightarrow>
          if \<not> (is_valid_string (gs_version g) \<and> is_valid_e2ees_pack_id P (gs_e2ees_pack_id g) \<and>
                 is_valid_string (gs_session_id g) \<and> is_valid_address (gs_sender g) \<and>
                 is_valid_address (gs_session_owner g)) then Some False
          else and_then (is_valid_group_info (gs_group_info g))
                 (Some (is_valid_protobuf (Some (gs_group_seed g)))))"

definition is_valid_group_session :: "prims \<Rightarrow> group_session ptr \<Rightarrow> bool option" where
  "is_valid_group_session P src =
     (case src of None \<Rightarrow> Some False
      | Some g \<Rightarrow>
          if \<not> (is_valid_string (gs_version g) \<and> is_valid_e2ees_pack_id P (gs_e2ees_pack_id g) \<and>
                 is_valid_string (gs_session_id g) \<and> is_valid_address (gs_sender g) \<and>
                 is_valid_address (gs_session_owner g)) then Some False
          else and_then (is_valid_group_info (gs_group_info g))
                 (Some (is_valid_protobuf (Some (gs_chain_key g)) \<and> is_valid_protobuf (Some (gs_associated_data g)))))"

definition is_valid_group_session_no_chain_key :: "prims \<Rightarrow> group_session ptr \<Rightarrow> bool option" where
  "is_valid_group_session_no_chain_key P src =
     (case src of None \<Rightarrow> Some False
      | Some g \<Rightarrow>
          if \<not> (is_valid_string (gs_version g) \<and> is_valid_e2ees_pack_id P (gs_e2ees_pack_id g) \<and>
                 is_valid_string (gs_session_id g) \<and> is_valid_address (gs_sender g) \<and>
                 is_valid_address (gs_session_owner g)) then Some False
          else and_then (is_valid_group_info (gs_group_info g))
                 (Some (is_valid_protobuf (Some (gs_associated_data g)))))"

subsection \<open>Lemmas\<close>

lemma is_valid_protobuf_buf [simp]: "is_valid_protobuf (Some (buf bs)) \<longleftrightarrow> bs \<noteq> []"
  by (simp add: is_valid_protobuf_def)

lemma is_valid_protobuf_None [simp]: "\<not> is_valid_protobuf None"
  by (simp add: is_valid_protobuf_def)

lemma is_valid_protobuf_empty [simp]: "\<not> is_valid_protobuf (Some empty_bdata)"
  by (simp add: is_valid_protobuf_def)

lemma valid_wf_bdata: "wf_bdata b \<Longrightarrow> is_valid_protobuf (Some b) \<longleftrightarrow> (\<exists>bs. b = buf bs \<and> bs \<noteq> [])"
  by (erule wf_bdata_cases) (auto simp: is_valid_protobuf_def buf_def empty_bdata_def)

lemma is_valid_string_Some [simp]: "is_valid_string (Some s) \<longleftrightarrow> s \<noteq> []" "\<not> is_valid_string None"
  by (simp_all add: is_valid_string_def)

lemma valid_address_wf_peer: "is_valid_address (Some a) \<Longrightarrow> wf_peer a"
  by (auto simp: is_valid_address_def wf_peer_def split: peer_case.splits option.splits)

lemma valid_array_eq:
  assumes "n \<le> length xs"
  shows "valid_array valid (Some xs) n = Some (n > 0 \<and> list_all valid (take n xs))"
  using assms by (auto simp: valid_array_def all_loop_take)

lemma valid_array_NULL: "valid_array valid None n = Some (n = 0)"
  by (simp add: valid_array_def)

text \<open>A list check that accepts has read every slot: the array holds what the counter promises.\<close>

lemma valid_array_TrueE:
  assumes "valid_array valid src n = Some True"
  obtains "n = 0" "src = None" | xs where "src = Some xs" "0 < n" "n \<le> length xs" "list_all valid (take n xs)"
proof (cases "n = 0")
  case True
  with assms have "src = None" by (simp add: valid_array_def split: if_splits)
  with True show ?thesis by (rule that(1))
next
  case False
  with assms have loop: "all_loop valid src 0 n = Some True" and "src \<noteq> None"
    by (auto simp: valid_array_def split: if_splits)
  with False obtain xs where xs: "src = Some xs" "n \<le> length xs"
    using all_loop_True_bound by fastforce
  with loop have "list_all valid (take n xs)" by (simp add: all_loop_take)
  with xs False show ?thesis by (intro that(2)) auto
qed

lemma skipped_list_valid_array: "is_valid_skipped_msg_key_list a n = valid_array is_valid_skipped_msg_key_node a n"
  by (simp add: is_valid_skipped_msg_key_list_def valid_array_def)

lemma and_then_True [simp]: "and_then a b = Some True \<longleftrightarrow> a = Some True \<and> b = Some True"
  by (auto simp: and_then_def bind_eq_Some_conv split: if_splits)

end
