(* ===== verification/Suite_Laws.thy ===== *)
theory Suite_Laws
  imports Validation
begin

section \<open>What the ratchet relies on\<close>

text \<open>
  The documented behaviour of the third-party primitives (\<open>prims_ok\<close>), the interface the
  ratchet uses a cipher suite through (the locale \<open>e2ee_suite\<close>), and the proof that every
  suite that passes \<open>is_valid_cipher_suite\<close> provides it.  Key derivation, encapsulation and
  authenticated encryption are named functions in the interface, so that what the ratchet
  computes can be stated without the calling convention of the suites.
\<close>

subsection \<open>Documented behaviour of the primitives\<close>

text \<open>
  PQClean: sizes are positive, key generation, encapsulation and decapsulation return 0 and
  fill buffers of the announced sizes, and decapsulation under a generated secret key recovers
  what was encapsulated under its public key.
\<close>

definition kem_documented :: "prims \<Rightarrow> kem_alg \<Rightarrow> bool" where
  "kem_documented P a \<longleftrightarrow>
     0 < pr_kem_pk_bytes P a \<and> 0 < pr_kem_sk_bytes P a \<and> 0 < pr_kem_ss_bytes P a \<and>
     0 < pr_kem_ct_bytes P a \<and> pr_kem_ct_bytes P a < 2 ^ 32 \<and>
     (\<forall>s. case pr_kem_keypair P a s of (ret, pk, sk, s') \<Rightarrow>
        ret = 0 \<and> length pk = pr_kem_pk_bytes P a \<and> length sk = pr_kem_sk_bytes P a) \<and>
     (\<forall>s pk. length pk = pr_kem_pk_bytes P a \<longrightarrow>
        (case pr_kem_enc P a s (Some pk) of (ret, ct, ss, s') \<Rightarrow>
           ret = 0 \<and> length ct = pr_kem_ct_bytes P a \<and> length ss = pr_kem_ss_bytes P a)) \<and>
     (\<forall>sk ct. length sk = pr_kem_sk_bytes P a \<longrightarrow> length ct = pr_kem_ct_bytes P a \<longrightarrow>
        (case pr_kem_dec P a (Some ct) (Some sk) of (ret, ss) \<Rightarrow> length ss = pr_kem_ss_bytes P a)) \<and>
     (\<forall>s t. case pr_kem_keypair P a s of (_, pk, sk, _) \<Rightarrow>
        (case pr_kem_enc P a t (Some pk) of (_, ct, ss, _) \<Rightarrow>
           snd (pr_kem_dec P a (Some ct) (Some sk)) = ss))"

text \<open>
  mbedtls AES-GCM with a 32-byte key, a 16-byte nonce and at most \<open>2 ^ 36 - 32\<close> bytes of data:
  both directions return 0 and produce as many bytes as they read and a 16-byte tag, and
  decryption inverts encryption with the same tag.
\<close>

abbreviation (input) GCM_LIMIT :: nat where "GCM_LIMIT \<equiv> 2 ^ 36 - 32"

definition gcm_documented :: "prims \<Rightarrow> bool" where
  "gcm_documented P \<longleftrightarrow>
     (\<forall>k. length k = AES256_KEY_LENGTH \<longrightarrow> pr_gcm_setkey P k = 0) \<and>
     (\<forall>k iv ad xs e. length k = AES256_KEY_LENGTH \<longrightarrow> length iv = AES256_IV_LENGTH \<longrightarrow>
        length xs \<le> GCM_LIMIT \<longrightarrow>
        (case pr_gcm_crypt_and_tag P e k iv ad xs of (ret, ys, tag) \<Rightarrow>
           ret = 0 \<and> length ys = length xs \<and> length tag = AES256_GCM_TAG_LENGTH)) \<and>
     (\<forall>k iv ad xs. length k = AES256_KEY_LENGTH \<longrightarrow> length iv = AES256_IV_LENGTH \<longrightarrow>
        length xs \<le> GCM_LIMIT \<longrightarrow>
        (case pr_gcm_crypt_and_tag P True k iv ad xs of (_, ys, tag) \<Rightarrow>
           pr_gcm_crypt_and_tag P False k iv ad ys = (0, xs, tag)))"

text \<open>HKDF returns 0 and the bytes asked for, up to 255 hash blocks; HMAC one block.\<close>

definition hf_documented :: "prims \<Rightarrow> bool" where
  "hf_documented P \<longleftrightarrow>
     (\<forall>salt ikm info n. n \<le> 255 * SHA256_OUTPUT_LENGTH \<longrightarrow>
        (case pr_hkdf P salt ikm info n of (ret, out) \<Rightarrow> ret = 0 \<and> length out = n)) \<and>
     (\<forall>k m. case pr_hmac P k m of (ret, out) \<Rightarrow> ret = 0 \<and> length out = SHA256_OUTPUT_LENGTH)"

definition prims_ok :: "prims \<Rightarrow> bool" where
  "prims_ok P \<longleftrightarrow>
     (\<forall>a. a \<noteq> KEM_CURVE25519_ECDH \<longrightarrow> kem_documented P a) \<and> gcm_documented P \<and> hf_documented P"

subsection \<open>The interface\<close>

text \<open>What the caller of a decryption finds in its out arguments for a plaintext.\<close>

definition plain_out :: "bytes \<Rightarrow> bdata" where
  "plain_out pt = (if pt = [] then empty_bdata else buf pt)"

definition open_result :: "bytes option \<Rightarrow> int \<times> bdata" where
  "open_result x = (case x of None \<Rightarrow> (E2EES_RESULT_FAIL, empty_bdata) | Some pt \<Rightarrow> (E2EES_RESULT_SUCC, plain_out pt))"

locale e2ee_suite =
  fixes cs :: cipher_suite
    and hf_len mk_len rk_len ss_len pk_len sk_len tag_len :: nat
    and mac :: "bytes \<Rightarrow> bytes \<Rightarrow> bytes"
    and kdf :: "bytes \<Rightarrow> bytes \<Rightarrow> bytes \<Rightarrow> nat \<Rightarrow> bytes"
    and aead_seal :: "bytes \<Rightarrow> bytes \<Rightarrow> bytes \<Rightarrow> bytes"
    and aead_open :: "bytes \<Rightarrow> bytes \<Rightarrow> bytes \<Rightarrow> bytes option"
    and enc :: "seed \<Rightarrow> bytes \<Rightarrow> bytes \<times> bytes \<times> seed"
    and dec :: "bytes \<Rightarrow> bytes \<Rightarrow> bytes"
    and pair :: "bytes \<Rightarrow> bytes \<Rightarrow> bool"
  assumes suite_valid [simp]: "is_valid_cipher_suite (Some cs)"
    and hf_param [simp]: "hf_param cs = Some \<lparr>hfp_hf_len = hf_len\<rparr>"
    and se_param: "map_option (\<lambda>p. sep_aead_key_len p + sep_aead_iv_len p) (se_param cs) = Some mk_len"
    and kem_param [simp]: "kem_param cs = Some \<lparr>kp_pqc_param = True, kp_asym_pub_key_len = pk_len,
          kp_asym_priv_key_len = sk_len, kp_kem_ciphertext_len = rk_len, kp_shared_secret_len = ss_len\<rparr>"
    and sizes [simp]: "0 < hf_len" "0 < mk_len" "0 < rk_len" "rk_len < 2 ^ 32" "0 < tag_len" "0 < pk_len" "0 < sk_len"
    and mac_call: "call_hmac cs k m = Some (E2EES_RESULT_SUCC, mac k m)"
    and mac_length [simp]: "length (mac k m) = hf_len"
    and kdf_call: "n = 2 * hf_len \<or> n = mk_len \<Longrightarrow> call_hkdf cs ikm salt info n = Some (E2EES_RESULT_SUCC, kdf ikm salt info n)"
    and kdf_length: "n = 2 * hf_len \<or> n = mk_len \<Longrightarrow> length (kdf ikm salt info n) = n"
    and seal_call: "length k = mk_len \<Longrightarrow> length pt \<le> GCM_LIMIT \<Longrightarrow>
          call_encrypt cs (buf ad) (Some k) pt = Some (E2EES_RESULT_SUCC, buf (aead_seal k ad pt))"
    and seal_length: "length k = mk_len \<Longrightarrow> length pt \<le> GCM_LIMIT \<Longrightarrow>
          length (aead_seal k ad pt) = length pt + tag_len"
    and open_call: "length k = mk_len \<Longrightarrow> tag_len \<le> length ct \<Longrightarrow> length ct \<le> GCM_LIMIT + tag_len \<Longrightarrow>
          call_decrypt cs (buf ad) (Some k) ct = Some (open_result (aead_open k ad ct))"
    and open_seal: "length k = mk_len \<Longrightarrow> length pt \<le> GCM_LIMIT \<Longrightarrow>
          aead_open k ad (aead_seal k ad pt) = Some pt"
    and enc_call: "length pk = pk_len \<Longrightarrow> enc s pk = (ss, ct, s') \<Longrightarrow>
          call_encaps cs s (buf pk) = Some (E2EES_RESULT_SUCC, ss, buf ct, s') \<and>
          length ss = ss_len \<and> length ct = rk_len"
    and dec_call: "length sk = sk_len \<Longrightarrow> length ct = rk_len \<Longrightarrow>
          (\<exists>ret. call_decaps cs (buf sk) (buf ct) = Some (ret, dec sk ct)) \<and> length (dec sk ct) = ss_len"
    and dec_enc: "pair sk pk \<Longrightarrow> enc s pk = (ss, ct, s') \<Longrightarrow> dec sk ct = ss"
    and pair_length: "pair sk pk \<Longrightarrow> length sk = sk_len \<and> length pk = pk_len"

subsection \<open>The suites of the library provide it\<close>

definition pack_ds :: "u32 \<Rightarrow> ds_alg option" where
  "pack_ds raw = map_of ds_table (ucast (pid_ds (raw_to_e2ees_pack_id raw)))"

definition pack_kem :: "u32 \<Rightarrow> kem_alg option" where
  "pack_kem raw = map_of kem_table (ucast (pid_kem (raw_to_e2ees_pack_id raw)))"

definition std_mac :: "prims \<Rightarrow> bytes \<Rightarrow> bytes \<Rightarrow> bytes" where
  "std_mac P k m = snd (pr_hmac P k m)"

definition std_kdf :: "prims \<Rightarrow> bytes \<Rightarrow> bytes \<Rightarrow> bytes \<Rightarrow> nat \<Rightarrow> bytes" where
  "std_kdf P ikm salt info n = snd (pr_hkdf P salt ikm info n)"

definition std_seal :: "prims \<Rightarrow> bytes \<Rightarrow> bytes \<Rightarrow> bytes \<Rightarrow> bytes" where
  "std_seal P k ad pt =
     (case pr_gcm_crypt_and_tag P True (take AES256_KEY_LENGTH k) (drop AES256_KEY_LENGTH k) ad pt of
        (_, ct, tag) \<Rightarrow> ct @ tag)"

definition std_open :: "prims \<Rightarrow> bytes \<Rightarrow> bytes \<Rightarrow> bytes \<Rightarrow> bytes option" where
  "std_open P k ad ct =
     (let n = length ct - AES256_GCM_TAG_LENGTH in
      case pr_gcm_crypt_and_tag P False (take AES256_KEY_LENGTH k) (drop AES256_KEY_LENGTH k) ad (take n ct) of
        (_, pt, tag) \<Rightarrow> if drop n ct = tag then Some pt else None)"

definition std_enc :: "prims \<Rightarrow> kem_alg \<Rightarrow> seed \<Rightarrow> bytes \<Rightarrow> bytes \<times> bytes \<times> seed" where
  "std_enc P a s pk = (case pr_kem_enc P a s (Some pk) of (_, ct, ss, s') \<Rightarrow> (ss, ct, s'))"

definition std_dec :: "prims \<Rightarrow> kem_alg \<Rightarrow> bytes \<Rightarrow> bytes \<Rightarrow> bytes" where
  "std_dec P a sk ct = snd (pr_kem_dec P a (Some ct) (Some sk))"

definition std_pair :: "prims \<Rightarrow> kem_alg \<Rightarrow> bytes \<Rightarrow> bytes \<Rightarrow> bool" where
  "std_pair P a sk pk \<longleftrightarrow> (\<exists>s ret s'. pr_kem_keypair P a s = (ret, pk, sk, s'))"

text \<open>Which pack ids the library accepts: known algorithms, and a KEM other than ECDH.\<close>

lemma valid_pack_iff:
  "is_valid_e2ees_pack_id P raw \<longleftrightarrow>
     pack_ds raw \<noteq> None \<and> (\<exists>a. pack_kem raw = Some a \<and> a \<noteq> KEM_CURVE25519_ECDH) \<and>
     pid_se (raw_to_e2ees_pack_id raw) = 0 \<and> pid_hash (raw_to_e2ees_pack_id raw) = 1"
proof -
  have inj: "(ucast x = (ucast y :: u32)) \<longleftrightarrow> x = y" for x y :: "4 word"
    by transfer (simp add: take_bit_take_bit)
  have se: "(ucast x = (0 :: u32)) \<longleftrightarrow> x = 0" for x :: "4 word" using inj [of x 0] by simp
  have hf: "(ucast x = (1 :: u32)) \<longleftrightarrow> x = 1" for x :: "4 word" using inj [of x 1] by simp
  show ?thesis
    by (auto simp: is_valid_e2ees_pack_id_def is_valid_cipher_suite_def get_e2ees_pack_def Let_def
        get_cipher_suite_def get_ds_suite_def get_kem_suite_def get_se_suite_def get_hf_suite_def se hf
        pack_ds_def pack_kem_def ds_suite_object_def kem_suite_object_def E2EES_DS_CURVE25519_def
        E2EES_DS_PQC_def E2EES_KEM_CURVE25519_ECDH_def E2EES_KEM_PQC_def E2EES_SE_AES256_SHA256_def
        E2EES_HF_SHA256_def split: option.splits if_splits)
qed


lemma suite_of_valid:
  assumes "is_valid_e2ees_pack_id P raw"
  obtains d a where "pack_kem raw = Some a" "a \<noteq> KEM_CURVE25519_ECDH"
    "suite_of P raw = \<lparr>cs_ds_suite = Some (ds_suite_object P d), cs_kem_suite = Some (E2EES_KEM_PQC P a),
       cs_se_suite = Some (E2EES_SE_AES256_SHA256 P), cs_hf_suite = Some (E2EES_HF_SHA256 P)\<rparr>"
  using assms unfolding valid_pack_iff
  by (auto simp: pack_ds_def pack_kem_def get_e2ees_pack_def Let_def get_cipher_suite_def get_ds_suite_def
      get_kem_suite_def get_se_suite_def get_hf_suite_def kem_suite_object_def)

lemma gcm_documentedD:
  assumes "gcm_documented P" and "length k = 32"
  shows "pr_gcm_setkey P k = 0"
    and "length iv = 16 \<Longrightarrow> length xs \<le> GCM_LIMIT \<Longrightarrow>
      case pr_gcm_crypt_and_tag P e k iv ad xs of (ret, ys, tag) \<Rightarrow>
        ret = 0 \<and> length ys = length xs \<and> length tag = 16"
    and "length iv = 16 \<Longrightarrow> length xs \<le> GCM_LIMIT \<Longrightarrow>
      case pr_gcm_crypt_and_tag P True k iv ad xs of (_, ys, tag) \<Rightarrow>
        pr_gcm_crypt_and_tag P False k iv ad ys = (0, xs, tag)"
  using assms by (simp_all add: gcm_documented_def)

lemma gcm_both:
  assumes P: "gcm_documented P" and k: "length k = 48" and xs: "length xs \<le> GCM_LIMIT"
  obtains ys tag where "pr_gcm_crypt_and_tag P e (take 32 k) (drop 32 k) ad xs = (0, ys, tag)"
    "length ys = length xs" "length tag = 16" "pr_gcm_setkey P (take 32 k) = 0"
proof -
  have k': "length (take 32 k) = 32" "length (drop 32 k) = 16" using k by simp_all
  obtain ret ys tag where r: "pr_gcm_crypt_and_tag P e (take 32 k) (drop 32 k) ad xs = (ret, ys, tag)"
    by (metis prod_cases3)
  have "case pr_gcm_crypt_and_tag P e (take 32 k) (drop 32 k) ad xs of (ret, ys, tag) \<Rightarrow>
      ret = 0 \<and> length ys = length xs \<and> length tag = 16"
    using xs by (rule gcm_documentedD(2) [OF P k'])
  moreover have "pr_gcm_setkey P (take 32 k) = 0" by (rule gcm_documentedD(1) [OF P k'(1)])
  ultimately show ?thesis using r that by simp
qed

lemma gcm_inverse:
  assumes P: "gcm_documented P" and k: "length k = 48" and xs: "length xs \<le> GCM_LIMIT"
    and e: "pr_gcm_crypt_and_tag P True (take 32 k) (drop 32 k) ad xs = (ret, ys, tag)"
  shows "pr_gcm_crypt_and_tag P False (take 32 k) (drop 32 k) ad ys = (0, xs, tag)"
proof -
  have k': "length (take 32 k) = 32" "length (drop 32 k) = 16" using k by simp_all
  have "case pr_gcm_crypt_and_tag P True (take 32 k) (drop 32 k) ad xs of (_, ys, tag) \<Rightarrow>
      pr_gcm_crypt_and_tag P False (take 32 k) (drop 32 k) ad ys = (0, xs, tag)"
    using xs by (rule gcm_documentedD(3) [OF P k'])
  with e show ?thesis by simp
qed

lemma seal_call_std:
  assumes P: "gcm_documented P" and k: "length k = 48" and pt: "length pt \<le> GCM_LIMIT"
  shows "crypto_se_encrypt_aes256_gcm P (buf ad) (Some k) pt = Some (0, buf (std_seal P k ad pt))"
    and "length (std_seal P k ad pt) = length pt + 16"
proof -
  obtain ct tag where e: "pr_gcm_crypt_and_tag P True (take 32 k) (drop 32 k) ad pt = (0, ct, tag)"
      "length ct = length pt" "length tag = 16" "pr_gcm_setkey P (take 32 k) = 0"
    using gcm_both [OF P k pt] by blast
  then show "length (std_seal P k ad pt) = length pt + 16" by (simp add: std_seal_def)
  show "crypto_se_encrypt_aes256_gcm P (buf ad) (Some k) pt = Some (0, buf (std_seal P k ad pt))"
    using e k by (simp add: crypto_se_encrypt_aes256_gcm_def read_bytes_take crypto_aes_encrypt_gcm_def
        crypto_aes256_gcm_ciphertext_data_len_def std_seal_def buf_def)
qed

lemma open_call_std:
  assumes P: "gcm_documented P" and k: "length k = 48" and ct: "16 \<le> length ct" "length ct \<le> GCM_LIMIT + 16"
  shows "crypto_se_decrypt_aes256_gcm P (buf ad) (Some k) ct = Some (open_result (std_open P k ad ct))"
proof -
  define n where "n = length ct - 16"
  have n: "crypto_aes256_gcm_plaintext_data_len (length ct) = n"
    using ct by (simp add: plaintext_len_ok n_def)
  have "length (take n ct) \<le> GCM_LIMIT" using ct by (simp add: n_def)
  from gcm_both [OF P k this] obtain pt tag where
    d: "pr_gcm_crypt_and_tag P False (take 32 k) (drop 32 k) ad (take n ct) = (0, pt, tag)"
      "length pt = n" "length tag = 16" "pr_gcm_setkey P (take 32 k) = 0"
    using n_def by (metis length_take min.absorb2 diff_le_self)
  have "length (drop n ct) = length tag" using ct d(3) by (simp add: n_def)
  then have "tag_diff (drop n ct) tag 0 = 0 \<longleftrightarrow> drop n ct = tag" by (simp add: tag_diff_eq_0)
  then show ?thesis using d k ct n
    by (auto simp: crypto_se_decrypt_aes256_gcm_def read_bytes_take crypto_aes_decrypt_gcm_def std_open_def
        n_def [symmetric] open_result_def plain_out_def buf_def empty_bdata_def)
qed

lemma open_seal_std:
  assumes P: "gcm_documented P" and k: "length k = 48" and pt: "length pt \<le> GCM_LIMIT"
  shows "std_open P k ad (std_seal P k ad pt) = Some pt"
proof -
  obtain ct tag where e: "pr_gcm_crypt_and_tag P True (take 32 k) (drop 32 k) ad pt = (0, ct, tag)"
      "length ct = length pt" "length tag = 16"
    using gcm_both [OF P k pt] by blast
  with gcm_inverse [OF P k pt e(1)] show ?thesis by (simp add: std_seal_def std_open_def)
qed

lemma enc_call_std:
  assumes P: "kem_documented P a" and pk: "length pk = pr_kem_pk_bytes P a"
    and e: "std_enc P a s pk = (ss, ct, s')"
  shows "crypto_kem_encaps_pqc P a s (buf pk) = Some (0, ss, buf ct, s') \<and>
         length ss = pr_kem_ss_bytes P a \<and> length ct = pr_kem_ct_bytes P a"
proof -
  have "case pr_kem_enc P a s (Some pk) of (ret, ct, ss, s') \<Rightarrow>
           ret = 0 \<and> length ct = pr_kem_ct_bytes P a \<and> length ss = pr_kem_ss_bytes P a"
    using P pk by (simp add: kem_documented_def)
  then show ?thesis using e by (auto simp: std_enc_def crypto_kem_encaps_pqc_def split: prod.splits)
qed

lemma dec_call_std:
  assumes P: "kem_documented P a" and "length sk = pr_kem_sk_bytes P a" "length ct = pr_kem_ct_bytes P a"
  shows "(\<exists>ret. crypto_kem_decaps_pqc P a (buf sk) (buf ct) = Some (ret, std_dec P a sk ct)) \<and>
         length (std_dec P a sk ct) = pr_kem_ss_bytes P a"
proof -
  have "case pr_kem_dec P a (Some ct) (Some sk) of (ret, ss) \<Rightarrow> length ss = pr_kem_ss_bytes P a"
    using assms by (simp add: kem_documented_def)
  then show ?thesis
    by (cases "pr_kem_dec P a (Some ct) (Some sk)") (simp add: crypto_kem_decaps_pqc_def std_dec_def)
qed

lemma dec_enc_std:
  assumes P: "kem_documented P a" and k: "std_pair P a sk pk" and e: "std_enc P a s pk = (ss, ct, s')"
  shows "std_dec P a sk ct = ss"
proof -
  from k obtain t r t' where kp: "pr_kem_keypair P a t = (r, pk, sk, t')" by (auto simp: std_pair_def)
  have "case pr_kem_keypair P a t of (_, pk, sk, _) \<Rightarrow>
        (case pr_kem_enc P a s (Some pk) of (_, ct, ss, _) \<Rightarrow> snd (pr_kem_dec P a (Some ct) (Some sk)) = ss)"
    using P by (simp add: kem_documented_def)
  then show ?thesis using kp e by (auto simp: std_enc_def std_dec_def split: prod.splits)
qed

lemma pair_length_std:
  assumes P: "kem_documented P a" and k: "std_pair P a sk pk"
  shows "length sk = pr_kem_sk_bytes P a \<and> length pk = pr_kem_pk_bytes P a"
proof -
  from k obtain t r t' where kp: "pr_kem_keypair P a t = (r, pk, sk, t')" by (auto simp: std_pair_def)
  have "case pr_kem_keypair P a t of (ret, pk, sk, s') \<Rightarrow>
        ret = 0 \<and> length pk = pr_kem_pk_bytes P a \<and> length sk = pr_kem_sk_bytes P a"
    using P by (simp add: kem_documented_def)
  then show ?thesis using kp by simp
qed

lemma hf_calls_std:
  assumes P: "hf_documented P"
  shows "crypto_hf_hmac_sha256 P k m = Some (0, std_mac P k m)" "length (std_mac P k m) = 32"
    and "n \<le> 8160 \<Longrightarrow> crypto_hf_hkdf_sha256 P ikm salt info n = Some (0, std_kdf P ikm salt info n)"
    and "n \<le> 8160 \<Longrightarrow> length (std_kdf P ikm salt info n) = n"
proof -
  have "case pr_hmac P k m of (ret, out) \<Rightarrow> ret = 0 \<and> length out = 32"
    using P by (simp add: hf_documented_def)
  then show "crypto_hf_hmac_sha256 P k m = Some (0, std_mac P k m)" "length (std_mac P k m) = 32"
    by (auto simp: crypto_hf_hmac_sha256_def std_mac_def split: prod.splits)
  assume "n \<le> 8160"
  then have "case pr_hkdf P salt ikm info n of (ret, out) \<Rightarrow> ret = 0 \<and> length out = n"
    using P unfolding hf_documented_def by auto
  then show "crypto_hf_hkdf_sha256 P ikm salt info n = Some (0, std_kdf P ikm salt info n)"
    "length (std_kdf P ikm salt info n) = n"
    by (auto simp: crypto_hf_hkdf_sha256_def std_kdf_def split: prod.splits)
qed

text \<open>Every accepted pack id names a suite with the interface's laws.\<close>

lemma suite_of_laws:
  assumes P: "prims_ok P" and raw: "is_valid_e2ees_pack_id P raw" and a: "pack_kem raw = Some a"
  shows "e2ee_suite (suite_of P raw) 32 48 (pr_kem_ct_bytes P a) (pr_kem_ss_bytes P a) (pr_kem_pk_bytes P a)
    (pr_kem_sk_bytes P a) 16 (std_mac P) (std_kdf P) (std_seal P) (std_open P) (std_enc P a) (std_dec P a)
    (std_pair P a)"
proof -
  from suite_of_valid [OF raw] a obtain d where a': "a \<noteq> KEM_CURVE25519_ECDH"
    and cs: "suite_of P raw = \<lparr>cs_ds_suite = Some (ds_suite_object P d), cs_kem_suite = Some (E2EES_KEM_PQC P a),
       cs_se_suite = Some (E2EES_SE_AES256_SHA256 P), cs_hf_suite = Some (E2EES_HF_SHA256 P)\<rparr>"
    by auto
  have k: "kem_documented P a" and g: "gcm_documented P" and h: "hf_documented P"
    using P a' by (simp_all add: prims_ok_def)
  note suite_defs = cs call_defs E2EES_KEM_PQC_def E2EES_SE_AES256_SHA256_def E2EES_HF_SHA256_def
  have "\<And>sk pk s ss ct s'. std_pair P a sk pk \<Longrightarrow> std_enc P a s pk = (ss, ct, s') \<Longrightarrow> std_dec P a sk ct = ss"
    by (rule dec_enc_std [OF k])
  moreover have "is_valid_cipher_suite (Some (suite_of P raw))"
    using raw by (simp add: is_valid_e2ees_pack_id_def)
  moreover have "0 < pr_kem_ct_bytes P a" "pr_kem_ct_bytes P a < 2 ^ 32" "0 < pr_kem_pk_bytes P a"
    "0 < pr_kem_sk_bytes P a"
    using k by (simp_all add: kem_documented_def)
  ultimately show ?thesis
    by unfold_locales
      (auto simp: suite_defs crypto_kem_params_pqc_def hf_calls_std [OF h] seal_call_std [OF g]
        open_call_std [OF g] open_seal_std [OF g] dest: enc_call_std [OF k] dec_call_std [OF k]
        pair_length_std [OF k])
qed

text \<open>
  The same as a locale, for a fixed choice of primitives and pack id: under the documented
  behaviour of the primitives the suite of an accepted pack id is an instance of the interface.
\<close>

locale library_suite =
  fixes P :: prims and raw :: u32 and a :: kem_alg
  assumes prims: "prims_ok P" and accepted: "is_valid_e2ees_pack_id P raw" and kem: "pack_kem raw = Some a"

sublocale library_suite \<subseteq> std: e2ee_suite "suite_of P raw" 32 48 "pr_kem_ct_bytes P a" "pr_kem_ss_bytes P a"
    "pr_kem_pk_bytes P a" "pr_kem_sk_bytes P a" 16 "std_mac P" "std_kdf P" "std_seal P" "std_open P"
    "std_enc P a" "std_dec P a" "std_pair P a"
  by (rule suite_of_laws [OF prims accepted kem])

subsection \<open>A set of primitives with the documented behaviour\<close>

text \<open>
  Primitives small enough to compute with: they satisfy every documented law and none of the
  security goals.  The hypothesis \<open>prims_ok\<close> is satisfiable by them.
\<close>

definition sum_bytes :: "bytes \<Rightarrow> byte" where
  "sum_bytes bs = foldr (+) bs 0"

lemma sum_bytes_simps [simp]:
  "sum_bytes [] = 0" "sum_bytes (x # xs) = x + sum_bytes xs" "sum_bytes (replicate n x) = of_nat n * x"
proof -
  show "sum_bytes (replicate n x) = of_nat n * x"
    by (induction n) (simp_all add: sum_bytes_def algebra_simps)
qed (simp_all add: sum_bytes_def)

definition demo_prims :: prims where
  "demo_prims =
     \<lparr>pr_gen_rand = (\<lambda>s n. (replicate n (of_nat s), s + 1)),
      pr_kem_pk_bytes = (\<lambda>_. 1), pr_kem_sk_bytes = (\<lambda>_. 1), pr_kem_ct_bytes = (\<lambda>_. 1), pr_kem_ss_bytes = (\<lambda>_. 1),
      pr_kem_keypair = (\<lambda>_ s. (0, [of_nat s], [of_nat s], s + 1)),
      pr_kem_enc = (\<lambda>_ s pk. case pk of Some (x # _) \<Rightarrow> (0, [of_nat s + x], [of_nat s], s + 1)
                              | _ \<Rightarrow> (- 1, [0], [0], s)),
      pr_kem_dec = (\<lambda>_ ct sk. case (ct, sk) of (Some (c # _), Some (x # _)) \<Rightarrow> (0, [c - x]) | _ \<Rightarrow> (- 1, [0])),
      pr_sign_pk_bytes = (\<lambda>_. 1), pr_sign_sk_bytes = (\<lambda>_. 1), pr_sign_bytes = (\<lambda>_. 1),
      pr_sign_keypair = (\<lambda>_ s. (0, [of_nat s], [of_nat s], s + 1)),
      pr_sign_signature = (\<lambda>_ s m sk. (0, [sum_bytes m + sum_bytes (case sk of None \<Rightarrow> [] | Some k \<Rightarrow> k)], s)),
      pr_sign_verify = (\<lambda>_ sig m pk.
         if sig = [sum_bytes m + sum_bytes (case pk of None \<Rightarrow> [] | Some k \<Rightarrow> k)] then 0 else - 1),
      pr_curve25519_donna = (\<lambda>_ _. (0, replicate 32 1)),
      pr_curve25519_sign = (\<lambda>_ _ _. (0, replicate 64 1)),
      pr_curve25519_verify = (\<lambda>_ _ _. 0),
      pr_gcm_setkey = (\<lambda>_. 0),
      pr_gcm_crypt_and_tag = (\<lambda>_ k iv ad xs. (0, xs, replicate 16 (sum_bytes k + sum_bytes ad + sum_bytes xs))),
      pr_hkdf = (\<lambda>salt ikm info n. (0, replicate n (sum_bytes ikm + sum_bytes salt + sum_bytes info))),
      pr_hmac = (\<lambda>k m. (0, replicate 32 (sum_bytes k + sum_bytes m))),
      pr_sha256 = (\<lambda>m. (0, replicate 32 (sum_bytes m)))\<rparr>"

lemma demo_prims_ok: "prims_ok demo_prims"
  by (auto simp: prims_ok_def kem_documented_def gcm_documented_def hf_documented_def demo_prims_def
      length_Suc_conv)

lemma demo_pack: "is_valid_e2ees_pack_id P E2EES_PACK_ID_DEFAULT" "pack_kem E2EES_PACK_ID_DEFAULT = Some KEM_MLKEM1024"
  by (simp_all add: valid_pack_iff pack_ds_def pack_kem_def raw_to_e2ees_pack_id_def ds_table_def kem_table_def)

interpretation demo: library_suite demo_prims E2EES_PACK_ID_DEFAULT KEM_MLKEM1024
  by unfold_locales (simp_all add: demo_prims_ok demo_pack)

end
