(* ===== verification/Base_Props.thy ===== *)
theory Base_Props
  imports Suite_Laws
begin

section \<open>Properties of packs, ciphers and structs\<close>

text \<open>
  The pack ids, the authenticated encryption behind a cipher suite, the comparison and the edits of
  member lists and the copies of structs.
\<close>

subsection \<open>Packs\<close>

text \<open>
  The five bit fields of a pack id and its 32-bit form determine each other: both conversions
  are inverse to one another.
\<close>

lemma pack_id_round_trip:
  "raw_to_e2ees_pack_id (e2ees_pack_id_to_raw p) = p \<and> e2ees_pack_id_to_raw (raw_to_e2ees_pack_id raw) = raw"
  by (simp add: to_raw_inverse raw_inverse)

text \<open>
  Which pack ids the validator accepts: a signature id and a KEM id of the tables, AES-256-GCM
  and SHA-256, and never the curve25519 KEM, whose suite object has no encapsulation.
\<close>

lemma accepted_packs:
  "is_valid_e2ees_pack_id P raw \<longleftrightarrow>
     map_of ds_table (ucast (pid_ds (raw_to_e2ees_pack_id raw))) \<noteq> None \<and>
     map_of kem_table (ucast (pid_kem (raw_to_e2ees_pack_id raw))) \<notin> {None, Some KEM_CURVE25519_ECDH} \<and>
     pid_se (raw_to_e2ees_pack_id raw) = 0 \<and> pid_hash (raw_to_e2ees_pack_id raw) = 1"
  unfolding valid_pack_iff pack_ds_def pack_kem_def by auto

subsection \<open>Authenticated encryption\<close>

text \<open>
  With a 48-byte message key the encryption of at most 2^36 - 32 bytes succeeds, its ciphertext
  is 16 bytes longer, and decryption with the same key and associated data returns the plaintext
  (a NULL buffer for an empty one).
\<close>

lemma aead_round_trip:
  assumes "gcm_documented P" and "length k = 48" and "length pt \<le> GCM_LIMIT"
  shows "\<exists>ct. crypto_se_encrypt_aes256_gcm P (buf ad) (Some k) pt = Some (0, buf ct) \<and> length ct = length pt + 16 \<and>
    crypto_se_decrypt_aes256_gcm P (buf ad) (Some k) ct = Some (0, if pt = [] then empty_bdata else buf pt)"
proof -
  note seal = seal_call_std [OF assms] and inv = open_seal_std [OF assms]
  have "crypto_se_decrypt_aes256_gcm P (buf ad) (Some k) (std_seal P k ad pt) = Some (open_result (Some pt))"
    using open_call_std [OF assms(1,2), of "std_seal P k ad pt" ad] seal(2) [of ad] inv [of ad] assms(3) by simp
  then show ?thesis using seal by (auto simp: open_result_def plain_out_def)
qed

lemma demo_gcm: "gcm_documented demo_prims"
  using demo_prims_ok by (simp add: prims_ok_def)

lemma aead_round_trip_witness:
  "\<exists>ct. crypto_se_encrypt_aes256_gcm demo_prims (buf [1]) (Some (replicate 48 2)) [5, 6] = Some (0, buf ct) \<and>
    length ct = length [5 :: byte, 6] + 16 \<and>
    crypto_se_decrypt_aes256_gcm demo_prims (buf [1]) (Some (replicate 48 2)) ct =
      Some (0, if [5 :: byte, 6] = [] then empty_bdata else buf [5, 6])"
  by (rule aead_round_trip [OF demo_gcm]) simp_all

text \<open>
  C23: the tag decides.  A ciphertext with a tag is opened exactly when its last 16 bytes are the
  tag computed over the rest; otherwise the result is the error -1 with neither length nor data.
\<close>

theorem aead_tag_decides:
  assumes P: "gcm_documented P" and k: "length k = 48"
    and ct: "length tag = 16" "length body \<le> GCM_LIMIT"
    and crypt: "pr_gcm_crypt_and_tag P False (take 32 k) (drop 32 k) ad body = (0, pt, expected)"
  shows "crypto_se_decrypt_aes256_gcm P (buf ad) (Some k) (body @ tag) =
    Some (if tag = expected then (0, if pt = [] then empty_bdata else buf pt) else (- 1, empty_bdata))"
proof -
  have "std_open P k ad (body @ tag) = (if tag = expected then Some pt else None)"
    using ct(1) crypt by (simp add: std_open_def)
  then show ?thesis using open_call_std [OF P k, of "body @ tag" ad] ct by (simp add: open_result_def plain_out_def)
qed

theorem aead_tag_decides_witness:
  "crypto_se_decrypt_aes256_gcm demo_prims (buf [1]) (Some (replicate 48 0)) ([4] @ replicate 16 9) = Some (- 1, empty_bdata)"
proof -
  have "pr_gcm_crypt_and_tag demo_prims False (take 32 (replicate 48 0)) (drop 32 (replicate 48 0)) [1] [4] =
      (0, [4], replicate 16 5)"
    by (simp add: demo_prims_def)
  from aead_tag_decides [OF demo_gcm _ _ _ this, of "replicate 16 9"] show ?thesis by (simp add: replicate_eq_replicate)
qed

text \<open>
  A ciphertext shorter than the tag is not refused: the code subtracts 16 from its length and
  reads the tag from before the buffer, an access outside every object.
\<close>

lemma short_ciphertext_undefined:
  assumes "length ct < 16"
  shows "crypto_se_decrypt_aes256_gcm P ad key ct = None"
  using assms
  by (cases "read_bytes key 48"; cases "read_pb ad") (auto simp: crypto_se_decrypt_aes256_gcm_def crypto_aes_decrypt_gcm_def)

lemma short_ciphertext_undefined_witness:
  "crypto_se_decrypt_aes256_gcm demo_prims (buf [1]) (Some (replicate 48 0)) [1, 2, 3] = None"
  by (rule short_ciphertext_undefined) simp

text \<open>
  The comparison that ORs the XORs of all byte pairs, written to take the same time for every
  input, decides equality of the two buffers.
\<close>

lemma is_equal_decides_equality:
  assumes "length a = length b"
  shows "is_equal (Some a) (Some b) (length a) = Some (a = b)"
  by (rule is_equal_iff [OF assms])

lemma is_equal_decides_equality_witness:
  "is_equal (Some [1, 2]) (Some [1, 3]) 2 = Some False"
  using is_equal_decides_equality [of "[1, 2]" "[1, 3]"] by (simp add: numeral_2_eq_2)

subsection \<open>Member lists\<close>

definition demo_member :: "string \<Rightarrow> group_member" where
  "demo_member n = \<lparr>gm_user_id = Some n, gm_domain = Some ''d'', gm_role = GROUP_ROLE_MEMBER\<rparr>"

definition demo_group :: "group_member list \<Rightarrow> group_info" where
  "demo_group ms = \<lparr>gi_group_name = Some ''g'', gi_group_address = None, gi_n_group_member_list = length ms,
     gi_group_member_list = Some (map Some ms)\<rparr>"

abbreviation (input) demo_defaults :: gen_defaults where
  "demo_defaults \<equiv> \<lparr>gd_string = Some [], gd_role = GROUP_ROLE_MEMBER, gd_notif_level_normal = 0, gd_notif_level_session = 1\<rparr>"

lemma demo_group_wf:
  "wf_group_info demo_defaults (demo_group (map demo_member ns))"
  by (simp add: wf_group_info_def demo_group_def demo_member_def wf_member_def wf_str_def list_all_iff)

text \<open>
  For two member lists of the same length \<open>compare_group_member\<close> tests whether every member
  of the first list but the last one occurs in the second: the last member is never compared.
\<close>

lemma compare_group_member_ignores_last:
  assumes "list_all (\<lambda>p. p \<noteq> None) xs" and "list_all (\<lambda>p. p \<noteq> None) ys" and "length xs = length ys"
  shows "compare_group_member (Some xs) (length xs) (Some ys) (length ys) =
    Some (\<forall>p\<in>set (butlast xs). \<exists>q\<in>set ys. gm_user_id (the p) = gm_user_id (the q) \<and> gm_domain (the p) = gm_domain (the q))"
  unfolding compare_group_member_eq [OF assms] by (simp add: list_all_iff has_member_def)

lemma compare_group_member_ignores_last_witness:
  "compare_group_member (Some [Some (demo_member ''a''), Some (demo_member ''b'')]) 2
     (Some [Some (demo_member ''a''), Some (demo_member ''c'')]) 2 = Some True"
  using compare_group_member_ignores_last [of "[Some (demo_member ''a''), Some (demo_member ''b'')]"
      "[Some (demo_member ''a''), Some (demo_member ''c'')]"] by (simp add: numeral_2_eq_2)

text \<open>
  Removing the members \<open>rs\<close> from a group.  One pass with a cursor removes the members that
  match the cursor's in order; when all of \<open>rs\<close> are met that way the result is the group without
  them, and otherwise the pass writes behind the end of the new list.
\<close>

lemma remove_members_pass:
  assumes "wf_group_info D g" and "gi_group_member_list g = Some (map Some ms)"
    and "remove_in_order ms rs = (ks, ls)" and "length rs \<le> length ms" and "length ms < 2 ^ 64"
  shows "remove_group_members_from_group_info D g (Some (map Some rs)) (length rs) =
    (if ls = [] then Some (g\<lparr>gi_n_group_member_list := length ks, gi_group_member_list := Some (map Some ks)\<rparr>)
     else None)"
  using remove_members_ok [OF assms(1,2) _ assms(5)] remove_members_overflow [OF assms(1,2,3) _ assms(4)] assms(3)
  by simp

lemma remove_members_pass_witness:
  "remove_group_members_from_group_info demo_defaults (demo_group (map demo_member [''a'', ''b'', ''c'']))
     (Some (map Some (map demo_member [''b'']))) 1 = Some (demo_group (map demo_member [''a'', ''c''])) \<and>
   remove_group_members_from_group_info demo_defaults (demo_group (map demo_member [''a'', ''b'']))
     (Some (map Some (map demo_member [''b'', ''a'']))) (length [''b'', ''a'']) = None"
proof
  show "remove_group_members_from_group_info demo_defaults (demo_group (map demo_member [''a'', ''b'', ''c'']))
     (Some (map Some (map demo_member [''b'']))) 1 = Some (demo_group (map demo_member [''a'', ''c'']))"
    using remove_members_pass [OF demo_group_wf, of "[''a'', ''b'', ''c'']" "map demo_member [''a'', ''b'', ''c'']"
      "map demo_member [''b'']" "map demo_member [''a'', ''c'']" "[]"]
    by (simp add: demo_group_def demo_member_def same_member_def)
  show "remove_group_members_from_group_info demo_defaults (demo_group (map demo_member [''a'', ''b'']))
     (Some (map Some (map demo_member [''b'', ''a'']))) (length [''b'', ''a'']) = None"
    using remove_members_pass [OF demo_group_wf, of "[''a'', ''b'']" "map demo_member [''a'', ''b'']"
      "map demo_member [''b'', ''a'']" "map demo_member [''a'']" "map demo_member [''a'']"]
    by (simp add: demo_group_def demo_member_def same_member_def)
qed

text \<open>
  Adding members to a group and removing them again gives the group back, provided no old
  member equals the first of the added ones.
\<close>

lemma add_remove_members:
  assumes g: "wf_group_info D g" "gi_group_member_list g = Some (map Some ms)"
    and ys: "list_all (wf_member D) ys" and new: "\<forall>m\<in>set ms. ys \<noteq> [] \<longrightarrow> \<not> same_member m (hd ys)"
    and len: "length ms + length ys < 2 ^ 64"
  shows "\<exists>g'. add_group_members_to_group_info D g (Some (map Some ys)) (length ys) = Some g' \<and>
    gi_group_member_list g' = Some (map Some (ms @ ys)) \<and>
    remove_group_members_from_group_info D g' (Some (map Some ys)) (length ys) = Some g"
proof -
  have n: "gi_n_group_member_list g = length ms" using g by (auto simp: wf_group_info_def)
  let ?g = "g\<lparr>gi_n_group_member_list := length ms + length ys, gi_group_member_list := Some (map Some (ms @ ys))\<rparr>"
  have add: "add_group_members_to_group_info D g (Some (map Some ys)) (length ys) = Some ?g"
    using add_members_eq [OF g, of "map Some ys"] ys by (simp add: list_all_iff)
  have all: "remove_in_order ys ys = ([], [])" for ys by (induction ys) (auto simp: same_member_def)
  have "remove_in_order (ms @ ys) ys = (ms, [])" using new
    by (cases ys; induction ms) (simp_all add: all)
  moreover have "wf_group_info D ?g" using g ys by (auto simp: wf_group_info_def list_all_iff)
  ultimately have "remove_group_members_from_group_info D ?g (Some (map Some ys)) (length ys) =
      Some (?g\<lparr>gi_n_group_member_list := length ms, gi_group_member_list := Some (map Some ms)\<rparr>)"
    using remove_members_ok [of D ?g "ms @ ys" ys ms] len by simp
  then show ?thesis using add g(2) n by simp
qed

lemma add_remove_members_witness:
  "\<exists>g'. add_group_members_to_group_info demo_defaults (demo_group (map demo_member [''a'']))
      (Some (map Some (map demo_member [''b'']))) (length (map demo_member [''b''])) = Some g' \<and>
    gi_group_member_list g' = Some (map Some (map demo_member [''a''] @ map demo_member [''b''])) \<and>
    remove_group_members_from_group_info demo_defaults g' (Some (map Some (map demo_member [''b''])))
      (length (map demo_member [''b''])) = Some (demo_group (map demo_member [''a'']))"
  by (rule add_remove_members [OF demo_group_wf])
    (simp_all add: demo_group_def demo_member_def wf_member_def wf_str_def same_member_def)

text \<open>
  From the devices of a group's members to its members: one member per user, in the order in
  which the users first occur, with the role the given member list records (the default role when it
  has no entry); the returned number is the number of different users.
\<close>

lemma members_of_devices:
  assumes "list_all user_info is"
  shows "member_info_to_group_members D (Some (map Some is)) (length is) (Some (map Some members)) (length members) =
    Some (card (info_key ` set is), Some (map Some (map (member_of_key D members) (firsts (map info_key is)))))"
  using member_info_to_group_members_eq [OF assms] by simp

definition demo_device :: "string \<Rightarrow> string \<Rightarrow> group_member_info" where
  "demo_device u v = \<lparr>gmi_member_address = Some \<lparr>ad_domain = Some ''d'', ad_peer_case = PEER_USER,
     ad_user = Some \<lparr>pu_user_name = None, pu_user_id = Some u, pu_device_id = Some v\<rparr>, ad_group = None\<rparr>,
     gmi_sign_public_key = buf [1]\<rparr>"

lemma members_of_devices_example:
  "member_info_to_group_members demo_defaults
     (Some [Some (demo_device ''a'' ''1''), Some (demo_device ''b'' ''1''), Some (demo_device ''a'' ''2'')]) 3
     (Some [Some (demo_member ''b'')]) 1 = Some (2, Some [Some (demo_member ''a''), Some (demo_member ''b'')])"
  using members_of_devices [of "[demo_device ''a'' ''1'', demo_device ''b'' ''1'', demo_device ''a'' ''2'']"
      demo_defaults "[demo_member ''b'']"]
  by (simp add: demo_device_def demo_member_def user_info_def info_key_def firsts_def member_of_key_def member_key_def
      init_group_member_def numeral_2_eq_2 numeral_3_eq_3 card_insert_if)

subsection \<open>Copies\<close>

text \<open>
  The copy of a ratchet is not the ratchet: both message counters are reset to zero, everything
  else is copied.
\<close>

lemma copy_ratchet_resets_counters:
  assumes "wf_bdata (rt_root_key r)" and "set_ptr wf_sender_chain (rt_sender_chain r)"
    and "set_ptr wf_receiver_chain (rt_receiver_chain r)"
    and "rt_skipped_msg_key_list r = Some xs" and "rt_n_skipped_msg_key_list r = length xs"
    and "list_all (set_ptr wf_skipped_node) xs"
  shows "copy_ratchet_from_ratchet (Some r) =
    Some (r\<lparr>rt_sending_message_sequence := 0, rt_received_message_sequence := 0\<rparr>)"
  using copy_ratchet_eq [OF assms(1-4)] assms(4-6) by simp

definition demo_ratchet :: ratchet where
  "demo_ratchet = init_ratchet\<lparr>rt_root_key := buf [1], rt_sending_message_sequence := 7, rt_received_message_sequence := 5,
     rt_sender_chain := Some \<lparr>sc_their_ratchet_public_key = buf [2], sc_our_ratchet_public_key = buf [3],
       sc_chain_key = Some \<lparr>ck_index = 4, ck_shared_key = buf [5]\<rparr>\<rparr>,
     rt_receiver_chain := Some \<lparr>rc_their_ratchet_public_key = buf [6], rc_our_ratchet_private_key = buf [7],
       rc_chain_key = Some \<lparr>ck_index = 8, ck_shared_key = buf [9]\<rparr>\<rparr>,
     rt_skipped_msg_key_list := Some [], rt_n_skipped_msg_key_list := 0\<rparr>"

lemma copy_ratchet_resets_counters_example:
  "copy_ratchet_from_ratchet (Some demo_ratchet) =
    Some (demo_ratchet\<lparr>rt_sending_message_sequence := 0, rt_received_message_sequence := 0\<rparr>)"
  by (rule copy_ratchet_resets_counters [where xs = "[]"])
    (simp_all add: demo_ratchet_def wf_sender_chain_def wf_receiver_chain_def wf_chain_key_def)

end
