(* ===== verification/Account_Cache.thy ===== *)
theory Account_Cache
  imports Validation
begin

section \<open>The account cache\<close>

text \<open>
  \<open>src/account_cache.c\<close>: the linked list of cached accounts as a list, the global
  \<open>account_cacheer_list\<close> as an explicit argument and result.  The lookups walk the list with
  \<open>compare_address\<close>.  The allocation of a node, which the code tests, succeeds or fails as
  an argument says.

  The contract of the cache is the locale \<open>first_wins_cache\<close>: what is stored under an address is
  found under every address with the same identity, and the first entry of an address stays.
\<close>

subsection \<open>Operations\<close>

record account_cacheer =
  ca_version :: cstr
  ca_e2ees_pack_id :: u32
  ca_address :: "address ptr"
  ca_identity_key :: "identity_key ptr"
  ca_server_public_key :: bdata

type_synonym cache = "account_cacheer list"

fun find_account_in_cache :: "cache \<Rightarrow> address ptr \<Rightarrow> account_cacheer ptr option" where
  "find_account_in_cache [] address = Some None"
| "find_account_in_cache (cur # rest) address =
     do { same \<leftarrow> compare_address (ca_address cur) address;
          if same then Some (Some cur) else find_account_in_cache rest address }"

definition insert_account_cacheer :: "gen_defaults \<Rightarrow> account \<Rightarrow> account_cacheer option" where
  "insert_account_cacheer D account =
     do { version \<leftarrow> deref (acc_version account);
          address \<leftarrow> copy_address_from_address D (acc_address account);
          ik \<leftarrow> copy_ik_from_ik (acc_identity_key account);
          server_public_key \<leftarrow>
            (case acc_server_cert account of
               None \<Rightarrow> Some empty_bdata
             | Some certificate \<Rightarrow>
                 (case ct_cert certificate of
                    None \<Rightarrow> Some empty_bdata
                  | Some cert \<Rightarrow> copy_protobuf_from_protobuf empty_bdata (ce_public_key cert)));
          Some \<lparr>ca_version = Some version, ca_e2ees_pack_id = acc_e2ees_pack_id account,
                ca_address = Some address, ca_identity_key = Some ik,
                ca_server_public_key = server_public_key\<rparr> }"

definition store_account_into_cache :: "gen_defaults \<Rightarrow> bool \<Rightarrow> cache \<Rightarrow> account ptr \<Rightarrow> cache option" where
  "store_account_into_cache D mem_ok cache account =
     (case account of None \<Rightarrow> Some cache
      | Some a \<Rightarrow>
          if acc_address a = None then Some cache
          else do { found \<leftarrow> find_account_in_cache cache (acc_address a);
                    if found \<noteq> None then Some cache
                    else if \<not> mem_ok then Some cache
                    else do { entry \<leftarrow> insert_account_cacheer D a; Some (cache @ [entry]) } })"

definition load_version_from_cache :: "cache \<Rightarrow> address ptr \<Rightarrow> cstr option" where
  "load_version_from_cache cache address =
     do { cur \<leftarrow> find_account_in_cache cache address;
          (case cur of None \<Rightarrow> Some None
           | Some c \<Rightarrow> do { version \<leftarrow> deref (ca_version c); Some (Some version) }) }"

definition load_e2ees_pack_id_from_cache :: "cache \<Rightarrow> address ptr \<Rightarrow> u32 option" where
  "load_e2ees_pack_id_from_cache cache address =
     do { cur \<leftarrow> find_account_in_cache cache address;
          Some (case cur of None \<Rightarrow> E2EES_PACK_ID_UNSPECIFIED | Some c \<Rightarrow> ca_e2ees_pack_id c) }"

definition load_identity_key_from_cache :: "cache \<Rightarrow> address ptr \<Rightarrow> identity_key ptr option" where
  "load_identity_key_from_cache cache address =
     do { cur \<leftarrow> find_account_in_cache cache address;
          (case cur of None \<Rightarrow> Some None
           | Some c \<Rightarrow> do { ik \<leftarrow> copy_ik_from_ik (ca_identity_key c); Some (Some ik) }) }"

definition load_server_public_key_from_cache :: "cache \<Rightarrow> address ptr \<Rightarrow> bdata option" where
  "load_server_public_key_from_cache cache address =
     do { cur \<leftarrow> find_account_in_cache cache address;
          (case cur of None \<Rightarrow> Some empty_bdata
           | Some c \<Rightarrow> copy_protobuf_from_protobuf empty_bdata (ca_server_public_key c)) }"

definition free_account_cacheer_list :: "cache \<Rightarrow> cache" where
  "free_account_cacheer_list cache = []"

subsection \<open>The contract\<close>

text \<open>
  A cache from addresses to entries.  \<open>ok\<close> is its invariant, \<open>storable\<close> what may be stored and
  \<open>asked\<close> the addresses it may be asked for; \<open>ident\<close> is the identity of an address.
\<close>

locale first_wins_cache =
  fixes lookup :: "'c \<Rightarrow> 'a \<Rightarrow> 'e option option"
    and store :: "'c \<Rightarrow> 'x \<Rightarrow> 'c option"
    and ok :: "'c \<Rightarrow> bool"
    and storable :: "'x \<Rightarrow> bool"
    and asked :: "'a \<Rightarrow> bool"
    and ident :: "'a \<Rightarrow> 'i"
    and owner :: "'x \<Rightarrow> 'i"
    and entry :: "'x \<Rightarrow> 'e"
  assumes store_ok: "ok c \<Longrightarrow> storable x \<Longrightarrow> \<exists>c'. store c x = Some c' \<and> ok c'"
    and lookup_total: "ok c \<Longrightarrow> asked a \<Longrightarrow> \<exists>e. lookup c a = Some e"
    and lookup_store: "ok c \<Longrightarrow> storable x \<Longrightarrow> asked a \<Longrightarrow> store c x = Some c' \<Longrightarrow>
      lookup c' a = Some (case lookup c a of Some (Some e) \<Rightarrow> Some e
        | _ \<Rightarrow> if ident a = owner x then Some (entry x) else None)"
begin

fun store_all :: "'c \<Rightarrow> 'x list \<Rightarrow> 'c option" where
  "store_all c [] = Some c"
| "store_all c (x # xs) = do { c \<leftarrow> store c x; store_all c xs }"

text \<open>After a series of stores a lookup finds the first entry stored under its identity.\<close>

lemma lookup_store_all:
  assumes "ok c" and "\<forall>x\<in>set xs. storable x" and "asked a"
  shows "\<exists>c'. store_all c xs = Some c' \<and> ok c' \<and>
    lookup c' a = Some (case lookup c a of Some (Some e) \<Rightarrow> Some e
      | _ \<Rightarrow> map_option entry (find (\<lambda>x. owner x = ident a) xs))"
  using assms(1,2)
proof (induction xs arbitrary: c)
  case Nil
  then show ?case using lookup_total [OF Nil(1) assms(3)] by (auto split: option.splits)
next
  case (Cons x xs)
  then obtain c1 where c1: "store c x = Some c1" "ok c1" using store_ok by fastforce
  from Cons.IH [OF c1(2)] Cons.prems(2) obtain c' where
    c': "store_all c1 xs = Some c'" "ok c'" "lookup c' a = Some (case lookup c1 a of Some (Some e) \<Rightarrow> Some e
      | _ \<Rightarrow> map_option entry (find (\<lambda>x. owner x = ident a) xs))" by auto
  moreover have "lookup c1 a = Some (case lookup c a of Some (Some e) \<Rightarrow> Some e
        | _ \<Rightarrow> if ident a = owner x then Some (entry x) else None)"
    using lookup_store [OF Cons.prems(1) _ assms(3) c1(1)] Cons.prems(2) by simp
  ultimately show ?case using c1(1) by (auto split: option.splits)
qed

end

subsection \<open>The cache meets it\<close>

definition cached_address :: "account_cacheer \<Rightarrow> address" where
  "cached_address c = the (ca_address c)"

definition wf_cache :: "gen_defaults \<Rightarrow> cache \<Rightarrow> bool" where
  "wf_cache D cache \<longleftrightarrow>
     list_all (\<lambda>c. set_ptr (\<lambda>a. wf_address D a \<and> wf_peer a) (ca_address c) \<and> ca_version c \<noteq> None \<and>
       set_ptr wf_identity_key (ca_identity_key c) \<and> wf_bdata (ca_server_public_key c)) cache \<and>
     distinct (map (address_id \<circ> cached_address) cache)"

text \<open>Accounts that can be stored: an address, a version, an identity key, a well-formed server key.\<close>

definition server_key :: "account \<Rightarrow> bdata" where
  "server_key a = (case acc_server_cert a of None \<Rightarrow> empty_bdata
     | Some c \<Rightarrow> (case ct_cert c of None \<Rightarrow> empty_bdata | Some x \<Rightarrow> ce_public_key x))"

definition storable_account :: "gen_defaults \<Rightarrow> account \<Rightarrow> bool" where
  "storable_account D a \<longleftrightarrow> acc_version a \<noteq> None \<and>
     set_ptr (\<lambda>x. wf_address D x \<and> wf_peer x) (acc_address a) \<and>
     set_ptr wf_identity_key (acc_identity_key a) \<and> wf_bdata (server_key a)"

definition cache_entry :: "account \<Rightarrow> account_cacheer" where
  "cache_entry a = \<lparr>ca_version = acc_version a, ca_e2ees_pack_id = acc_e2ees_pack_id a,
     ca_address = acc_address a, ca_identity_key = acc_identity_key a, ca_server_public_key = server_key a\<rparr>"

lemma insert_entry:
  assumes "storable_account D a"
  shows "insert_account_cacheer D a = Some (cache_entry a)"
  using assms
  by (auto simp: insert_account_cacheer_def storable_account_def cache_entry_def server_key_def
      address_copy.copy_id ik_copy.copy_id copy_simps elim!: set_ptrE split: option.splits)

lemma find_eq:
  assumes "wf_cache D cache" and "wf_peer a"
  shows "find_account_in_cache cache (Some a) =
    Some (find (\<lambda>c. address_id (cached_address c) = address_id a) cache)"
  using assms(1)
proof (induction cache)
  case Nil
  show ?case by simp
next
  case (Cons c cache)
  then obtain x where "ca_address c = Some x" "wf_peer x" by (auto simp: wf_cache_def elim!: set_ptrE)
  moreover have "wf_cache D cache" using Cons.prems by (simp add: wf_cache_def)
  ultimately show ?case using Cons.IH by (simp add: compare_address_id assms(2) cached_address_def)
qed

lemma store_eq:
  assumes c: "wf_cache D cache" and a: "storable_account D acc"
  shows "store_account_into_cache D True cache (Some acc) =
      Some (if find (\<lambda>c. address_id (cached_address c) = address_id (the (acc_address acc))) cache = None
            then cache @ [cache_entry acc] else cache)"
proof -
  obtain x where x: "acc_address acc = Some x" "wf_peer x" using a by (auto simp: storable_account_def elim!: set_ptrE)
  then show ?thesis using find_eq [OF c x(2)] insert_entry [OF a]
    by (auto simp: store_account_into_cache_def)
qed

lemma store_wf:
  assumes c: "wf_cache D cache" and a: "storable_account D acc"
    and new: "find (\<lambda>c. address_id (cached_address c) = address_id (the (acc_address acc))) cache = None"
  shows "wf_cache D (cache @ [cache_entry acc])"
  using assms
  by (auto simp: wf_cache_def storable_account_def cache_entry_def cached_address_def find_None_iff elim!: set_ptrE)

interpretation account_cache: first_wins_cache "\<lambda>c a. find_account_in_cache c (Some a)"
    "\<lambda>c a. store_account_into_cache D True c (Some a)" "wf_cache D" "storable_account D" wf_peer address_id
    "\<lambda>a. address_id (the (acc_address a))" cache_entry for D
proof
  fix c x
  assume c: "wf_cache D c" and x: "storable_account D x"
  then show "\<exists>c'. store_account_into_cache D True c (Some x) = Some c' \<and> wf_cache D c'"
    using store_eq [OF c x] store_wf [OF c x] by auto
next
  fix c a
  assume "wf_cache D c" "wf_peer a"
  then show "\<exists>e. find_account_in_cache c (Some a) = Some e" by (simp add: find_eq)
next
  fix c x a c'
  assume c: "wf_cache D c" and x: "storable_account D x" and a: "wf_peer a"
    and step: "store_account_into_cache D True c (Some x) = Some c'"
  have wf: "wf_cache D c'" using step store_eq [OF c x] store_wf [OF c x] c by (auto split: if_splits)
  show "find_account_in_cache c' (Some a) = Some (case find_account_in_cache c (Some a) of Some (Some e) \<Rightarrow> Some e
        | _ \<Rightarrow> if address_id a = address_id (the (acc_address x)) then Some (cache_entry x) else None)"
    unfolding find_eq [OF c a] find_eq [OF wf a] using step store_eq [OF c x]
    by (auto simp: find_append cached_address_def cache_entry_def split: if_splits option.splits)
qed

end
