(* ===== verification/Account.thy ===== *)
theory Account
  imports Account_Cache Suite_Laws
begin

section \<open>Accounts\<close>

text \<open>
  \<open>src/account.c\<close>: key generation for an account, the list of one-time pre-keys and the filling
  of the cache at start-up.  The platform's handlers are arguments: the accounts
  \<open>load_accounts\<close> returns, the time \<open>gen_ts\<close> returns, and the random tape behind the key
  generators.  Calls of the database's remove handlers are returned as the list of their arguments.
  The renewal of an expired signed pre-key is not part of the theory: it talks to the server.
\<close>

abbreviation (input) E2EES_ONE_TIME_PRE_KEY_INITIAL_NUM :: nat where "E2EES_ONE_TIME_PRE_KEY_INITIAL_NUM \<equiv> 100"
abbreviation (input) E2EES_ONE_TIME_PRE_KEY_PURGE_NUM :: nat where "E2EES_ONE_TIME_PRE_KEY_PURGE_NUM \<equiv> 60"
abbreviation (input) E2EES_SIGNED_PRE_KEY_EXPIRATION_MS :: int where "E2EES_SIGNED_PRE_KEY_EXPIRATION_MS \<equiv> 604800000"

definition E2EES_PROTOCOL_VERSION :: string where
  "E2EES_PROTOCOL_VERSION = [CHR 0x01]"

subsection \<open>Start and end\<close>

text \<open>The loop over the loaded accounts; \<open>mem_ok i\<close> says whether the \<open>i\<close>-th node can be allocated.\<close>

fun account_begin_loop :: "prims \<Rightarrow> gen_defaults \<Rightarrow> (nat \<Rightarrow> bool) \<Rightarrow> account ptr list \<Rightarrow> nat \<Rightarrow> cache \<Rightarrow> cache option" where
  "account_begin_loop P D mem_ok [] i cache = Some cache"
| "account_begin_loop P D mem_ok (cur_account # rest) i cache =
     do { valid \<leftarrow> is_valid_registered_account P cur_account;
          cache \<leftarrow> (if valid then store_account_into_cache D (mem_ok i) cache cur_account else Some cache);
          account_begin_loop P D mem_ok rest (Suc i) cache }"

definition account_begin :: "prims \<Rightarrow> gen_defaults \<Rightarrow> (nat \<Rightarrow> bool) \<Rightarrow> account ptr list \<Rightarrow> cache \<Rightarrow> cache option" where
  "account_begin P D mem_ok accounts cache = account_begin_loop P D mem_ok accounts 0 cache"

definition account_end :: "cache \<Rightarrow> cache" where
  "account_end cache = free_account_cacheer_list cache"

subsection \<open>Key generation\<close>

definition generate_identity_key :: "prims \<Rightarrow> u32 \<Rightarrow> seed \<Rightarrow> (int \<times> identity_key ptr \<times> seed) option" where
  "generate_identity_key P e2ees_pack_id s =
     (let cs = suite_of P e2ees_pack_id in
      if \<not> is_valid_cipher_suite (Some cs) then Some (E2EES_RESULT_FAIL, None, s)
      else do {
        kem \<leftarrow> kem_param cs; ds \<leftarrow> ds_param cs;
        (ret, pub, priv, s) \<leftarrow> call_asym_key_gen cs s;
        let asym = \<lparr>kpr_private_key = priv, kpr_public_key = pub\<rparr>;
        let ret = (if \<not> accurate_key_pair (Some asym) (kp_asym_pub_key_len kem) (kp_asym_priv_key_len kem)
                   then E2EES_RESULT_FAIL else ret);
        if ret \<noteq> E2EES_RESULT_SUCC then Some (ret, None, s)
        else do {
          (ret, pub, priv, s) \<leftarrow> call_ds_key_gen cs s;
          let sign = \<lparr>kpr_private_key = priv, kpr_public_key = pub\<rparr>;
          let ret = (if \<not> accurate_key_pair (Some sign) (dsp_sign_pub_key_len ds) (dsp_sign_priv_key_len ds)
                     then E2EES_RESULT_FAIL else ret);
          if ret \<noteq> E2EES_RESULT_SUCC then Some (ret, None, s)
          else Some (ret, Some \<lparr>ik_asym_key_pair = Some asym, ik_sign_key_pair = Some sign\<rparr>, s) } })"

text \<open>The signature is written into a buffer of the announced length before its length is tested.\<close>

definition generate_signed_pre_key ::
    "prims \<Rightarrow> u32 \<Rightarrow> u32 \<Rightarrow> bytes ptr \<Rightarrow> int \<Rightarrow> seed \<Rightarrow> (int \<times> signed_pre_key ptr \<times> seed) option" where
  "generate_signed_pre_key P e2ees_pack_id cur_spk_id identity_private_key now s =
     (let cs = suite_of P e2ees_pack_id in
      if \<not> is_valid_cipher_suite (Some cs) then Some (E2EES_RESULT_FAIL, None, s)
      else do {
        kem \<leftarrow> kem_param cs; ds \<leftarrow> ds_param cs;
        (ret, pub, priv, s) \<leftarrow> call_asym_key_gen cs s;
        let key_pair = \<lparr>kpr_private_key = priv, kpr_public_key = pub\<rparr>;
        let ret = (if \<not> accurate_key_pair (Some key_pair) (kp_asym_pub_key_len kem) (kp_asym_priv_key_len kem)
                   then E2EES_RESULT_FAIL else ret);
        if ret \<noteq> E2EES_RESULT_SUCC then Some (ret, None, s)
        else do {
          msg \<leftarrow> read_bytes (pb_data pub) (kp_asym_pub_key_len kem);
          (ret, sig, s) \<leftarrow> call_sign cs s msg identity_private_key;
          signature_data \<leftarrow> write_buf (replicate (dsp_sig_len ds) 0) sig;
          let ret = (if dsp_sig_len ds < length sig then E2EES_RESULT_FAIL else ret);
          if ret \<noteq> E2EES_RESULT_SUCC then Some (ret, None, s)
          else do {
            signature \<leftarrow> copy_protobuf_from_array signature_data (length sig);
            Some (ret, Some \<lparr>spk_id = cur_spk_id + 1, spk_key_pair = Some key_pair, spk_signature = signature,
                             spk_ttl = now + E2EES_SIGNED_PRE_KEY_EXPIRATION_MS\<rparr>, s) } } })"

text \<open>The loop of \<open>generate_opks\<close>, from key \<open>i\<close> with \<open>k\<close> keys left.\<close>

fun generate_opks_loop ::
    "cipher_suite \<Rightarrow> crypto_kem_param \<Rightarrow> u32 \<Rightarrow> nat \<Rightarrow> nat \<Rightarrow> seed \<Rightarrow> (int \<times> one_time_pre_key ptr list \<times> seed) option" where
  "generate_opks_loop cs kem cur_opk_id i 0 s = Some (E2EES_RESULT_SUCC, [], s)"
| "generate_opks_loop cs kem cur_opk_id i (Suc k) s =
     do { (ret, pub, priv, s) \<leftarrow> call_asym_key_gen cs s;
          let key_pair = \<lparr>kpr_private_key = priv, kpr_public_key = pub\<rparr>;
          let ret = (if \<not> accurate_key_pair (Some key_pair) (kp_asym_pub_key_len kem) (kp_asym_priv_key_len kem)
                     then E2EES_RESULT_FAIL else ret);
          if ret \<noteq> E2EES_RESULT_SUCC then Some (ret, [], s)
          else do {
            copy \<leftarrow> copy_key_pair_from_key_pair (Some key_pair);
            (ret, keys, s) \<leftarrow> generate_opks_loop cs kem cur_opk_id (Suc i) k s;
            Some (ret, Some \<lparr>opk_id = cur_opk_id + of_nat i, opk_used = False, opk_key_pair = Some copy\<rparr> # keys, s) } }"

definition generate_opks ::
    "prims \<Rightarrow> nat \<Rightarrow> u32 \<Rightarrow> u32 \<Rightarrow> seed \<Rightarrow> (int \<times> one_time_pre_key ptr array \<times> seed) option" where
  "generate_opks P number_of_keys e2ees_pack_id cur_opk_id s =
     (let cs = suite_of P e2ees_pack_id in
      if \<not> is_valid_cipher_suite (Some cs) then Some (E2EES_RESULT_FAIL, None, s)
      else do {
        kem \<leftarrow> kem_param cs;
        (ret, keys, s) \<leftarrow> generate_opks_loop cs kem cur_opk_id 0 number_of_keys s;
        if ret = E2EES_RESULT_SUCC then Some (ret, Some keys, s) else Some (ret, None, s) })"

subsection \<open>One-time pre-keys\<close>

text \<open>The search of \<open>lookup_one_time_pre_key\<close> and \<open>mark_opk_as_used\<close>: the slot of an id, up to the first NULL slot.\<close>

fun opk_slot :: "one_time_pre_key ptr array \<Rightarrow> u32 \<Rightarrow> nat \<Rightarrow> nat \<Rightarrow> nat option option" where
  "opk_slot cur key_id i 0 = Some None"
| "opk_slot cur key_id i (Suc k) =
     do { p \<leftarrow> array_get cur i;
          (case p of None \<Rightarrow> Some None
           | Some key \<Rightarrow> if opk_id key = key_id then Some (Some i) else opk_slot cur key_id (Suc i) k) }"

definition lookup_one_time_pre_key :: "account ptr \<Rightarrow> u32 \<Rightarrow> one_time_pre_key ptr option" where
  "lookup_one_time_pre_key account one_time_pre_key_id =
     do { a \<leftarrow> deref account;
          if acc_one_time_pre_key_list a = None then Some None
          else do { slot \<leftarrow> opk_slot (acc_one_time_pre_key_list a) one_time_pre_key_id 0 (acc_n_one_time_pre_key_list a);
                    (case slot of None \<Rightarrow> Some None | Some i \<Rightarrow> array_get (acc_one_time_pre_key_list a) i) } }"

definition mark_opk_as_used :: "account ptr \<Rightarrow> u32 \<Rightarrow> (int \<times> account) option" where
  "mark_opk_as_used account key_id =
     do { a \<leftarrow> deref account;
          if acc_one_time_pre_key_list a = None then Some (- 1, a)
          else do { slot \<leftarrow> opk_slot (acc_one_time_pre_key_list a) key_id 0 (acc_n_one_time_pre_key_list a);
                    (case slot of None \<Rightarrow> Some (- 1, a)
                     | Some i \<Rightarrow>
                         do { p \<leftarrow> array_get (acc_one_time_pre_key_list a) i; key \<leftarrow> deref p;
                              l \<leftarrow> array_set (acc_one_time_pre_key_list a) i (Some (key\<lparr>opk_used := True\<rparr>));
                              Some (sint (opk_id key), a\<lparr>acc_one_time_pre_key_list := l\<rparr>) }) } }"

text \<open>
  \<open>insert_opks\<close>.  Both branches read the last slot of \<open>src\<close> for the next id; in the second one
  \<open>free_mem\<close> has already released \<open>src\<close> and set it to NULL.  The copy of a key is the code of
  \<open>copy_opk\<close>.
\<close>

definition last_slot :: "nat \<Rightarrow> nat" where
  "last_slot n = (n + 2 ^ 64 - 1) mod 2 ^ 64"

definition insert_opks :: "account \<Rightarrow> one_time_pre_key ptr array \<Rightarrow> nat \<Rightarrow> (int \<times> account) option" where
  "insert_opks a src src_num =
     do { valid \<leftarrow> is_valid_one_time_pre_key_list (acc_one_time_pre_key_list a) (acc_n_one_time_pre_key_list a);
          if \<not> valid then Some (E2EES_RESULT_FAIL, a)
          else
            let old_opk_num = acc_n_one_time_pre_key_list a in
            if old_opk_num = 0 then
              do { p \<leftarrow> array_get src (last_slot src_num); key \<leftarrow> deref p;
                   Some (E2EES_RESULT_SUCC,
                         a\<lparr>acc_one_time_pre_key_list := src, acc_n_one_time_pre_key_list := src_num,
                           acc_next_one_time_pre_key_id := opk_id key + 1\<rparr>) }
            else
              do { old \<leftarrow> copy_opks_from_opks (acc_one_time_pre_key_list a) old_opk_num;
                   new \<leftarrow> copy_opks_from_opks src src_num;
                   let src = free_mem src (8 * src_num);
                   p \<leftarrow> array_get src (last_slot src_num); key \<leftarrow> deref p;
                   Some (E2EES_RESULT_SUCC,
                         a\<lparr>acc_one_time_pre_key_list := Some (old @ new),
                           acc_n_one_time_pre_key_list := old_opk_num + src_num,
                           acc_next_one_time_pre_key_id := opk_id key + 1\<rparr>) } }"

text \<open>The ids \<open>purge_one_time_pre_key\<close> hands to the database, in order.\<close>

fun purge_loop :: "one_time_pre_key ptr array \<Rightarrow> nat \<Rightarrow> nat \<Rightarrow> nat \<Rightarrow> u32 list option" where
  "purge_loop cur used_num i 0 = Some []"
| "purge_loop cur used_num i (Suc k) =
     (if used_num < E2EES_ONE_TIME_PRE_KEY_PURGE_NUM then
        do { p \<leftarrow> array_get cur i;
             (case p of None \<Rightarrow> purge_loop cur used_num (Suc i) k
              | Some key \<Rightarrow>
                  if opk_used key
                  then do { ids \<leftarrow> purge_loop cur (Suc used_num) (Suc i) k; Some (opk_id key # ids) }
                  else purge_loop cur used_num (Suc i) k) }
      else Some [])"

definition purge_one_time_pre_key :: "account ptr \<Rightarrow> u32 list option" where
  "purge_one_time_pre_key account =
     do { a \<leftarrow> deref account;
          if acc_one_time_pre_key_list a \<noteq> None
          then purge_loop (acc_one_time_pre_key_list a) 0 0 (acc_n_one_time_pre_key_list a)
          else Some [] }"

subsection \<open>A new account\<close>

definition create_account :: "prims \<Rightarrow> gen_defaults \<Rightarrow> u32 \<Rightarrow> int \<Rightarrow> seed \<Rightarrow> (int \<times> account ptr \<times> seed) option" where
  "create_account P D e2ees_pack_id now s =
     (if \<not> is_valid_cipher_suite (Some (suite_of P e2ees_pack_id)) then Some (E2EES_RESULT_FAIL, None, s)
      else do {
        (ret, ik, s) \<leftarrow> generate_identity_key P e2ees_pack_id s;
        if ret \<noteq> E2EES_RESULT_SUCC then Some (ret, None, s)
        else do {
          identity_key \<leftarrow> deref ik; sign_key_pair \<leftarrow> deref (ik_sign_key_pair identity_key);
          (ret, spk, s) \<leftarrow> generate_signed_pre_key P e2ees_pack_id 0 (pb_data (kpr_private_key sign_key_pair)) now s;
          if ret \<noteq> E2EES_RESULT_SUCC then Some (ret, None, s)
          else do {
            (ret, opks, s) \<leftarrow> generate_opks P E2EES_ONE_TIME_PRE_KEY_INITIAL_NUM e2ees_pack_id 1 s;
            if ret \<noteq> E2EES_RESULT_SUCC then Some (ret, None, s)
            else do {
              (_, account) \<leftarrow> insert_opks
                 ((init_account D)\<lparr>acc_version := Some E2EES_PROTOCOL_VERSION, acc_e2ees_pack_id := e2ees_pack_id,
                    acc_identity_key := ik, acc_signed_pre_key := spk\<rparr>)
                 opks E2EES_ONE_TIME_PRE_KEY_INITIAL_NUM;
              Some (ret, Some account, s) } } } })"

subsection \<open>The list of one-time pre-keys\<close>

text \<open>An account whose list holds the keys \<open>ks\<close>.\<close>

definition holds_opks :: "account \<Rightarrow> one_time_pre_key list \<Rightarrow> bool" where
  "holds_opks a ks \<longleftrightarrow> acc_one_time_pre_key_list a = Some (map Some ks) \<and> acc_n_one_time_pre_key_list a = length ks"

text \<open>The position of the first key with an id, counted from \<open>i\<close>.\<close>

fun first_slot :: "one_time_pre_key list \<Rightarrow> u32 \<Rightarrow> nat \<Rightarrow> nat option" where
  "first_slot [] key_id i = None"
| "first_slot (k # ks) key_id i = (if opk_id k = key_id then Some i else first_slot ks key_id (Suc i))"

lemma opk_slot_eq: "opk_slot (Some (map Some ks)) key_id i (length ks - i) = Some (first_slot (drop i ks) key_id i)"
proof (induction "length ks - i" arbitrary: i)
  case 0
  then show ?case by simp
next
  case (Suc n)
  then have i: "i < length ks" by simp
  then have drop: "drop i ks = ks ! i # drop (Suc i) ks" by (simp add: Cons_nth_drop_Suc)
  have n: "length ks - Suc i = n" using Suc.hyps(2) by simp
  then have IH: "opk_slot (Some (map Some ks)) key_id (Suc i) n = Some (first_slot (drop (Suc i) ks) key_id (Suc i))"
    using Suc.hyps(1) [of "Suc i"] by simp
  then show ?case using i drop unfolding Suc.hyps(2) [symmetric] by (simp add: array_get_Some)
qed

lemma first_slot_SomeD:
  "first_slot ks key_id i = Some j \<Longrightarrow>
     i \<le> j \<and> j < i + length ks \<and> find (\<lambda>k. opk_id k = key_id) ks = Some (ks ! (j - i)) \<and> opk_id (ks ! (j - i)) = key_id \<and>
     (\<forall>l<j - i. opk_id (ks ! l) \<noteq> key_id)"
proof (induction ks key_id i rule: first_slot.induct)
  case (2 k ks key_id i)
  show ?case
  proof (cases "opk_id k = key_id")
    case False
    with 2 have "Suc i \<le> j" "j < Suc i + length ks" "find (\<lambda>k. opk_id k = key_id) ks = Some (ks ! (j - Suc i))"
      "opk_id (ks ! (j - Suc i)) = key_id" and before: "\<forall>l<j - Suc i. opk_id (ks ! l) \<noteq> key_id" by auto
    moreover have "(k # ks) ! (j - i) = ks ! (j - Suc i)"
      using \<open>Suc i \<le> j\<close> by (metis Suc_diff_Suc Suc_le_eq nth_Cons_Suc)
    moreover have "\<forall>l<j - i. opk_id ((k # ks) ! l) \<noteq> key_id"
      using before False \<open>Suc i \<le> j\<close> by (auto simp: nth_Cons split: nat.split)
    ultimately show ?thesis using False by simp
  qed (use 2 in auto)
qed simp

lemma first_slot_None: "first_slot ks key_id i = None \<longleftrightarrow> find (\<lambda>k. opk_id k = key_id) ks = None"
  by (induction ks key_id i rule: first_slot.induct) auto

lemma lookup_eq:
  assumes "holds_opks a ks"
  shows "lookup_one_time_pre_key (Some a) key_id = Some (find (\<lambda>k. opk_id k = key_id) ks)"
proof -
  have slot: "opk_slot (acc_one_time_pre_key_list a) key_id 0 (acc_n_one_time_pre_key_list a) =
      Some (first_slot ks key_id 0)"
    using assms opk_slot_eq [of ks key_id 0] by (simp add: holds_opks_def)
  show ?thesis
  proof (cases "first_slot ks key_id 0")
    case None
    then show ?thesis using assms slot first_slot_None [of ks key_id 0]
      by (simp add: lookup_one_time_pre_key_def holds_opks_def)
  next
    case (Some j)
    then show ?thesis using assms slot first_slot_SomeD [OF Some]
      by (simp add: lookup_one_time_pre_key_def holds_opks_def array_get_Some)
  qed
qed

text \<open>Marking a key: the first one with the id, nothing else.\<close>

fun use_first :: "one_time_pre_key list \<Rightarrow> u32 \<Rightarrow> one_time_pre_key list" where
  "use_first [] key_id = []"
| "use_first (k # ks) key_id = (if opk_id k = key_id then k\<lparr>opk_used := True\<rparr> # ks else k # use_first ks key_id)"

lemma use_first_update:
  "first_slot ks key_id i = Some j \<Longrightarrow> ks[j - i := (ks ! (j - i))\<lparr>opk_used := True\<rparr>] = use_first ks key_id"
proof (induction ks key_id i rule: first_slot.induct)
  case (2 k ks key_id i)
  show ?case
  proof (cases "opk_id k = key_id")
    case False
    with 2 have IH: "ks[j - Suc i := (ks ! (j - Suc i))\<lparr>opk_used := True\<rparr>] = use_first ks key_id"
      and j: "first_slot ks key_id (Suc i) = Some j" by auto
    have "j - i = Suc (j - Suc i)" using first_slot_SomeD [OF j] by auto
    then show ?thesis using IH False by simp
  qed (use 2 in auto)
qed simp

lemma find_use_first:
  "find (\<lambda>k. opk_id k = x) (use_first ks key_id) =
     map_option (\<lambda>k. if x = key_id then k\<lparr>opk_used := True\<rparr> else k) (find (\<lambda>k. opk_id k = x) ks)"
  by (induction ks key_id rule: use_first.induct) (auto simp: option.map_ident)

lemma mark_eq:
  assumes "holds_opks a ks"
  shows "mark_opk_as_used (Some a) key_id =
    Some (case find (\<lambda>k. opk_id k = key_id) ks of None \<Rightarrow> (- 1, a)
      | Some k \<Rightarrow> (sint key_id, a\<lparr>acc_one_time_pre_key_list := Some (map Some (use_first ks key_id))\<rparr>))"
proof -
  have slot: "opk_slot (acc_one_time_pre_key_list a) key_id 0 (acc_n_one_time_pre_key_list a) =
      Some (first_slot ks key_id 0)"
    using assms opk_slot_eq [of ks key_id 0] by (simp add: holds_opks_def)
  show ?thesis
  proof (cases "first_slot ks key_id 0")
    case None
    then show ?thesis using assms slot first_slot_None [of ks key_id 0]
      by (simp add: mark_opk_as_used_def holds_opks_def)
  next
    case (Some j)
    then show ?thesis using assms slot first_slot_SomeD [OF Some] use_first_update [OF Some]
      by (simp add: mark_opk_as_used_def holds_opks_def array_get_Some array_set_Some flip: map_update)
  qed
qed

lemma length_use_first [simp]: "length (use_first ks key_id) = length ks"
  by (induction ks key_id rule: use_first.induct) auto

lemma purge_loop_eq:
  "used_num \<le> 60 \<Longrightarrow> purge_loop (Some (map Some ks)) used_num i (length ks - i) =
     Some (take (60 - used_num) (map opk_id (filter opk_used (drop i ks))))"
proof (induction "length ks - i" arbitrary: i used_num)
  case 0
  then show ?case by simp
next
  case (Suc n)
  then have i: "i < length ks" by simp
  then have drop: "drop i ks = ks ! i # drop (Suc i) ks" by (simp add: Cons_nth_drop_Suc)
  have n: "n = length ks - Suc i" using Suc.hyps(2) by simp
  show ?case
  proof (cases "used_num < 60")
    case False
    then show ?thesis using Suc by (simp flip: Suc.hyps(2))
  next
    case True
    then obtain d where d: "60 - used_num = Suc d" "60 - Suc used_num = d" by (metis Suc_diff_Suc)
    show ?thesis using True i drop d Suc.hyps(1) [OF n, of used_num] Suc.hyps(1) [OF n, of "Suc used_num"]
      unfolding Suc.hyps(2) [symmetric] n [symmetric] by (simp add: array_get_Some)
  qed
qed

subsection \<open>Key generation over an accepted suite\<close>

text \<open>
  Documented behaviour of a PQClean signature scheme: key generation and signing return 0 and fill
  buffers of the announced sizes, a signature being at most as long as announced, and a signature
  under a generated secret key verifies under its public key.
\<close>

definition ds_documented :: "prims \<Rightarrow> ds_alg \<Rightarrow> bool" where
  "ds_documented P d \<longleftrightarrow>
     0 < pr_sign_pk_bytes P d \<and> 0 < pr_sign_sk_bytes P d \<and>
     (\<forall>s. case pr_sign_keypair P d s of (ret, pk, sk, s') \<Rightarrow>
        ret = 0 \<and> length pk = pr_sign_pk_bytes P d \<and> length sk = pr_sign_sk_bytes P d) \<and>
     (\<forall>s m sk. length sk = pr_sign_sk_bytes P d \<longrightarrow>
        (case pr_sign_signature P d s m (Some sk) of (ret, sig, s') \<Rightarrow>
           ret = 0 \<and> 0 < length sig \<and> length sig \<le> pr_sign_bytes P d)) \<and>
     (\<forall>s t m. case pr_sign_keypair P d s of (_, pk, sk, _) \<Rightarrow>
        (case pr_sign_signature P d t m (Some sk) of (_, sig, _) \<Rightarrow> pr_sign_verify P d sig m (Some pk) = 0))"

lemma suite_of_pqc:
  assumes "is_valid_e2ees_pack_id P raw" and "pack_kem raw = Some a" and "pack_ds raw = Some d" "d \<noteq> DS_CURVE25519"
  shows "suite_of P raw = \<lparr>cs_ds_suite = Some (E2EES_DS_PQC P d), cs_kem_suite = Some (E2EES_KEM_PQC P a),
    cs_se_suite = Some (E2EES_SE_AES256_SHA256 P), cs_hf_suite = Some (E2EES_HF_SHA256 P)\<rparr>"
  using assms unfolding valid_pack_iff
  by (auto simp: pack_ds_def pack_kem_def get_e2ees_pack_def Let_def get_cipher_suite_def get_ds_suite_def
      get_kem_suite_def get_se_suite_def get_hf_suite_def kem_suite_object_def ds_suite_object_def)

text \<open>A key pair as the generators fill it.\<close>

definition generated :: "nat \<Rightarrow> nat \<Rightarrow> key_pair \<Rightarrow> bool" where
  "generated pk_len sk_len k \<longleftrightarrow>
     (\<exists>pk sk. k = \<lparr>kpr_private_key = buf sk, kpr_public_key = buf pk\<rparr> \<and> length pk = pk_len \<and> length sk = sk_len \<and>
        pk \<noteq> [] \<and> sk \<noteq> [])"

lemma generated_valid:
  assumes "generated pk_len sk_len k"
  shows "is_valid_key_pair (Some k)" "wf_key_pair k" "accurate_key_pair (Some k) pk_len sk_len"
  using assms by (auto simp: generated_def is_valid_key_pair_def wf_key_pair_def accurate_key_pair_def)

lemma asym_key_gen_ok:
  assumes P: "prims_ok P" and raw: "is_valid_e2ees_pack_id P raw" and a: "pack_kem raw = Some a"
  obtains pub priv s' where "call_asym_key_gen (suite_of P raw) s = Some (0, pub, priv, s')"
    "generated (pr_kem_pk_bytes P a) (pr_kem_sk_bytes P a) \<lparr>kpr_private_key = priv, kpr_public_key = pub\<rparr>"
proof -
  obtain d where a': "a \<noteq> KEM_CURVE25519_ECDH" and cs: "suite_of P raw = \<lparr>cs_ds_suite = Some (ds_suite_object P d),
       cs_kem_suite = Some (E2EES_KEM_PQC P a), cs_se_suite = Some (E2EES_SE_AES256_SHA256 P),
       cs_hf_suite = Some (E2EES_HF_SHA256 P)\<rparr>"
    using suite_of_valid [OF raw] a by auto
  have k: "kem_documented P a" using P a' by (simp add: prims_ok_def)
  obtain r pk sk s' where g: "pr_kem_keypair P a s = (r, pk, sk, s')" by (metis prod_cases4)
  then have "r = 0" "length pk = pr_kem_pk_bytes P a" "length sk = pr_kem_sk_bytes P a"
      "0 < pr_kem_pk_bytes P a" "0 < pr_kem_sk_bytes P a"
    using k by (auto simp: kem_documented_def dest!: spec [of _ s])
  then show ?thesis using g cs
    by (intro that [of "buf pk" "buf sk" s'])
      (auto simp: call_asym_key_gen_def E2EES_KEM_PQC_def crypto_kem_asym_key_gen_pqc_def generated_def)
qed

lemma opks_loop_ok:
  assumes P: "prims_ok P" and raw: "is_valid_e2ees_pack_id P raw" and a: "pack_kem raw = Some a"
    and kem: "kp_asym_pub_key_len kem = pr_kem_pk_bytes P a" "kp_asym_priv_key_len kem = pr_kem_sk_bytes P a"
  shows "\<exists>ks s'. generate_opks_loop (suite_of P raw) kem c i n s = Some (0, map Some ks, s') \<and>
    map opk_id ks = map (\<lambda>j. c + of_nat j) [i..<i + n] \<and>
    (\<forall>k\<in>set ks. \<not> opk_used k \<and> set_ptr (generated (pr_kem_pk_bytes P a) (pr_kem_sk_bytes P a)) (opk_key_pair k))"
proof (induction n arbitrary: i s)
  case 0
  show ?case by simp
next
  case (Suc n)
  obtain pub priv s1 where gen: "call_asym_key_gen (suite_of P raw) s = Some (0, pub, priv, s1)"
      "generated (pr_kem_pk_bytes P a) (pr_kem_sk_bytes P a) \<lparr>kpr_private_key = priv, kpr_public_key = pub\<rparr>"
    by (rule asym_key_gen_ok [OF P raw a])
  obtain ks s' where IH: "generate_opks_loop (suite_of P raw) kem c (Suc i) n s1 = Some (0, map Some ks, s')"
      "map opk_id ks = map (\<lambda>j. c + of_nat j) [Suc i..<Suc i + n]"
      "\<forall>k\<in>set ks. \<not> opk_used k \<and> set_ptr (generated (pr_kem_pk_bytes P a) (pr_kem_sk_bytes P a)) (opk_key_pair k)"
    using Suc.IH [of "Suc i" s1] by blast
  define k where "k = \<lparr>opk_id = c + of_nat i, opk_used = False,
      opk_key_pair = Some \<lparr>kpr_private_key = priv, kpr_public_key = pub\<rparr>\<rparr>"
  have "[i..<i + Suc n] = i # [Suc i..<Suc i + n]" by (simp add: upt_conv_Cons del: upt_Suc)
  then have ids: "map opk_id (k # ks) = map (\<lambda>j. c + of_nat j) [i..<i + Suc n]"
    using IH(2) by (simp add: k_def del: upt_Suc)
  have "generate_opks_loop (suite_of P raw) kem c i (Suc n) s = Some (0, map Some (k # ks), s')"
    using gen IH(1) generated_valid [OF gen(2)] by (simp add: kem kp_copy.copy_id k_def)
  moreover have "\<forall>k\<in>set (k # ks). \<not> opk_used k \<and> set_ptr (generated (pr_kem_pk_bytes P a) (pr_kem_sk_bytes P a)) (opk_key_pair k)"
    using IH(3) gen(2) by (simp add: k_def)
  ultimately show ?case using ids by blast
qed

lemma valid_suite: "is_valid_e2ees_pack_id P raw \<Longrightarrow> is_valid_cipher_suite (Some (suite_of P raw))"
  by (simp add: is_valid_e2ees_pack_id_def)

lemma identity_key_ok:
  assumes P: "prims_ok P" and raw: "is_valid_e2ees_pack_id P raw" and a: "pack_kem raw = Some a"
    and d: "pack_ds raw = Some d" "d \<noteq> DS_CURVE25519" "ds_documented P d"
  obtains asym t ret pk sk t' s' where
    "generate_identity_key P raw s = Some (0, Some \<lparr>ik_asym_key_pair = Some asym, ik_sign_key_pair =
       Some \<lparr>kpr_private_key = buf sk, kpr_public_key = buf pk\<rparr>\<rparr>, s')"
    "generated (pr_kem_pk_bytes P a) (pr_kem_sk_bytes P a) asym" "pr_sign_keypair P d t = (ret, pk, sk, t')"
    "length pk = pr_sign_pk_bytes P d" "length sk = pr_sign_sk_bytes P d" "pk \<noteq> []" "sk \<noteq> []"
proof -
  note cs = suite_of_pqc [OF raw a d(1,2)]
  obtain pub priv s1 where gen: "call_asym_key_gen (suite_of P raw) s = Some (0, pub, priv, s1)"
      "generated (pr_kem_pk_bytes P a) (pr_kem_sk_bytes P a) \<lparr>kpr_private_key = priv, kpr_public_key = pub\<rparr>"
    by (rule asym_key_gen_ok [OF P raw a])
  obtain r pk sk s2 where kp: "pr_sign_keypair P d s1 = (r, pk, sk, s2)" by (metis prod_cases4)
  then have len: "r = 0" "length pk = pr_sign_pk_bytes P d" "length sk = pr_sign_sk_bytes P d"
      "0 < pr_sign_pk_bytes P d" "0 < pr_sign_sk_bytes P d"
    using d(3) by (auto simp: ds_documented_def dest!: spec [of _ s1])
  then have ds: "call_ds_key_gen (suite_of P raw) s1 = Some (0, buf pk, buf sk, s2)"
    using kp by (simp add: cs call_ds_key_gen_def E2EES_DS_PQC_def crypto_ds_key_gen_pqc_def)
  have "generate_identity_key P raw s = Some (0, Some \<lparr>ik_asym_key_pair = Some \<lparr>kpr_private_key = priv, kpr_public_key = pub\<rparr>,
      ik_sign_key_pair = Some \<lparr>kpr_private_key = buf sk, kpr_public_key = buf pk\<rparr>\<rparr>, s2)"
    using gen(1) ds len generated_valid(3) [OF gen(2)] valid_suite [OF raw]
    by (simp add: generate_identity_key_def Let_def kem_param_def ds_param_def cs E2EES_DS_PQC_def E2EES_KEM_PQC_def
        crypto_kem_params_pqc_def crypto_ds_params_pqc_def accurate_key_pair_def)
  then show ?thesis using gen(2) kp len by (intro that) auto
qed

text \<open>What is known of the signed pre-key: the id, the key pair, the expiry and the signature.\<close>

definition good_spk :: "prims \<Rightarrow> u32 \<Rightarrow> bytes \<Rightarrow> u32 \<Rightarrow> int \<Rightarrow> signed_pre_key \<Rightarrow> bool" where
  "good_spk P raw pk cur_spk_id now k \<longleftrightarrow>
     spk_id k = cur_spk_id + 1 \<and> spk_ttl k = now + 604800000 \<and> is_valid_signed_pre_key (Some k) \<and>
     (\<exists>pub sig. map_option kpr_public_key (spk_key_pair k) = Some (buf pub) \<and> spk_signature k = buf sig \<and>
        call_verify (suite_of P raw) sig pub (Some pk) = Some 0)"

lemma signed_pre_key_ok:
  assumes P: "prims_ok P" and raw: "is_valid_e2ees_pack_id P raw" and a: "pack_kem raw = Some a"
    and d: "pack_ds raw = Some d" "d \<noteq> DS_CURVE25519" "ds_documented P d"
    and pair: "pr_sign_keypair P d t = (ret, pk, sk, t')"
  obtains spk s' where "generate_signed_pre_key P raw c (Some sk) now s = Some (0, Some spk, s')"
    "good_spk P raw pk c now spk"
proof -
  note cs = suite_of_pqc [OF raw a d(1,2)]
  obtain pub priv s1 where gen: "call_asym_key_gen (suite_of P raw) s = Some (0, pub, priv, s1)"
      "generated (pr_kem_pk_bytes P a) (pr_kem_sk_bytes P a) \<lparr>kpr_private_key = priv, kpr_public_key = pub\<rparr>"
    by (rule asym_key_gen_ok [OF P raw a])
  obtain m where m: "pub = buf m" "length m = pr_kem_pk_bytes P a" using gen(2) by (auto simp: generated_def)
  obtain r sig s2 where sign: "pr_sign_signature P d s1 m (Some sk) = (r, sig, s2)" by (metis prod_cases3)
  have sk: "length sk = pr_sign_sk_bytes P d"
    using d(3) pair by (auto simp: ds_documented_def dest!: spec [of _ t])
  have sig: "r = 0" "0 < length sig" "length sig \<le> pr_sign_bytes P d" and verify: "pr_sign_verify P d sig m (Some pk) = 0"
    using d(3) sk sign pair unfolding ds_documented_def by (metis (mono_tags, lifting) case_prod_conv)+
  have read: "read_bytes (pb_data pub) (pr_kem_pk_bytes P a) = Some m"
    using m by (simp add: read_bytes_def buf_def)
  let ?k = "\<lparr>kpr_private_key = priv, kpr_public_key = pub\<rparr>"
  let ?spk = "\<lparr>spk_id = c + 1, spk_key_pair = Some ?k, spk_signature = buf sig, spk_ttl = now + 604800000\<rparr>"
  have signed: "call_sign (suite_of P raw) s1 m (Some sk) = Some (0, sig, s2)"
    using sign sig(1) by (simp add: cs call_sign_def E2EES_DS_PQC_def)
  have written: "write_buf (replicate (pr_sign_bytes P d) 0) sig = Some (sig @ replicate (pr_sign_bytes P d - length sig) 0)"
    using sig(3) by (simp add: write_buf_def)
  have "generate_signed_pre_key P raw c (Some sk) now s = Some (0, Some ?spk, s2)"
    using gen(1) generated_valid(3) [OF gen(2)] valid_suite [OF raw] read signed written sig(3)
    by (simp add: generate_signed_pre_key_def Let_def kem_param_def ds_param_def cs E2EES_DS_PQC_def E2EES_KEM_PQC_def
        crypto_kem_params_pqc_def crypto_ds_params_pqc_def copy_protobuf_from_array_def read_bytes_def buf_def)
  moreover have "good_spk P raw pk c now ?spk"
    using m(1) verify sig(2) generated_valid(1) [OF gen(2)]
    by (auto simp: good_spk_def is_valid_signed_pre_key_def call_verify_def cs E2EES_DS_PQC_def is_valid_protobuf_def)
  ultimately show ?thesis by (rule that)
qed

lemma generate_opks_ok:
  assumes P: "prims_ok P" and raw: "is_valid_e2ees_pack_id P raw" and a: "pack_kem raw = Some a"
  shows "\<exists>ks s'. generate_opks P n raw c s = Some (0, Some (map Some ks), s') \<and>
    map opk_id ks = map (\<lambda>j. c + of_nat j) [0..<n] \<and>
    (\<forall>k\<in>set ks. \<not> opk_used k \<and> set_ptr (generated (pr_kem_pk_bytes P a) (pr_kem_sk_bytes P a)) (opk_key_pair k))"
proof -
  obtain d where cs: "suite_of P raw = \<lparr>cs_ds_suite = Some (ds_suite_object P d),
       cs_kem_suite = Some (E2EES_KEM_PQC P a), cs_se_suite = Some (E2EES_SE_AES256_SHA256 P),
       cs_hf_suite = Some (E2EES_HF_SHA256 P)\<rparr>"
    using suite_of_valid [OF raw] a by auto
  have kem: "kem_param (suite_of P raw) = Some (crypto_kem_params_pqc P a)"
    by (simp add: kem_param_def cs E2EES_KEM_PQC_def)
  show ?thesis
    using opks_loop_ok [OF P raw a, of "crypto_kem_params_pqc P a" c 0 n s] valid_suite [OF raw] kem
    by (auto simp: generate_opks_def Let_def crypto_kem_params_pqc_def)
qed

lemma valid_opks:
  assumes "ks \<noteq> []" and "\<forall>k\<in>set ks. set_ptr (generated pk_len sk_len) (opk_key_pair k)"
  shows "is_valid_one_time_pre_key_list (Some (map Some ks)) (length ks) = Some True"
  using assms
  by (auto simp: is_valid_one_time_pre_key_list_def valid_array_eq list_all_iff is_valid_one_time_pre_key_def
      generated_valid(1) elim!: set_ptrE)

lemma first_opks:
  assumes "acc_one_time_pre_key_list a = None" "acc_n_one_time_pre_key_list a = 0" and "length ks < 2 ^ 64" "ks \<noteq> []"
  shows "insert_opks a (Some (map Some ks)) (length ks) = Some (0, a\<lparr>acc_one_time_pre_key_list := Some (map Some ks),
    acc_n_one_time_pre_key_list := length ks, acc_next_one_time_pre_key_id := opk_id (last ks) + 1\<rparr>)"
proof -
  have "last_slot (length ks) = length ks - 1" using assms(3,4) by (cases ks) (auto simp: last_slot_def)
  then show ?thesis using assms
    by (simp add: insert_opks_def is_valid_one_time_pre_key_list_def valid_array_NULL array_get_Some last_conv_nth)
qed

lemma create_account_ok:
  assumes P: "prims_ok P" and raw: "is_valid_e2ees_pack_id P raw" and a: "pack_kem raw = Some a"
    and d: "pack_ds raw = Some d" "d \<noteq> DS_CURVE25519" "ds_documented P d"
    and D: "is_invalid_string (gd_string D)"
  shows "\<exists>acc ks spk pk s'. create_account P D raw now s = Some (0, Some acc, s') \<and>
    is_valid_unregistered_account P (Some acc) = Some True \<and> acc_e2ees_pack_id acc = raw \<and>
    holds_opks acc ks \<and> map opk_id ks = map of_nat [1..<101] \<and> (\<forall>k\<in>set ks. \<not> opk_used k) \<and>
    acc_next_one_time_pre_key_id acc = 101 \<and> acc_signed_pre_key acc = Some spk \<and>
    map_option (map_option kpr_public_key \<circ> ik_sign_key_pair) (acc_identity_key acc) = Some (Some (buf pk)) \<and>
    good_spk P raw pk 0 now spk \<and> set_ptr wf_identity_key (acc_identity_key acc) \<and>
    (\<forall>k\<in>set ks. set_ptr wf_key_pair (opk_key_pair k)) \<and> acc_version acc = Some E2EES_PROTOCOL_VERSION"
proof -
  obtain asym t ret pk sk t' s1 where ik: "generate_identity_key P raw s = Some (0, Some \<lparr>ik_asym_key_pair = Some asym,
       ik_sign_key_pair = Some \<lparr>kpr_private_key = buf sk, kpr_public_key = buf pk\<rparr>\<rparr>, s1)"
    "generated (pr_kem_pk_bytes P a) (pr_kem_sk_bytes P a) asym" "pr_sign_keypair P d t = (ret, pk, sk, t')"
    "pk \<noteq> []" "sk \<noteq> []"
    by (rule identity_key_ok [OF P raw a d])
  obtain spk s2 where spk: "generate_signed_pre_key P raw 0 (Some sk) now s1 = Some (0, Some spk, s2)"
    "good_spk P raw pk 0 now spk" by (rule signed_pre_key_ok [OF P raw a d ik(3)])
  obtain ks s3 where ks: "generate_opks P 100 raw 1 s2 = Some (0, Some (map Some ks), s3)"
    "map opk_id ks = map (\<lambda>j. 1 + of_nat j) [0..<100]"
    "\<forall>k\<in>set ks. \<not> opk_used k \<and> set_ptr (generated (pr_kem_pk_bytes P a) (pr_kem_sk_bytes P a)) (opk_key_pair k)"
    using generate_opks_ok [OF P raw a] by blast
  have "[1..<101] = map Suc [0..<100]" by (simp add: map_Suc_upt del: upt_rec_numeral)
  then have ids: "map opk_id ks = map of_nat [1..<101]" using ks(2) by (simp add: comp_def del: upt_rec_numeral)
  have len: "length ks = 100" using arg_cong [OF ids, of length] by (simp del: upt_rec_numeral)
  then have nonempty: "ks \<noteq> []" by auto
  have "opk_id (last ks) = last (map opk_id ks)" using nonempty by (simp add: last_map)
  also have "\<dots> = 100" unfolding ids by (simp add: last_map del: upt_rec_numeral)
  finally have last: "opk_id (last ks) + 1 = 101" by simp
  define acc0 where "acc0 = (init_account D)\<lparr>acc_version := Some E2EES_PROTOCOL_VERSION, acc_e2ees_pack_id := raw,
      acc_identity_key := Some \<lparr>ik_asym_key_pair = Some asym,
        ik_sign_key_pair = Some \<lparr>kpr_private_key = buf sk, kpr_public_key = buf pk\<rparr>\<rparr>, acc_signed_pre_key := Some spk\<rparr>"
  define acc where "acc = acc0\<lparr>acc_one_time_pre_key_list := Some (map Some ks), acc_n_one_time_pre_key_list := 100,
      acc_next_one_time_pre_key_id := 101\<rparr>"
  have ins: "insert_opks acc0 (Some (map Some ks)) 100 = Some (0, acc)"
    using first_opks [of acc0 ks] nonempty len last by (simp add: acc_def acc0_def init_account_def)
  have "create_account P D raw now s = Some (0, Some acc, s3)"
    using valid_suite [OF raw] ik(1) spk(1) ks(1) ins by (simp add: create_account_def acc0_def buf_def)
  moreover have "is_valid_unregistered_account P (Some acc) = Some True"
    using raw D ik(2,4,5) spk(2) valid_opks [OF nonempty, of "pr_kem_pk_bytes P a" "pr_kem_sk_bytes P a"] ks(3) len
      generated_valid(1) [OF ik(2)]
    by (simp add: is_valid_unregistered_account_def acc_def acc0_def init_account_def is_valid_identity_key_def
        is_valid_key_pair_def is_valid_protobuf_def good_spk_def and_then_def is_invalid_address_def buf_def)
  moreover have "set_ptr wf_identity_key (acc_identity_key acc)"
    using generated_valid(2) [OF ik(2)] ik(4,5) by (simp add: acc_def acc0_def wf_identity_key_def wf_key_pair_def)
  moreover have "\<forall>k\<in>set ks. set_ptr wf_key_pair (opk_key_pair k)"
    using ks(3) generated_valid(2) by (auto elim!: set_ptrE)
  ultimately show ?thesis using ids len ks(3) spk(2)
    by (intro exI [of _ acc] exI [of _ ks] exI [of _ spk] exI [of _ pk] exI [of _ s3])
      (auto simp: acc_def acc0_def holds_opks_def init_account_def simp del: upt_rec_numeral)
qed

lemma ids_use_first [simp]: "map opk_id (use_first ks key_id) = map opk_id ks"
  by (induction ks key_id rule: use_first.induct) auto

lemma mark_refines:
  assumes "holds_opks a ks"
  shows "\<exists>ret a' ks'. mark_opk_as_used (Some a) key_id = Some (ret, a') \<and> holds_opks a' ks' \<and>
      map opk_id ks' = map opk_id ks \<and> ret = (if key_id \<in> opk_id ` set ks then sint key_id else - 1) \<and>
      lookup_one_time_pre_key (Some a') x =
        map_option (map_option (\<lambda>k. if x = key_id then k\<lparr>opk_used := True\<rparr> else k)) (lookup_one_time_pre_key (Some a) x)"
proof (cases "find (\<lambda>k. opk_id k = key_id) ks")
  case None
  then have "key_id \<notin> opk_id ` set ks" by (auto simp: find_None_iff)
  moreover have "find (\<lambda>k. opk_id k = x) ks = map_option (\<lambda>k. if x = key_id then k\<lparr>opk_used := True\<rparr> else k)
      (find (\<lambda>k. opk_id k = x) ks)"
    using None by (cases "x = key_id"; cases "find (\<lambda>k. opk_id k = x) ks") simp_all
  ultimately show ?thesis using mark_eq [OF assms, of key_id] None lookup_eq [OF assms, of x] assms by auto
next
  case (Some k)
  let ?a = "a\<lparr>acc_one_time_pre_key_list := Some (map Some (use_first ks key_id))\<rparr>"
  have a': "holds_opks ?a (use_first ks key_id)" using assms by (simp add: holds_opks_def)
  have "key_id \<in> opk_id ` set ks" using Some by (auto simp: find_Some_iff)
  then show ?thesis
    using mark_eq [OF assms, of key_id] Some lookup_eq [OF assms, of x] a' lookup_eq [OF a', of x] find_use_first [of x ks key_id]
    by auto
qed

subsection \<open>The start\<close>

text \<open>
  The accounts among the loaded ones that the validator accepts, and what a load must satisfy: the
  validator reads inside the loaded arrays, and an accepted account is well-formed.
\<close>

fun registered :: "prims \<Rightarrow> account ptr list \<Rightarrow> account list" where
  "registered P [] = []"
| "registered P (x # xs) =
     (case x of None \<Rightarrow> registered P xs
      | Some a \<Rightarrow> if is_valid_registered_account P x = Some True then a # registered P xs else registered P xs)"

definition first_registered :: "prims \<Rightarrow> account ptr list \<Rightarrow> address \<Rightarrow> account option" where
  "first_registered P accounts a = find (\<lambda>x. address_id (the (acc_address x)) = address_id a) (registered P accounts)"

definition loadable :: "prims \<Rightarrow> gen_defaults \<Rightarrow> account ptr \<Rightarrow> bool" where
  "loadable P D x \<longleftrightarrow> (\<exists>b. is_valid_registered_account P x = Some b) \<and>
     (case x of None \<Rightarrow> True | Some a \<Rightarrow> is_valid_registered_account P x = Some True \<longrightarrow> storable_account D a)"

lemma account_begin_stores:
  assumes "list_all (loadable P D) accounts"
  shows "account_begin_loop P D (\<lambda>_. True) accounts i cache = account_cache.store_all D cache (registered P accounts)"
  using assms
proof (induction accounts arbitrary: i cache)
  case (Cons x xs)
  then obtain b where b: "is_valid_registered_account P x = Some b" by (auto simp: loadable_def)
  show ?case
  proof (cases x)
    case None
    then show ?thesis using Cons b by (simp add: is_valid_registered_account_def)
  next
    case (Some a)
    have "account_begin_loop P D (\<lambda>_. True) xs (Suc i) = (\<lambda>c. account_cache.store_all D c (registered P xs))"
      using Cons by (intro ext) simp
    then show ?thesis using Cons Some b by (cases b) simp_all
  qed
qed simp

lemma registered_storable:
  assumes "list_all (loadable P D) accounts"
  shows "\<forall>x\<in>set (registered P accounts). storable_account D x"
  using assms by (induction accounts) (auto simp: loadable_def split: option.splits)

lemma account_begin_cache:
  assumes "list_all (loadable P D) accounts"
  obtains cache where "account_begin P D (\<lambda>_. True) accounts [] = Some cache" "wf_cache D cache"
    "\<And>a. wf_peer a \<Longrightarrow> find_account_in_cache cache (Some a) = Some (map_option cache_entry (first_registered P accounts a))"
proof -
  have empty: "wf_cache D []" by (simp add: wf_cache_def)
  note all = account_cache.lookup_store_all [OF empty registered_storable [OF assms]]
  have "wf_peer \<lparr>ad_domain = None, ad_peer_case = PEER_USER,
      ad_user = Some \<lparr>pu_user_name = None, pu_user_id = None, pu_device_id = None\<rparr>, ad_group = None\<rparr>"
    by (simp add: wf_peer_def)
  from all [OF this] obtain cache where cache: "account_cache.store_all D [] (registered P accounts) = Some cache"
    "wf_cache D cache" by blast
  show ?thesis
  proof (rule that [OF _ cache(2)])
    show "account_begin P D (\<lambda>_. True) accounts [] = Some cache"
      using cache(1) by (simp add: account_begin_def account_begin_stores [OF assms])
    show "find_account_in_cache cache (Some a) = Some (map_option cache_entry (first_registered P accounts a))"
      if "wf_peer a" for a
      using all [OF that] cache(1) by (simp add: first_registered_def)
  qed
qed

lemma load_from_entry:
  assumes "find_account_in_cache cache (Some a) = Some (map_option cache_entry e)"
    and "case e of None \<Rightarrow> True | Some x \<Rightarrow> storable_account D x"
  shows "load_version_from_cache cache (Some a) = Some (case e of None \<Rightarrow> None | Some x \<Rightarrow> acc_version x)"
    "load_e2ees_pack_id_from_cache cache (Some a) = Some (case e of None \<Rightarrow> 0 | Some x \<Rightarrow> acc_e2ees_pack_id x)"
    "load_identity_key_from_cache cache (Some a) = Some (case e of None \<Rightarrow> None | Some x \<Rightarrow> acc_identity_key x)"
    "load_server_public_key_from_cache cache (Some a) = Some (case e of None \<Rightarrow> empty_bdata | Some x \<Rightarrow> server_key x)"
  using assms
  by (cases e; auto simp: load_version_from_cache_def load_e2ees_pack_id_from_cache_def load_identity_key_from_cache_def
      load_server_public_key_from_cache_def cache_entry_def storable_account_def ik_copy.copy_id copy_simps
      elim!: set_ptrE)+

end
