(* ===== verification/Account_Props.thy ===== *)
theory Account_Props
  imports Account
begin

section \<open>Properties of accounts and their cache\<close>

text \<open>
  What \<open>create_account\<close> returns, how one-time pre-keys are looked up, used and purged, what happens
  when new ones are added to an account that has some, and what the cache answers after the start.
\<close>

subsection \<open>A new account\<close>

lemma demo_ds: "pack_ds E2EES_PACK_ID_DEFAULT = Some DS_MLDSA87" "DS_MLDSA87 \<noteq> DS_CURVE25519" "ds_documented demo_prims d"
  by (auto simp: pack_ds_def raw_to_e2ees_pack_id_def ds_table_def ds_documented_def demo_prims_def)

text \<open>
  C22: over a suite with a post-quantum signature scheme \<open>create_account\<close> succeeds and its account
  passes \<open>is_valid_unregistered_account\<close>: it has the pack id, one hundred unused one-time pre-keys
  numbered from 1 to 100, the next number 101 and a signed pre-key number 1 that expires after seven
  days and whose signature verifies under the identity key of the account.
\<close>

theorem create_account_correct:
  assumes P: "prims_ok P" and raw: "is_valid_e2ees_pack_id P raw" and a: "pack_kem raw = Some a"
    and d: "pack_ds raw = Some d" "d \<noteq> DS_CURVE25519" "ds_documented P d"
    and D: "is_invalid_string (gd_string D)"
  shows "\<exists>acc ks spk pk s'. create_account P D raw now s = Some (0, Some acc, s') \<and>
    is_valid_unregistered_account P (Some acc) = Some True \<and> acc_e2ees_pack_id acc = raw \<and>
    holds_opks acc ks \<and> map opk_id ks = map of_nat [1..<101] \<and> (\<forall>k\<in>set ks. \<not> opk_used k) \<and>
    acc_next_one_time_pre_key_id acc = 101 \<and> acc_signed_pre_key acc = Some spk \<and>
    map_option (map_option kpr_public_key \<circ> ik_sign_key_pair) (acc_identity_key acc) = Some (Some (buf pk)) \<and>
    good_spk P raw pk 0 now spk"
  using create_account_ok [OF assms, of now s] by blast

theorem create_account_correct_witness:
  "\<exists>acc ks spk pk s'. create_account demo_prims \<lparr>gd_string = Some [], gd_role = GROUP_ROLE_MEMBER, gd_notif_level_normal = 0, gd_notif_level_session = 1\<rparr> 0x113101 5 0 = Some (0, Some acc, s') \<and>
    is_valid_unregistered_account demo_prims (Some acc) = Some True \<and> acc_e2ees_pack_id acc = 0x113101 \<and>
    holds_opks acc ks \<and> map opk_id ks = map of_nat [1..<101] \<and> (\<forall>k\<in>set ks. \<not> opk_used k) \<and>
    acc_next_one_time_pre_key_id acc = 101 \<and> acc_signed_pre_key acc = Some spk \<and>
    map_option (map_option kpr_public_key \<circ> ik_sign_key_pair) (acc_identity_key acc) = Some (Some (buf pk)) \<and>
    good_spk demo_prims 0x113101 pk 0 5 spk"
  by (rule create_account_correct [OF demo_prims_ok demo_pack demo_ds]) (simp add: is_invalid_string_def)

subsection \<open>One-time pre-keys\<close>

text \<open>
  C21: an account that holds the keys \<open>ks\<close> is, for lookups, the map from ids to the first key with
  the id.  Marking an id as used returns the id (read as a signed integer) and updates that map at
  the id, the key being marked used; an unknown id is answered by -1 and changes nothing.
\<close>

theorem opk_store_refines_map:
  assumes "holds_opks a ks"
  shows "lookup_one_time_pre_key (Some a) x = Some (find (\<lambda>k. opk_id k = x) ks) \<and>
    (\<exists>ret a' ks'. mark_opk_as_used (Some a) key_id = Some (ret, a') \<and> holds_opks a' ks' \<and>
      map opk_id ks' = map opk_id ks \<and> ret = (if key_id \<in> opk_id ` set ks then sint key_id else - 1) \<and>
      lookup_one_time_pre_key (Some a') x =
        map_option (map_option (\<lambda>k. if x = key_id then k\<lparr>opk_used := True\<rparr> else k)) (lookup_one_time_pre_key (Some a) x))"
  using lookup_eq [OF assms] mark_refines [OF assms] by blast

definition demo_opks :: "one_time_pre_key list" where
  "demo_opks = [\<lparr>opk_id = 1, opk_used = True, opk_key_pair = None\<rparr>, \<lparr>opk_id = 2, opk_used = False, opk_key_pair = None\<rparr>]"

definition demo_account :: account where
  "demo_account = (init_account \<lparr>gd_string = Some [], gd_role = GROUP_ROLE_MEMBER, gd_notif_level_normal = 0, gd_notif_level_session = 1\<rparr>)
     \<lparr>acc_one_time_pre_key_list := Some (map Some demo_opks), acc_n_one_time_pre_key_list := 2\<rparr>"

definition demo_key :: one_time_pre_key where
  "demo_key = \<lparr>opk_id = 3, opk_used = False,
     opk_key_pair = Some \<lparr>kpr_private_key = buf [1], kpr_public_key = buf [2]\<rparr>\<rparr>"

lemma demo_account_holds: "holds_opks demo_account demo_opks"
  by (simp add: demo_account_def demo_opks_def holds_opks_def)

theorem opk_store_refines_map_witness:
  "\<exists>ret a'. mark_opk_as_used (Some demo_account) 2 = Some (ret, a') \<and> ret = 2 \<and>
    lookup_one_time_pre_key (Some a') 2 = Some (Some \<lparr>opk_id = 2, opk_used = True, opk_key_pair = None\<rparr>)"
  using opk_store_refines_map [OF demo_account_holds, of 2 2]
  by (auto simp: demo_opks_def)

text \<open>
  A purge removes from the database the ids of the used keys in the order of the list, at most
  sixty of them, and no other.
\<close>

lemma purge_removes_first_used:
  assumes "holds_opks a ks"
  shows "purge_one_time_pre_key (Some a) = Some (take 60 (map opk_id (filter opk_used ks)))"
  using assms purge_loop_eq [of 0 ks 0] by (simp add: purge_one_time_pre_key_def holds_opks_def)

lemma purge_removes_first_used_witness:
  "purge_one_time_pre_key (Some demo_account) = Some [1]"
  using purge_removes_first_used [OF demo_account_holds] by (simp add: demo_opks_def)

text \<open>
  When the account already has one-time pre-keys, adding new ones never returns: the code has
  released \<open>src\<close> and set it to NULL when it reads the id of its last key.
\<close>

lemma insert_opks_crashes:
  assumes "is_valid_one_time_pre_key_list (acc_one_time_pre_key_list a) (acc_n_one_time_pre_key_list a) = Some True"
    and "acc_n_one_time_pre_key_list a \<noteq> 0" and "0 < src_num"
  shows "insert_opks a src src_num = None"
  using assms
  by (cases "copy_opks_from_opks (acc_one_time_pre_key_list a) (acc_n_one_time_pre_key_list a)";
      cases "copy_opks_from_opks src src_num") (auto simp: insert_opks_def free_mem_def array_get_def)

lemma insert_opks_crashes_witness:
  "insert_opks (demo_account\<lparr>acc_one_time_pre_key_list := Some [Some demo_key], acc_n_one_time_pre_key_list := 1\<rparr>)
    (Some [Some demo_key]) 1 = None"
  by (rule insert_opks_crashes)
    (simp_all add: demo_key_def is_valid_one_time_pre_key_list_def valid_array_eq is_valid_one_time_pre_key_def
      is_valid_key_pair_def is_valid_protobuf_def)

subsection \<open>The cache after the start\<close>

text \<open>
  After \<open>account_begin\<close> on an empty cache the four lookups answer, for any user or group
  address, with the data of the first loaded account under that address which the validator accepted
  as registered, and with nothing when there is none.
\<close>

lemma cache_after_start:
  assumes "list_all (loadable P D) accounts"
  shows "\<exists>cache. account_begin P D (\<lambda>_. True) accounts [] = Some cache \<and>
    (\<forall>a. wf_peer a \<longrightarrow>
      load_version_from_cache cache (Some a) =
        Some (case first_registered P accounts a of None \<Rightarrow> None | Some x \<Rightarrow> acc_version x) \<and>
      load_e2ees_pack_id_from_cache cache (Some a) =
        Some (case first_registered P accounts a of None \<Rightarrow> 0 | Some x \<Rightarrow> acc_e2ees_pack_id x) \<and>
      load_identity_key_from_cache cache (Some a) =
        Some (case first_registered P accounts a of None \<Rightarrow> None | Some x \<Rightarrow> acc_identity_key x) \<and>
      load_server_public_key_from_cache cache (Some a) =
        Some (case first_registered P accounts a of None \<Rightarrow> empty_bdata | Some x \<Rightarrow> server_key x))"
proof -
  obtain cache where cache: "account_begin P D (\<lambda>_. True) accounts [] = Some cache"
    "\<And>a. wf_peer a \<Longrightarrow> find_account_in_cache cache (Some a) = Some (map_option cache_entry (first_registered P accounts a))"
    using account_begin_cache [OF assms] by metis
  have ok: "case first_registered P accounts a of None \<Rightarrow> True | Some x \<Rightarrow> storable_account D x" for a
    using registered_storable [OF assms] by (auto simp: first_registered_def find_Some_iff split: option.split)
  show ?thesis
    by (intro exI [of _ cache] conjI allI impI cache(1) load_from_entry [OF cache(2) ok])
qed

definition demo_registered :: "u32 \<Rightarrow> account" where
  "demo_registered raw = demo_account\<lparr>acc_e2ees_pack_id := raw, acc_version := Some ''1'', acc_password := Some ''p'',
     acc_auth := Some ''a'',
     acc_address := Some \<lparr>ad_domain = Some ''d'', ad_peer_case = PEER_USER, ad_user = Some
       \<lparr>pu_user_name = Some ''n'', pu_user_id = Some ''u'', pu_device_id = Some ''v''\<rparr>, ad_group = None\<rparr>,
     acc_identity_key := Some \<lparr>ik_asym_key_pair = opk_key_pair demo_key, ik_sign_key_pair = opk_key_pair demo_key\<rparr>,
     acc_signed_pre_key := Some \<lparr>spk_id = 1, spk_key_pair = opk_key_pair demo_key, spk_signature = buf [1], spk_ttl = 9\<rparr>,
     acc_one_time_pre_key_list := None, acc_n_one_time_pre_key_list := 0\<rparr>"

lemmas demo_registered_simps = demo_registered_def demo_key_def demo_account_def init_account_def
  is_valid_registered_account_def is_valid_address_def is_valid_identity_key_def is_valid_signed_pre_key_def
  is_valid_key_pair_def is_valid_protobuf_def is_valid_one_time_pre_key_list_def valid_array_NULL and_then_def
  is_valid_string_def

lemma loadable_NULL: "loadable P D None"
  unfolding loadable_def by (intro conjI exI [of _ False]) (simp_all add: is_valid_registered_account_def)

lemma demo_registered_valid:
  assumes "is_valid_e2ees_pack_id P raw"
  shows "is_valid_registered_account P (Some (demo_registered raw)) = Some True"
    "loadable P \<lparr>gd_string = Some [], gd_role = GROUP_ROLE_MEMBER, gd_notif_level_normal = 0, gd_notif_level_session = 1\<rparr> (Some (demo_registered raw))"
proof -
  show valid: "is_valid_registered_account P (Some (demo_registered raw)) = Some True"
    using assms by (simp add: demo_registered_simps)
  show "loadable P \<lparr>gd_string = Some [], gd_role = GROUP_ROLE_MEMBER, gd_notif_level_normal = 0, gd_notif_level_session = 1\<rparr> (Some (demo_registered raw))"
    unfolding loadable_def valid by (intro conjI exI [of _ True]) (simp_all add: storable_account_def demo_registered_def wf_address_def wf_peer_def
      wf_str_def wf_identity_key_def wf_key_pair_def demo_key_def demo_account_def init_account_def server_key_def)
qed

lemma cache_after_start_witness:
  "\<exists>cache. account_begin demo_prims \<lparr>gd_string = Some [], gd_role = GROUP_ROLE_MEMBER, gd_notif_level_normal = 0, gd_notif_level_session = 1\<rparr> (\<lambda>_. True)
      [None, Some (demo_registered 0x113101)] [] = Some cache \<and>
    load_e2ees_pack_id_from_cache cache (acc_address (demo_registered 0)) = Some 0x113101"
proof -
  have load: "list_all (loadable demo_prims \<lparr>gd_string = Some [], gd_role = GROUP_ROLE_MEMBER, gd_notif_level_normal = 0, gd_notif_level_session = 1\<rparr>)
      [None, Some (demo_registered 0x113101)]"
    using demo_registered_valid(2) [OF demo_pack(1)] loadable_NULL by simp
  have reg: "registered demo_prims [None, Some (demo_registered 0x113101)] = [demo_registered 0x113101]"
    using demo_registered_valid(1) [OF demo_pack(1)] by simp
  obtain a where a: "wf_peer a" "acc_address (demo_registered 0) = Some a" "acc_address (demo_registered 0x113101) = Some a"
    using that [of "the (acc_address (demo_registered 0))"] by (simp add: demo_registered_def wf_peer_def)
  have "first_registered demo_prims [None, Some (demo_registered 0x113101)] a = Some (demo_registered 0x113101)"
    unfolding first_registered_def reg using a by simp
  moreover have "acc_e2ees_pack_id (demo_registered 0x113101) = 0x113101" by (simp add: demo_registered_def)
  ultimately show ?thesis using cache_after_start [OF load] a(1) unfolding a(2) by fastforce
qed

end
