(* ===== verification/Ratchet.thy ===== *)
theory Ratchet
  imports Validation
begin

section \<open>The double ratchet\<close>

text \<open>
  \<open>src/ratchet.c\<close>: chain and message key derivation, the trial decryptions, the
  initialisation of both sides, \<open>encrypt_ratchet\<close> and \<open>decrypt_ratchet\<close>.

  A function that writes through its arguments returns the new values next to its result code.
  \<open>decrypted_data_out\<close> and \<open>decrypted_data_len_out\<close> are one \<^typ>\<open>bdata\<close>.  The local
  \<open>corresponding_receiver_chain\<close> of \<open>decrypt_ratchet\<close> is NULL or points to the
  ratchet's own receiver chain, hence a truth value.  The list of skipped keys is an array whose
  length is its capacity, next to its counter; the three allocations of it that the code
  checks succeed or fail as the argument \<open>mem_ok\<close> says.
\<close>

abbreviation (input) MAX_SKIPPED_MESSAGE_KEY_NODES :: nat where
  "MAX_SKIPPED_MESSAGE_KEY_NODES \<equiv> 1024"

definition KDF_INFO_ROOT :: bytes where
  "KDF_INFO_ROOT = [82, 79, 79, 84]"

definition KDF_INFO_RATCHET :: bytes where
  "KDF_INFO_RATCHET = [82, 65, 84, 67, 72, 69, 84]"

definition MESSAGE_KEY_SEED :: bytes where
  "MESSAGE_KEY_SEED = [77, 101, 115, 115, 97, 103, 101, 75, 101, 121, 115]"

definition CHAIN_KEY_SEED :: bytes where
  "CHAIN_KEY_SEED = [2]"

subsection \<open>Key derivation\<close>

definition free_skipped_message_key :: "skipped_node ptr array \<Rightarrow> nat \<Rightarrow> skipped_node ptr array option" where
  "free_skipped_message_key src num =
     do { _ \<leftarrow> map_loop Some src 0 num; Some None }"

text \<open>The argument checks of \<open>create_chain_key\<close>, then its body.\<close>

definition create_chain_key_args ::
    "cipher_suite ptr \<Rightarrow> bdata \<Rightarrow> bdata ptr \<Rightarrow> bdata ptr \<Rightarrow> bdata ptr \<Rightarrow> bool" where
  "create_chain_key_args cipher_suite root_key our_private_key their_key ratchet_public_key \<longleftrightarrow>
     is_valid_cipher_suite cipher_suite \<and>
     \<not> ((our_private_key = None \<and> ratchet_public_key = None) \<or>
        (our_private_key \<noteq> None \<and> ratchet_public_key \<noteq> None)) \<and>
     \<not> (our_private_key \<noteq> None \<and> \<not> is_valid_protobuf our_private_key) \<and>
     (case ratchet_public_key of None \<Rightarrow> True | Some k \<Rightarrow> \<not> (pb_len k \<noteq> 0 \<or> pb_data k \<noteq> None)) \<and>
     is_valid_protobuf (Some root_key) \<and> is_valid_protobuf their_key"

definition set_key_half :: "bdata \<Rightarrow> bytes \<Rightarrow> nat \<Rightarrow> bdata option" where
  "set_key_half key secrets n =
     (if pb_data key \<noteq> None then overwrite_protobuf_from_array key secrets
      else copy_protobuf_from_array secrets n)"

definition create_chain_key ::
    "cipher_suite ptr \<Rightarrow> bdata \<Rightarrow> bdata ptr \<Rightarrow> bdata ptr \<Rightarrow> bdata \<Rightarrow> chain_key \<Rightarrow> bdata ptr \<Rightarrow> seed \<Rightarrow>
     (int \<times> bdata \<times> chain_key \<times> bdata ptr \<times> seed) option" where
  "create_chain_key cipher_suite root_key our_private_key their_key new_root_key new_chain_key
       ratchet_public_key seed =
     (if \<not> create_chain_key_args cipher_suite root_key our_private_key their_key ratchet_public_key
      then Some (E2EES_RESULT_FAIL, new_root_key, new_chain_key, ratchet_public_key, seed)
      else do {
        cs \<leftarrow> deref cipher_suite; hf \<leftarrow> hf_param cs; kem \<leftarrow> kem_param cs; their \<leftarrow> deref their_key;
        let shared_key_len = hfp_hf_len hf;
        (secret, ratchet_public_key, seed) \<leftarrow>
          (case our_private_key of
             None \<Rightarrow> do { (_, ss, ciphertext, seed) \<leftarrow> call_encaps cs seed their;
                          secret \<leftarrow> write_buf (replicate (kp_shared_secret_len kem) 0) ss;
                          let n = pb_len ciphertext mod 2 ^ 32;
                          ct \<leftarrow> read_bytes (pb_data ciphertext) n;
                          Some (secret, Some \<lparr>pb_len = n, pb_data = Some ct\<rparr>, seed) }
           | Some our \<Rightarrow> do { (_, ss) \<leftarrow> call_decaps cs our their;
                              secret \<leftarrow> write_buf (replicate (kp_shared_secret_len kem) 0) ss;
                              Some (secret, ratchet_public_key, seed) });
        salt \<leftarrow> read_pb root_key;
        (_, out) \<leftarrow> call_hkdf cs secret salt KDF_INFO_RATCHET (2 * shared_key_len);
        derived_secrets \<leftarrow> fill (2 * shared_key_len) out;
        new_root_key \<leftarrow> set_key_half new_root_key derived_secrets shared_key_len;
        shared_key \<leftarrow> set_key_half (ck_shared_key new_chain_key) (drop shared_key_len derived_secrets)
          shared_key_len;
        Some (E2EES_RESULT_SUCC, new_root_key, \<lparr>ck_index = 0, ck_shared_key = shared_key\<rparr>,
              ratchet_public_key, seed) })"

definition advance_chain_key :: "cipher_suite ptr \<Rightarrow> chain_key ptr \<Rightarrow> (int \<times> chain_key ptr) option" where
  "advance_chain_key cipher_suite chain_key =
     (if \<not> (is_valid_cipher_suite cipher_suite \<and> is_valid_chain_key chain_key)
      then Some (E2EES_RESULT_FAIL, chain_key)
      else do {
        cs \<leftarrow> deref cipher_suite; c \<leftarrow> deref chain_key; hf \<leftarrow> hf_param cs;
        key \<leftarrow> read_pb (ck_shared_key c);
        (_, out) \<leftarrow> call_hmac cs key CHAIN_KEY_SEED;
        shared_key \<leftarrow> write_buf (replicate (hfp_hf_len hf) 0) out;
        new_key \<leftarrow> overwrite_protobuf_from_array (ck_shared_key c) shared_key;
        Some (E2EES_RESULT_SUCC, Some \<lparr>ck_index = ck_index c + 1, ck_shared_key = new_key\<rparr>) })"

definition create_msg_keys :: "cipher_suite ptr \<Rightarrow> chain_key ptr \<Rightarrow> (int \<times> msg_key ptr) option" where
  "create_msg_keys cipher_suite chain_key =
     (if \<not> (is_valid_cipher_suite cipher_suite \<and> is_valid_chain_key chain_key)
      then Some (E2EES_RESULT_FAIL, None)
      else do {
        cs \<leftarrow> deref cipher_suite; c \<leftarrow> deref chain_key; se \<leftarrow> se_param cs; hf \<leftarrow> hf_param cs;
        let msg_key_len = sep_aead_key_len se + sep_aead_iv_len se;
        key \<leftarrow> read_pb (ck_shared_key c);
        (ret, out) \<leftarrow> call_hkdf cs key (replicate (hfp_hf_len hf) 0) MESSAGE_KEY_SEED msg_key_len;
        if ret = E2EES_RESULT_SUCC then
          do { output \<leftarrow> fill msg_key_len out;
               Some (ret, Some \<lparr>mk_index = ck_index c,
                                mk_derived_key = \<lparr>pb_len = msg_key_len, pb_data = Some output\<rparr>\<rparr>) }
        else Some (ret, None) })"

subsection \<open>Trial decryption\<close>

definition verify_and_decrypt ::
    "bdata \<Rightarrow> cipher_suite ptr \<Rightarrow> bdata \<Rightarrow> msg_key ptr \<Rightarrow> one2one_payload ptr \<Rightarrow> (int \<times> bdata) option" where
  "verify_and_decrypt out cipher_suite ad message_key payload =
     (if \<not> (is_valid_cipher_suite cipher_suite \<and> is_valid_protobuf (Some ad) \<and>
            is_valid_msg_key message_key \<and> is_valid_one2one_msg_payload payload)
      then Some (E2EES_RESULT_FAIL, out)
      else do {
        cs \<leftarrow> deref cipher_suite; mk \<leftarrow> deref message_key; p \<leftarrow> deref payload;
        ct \<leftarrow> read_pb (pl_ciphertext p);
        call_decrypt cs ad (pb_data (mk_derived_key mk)) ct })"

lemma advance_index:
  assumes "advance_chain_key csp (Some c) = Some (ret, cp)"
  shows "if ret = E2EES_RESULT_SUCC then (\<exists>d. cp = Some d \<and> ck_index d = ck_index c + 1) else cp = Some c"
  using assms by (auto simp: advance_chain_key_def bind_eq_Some_conv split: if_splits)

text \<open>
  \<open>while (new_chain->index < payload->sequence)\<close>: the index grows by one per round and is
  below the bound, so it does not wrap.
\<close>

function advance_to :: "cipher_suite ptr \<Rightarrow> chain_key \<Rightarrow> u32 \<Rightarrow> (int \<times> chain_key) option" where
  "advance_to cipher_suite new_chain sequence =
     (if ck_index new_chain < sequence then
        do { (ret, c) \<leftarrow> advance_chain_key cipher_suite (Some new_chain);
             c \<leftarrow> deref c;
             if ret \<noteq> E2EES_RESULT_SUCC then Some (E2EES_RESULT_FAIL, c)
             else advance_to cipher_suite c sequence }
      else Some (E2EES_RESULT_SUCC, new_chain))"
  by pat_completeness auto
termination
proof (relation "measure (\<lambda>(csp, c, s). unat s - unat (ck_index c))", goal_cases)
  case 1
  show ?case by simp
next
  case (2 csp c s x ret cp d)
  then have "ck_index d = ck_index c + 1" using advance_index [of csp c ret cp] by auto
  moreover have "unat (ck_index c) < unat s" using 2 by (simp add: word_less_nat_alt)
  ultimately show ?case using 2 by (simp add: unat_Suc_less)
qed

declare advance_to.simps [simp del]

definition verify_and_decrypt_for_existing_chain ::
    "bdata \<Rightarrow> cipher_suite ptr \<Rightarrow> bdata \<Rightarrow> chain_key ptr \<Rightarrow> one2one_payload ptr \<Rightarrow> (int \<times> bdata) option" where
  "verify_and_decrypt_for_existing_chain out cipher_suite ad chain payload =
     (if \<not> (is_valid_cipher_suite cipher_suite \<and> is_valid_protobuf (Some ad) \<and>
            is_valid_chain_key chain \<and> is_valid_one2one_msg_payload payload)
      then Some (E2EES_RESULT_FAIL, out)
      else do {
        c \<leftarrow> deref chain; p \<leftarrow> deref payload;
        if pl_sequence p < ck_index c then Some (E2EES_RESULT_FAIL, out)
        else do {
          key \<leftarrow> copy_protobuf_from_protobuf empty_bdata (ck_shared_key c);
          (ret, new_chain) \<leftarrow> advance_to cipher_suite \<lparr>ck_index = ck_index c, ck_shared_key = key\<rparr> (pl_sequence p);
          if ret \<noteq> E2EES_RESULT_SUCC then Some (ret, out)
          else do {
            (r, mk) \<leftarrow> create_msg_keys cipher_suite (Some new_chain);
            if r = E2EES_RESULT_SUCC then verify_and_decrypt out cipher_suite ad mk payload
            else Some (E2EES_RESULT_FAIL, out) } } })"

text \<open>
  The loop from our root sequence to the coming one in \<open>verify_and_decrypt_for_new_chain\<close>;
  \<open>k\<close> is the number of rounds.
\<close>

fun new_chain_loop ::
    "cipher_suite ptr \<Rightarrow> bdata ptr \<Rightarrow> bdata \<Rightarrow> bdata \<Rightarrow> chain_key \<Rightarrow> seed \<Rightarrow> nat \<Rightarrow> (chain_key \<times> seed) option" where
  "new_chain_loop cipher_suite our_private_key ratchet_key new_root_key chain_key seed 0 =
     Some (chain_key, seed)"
| "new_chain_loop cipher_suite our_private_key ratchet_key new_root_key chain_key seed (Suc k) =
     do { (_, root, ck, _, seed) \<leftarrow> create_chain_key cipher_suite new_root_key our_private_key
            (Some ratchet_key) new_root_key chain_key None seed;
          new_chain_loop cipher_suite our_private_key ratchet_key root ck seed k }"

text \<open>The result is a \<open>size_t\<close> in the source; its only caller converts it back to \<open>int\<close>.\<close>

definition verify_and_decrypt_for_new_chain ::
    "bdata \<Rightarrow> cipher_suite ptr \<Rightarrow> ratchet ptr \<Rightarrow> bdata \<Rightarrow> one2one_payload ptr \<Rightarrow> seed \<Rightarrow>
     (int \<times> bdata \<times> seed) option" where
  "verify_and_decrypt_for_new_chain out cipher_suite ratchet ad payload seed =
     (if \<not> is_valid_cipher_suite cipher_suite then Some (E2EES_RESULT_FAIL, out, seed)
      else do {
        cs \<leftarrow> deref cipher_suite; kem \<leftarrow> kem_param cs;
        ratchet_ok \<leftarrow> is_valid_ratchet ratchet;
        let payload_ok = (is_valid_one2one_msg_payload payload \<and>
              (case payload of None \<Rightarrow> False
               | Some p \<Rightarrow> pl_root_sequence p \<noteq> 0 \<and>
                   \<not> (if kp_pqc_param kem then pb_len (pl_ratchet_key p) \<noteq> kp_kem_ciphertext_len kem
                      else pb_len (pl_ratchet_key p) \<noteq> kp_asym_pub_key_len kem)));
        if \<not> (is_valid_protobuf (Some ad) \<and> ratchet_ok \<and> payload_ok)
        then Some (E2EES_RESULT_FAIL, out, seed)
        else do {
          r \<leftarrow> deref ratchet; p \<leftarrow> deref payload;
          new_root_key \<leftarrow> copy_protobuf_from_protobuf empty_bdata (rt_root_key r);
          receiver_chain \<leftarrow> deref (rt_receiver_chain r);
          (ck, seed) \<leftarrow> new_chain_loop cipher_suite (Some (rc_our_ratchet_private_key receiver_chain))
             (pl_ratchet_key p) new_root_key init_chain_key seed
             (unat (pl_root_sequence p) - unat (rt_root_sequence r));
          (ret, out) \<leftarrow> verify_and_decrypt_for_existing_chain out cipher_suite ad (Some ck) payload;
          Some (ret, out, seed) } })"

definition prune_bloated_skipped_keys :: "ratchet \<Rightarrow> ratchet option" where
  "prune_bloated_skipped_keys r =
     (if rt_n_skipped_msg_key_list r \<le> MAX_SKIPPED_MESSAGE_KEY_NODES then Some r
      else do {
        let excess_count = rt_n_skipped_msg_key_list r - MAX_SKIPPED_MESSAGE_KEY_NODES;
        new_list \<leftarrow> map_loop Some (rt_skipped_msg_key_list r) excess_count MAX_SKIPPED_MESSAGE_KEY_NODES;
        Some (r\<lparr>rt_skipped_msg_key_list := Some new_list,
                rt_n_skipped_msg_key_list := MAX_SKIPPED_MESSAGE_KEY_NODES\<rparr>) })"

subsection \<open>Initialisation\<close>

definition derive_root :: "cipher_suite \<Rightarrow> bytes \<Rightarrow> (int \<times> bytes \<times> nat) option" where
  "derive_root cs shared_secret =
     do { hf \<leftarrow> hf_param cs;
          let shared_key_len = hfp_hf_len hf;
          (ret, out) \<leftarrow> call_hkdf cs shared_secret (replicate (hfp_hf_len hf) 0) KDF_INFO_ROOT (shared_key_len * 2);
          if ret = E2EES_RESULT_SUCC
          then do { derived_secrets \<leftarrow> fill (shared_key_len * 2) out; Some (ret, derived_secrets, shared_key_len) }
          else Some (ret, [], shared_key_len) }"

text \<open>
  \<open>shared_secret\<close> with its length is an optional byte list; on a failure
  \<open>*ratchet_out\<close> is not written, here \<^const>\<open>None\<close>.
\<close>

definition initialise_as_bob ::
    "cipher_suite ptr \<Rightarrow> bytes ptr \<Rightarrow> key_pair ptr \<Rightarrow> bdata ptr \<Rightarrow> seed \<Rightarrow> (int \<times> ratchet ptr \<times> seed) option" where
  "initialise_as_bob cipher_suite shared_secret our_ratchet_key their_ratchet_key seed =
     (if \<not> (is_valid_cipher_suite cipher_suite \<and> shared_secret \<noteq> None \<and> shared_secret \<noteq> Some [] \<and>
            is_valid_key_pair our_ratchet_key \<and> is_valid_protobuf their_ratchet_key)
      then Some (E2EES_RESULT_FAIL, None, seed)
      else do {
        cs \<leftarrow> deref cipher_suite; secret \<leftarrow> deref shared_secret;
        our \<leftarrow> deref our_ratchet_key; their \<leftarrow> deref their_ratchet_key;
        (ret, derived_secrets, shared_key_len) \<leftarrow> derive_root cs secret;
        if ret \<noteq> E2EES_RESULT_SUCC then Some (ret, None, seed)
        else do {
          kem \<leftarrow> kem_param cs;
          (ret, ss, ciphertext, seed) \<leftarrow> call_encaps cs seed their;
          _ \<leftarrow> write_buf (replicate (kp_shared_secret_len kem) 0) ss;
          if ret \<noteq> E2EES_RESULT_SUCC then Some (ret, None, seed)
          else do {
            priv \<leftarrow> copy_protobuf_from_protobuf empty_bdata (kpr_private_key our);
            root_key \<leftarrow> copy_protobuf_from_array derived_secrets shared_key_len;
            shared_key \<leftarrow> copy_protobuf_from_array (drop shared_key_len derived_secrets) shared_key_len;
            their_pub \<leftarrow> copy_protobuf_from_protobuf empty_bdata their;
            our_pub \<leftarrow> (if \<not> kp_pqc_param kem
                         then copy_protobuf_from_protobuf empty_bdata (kpr_public_key our)
                         else copy_protobuf_from_protobuf empty_bdata ciphertext);
            Some (ret, Some (init_ratchet
                \<lparr>rt_root_key := root_key,
                 rt_receiver_chain := Some (init_receiver_chain\<lparr>rc_our_ratchet_private_key := priv\<rparr>),
                 rt_sender_chain := Some
                   \<lparr>sc_their_ratchet_public_key = their_pub, sc_our_ratchet_public_key = our_pub,
                    sc_chain_key = Some \<lparr>ck_index = 0, ck_shared_key = shared_key\<rparr>\<rparr>\<rparr>), seed) } } })"

definition initialise_as_alice ::
    "cipher_suite ptr \<Rightarrow> bytes ptr \<Rightarrow> key_pair ptr \<Rightarrow> bdata ptr \<Rightarrow> bdata ptr \<Rightarrow> seed \<Rightarrow>
     (int \<times> ratchet ptr \<times> seed) option" where
  "initialise_as_alice cipher_suite shared_secret our_ratchet_key their_ratchet_key
       their_encaps_ciphertext seed =
     (if \<not> is_valid_cipher_suite cipher_suite then Some (E2EES_RESULT_FAIL, None, seed)
      else do {
        cs \<leftarrow> deref cipher_suite; kem \<leftarrow> kem_param cs;
        let pqc_param = kp_pqc_param kem;
        if \<not> ((if pqc_param then is_valid_protobuf their_encaps_ciphertext
               else their_encaps_ciphertext = None) \<and>
              shared_secret \<noteq> None \<and> shared_secret \<noteq> Some [] \<and>
              is_valid_key_pair our_ratchet_key \<and> is_valid_protobuf their_ratchet_key)
        then Some (E2EES_RESULT_FAIL, None, seed)
        else do {
          secret \<leftarrow> deref shared_secret; our \<leftarrow> deref our_ratchet_key; their \<leftarrow> deref their_ratchet_key;
          (ret, derived_secrets, shared_key_len) \<leftarrow> derive_root cs secret;
          if ret \<noteq> E2EES_RESULT_SUCC then Some (ret, None, seed)
          else do {
            root_key \<leftarrow> copy_protobuf_from_array derived_secrets shared_key_len;
            shared_key \<leftarrow> copy_protobuf_from_array (drop shared_key_len derived_secrets) shared_key_len;
            priv \<leftarrow> copy_protobuf_from_protobuf empty_bdata (kpr_private_key our);
            their_pub \<leftarrow> (if \<not> pqc_param then copy_protobuf_from_protobuf empty_bdata their
                           else do { ct \<leftarrow> deref their_encaps_ciphertext;
                                     copy_protobuf_from_protobuf empty_bdata ct });
            (root_key, sender_key, our_pub, seed) \<leftarrow>
              (if \<not> pqc_param then
                 do { (_, root_key, ck, _, seed) \<leftarrow> create_chain_key cipher_suite root_key
                        (Some (kpr_private_key our)) their_ratchet_key root_key init_chain_key None seed;
                      pub \<leftarrow> copy_protobuf_from_protobuf empty_bdata (kpr_public_key our);
                      Some (root_key, ck, pub, seed) }
               else
                 do { (_, root_key, ck, pub, seed) \<leftarrow> create_chain_key cipher_suite root_key None
                        their_ratchet_key root_key init_chain_key (Some empty_bdata) seed;
                      pub \<leftarrow> deref pub;
                      Some (root_key, ck, pub, seed) });
            sender_their \<leftarrow> copy_protobuf_from_protobuf empty_bdata their;
            Some (ret, Some (init_ratchet
                \<lparr>rt_root_key := root_key,
                 rt_root_sequence := 1,
                 rt_receiver_chain := Some
                   \<lparr>rc_their_ratchet_public_key = their_pub, rc_our_ratchet_private_key = priv,
                    rc_chain_key = Some \<lparr>ck_index = 0, ck_shared_key = shared_key\<rparr>\<rparr>,
                 rt_sender_chain := Some
                   \<lparr>sc_their_ratchet_public_key = sender_their, sc_our_ratchet_public_key = our_pub,
                    sc_chain_key = Some sender_key\<rparr>\<rparr>), seed) } } })"

subsection \<open>Encryption\<close>

text \<open>
  The result codes of the key derivations are ignored by the code; a missing message key is
  dereferenced.  \<open>None\<close> in the second component is the NULL left in \<open>*payload_out\<close>.
\<close>

definition encrypt_ratchet ::
    "cipher_suite ptr \<Rightarrow> ratchet ptr \<Rightarrow> bdata \<Rightarrow> bytes ptr \<Rightarrow> (int \<times> one2one_payload ptr \<times> ratchet ptr) option" where
  "encrypt_ratchet cipher_suite ratchet ad plaintext_data =
     (if \<not> (is_valid_cipher_suite cipher_suite \<and>
            (case ratchet of None \<Rightarrow> False | Some r \<Rightarrow> is_valid_sender_chain (rt_sender_chain r)) \<and>
            plaintext_data \<noteq> None)
      then Some (E2EES_RESULT_FAIL, None, ratchet)
      else do {
        cs \<leftarrow> deref cipher_suite; r \<leftarrow> deref ratchet; sender_chain \<leftarrow> deref (rt_sender_chain r);
        plaintext \<leftarrow> deref plaintext_data;
        (_, msg_key) \<leftarrow> create_msg_keys cipher_suite (sc_chain_key sender_chain);
        (_, chain_key) \<leftarrow> advance_chain_key cipher_suite (sc_chain_key sender_chain);
        let r' = r\<lparr>rt_sender_chain := Some (sender_chain\<lparr>sc_chain_key := chain_key\<rparr>),
                   rt_sending_message_sequence := rt_sending_message_sequence r + 1\<rparr>;
        mk \<leftarrow> deref msg_key;
        ratchet_key \<leftarrow> copy_protobuf_from_protobuf empty_bdata (sc_our_ratchet_public_key sender_chain);
        (ret, ciphertext) \<leftarrow> call_encrypt cs ad (pb_data (mk_derived_key mk)) plaintext;
        Some (ret,
              if ret \<noteq> E2EES_RESULT_SUCC then None
              else Some \<lparr>pl_sequence = mk_index mk, pl_ratchet_key = ratchet_key,
                         pl_root_sequence = rt_root_sequence r,
                         pl_sending_message_sequence = rt_sending_message_sequence r',
                         pl_ciphertext = ciphertext\<rparr>,
              Some r') })"

subsection \<open>Decryption\<close>

datatype alloc_site = ShrinkSkipped | GrowPrevious | GrowCurrent

datatype receive_case = Skipped | CurrentChain | NewChain

text \<open>
  The checks at the start of \<open>decrypt_ratchet\<close>.  Together with the result code they yield
  which of the three ways the message is decrypted, the values of the code's
  \<open>skipped_message\<close> and \<open>corresponding_receiver_chain\<close>:
  \<open>Skipped\<close> with a corresponding chain or without, \<open>CurrentChain\<close>, \<open>NewChain\<close>.
\<close>

definition classify_root ::
    "ratchet \<Rightarrow> one2one_payload \<Rightarrow> (int \<times> receive_case \<times> bool) option" where
  "classify_root r p =
     (let coming = pl_root_sequence p; our = rt_root_sequence r in
      if coming \<noteq> our then
        if coming < our then
          if coming = our - 1 then
            do { chain \<leftarrow> deref (rt_receiver_chain r);
                 same \<leftarrow> compare_protobuf (Some (rc_their_ratchet_public_key chain)) (Some (pl_ratchet_key p));
                 if same then
                   do { ck \<leftarrow> deref (rc_chain_key chain);
                        Some (E2EES_RESULT_SUCC,
                              if ck_index ck > pl_sequence p then Skipped else CurrentChain, True) }
                 else Some (E2EES_RESULT_FAIL, NewChain, False) }
          else Some (E2EES_RESULT_SUCC, Skipped, False)
        else if coming \<noteq> our + 1 then Some (E2EES_RESULT_FAIL, NewChain, False)
        else Some (E2EES_RESULT_SUCC, NewChain, False)
      else Some (E2EES_RESULT_FAIL, NewChain, False))"

definition decrypt_checks ::
    "cipher_suite ptr \<Rightarrow> ratchet ptr \<Rightarrow> bdata \<Rightarrow> one2one_payload ptr \<Rightarrow>
     (int \<times> receive_case \<times> bool \<times> nat) option" where
  "decrypt_checks cipher_suite ratchet ad payload =
     (if \<not> is_valid_cipher_suite cipher_suite then Some (E2EES_RESULT_FAIL, NewChain, False, 0)
      else do {
        cs \<leftarrow> deref cipher_suite; kem \<leftarrow> kem_param cs;
        let ratchet_key_len = (if \<not> kp_pqc_param kem then kp_asym_pub_key_len kem
                               else kp_kem_ciphertext_len kem);
        let payload_ok = (is_valid_one2one_msg_payload payload \<and>
              (case payload of None \<Rightarrow> False | Some p \<Rightarrow> pb_len (pl_ratchet_key p) = ratchet_key_len));
        ratchet_ok \<leftarrow> is_valid_ratchet ratchet;
        if \<not> (payload_ok \<and> is_valid_protobuf (Some ad) \<and> ratchet_ok)
        then Some (E2EES_RESULT_FAIL, NewChain, False, ratchet_key_len)
        else do {
          r \<leftarrow> deref ratchet; p \<leftarrow> deref payload;
          if rt_root_sequence r = 0 \<and> pl_sending_message_sequence p < pl_sequence p
          then Some (E2EES_RESULT_FAIL, NewChain, False, ratchet_key_len)
          else do { (ret, way, corresponding) \<leftarrow> classify_root r p;
                    Some (ret, way, corresponding, ratchet_key_len) } } })"

text \<open>
  Removal of the used key at position \<open>i\<close>: the last key empties the list; otherwise the later
  slots move down (the old last slot keeps a stale pointer) and the array is shrunk.
\<close>

definition remove_skipped :: "(alloc_site \<Rightarrow> bool) \<Rightarrow> ratchet \<Rightarrow> nat \<Rightarrow> (int \<times> ratchet) option" where
  "remove_skipped mem_ok r i =
     (let n = rt_n_skipped_msg_key_list r in
      if n = 1 then
        do { l \<leftarrow> free_skipped_message_key (rt_skipped_msg_key_list r) n;
             Some (E2EES_RESULT_SUCC, r\<lparr>rt_skipped_msg_key_list := l, rt_n_skipped_msg_key_list := 0\<rparr>) }
      else do {
        xs \<leftarrow> deref (rt_skipped_msg_key_list r);
        moved \<leftarrow> map_loop Some (Some xs) (i + 1) (n - i - 1);
        let ys = take i xs @ moved @ drop (n - 1) xs;
        if mem_ok ShrinkSkipped
        then Some (E2EES_RESULT_SUCC, r\<lparr>rt_skipped_msg_key_list := Some (take (n - 1) ys),
                                        rt_n_skipped_msg_key_list := n - 1\<rparr>)
        else Some (E2EES_RESULT_FAIL, r\<lparr>rt_skipped_msg_key_list := Some ys,
                                        rt_n_skipped_msg_key_list := n - 1\<rparr>) })"

definition skipped_match :: "skipped_node ptr \<Rightarrow> one2one_payload \<Rightarrow> nat \<Rightarrow> bool option" where
  "skipped_match node p ratchet_key_len =
     do { nd \<leftarrow> deref node; mk \<leftarrow> deref (sk_msg_key nd);
          if pl_sequence p = mk_index mk then
            do { a \<leftarrow> read_bytes (pb_data (sk_ratchet_key_public nd)) ratchet_key_len;
                 b \<leftarrow> read_bytes (pb_data (pl_ratchet_key p)) ratchet_key_len;
                 Some (a = b) }
          else Some False }"

text \<open>The loop over the skipped keys, from slot \<open>i\<close> with \<open>k\<close> slots left.\<close>

fun search_skipped ::
    "(alloc_site \<Rightarrow> bool) \<Rightarrow> cipher_suite ptr \<Rightarrow> bdata \<Rightarrow> one2one_payload \<Rightarrow> nat \<Rightarrow> ratchet \<Rightarrow>
     bdata \<Rightarrow> int \<Rightarrow> nat \<Rightarrow> nat \<Rightarrow> (int \<times> bdata \<times> ratchet) option" where
  "search_skipped mem_ok cipher_suite ad p ratchet_key_len r out ret i 0 = Some (ret, out, r)"
| "search_skipped mem_ok cipher_suite ad p ratchet_key_len r out ret i (Suc k) =
     do { node \<leftarrow> array_get (rt_skipped_msg_key_list r) i;
          matches \<leftarrow> skipped_match node p ratchet_key_len;
          if matches then
            do { nd \<leftarrow> deref node;
                 (ret, out) \<leftarrow> verify_and_decrypt out cipher_suite ad (sk_msg_key nd) (Some p);
                 if ret = E2EES_RESULT_SUCC then
                   do { (ret, r) \<leftarrow> remove_skipped mem_ok r i; Some (ret, out, r) }
                 else search_skipped mem_ok cipher_suite ad p ratchet_key_len r out ret (Suc i) k }
          else search_skipped mem_ok cipher_suite ad p ratchet_key_len r out ret (Suc i) k }"

text \<open>Room for \<open>k\<close> more skipped keys: \<open>malloc\<close> for a NULL list, \<open>realloc\<close> otherwise.\<close>

definition grow_skipped :: "bool \<Rightarrow> ratchet \<Rightarrow> nat \<Rightarrow> int \<times> ratchet" where
  "grow_skipped ok r k =
     (if ok then
        (E2EES_RESULT_SUCC, r\<lparr>rt_skipped_msg_key_list :=
           (case rt_skipped_msg_key_list r of
              None \<Rightarrow> Some (replicate k None)
            | Some xs \<Rightarrow> Some (take (rt_n_skipped_msg_key_list r + k) xs @
                               replicate (rt_n_skipped_msg_key_list r + k - length xs) None))\<rparr>)
      else (E2EES_RESULT_FAIL, r))"

text \<open>
  One round of the two loops that store skipped keys: derive the message key of the receiver
  chain, append it with the chain's ratchet key, advance the chain.
\<close>

definition store_skipped :: "cipher_suite ptr \<Rightarrow> ratchet \<Rightarrow> (int \<times> ratchet) option" where
  "store_skipped cipher_suite r =
     do { chain \<leftarrow> deref (rt_receiver_chain r);
          (ret, mk) \<leftarrow> create_msg_keys cipher_suite (rc_chain_key chain);
          if ret \<noteq> E2EES_RESULT_SUCC then Some (E2EES_RESULT_FAIL, r)
          else do {
            pub \<leftarrow> copy_protobuf_from_protobuf empty_bdata (rc_their_ratchet_public_key chain);
            l \<leftarrow> array_set (rt_skipped_msg_key_list r) (rt_n_skipped_msg_key_list r)
                   (Some \<lparr>sk_ratchet_key_public = pub, sk_msg_key = mk\<rparr>);
            (ret, ck) \<leftarrow> advance_chain_key cipher_suite (rc_chain_key chain);
            Some (if ret \<noteq> E2EES_RESULT_SUCC then E2EES_RESULT_FAIL else E2EES_RESULT_SUCC,
                  r\<lparr>rt_skipped_msg_key_list := l,
                    rt_n_skipped_msg_key_list := rt_n_skipped_msg_key_list r + 1,
                    rt_receiver_chain := Some (chain\<lparr>rc_chain_key := ck\<rparr>)\<rparr>) } }"

fun store_previous :: "cipher_suite ptr \<Rightarrow> ratchet \<Rightarrow> nat \<Rightarrow> (int \<times> ratchet) option" where
  "store_previous cipher_suite r 0 = Some (E2EES_RESULT_SUCC, r)"
| "store_previous cipher_suite r (Suc k) =
     do { (ret, r) \<leftarrow> store_skipped cipher_suite r;
          if ret \<noteq> E2EES_RESULT_SUCC then Some (ret, r) else store_previous cipher_suite r k }"

text \<open>
  The skipped messages of the previous receiver chain.  The sum is taken in 32 bits and then
  widened.
\<close>

definition skip_previous :: "(alloc_site \<Rightarrow> bool) \<Rightarrow> cipher_suite ptr \<Rightarrow> ratchet \<Rightarrow> one2one_payload \<Rightarrow>
     (int \<times> ratchet) option" where
  "skip_previous mem_ok cipher_suite r p =
     (let expected_total_received = unat (rt_received_message_sequence r + (pl_sequence p + 1));
          sending = unat (pl_sending_message_sequence p) in
      if sending > expected_total_received then
        (let skipped_num = sending - expected_total_received in
         if skipped_num > MAX_SKIPPED_MESSAGE_KEY_NODES then Some (E2EES_RESULT_FAIL, r)
         else
           let (ret, r) = grow_skipped (mem_ok GrowPrevious) r skipped_num in
           if ret \<noteq> E2EES_RESULT_SUCC then Some (ret, r)
           else store_previous cipher_suite r skipped_num)
      else Some (E2EES_RESULT_SUCC, r))"

text \<open>The new receiver and sender chains.\<close>

definition new_chains :: "cipher_suite ptr \<Rightarrow> ratchet \<Rightarrow> one2one_payload \<Rightarrow> seed \<Rightarrow> (ratchet \<times> seed) option" where
  "new_chains cipher_suite r p seed =
     do { cs \<leftarrow> deref cipher_suite; kem \<leftarrow> kem_param cs;
          their \<leftarrow> copy_protobuf_from_protobuf empty_bdata (pl_ratchet_key p);
          chain \<leftarrow> deref (rt_receiver_chain r);
          (_, root_key, receiver_key, _, seed) \<leftarrow> create_chain_key cipher_suite (rt_root_key r)
             (Some (rc_our_ratchet_private_key chain)) (Some their) (rt_root_key r) init_chain_key None seed;
          (root_key, our_priv, sender_chain, seed) \<leftarrow>
            (if \<not> kp_pqc_param kem then
               do { (_, pub, priv, seed) \<leftarrow> call_asym_key_gen cs seed;
                    our_priv \<leftarrow> copy_protobuf_from_protobuf empty_bdata priv;
                    our_pub \<leftarrow> copy_protobuf_from_protobuf empty_bdata pub;
                    sender_their \<leftarrow> copy_protobuf_from_protobuf empty_bdata their;
                    (_, root_key, ck, _, seed) \<leftarrow> create_chain_key cipher_suite root_key (Some priv)
                       (Some sender_their) root_key init_chain_key None seed;
                    Some (root_key, our_priv,
                          \<lparr>sc_their_ratchet_public_key = sender_their, sc_our_ratchet_public_key = our_pub,
                           sc_chain_key = Some ck\<rparr>, seed) }
             else
               do { our_priv \<leftarrow> copy_protobuf_from_protobuf empty_bdata (rc_our_ratchet_private_key chain);
                    old \<leftarrow> deref (rt_sender_chain r);
                    sender_their \<leftarrow> copy_protobuf_from_protobuf empty_bdata (sc_their_ratchet_public_key old);
                    (_, root_key, ck, our_pub, seed) \<leftarrow> create_chain_key cipher_suite root_key None
                       (Some sender_their) root_key init_chain_key (Some empty_bdata) seed;
                    our_pub \<leftarrow> deref our_pub;
                    Some (root_key, our_priv,
                          \<lparr>sc_their_ratchet_public_key = sender_their, sc_our_ratchet_public_key = our_pub,
                           sc_chain_key = Some ck\<rparr>, seed) });
          Some (r\<lparr>rt_root_key := root_key,
                  rt_receiver_chain := Some \<lparr>rc_their_ratchet_public_key = their,
                     rc_our_ratchet_private_key = our_priv, rc_chain_key = Some receiver_key\<rparr>,
                  rt_sender_chain := Some sender_chain,
                  rt_root_sequence := rt_root_sequence r + 1 + 1\<rparr>, seed) }"

lemma store_index:
  assumes "store_skipped csp r = Some (E2EES_RESULT_SUCC, r')"
    and "rt_receiver_chain r = Some chain" and "rc_chain_key chain = Some c"
  obtains chain' c' where "rt_receiver_chain r' = Some chain'" "rc_chain_key chain' = Some c'"
    "ck_index c' = ck_index c + 1"
proof -
  obtain ret ck where "advance_chain_key csp (Some c) = Some (ret, ck)" "ret = E2EES_RESULT_SUCC"
      "rt_receiver_chain r' = Some (chain\<lparr>rc_chain_key := ck\<rparr>)"
    using assms by (auto simp: store_skipped_def bind_eq_Some_conv split: if_splits)
  then show ?thesis using advance_index [of csp c ret ck] that by auto
qed

text \<open>\<open>while (corresponding_receiver_chain->chain_key->index < payload->sequence)\<close>\<close>

definition receiver_index :: "ratchet \<Rightarrow> u32 option" where
  "receiver_index r = do { chain \<leftarrow> deref (rt_receiver_chain r); c \<leftarrow> deref (rc_chain_key chain); Some (ck_index c) }"

function store_current :: "cipher_suite ptr \<Rightarrow> ratchet \<Rightarrow> u32 \<Rightarrow> (int \<times> ratchet) option" where
  "store_current cipher_suite r sequence =
     do { index \<leftarrow> receiver_index r;
          if index < sequence then
            do { (ret, r) \<leftarrow> store_skipped cipher_suite r;
                 if ret \<noteq> E2EES_RESULT_SUCC then Some (ret, r) else store_current cipher_suite r sequence }
          else Some (E2EES_RESULT_SUCC, r) }"
  by pat_completeness auto
termination
proof (relation "measure (\<lambda>(csp, r, s). unat s - (case receiver_index r of None \<Rightarrow> 0 | Some i \<Rightarrow> unat i))",
    goal_cases)
  case 1
  show ?case by simp
next
  case (2 csp r s i x ret r')
  then have step: "store_skipped csp r = Some (E2EES_RESULT_SUCC, r')" by simp
  obtain chain c where *: "rt_receiver_chain r = Some chain" "rc_chain_key chain = Some c" "i = ck_index c"
    using 2(1) by (auto simp: receiver_index_def bind_eq_Some_conv deref_def)
  have "receiver_index r' = Some (i + 1)"
    by (rule store_index [OF step *(1,2)]) (simp add: receiver_index_def *(3))
  moreover have "unat i < unat s" using 2(2) by (simp add: word_less_nat_alt)
  ultimately show ?case using 2(1,2) by (simp add: unat_Suc_less)
qed

declare store_current.simps [simp del]

definition skip_current :: "(alloc_site \<Rightarrow> bool) \<Rightarrow> cipher_suite ptr \<Rightarrow> ratchet \<Rightarrow> one2one_payload \<Rightarrow>
     (int \<times> ratchet) option" where
  "skip_current mem_ok cipher_suite r p =
     do { index \<leftarrow> receiver_index r;
          if index < pl_sequence p then
            (let skipped_num = unat (pl_sequence p - index) in
             if skipped_num > MAX_SKIPPED_MESSAGE_KEY_NODES then Some (E2EES_RESULT_FAIL, r)
             else
               let (ret, r) = grow_skipped (mem_ok GrowCurrent) r skipped_num in
               if ret \<noteq> E2EES_RESULT_SUCC then Some (ret, r)
               else store_current cipher_suite r (pl_sequence p))
          else Some (E2EES_RESULT_SUCC, r) }"

definition advance_receiver :: "cipher_suite ptr \<Rightarrow> ratchet \<Rightarrow> one2one_payload \<Rightarrow> ratchet option" where
  "advance_receiver cipher_suite r p =
     do { chain \<leftarrow> deref (rt_receiver_chain r); c \<leftarrow> deref (rc_chain_key chain);
          if ck_index c = pl_sequence p then
            do { (_, ck) \<leftarrow> advance_chain_key cipher_suite (rc_chain_key chain);
                 Some (r\<lparr>rt_receiver_chain := Some (chain\<lparr>rc_chain_key := ck\<rparr>)\<rparr>) }
          else Some r }"

text \<open>The trial decryption, then the update of the state after it succeeded.\<close>

definition decrypt_trial ::
    "(alloc_site \<Rightarrow> bool) \<Rightarrow> cipher_suite ptr \<Rightarrow> ratchet \<Rightarrow> bdata \<Rightarrow> one2one_payload \<Rightarrow> receive_case \<Rightarrow> nat \<Rightarrow>
     seed \<Rightarrow> (int \<times> bdata \<times> ratchet \<times> seed) option" where
  "decrypt_trial mem_ok cipher_suite r ad p way ratchet_key_len seed =
     (case way of
        Skipped \<Rightarrow>
          do { (ret, out, r) \<leftarrow> search_skipped mem_ok cipher_suite ad p ratchet_key_len r empty_bdata
                 E2EES_RESULT_FAIL 0 (rt_n_skipped_msg_key_list r);
               Some (ret, out, r, seed) }
      | NewChain \<Rightarrow>
          do { (ret, out, seed) \<leftarrow> verify_and_decrypt_for_new_chain empty_bdata cipher_suite (Some r) ad (Some p) seed;
               Some (ret, out, r, seed) }
      | CurrentChain \<Rightarrow>
          do { chain \<leftarrow> deref (rt_receiver_chain r);
               (ret, out) \<leftarrow> verify_and_decrypt_for_existing_chain empty_bdata cipher_suite ad (rc_chain_key chain) (Some p);
               Some (ret, out, r, seed) })"

definition decrypt_update ::
    "(alloc_site \<Rightarrow> bool) \<Rightarrow> cipher_suite ptr \<Rightarrow> ratchet \<Rightarrow> one2one_payload \<Rightarrow> receive_case \<Rightarrow> bool \<Rightarrow> seed \<Rightarrow>
     (int \<times> ratchet \<times> seed) option" where
  "decrypt_update mem_ok cipher_suite r p way corresponding seed =
     do { (ret, r, corresponding, seed) \<leftarrow>
            (if \<not> corresponding \<and> way \<noteq> Skipped then
               do { (ret, r) \<leftarrow> skip_previous mem_ok cipher_suite r p;
                    if ret \<noteq> E2EES_RESULT_SUCC then Some (ret, r, False, seed)
                    else do { (r, seed) \<leftarrow> new_chains cipher_suite r p seed;
                              Some (ret, r, True, seed) } }
             else Some (E2EES_RESULT_SUCC, r, corresponding, seed));
          if ret = E2EES_RESULT_SUCC \<and> corresponding then
            do { (ret, r) \<leftarrow> skip_current mem_ok cipher_suite r p;
                 if ret \<noteq> E2EES_RESULT_SUCC then Some (ret, r, seed)
                 else do { r \<leftarrow> advance_receiver cipher_suite r p; Some (ret, r, seed) } }
          else Some (ret, r, seed) }"

definition decrypt_ratchet ::
    "(alloc_site \<Rightarrow> bool) \<Rightarrow> cipher_suite ptr \<Rightarrow> ratchet ptr \<Rightarrow> bdata \<Rightarrow> one2one_payload ptr \<Rightarrow> seed \<Rightarrow>
     (int \<times> bdata \<times> ratchet \<times> seed) option" where
  "decrypt_ratchet mem_ok cipher_suite ratchet ad payload seed =
     do { (ret, way, corresponding, ratchet_key_len) \<leftarrow> decrypt_checks cipher_suite ratchet ad payload;
          r \<leftarrow> deref ratchet; p \<leftarrow> deref payload;
          (ret, out, r, seed) \<leftarrow>
            (if ret = E2EES_RESULT_SUCC
             then decrypt_trial mem_ok cipher_suite r ad p way ratchet_key_len seed
             else Some (ret, empty_bdata, r, seed));
          (ret, r, seed) \<leftarrow>
            (if ret = E2EES_RESULT_SUCC then decrypt_update mem_ok cipher_suite r p way corresponding seed
             else Some (ret, r, seed));
          r \<leftarrow> prune_bloated_skipped_keys
            (if pl_sending_message_sequence p > rt_received_message_sequence r
             then r\<lparr>rt_received_message_sequence := pl_sending_message_sequence p\<rparr> else r);
          Some (ret, if ret \<noteq> E2EES_RESULT_SUCC \<and> pb_data out \<noteq> None then empty_bdata else out, r, seed) }"

end
