(* ===== verification/Ratchet_Laws.thy ===== *)
theory Ratchet_Laws
  imports Suite_Laws Ratchet
begin

section \<open>What the ratchet functions compute\<close>

text \<open>
  The functions of \<open>src/ratchet.c\<close> on well-formed states, over a suite with the laws of the
  interface \<open>e2ee_suite\<close>: no undefined behaviour, and the values as expressions in the
  interface's key derivation and encryption functions.
\<close>

subsection \<open>The symmetric chain\<close>

text \<open>The chain key after \<open>n\<close> steps, and the message key a chain key yields.\<close>

definition chain_at :: "(bytes \<Rightarrow> bytes \<Rightarrow> bytes) \<Rightarrow> bytes \<Rightarrow> nat \<Rightarrow> bytes" where
  "chain_at mac k n = ((\<lambda>x. mac x CHAIN_KEY_SEED) ^^ n) k"

definition message_key :: "(bytes \<Rightarrow> bytes \<Rightarrow> bytes \<Rightarrow> nat \<Rightarrow> bytes) \<Rightarrow> nat \<Rightarrow> nat \<Rightarrow> bytes \<Rightarrow> bytes" where
  "message_key kdf hf_len mk_len k = kdf k (replicate hf_len 0) MESSAGE_KEY_SEED mk_len"

lemma chain_at_0 [simp]: "chain_at mac k 0 = k"
  by (simp add: chain_at_def)

lemma chain_at_Suc: "chain_at mac k (Suc n) = mac (chain_at mac k n) CHAIN_KEY_SEED"
  by (simp add: chain_at_def)

lemma chain_at_add: "chain_at mac (chain_at mac k m) n = chain_at mac k (m + n)"
  by (metis chain_at_def add.commute comp_apply funpow_add)

lemma chain_at_step: "chain_at mac (mac k CHAIN_KEY_SEED) n = chain_at mac k (Suc n)"
  using chain_at_add [of mac k 1 n] by (simp add: chain_at_Suc)

text \<open>Chain keys, receiver chains and skipped keys in terms of their contents.\<close>

definition chain_of :: "u32 \<Rightarrow> bytes \<Rightarrow> chain_key" where
  "chain_of i k = \<lparr>ck_index = i, ck_shared_key = buf k\<rparr>"

definition msg_key_of :: "u32 \<Rightarrow> bytes \<Rightarrow> msg_key" where
  "msg_key_of i k = \<lparr>mk_index = i, mk_derived_key = buf k\<rparr>"

definition node_of :: "bytes \<times> u32 \<times> bytes \<Rightarrow> skipped_node ptr" where
  "node_of = (\<lambda>(rk, i, k). Some \<lparr>sk_ratchet_key_public = buf rk, sk_msg_key = Some (msg_key_of i k)\<rparr>)"

definition receiver_of :: "bytes \<Rightarrow> bytes \<Rightarrow> u32 \<Rightarrow> bytes \<Rightarrow> receiver_chain" where
  "receiver_of rk sk i k = \<lparr>rc_their_ratchet_public_key = buf rk, rc_our_ratchet_private_key = buf sk,
     rc_chain_key = Some (chain_of i k)\<rparr>"

definition sender_of :: "bytes \<Rightarrow> bytes \<Rightarrow> u32 \<Rightarrow> bytes \<Rightarrow> sender_chain" where
  "sender_of pk rk i k = \<lparr>sc_their_ratchet_public_key = buf pk, sc_our_ratchet_public_key = buf rk,
     sc_chain_key = Some (chain_of i k)\<rparr>"

text \<open>
  The list of skipped keys stores the entries \<open>ns\<close>: the counter is their number, the array is
  NULL exactly when there are none, and its capacity may exceed the counter.
\<close>

definition holds_skipped :: "ratchet \<Rightarrow> (bytes \<times> u32 \<times> bytes) list \<Rightarrow> bool" where
  "holds_skipped r ns \<longleftrightarrow> rt_n_skipped_msg_key_list r = length ns \<and>
     (case rt_skipped_msg_key_list r of
        None \<Rightarrow> ns = []
      | Some xs \<Rightarrow> ns \<noteq> [] \<and> length ns \<le> length xs \<and> take (length ns) xs = map node_of ns)"

text \<open>The entries for the messages \<open>i, i+1, \<dots>\<close> of a chain, \<open>n\<close> of them.\<close>

fun skipped_entries ::
    "(bytes \<Rightarrow> bytes \<Rightarrow> bytes) \<Rightarrow> (bytes \<Rightarrow> bytes) \<Rightarrow> bytes \<Rightarrow> u32 \<Rightarrow> bytes \<Rightarrow> nat \<Rightarrow> (bytes \<times> u32 \<times> bytes) list" where
  "skipped_entries mac mkey rk i k 0 = []"
| "skipped_entries mac mkey rk i k (Suc n) =
     (rk, i, mkey k) # skipped_entries mac mkey rk (i + 1) (mac k CHAIN_KEY_SEED) n"

lemma length_skipped_entries [simp]: "length (skipped_entries mac mkey rk i k n) = n"
  by (induction n arbitrary: i k) auto

text \<open>The same with room for \<open>m\<close> more entries.\<close>

definition holds_room :: "ratchet \<Rightarrow> (bytes \<times> u32 \<times> bytes) list \<Rightarrow> nat \<Rightarrow> bool" where
  "holds_room r ns m \<longleftrightarrow> rt_n_skipped_msg_key_list r = length ns \<and>
     (\<exists>xs. rt_skipped_msg_key_list r = Some xs \<and> length ns + m \<le> length xs \<and>
           take (length ns) xs = map node_of ns)"

lemma holds_room_skipped: "holds_room r ns 0 \<Longrightarrow> ns \<noteq> [] \<Longrightarrow> holds_skipped r ns"
  by (auto simp: holds_room_def holds_skipped_def)

lemma grow_ok:
  assumes "holds_skipped r ns"
  obtains l where "grow_skipped True r m = (0, r\<lparr>rt_skipped_msg_key_list := l\<rparr>)"
    "holds_room (r\<lparr>rt_skipped_msg_key_list := l\<rparr>) ns m"
proof (cases "rt_skipped_msg_key_list r")
  case None
  with assms show ?thesis
    by (intro that [of "Some (replicate m None)"]) (auto simp: holds_skipped_def holds_room_def grow_skipped_def)
next
  case (Some xs)
  with assms show ?thesis
    by (intro that [of "Some (take (length ns + m) xs @ replicate (length ns + m - length xs) None)"])
       (auto simp: holds_skipped_def holds_room_def grow_skipped_def min_def)
qed

lemma store_room:
  assumes "holds_room r ns (Suc m)"
  obtains l where "array_set (rt_skipped_msg_key_list r) (rt_n_skipped_msg_key_list r) (node_of e) = Some l"
    "\<And>r' :: ratchet. rt_n_skipped_msg_key_list r' = Suc (length ns) \<Longrightarrow> rt_skipped_msg_key_list r' = l \<Longrightarrow>
       holds_room r' (ns @ [e]) m"
proof -
  from assms obtain xs where xs: "rt_skipped_msg_key_list r = Some xs" "length ns < length xs"
      "length ns + Suc m \<le> length xs" "take (length ns) xs = map node_of ns" "rt_n_skipped_msg_key_list r = length ns"
    by (auto simp: holds_room_def)
  show ?thesis
  proof (rule that)
    show "array_set (rt_skipped_msg_key_list r) (rt_n_skipped_msg_key_list r) (node_of e) =
        Some (Some (xs[length ns := node_of e]))"
      using xs by (simp add: array_set_Some)
    fix r' :: ratchet
    assume "rt_n_skipped_msg_key_list r' = Suc (length ns)"
      "rt_skipped_msg_key_list r' = Some (xs[length ns := node_of e])"
    then show "holds_room r' (ns @ [e]) m" using xs
      by (simp add: holds_room_def take_Suc_conv_app_nth)
  qed
qed

lemmas view_defs = chain_of_def msg_key_of_def node_of_def receiver_of_def sender_of_def

lemma view_simps [simp]:
  "ck_index (chain_of i k) = i" "ck_shared_key (chain_of i k) = buf k"
  "mk_index (msg_key_of i k) = i" "mk_derived_key (msg_key_of i k) = buf k"
  "rc_their_ratchet_public_key (receiver_of rk sk i k) = buf rk"
  "rc_our_ratchet_private_key (receiver_of rk sk i k) = buf sk"
  "rc_chain_key (receiver_of rk sk i k) = Some (chain_of i k)"
  "sc_their_ratchet_public_key (sender_of pk rk i k) = buf pk"
  "sc_our_ratchet_public_key (sender_of pk rk i k) = buf rk"
  "sc_chain_key (sender_of pk rk i k) = Some (chain_of i k)"
  by (simp_all add: view_defs)

lemma view_inject [simp]:
  "chain_of i k = chain_of j l \<longleftrightarrow> i = j \<and> k = l"
  "receiver_of rk sk i k = receiver_of rk' sk' j l \<longleftrightarrow> rk = rk' \<and> sk = sk' \<and> i = j \<and> k = l"
  "sender_of pk rk i k = sender_of pk' rk' j l \<longleftrightarrow> pk = pk' \<and> rk = rk' \<and> i = j \<and> k = l"
  by (auto simp: view_defs)

lemma receiver_of_update [simp]:
  "(receiver_of rk sk i k)\<lparr>rc_chain_key := Some (chain_of j l)\<rparr> = receiver_of rk sk j l"
  by (simp add: receiver_of_def)

lemma sender_of_update [simp]:
  "(sender_of pk rk i k)\<lparr>sc_chain_key := Some (chain_of j l)\<rparr> = sender_of pk rk j l"
  by (simp add: sender_of_def)

lemma valid_view [simp]:
  "is_valid_chain_key (Some (chain_of i k)) \<longleftrightarrow> k \<noteq> []"
  "is_valid_msg_key (Some (msg_key_of i k)) \<longleftrightarrow> k \<noteq> []"
  "is_valid_receiver_chain (Some (receiver_of rk sk i k)) \<longleftrightarrow> sk \<noteq> [] \<and> rk \<noteq> [] \<and> k \<noteq> []"
  "is_valid_sender_chain (Some (sender_of pk rk i k)) \<longleftrightarrow> rk \<noteq> [] \<and> pk \<noteq> [] \<and> k \<noteq> []"
  by (simp_all add: is_valid_chain_key_def is_valid_msg_key_def is_valid_receiver_chain_def
      is_valid_sender_chain_def)

lemma valid_node_of [simp]: "is_valid_skipped_msg_key_node (node_of (rk, i, k)) \<longleftrightarrow> rk \<noteq> [] \<and> k \<noteq> []"
  by (simp add: is_valid_skipped_msg_key_node_def node_of_def)

lemma holds_skipped_valid:
  assumes "holds_skipped r ns" and "\<forall>(rk, i, k)\<in>set ns. rk \<noteq> [] \<and> k \<noteq> []"
  shows "is_valid_skipped_msg_key_list (rt_skipped_msg_key_list r) (rt_n_skipped_msg_key_list r) = Some True"
proof (cases "rt_skipped_msg_key_list r")
  case None
  with assms(1) show ?thesis by (simp add: holds_skipped_def is_valid_skipped_msg_key_list_def)
next
  case (Some xs)
  then have xs: "length ns \<le> length xs" "take (length ns) xs = map node_of ns" "ns \<noteq> []"
      "rt_n_skipped_msg_key_list r = length ns"
    using assms(1) by (simp_all add: holds_skipped_def)
  have "list_all is_valid_skipped_msg_key_node (map node_of ns)"
    using assms(2) by (auto simp: list_all_iff)
  with xs Some show ?thesis by (simp add: skipped_list_valid_array valid_array_eq)
qed

text \<open>
  Well-formed ratchets: every key present with the length its algorithm asks for, the
  receiver chain without chain key as long as the root sequence is 0, and the skipped keys
  \<open>ns\<close>, at most 1024.
\<close>

definition wf_entries :: "nat \<Rightarrow> nat \<Rightarrow> (bytes \<times> u32 \<times> bytes) list \<Rightarrow> bool" where
  "wf_entries mk_len rk_len ns \<longleftrightarrow> (\<forall>(rk, i, k)\<in>set ns. length rk = rk_len \<and> length k = mk_len)"

definition first_receiver :: "bytes \<Rightarrow> receiver_chain" where
  "first_receiver sk = init_receiver_chain\<lparr>rc_our_ratchet_private_key := buf sk\<rparr>"

definition wf_ratchet ::
    "nat \<Rightarrow> nat \<Rightarrow> nat \<Rightarrow> nat \<Rightarrow> nat \<Rightarrow> ratchet \<Rightarrow> (bytes \<times> u32 \<times> bytes) list \<Rightarrow> bool" where
  "wf_ratchet hf_len mk_len rk_len pk_len sk_len r ns \<longleftrightarrow>
     (\<exists>root. rt_root_key r = buf root \<and> length root = hf_len) \<and>
     (\<exists>pk rk i k. rt_sender_chain r = Some (sender_of pk rk i k) \<and>
        length pk = pk_len \<and> length rk = rk_len \<and> length k = hf_len) \<and>
     (if rt_root_sequence r = 0
      then \<exists>sk. rt_receiver_chain r = Some (first_receiver sk) \<and> length sk = sk_len
      else \<exists>rk sk i k. rt_receiver_chain r = Some (receiver_of rk sk i k) \<and>
             length rk = rk_len \<and> length sk = sk_len \<and> length k = hf_len) \<and>
     holds_skipped r ns \<and> wf_entries mk_len rk_len ns \<and> length ns \<le> MAX_SKIPPED_MESSAGE_KEY_NODES"

lemma wf_entries_append [simp]:
  "wf_entries m l (ns @ ns') \<longleftrightarrow> wf_entries m l ns \<and> wf_entries m l ns'"
  by (simp add: wf_entries_def ball_Un)

lemma first_receiver_simps [simp]:
  "rc_our_ratchet_private_key (first_receiver sk) = buf sk" "rc_chain_key (first_receiver sk) = None"
  by (simp_all add: first_receiver_def init_receiver_chain_def)

subsection \<open>Key derivation and trial decryption\<close>

context e2ee_suite
begin

abbreviation "mkey \<equiv> message_key kdf hf_len mk_len"
abbreviation "csp \<equiv> Some cs"

lemma mkey_length [simp]: "length (mkey k) = mk_len"
  by (simp add: message_key_def kdf_length)

lemma nonempty: "length k = hf_len \<Longrightarrow> k \<noteq> []" "length k = mk_len \<Longrightarrow> k \<noteq> []" "length k = rk_len \<Longrightarrow> k \<noteq> []"
  "length k = sk_len \<Longrightarrow> k \<noteq> []" "length k = pk_len \<Longrightarrow> k \<noteq> []" "mkey x \<noteq> []"
  using sizes mkey_length [of x] by (auto simp del: sizes mkey_length)

lemma tagged_nonempty: "tag_len \<le> length ct \<Longrightarrow> ct \<noteq> []"
  using sizes(5) by (auto simp del: sizes)

lemma chain_at_length [simp]: "length k = hf_len \<Longrightarrow> length (chain_at mac k n) = hf_len"
  by (cases n) (simp_all add: chain_at_Suc)

lemma advance_ok:
  assumes "length k = hf_len"
  shows "advance_chain_key csp (Some (chain_of i k)) = Some (0, Some (chain_of (i + 1) (mac k CHAIN_KEY_SEED)))"
  using assms nonempty(1) [OF assms]
  by (simp add: advance_chain_key_def mac_call chain_of_def [symmetric])

lemma msg_keys_ok:
  assumes "length k = hf_len"
  shows "create_msg_keys csp (Some (chain_of i k)) = Some (0, Some (msg_key_of i (mkey k)))"
proof -
  obtain se where se: "se_param cs = Some se" "sep_aead_key_len se + sep_aead_iv_len se = mk_len"
    using se_param by (auto simp del: se_param)
  then show ?thesis using assms nonempty(1) [OF assms]
    by (simp add: create_msg_keys_def kdf_call kdf_length msg_key_of_def message_key_def buf_def)
qed

lemma advance_to_ok:
  assumes "length k = hf_len" and "i \<le> s"
  shows "advance_to csp (chain_of i k) s = Some (0, chain_of s (chain_at mac k (unat s - unat i)))"
  using assms
proof (induction "unat s - unat i" arbitrary: i k)
  case 0
  then have "i = s" by (simp add: word_le_nat_alt word_unat_eq_iff)
  then show ?case by (simp add: advance_to.simps)
next
  case (Suc n)
  then have less: "i < s" by (auto simp: word_less_nat_alt)
  then have i: "unat (i + 1) = Suc (unat i)" "i + 1 \<le> s" by (simp_all add: unat_Suc_less word_Suc_le)
  have "advance_to csp (chain_of (i + 1) (mac k CHAIN_KEY_SEED)) s =
      Some (0, chain_of s (chain_at mac (mac k CHAIN_KEY_SEED) (unat s - unat (i + 1))))"
    using Suc.hyps i by (intro Suc.hyps(1)) auto
  moreover have "unat s - unat i = Suc (unat s - unat (i + 1))" using i less by (simp add: word_less_nat_alt)
  ultimately show ?case using less Suc.prems(1)
    by (subst advance_to.simps) (simp add: advance_ok chain_at_step)
qed

lemma verify_ok:
  assumes "length k = mk_len" and "ad \<noteq> []" and "pl_ratchet_key p = buf rk" "rk \<noteq> []"
    and "pl_ciphertext p = buf ct" "tag_len \<le> length ct" "length ct \<le> GCM_LIMIT + tag_len"
  shows "verify_and_decrypt out csp (buf ad) (Some (msg_key_of i k)) (Some p) =
    Some (open_result (aead_open k ad ct))"
proof -
  have "ct \<noteq> []" using assms(6) by (rule tagged_nonempty)
  then show ?thesis using assms nonempty(2) [OF assms(1)]
    by (simp add: verify_and_decrypt_def is_valid_one2one_msg_payload_def open_call)
qed

lemma existing_ok:
  assumes "length k = hf_len" and "ad \<noteq> []" and "pl_ratchet_key p = buf rk" "rk \<noteq> []"
    and "pl_ciphertext p = buf ct" "tag_len \<le> length ct" "length ct \<le> GCM_LIMIT + tag_len"
  shows "verify_and_decrypt_for_existing_chain out csp (buf ad) (Some (chain_of i k)) (Some p) =
    Some (if pl_sequence p < i then (- 1, out)
          else open_result (aead_open (mkey (chain_at mac k (unat (pl_sequence p) - unat i))) ad ct))"
proof -
  have "ct \<noteq> []" using assms(6) by (rule tagged_nonempty)
  moreover have "\<not> pl_sequence p < i \<Longrightarrow> i \<le> pl_sequence p" by simp
  ultimately show ?thesis using assms nonempty(1) [OF assms(1)]
    by (cases "pl_sequence p < i")
      (simp_all add: verify_and_decrypt_for_existing_chain_def is_valid_one2one_msg_payload_def advance_to_ok
        msg_keys_ok verify_ok chain_of_def [symmetric] del: not_less)
qed

lemma create_chain_dec:
  assumes "length root = hf_len" "length sk = sk_len" "length ct = rk_len"
    and "derived = kdf (dec sk ct) root KDF_INFO_RATCHET (2 * hf_len)"
  shows "create_chain_key csp (buf root) (Some (buf sk)) (Some (buf ct)) (buf root) init_chain_key None s =
    Some (0, buf (take hf_len derived), chain_of 0 (drop hf_len derived), None, s)"
proof -
  have d: "length derived = 2 * hf_len" by (simp add: assms(4) kdf_length)
  obtain ret where "call_decaps cs (buf sk) (buf ct) = Some (ret, dec sk ct)" "length (dec sk ct) = ss_len"
    using dec_call [OF assms(2,3)] by blast
  moreover have "sk \<noteq> []" "root \<noteq> []" "ct \<noteq> []" using assms nonempty by blast+
  ultimately show ?thesis using assms d
    by (simp add: create_chain_key_def create_chain_key_args_def kdf_call set_key_half_def init_chain_key_def
        overwrite_protobuf_from_array_def read_bytes_take chain_of_def)
qed

lemma create_chain_enc:
  assumes "length root = hf_len" "length pk = pk_len" and enc: "enc s pk = (ss, ct, s')"
    and "derived = kdf ss root KDF_INFO_RATCHET (2 * hf_len)"
  shows "create_chain_key csp (buf root) None (Some (buf pk)) (buf root) init_chain_key (Some empty_bdata) s =
    Some (0, buf (take hf_len derived), chain_of 0 (drop hf_len derived), Some (buf ct), s')"
proof -
  have d: "length derived = 2 * hf_len" by (simp add: assms(4) kdf_length)
  have "pk \<noteq> []" "root \<noteq> []" using assms nonempty by blast+
  then show ?thesis using assms d enc_call [OF assms(2) enc] sizes(4)
    by (simp add: create_chain_key_def create_chain_key_args_def kdf_call set_key_half_def init_chain_key_def
        overwrite_protobuf_from_array_def read_bytes_take chain_of_def)
qed

subsection \<open>Storing skipped keys\<close>

lemma store_ok:
  assumes chain: "rt_receiver_chain r = Some (receiver_of rk sk i k)" and len: "length k = hf_len" "length rk = rk_len"
    and room: "holds_room r ns (Suc m)"
  obtains r' l where "store_skipped csp r = Some (0, r')"
    "r' = r\<lparr>rt_skipped_msg_key_list := l, rt_n_skipped_msg_key_list := length ns + 1,
            rt_receiver_chain := Some (receiver_of rk sk (i + 1) (mac k CHAIN_KEY_SEED))\<rparr>"
    "holds_room r' (ns @ [(rk, i, mkey k)]) m"
proof -
  from store_room [OF room, of "(rk, i, mkey k)"] obtain l where
    l: "array_set (rt_skipped_msg_key_list r) (rt_n_skipped_msg_key_list r) (node_of (rk, i, mkey k)) = Some l"
      "\<And>r' :: ratchet. rt_n_skipped_msg_key_list r' = Suc (length ns) \<Longrightarrow> rt_skipped_msg_key_list r' = l \<Longrightarrow>
       holds_room r' (ns @ [(rk, i, mkey k)]) m" by blast
  have n: "rt_n_skipped_msg_key_list r = length ns" using room by (simp add: holds_room_def)
  have "store_skipped csp r = Some (0, r\<lparr>rt_skipped_msg_key_list := l, rt_n_skipped_msg_key_list := length ns + 1,
            rt_receiver_chain := Some (receiver_of rk sk (i + 1) (mac k CHAIN_KEY_SEED))\<rparr>)"
    using chain len l(1) n nonempty(3) [OF len(2)]
    by (simp add: store_skipped_def msg_keys_ok advance_ok node_of_def)
  then show ?thesis by (rule that) (simp_all add: l(2))
qed

lemma store_previous_ok:
  assumes "rt_receiver_chain r = Some (receiver_of rk sk i k)" and "length k = hf_len" "length rk = rk_len"
    and "holds_room r ns n"
  shows "\<exists>l r'. store_previous csp r n = Some (0, r') \<and>
    r' = r\<lparr>rt_skipped_msg_key_list := l, rt_n_skipped_msg_key_list := length ns + n,
           rt_receiver_chain := Some (receiver_of rk sk (i + of_nat n) (chain_at mac k n))\<rparr> \<and>
    holds_room r' (ns @ skipped_entries mac mkey rk i k n) 0"
  using assms
proof (induction n arbitrary: r ns i k)
  case 0
  then show ?case by (intro exI [of _ "rt_skipped_msg_key_list r"] exI [of _ r]) (simp add: holds_room_def)
next
  case (Suc n)
  obtain r1 l1 where step: "store_skipped csp r = Some (0, r1)"
    "r1 = r\<lparr>rt_skipped_msg_key_list := l1, rt_n_skipped_msg_key_list := length ns + 1,
            rt_receiver_chain := Some (receiver_of rk sk (i + 1) (mac k CHAIN_KEY_SEED))\<rparr>"
    "holds_room r1 (ns @ [(rk, i, mkey k)]) n"
    using store_ok [OF Suc.prems] by blast
  have "rt_receiver_chain r1 = Some (receiver_of rk sk (i + 1) (mac k CHAIN_KEY_SEED))" using step(2) by simp
  from Suc.IH [OF this _ Suc.prems(3) step(3)] obtain l r' where
    "store_previous csp r1 n = Some (0, r')"
    "r' = r1\<lparr>rt_skipped_msg_key_list := l, rt_n_skipped_msg_key_list := length (ns @ [(rk, i, mkey k)]) + n,
           rt_receiver_chain := Some (receiver_of rk sk (i + 1 + of_nat n) (chain_at mac (mac k CHAIN_KEY_SEED) n))\<rparr>"
    "holds_room r' ((ns @ [(rk, i, mkey k)]) @ skipped_entries mac mkey rk (i + 1) (mac k CHAIN_KEY_SEED) n) 0"
    by auto
  then show ?case using step by (intro exI [of _ l] exI [of _ r']) (simp add: chain_at_step add.assoc)
qed

text \<open>Both loops do the same work: the index loop runs as often as the chain lags behind.\<close>

lemma store_current_previous:
  assumes "rt_receiver_chain r = Some (receiver_of rk sk i k)" and "length k = hf_len" "length rk = rk_len"
    and "holds_room r ns n" and "unat s - unat i = n" "i \<le> s"
  shows "store_current csp r s = store_previous csp r n"
  using assms
proof (induction n arbitrary: r ns i k)
  case 0
  then have "i = s" by (simp add: word_le_nat_alt word_unat_eq_iff)
  then show ?case using 0(1) by (simp add: store_current.simps receiver_index_def)
next
  case (Suc n)
  obtain r1 l1 where step: "store_skipped csp r = Some (0, r1)"
    "r1 = r\<lparr>rt_skipped_msg_key_list := l1, rt_n_skipped_msg_key_list := length ns + 1,
            rt_receiver_chain := Some (receiver_of rk sk (i + 1) (mac k CHAIN_KEY_SEED))\<rparr>"
    "holds_room r1 (ns @ [(rk, i, mkey k)]) n"
    using store_ok [OF Suc.prems(1-4)] by blast
  have less: "i < s" using Suc.prems(5,6) by (auto simp: word_less_nat_alt)
  then have i: "unat (i + 1) = Suc (unat i)" "i + 1 \<le> s" by (simp_all add: unat_Suc_less word_Suc_le)
  have "store_current csp r1 s = store_previous csp r1 n"
    using step(2) i Suc.prems by (intro Suc.IH [OF _ _ _ step(3), where k = "mac k CHAIN_KEY_SEED"]) auto
  then show ?case using less step(1) Suc.prems(1)
    by (subst store_current.simps) (simp add: receiver_index_def)
qed

lemma wf_skipped_entries [simp]: "length rk = rk_len \<Longrightarrow> wf_entries mk_len rk_len (skipped_entries mac mkey rk i k n)"
  by (induction n arbitrary: i k) (auto simp: wf_entries_def)

abbreviation "wf_r \<equiv> wf_ratchet hf_len mk_len rk_len pk_len sk_len"

lemma wf_valid: "wf_r r ns \<Longrightarrow> is_valid_ratchet (Some r) = Some True"
proof -
  assume wf: "wf_r r ns"
  then have ns: "holds_skipped r ns" "\<forall>(rk, i, k)\<in>set ns. rk \<noteq> [] \<and> k \<noteq> []"
    using nonempty(2,3) by (auto simp: wf_ratchet_def wf_entries_def)
  have "rt_root_sequence r > 0 \<longleftrightarrow> rt_root_sequence r \<noteq> 0" using word_neq_0_conv by blast
  with wf show ?thesis using nonempty holds_skipped_valid [OF ns]
    by (auto simp: wf_ratchet_def is_valid_ratchet_def split: if_splits)
qed

lemma skip_current_ok:
  assumes chain: "rt_receiver_chain r = Some (receiver_of rk sk i k)" and len: "length k = hf_len" "length rk = rk_len"
    and ns: "holds_skipped r ns" and s: "i \<le> pl_sequence p" "n = unat (pl_sequence p) - unat i" "n \<le> 1024"
    and mem: "n = 0 \<or> mem_ok GrowCurrent"
  shows "\<exists>l r'. skip_current mem_ok csp r p = Some (0, r') \<and>
    r' = r\<lparr>rt_skipped_msg_key_list := l, rt_n_skipped_msg_key_list := length ns + n,
           rt_receiver_chain := Some (receiver_of rk sk (pl_sequence p) (chain_at mac k n))\<rparr> \<and>
    holds_skipped r' (ns @ skipped_entries mac mkey rk i k n)"
proof (cases "n = 0")
  case True
  then have "i = pl_sequence p" using s by (simp add: word_le_nat_alt word_unat_eq_iff)
  then have "skip_current mem_ok csp r p = Some (0, r)"
    using chain by (simp add: skip_current_def receiver_index_def)
  moreover have "r = r\<lparr>rt_skipped_msg_key_list := rt_skipped_msg_key_list r,
      rt_n_skipped_msg_key_list := length ns + n,
      rt_receiver_chain := Some (receiver_of rk sk (pl_sequence p) (chain_at mac k n))\<rparr>"
    using True chain ns \<open>i = pl_sequence p\<close> by (simp add: holds_skipped_def)
  ultimately show ?thesis using True ns by (intro exI [of _ "rt_skipped_msg_key_list r"] exI [of _ r]) simp
next
  case False
  then have less: "i < pl_sequence p" using s by (auto simp: word_less_nat_alt)
  have diff: "unat (pl_sequence p - i) = n" using s by (simp add: unat_sub_if' word_le_nat_alt)
  obtain l where grow: "grow_skipped True r n = (0, r\<lparr>rt_skipped_msg_key_list := l\<rparr>)"
      "holds_room (r\<lparr>rt_skipped_msg_key_list := l\<rparr>) ns n"
    using grow_ok [OF ns] by blast
  have chain': "rt_receiver_chain (r\<lparr>rt_skipped_msg_key_list := l\<rparr>) = Some (receiver_of rk sk i k)"
    using chain by simp
  have step: "skip_current mem_ok csp r p = store_previous csp (r\<lparr>rt_skipped_msg_key_list := l\<rparr>) n"
    using False less diff s(3) mem grow(1) chain
      store_current_previous [OF chain' len grow(2) s(2) [symmetric] s(1)]
    by (simp add: skip_current_def receiver_index_def)
  from store_previous_ok [OF chain' len grow(2)] obtain l' r' where
    r': "store_previous csp (r\<lparr>rt_skipped_msg_key_list := l\<rparr>) n = Some (0, r')"
      "r' = r\<lparr>rt_skipped_msg_key_list := l', rt_n_skipped_msg_key_list := length ns + n,
           rt_receiver_chain := Some (receiver_of rk sk (i + of_nat n) (chain_at mac k n))\<rparr>"
      "holds_room r' (ns @ skipped_entries mac mkey rk i k n) 0" by auto
  have "i + of_nat n = pl_sequence p" using diff by (metis add.commute diff_add_cancel of_nat_unat ucast_id)
  moreover have "skipped_entries mac mkey rk i k n \<noteq> []" using False by (cases n) auto
  ultimately show ?thesis using step r' holds_room_skipped by auto
qed

lemma advance_receiver_ok:
  assumes "rt_receiver_chain r = Some (receiver_of rk sk (pl_sequence p) k)" and "length k = hf_len"
  shows "advance_receiver csp r p =
    Some (r\<lparr>rt_receiver_chain := Some (receiver_of rk sk (pl_sequence p + 1) (mac k CHAIN_KEY_SEED))\<rparr>)"
  using assms by (simp add: advance_receiver_def advance_ok)

end

end
