(* ===== verification/Ratchet_Runs.thy ===== *)
theory Ratchet_Runs
  imports Ratchet_Laws
begin

section \<open>Runs of encrypt\_ratchet and decrypt\_ratchet\<close>

text \<open>
  The two public operations on well-formed ratchets, one lemma per way a message is received:
  on the current chain, with a stored key, on a new chain, or not at all.
\<close>

subsection \<open>The skipped keys\<close>

text \<open>What pruning leaves of a list of entries, oldest first.\<close>

definition newest :: "'a list \<Rightarrow> 'a list" where
  "newest xs = drop (length xs - MAX_SKIPPED_MESSAGE_KEY_NODES) xs"

text \<open>The update of the receive counter at the end of \<open>decrypt_ratchet\<close>.\<close>

definition bump :: "one2one_payload \<Rightarrow> ratchet \<Rightarrow> ratchet" where
  "bump p r = (if pl_sending_message_sequence p > rt_received_message_sequence r
     then r\<lparr>rt_received_message_sequence := pl_sending_message_sequence p\<rparr> else r)"

lemma bump_eq: "bump p r = r\<lparr>rt_received_message_sequence :=
    max (rt_received_message_sequence r) (pl_sending_message_sequence p)\<rparr>"
  by (auto simp: bump_def max_def)

lemma newest_small [simp]: "length xs \<le> 1024 \<Longrightarrow> newest xs = xs"
  by (simp add: newest_def)

lemma length_newest [simp]: "length (newest xs) = min (length xs) 1024"
  by (simp add: newest_def)

lemma newest_suffix: "suffix (newest xs) xs"
  by (simp add: newest_def suffix_drop)

lemma wf_entries_subset: "wf_entries m l ns \<Longrightarrow> set ns' \<subseteq> set ns \<Longrightarrow> wf_entries m l ns'"
  by (simp add: wf_entries_def) blast

lemma prune_ok:
  assumes "holds_skipped r ns"
  obtains l where "prune_bloated_skipped_keys r =
      Some (r\<lparr>rt_skipped_msg_key_list := l, rt_n_skipped_msg_key_list := length (newest ns)\<rparr>)"
    "\<And>r' :: ratchet. rt_skipped_msg_key_list r' = l \<Longrightarrow> rt_n_skipped_msg_key_list r' = length (newest ns) \<Longrightarrow>
       holds_skipped r' (newest ns)"
proof (cases "length ns \<le> 1024")
  case True
  with assms show ?thesis
    by (intro that [of "rt_skipped_msg_key_list r"]) (auto simp: holds_skipped_def prune_bloated_skipped_keys_def)
next
  case False
  then obtain xs where xs: "rt_skipped_msg_key_list r = Some xs" "length ns \<le> length xs"
      "take (length ns) xs = map node_of ns" "rt_n_skipped_msg_key_list r = length ns"
    using assms by (auto simp: holds_skipped_def split: option.splits)
  define d where "d = length ns - 1024"
  have d: "d + 1024 = length ns" using False by (simp add: d_def)
  have "take 1024 (drop d xs) = drop d (take (length ns) xs)" by (simp add: drop_take flip: d)
  also have "\<dots> = map node_of (newest ns)" using xs(3) by (simp add: newest_def d_def drop_map)
  finally have l: "take 1024 (drop d xs) = map node_of (newest ns)" .
  have "map_loop Some (Some xs) d 1024 = Some (map id (take 1024 (drop d xs)))"
    by (rule map_loop_Some) (use d xs(2) in auto)
  then have "map_loop Some (Some xs) d 1024 = Some (map node_of (newest ns))" using l by simp
  with False xs show ?thesis
    by (intro that [of "Some (map node_of (newest ns))"])
      (auto simp: prune_bloated_skipped_keys_def d_def holds_skipped_def min_def simp flip: length_0_conv)
qed

lemma remove_ok:
  assumes ns: "holds_skipped r ns" and j: "j < length ns"
  obtains l where "remove_skipped mem_ok r j =
      Some (if length ns = 1 \<or> mem_ok ShrinkSkipped then 0 else - 1,
            r\<lparr>rt_skipped_msg_key_list := l, rt_n_skipped_msg_key_list := length ns - 1\<rparr>)"
    "\<And>r' :: ratchet. rt_skipped_msg_key_list r' = l \<Longrightarrow> rt_n_skipped_msg_key_list r' = length ns - 1 \<Longrightarrow>
       holds_skipped r' (take j ns @ drop (Suc j) ns)"
proof -
  from assms obtain xs where xs: "rt_skipped_msg_key_list r = Some xs" "length ns \<le> length xs"
      "take (length ns) xs = map node_of ns" "rt_n_skipped_msg_key_list r = length ns"
    by (auto simp: holds_skipped_def split: option.splits)
  show ?thesis
  proof (cases "length ns = 1")
    case True
    then have "map_loop Some (Some xs) 0 1 = Some (take 1 xs)" using xs(2) by (intro map_loop_id) auto
    with True xs j show ?thesis
      by (intro that [of None]) (auto simp: remove_skipped_def free_skipped_message_key_def holds_skipped_def)
  next
    case False
    define moved where "moved = take (length ns - j - 1) (drop (j + 1) xs)"
    define ys where "ys = take j xs @ moved @ drop (length ns - 1) xs"
    have "map_loop Some (Some xs) (j + 1) (length ns - j - 1) = Some (map id (take (length ns - j - 1) (drop (j + 1) xs)))"
      by (rule map_loop_Some) (use j xs(2) in auto)
    then have loop: "map_loop Some (Some xs) (Suc j) (length ns - Suc j) = Some moved" by (simp add: moved_def)
    have "take j xs = take j (take (length ns) xs)" using j by (simp add: min_def)
    also have "\<dots> = map node_of (take j ns)" using xs(3) by (simp add: take_map)
    finally have a: "take j xs = map node_of (take j ns)" .
    have "moved = drop (j + 1) (take (length ns) xs)" by (simp add: moved_def drop_take)
    also have "\<dots> = map node_of (drop (Suc j) ns)" using xs(3) by (simp add: drop_map)
    finally have b: "moved = map node_of (drop (Suc j) ns)" .
    have ys: "take (length ns - 1) ys = map node_of (take j ns @ drop (Suc j) ns)" "length ns - 1 \<le> length ys"
      using a b j xs(2) by (auto simp: ys_def)
    have nonempty: "take j ns @ drop (Suc j) ns \<noteq> []" using False j
      by (metis append_is_Nil_conv drop_eq_Nil take_eq_Nil length_0_conv le_antisym less_eq_Suc_le not_less_zero One_nat_def)
    have len: "length (take j ns @ drop (Suc j) ns) = length ns - 1" using j by simp
    have step: "remove_skipped mem_ok r j =
      Some (if length ns = 1 \<or> mem_ok ShrinkSkipped then 0 else - 1,
            r\<lparr>rt_skipped_msg_key_list := Some (if mem_ok ShrinkSkipped then take (length ns - 1) ys else ys),
              rt_n_skipped_msg_key_list := length ns - 1\<rparr>)"
      using False xs loop by (simp add: remove_skipped_def ys_def Let_def)
    show ?thesis
    proof (rule that [OF step])
      fix r' :: ratchet
      assume "rt_skipped_msg_key_list r' = Some (if mem_ok ShrinkSkipped then take (length ns - 1) ys else ys)"
        "rt_n_skipped_msg_key_list r' = length ns - 1"
      then show "holds_skipped r' (take j ns @ drop (Suc j) ns)"
        using nonempty len ys by (auto simp: holds_skipped_def min_def)
    qed
  qed
qed

text \<open>A payload as the receiver's length checks and the cipher expect it.\<close>

definition wf_payload :: "nat \<Rightarrow> nat \<Rightarrow> one2one_payload \<Rightarrow> bytes \<Rightarrow> bytes \<Rightarrow> bool" where
  "wf_payload rk_len tag_len p rk ct \<longleftrightarrow>
     pl_ratchet_key p = buf rk \<and> length rk = rk_len \<and> pl_ciphertext p = buf ct \<and>
     tag_len \<le> length ct \<and> length ct \<le> GCM_LIMIT + tag_len"

text \<open>The stored entry \<open>e\<close> opens the message: same ratchet key, same number, and it authenticates.\<close>

definition opens :: "(bytes \<Rightarrow> bytes \<Rightarrow> bytes \<Rightarrow> bytes option) \<Rightarrow> bytes \<Rightarrow> u32 \<Rightarrow> bytes \<Rightarrow> bytes \<Rightarrow>
    bytes \<times> u32 \<times> bytes \<Rightarrow> bytes option" where
  "opens aopen rk q ad ct = (\<lambda>(rk', i, k). if rk' = rk \<and> i = q then aopen k ad ct else None)"

lemma holds_skipped_nth:
  assumes "holds_skipped r ns" and "j < length ns"
  shows "array_get (rt_skipped_msg_key_list r) j = Some (node_of (ns ! j))"
proof -
  from assms obtain xs where xs: "rt_skipped_msg_key_list r = Some xs" "length ns \<le> length xs"
      "take (length ns) xs = map node_of ns"
    by (auto simp: holds_skipped_def split: option.splits)
  have "xs ! j = take (length ns) xs ! j" using assms(2) by simp
  also have "\<dots> = node_of (ns ! j)" using xs(3) assms(2) by simp
  finally show ?thesis using xs(1,2) assms(2) by (simp add: array_get_Some)
qed

context e2ee_suite
begin

abbreviation "wf_p \<equiv> wf_payload rk_len tag_len"
abbreviation "hit p rk ad ct \<equiv> opens aead_open rk (pl_sequence p) ad ct"

lemma skipped_match_ok:
  assumes "wf_p p rk ct" and "length rk' = rk_len"
  shows "skipped_match (node_of (rk', i, k)) p rk_len = Some (rk' = rk \<and> i = pl_sequence p)"
  using assms by (auto simp: skipped_match_def node_of_def wf_payload_def)

lemma search_step:
  assumes ns: "holds_skipped r ns" "wf_entries mk_len rk_len ns" and p: "wf_p p rk ct" and ad: "ad \<noteq> []"
    and j: "j < length ns"
  shows "search_skipped mem_ok csp (buf ad) p rk_len r empty_bdata (- 1) j (Suc m) =
    (case hit p rk ad ct (ns ! j) of
       None \<Rightarrow> search_skipped mem_ok csp (buf ad) p rk_len r empty_bdata (- 1) (Suc j) m
     | Some pt \<Rightarrow> do { (ret, r) \<leftarrow> remove_skipped mem_ok r j; Some (ret, plain_out pt, r) })"
proof -
  obtain rk' i k where e: "ns ! j = (rk', i, k)" by (metis prod_cases3)
  have "(rk', i, k) \<in> set ns" using j e by (metis nth_mem)
  then have len: "length rk' = rk_len" "length k = mk_len" using ns(2) by (auto simp: wf_entries_def)
  have get: "array_get (rt_skipped_msg_key_list r) j = Some (node_of (rk', i, k))"
    using holds_skipped_nth [OF ns(1) j] e by simp
  have node: "node_of (rk', i, k) = Some \<lparr>sk_ratchet_key_public = buf rk', sk_msg_key = Some (msg_key_of i k)\<rparr>"
    by (simp add: node_of_def)
  show ?thesis
  proof (cases "rk' = rk \<and> i = pl_sequence p")
    case False
    then show ?thesis using e get skipped_match_ok [OF p len(1)] by (auto simp: opens_def)
  next
    case True
    have "verify_and_decrypt empty_bdata csp (buf ad) (Some (msg_key_of i k)) (Some p) =
        Some (open_result (aead_open k ad ct))"
      using p len nonempty(3) [of rk] by (intro verify_ok [OF len(2) ad]) (auto simp: wf_payload_def)
    then show ?thesis using True e get [unfolded node] skipped_match_ok [OF p len(1), of i k, unfolded node]
      by (cases "aead_open k ad ct") (simp_all add: opens_def open_result_def)
  qed
qed

lemma search_none:
  assumes ns: "holds_skipped r ns" "wf_entries mk_len rk_len ns" and p: "wf_p p rk ct" and ad: "ad \<noteq> []"
    and none: "\<forall>e\<in>set ns. hit p rk ad ct e = None"
  shows "j + m = length ns \<Longrightarrow>
    search_skipped mem_ok csp (buf ad) p rk_len r empty_bdata (- 1) j m = Some (- 1, empty_bdata, r)"
proof (induction m arbitrary: j)
  case 0
  show ?case by simp
next
  case (Suc m)
  then have j: "j < length ns" by simp
  then have "hit p rk ad ct (ns ! j) = None" using none by simp
  then show ?case using search_step [OF ns p ad j] Suc by simp
qed

lemma search_hit:
  assumes ns: "holds_skipped r ns" "wf_entries mk_len rk_len ns" and p: "wf_p p rk ct" and ad: "ad \<noteq> []"
    and j: "j < length ns" "hit p rk ad ct (ns ! j) = Some pt"
    and before: "\<forall>i<j. hit p rk ad ct (ns ! i) = None"
  shows "i \<le> j \<Longrightarrow> i + m = length ns \<Longrightarrow>
    search_skipped mem_ok csp (buf ad) p rk_len r empty_bdata (- 1) i m =
      do { (ret, r) \<leftarrow> remove_skipped mem_ok r j; Some (ret, plain_out pt, r) }"
proof (induction m arbitrary: i)
  case 0
  then show ?case using j(1) by simp
next
  case (Suc m)
  then have i: "i < length ns" by simp
  show ?case
  proof (cases "i = j")
    case True
    then show ?thesis using search_step [OF ns p ad i] j by simp
  next
    case False
    then have "hit p rk ad ct (ns ! i) = None" using before Suc.prems by simp
    then show ?thesis using search_step [OF ns p ad i] Suc False by simp
  qed
qed

subsection \<open>Checks\<close>

lemma wf_payload_valid:
  assumes "wf_p p rk ct"
  shows "is_valid_one2one_msg_payload (Some p)" "pb_len (pl_ratchet_key p) = rk_len"
  using assms nonempty(3) [of rk] tagged_nonempty [of ct]
  by (auto simp: is_valid_one2one_msg_payload_def wf_payload_def)

lemma checks_ok:
  assumes "wf_r r ns" and "wf_p p rk ct" and "ad \<noteq> []"
  shows "decrypt_checks csp (Some r) (buf ad) (Some p) =
    (if rt_root_sequence r = 0 \<and> pl_sending_message_sequence p < pl_sequence p then Some (- 1, NewChain, False, rk_len)
     else do { (ret, way, corresponding) \<leftarrow> classify_root r p; Some (ret, way, corresponding, rk_len) })"
  using wf_valid [OF assms(1)] wf_payload_valid [OF assms(2)] assms(3)
  by (simp add: decrypt_checks_def)

lemma decrypt_unfold:
  assumes "wf_r r ns" and "wf_p p rk ct" and "ad \<noteq> []"
    and "\<not> (rt_root_sequence r = 0 \<and> pl_sending_message_sequence p < pl_sequence p)"
  shows "decrypt_ratchet mem_ok csp (Some r) (buf ad) (Some p) s =
    do { (ret, way, corresponding) \<leftarrow> classify_root r p;
         (ret, out, r, s) \<leftarrow>
            (if ret = 0 then decrypt_trial mem_ok csp r (buf ad) p way rk_len s else Some (ret, empty_bdata, r, s));
         (ret, r, s) \<leftarrow>
            (if ret = 0 then decrypt_update mem_ok csp r p way corresponding s else Some (ret, r, s));
         r \<leftarrow> prune_bloated_skipped_keys (bump p r);
         Some (ret, if ret \<noteq> 0 \<and> pb_data out \<noteq> None then empty_bdata else out, r, s) }"
proof -
  have "decrypt_checks csp (Some r) (buf ad) (Some p) =
      do { (ret, way, corresponding) \<leftarrow> classify_root r p; Some (ret, way, corresponding, rk_len) }"
    using checks_ok [OF assms(1-3)] assms(4) by auto
  then show ?thesis
    by (cases "classify_root r p") (simp_all add: decrypt_ratchet_def bump_def split: prod.split)
qed

lemma pred_less: "x \<noteq> 0 \<Longrightarrow> x - 1 < (x :: u32)"
  by (metis unat_minus_one word_less_nat_alt diff_less less_numeral_extra(1) unat_gt_0)

lemma classify_current:
  assumes "rt_root_sequence r \<noteq> 0" "pl_root_sequence p = rt_root_sequence r - 1"
    and "rt_receiver_chain r = Some (receiver_of rk' sk i k)" and "pl_ratchet_key p = buf rk"
  shows "classify_root r p =
    Some (if rk' = rk then (0, if i > pl_sequence p then Skipped else CurrentChain, True)
          else (- 1, NewChain, False))"
  using assms pred_less [OF assms(1)] by (auto simp: classify_root_def Let_def)

lemma classify_old:
  assumes "pl_root_sequence p < rt_root_sequence r" "pl_root_sequence p \<noteq> rt_root_sequence r - 1"
  shows "classify_root r p = Some (0, Skipped, False)"
  using assms by (auto simp: classify_root_def Let_def)

lemma classify_rest:
  assumes "\<not> pl_root_sequence p < rt_root_sequence r"
  shows "classify_root r p =
    Some (if pl_root_sequence p \<noteq> rt_root_sequence r \<and> pl_root_sequence p = rt_root_sequence r + 1 then 0 else - 1,
      NewChain, False)"
  using assms by (auto simp: classify_root_def Let_def)

lemma plain_out_data [simp]: "pb_data (plain_out pt) = None \<longleftrightarrow> pt = []"
  by (simp add: plain_out_def)

subsection \<open>A message on the current chain\<close>

lemma wf_receiver:
  assumes "wf_r r ns" and "rt_root_sequence r \<noteq> 0"
  obtains rk sk i k where "rt_receiver_chain r = Some (receiver_of rk sk i k)"
    "length rk = rk_len" "length sk = sk_len" "length k = hf_len"
  using assms by (auto simp: wf_ratchet_def)

lemma wf_receiverD:
  assumes "wf_r r ns" and "rt_root_sequence r \<noteq> 0" and "rt_receiver_chain r = Some (receiver_of rk sk i k)"
  shows "length rk = rk_len" "length sk = sk_len" "length k = hf_len"
  using wf_receiver [OF assms(1,2)] assms(3) by auto

lemma wf_skipped: "wf_r r ns \<Longrightarrow> holds_skipped r ns" "wf_r r ns \<Longrightarrow> wf_entries mk_len rk_len ns"
  by (simp_all add: wf_ratchet_def)

lemma trial_current:
  assumes chain: "rt_receiver_chain r = Some (receiver_of rk sk i k)" and len: "length k = hf_len" "length rk = rk_len"
    and p: "wf_p p rk ct" and ad: "ad \<noteq> []" and i: "i \<le> pl_sequence p"
  shows "decrypt_trial mem_ok csp r (buf ad) p CurrentChain rk_len s =
    (let (ret, out) = open_result (aead_open (mkey (chain_at mac k (unat (pl_sequence p) - unat i))) ad ct)
     in Some (ret, out, r, s))"
proof -
  have p': "pl_ratchet_key p = buf rk" "pl_ciphertext p = buf ct" "tag_len \<le> length ct"
      "length ct \<le> GCM_LIMIT + tag_len" using p by (auto simp: wf_payload_def)
  have "\<not> pl_sequence p < i" using i by simp
  then show ?thesis
    using existing_ok [OF len(1) ad p'(1) nonempty(3) [OF len(2)] p'(2-4), of empty_bdata i] chain
    by (simp add: decrypt_trial_def del: not_less split: prod.split)
qed

lemma decrypt_current:
  assumes wf: "wf_r r ns" and p: "wf_p p rk ct" and ad: "ad \<noteq> []"
    and root: "rt_root_sequence r \<noteq> 0" "pl_root_sequence p = rt_root_sequence r - 1"
    and chain: "rt_receiver_chain r = Some (receiver_of rk sk i k)"
    and i: "i \<le> pl_sequence p" and n: "n = unat (pl_sequence p) - unat i" "n \<le> 1024"
    and mem: "n = 0 \<or> mem_ok GrowCurrent"
    and op: "aead_open (mkey (chain_at mac k n)) ad ct = Some pt"
  shows "\<exists>l r'. decrypt_ratchet mem_ok csp (Some r) (buf ad) (Some p) s = Some (0, plain_out pt, r', s) \<and>
    r' = (bump p r)\<lparr>rt_skipped_msg_key_list := l, rt_n_skipped_msg_key_list := min (length ns + n) 1024,
            rt_receiver_chain := Some (receiver_of rk sk (pl_sequence p + 1) (chain_at mac k (Suc n)))\<rparr> \<and>
    holds_skipped r' (newest (ns @ skipped_entries mac mkey rk i k n))"
proof -
  note len = wf_receiverD [OF wf root(1) chain]
  have p': "pl_ratchet_key p = buf rk" using p by (simp add: wf_payload_def)
  have way: "classify_root r p = Some (0, CurrentChain, True)"
    using classify_current [OF root chain p'] i by (auto simp: not_less)
  have trial: "decrypt_trial mem_ok csp r (buf ad) p CurrentChain rk_len s = Some (0, plain_out pt, r, s)"
    using trial_current [OF chain len(3,1) p ad i] op n(1) by (simp add: open_result_def)
  obtain l r1 where skip: "skip_current mem_ok csp r p = Some (0, r1)"
      "r1 = r\<lparr>rt_skipped_msg_key_list := l, rt_n_skipped_msg_key_list := length ns + n,
           rt_receiver_chain := Some (receiver_of rk sk (pl_sequence p) (chain_at mac k n))\<rparr>"
      "holds_skipped r1 (ns @ skipped_entries mac mkey rk i k n)"
    using skip_current_ok [where mem_ok = mem_ok, OF chain len(3,1) wf_skipped(1) [OF wf] i n mem] by blast
  define r2 where "r2 = r1\<lparr>rt_receiver_chain :=
      Some (receiver_of rk sk (pl_sequence p + 1) (mac (chain_at mac k n) CHAIN_KEY_SEED))\<rparr>"
  have "advance_receiver csp r1 p = Some r2"
    unfolding r2_def by (rule advance_receiver_ok) (use skip(2) len in auto)
  then have upd: "decrypt_update mem_ok csp r p CurrentChain True s = Some (0, r2, s)"
    using skip(1) by (simp add: decrypt_update_def)
  have h: "holds_skipped (bump p r2) (ns @ skipped_entries mac mkey rk i k n)"
    using skip(3) by (simp add: holds_skipped_def r2_def bump_eq)
  obtain l' where prune: "prune_bloated_skipped_keys (bump p r2) = Some ((bump p r2)\<lparr>rt_skipped_msg_key_list := l',
        rt_n_skipped_msg_key_list := length (newest (ns @ skipped_entries mac mkey rk i k n))\<rparr>)"
    "\<And>r' :: ratchet. rt_skipped_msg_key_list r' = l' \<Longrightarrow>
        rt_n_skipped_msg_key_list r' = length (newest (ns @ skipped_entries mac mkey rk i k n)) \<Longrightarrow>
       holds_skipped r' (newest (ns @ skipped_entries mac mkey rk i k n))"
    using prune_ok [OF h] by blast
  have "decrypt_ratchet mem_ok csp (Some r) (buf ad) (Some p) s = Some (0, plain_out pt,
      (bump p r2)\<lparr>rt_skipped_msg_key_list := l', rt_n_skipped_msg_key_list := min (length ns + n) 1024\<rparr>, s)"
    using decrypt_unfold [OF wf p ad] root(1) way trial upd prune(1) by simp
  then show ?thesis using prune(2) skip(2)
    by (intro exI [of _ l'] exI conjI) (auto simp: r2_def bump_eq chain_at_Suc)
qed

subsection \<open>Messages that are refused, and messages with a stored key\<close>

lemma prune_wf:
  assumes "wf_r r ns"
  shows "prune_bloated_skipped_keys (bump p r) = Some (bump p r)"
  using assms by (simp add: wf_ratchet_def holds_skipped_def prune_bloated_skipped_keys_def bump_eq)

lemma wf_bump [simp]: "wf_r (bump p r) ns \<longleftrightarrow> wf_r r ns"
  by (simp add: wf_ratchet_def holds_skipped_def bump_eq)

text \<open>A message that does not pass the checks or the trial decryption leaves the state but for one counter.\<close>

lemma decrypt_refused:
  assumes wf: "wf_r r ns" and p: "wf_p p rk ct" and ad: "ad \<noteq> []"
    and refused: "rt_root_sequence r = 0 \<and> pl_sending_message_sequence p < pl_sequence p \<or>
      (\<exists>ret way c. classify_root r p = Some (ret, way, c) \<and>
         (ret = - 1 \<or> ret = 0 \<and> decrypt_trial mem_ok csp r (buf ad) p way rk_len s = Some (- 1, empty_bdata, r, s)))"
  shows "decrypt_ratchet mem_ok csp (Some r) (buf ad) (Some p) s = Some (- 1, empty_bdata, bump p r, s)"
proof (cases "rt_root_sequence r = 0 \<and> pl_sending_message_sequence p < pl_sequence p")
  case True
  then have "decrypt_checks csp (Some r) (buf ad) (Some p) = Some (- 1, NewChain, False, rk_len)"
    using checks_ok [OF wf p ad] by simp
  then show ?thesis using prune_wf [OF wf] by (simp add: decrypt_ratchet_def bump_def)
next
  case False
  with refused obtain ret way c where way: "classify_root r p = Some (ret, way, c)"
      "ret = - 1 \<or> ret = 0 \<and> decrypt_trial mem_ok csp r (buf ad) p way rk_len s = Some (- 1, empty_bdata, r, s)" by auto
  then show ?thesis using decrypt_unfold [OF wf p ad False] prune_wf [OF wf] by (cases "ret = 0") auto
qed

lemma trial_skipped_none:
  assumes wf: "wf_r r ns" and p: "wf_p p rk ct" and ad: "ad \<noteq> []"
    and none: "\<forall>e\<in>set ns. hit p rk ad ct e = None"
  shows "decrypt_trial mem_ok csp r (buf ad) p Skipped rk_len s = Some (- 1, empty_bdata, r, s)"
proof -
  have "rt_n_skipped_msg_key_list r = length ns" using wf_skipped(1) [OF wf] by (simp add: holds_skipped_def)
  then show ?thesis using search_none [OF wf_skipped [OF wf] p ad none, of 0 "length ns" mem_ok]
    by (simp add: decrypt_trial_def)
qed

lemma decrypt_skipped:
  assumes wf: "wf_r r ns" and p: "wf_p p rk ct" and ad: "ad \<noteq> []" and root: "rt_root_sequence r \<noteq> 0"
    and way: "classify_root r p = Some (0, Skipped, c)"
    and later: "c \<Longrightarrow> \<exists>sk i k. rt_receiver_chain r = Some (receiver_of rk sk i k) \<and> pl_sequence p < i"
    and j: "j < length ns" "hit p rk ad ct (ns ! j) = Some pt" "\<forall>i<j. hit p rk ad ct (ns ! i) = None"
  shows "\<exists>l r'. decrypt_ratchet mem_ok csp (Some r) (buf ad) (Some p) s =
      (if length ns = 1 \<or> mem_ok ShrinkSkipped then Some (0, plain_out pt, r', s) else Some (- 1, empty_bdata, r', s)) \<and>
    r' = (bump p r)\<lparr>rt_skipped_msg_key_list := l, rt_n_skipped_msg_key_list := length ns - 1\<rparr> \<and>
    holds_skipped r' (take j ns @ drop (Suc j) ns)"
proof -
  let ?ret = "if length ns = 1 \<or> mem_ok ShrinkSkipped then 0 else - 1 :: int"
  have n: "rt_n_skipped_msg_key_list r = length ns" "length ns \<le> 1024"
    using wf by (simp_all add: wf_ratchet_def holds_skipped_def)
  from remove_ok [OF wf_skipped(1) [OF wf] j(1), of mem_ok] obtain l where
    rem: "remove_skipped mem_ok r j =
      Some (?ret, r\<lparr>rt_skipped_msg_key_list := l, rt_n_skipped_msg_key_list := length ns - 1\<rparr>)"
    "\<And>r' :: ratchet. rt_skipped_msg_key_list r' = l \<Longrightarrow> rt_n_skipped_msg_key_list r' = length ns - 1 \<Longrightarrow>
       holds_skipped r' (take j ns @ drop (Suc j) ns)" by blast
  define r1 where "r1 = r\<lparr>rt_skipped_msg_key_list := l, rt_n_skipped_msg_key_list := length ns - 1\<rparr>"
  have trial: "decrypt_trial mem_ok csp r (buf ad) p Skipped rk_len s = Some (?ret, plain_out pt, r1, s)"
    using search_hit [OF wf_skipped [OF wf] p ad j, of 0 "length ns" mem_ok] rem(1) n
    by (simp add: decrypt_trial_def r1_def)
  have "decrypt_update mem_ok csp r1 p Skipped c s = Some (0, r1, s)"
  proof (cases c)
    case True
    then obtain sk i k where "rt_receiver_chain r1 = Some (receiver_of rk sk i k)" "pl_sequence p < i"
      using later by (auto simp: r1_def)
    then show ?thesis
      by (auto simp: decrypt_update_def skip_current_def advance_receiver_def receiver_index_def)
  qed (simp add: decrypt_update_def)
  moreover have "prune_bloated_skipped_keys (bump p r1) = Some (bump p r1)"
    using le_trans [OF diff_le_self n(2), of 1] by (simp add: prune_bloated_skipped_keys_def r1_def bump_eq)
  ultimately have "decrypt_ratchet mem_ok csp (Some r) (buf ad) (Some p) s =
      (if length ns = 1 \<or> mem_ok ShrinkSkipped then Some (0, plain_out pt, bump p r1, s)
       else Some (- 1, empty_bdata, bump p r1, s))"
    using decrypt_unfold [OF wf p ad] root way trial by (auto simp: plain_out_def)
  then show ?thesis using rem(2)
    by (intro exI [of _ l] exI [of _ "bump p r1"]) (auto simp: r1_def bump_eq)
qed

subsection \<open>A message on a new chain\<close>

lemma skip_previous_ok:
  assumes chain: "rt_receiver_chain r = Some (receiver_of rk sk i k)" and len: "length k = hf_len" "length rk = rk_len"
    and ns: "holds_skipped r ns"
    and m: "m = unat (pl_sending_message_sequence p) - unat (rt_received_message_sequence r + (pl_sequence p + 1))"
      "m \<le> 1024"
    and mem: "m = 0 \<or> mem_ok GrowPrevious"
  shows "\<exists>l r'. skip_previous mem_ok csp r p = Some (0, r') \<and>
    r' = r\<lparr>rt_skipped_msg_key_list := l, rt_n_skipped_msg_key_list := length ns + m,
           rt_receiver_chain := Some (receiver_of rk sk (i + of_nat m) (chain_at mac k m))\<rparr> \<and>
    holds_skipped r' (ns @ skipped_entries mac mkey rk i k m)"
proof (cases "m = 0")
  case True
  then have "skip_previous mem_ok csp r p = Some (0, r)" using m by (simp add: skip_previous_def)
  then show ?thesis using True chain ns
    by (intro exI [of _ "rt_skipped_msg_key_list r"] exI [of _ r]) (simp add: holds_skipped_def)
next
  case False
  obtain l where grow: "grow_skipped True r m = (0, r\<lparr>rt_skipped_msg_key_list := l\<rparr>)"
      "holds_room (r\<lparr>rt_skipped_msg_key_list := l\<rparr>) ns m"
    using grow_ok [OF ns] by blast
  have chain': "rt_receiver_chain (r\<lparr>rt_skipped_msg_key_list := l\<rparr>) = Some (receiver_of rk sk i k)"
    using chain by simp
  have "skip_previous mem_ok csp r p = store_previous csp (r\<lparr>rt_skipped_msg_key_list := l\<rparr>) m"
    using False m mem grow(1) by (simp add: skip_previous_def Let_def)
  moreover have "skipped_entries mac mkey rk i k m \<noteq> []" using False by (cases m) auto
  ultimately show ?thesis using store_previous_ok [OF chain' len grow(2)] holds_room_skipped by auto
qed

lemma new_chains_ok:
  assumes "rt_root_key r = buf root" "length root = hf_len"
    and "rt_receiver_chain r = Some chain" "rc_our_ratchet_private_key chain = buf sk" "length sk = sk_len"
    and "rt_sender_chain r = Some (sender_of pk rk' i k)" "length pk = pk_len"
    and "pl_ratchet_key p = buf rk" "length rk = rk_len"
    and enc: "enc s pk = (ss, ct, s')"
    and d1: "d1 = kdf (dec sk rk) root KDF_INFO_RATCHET (2 * hf_len)"
    and d2: "d2 = kdf ss (take hf_len d1) KDF_INFO_RATCHET (2 * hf_len)"
  shows "new_chains csp r p s =
    Some (r\<lparr>rt_root_key := buf (take hf_len d2),
            rt_receiver_chain := Some (receiver_of rk sk 0 (drop hf_len d1)),
            rt_sender_chain := Some (sender_of pk ct 0 (drop hf_len d2)),
            rt_root_sequence := rt_root_sequence r + 1 + 1\<rparr>, s')"
proof -
  have "length d1 = 2 * hf_len" by (simp add: d1 kdf_length)
  then have "length (take hf_len d1) = hf_len" by simp
  from create_chain_enc [OF this assms(7) enc d2] create_chain_dec [OF assms(2,5,9) d1, of s]
  show ?thesis using assms nonempty(3) [OF assms(9)] nonempty(4) [OF assms(5)] nonempty(5) [OF assms(7)]
    by (simp add: new_chains_def receiver_of_def [symmetric] sender_of_def [symmetric])
qed

text \<open>The secrets a new ratchet key yields: the next root key and the receiver's chain key.\<close>

abbreviation "step_secrets secret root \<equiv> kdf secret root KDF_INFO_RATCHET (2 * hf_len)"

lemma step_secrets_length [simp]: "length (step_secrets secret root) = 2 * hf_len"
  by (simp add: kdf_length)

lemma unat_next: "x + 1 \<noteq> 0 \<Longrightarrow> unat (x + 1) = Suc (unat (x :: u32))"
  using unatSuc [of x] by (simp add: add.commute)

lemma trial_new:
  assumes wf: "wf_r r ns" and p: "wf_p p rk ct" and ad: "ad \<noteq> []"
    and root: "pl_root_sequence p = rt_root_sequence r + 1" "rt_root_sequence r + 1 \<noteq> 0"
    and key: "rt_root_key r = buf rt" "length rt = hf_len"
    and chain: "rt_receiver_chain r = Some chain" "rc_our_ratchet_private_key chain = buf sk" "length sk = sk_len"
  shows "decrypt_trial mem_ok csp r (buf ad) p NewChain rk_len s =
    (let (ret, out) = open_result (aead_open (mkey (chain_at mac (drop hf_len (step_secrets (dec sk rk) rt))
        (unat (pl_sequence p)))) ad ct) in Some (ret, out, r, s))"
proof -
  have p': "pl_ratchet_key p = buf rk" "pl_ciphertext p = buf ct" "tag_len \<le> length ct"
      "length ct \<le> GCM_LIMIT + tag_len" "length rk = rk_len" using p by (auto simp: wf_payload_def)
  have one: "unat (rt_root_sequence r + 1) - unat (rt_root_sequence r) = 1"
    using root(2) by (simp add: unat_next)
  have "length (drop hf_len (step_secrets (dec sk rk) rt)) = hf_len" by simp
  from existing_ok [OF this ad p'(1) nonempty(3) [OF p'(5)] p'(2-4), of empty_bdata 0]
  show ?thesis using root p' chain key one wf_valid [OF wf] wf_payload_valid [OF p] ad nonempty(1) [OF key(2)]
      create_chain_dec [OF key(2) chain(3) p'(5) refl, of s]
    by (simp add: decrypt_trial_def verify_and_decrypt_for_new_chain_def split: prod.split)
qed

lemma classify_new:
  assumes "pl_root_sequence p = rt_root_sequence r + 1" "rt_root_sequence r + 1 \<noteq> 0"
  shows "classify_root r p = Some (0, NewChain, False)"
proof -
  have "unat (rt_root_sequence r) < unat (pl_root_sequence p)" using assms by (simp add: unat_next)
  then have "\<not> pl_root_sequence p < rt_root_sequence r" "pl_root_sequence p \<noteq> rt_root_sequence r"
    by (auto simp: word_less_nat_alt)
  then show ?thesis using assms by (simp add: classify_rest)
qed

text \<open>The update for a new chain, from a state whose previous chain has been caught up.\<close>

lemma new_chain_tail:
  assumes key: "rt_root_key r = buf rt" "length rt = hf_len"
    and chain: "rt_receiver_chain r = Some chain" "rc_our_ratchet_private_key chain = buf sk" "length sk = sk_len"
    and sender: "rt_sender_chain r = Some (sender_of pk rk' i k)" "length pk = pk_len"
    and p: "pl_ratchet_key p = buf rk" "length rk = rk_len"
    and enc: "enc s pk = (ss, ct, s')"
    and ns: "holds_skipped r ns" and n: "unat (pl_sequence p) \<le> 1024" and mem: "unat (pl_sequence p) = 0 \<or> mem_ok GrowCurrent"
    and d1: "d1 = step_secrets (dec sk rk) rt" and d2: "d2 = step_secrets ss (take hf_len d1)"
  shows "\<exists>l r1 r2 r'. new_chains csp r p s = Some (r1, s') \<and> skip_current mem_ok csp r1 p = Some (0, r2) \<and>
    advance_receiver csp r2 p = Some r' \<and>
    r' = r\<lparr>rt_root_key := buf (take hf_len d2),
           rt_receiver_chain := Some (receiver_of rk sk (pl_sequence p + 1)
              (chain_at mac (drop hf_len d1) (Suc (unat (pl_sequence p))))),
           rt_sender_chain := Some (sender_of pk ct 0 (drop hf_len d2)),
           rt_root_sequence := rt_root_sequence r + 1 + 1,
           rt_skipped_msg_key_list := l, rt_n_skipped_msg_key_list := length ns + unat (pl_sequence p)\<rparr> \<and>
    holds_skipped r' (ns @ skipped_entries mac mkey rk 0 (drop hf_len d1) (unat (pl_sequence p)))"
proof -
  define r1 where "r1 = r\<lparr>rt_root_key := buf (take hf_len d2),
            rt_receiver_chain := Some (receiver_of rk sk 0 (drop hf_len d1)),
            rt_sender_chain := Some (sender_of pk ct 0 (drop hf_len d2)),
            rt_root_sequence := rt_root_sequence r + 1 + 1\<rparr>"
  have new: "new_chains csp r p s = Some (r1, s')"
    unfolding r1_def by (rule new_chains_ok [OF key chain sender p enc d1 d2])
  have chain1: "rt_receiver_chain r1 = Some (receiver_of rk sk 0 (drop hf_len d1))" by (simp add: r1_def)
  have len: "length (drop hf_len d1) = hf_len" by (simp add: d1)
  have ns1: "holds_skipped r1 ns" using ns by (simp add: r1_def holds_skipped_def)
  have "unat (pl_sequence p) = unat (pl_sequence p) - unat (0 :: u32)" by simp
  from skip_current_ok [where mem_ok = mem_ok, OF chain1 len p(2) ns1 _ this n mem] obtain l r2 where
    r2: "skip_current mem_ok csp r1 p = Some (0, r2)"
      "r2 = r1\<lparr>rt_skipped_msg_key_list := l, rt_n_skipped_msg_key_list := length ns + unat (pl_sequence p),
           rt_receiver_chain := Some (receiver_of rk sk (pl_sequence p)
              (chain_at mac (drop hf_len d1) (unat (pl_sequence p))))\<rparr>"
      "holds_skipped r2 (ns @ skipped_entries mac mkey rk 0 (drop hf_len d1) (unat (pl_sequence p)))"
    by auto
  have "advance_receiver csp r2 p = Some (r2\<lparr>rt_receiver_chain := Some (receiver_of rk sk (pl_sequence p + 1)
      (mac (chain_at mac (drop hf_len d1) (unat (pl_sequence p))) CHAIN_KEY_SEED))\<rparr>)"
    by (rule advance_receiver_ok) (use r2(2) len in auto)
  then show ?thesis using new r2
    by (intro exI [of _ l] exI [of _ r1] exI [of _ r2] exI conjI)
      (auto simp: r1_def chain_at_Suc holds_skipped_def)
qed

text \<open>The state after a message on a new chain, up to the storage of the skipped keys.\<close>

definition turned :: "ratchet \<Rightarrow> one2one_payload \<Rightarrow> bytes \<Rightarrow> bytes \<Rightarrow> bytes \<Rightarrow> bytes \<Rightarrow> bytes \<Rightarrow> bytes \<Rightarrow> ratchet" where
  "turned r p rk sk pk ct d1 d2 = (bump p r)
     \<lparr>rt_root_key := buf (take hf_len d2),
      rt_receiver_chain := Some (receiver_of rk sk (pl_sequence p + 1)
         (chain_at mac (drop hf_len d1) (Suc (unat (pl_sequence p))))),
      rt_sender_chain := Some (sender_of pk ct 0 (drop hf_len d2)),
      rt_root_sequence := rt_root_sequence r + 1 + 1\<rparr>"

lemma decrypt_new_from:
  assumes wf: "wf_r r ns" and p: "wf_p p rk ct" and ad: "ad \<noteq> []"
    and root: "pl_root_sequence p = rt_root_sequence r + 1" "rt_root_sequence r + 1 \<noteq> 0"
    and first: "\<not> (rt_root_sequence r = 0 \<and> pl_sending_message_sequence p < pl_sequence p)"
    and key: "rt_root_key r = buf rt"
    and chain: "rt_receiver_chain r = Some chain" "rc_our_ratchet_private_key chain = buf sk"
    and sender: "rt_sender_chain r = Some (sender_of pk rk' i k)"
    and enc: "enc s pk = (ss, ct', s')"
    and d1: "d1 = step_secrets (dec sk rk) rt" and d2: "d2 = step_secrets ss (take hf_len d1)"
    and op: "aead_open (mkey (chain_at mac (drop hf_len d1) (unat (pl_sequence p)))) ad ct = Some pt"
    and n: "unat (pl_sequence p) \<le> 1024" and mem: "unat (pl_sequence p) = 0 \<or> mem_ok GrowCurrent"
    and prev: "skip_previous mem_ok csp r p = Some (0, r0)"
      "r0 = r\<lparr>rt_skipped_msg_key_list := l0, rt_n_skipped_msg_key_list := n0, rt_receiver_chain := Some chain0\<rparr>"
      "rc_our_ratchet_private_key chain0 = buf sk" "holds_skipped r0 ns0"
  shows "\<exists>l r'. decrypt_ratchet mem_ok csp (Some r) (buf ad) (Some p) s = Some (0, plain_out pt, r', s') \<and>
    r' = (turned r p rk sk pk ct' d1 d2)\<lparr>rt_skipped_msg_key_list := l,
            rt_n_skipped_msg_key_list := min (length ns0 + unat (pl_sequence p)) 1024\<rparr> \<and>
    holds_skipped r' (newest (ns0 @ skipped_entries mac mkey rk 0 (drop hf_len d1) (unat (pl_sequence p))))"
proof -
  have len: "length rt = hf_len" "length sk = sk_len" "length pk = pk_len" "length rk = rk_len" "pl_ratchet_key p = buf rk"
    using wf key chain sender p by (auto simp: wf_ratchet_def wf_payload_def split: if_splits)
  have trial: "decrypt_trial mem_ok csp r (buf ad) p NewChain rk_len s = Some (0, plain_out pt, r, s)"
    using trial_new [OF wf p ad root key len(1) chain len(2)] op d1 by (simp add: open_result_def)
  have keys0: "rt_root_key r0 = buf rt" "rt_receiver_chain r0 = Some chain0"
      "rt_sender_chain r0 = Some (sender_of pk rk' i k)" using prev(2) key sender by simp_all
  from new_chain_tail [where mem_ok = mem_ok, OF keys0(1) len(1) keys0(2) prev(3) len(2) keys0(3) len(3) len(5) len(4)
      enc prev(4) n mem d1 d2]
  obtain l r1 r2 r3 where tail: "new_chains csp r0 p s = Some (r1, s')" "skip_current mem_ok csp r1 p = Some (0, r2)"
      "advance_receiver csp r2 p = Some r3"
    and r3: "r3 = r0\<lparr>rt_root_key := buf (take hf_len d2),
           rt_receiver_chain := Some (receiver_of rk sk (pl_sequence p + 1)
              (chain_at mac (drop hf_len d1) (Suc (unat (pl_sequence p))))),
           rt_sender_chain := Some (sender_of pk ct' 0 (drop hf_len d2)),
           rt_root_sequence := rt_root_sequence r0 + 1 + 1,
           rt_skipped_msg_key_list := l, rt_n_skipped_msg_key_list := length ns0 + unat (pl_sequence p)\<rparr>"
    and h: "holds_skipped r3 (ns0 @ skipped_entries mac mkey rk 0 (drop hf_len d1) (unat (pl_sequence p)))"
    by blast
  let ?ns = "ns0 @ skipped_entries mac mkey rk 0 (drop hf_len d1) (unat (pl_sequence p))"
  have upd: "decrypt_update mem_ok csp r p NewChain False s = Some (0, r3, s')"
    using prev(1) tail by (simp add: decrypt_update_def)
  have "holds_skipped (bump p r3) ?ns" using h by (simp add: holds_skipped_def bump_eq)
  from prune_ok [OF this] obtain l' where
    prune: "prune_bloated_skipped_keys (bump p r3) =
        Some ((bump p r3)\<lparr>rt_skipped_msg_key_list := l', rt_n_skipped_msg_key_list := length (newest ?ns)\<rparr>)"
      "\<And>r' :: ratchet. rt_skipped_msg_key_list r' = l' \<Longrightarrow> rt_n_skipped_msg_key_list r' = length (newest ?ns) \<Longrightarrow>
         holds_skipped r' (newest ?ns)" by blast
  have "decrypt_ratchet mem_ok csp (Some r) (buf ad) (Some p) s = Some (0, plain_out pt,
      (bump p r3)\<lparr>rt_skipped_msg_key_list := l',
         rt_n_skipped_msg_key_list := min (length ns0 + unat (pl_sequence p)) 1024\<rparr>, s')"
    using decrypt_unfold [OF wf p ad first] classify_new [OF root] trial upd prune(1) by simp
  moreover have "bump p r3 = (turned r p rk sk pk ct' d1 d2)\<lparr>rt_skipped_msg_key_list := l,
      rt_n_skipped_msg_key_list := length ns0 + unat (pl_sequence p)\<rparr>"
    using r3 prev(2) by (simp add: turned_def bump_eq)
  ultimately show ?thesis using prune(2) by (intro exI [of _ l'] exI conjI) auto
qed

subsection \<open>Encryption\<close>

lemma encrypt_ok:
  assumes wf: "wf_r r ns" and sender: "rt_sender_chain r = Some (sender_of pk rk i k)"
    and pt: "length pt \<le> GCM_LIMIT"
  shows "encrypt_ratchet csp (Some r) (buf ad) (Some pt) =
    Some (0, Some \<lparr>pl_sequence = i, pl_ratchet_key = buf rk, pl_root_sequence = rt_root_sequence r,
             pl_sending_message_sequence = rt_sending_message_sequence r + 1,
             pl_ciphertext = buf (aead_seal (mkey k) ad pt)\<rparr>,
          Some (r\<lparr>rt_sender_chain := Some (sender_of pk rk (i + 1) (mac k CHAIN_KEY_SEED)),
                  rt_sending_message_sequence := rt_sending_message_sequence r + 1\<rparr>))"
proof -
  have len: "length pk = pk_len" "length rk = rk_len" "length k = hf_len"
    using wf sender by (auto simp: wf_ratchet_def)
  with nonempty have "pk \<noteq> []" "rk \<noteq> []" "k \<noteq> []" by blast+
  then show ?thesis using len sender pt
    by (simp add: encrypt_ratchet_def msg_keys_ok advance_ok seal_call)
qed

end

end
