(* ===== verification/Ratchet_Channel.thy ===== *)
theory Ratchet_Channel
  imports Ratchet_Runs
begin

section \<open>Delivery over one chain\<close>

text \<open>
  A sender encrypts a list of messages, the receiver is handed their payloads in any order and
  any number of times.  The abstract channel delivers a message the first time its payload
  arrives and refuses every later copy; \<open>decrypt_ratchet\<close> refines it.
\<close>

subsection \<open>Sending and receiving lists\<close>

fun encrypt_all :: "cipher_suite \<Rightarrow> ratchet \<Rightarrow> bdata \<Rightarrow> bytes list \<Rightarrow> (one2one_payload list \<times> ratchet) option" where
  "encrypt_all cs r ad [] = Some ([], r)"
| "encrypt_all cs r ad (m # ms) =
     do { (ret, p, r) \<leftarrow> encrypt_ratchet (Some cs) (Some r) ad (Some m);
          p \<leftarrow> deref p; r \<leftarrow> deref r;
          (ps, r) \<leftarrow> encrypt_all cs r ad ms;
          Some (p # ps, r) }"

fun deliver_all :: "(alloc_site \<Rightarrow> bool) \<Rightarrow> cipher_suite \<Rightarrow> ratchet \<Rightarrow> bdata \<Rightarrow> one2one_payload list \<Rightarrow> seed \<Rightarrow>
    ((int \<times> bdata) list \<times> ratchet) option" where
  "deliver_all mem_ok cs r ad [] s = Some ([], r)"
| "deliver_all mem_ok cs r ad (p # ps) s =
     do { (ret, out, r, s) \<leftarrow> decrypt_ratchet mem_ok (Some cs) (Some r) ad (Some p) s;
          (rs, r) \<leftarrow> deliver_all mem_ok cs r ad ps s;
          Some ((ret, out) # rs, r) }"

text \<open>The abstract channel: \<open>seen\<close> are the messages delivered so far.\<close>

fun channel :: "bytes list \<Rightarrow> nat set \<Rightarrow> nat list \<Rightarrow> (int \<times> bdata) list" where
  "channel ms seen [] = []"
| "channel ms seen (j # js) =
     (if j \<in> seen then (E2EES_RESULT_FAIL, empty_bdata) else (E2EES_RESULT_SUCC, plain_out (ms ! j))) #
     channel ms (insert j seen) js"

subsection \<open>The entries of a chain\<close>

definition entry :: "(bytes \<Rightarrow> bytes \<Rightarrow> bytes) \<Rightarrow> (bytes \<Rightarrow> bytes) \<Rightarrow> bytes \<Rightarrow> u32 \<Rightarrow> bytes \<Rightarrow> nat \<Rightarrow> bytes \<times> u32 \<times> bytes" where
  "entry mac mkey rk i k j = (rk, i + of_nat j, mkey (chain_at mac k j))"

lemma skipped_entries_eq:
  "skipped_entries mac mkey rk i k n = map (entry mac mkey rk i k) [0..<n]"
proof (induction n arbitrary: i k)
  case 0
  show ?case by simp
next
  case (Suc n)
  have "map (entry mac mkey rk i k) [0..<Suc n] =
      entry mac mkey rk i k 0 # map (entry mac mkey rk i k) (map Suc [0..<n])"
    by (simp add: map_Suc_upt upt_conv_Cons del: upt_Suc)
  also have "map (entry mac mkey rk i k) (map Suc [0..<n]) =
      map (entry mac mkey rk (i + 1) (mac k CHAIN_KEY_SEED)) [0..<n]"
    by (simp add: entry_def chain_at_step algebra_simps)
  finally show ?case using Suc.IH by (simp add: entry_def)
qed

lemma skipped_entries_shift:
  "skipped_entries mac mkey rk (i + of_nat t) (chain_at mac k t) n = map (entry mac mkey rk i k) [t..<t + n]"
proof -
  have "[t..<t + n] = map (\<lambda>j. j + t) [0..<n]" using map_add_upt [of t n] by (simp add: add.commute)
  then show ?thesis by (simp add: skipped_entries_eq entry_def chain_at_add algebra_simps)
qed

lemma index_inject:
  fixes i :: u32
  assumes "unat i + N < 2 ^ 32" "j < N" "l < N"
  shows "i + of_nat j = i + of_nat l \<longleftrightarrow> j = l"
proof -
  have small: "unat (of_nat x :: u32) = x" if "x < N" for x
    using that assms(1) by (simp add: unat_of_nat)
  have "(of_nat j :: u32) = of_nat l \<longleftrightarrow> j = l" using small [OF assms(2)] small [OF assms(3)] by metis
  then show ?thesis by simp
qed

context e2ee_suite
begin

subsection \<open>The payloads of a sender\<close>

abbreviation "entry_at rk i k \<equiv> entry mac mkey rk i k"

definition payload_at :: "u32 \<Rightarrow> u32 \<Rightarrow> bytes \<Rightarrow> u32 \<Rightarrow> bytes \<Rightarrow> bytes \<Rightarrow> bytes list \<Rightarrow> nat \<Rightarrow> one2one_payload" where
  "payload_at q c rk i k ad ms j =
     \<lparr>pl_sequence = i + of_nat j, pl_ratchet_key = buf rk, pl_root_sequence = q,
      pl_sending_message_sequence = c + of_nat (Suc j),
      pl_ciphertext = buf (aead_seal (mkey (chain_at mac k j)) ad (ms ! j))\<rparr>"

lemma wf_encrypted:
  assumes "wf_r r ns" and "rt_sender_chain r = Some (sender_of pk rk i k)"
  shows "wf_r (r\<lparr>rt_sender_chain := Some (sender_of pk rk j (mac l x)), rt_sending_message_sequence := c\<rparr>) ns"
  using assms by (auto simp: wf_ratchet_def holds_skipped_def)

lemma encrypt_all_ok:
  assumes "wf_r r ns" and "rt_sender_chain r = Some (sender_of pk rk i k)" and "\<forall>m\<in>set ms. length m \<le> GCM_LIMIT"
  shows "encrypt_all cs r (buf ad) ms =
    Some (map (payload_at (rt_root_sequence r) (rt_sending_message_sequence r) rk i k ad ms) [0..<length ms],
          r\<lparr>rt_sender_chain := Some (sender_of pk rk (i + of_nat (length ms)) (chain_at mac k (length ms))),
            rt_sending_message_sequence := rt_sending_message_sequence r + of_nat (length ms)\<rparr>)"
  using assms
proof (induction ms arbitrary: r i k)
  case Nil
  then show ?case by simp
next
  case (Cons m ms)
  define r1 where "r1 = r\<lparr>rt_sender_chain := Some (sender_of pk rk (i + 1) (mac k CHAIN_KEY_SEED)),
      rt_sending_message_sequence := rt_sending_message_sequence r + 1\<rparr>"
  have "wf_r r1 ns" unfolding r1_def by (rule wf_encrypted [OF Cons.prems(1,2)])
  from Cons.IH [OF this, of "i + 1" "mac k CHAIN_KEY_SEED"] Cons.prems(3)
  have IH: "encrypt_all cs r1 (buf ad) ms =
    Some (map (payload_at (rt_root_sequence r1) (rt_sending_message_sequence r1) rk (i + 1) (mac k CHAIN_KEY_SEED) ad ms)
            [0..<length ms],
          r1\<lparr>rt_sender_chain := Some (sender_of pk rk (i + 1 + of_nat (length ms))
                (chain_at mac (mac k CHAIN_KEY_SEED) (length ms))),
            rt_sending_message_sequence := rt_sending_message_sequence r1 + of_nat (length ms)\<rparr>)"
    by (simp add: r1_def)
  have "[0..<length (m # ms)] = 0 # map Suc [0..<length ms]"
    by (simp add: map_Suc_upt upt_conv_Cons del: upt_Suc)
  then show ?case using encrypt_ok [OF Cons.prems(1,2)] Cons.prems(3) IH
    by (simp add: r1_def payload_at_def chain_at_step algebra_simps del: upt_Suc)
qed

lemma payload_at_wf:
  assumes "length (ms ! j) \<le> GCM_LIMIT" and "length rk = rk_len"
  shows "wf_p (payload_at q c rk i k ad ms j) rk (aead_seal (mkey (chain_at mac k j)) ad (ms ! j))"
  using assms by (simp add: wf_payload_def payload_at_def seal_length)

subsection \<open>The receiver\<close>

lemma wf_entry_map: "length rk = rk_len \<Longrightarrow> wf_entries mk_len rk_len (map (entry_at rk i k) us)"
  by (auto simp: wf_entries_def entry_def)

lemma caught_up_skip:
  assumes "wf_r r (ns @ map (entry_at rk i k) us)" and "r' = r\<lparr>rt_skipped_msg_key_list := l,
      rt_n_skipped_msg_key_list := m, rt_receiver_chain := Some (receiver_of rk sk i' k'),
      rt_received_message_sequence := c\<rparr>"
    and "rt_root_sequence r \<noteq> 0" and "holds_skipped r' (ns @ map (entry_at rk i k) us')" and "length ns + length us' \<le> 1024"
    and "length rk = rk_len" "length sk = sk_len" "length k' = hf_len"
  shows "wf_r r' (ns @ map (entry_at rk i k) us')"
  using assms wf_entry_map [OF assms(6), of i k us'] unfolding wf_ratchet_def by simp

text \<open>A gap's key is found by its number, and no other stored key has that number.\<close>

lemma hit_entry:
  assumes "unat i + N < 2 ^ 32" and "l < N" "j < N" and "length m \<le> GCM_LIMIT"
    and "pl_sequence p = i + of_nat j"
  shows "hit p rk ad (aead_seal (mkey (chain_at mac k j)) ad m) (entry_at rk i k l) = (if l = j then Some m else None)"
  using assms index_inject [OF assms(1-3)] by (simp add: opens_def entry_def open_seal)

lemma hit_older:
  assumes "\<forall>(rk', i, k)\<in>set ns. rk' \<noteq> rk" and "e \<in> set ns"
  shows "hit p rk ad ct e = None"
  using assms by (auto simp: opens_def)

text \<open>One step from a state with chain position \<open>t\<close> and gaps \<open>us\<close>, by where the message falls.\<close>

definition at_position :: "ratchet \<Rightarrow> u32 \<Rightarrow> bytes \<Rightarrow> bytes \<Rightarrow> u32 \<Rightarrow> bytes \<Rightarrow> (bytes \<times> u32 \<times> bytes) list \<Rightarrow> nat \<Rightarrow> nat list \<Rightarrow> bool" where
  "at_position r q rk sk i k ns t us \<longleftrightarrow>
     wf_r r (ns @ map (entry_at rk i k) us) \<and> rt_root_sequence r = q + 1 \<and> q + 1 \<noteq> 0 \<and>
     rt_receiver_chain r = Some (receiver_of rk sk (i + of_nat t) (chain_at mac k t))"

lemma index_small: "unat i + N < 2 ^ 32 \<Longrightarrow> x \<le> N \<Longrightarrow> unat (i + of_nat x :: u32) = unat i + x"
  by (simp add: unat_word_ariths unat_of_nat)

lemma at_positionD:
  assumes "at_position r q rk sk i k ns t us" and "length (ms ! j) \<le> GCM_LIMIT"
  shows "wf_r r (ns @ map (entry_at rk i k) us)" "rt_root_sequence r \<noteq> 0"
    "pl_root_sequence (payload_at q c rk i k ad ms j) = rt_root_sequence r - 1"
    "rt_receiver_chain r = Some (receiver_of rk sk (i + of_nat t) (chain_at mac k t))"
    "length rk = rk_len" "length sk = sk_len"
    "wf_p (payload_at q c rk i k ad ms j) rk (aead_seal (mkey (chain_at mac k j)) ad (ms ! j))"
    "length (chain_at mac k t) = hf_len"
proof -
  show *: "wf_r r (ns @ map (entry_at rk i k) us)" "rt_root_sequence r \<noteq> 0"
    "pl_root_sequence (payload_at q c rk i k ad ms j) = rt_root_sequence r - 1"
    "rt_receiver_chain r = Some (receiver_of rk sk (i + of_nat t) (chain_at mac k t))"
    using assms(1) by (auto simp: at_position_def payload_at_def)
  show len: "length rk = rk_len" "length sk = sk_len" "length (chain_at mac k t) = hf_len"
    using wf_receiverD [OF *(1,2,4)] by simp_all
  show "wf_p (payload_at q c rk i k ad ms j) rk (aead_seal (mkey (chain_at mac k j)) ad (ms ! j))"
    by (rule payload_at_wf [OF assms(2) len(1)])
qed

lemma deliver_fresh:
  assumes inv: "at_position r q rk sk i k ns t us" and j: "t \<le> j" "j < N" and N: "unat i + N < 2 ^ 32"
    and bound: "length ns + length us + (j - t) \<le> 1024"
    and ad: "ad \<noteq> []" and ms: "length (ms ! j) \<le> GCM_LIMIT"
  shows "\<exists>r'. decrypt_ratchet (\<lambda>_. True) csp (Some r) (buf ad) (Some (payload_at q c rk i k ad ms j)) s =
      Some (0, plain_out (ms ! j), r', s) \<and> at_position r' q rk sk i k ns (Suc j) (us @ [t..<j])"
proof -
  let ?p = "payload_at q c rk i k ad ms j"
  let ?ct = "aead_seal (mkey (chain_at mac k j)) ad (ms ! j)"
  let ?ns = "ns @ map (entry_at rk i k) us"
  note facts = at_positionD [OF inv ms]
  have seq: "pl_sequence ?p = i + of_nat j" by (simp add: payload_at_def)
  have le: "i + of_nat t \<le> pl_sequence ?p" and n: "j - t = unat (pl_sequence ?p) - unat (i + of_nat t)"
    using j index_small [OF N, of t] index_small [OF N, of j] by (auto simp: seq word_le_nat_alt)
  have op: "aead_open (mkey (chain_at mac (chain_at mac k t) (j - t))) ad ?ct = Some (ms ! j)"
    using j ms by (simp add: chain_at_add open_seal)
  have gap: "j - t \<le> 1024" using bound by simp
  from decrypt_current [where mem_ok = "\<lambda>_. True", OF facts(1,7) ad facts(2,3,4) le n gap disjI2 [OF TrueI] op, of s]
  obtain l r' where r': "decrypt_ratchet (\<lambda>_. True) csp (Some r) (buf ad) (Some ?p) s = Some (0, plain_out (ms ! j), r', s)"
      "r' = (bump ?p r)\<lparr>rt_skipped_msg_key_list := l, rt_n_skipped_msg_key_list := min (length ?ns + (j - t)) 1024,
          rt_receiver_chain := Some (receiver_of rk sk (pl_sequence ?p + 1)
             (chain_at mac (chain_at mac k t) (Suc (j - t))))\<rparr>"
      "holds_skipped r' (newest (?ns @ skipped_entries mac mkey rk (i + of_nat t) (chain_at mac k t) (j - t)))"
    by blast
  have ext: "?ns @ skipped_entries mac mkey rk (i + of_nat t) (chain_at mac k t) (j - t)
      = ns @ map (entry_at rk i k) (us @ [t..<j])"
    using j by (simp add: skipped_entries_shift)
  have b: "length ns + length (us @ [t..<j]) \<le> 1024" using bound by simp
  then have holds: "holds_skipped r' (ns @ map (entry_at rk i k) (us @ [t..<j]))"
    using r'(3) unfolding ext by simp
  have upd: "r' = r\<lparr>rt_skipped_msg_key_list := l, rt_n_skipped_msg_key_list := min (length ?ns + (j - t)) 1024,
          rt_receiver_chain := Some (receiver_of rk sk (pl_sequence ?p + 1)
             (chain_at mac (chain_at mac k t) (Suc (j - t)))),
          rt_received_message_sequence := max (rt_received_message_sequence r) (pl_sending_message_sequence ?p)\<rparr>"
    using r'(2) by (simp add: bump_eq)
  have "wf_r r' (ns @ map (entry_at rk i k) (us @ [t..<j]))"
    by (rule caught_up_skip [OF facts(1) upd facts(2) holds b facts(5,6) chain_at_length [OF facts(8)]])
  moreover have "rt_receiver_chain r' = Some (receiver_of rk sk (i + of_nat (Suc j)) (chain_at mac k (Suc j)))"
    using r'(2) j by (simp add: seq chain_at_add algebra_simps)
  moreover have "rt_root_sequence r' = q + 1" "q + 1 \<noteq> 0" using r'(2) inv by (simp_all add: bump_eq at_position_def)
  ultimately show ?thesis using r'(1) by (auto simp: at_position_def)
qed

lemma classify_late:
  assumes inv: "at_position r q rk sk i k ns t us" and j: "j < t" "t \<le> N" and N: "unat i + N < 2 ^ 32"
    and ms: "length (ms ! j) \<le> GCM_LIMIT"
  shows "classify_root r (payload_at q c rk i k ad ms j) = Some (0, Skipped, True)"
    and "pl_sequence (payload_at q c rk i k ad ms j) < i + of_nat t"
proof -
  note facts = at_positionD [OF inv ms]
  show less: "pl_sequence (payload_at q c rk i k ad ms j) < i + of_nat t"
    using j index_small [OF N, of t] index_small [OF N, of j] by (simp add: payload_at_def word_less_nat_alt)
  have "pl_ratchet_key (payload_at q c rk i k ad ms j) = buf rk" by (simp add: payload_at_def)
  from classify_current [OF facts(2,3,4) this] less
  show "classify_root r (payload_at q c rk i k ad ms j) = Some (0, Skipped, True)" by simp
qed

lemma deliver_copy:
  assumes inv: "at_position r q rk sk i k ns t us" and j: "j < t" "t \<le> N" "j \<notin> set us" "set us \<subseteq> {..<t}"
    and N: "unat i + N < 2 ^ 32" and ad: "ad \<noteq> []" and ms: "length (ms ! j) \<le> GCM_LIMIT"
    and older: "\<forall>(rk', i, k)\<in>set ns. rk' \<noteq> rk"
  shows "\<exists>r'. decrypt_ratchet mem_ok csp (Some r) (buf ad) (Some (payload_at q c rk i k ad ms j)) s =
      Some (- 1, empty_bdata, r', s) \<and> at_position r' q rk sk i k ns t us"
proof -
  let ?p = "payload_at q c rk i k ad ms j"
  let ?ct = "aead_seal (mkey (chain_at mac k j)) ad (ms ! j)"
  note facts = at_positionD [OF inv ms]
  have "hit ?p rk ad ?ct e = None" if "e \<in> set (ns @ map (entry_at rk i k) us)" for e
  proof (cases "e \<in> set ns")
    case True
    then show ?thesis by (rule hit_older [OF older])
  next
    case False
    with that have "e \<in> entry_at rk i k ` set us" by simp
    then obtain l where l: "l \<in> set us" "e = entry_at rk i k l" by blast
    then have "l \<noteq> j" "l < N" "j < N" using j by auto
    then show ?thesis using hit_entry [OF N _ _ ms, of l j ?p] l(2) by (simp add: payload_at_def)
  qed
  then have "decrypt_trial mem_ok csp r (buf ad) ?p Skipped rk_len s = Some (- 1, empty_bdata, r, s)"
    by (intro trial_skipped_none [OF facts(1) facts(7) ad]) simp
  with classify_late(1) [OF inv j(1,2) N ms]
  have "decrypt_ratchet mem_ok csp (Some r) (buf ad) (Some ?p) s = Some (- 1, empty_bdata, bump ?p r, s)"
    by (intro decrypt_refused [OF facts(1) facts(7) ad]) auto
  moreover have "at_position (bump ?p r) q rk sk i k ns t us"
    using inv wf_bump [of ?p r] by (simp add: at_position_def bump_eq)
  ultimately show ?thesis by blast
qed

lemma take_drop_map:
  assumes "u < length us"
  shows "take (length ns + u) (ns @ map f us) @ drop (Suc (length ns + u)) (ns @ map f us) =
    ns @ map f (take u us @ drop (Suc u) us)"
  using assms by (simp add: take_map drop_map Suc_diff_le)

lemma deliver_gap:
  assumes inv: "at_position r q rk sk i k ns t us" and u: "u < length us" "us ! u = j" "distinct us"
    and us: "set us \<subseteq> {..<t}" "t \<le> N" and N: "unat i + N < 2 ^ 32" and ad: "ad \<noteq> []" and ms: "length (ms ! j) \<le> GCM_LIMIT"
    and older: "\<forall>(rk', i, k)\<in>set ns. rk' \<noteq> rk"
  shows "\<exists>r'. decrypt_ratchet (\<lambda>_. True) csp (Some r) (buf ad) (Some (payload_at q c rk i k ad ms j)) s =
      Some (0, plain_out (ms ! j), r', s) \<and> at_position r' q rk sk i k ns t (take u us @ drop (Suc u) us)"
proof -
  let ?p = "payload_at q c rk i k ad ms j"
  let ?ct = "aead_seal (mkey (chain_at mac k j)) ad (ms ! j)"
  let ?ns = "ns @ map (entry_at rk i k) us"
  note facts = at_positionD [OF inv ms]
  have j: "j < t" "j < N" using u us by (metis lessThan_iff nth_mem subsetD, metis lessThan_iff nth_mem subsetD less_le_trans)
  note late = classify_late [OF inv j(1) us(2) N ms, of c ad]
  have hits: "hit ?p rk ad ?ct (?ns ! (length ns + v)) = (if v = u then Some (ms ! j) else None)" if "v \<le> u" for v
  proof -
    have v: "v < length us" using that u(1) by simp
    then have "us ! v < N" using us by (meson lessThan_iff less_le_trans nth_mem subsetD)
    moreover have "us ! v = j \<longleftrightarrow> v = u" using u v by (metis nth_eq_iff_index_eq)
    ultimately show ?thesis using hit_entry [OF N _ j(2) ms, of "us ! v" ?p] v
      by (simp add: nth_append payload_at_def)
  qed
  have before: "\<forall>v<length ns + u. hit ?p rk ad ?ct (?ns ! v) = None"
  proof (intro allI impI)
    fix v assume v: "v < length ns + u"
    show "hit ?p rk ad ?ct (?ns ! v) = None"
    proof (cases "v < length ns")
      case True
      then show ?thesis using hit_older [OF older, of "ns ! v"] by (simp add: nth_append)
    next
      case False
      then show ?thesis using hits [of "v - length ns"] v by auto
    qed
  qed
  have later: "\<exists>sk i' k'. rt_receiver_chain r = Some (receiver_of rk sk i' k') \<and> pl_sequence ?p < i'"
    using facts(4) late(2) by blast
  have pos: "length ns + u < length ?ns" using u(1) by simp
  from decrypt_skipped [where mem_ok = "\<lambda>_. True", OF facts(1) facts(7) ad facts(2) late(1) later pos _ before, of "ms ! j" s]
  obtain l r' where r': "decrypt_ratchet (\<lambda>_. True) csp (Some r) (buf ad) (Some ?p) s = Some (0, plain_out (ms ! j), r', s)"
      "r' = (bump ?p r)\<lparr>rt_skipped_msg_key_list := l, rt_n_skipped_msg_key_list := length ?ns - 1\<rparr>"
      "holds_skipped r' (ns @ map (entry_at rk i k) (take u us @ drop (Suc u) us))"
    unfolding take_drop_map [OF u(1)] using hits [of u] by auto
  have "length ns + length (take u us @ drop (Suc u) us) \<le> 1024"
  proof -
    have "length ns + length us \<le> 1024" using facts(1) by (simp add: wf_ratchet_def)
    then show ?thesis using u(1) by simp
  qed
  moreover have "r' = r\<lparr>rt_skipped_msg_key_list := l, rt_n_skipped_msg_key_list := length ?ns - 1,
      rt_receiver_chain := Some (receiver_of rk sk (i + of_nat t) (chain_at mac k t)),
      rt_received_message_sequence := max (rt_received_message_sequence r) (pl_sending_message_sequence ?p)\<rparr>"
    using r'(2) facts(4) by (simp add: bump_eq)
  ultimately have "wf_r r' (ns @ map (entry_at rk i k) (take u us @ drop (Suc u) us))"
    using caught_up_skip [OF facts(1) _ facts(2) r'(3)] facts(5,6,8) by blast
  then show ?thesis using r'(1,2) inv by (auto simp: at_position_def bump_eq)
qed

subsection \<open>The refinement\<close>

text \<open>The messages \<open>D\<close> have been delivered: the chain stands behind them and the gaps are stored.\<close>

definition has_delivered :: "ratchet \<Rightarrow> u32 \<Rightarrow> bytes \<Rightarrow> bytes \<Rightarrow> u32 \<Rightarrow> bytes \<Rightarrow> (bytes \<times> u32 \<times> bytes) list \<Rightarrow> nat \<Rightarrow> nat set \<Rightarrow> bool" where
  "has_delivered r q rk sk i k ns N D \<longleftrightarrow>
     (\<exists>t us. at_position r q rk sk i k ns t us \<and> t \<le> N \<and> D \<subseteq> {..<t} \<and> distinct us \<and> set us = {..<t} - D)"

lemma deliver_step:
  assumes inv: "has_delivered r q rk sk i k ns N D" and j: "j < N" and N: "unat i + N < 2 ^ 32" "length ns + N \<le> 1024"
    and ad: "ad \<noteq> []" and ms: "length (ms ! j) \<le> GCM_LIMIT" and older: "\<forall>(rk', i, k)\<in>set ns. rk' \<noteq> rk"
  shows "\<exists>r'. decrypt_ratchet (\<lambda>_. True) csp (Some r) (buf ad) (Some (payload_at q c rk i k ad ms j)) s =
      Some (if j \<in> D then - 1 else 0, if j \<in> D then empty_bdata else plain_out (ms ! j), r', s) \<and>
    has_delivered r' q rk sk i k ns N (insert j D)"
proof -
  from inv obtain t us where pos: "at_position r q rk sk i k ns t us"
    and t: "t \<le> N" "D \<subseteq> {..<t}" "distinct us" "set us = {..<t} - D" by (auto simp: has_delivered_def)
  have us: "set us \<subseteq> {..<t}" using t(4) by auto
  have "length us \<le> t" using t us by (metis distinct_card card_lessThan card_mono finite_lessThan)
  consider (fresh) "t \<le> j" "j \<notin> D" | (copy) "j < t" "j \<in> D" | (gap) "j < t" "j \<notin> D"
    using t(2) by (meson lessThan_iff not_le subsetD)
  then show ?thesis
  proof cases
    case fresh
    have "length ns + length us + (j - t) \<le> 1024" using \<open>length us \<le> t\<close> j N(2) fresh(1) by simp
    from deliver_fresh [OF pos fresh(1) j N(1) this ad ms] obtain r' where
      r': "decrypt_ratchet (\<lambda>_. True) csp (Some r) (buf ad) (Some (payload_at q c rk i k ad ms j)) s =
          Some (0, plain_out (ms ! j), r', s)" "at_position r' q rk sk i k ns (Suc j) (us @ [t..<j])" by blast
    have "has_delivered r' q rk sk i k ns N (insert j D)" unfolding has_delivered_def
      by (intro exI [of _ "Suc j"] exI [of _ "us @ [t..<j]"] conjI r'(2)) (use t fresh j in auto)
    then show ?thesis using r'(1) fresh(2) by simp
  next
    case copy
    have "insert j D = D" "j \<notin> set us" using copy t(4) by auto
    moreover obtain r' where
      r': "decrypt_ratchet (\<lambda>_. True) csp (Some r) (buf ad) (Some (payload_at q c rk i k ad ms j)) s =
          Some (- 1, empty_bdata, r', s)" "at_position r' q rk sk i k ns t us"
      using deliver_copy [OF pos copy(1) t(1) calculation(2) us N(1) ad ms older] by blast
    moreover have "has_delivered r' q rk sk i k ns N D" unfolding has_delivered_def
      by (intro exI [of _ t] exI [of _ us] conjI r'(2) t)
    ultimately show ?thesis using copy(2) by simp
  next
    case gap
    then have "j \<in> set us" using t(4) by simp
    then obtain u where u: "u < length us" "us ! u = j" by (auto simp: in_set_conv_nth)
    have rest: "set (take u us @ drop (Suc u) us) = {..<t} - insert j D" "distinct (take u us @ drop (Suc u) us)"
    proof -
      have split: "us = take u us @ j # drop (Suc u) us" using u by (metis id_take_nth_drop)
      then have "distinct (take u us @ j # drop (Suc u) us)" using t(3) by simp
      then show "distinct (take u us @ drop (Suc u) us)" by simp
      have "set us = insert j (set (take u us @ drop (Suc u) us))" by (subst split) simp
      moreover have "j \<notin> set (take u us @ drop (Suc u) us)"
        using \<open>distinct (take u us @ j # drop (Suc u) us)\<close> by simp
      ultimately show "set (take u us @ drop (Suc u) us) = {..<t} - insert j D" using t(4) by auto
    qed
    from deliver_gap [OF pos u t(3) us t(1) N(1) ad ms older] obtain r' where
      r': "decrypt_ratchet (\<lambda>_. True) csp (Some r) (buf ad) (Some (payload_at q c rk i k ad ms j)) s =
          Some (0, plain_out (ms ! j), r', s)" "at_position r' q rk sk i k ns t (take u us @ drop (Suc u) us)" by blast
    have "has_delivered r' q rk sk i k ns N (insert j D)" unfolding has_delivered_def
      by (intro exI [of _ t] exI [of _ "take u us @ drop (Suc u) us"] conjI r'(2) rest) (use t gap in auto)
    then show ?thesis using r'(1) gap(2) by simp
  qed
qed

lemma deliver_refines:
  assumes "has_delivered r q rk sk i k ns (length ms) D" and "\<forall>j\<in>set js. j < length ms"
    and "unat i + length ms < 2 ^ 32" "length ns + length ms \<le> 1024"
    and "ad \<noteq> []" and "\<forall>m\<in>set ms. length m \<le> GCM_LIMIT" and "\<forall>(rk', i, k)\<in>set ns. rk' \<noteq> rk"
  shows "\<exists>r'. deliver_all (\<lambda>_. True) cs r (buf ad) (map (payload_at q c rk i k ad ms) js) s =
    Some (channel ms D js, r') \<and> has_delivered r' q rk sk i k ns (length ms) (D \<union> set js)"
  using assms(1,2)
proof (induction js arbitrary: r D)
  case Nil
  then show ?case by simp
next
  case (Cons j js)
  then have j: "j < length ms" "length (ms ! j) \<le> GCM_LIMIT" using assms(6) by simp_all
  obtain r1 where step: "decrypt_ratchet (\<lambda>_. True) csp (Some r) (buf ad) (Some (payload_at q c rk i k ad ms j)) s =
      Some (if j \<in> D then - 1 else 0, if j \<in> D then empty_bdata else plain_out (ms ! j), r1, s)"
      "has_delivered r1 q rk sk i k ns (length ms) (insert j D)"
    using deliver_step [OF Cons.prems(1) j(1) assms(3,4,5) j(2) assms(7)] by blast
  obtain r' where "deliver_all (\<lambda>_. True) cs r1 (buf ad) (map (payload_at q c rk i k ad ms) js) s =
      Some (channel ms (insert j D) js, r')" "has_delivered r' q rk sk i k ns (length ms) (insert j D \<union> set js)"
    using Cons.IH [OF step(2)] Cons.prems(2) by auto
  then show ?case using step(1) by auto
qed

end

end
