(* ===== verification/Ratchet_Talk.thy ===== *)
theory Ratchet_Talk
  imports Ratchet_Channel
begin

section \<open>Agreement of the two sides\<close>

text \<open>
  The two initialisations lead to ratchets of which one is a step ahead of the other; a message
  from the side that is ahead is decrypted by the other side, which is then a step ahead in turn.
\<close>

subsection \<open>A conversation\<close>

fun talk :: "(alloc_site \<Rightarrow> bool) \<Rightarrow> cipher_suite \<Rightarrow> bdata \<Rightarrow> ratchet \<Rightarrow> ratchet \<Rightarrow> bytes list \<Rightarrow> seed \<Rightarrow>
    (int \<times> bdata) list option" where
  "talk mem_ok cs ad x y [] s = Some []"
| "talk mem_ok cs ad x y (m # ms) s =
     do { valid \<leftarrow> is_valid_ratchet (Some x);
          if \<not> valid then None
          else do {
            (_, p, x) \<leftarrow> encrypt_ratchet (Some cs) (Some x) ad (Some m);
            p \<leftarrow> deref p; x \<leftarrow> deref x;
            (ret, out, y, s) \<leftarrow> decrypt_ratchet mem_ok (Some cs) (Some y) ad (Some p) s;
            rest \<leftarrow> talk mem_ok cs ad y x ms s;
            Some ((ret, out) # rest) } }"

definition key_pair_of :: "bytes \<Rightarrow> bytes \<Rightarrow> key_pair" where
  "key_pair_of sk pk = \<lparr>kpr_private_key = buf sk, kpr_public_key = buf pk\<rparr>"

context e2ee_suite
begin

subsection \<open>Initialisation\<close>

abbreviation "root_secrets secret \<equiv> kdf secret (replicate hf_len 0) KDF_INFO_ROOT (2 * hf_len)"

lemma derive_root_ok: "derive_root cs secret = Some (0, root_secrets secret, hf_len)"
  by (simp add: derive_root_def kdf_call kdf_length mult.commute)

definition bob_ratchet :: "bytes \<Rightarrow> bytes \<Rightarrow> bytes \<Rightarrow> bytes \<Rightarrow> ratchet" where
  "bob_ratchet secret sk pk ct = init_ratchet
     \<lparr>rt_root_key := buf (take hf_len (root_secrets secret)), rt_receiver_chain := Some (first_receiver sk),
      rt_sender_chain := Some (sender_of pk ct 0 (drop hf_len (root_secrets secret)))\<rparr>"

definition alice_ratchet :: "bytes \<Rightarrow> bytes \<Rightarrow> bytes \<Rightarrow> bytes \<Rightarrow> bytes \<Rightarrow> bytes \<Rightarrow> ratchet" where
  "alice_ratchet secret sk pk bct ct ss =
     (let d = step_secrets ss (take hf_len (root_secrets secret)) in init_ratchet
     \<lparr>rt_root_key := buf (take hf_len d), rt_root_sequence := 1,
      rt_receiver_chain := Some (receiver_of bct sk 0 (drop hf_len (root_secrets secret))),
      rt_sender_chain := Some (sender_of pk ct 0 (drop hf_len d))\<rparr>)"

lemma bob_ok:
  assumes "secret \<noteq> []" "length sk = sk_len" "pk \<noteq> []" "length their = pk_len" and enc: "enc s their = (ss, ct, s')"
  shows "initialise_as_bob csp (Some secret) (Some (key_pair_of sk pk)) (Some (buf their)) s =
    Some (0, Some (bob_ratchet secret sk their ct), s')"
proof -
  have "length ct = rk_len" using enc_call [OF assms(4) enc] by simp
  with assms nonempty have ne: "ct \<noteq> []" "sk \<noteq> []" "their \<noteq> []" by blast+
  have len: "length (root_secrets secret) = 2 * hf_len" by (simp add: kdf_length)
  show ?thesis using assms ne len enc_call [OF assms(4) enc]
    by (simp add: initialise_as_bob_def derive_root_ok is_valid_key_pair_def key_pair_of_def bob_ratchet_def
        first_receiver_def sender_of_def chain_of_def)
qed

lemma alice_ok:
  assumes "secret \<noteq> []" "length sk = sk_len" "pk \<noteq> []" "length their = pk_len" "length bct = rk_len"
    and enc: "enc s their = (ss, ct, s')"
  shows "initialise_as_alice csp (Some secret) (Some (key_pair_of sk pk)) (Some (buf their)) (Some (buf bct)) s =
    Some (0, Some (alice_ratchet secret sk their bct ct ss), s')"
proof -
  from assms nonempty have ne: "bct \<noteq> []" "sk \<noteq> []" "their \<noteq> []" by blast+
  have len: "length (root_secrets secret) = 2 * hf_len" by (simp add: kdf_length)
  then have root: "length (take hf_len (root_secrets secret)) = hf_len" by simp
  show ?thesis using assms ne len create_chain_enc [OF root assms(4) enc refl]
    by (simp add: initialise_as_alice_def derive_root_ok is_valid_key_pair_def key_pair_of_def alice_ratchet_def Let_def
        receiver_of_def sender_of_def chain_of_def)
qed

lemma bob_wf:
  assumes "length sk = sk_len" "length pk = pk_len" "length ct = rk_len"
  shows "wf_r (bob_ratchet secret sk pk ct) []"
  using assms by (auto simp: wf_ratchet_def bob_ratchet_def init_ratchet_def holds_skipped_def wf_entries_def kdf_length)

lemma alice_wf:
  assumes "length sk = sk_len" "length pk = pk_len" "length ct = rk_len" "length bct = rk_len"
  shows "wf_r (alice_ratchet secret sk pk bct ct ss) []"
  using assms by (auto simp: wf_ratchet_def alice_ratchet_def Let_def init_ratchet_def holds_skipped_def wf_entries_def kdf_length)

subsection \<open>One side a step ahead\<close>

text \<open>
  The side \<open>x\<close> has derived its root key and its sender chain from the root key of \<open>y\<close> by
  an encapsulation to the public key of \<open>y\<close>, which \<open>y\<close> has not processed yet.
\<close>

definition ahead_by :: "ratchet \<Rightarrow> ratchet \<Rightarrow> bytes \<Rightarrow> bytes \<Rightarrow> bytes \<Rightarrow> bytes \<Rightarrow> u32 \<Rightarrow> bytes \<Rightarrow> bool" where
  "ahead_by x y rt sky pky rk i k \<longleftrightarrow>
     rt_root_key y = buf rt \<and> pair sky pky \<and>
     map_option rc_our_ratchet_private_key (rt_receiver_chain y) = Some (buf sky) \<and>
     rt_sender_chain x = Some (sender_of pky rk i k) \<and>
     rt_root_key x = buf (take hf_len (step_secrets (dec sky rk) rt)) \<and>
     k = chain_at mac (drop hf_len (step_secrets (dec sky rk) rt)) (unat i) \<and>
     rt_root_sequence x = rt_root_sequence y + 1 \<and> rt_root_sequence x \<noteq> 0"

text \<open>The other direction holds the keys for the answer.\<close>

definition can_answer :: "ratchet \<Rightarrow> ratchet \<Rightarrow> bytes \<Rightarrow> bytes \<Rightarrow> bool" where
  "can_answer x y skx pkx \<longleftrightarrow> pair skx pkx \<and>
     map_option rc_our_ratchet_private_key (rt_receiver_chain x) = Some (buf skx) \<and>
     map_option sc_their_ratchet_public_key (rt_sender_chain y) = Some (buf pkx)"

lemma init_fields:
  "rt_root_key (bob_ratchet secret sk pk ct) = buf (take hf_len (root_secrets secret))"
  "rt_receiver_chain (bob_ratchet secret sk pk ct) = Some (first_receiver sk)"
  "rt_sender_chain (bob_ratchet secret sk pk ct) = Some (sender_of pk ct 0 (drop hf_len (root_secrets secret)))"
  "rt_root_sequence (bob_ratchet secret sk pk ct) = 0"
  "rt_root_key (alice_ratchet secret sk pk bct ct ss) =
     buf (take hf_len (step_secrets ss (take hf_len (root_secrets secret))))"
  "rt_receiver_chain (alice_ratchet secret sk pk bct ct ss) =
     Some (receiver_of bct sk 0 (drop hf_len (root_secrets secret)))"
  "rt_sender_chain (alice_ratchet secret sk pk bct ct ss) =
     Some (sender_of pk ct 0 (drop hf_len (step_secrets ss (take hf_len (root_secrets secret)))))"
  "rt_root_sequence (alice_ratchet secret sk pk bct ct ss) = 1"
  "rt_sending_message_sequence (bob_ratchet secret sk pk ct) = 0"
  "rt_received_message_sequence (bob_ratchet secret sk pk ct) = 0"
  "rt_sending_message_sequence (alice_ratchet secret sk pk bct ct ss) = 0"
  "rt_received_message_sequence (alice_ratchet secret sk pk bct ct ss) = 0"
  by (simp_all add: bob_ratchet_def alice_ratchet_def init_ratchet_def Let_def)

lemma init_ahead:
  assumes "pair ska pka" "pair skb pkb" and "enc t pkb = (ssa, cta, t')"
  shows "ahead_by (alice_ratchet secret ska pkb ctb cta ssa) (bob_ratchet secret skb pka ctb)
      (take hf_len (root_secrets secret)) skb pkb cta 0 (drop hf_len (step_secrets ssa (take hf_len (root_secrets secret))))"
    and "can_answer (alice_ratchet secret ska pkb ctb cta ssa) (bob_ratchet secret skb pka ctb) ska pka"
  using assms dec_enc [OF assms(2,3)] by (simp_all add: ahead_by_def can_answer_def init_fields)

lemma wf_turned:
  assumes "r' = (turned r p rk sk pk ct d1 d2)\<lparr>rt_skipped_msg_key_list := l, rt_n_skipped_msg_key_list := n\<rparr>"
    and "holds_skipped r' (newest (ns @ skipped_entries mac mkey rk 0 k m))"
    and "wf_r r ns" and "length rk = rk_len" "length sk = sk_len" "length pk = pk_len" "length ct = rk_len"
    and "length d1 = 2 * hf_len" "length d2 = 2 * hf_len" and "rt_root_sequence r + 1 + 1 \<noteq> 0"
  shows "wf_r r' (newest (ns @ skipped_entries mac mkey rk 0 k m))"
proof -
  have "wf_entries mk_len rk_len (ns @ skipped_entries mac mkey rk 0 k m)"
    using wf_skipped(2) [OF assms(3)] assms(4) by simp
  then have "wf_entries mk_len rk_len (newest (ns @ skipped_entries mac mkey rk 0 k m))"
    by (rule wf_entries_subset) (simp only: newest_def set_drop_subset)
  then show ?thesis using assms by (auto simp: wf_ratchet_def turned_def chain_at_Suc)
qed

text \<open>A message of the side that is ahead, with \<open>m\<close> messages of its previous chain missing.\<close>

lemma turn:
  assumes ahead: "ahead_by x y rt sky pky rk i k" and answer: "can_answer x y skx pkx"
    and wf: "wf_r x nx" "wf_r y ny" and root: "rt_root_sequence y + 1 + 1 \<noteq> 0"
    and msg: "length msg \<le> GCM_LIMIT" and ad: "ad \<noteq> []" and i: "unat i \<le> 1024"
    and sent: "rt_sending_message_sequence x = rt_received_message_sequence y + i"
    and first: "rt_root_sequence y = 0 \<Longrightarrow> rt_received_message_sequence y = 0"
    and mem: "mem_ok GrowCurrent"
  shows "\<exists>p x' y' s' rk' k' nx' ny'. encrypt_ratchet csp (Some x) (buf ad) (Some msg) = Some (0, Some p, Some x') \<and>
    decrypt_ratchet mem_ok csp (Some y) (buf ad) (Some p) s = Some (0, plain_out msg, y', s') \<and>
    ahead_by y' x' (take hf_len (step_secrets (dec sky rk) rt)) skx pkx rk' 0 k' \<and> can_answer y' x' sky pky \<and>
    wf_r x' nx' \<and> wf_r y' ny' \<and>
    rt_root_sequence y' = rt_root_sequence y + 1 + 1 \<and>
    rt_sending_message_sequence x' = rt_sending_message_sequence x + 1 \<and>
    rt_received_message_sequence x' = rt_received_message_sequence x \<and>
    rt_sending_message_sequence y' = rt_sending_message_sequence y \<and>
    rt_received_message_sequence y' = max (rt_received_message_sequence y) (rt_sending_message_sequence x + 1)"
proof -
  define c where "c = rt_sending_message_sequence x + 1"
  define ct where "ct = aead_seal (mkey k) ad msg"
  define p where "p = \<lparr>pl_sequence = i, pl_ratchet_key = buf rk, pl_root_sequence = rt_root_sequence x,
             pl_sending_message_sequence = c, pl_ciphertext = buf ct\<rparr>"
  define x' where "x' = x\<lparr>rt_sender_chain := Some (sender_of pky rk (i + 1) (mac k CHAIN_KEY_SEED)),
                  rt_sending_message_sequence := c\<rparr>"
  let ?d1 = "step_secrets (dec sky rk) rt"
  have x: "rt_sender_chain x = Some (sender_of pky rk i k)" "k = chain_at mac (drop hf_len ?d1) (unat i)"
      "rt_root_key x = buf (take hf_len ?d1)" "rt_root_sequence x = rt_root_sequence y + 1" "rt_root_sequence x \<noteq> 0"
    and y: "rt_root_key y = buf rt" "pair sky pky"
    using ahead unfolding ahead_by_def by blast+
  obtain cy where cy: "rt_receiver_chain y = Some cy" "rc_our_ratchet_private_key cy = buf sky"
    using ahead by (auto simp: ahead_by_def)
  obtain rk0 i0 k0 where sy: "rt_sender_chain y = Some (sender_of pkx rk0 i0 k0)" and pkx: "length pkx = pk_len"
    using answer wf(2) by (auto simp: can_answer_def wf_ratchet_def)
  have len: "length rk = rk_len" "length k = hf_len" using wf(1) x(1) by (auto simp: wf_ratchet_def)
  obtain ss ct' s' where enc: "enc s pkx = (ss, ct', s')" by (metis prod_cases3)
  let ?d2 = "step_secrets ss (take hf_len ?d1)"
  have send: "encrypt_ratchet csp (Some x) (buf ad) (Some msg) = Some (0, Some p, Some x')"
    using encrypt_ok [OF wf(1) x(1) msg] by (simp add: p_def x'_def c_def ct_def)
  have pw: "wf_p p rk ct" using len msg by (simp add: wf_payload_def p_def ct_def seal_length)
  have op: "aead_open (mkey (chain_at mac (drop hf_len ?d1) (unat (pl_sequence p)))) ad ct = Some msg"
    using x(2) msg by (simp add: p_def ct_def open_seal)
  have eq: "c = rt_received_message_sequence y + (i + 1)" using sent by (simp add: c_def)
  then have prev: "skip_previous mem_ok csp y p = Some (0, y)" by (simp add: skip_previous_def p_def)
  have "\<not> (rt_root_sequence y = 0 \<and> pl_sending_message_sequence p < pl_sequence p)"
  proof
    assume "rt_root_sequence y = 0 \<and> pl_sending_message_sequence p < pl_sequence p"
    then have "i + 1 < i" using first eq by (simp add: p_def)
    moreover have "unat (i + 1) = Suc (unat i)" using i by (simp add: unat_word_ariths)
    ultimately show False by (simp add: word_less_nat_alt)
  qed
  from decrypt_new_from [where mem_ok = mem_ok and ?l0.0 = "rt_skipped_msg_key_list y" and
      ?n0.0 = "rt_n_skipped_msg_key_list y", OF wf(2) pw ad _ _ this y(1) cy sy enc refl refl op _ disjI2 [OF mem] prev _ cy(2)
      wf_skipped(1) [OF wf(2)]] x(4,5) i cy
  obtain l y' where y': "decrypt_ratchet mem_ok csp (Some y) (buf ad) (Some p) s = Some (0, plain_out msg, y', s')"
      "y' = (turned y p rk sky pkx ct' ?d1 ?d2)\<lparr>rt_skipped_msg_key_list := l,
            rt_n_skipped_msg_key_list := min (length ny + unat i) 1024\<rparr>"
      "holds_skipped y' (newest (ny @ skipped_entries mac mkey rk 0 (drop hf_len ?d1) (unat i)))"
    by (auto simp: p_def)
  have wx: "wf_r x' nx" unfolding x'_def by (rule wf_encrypted [OF wf(1) x(1)])
  have wy: "wf_r y' (newest (ny @ skipped_entries mac mkey rk 0 (drop hf_len ?d1) (unat i)))"
    by (rule wf_turned [OF y'(2,3)]) (use wf(2) len pkx root y(2) pair_length enc_call [OF pkx enc] in auto)
  have "ahead_by y' x' (take hf_len ?d1) skx pkx ct' 0 (drop hf_len ?d2)"
    using answer x y'(2) dec_enc [OF _ enc, of skx] root
    by (auto simp: ahead_by_def can_answer_def turned_def x'_def bump_eq)
  moreover have "can_answer y' x' sky pky" using y(2) y'(2) by (simp add: can_answer_def turned_def x'_def)
  ultimately show ?thesis using send y' wx wy
    by (intro exI [of _ p] exI [of _ x'] exI [of _ y'] exI conjI)
      (assumption | simp add: x'_def turned_def bump_eq p_def c_def)+
qed

lemma talk_ok:
  assumes "ahead_by x y rt sky pky rk 0 k" and "can_answer x y skx pkx" and "wf_r x nx" "wf_r y ny"
    and "\<forall>m\<in>set ms. length m \<le> GCM_LIMIT" and "ad \<noteq> []" and "mem_ok GrowCurrent"
    and "rt_sending_message_sequence x = rt_received_message_sequence y"
    and "rt_sending_message_sequence y = rt_received_message_sequence x"
    and "rt_root_sequence y = 0 \<Longrightarrow> rt_received_message_sequence y = 0"
    and "unat (rt_root_sequence y) + length ms + 1 < 2 ^ 32"
    and "unat (rt_sending_message_sequence x) + length ms < 2 ^ 32"
    and "unat (rt_sending_message_sequence y) + length ms < 2 ^ 32"
  shows "talk mem_ok cs (buf ad) x y ms s = Some (map (\<lambda>m. (0, plain_out m)) ms)"
  using assms
proof (induction ms arbitrary: x y rt sky pky rk k skx pkx nx ny s)
  case Nil
  show ?case by simp
next
  case (Cons m ms)
  have up1: "unat (rt_root_sequence y + 1) = unat (rt_root_sequence y) + 1"
    and up2: "unat (rt_root_sequence y + 1 + 1) = unat (rt_root_sequence y) + 2"
    and up3: "unat (rt_sending_message_sequence x + 1) = unat (rt_sending_message_sequence x) + 1"
    using Cons.prems(11,12) by (simp_all add: unat_word_ariths)
  have root: "rt_root_sequence y + 1 + 1 \<noteq> 0" using up2 by (metis add_is_0 unat_0 zero_neq_numeral)
  obtain p x' y' s' rk' k' nx' ny' where
    step: "encrypt_ratchet csp (Some x) (buf ad) (Some m) = Some (0, Some p, Some x')"
      "decrypt_ratchet mem_ok csp (Some y) (buf ad) (Some p) s = Some (0, plain_out m, y', s')"
    and inv: "ahead_by y' x' (take hf_len (step_secrets (dec sky rk) rt)) skx pkx rk' 0 k'" "can_answer y' x' sky pky"
      "wf_r x' nx'" "wf_r y' ny'"
    and cnt: "rt_root_sequence y' = rt_root_sequence y + 1 + 1"
      "rt_sending_message_sequence x' = rt_sending_message_sequence x + 1"
      "rt_received_message_sequence x' = rt_received_message_sequence x"
      "rt_sending_message_sequence y' = rt_sending_message_sequence y"
      "rt_received_message_sequence y' = max (rt_received_message_sequence y) (rt_sending_message_sequence x + 1)"
    using turn [where mem_ok = mem_ok and s = s, OF Cons.prems(1-4) root _ Cons.prems(6) _ _ Cons.prems(10,7), of m]
      Cons.prems(5,8) by auto
  have "rt_sending_message_sequence x \<le> rt_sending_message_sequence x + 1"
    using up3 by (simp add: word_le_nat_alt)
  then have recv: "rt_received_message_sequence y' = rt_sending_message_sequence x'"
    using cnt Cons.prems(8) by (simp add: max_def)
  have rx: "rt_root_sequence y' = rt_root_sequence x' + 1" "rt_root_sequence x' = rt_root_sequence y + 1"
    using inv(1) cnt(1) unfolding ahead_by_def by (metis, metis add_right_cancel)
  have "talk mem_ok cs (buf ad) y' x' ms s' = Some (map (\<lambda>m. (0, plain_out m)) ms)"
    by (rule Cons.IH [OF inv(1,2,4,3)]) (use Cons.prems recv cnt rx up1 up3 in auto)
  then show ?case using step wf_valid [OF Cons.prems(3)] by simp
qed

end

end
