(* ===== verification/Ratchet_Safe.thy ===== *)
theory Ratchet_Safe
  imports Ratchet_Runs
begin

section \<open>Every message leaves a well-formed ratchet\<close>

text \<open>
  \<open>decrypt_ratchet\<close> on a well-formed ratchet and any message with a ratchet key of the right
  length and a ciphertext at least as long as the tag: it returns, whatever the
  allocations do, and the ratchet stays well formed.  The one exception is a first message that
  announces skipped messages to a side that has no previous chain.
\<close>

context e2ee_suite
begin

text \<open>The part of the invariant that does not mention the skipped keys.\<close>

definition wf_core :: "ratchet \<Rightarrow> bool" where
  "wf_core r \<longleftrightarrow>
     (\<exists>root. rt_root_key r = buf root \<and> length root = hf_len) \<and>
     (\<exists>pk rk i k. rt_sender_chain r = Some (sender_of pk rk i k) \<and>
        length pk = pk_len \<and> length rk = rk_len \<and> length k = hf_len) \<and>
     (if rt_root_sequence r = 0
      then \<exists>sk. rt_receiver_chain r = Some (first_receiver sk) \<and> length sk = sk_len
      else \<exists>rk sk i k. rt_receiver_chain r = Some (receiver_of rk sk i k) \<and>
             length rk = rk_len \<and> length sk = sk_len \<and> length k = hf_len)"

lemma wf_r_iff: "wf_r r ns \<longleftrightarrow> wf_core r \<and> holds_skipped r ns \<and> wf_entries mk_len rk_len ns \<and> length ns \<le> 1024"
  unfolding wf_ratchet_def wf_core_def by blast

lemma wf_bound: "wf_r r ns \<Longrightarrow> length ns \<le> 1024"
  by (simp add: wf_r_iff)

lemma wf_core_update [simp]:
  "wf_core (r\<lparr>rt_skipped_msg_key_list := l, rt_n_skipped_msg_key_list := n\<rparr>) \<longleftrightarrow> wf_core r"
  "wf_core (bump p r) \<longleftrightarrow> wf_core r"
  by (simp_all add: wf_core_def bump_eq)

lemma wf_newest: "wf_entries m l ns \<Longrightarrow> wf_entries m l (newest ns)"
  by (erule wf_entries_subset) (simp add: newest_def set_drop_subset)

text \<open>The last steps of a run whose trial decryption succeeded.\<close>

lemma decrypt_by:
  assumes wf: "wf_r r ns" and p: "wf_p p rk ct" and ad: "ad \<noteq> []"
    and first: "\<not> (rt_root_sequence r = 0 \<and> pl_sending_message_sequence p < pl_sequence p)"
    and way: "classify_root r p = Some (0, way, c)"
    and trial: "decrypt_trial mem_ok csp r (buf ad) p way rk_len s = Some (0, plain_out pt, r1, s1)"
    and upd: "decrypt_update mem_ok csp r1 p way c s1 = Some (ret, r2, s2)" "ret = 0 \<or> ret = - 1"
    and core: "wf_core r2" "holds_skipped r2 ns2" "wf_entries mk_len rk_len ns2"
  shows "\<exists>r'. decrypt_ratchet mem_ok csp (Some r) (buf ad) (Some p) s =
      Some (ret, if ret = 0 then plain_out pt else empty_bdata, r', s2) \<and> wf_r r' (newest ns2)"
proof -
  have "holds_skipped (bump p r2) ns2" using core(2) by (simp add: holds_skipped_def bump_eq)
  from prune_ok [OF this] obtain l where
    prune: "prune_bloated_skipped_keys (bump p r2) =
        Some ((bump p r2)\<lparr>rt_skipped_msg_key_list := l, rt_n_skipped_msg_key_list := length (newest ns2)\<rparr>)"
      "\<And>r' :: ratchet. rt_skipped_msg_key_list r' = l \<Longrightarrow> rt_n_skipped_msg_key_list r' = length (newest ns2) \<Longrightarrow>
         holds_skipped r' (newest ns2)" by blast
  let ?r' = "(bump p r2)\<lparr>rt_skipped_msg_key_list := l, rt_n_skipped_msg_key_list := length (newest ns2)\<rparr>"
  have "wf_r ?r' (newest ns2)" using core wf_newest prune(2) by (simp add: wf_r_iff)
  moreover have "decrypt_ratchet mem_ok csp (Some r) (buf ad) (Some p) s =
      Some (ret, if ret = 0 then plain_out pt else empty_bdata, ?r', s2)"
    using decrypt_unfold [OF wf p ad first] way trial upd prune(1) by (auto simp: plain_out_def)
  ultimately show ?thesis by blast
qed

lemma skip_current_total:
  assumes core: "wf_core r" "rt_root_sequence r \<noteq> 0"
    and chain: "rt_receiver_chain r = Some (receiver_of rk sk i k)" and i: "i \<le> pl_sequence p"
    and ns: "holds_skipped r ns" "wf_entries mk_len rk_len ns"
  shows "\<exists>ret r' ns'. (do { (ret, r) \<leftarrow> skip_current mem_ok csp r p;
        if ret \<noteq> 0 then Some (ret, r, s) else do { r \<leftarrow> advance_receiver csp r p; Some (ret, r, s) } }) = Some (ret, r', s) \<and>
    (ret = 0 \<or> ret = - 1) \<and> wf_core r' \<and> holds_skipped r' ns' \<and> wf_entries mk_len rk_len ns'"
proof -
  have len: "length rk = rk_len" "length sk = sk_len" "length k = hf_len" using core chain by (auto simp: wf_core_def)
  define n where "n = unat (pl_sequence p) - unat i"
  show ?thesis
  proof (cases "n \<le> 1024 \<and> (n = 0 \<or> mem_ok GrowCurrent)")
    case True
    then obtain l r1 where r1: "skip_current mem_ok csp r p = Some (0, r1)"
        "r1 = r\<lparr>rt_skipped_msg_key_list := l, rt_n_skipped_msg_key_list := length ns + n,
           rt_receiver_chain := Some (receiver_of rk sk (pl_sequence p) (chain_at mac k n))\<rparr>"
        "holds_skipped r1 (ns @ skipped_entries mac mkey rk i k n)"
      using skip_current_ok [where mem_ok = mem_ok, OF chain len(3,1) ns(1) i n_def] by blast
    define r2 where "r2 = r1\<lparr>rt_receiver_chain :=
      Some (receiver_of rk sk (pl_sequence p + 1) (mac (chain_at mac k n) CHAIN_KEY_SEED))\<rparr>"
    have "advance_receiver csp r1 p = Some r2"
      unfolding r2_def by (rule advance_receiver_ok) (use r1(2) len in auto)
    moreover have "wf_core r2" using core r1(2) len by (auto simp: wf_core_def r2_def)
    moreover have "holds_skipped r2 (ns @ skipped_entries mac mkey rk i k n)"
      using r1(3) by (simp add: holds_skipped_def r2_def)
    ultimately show ?thesis using r1(1) ns(2) len(1)
      by (intro exI [of _ 0] exI [of _ r2] exI [of _ "ns @ skipped_entries mac mkey rk i k n"]) simp
  next
    case False
    have diff: "unat (pl_sequence p - i) = n" using i by (simp add: unat_sub_if' word_le_nat_alt n_def)
    have "n \<noteq> 0" using False by auto
    then have "i < pl_sequence p" using i by (auto simp: n_def word_less_nat_alt)
    then have "skip_current mem_ok csp r p = Some (- 1, r)"
      using False chain diff by (auto simp: skip_current_def receiver_index_def grow_skipped_def Let_def)
    then show ?thesis using core ns by auto
  qed
qed

text \<open>How many messages of the previous chain a payload announces as missing.\<close>

abbreviation "missing r p \<equiv>
  unat (pl_sending_message_sequence p) - unat (rt_received_message_sequence r + (pl_sequence p + 1))"

lemma skip_previous_total:
  assumes wf: "wf_r r ns" and sane: "rt_root_sequence r = 0 \<Longrightarrow> missing r p = 0"
  shows "\<exists>ret r' ns'. skip_previous mem_ok csp r p = Some (ret, r') \<and> (ret = 0 \<or> ret = - 1) \<and>
    wf_core r' \<and> holds_skipped r' ns' \<and> wf_entries mk_len rk_len ns' \<and> rt_root_sequence r' = rt_root_sequence r"
proof (cases "missing r p \<le> 1024 \<and> (missing r p = 0 \<or> mem_ok GrowPrevious)")
  case False
  then have "skip_previous mem_ok csp r p = Some (- 1, r)" by (auto simp: skip_previous_def grow_skipped_def Let_def)
  then show ?thesis using wf by (auto simp: wf_r_iff)
next
  case True
  show ?thesis
  proof (cases "rt_root_sequence r = 0")
    case True
    then have "skip_previous mem_ok csp r p = Some (0, r)" using sane by (simp add: skip_previous_def)
    then show ?thesis using wf by (auto simp: wf_r_iff)
  next
    case nz: False
    obtain rk sk i k where chain: "rt_receiver_chain r = Some (receiver_of rk sk i k)"
        "length rk = rk_len" "length sk = sk_len" "length k = hf_len" by (rule wf_receiver [OF wf nz])
    from skip_previous_ok [where mem_ok = mem_ok, OF chain(1,4,2) wf_skipped(1) [OF wf] refl] True
    obtain l r' where r': "skip_previous mem_ok csp r p = Some (0, r')"
        "r' = r\<lparr>rt_skipped_msg_key_list := l, rt_n_skipped_msg_key_list := length ns + missing r p,
           rt_receiver_chain := Some (receiver_of rk sk (i + of_nat (missing r p)) (chain_at mac k (missing r p)))\<rparr>"
        "holds_skipped r' (ns @ skipped_entries mac mkey rk i k (missing r p))" by blast
    have "wf_core r'" using wf nz r'(2) chain by (auto simp: wf_r_iff wf_core_def)
    moreover have "wf_entries mk_len rk_len (ns @ skipped_entries mac mkey rk i k (missing r p))"
      using wf_skipped(2) [OF wf] chain(2) by simp
    moreover have "rt_root_sequence r' = rt_root_sequence r" using r'(2) by simp
    ultimately show ?thesis using r'(1,3) by blast
  qed
qed

lemma wf_coreE:
  assumes "wf_core r"
  obtains root pk rk i k chain sk where "rt_root_key r = buf root" "length root = hf_len"
    "rt_sender_chain r = Some (sender_of pk rk i k)" "length pk = pk_len"
    "rt_receiver_chain r = Some chain" "rc_our_ratchet_private_key chain = buf sk" "length sk = sk_len"
proof -
  from assms obtain root where root: "rt_root_key r = buf root" "length root = hf_len" by (auto simp: wf_core_def)
  from assms obtain pk rk i k where sender: "rt_sender_chain r = Some (sender_of pk rk i k)" "length pk = pk_len"
    by (auto simp: wf_core_def)
  from assms obtain chain sk where "rt_receiver_chain r = Some chain" "rc_our_ratchet_private_key chain = buf sk"
      "length sk = sk_len" by (auto simp: wf_core_def split: if_splits)
  with root sender show ?thesis by (rule that)
qed

lemma new_update_total:
  assumes wf: "wf_r r ns" and p: "wf_p p rk ct" and sane: "rt_root_sequence r = 0 \<Longrightarrow> missing r p = 0"
    and root: "rt_root_sequence r + 1 + 1 \<noteq> 0"
  shows "\<exists>ret r' s' ns'. decrypt_update mem_ok csp r p NewChain False s = Some (ret, r', s') \<and> (ret = 0 \<or> ret = - 1) \<and>
    wf_core r' \<and> holds_skipped r' ns' \<and> wf_entries mk_len rk_len ns'"
proof -
  obtain ret r0 ns0 where prev: "skip_previous mem_ok csp r p = Some (ret, r0)" "ret = 0 \<or> ret = - 1"
      "wf_core r0" "holds_skipped r0 ns0" "wf_entries mk_len rk_len ns0" "rt_root_sequence r0 = rt_root_sequence r"
    using skip_previous_total [OF wf sane, where mem_ok = mem_ok] by blast
  show ?thesis
  proof (cases "ret = 0")
    case False
    then show ?thesis using prev by (auto simp: decrypt_update_def)
  next
    case True
    obtain rt pk rk' i k chain sk where core: "rt_root_key r0 = buf rt" "length rt = hf_len"
        "rt_sender_chain r0 = Some (sender_of pk rk' i k)" "length pk = pk_len"
        "rt_receiver_chain r0 = Some chain" "rc_our_ratchet_private_key chain = buf sk" "length sk = sk_len"
      by (rule wf_coreE [OF prev(3)])
    obtain ss ct' s' where enc: "enc s pk = (ss, ct', s')" by (metis prod_cases3)
    have p': "pl_ratchet_key p = buf rk" "length rk = rk_len" using p by (auto simp: wf_payload_def)
    define d1 where "d1 = step_secrets (dec sk rk) rt"
    define d2 where "d2 = step_secrets ss (take hf_len d1)"
    define r1 where "r1 = r0\<lparr>rt_root_key := buf (take hf_len d2),
            rt_receiver_chain := Some (receiver_of rk sk 0 (drop hf_len d1)),
            rt_sender_chain := Some (sender_of pk ct' 0 (drop hf_len d2)),
            rt_root_sequence := rt_root_sequence r0 + 1 + 1\<rparr>"
    have new: "new_chains csp r0 p s = Some (r1, s')"
      unfolding r1_def by (rule new_chains_ok [OF core(1,2,5,6,7,3,4) p' enc d1_def d2_def])
    have r1: "wf_core r1" "rt_root_sequence r1 \<noteq> 0" "holds_skipped r1 ns0"
        "rt_receiver_chain r1 = Some (receiver_of rk sk 0 (drop hf_len d1))"
      using core(4,7) p'(2) enc_call [OF core(4) enc] root prev(4,6)
      by (auto simp: wf_core_def r1_def d1_def d2_def holds_skipped_def)
    have "0 \<le> pl_sequence p" by simp
    from skip_current_total [OF r1(1,2,4) this r1(3) prev(5), where mem_ok = mem_ok and s = s'] True prev(1) new
    show ?thesis by (simp add: decrypt_update_def) blast
  qed
qed

text \<open>The outcome of a run: a result code, a plaintext only on success, a well-formed ratchet.\<close>

definition safe_outcome :: "(int \<times> bdata \<times> ratchet \<times> seed) option \<Rightarrow> bool" where
  "safe_outcome x \<longleftrightarrow> (\<exists>ret out r' s' ns'. x = Some (ret, out, r', s') \<and>
     (ret = 0 \<or> ret = - 1 \<and> out = empty_bdata) \<and> wf_r r' ns')"

lemma safe_refused:
  assumes "x = Some (- 1, empty_bdata, bump p r, s)" and "wf_r r ns"
  shows "safe_outcome x"
  using assms unfolding safe_outcome_def by (metis wf_bump)

lemma safe_skipped:
  assumes wf: "wf_r r ns" and p: "wf_p p rk ct" and ad: "ad \<noteq> []" and root: "rt_root_sequence r \<noteq> 0"
    and way: "classify_root r p = Some (0, Skipped, c)"
    and later: "c \<Longrightarrow> \<exists>sk i k. rt_receiver_chain r = Some (receiver_of rk sk i k) \<and> pl_sequence p < i"
  shows "safe_outcome (decrypt_ratchet mem_ok csp (Some r) (buf ad) (Some p) s)"
proof (cases "\<forall>e\<in>set ns. hit p rk ad ct e = None")
  case True
  from trial_skipped_none [OF wf p ad this] way
  have "decrypt_ratchet mem_ok csp (Some r) (buf ad) (Some p) s = Some (- 1, empty_bdata, bump p r, s)"
    by (intro decrypt_refused [OF wf p ad]) auto
  then show ?thesis by (rule safe_refused [OF _ wf])
next
  case False
  then have ex: "\<exists>j. j < length ns \<and> hit p rk ad ct (ns ! j) \<noteq> None" by (metis in_set_conv_nth)
  define j where "j = (LEAST j. j < length ns \<and> hit p rk ad ct (ns ! j) \<noteq> None)"
  have j: "j < length ns" "hit p rk ad ct (ns ! j) \<noteq> None" using LeastI_ex [OF ex] by (auto simp: j_def)
  have before: "\<forall>i<j. hit p rk ad ct (ns ! i) = None"
    using not_less_Least [of _ "\<lambda>j. j < length ns \<and> hit p rk ad ct (ns ! j) \<noteq> None"] j(1)
    by (metis j_def less_trans)
  obtain pt where pt: "hit p rk ad ct (ns ! j) = Some pt" using j(2) by auto
  from decrypt_skipped [OF wf p ad root way later j(1) pt before, where mem_ok = mem_ok and s = s]
  obtain l r' where r': "decrypt_ratchet mem_ok csp (Some r) (buf ad) (Some p) s =
      (if length ns = 1 \<or> mem_ok ShrinkSkipped then Some (0, plain_out pt, r', s) else Some (- 1, empty_bdata, r', s))"
    "r' = (bump p r)\<lparr>rt_skipped_msg_key_list := l, rt_n_skipped_msg_key_list := length ns - 1\<rparr>"
    "holds_skipped r' (take j ns @ drop (Suc j) ns)" by blast
  have "set (take j ns @ drop (Suc j) ns) \<subseteq> set ns" by (auto dest: in_set_takeD in_set_dropD)
  then have "wf_entries mk_len rk_len (take j ns @ drop (Suc j) ns)"
    by (rule wf_entries_subset [OF wf_skipped(2) [OF wf]])
  moreover have "length (take j ns @ drop (Suc j) ns) \<le> 1024" using j(1) wf_bound [OF wf] by simp
  moreover have "wf_core r'" using r'(2) wf by (simp add: wf_r_iff)
  ultimately have "wf_r r' (take j ns @ drop (Suc j) ns)" using r'(3) unfolding wf_r_iff by blast
  then show ?thesis using r'(1) unfolding safe_outcome_def by (cases "length ns = 1 \<or> mem_ok ShrinkSkipped") auto
qed

lemma safe_current:
  assumes wf: "wf_r r ns" and p: "wf_p p rk ct" and ad: "ad \<noteq> []" and root: "rt_root_sequence r \<noteq> 0"
    and way: "classify_root r p = Some (0, CurrentChain, True)"
    and chain: "rt_receiver_chain r = Some (receiver_of rk sk i k)" and i: "i \<le> pl_sequence p"
  shows "safe_outcome (decrypt_ratchet mem_ok csp (Some r) (buf ad) (Some p) s)"
proof -
  note len = wf_receiverD [OF wf root chain]
  note trial = trial_current [OF chain len(3,1) p ad i, where mem_ok = mem_ok and s = s]
  show ?thesis
  proof (cases "aead_open (mkey (chain_at mac k (unat (pl_sequence p) - unat i))) ad ct")
    case None
    then have "decrypt_ratchet mem_ok csp (Some r) (buf ad) (Some p) s = Some (- 1, empty_bdata, bump p r, s)"
      using trial way by (intro decrypt_refused [OF wf p ad]) (auto simp: open_result_def)
    then show ?thesis by (rule safe_refused [OF _ wf])
  next
    case (Some pt)
    then have trial': "decrypt_trial mem_ok csp r (buf ad) p CurrentChain rk_len s = Some (0, plain_out pt, r, s)"
      using trial by (simp add: open_result_def)
    obtain ret r2 ns2 where upd: "decrypt_update mem_ok csp r p CurrentChain True s = Some (ret, r2, s)"
        "ret = 0 \<or> ret = - 1" "wf_core r2" "holds_skipped r2 ns2" "wf_entries mk_len rk_len ns2"
      using skip_current_total [OF _ root chain i, of ns mem_ok s] wf by (auto simp: decrypt_update_def wf_r_iff)
    have "\<not> (rt_root_sequence r = 0 \<and> pl_sending_message_sequence p < pl_sequence p)" using root by simp
    from decrypt_by [OF wf p ad this way trial' upd] upd(2) show ?thesis unfolding safe_outcome_def by fastforce
  qed
qed

lemma safe_new:
  assumes wf: "wf_r r ns" and p: "wf_p p rk ct" and ad: "ad \<noteq> []"
    and first: "\<not> (rt_root_sequence r = 0 \<and> pl_sending_message_sequence p < pl_sequence p)"
    and coming: "pl_root_sequence p = rt_root_sequence r + 1" and root: "rt_root_sequence r + 1 \<noteq> 0" "rt_root_sequence r + 1 + 1 \<noteq> 0"
    and sane: "rt_root_sequence r = 0 \<Longrightarrow> missing r p = 0"
  shows "safe_outcome (decrypt_ratchet mem_ok csp (Some r) (buf ad) (Some p) s)"
proof -
  obtain rt pk rk' i k chain sk where core: "rt_root_key r = buf rt" "length rt = hf_len"
      "rt_sender_chain r = Some (sender_of pk rk' i k)" "length pk = pk_len"
      "rt_receiver_chain r = Some chain" "rc_our_ratchet_private_key chain = buf sk" "length sk = sk_len"
    using wf wf_coreE unfolding wf_r_iff by metis
  note trial = trial_new [OF wf p ad coming root(1) core(1,2,5-7), where mem_ok = mem_ok and s = s]
  note way = classify_new [OF coming root(1)]
  show ?thesis
  proof (cases "aead_open (mkey (chain_at mac (drop hf_len (step_secrets (dec sk rk) rt)) (unat (pl_sequence p)))) ad ct")
    case None
    then have "decrypt_ratchet mem_ok csp (Some r) (buf ad) (Some p) s = Some (- 1, empty_bdata, bump p r, s)"
      using trial way by (intro decrypt_refused [OF wf p ad]) (auto simp: open_result_def)
    then show ?thesis by (rule safe_refused [OF _ wf])
  next
    case (Some pt)
    then have trial': "decrypt_trial mem_ok csp r (buf ad) p NewChain rk_len s = Some (0, plain_out pt, r, s)"
      using trial by (simp add: open_result_def)
    obtain ret r2 s2 ns2 where upd: "decrypt_update mem_ok csp r p NewChain False s = Some (ret, r2, s2)"
        "ret = 0 \<or> ret = - 1" "wf_core r2" "holds_skipped r2 ns2" "wf_entries mk_len rk_len ns2"
      using new_update_total [OF wf p sane root(2), where mem_ok = mem_ok and s = s] by blast
    from decrypt_by [OF wf p ad first way trial' upd] upd(2) show ?thesis unfolding safe_outcome_def by fastforce
  qed
qed

lemma decrypt_safe:
  assumes wf: "wf_r r ns" and p: "wf_p p rk ct" and ad: "ad \<noteq> []" and root: "unat (rt_root_sequence r) + 2 < 2 ^ 32"
    and sane: "rt_root_sequence r = 0 \<Longrightarrow> missing r p = 0"
  shows "safe_outcome (decrypt_ratchet mem_ok csp (Some r) (buf ad) (Some p) s)"
proof -
  have up: "unat (rt_root_sequence r + 1) = unat (rt_root_sequence r) + 1"
      "unat (rt_root_sequence r + 1 + 1) = unat (rt_root_sequence r) + 2"
    using root by (simp_all add: unat_word_ariths)
  then have nz: "rt_root_sequence r + 1 \<noteq> 0" "rt_root_sequence r + 1 + 1 \<noteq> 0"
    by (metis add_is_0 unat_0 zero_neq_one, metis add_is_0 unat_0 zero_neq_numeral)
  let ?early = "rt_root_sequence r = 0 \<and> pl_sending_message_sequence p < pl_sequence p"
  have refused: ?thesis if "?early \<or> (\<exists>way c. classify_root r p = Some (- 1, way, c))"
    using that by (intro safe_refused [OF decrypt_refused [OF wf p ad] wf]) auto
  consider "?early" | (behind) "\<not> ?early" "pl_root_sequence p < rt_root_sequence r"
    | (ahead) "\<not> ?early" "\<not> pl_root_sequence p < rt_root_sequence r" by blast
  then show ?thesis
  proof cases
    case behind
    then have nonzero: "rt_root_sequence r \<noteq> 0" by auto
    obtain rk0 sk i k where chain: "rt_receiver_chain r = Some (receiver_of rk0 sk i k)" by (rule wf_receiver [OF wf nonzero])
    have key: "pl_ratchet_key p = buf rk" using p by (simp add: wf_payload_def)
    show ?thesis
    proof (cases "pl_root_sequence p = rt_root_sequence r - 1")
      case False
      from classify_old [OF behind(2) False] show ?thesis by (rule safe_skipped [OF wf p ad nonzero]) simp
    next
      case True
      note way = classify_current [OF nonzero True chain key]
      consider "rk0 \<noteq> rk" | "rk0 = rk" "i > pl_sequence p" | "rk0 = rk" "i \<le> pl_sequence p" using not_le by blast
      then show ?thesis
      proof cases
        case 1
        then show ?thesis using way by (intro refused) auto
      next
        case 2
        then show ?thesis using way chain by (intro safe_skipped [OF wf p ad nonzero, of True]) auto
      next
        case 3
        then show ?thesis using way chain by (intro safe_current [OF wf p ad nonzero, of sk i k]) auto
      qed
    qed
  next
    case ahead
    show ?thesis
    proof (cases "pl_root_sequence p = rt_root_sequence r + 1")
      case True
      then show ?thesis by (rule safe_new [OF wf p ad ahead(1) _ nz sane])
    next
      case False
      then show ?thesis using classify_rest [OF ahead(2)] by (intro refused) auto
    qed
  qed (use refused in blast)
qed

subsection \<open>A first message that announces missing messages\<close>

text \<open>
  The exception of the previous lemma.  The keys of the messages announced as missing are to be
  taken from a receiver chain that does not exist yet: the array for them stays allocated with the
  counter at zero, which \<open>is_valid_ratchet\<close> does not accept any more.
\<close>

lemma first_message_breaks:
  assumes wf: "wf_r r []" and p: "wf_p p rk ct" and ad: "ad \<noteq> []" and root: "rt_root_sequence r = 0"
    and coming: "pl_root_sequence p = 1" and first: "\<not> pl_sending_message_sequence p < pl_sequence p"
    and m: "0 < missing r p" "missing r p \<le> 1024" and mem: "mem_ok GrowPrevious"
    and trial: "decrypt_trial mem_ok csp r (buf ad) p NewChain rk_len s = Some (0, plain_out pt, r, s)"
  shows "\<exists>r'. decrypt_ratchet mem_ok csp (Some r) (buf ad) (Some p) s = Some (- 1, empty_bdata, r', s) \<and>
    is_valid_ratchet (Some r') = Some False \<and> rt_n_skipped_msg_key_list r' = 0"
proof -
  obtain sk where chain: "rt_receiver_chain r = Some (first_receiver sk)" using wf root by (auto simp: wf_ratchet_def)
  have list: "rt_skipped_msg_key_list r = None" "rt_n_skipped_msg_key_list r = 0"
    using wf by (auto simp: wf_ratchet_def holds_skipped_def split: option.splits)
  define r1 where "r1 = r\<lparr>rt_skipped_msg_key_list := Some (replicate (missing r p) None)\<rparr>"
  have "store_skipped csp r1 = Some (- 1, r1)"
    using chain by (simp add: store_skipped_def r1_def create_msg_keys_def is_valid_chain_key_def)
  then have "store_previous csp r1 (missing r p) = Some (- 1, r1)" using m(1) by (cases "missing r p") simp_all
  moreover have "grow_skipped True r (missing r p) = (0, r1)" using list by (simp add: grow_skipped_def r1_def)
  ultimately have "skip_previous mem_ok csp r p = Some (- 1, r1)"
    using m mem by (simp add: skip_previous_def Let_def)
  then have upd: "decrypt_update mem_ok csp r p NewChain False s = Some (- 1, r1, s)" by (simp add: decrypt_update_def)
  have way: "classify_root r p = Some (0, NewChain, False)" by (rule classify_new) (use coming root in auto)
  have prune: "prune_bloated_skipped_keys (bump p r1) = Some (bump p r1)"
    using list by (simp add: prune_bloated_skipped_keys_def r1_def bump_eq)
  have "decrypt_ratchet mem_ok csp (Some r) (buf ad) (Some p) s = Some (- 1, empty_bdata, bump p r1, s)"
    using decrypt_unfold [OF wf p ad] first way trial upd prune by (simp add: plain_out_def)
  moreover have "is_valid_ratchet (Some (bump p r1)) = Some False"
    using list by (auto simp: is_valid_ratchet_def is_valid_skipped_msg_key_list_def bump_eq r1_def)
  moreover have "rt_n_skipped_msg_key_list (bump p r1) = 0" using list by (simp add: bump_eq r1_def)
  ultimately show ?thesis by blast
qed

end

end
