(* ===== verification/Ratchet_Props.thy ===== *)
theory Ratchet_Props
  imports Ratchet_Talk Ratchet_Safe
begin

section \<open>The ratchet over the library's suites\<close>

text \<open>
  The results about \<open>encrypt_ratchet\<close>, \<open>decrypt_ratchet\<close> and the initialisations, stated for
  the suite \<open>suite_of P raw\<close> of any pack id the library accepts.  The only assumptions about
  code outside the repository are the documented properties \<open>prims_ok P\<close>.
\<close>

subsection \<open>Ratchets of an accepted suite\<close>

definition suite_ratchet :: "prims \<Rightarrow> kem_alg \<Rightarrow> ratchet \<Rightarrow> (bytes \<times> u32 \<times> bytes) list \<Rightarrow> bool" where
  "suite_ratchet P a =
     wf_ratchet 32 48 (pr_kem_ct_bytes P a) (pr_kem_pk_bytes P a) (pr_kem_sk_bytes P a)"

definition suite_payload :: "prims \<Rightarrow> kem_alg \<Rightarrow> one2one_payload \<Rightarrow> bytes \<Rightarrow> bytes \<Rightarrow> bool" where
  "suite_payload P a = wf_payload (pr_kem_ct_bytes P a) 16"

text \<open>A sender and a receiver at the same point of a chain, for the witnesses.\<close>

definition demo_sender :: ratchet where
  "demo_sender = \<lparr>rt_root_key = buf (replicate 32 1), rt_root_sequence = 0, rt_sending_message_sequence = 0,
     rt_received_message_sequence = 0, rt_sender_chain = Some (sender_of [7] [9] 0 (replicate 32 3)),
     rt_receiver_chain = Some (first_receiver [5]), rt_n_skipped_msg_key_list = 0, rt_skipped_msg_key_list = None\<rparr>"

definition demo_receiver :: ratchet where
  "demo_receiver = \<lparr>rt_root_key = buf (replicate 32 2), rt_root_sequence = 1, rt_sending_message_sequence = 0,
     rt_received_message_sequence = 0, rt_sender_chain = Some (sender_of [5] [8] 0 (replicate 32 4)),
     rt_receiver_chain = Some (receiver_of [9] [7] 0 (replicate 32 3)), rt_n_skipped_msg_key_list = 0,
     rt_skipped_msg_key_list = None\<rparr>"

lemma demo_ratchets:
  "suite_ratchet demo_prims KEM_MLKEM1024 demo_sender []" "suite_ratchet demo_prims KEM_MLKEM1024 demo_receiver []"
  by (simp_all add: suite_ratchet_def wf_ratchet_def demo_sender_def demo_receiver_def demo_prims_def holds_skipped_def
      wf_entries_def exI [of _ "[5]"])

lemmas demo_hyps = demo_prims_ok demo_pack

subsection \<open>Exactly-once delivery in any order\<close>

lemma any_order:
  assumes P: "prims_ok P" and raw: "is_valid_e2ees_pack_id P raw" and a: "pack_kem raw = Some a"
    and S: "suite_ratchet P a S old" and R: "suite_ratchet P a R ns"
    and sender: "rt_sender_chain S = Some (sender_of pk rk i k)"
    and receiver: "rt_receiver_chain R = Some (receiver_of rk sk i k)"
    and root: "rt_root_sequence R = rt_root_sequence S + 1" "rt_root_sequence R \<noteq> 0"
    and fresh: "\<forall>(rk', i, k)\<in>set ns. rk' \<noteq> rk"
    and ms: "\<forall>m\<in>set ms. length m \<le> GCM_LIMIT" "unat i + length ms < 2 ^ 32" "length ns + length ms \<le> 1024"
    and js: "\<forall>j\<in>set js. j < length ms" and ad: "ad \<noteq> []"
  shows "\<exists>ps S' R'. encrypt_all (suite_of P raw) S (buf ad) ms = Some (ps, S') \<and> length ps = length ms \<and>
    deliver_all (\<lambda>_. True) (suite_of P raw) R (buf ad) (map ((!) ps) js) s = Some (channel ms {} js, R')"
proof -
  note suite = suite_of_laws [OF P raw a]
  let ?ps = "map (e2ee_suite.payload_at 32 48 (std_mac P) (std_kdf P) (std_seal P) (rt_root_sequence S)
      (rt_sending_message_sequence S) rk i k ad ms) [0..<length ms]"
  obtain S' where enc: "encrypt_all (suite_of P raw) S (buf ad) ms = Some (?ps, S')"
    using e2ee_suite.encrypt_all_ok [OF suite S [unfolded suite_ratchet_def] sender ms(1)] by blast
  have "e2ee_suite.has_delivered 32 48 (pr_kem_ct_bytes P a) (pr_kem_pk_bytes P a) (pr_kem_sk_bytes P a) (std_mac P)
      (std_kdf P) R (rt_root_sequence S) rk sk i k ns (length ms) {}"
    using R receiver root
    by (simp add: e2ee_suite.has_delivered_def [OF suite] e2ee_suite.at_position_def [OF suite] suite_ratchet_def
        exI [of _ 0])
  from e2ee_suite.deliver_refines [OF suite this js ms(2,3) ad ms(1) fresh]
  obtain R' where del: "deliver_all (\<lambda>_. True) (suite_of P raw) R (buf ad)
      (map (e2ee_suite.payload_at 32 48 (std_mac P) (std_kdf P) (std_seal P) (rt_root_sequence S)
        (rt_sending_message_sequence S) rk i k ad ms) js) s = Some (channel ms {} js, R')" by blast
  have "map ((!) ?ps) js = map (e2ee_suite.payload_at 32 48 (std_mac P) (std_kdf P) (std_seal P)
      (rt_root_sequence S) (rt_sending_message_sequence S) rk i k ad ms) js"
    using js by (intro map_cong) auto
  with del have "deliver_all (\<lambda>_. True) (suite_of P raw) R (buf ad) (map ((!) ?ps) js) s = Some (channel ms {} js, R')"
    by (simp only:)
  moreover have "length ?ps = length ms" by simp
  ultimately show ?thesis using enc by blast
qed

text \<open>
  C6: a sender encrypts the messages \<open>ms\<close> with \<open>encrypt_ratchet\<close>; the receiver, at the same
  point of the same chain, is handed their payloads in any order, with repetitions and losses (the
  index list \<open>js\<close>).  Each message is decrypted to its plaintext the first time its payload
  arrives, and every further copy is refused: \<open>decrypt_ratchet\<close> refines the abstract channel,
  as long as the stored keys stay within the limit of 1024.
\<close>

theorem exactly_once_delivery:
  assumes P: "prims_ok P" and raw: "is_valid_e2ees_pack_id P raw" and a: "pack_kem raw = Some a"
    and S: "suite_ratchet P a S old" and R: "suite_ratchet P a R ns"
    and sender: "rt_sender_chain S = Some (sender_of pk rk i k)"
    and receiver: "rt_receiver_chain R = Some (receiver_of rk sk i k)"
    and root: "rt_root_sequence R = rt_root_sequence S + 1" "rt_root_sequence R \<noteq> 0"
    and fresh: "\<forall>(rk', i, k)\<in>set ns. rk' \<noteq> rk"
    and ms: "\<forall>m\<in>set ms. length m \<le> GCM_LIMIT" "unat i + length ms < 2 ^ 32" "length ns + length ms \<le> 1024"
    and js: "\<forall>j\<in>set js. j < length ms" and ad: "ad \<noteq> []"
  shows "\<exists>ps S' R'. encrypt_all (suite_of P raw) S (buf ad) ms = Some (ps, S') \<and> length ps = length ms \<and>
    deliver_all (\<lambda>_. True) (suite_of P raw) R (buf ad) (map ((!) ps) js) s = Some (channel ms {} js, R')"
  by (rule any_order [OF assms])

theorem exactly_once_delivery_witness:
  "\<exists>ps S' R'. encrypt_all (suite_of demo_prims 0x113101) demo_sender (buf [1]) [[10], [20], [30]] = Some (ps, S') \<and>
    length ps = length [[10], [20 :: byte], [30]] \<and>
    deliver_all (\<lambda>_. True) (suite_of demo_prims 0x113101) demo_receiver (buf [1]) (map ((!) ps) [2, 0, 2, 1]) 0 =
      Some ([(0, buf [30]), (0, buf [10]), (- 1, empty_bdata), (0, buf [20])], R')"
  using exactly_once_delivery [OF demo_hyps demo_ratchets, of "[7]" "[9]" 0 "replicate 32 3" "[7]"
      "[[10], [20], [30]]" "[2, 0, 2, 1]" "[1]" 0]
  by (simp add: demo_sender_def demo_receiver_def plain_out_def)

subsection \<open>From the initialisation to a conversation\<close>

text \<open>Key pairs the library's own key generation returns are pairs of the KEM.\<close>

lemma key_gen_pair:
  assumes raw: "is_valid_e2ees_pack_id P raw" and a: "pack_kem raw = Some a"
    and gen: "call_asym_key_gen (suite_of P raw) t = Some (ret, buf pk, buf sk, t')"
  shows "std_pair P a sk pk"
proof -
  obtain d where "suite_of P raw = \<lparr>cs_ds_suite = Some (ds_suite_object P d), cs_kem_suite = Some (E2EES_KEM_PQC P a),
       cs_se_suite = Some (E2EES_SE_AES256_SHA256 P), cs_hf_suite = Some (E2EES_HF_SHA256 P)\<rparr>"
    using suite_of_valid [OF raw] a by auto
  then have "crypto_kem_asym_key_gen_pqc P a t = Some (ret, buf pk, buf sk, t')"
    using gen by (simp add: call_asym_key_gen_def E2EES_KEM_PQC_def)
  then show ?thesis
    by (auto simp: crypto_kem_asym_key_gen_pqc_def std_pair_def fill_def split: prod.splits if_splits)
qed

lemma demo_key_gen:
  "call_asym_key_gen (suite_of demo_prims 0x113101) n = Some (0, buf [of_nat n], buf [of_nat n], n + 1)"
proof -
  obtain d where "suite_of demo_prims 0x113101 = \<lparr>cs_ds_suite = Some (ds_suite_object demo_prims d),
      cs_kem_suite = Some (E2EES_KEM_PQC demo_prims KEM_MLKEM1024),
      cs_se_suite = Some (E2EES_SE_AES256_SHA256 demo_prims), cs_hf_suite = Some (E2EES_HF_SHA256 demo_prims)\<rparr>"
    using suite_of_valid [OF demo_pack(1) [of demo_prims]] demo_pack(2) by (metis option.inject)
  then show ?thesis
    by (simp add: call_asym_key_gen_def E2EES_KEM_PQC_def crypto_kem_asym_key_gen_pqc_def demo_prims_def)
qed

text \<open>What the two initialisations return for generated key pairs.\<close>

lemma both_sides:
  assumes P: "prims_ok P" and raw: "is_valid_e2ees_pack_id P raw" and a: "pack_kem raw = Some a"
    and pair: "std_pair P a ska pka" "std_pair P a skb pkb" and secret: "secret \<noteq> []"
    and enc: "std_enc P a s pka = (ssb, ctb, s1)" "std_enc P a u pkb = (ssa, cta, s2)"
  shows "initialise_as_bob (Some (suite_of P raw)) (Some secret) (Some (key_pair_of skb pkb)) (Some (buf pka)) s =
      Some (0, Some (e2ee_suite.bob_ratchet 32 (std_kdf P) secret skb pka ctb), s1)"
    and "initialise_as_alice (Some (suite_of P raw)) (Some secret) (Some (key_pair_of ska pka)) (Some (buf pkb))
        (Some (buf ctb)) u = Some (0, Some (e2ee_suite.alice_ratchet 32 (std_kdf P) secret ska pkb ctb cta ssa), s2)"
    and "suite_ratchet P a (e2ee_suite.bob_ratchet 32 (std_kdf P) secret skb pka ctb) []"
    and "suite_ratchet P a (e2ee_suite.alice_ratchet 32 (std_kdf P) secret ska pkb ctb cta ssa) []"
proof -
  note suite = suite_of_laws [OF P raw a]
  note len = e2ee_suite.pair_length [OF suite pair(1)] e2ee_suite.pair_length [OF suite pair(2)]
  have ne: "pka \<noteq> []" "pkb \<noteq> []" using len e2ee_suite.nonempty(5) [OF suite] by blast+
  have ct: "length ctb = pr_kem_ct_bytes P a" "length cta = pr_kem_ct_bytes P a"
    using e2ee_suite.enc_call [OF suite _ enc(1)] e2ee_suite.enc_call [OF suite _ enc(2)] len by simp_all
  show "initialise_as_bob (Some (suite_of P raw)) (Some secret) (Some (key_pair_of skb pkb)) (Some (buf pka)) s =
      Some (0, Some (e2ee_suite.bob_ratchet 32 (std_kdf P) secret skb pka ctb), s1)"
    using len by (intro e2ee_suite.bob_ok [OF suite secret _ ne(2) _ enc(1)]) simp_all
  show "initialise_as_alice (Some (suite_of P raw)) (Some secret) (Some (key_pair_of ska pka)) (Some (buf pkb))
        (Some (buf ctb)) u = Some (0, Some (e2ee_suite.alice_ratchet 32 (std_kdf P) secret ska pkb ctb cta ssa), s2)"
    using len ct by (intro e2ee_suite.alice_ok [OF suite secret _ ne(1) _ _ enc(2)]) simp_all
  show "suite_ratchet P a (e2ee_suite.bob_ratchet 32 (std_kdf P) secret skb pka ctb) []"
    unfolding suite_ratchet_def using len ct by (intro e2ee_suite.bob_wf [OF suite]) simp_all
  show "suite_ratchet P a (e2ee_suite.alice_ratchet 32 (std_kdf P) secret ska pkb ctb cta ssa) []"
    unfolding suite_ratchet_def using len ct by (intro e2ee_suite.alice_wf [OF suite]) simp_all
qed

lemma talk_after_init:
  assumes P: "prims_ok P" and raw: "is_valid_e2ees_pack_id P raw" and a: "pack_kem raw = Some a"
    and pair: "std_pair P a ska pka" "std_pair P a skb pkb" and secret: "secret \<noteq> []"
    and enc: "std_enc P a s pka = (ssb, ctb, s1)" "std_enc P a u pkb = (ssa, cta, s2)"
    and ad: "ad \<noteq> []" and mem: "mem_ok GrowCurrent"
    and ms: "\<forall>m\<in>set ms. length m \<le> GCM_LIMIT" "length ms + 1 < 2 ^ 32"
  shows "talk mem_ok (suite_of P raw) (buf ad) (e2ee_suite.alice_ratchet 32 (std_kdf P) secret ska pkb ctb cta ssa)
    (e2ee_suite.bob_ratchet 32 (std_kdf P) secret skb pka ctb) ms v = Some (map (\<lambda>m. (0, plain_out m)) ms)"
proof -
  note suite = suite_of_laws [OF P raw a]
  note init = both_sides [OF P raw a pair secret enc]
  show ?thesis
    by (rule e2ee_suite.talk_ok [where mem_ok = mem_ok, OF suite
          e2ee_suite.init_ahead(1) [OF suite pair enc(2), where secret = secret and ctb = ctb]
          e2ee_suite.init_ahead(2) [OF suite pair enc(2), where secret = secret and ctb = ctb]
          init(4,3) [unfolded suite_ratchet_def] ms(1) ad mem])
      (use ms(2) in \<open>simp_all add: e2ee_suite.init_fields [OF suite]\<close>)
qed

text \<open>
  C7: two sides that agree on a shared secret and hold each other's public keys, generated by the
  suite, are initialised with \<open>initialise_as_bob\<close> and \<open>initialise_as_alice\<close> (Alice is given the
  ratchet key in Bob's sender chain).  Then they take turns: each message is encrypted by
  \<open>encrypt_ratchet\<close> on one side and decrypted by \<open>decrypt_ratchet\<close> on the other, every one of
  them on a new chain.  All of them are decrypted to the plaintext that was sent, however long the
  conversation is, up to the wrap-around of the 32-bit counters.
\<close>

theorem conversation_correct:
  assumes P: "prims_ok P" and raw: "is_valid_e2ees_pack_id P raw" and a: "pack_kem raw = Some a"
    and genA: "call_asym_key_gen (suite_of P raw) ta = Some (ra, buf pka, buf ska, ta')"
    and genB: "call_asym_key_gen (suite_of P raw) tb = Some (rb, buf pkb, buf skb, tb')"
    and secret: "secret \<noteq> []" and ad: "ad \<noteq> []" and mem: "mem_ok GrowCurrent"
    and ms: "\<forall>m\<in>set ms. length m \<le> GCM_LIMIT" "length ms + 1 < 2 ^ 32"
  shows "\<exists>A B ct s1 s2.
    initialise_as_bob (Some (suite_of P raw)) (Some secret) (Some (key_pair_of skb pkb)) (Some (buf pka)) s =
      Some (0, Some B, s1) \<and>
    map_option sc_our_ratchet_public_key (rt_sender_chain B) = Some ct \<and>
    initialise_as_alice (Some (suite_of P raw)) (Some secret) (Some (key_pair_of ska pka)) (Some (buf pkb))
      (Some ct) s1 = Some (0, Some A, s2) \<and>
    talk mem_ok (suite_of P raw) (buf ad) A B ms s2 = Some (map (\<lambda>m. (0, plain_out m)) ms)"
proof -
  note suite = suite_of_laws [OF P raw a]
  note pair = key_gen_pair [OF raw a genA] key_gen_pair [OF raw a genB]
  obtain ssb ctb s1 where encB: "std_enc P a s pka = (ssb, ctb, s1)" by (metis prod_cases3)
  obtain ssa cta s2 where encA: "std_enc P a s1 pkb = (ssa, cta, s2)" by (metis prod_cases3)
  let ?B = "e2ee_suite.bob_ratchet 32 (std_kdf P) secret skb pka ctb"
  let ?A = "e2ee_suite.alice_ratchet 32 (std_kdf P) secret ska pkb ctb cta ssa"
  note init = both_sides [OF P raw a pair secret encB encA]
  note fields = e2ee_suite.init_fields [OF suite]
  have "talk mem_ok (suite_of P raw) (buf ad) ?A ?B ms s2 = Some (map (\<lambda>m. (0, plain_out m)) ms)"
    by (rule talk_after_init [where mem_ok = mem_ok, OF P raw a pair secret encB encA ad mem ms])
  moreover have "map_option sc_our_ratchet_public_key (rt_sender_chain ?B) = Some (buf ctb)" by (simp add: fields)
  ultimately show ?thesis using init(1,2) by blast
qed

theorem conversation_correct_witness:
  "\<exists>A B ct s1 s2.
    initialise_as_bob (Some (suite_of demo_prims 0x113101)) (Some [1]) (Some (key_pair_of [6] [6])) (Some (buf [5])) 0 =
      Some (0, Some B, s1) \<and>
    map_option sc_our_ratchet_public_key (rt_sender_chain B) = Some ct \<and>
    initialise_as_alice (Some (suite_of demo_prims 0x113101)) (Some [1]) (Some (key_pair_of [5] [5])) (Some (buf [6]))
      (Some ct) s1 = Some (0, Some A, s2) \<and>
    talk (\<lambda>_. True) (suite_of demo_prims 0x113101) (buf [1]) A B [[10], [20], []] s2 =
      Some [(0, buf [10]), (0, buf [20]), (0, empty_bdata)]"
proof -
  have gen: "call_asym_key_gen (suite_of demo_prims 0x113101) n = Some (0, buf [of_nat n], buf [of_nat n], n + 1)" for n
    by (rule demo_key_gen)
  show ?thesis
    using conversation_correct [OF demo_hyps gen [of 5] gen [of 6], of "[1]" "[1]" "\<lambda>_. True" "[[10], [20], []]" 0]
    by (simp add: plain_out_def)
qed

text \<open>
  After the same initialisation, the messages of Bob's first chain, which he may send before he
  has received anything, reach Alice exactly once each, in any order.
\<close>

lemma bob_first_chain:
  assumes P: "prims_ok P" and raw: "is_valid_e2ees_pack_id P raw" and a: "pack_kem raw = Some a"
    and genA: "call_asym_key_gen (suite_of P raw) ta = Some (ra, buf pka, buf ska, ta')"
    and genB: "call_asym_key_gen (suite_of P raw) tb = Some (rb, buf pkb, buf skb, tb')"
    and secret: "secret \<noteq> []" and ad: "ad \<noteq> []"
    and ms: "\<forall>m\<in>set ms. length m \<le> GCM_LIMIT" "length ms \<le> 1024" and js: "\<forall>j\<in>set js. j < length ms"
    and bob: "initialise_as_bob (Some (suite_of P raw)) (Some secret) (Some (key_pair_of skb pkb)) (Some (buf pka)) s =
      Some (0, Some B, s1)" "map_option sc_our_ratchet_public_key (rt_sender_chain B) = Some ct"
    and alice: "initialise_as_alice (Some (suite_of P raw)) (Some secret) (Some (key_pair_of ska pka)) (Some (buf pkb))
      (Some ct) s1 = Some (0, Some A, s2)"
  shows "\<exists>ps B' A'. encrypt_all (suite_of P raw) B (buf ad) ms = Some (ps, B') \<and>
    deliver_all (\<lambda>_. True) (suite_of P raw) A (buf ad) (map ((!) ps) js) s2 = Some (channel ms {} js, A')"
proof -
  note suite = suite_of_laws [OF P raw a]
  note pair = key_gen_pair [OF raw a genA] key_gen_pair [OF raw a genB]
  obtain ssb ctb s1' where encB: "std_enc P a s pka = (ssb, ctb, s1')" by (metis prod_cases3)
  obtain ssa cta s2' where encA: "std_enc P a s1' pkb = (ssa, cta, s2')" by (metis prod_cases3)
  note init = both_sides [OF P raw a pair secret encB encA]
  note fields = e2ee_suite.init_fields [OF suite]
  have B: "B = e2ee_suite.bob_ratchet 32 (std_kdf P) secret skb pka ctb" "s1 = s1'" using bob(1) init(1) by simp_all
  then have ct: "ct = buf ctb" using bob(2) by (simp add: fields)
  then have A: "A = e2ee_suite.alice_ratchet 32 (std_kdf P) secret ska pkb ctb cta ssa" "s2 = s2'"
    using alice init(2) B(2) by simp_all
  have "\<exists>ps S' R'. encrypt_all (suite_of P raw) B (buf ad) ms = Some (ps, S') \<and> length ps = length ms \<and>
      deliver_all (\<lambda>_. True) (suite_of P raw) A (buf ad) (map ((!) ps) js) s2 = Some (channel ms {} js, R')"
    by (rule any_order [where i = 0, OF P raw a init(3,4) [folded A B]]) (use ms js ad in \<open>simp_all add: A B fields\<close>)
  then show ?thesis by blast
qed

lemma bob_first_chain_witness:
  "\<exists>B A ps B' A' s1 s2.
    initialise_as_bob (Some (suite_of demo_prims 0x113101)) (Some [1]) (Some (key_pair_of [6] [6])) (Some (buf [5])) 0 =
      Some (0, Some B, s1) \<and>
    encrypt_all (suite_of demo_prims 0x113101) B (buf [1]) [[10], [20]] = Some (ps, B') \<and>
    deliver_all (\<lambda>_. True) (suite_of demo_prims 0x113101) A (buf [1]) (map ((!) ps) [1, 1, 0]) s2 =
      Some ([(0, buf [20]), (- 1, empty_bdata), (0, buf [10])], A')"
proof -
  have pair: "std_pair demo_prims KEM_MLKEM1024 [n] [n]" for n
    unfolding std_pair_def by (intro exI [of _ "unat n"]) (simp add: demo_prims_def)
  obtain ssb ctb s1 where encB: "std_enc demo_prims KEM_MLKEM1024 0 [5] = (ssb, ctb, s1)" by (metis prod_cases3)
  obtain ssa cta s2 where encA: "std_enc demo_prims KEM_MLKEM1024 s1 [6] = (ssa, cta, s2)" by (metis prod_cases3)
  note init = both_sides [OF demo_hyps pair pair _ encB encA, of "[1]"]
  note gen = demo_key_gen [of 5] demo_key_gen [of 6]
  let ?B = "e2ee_suite.bob_ratchet 32 (std_kdf demo_prims) [1] [6] [5] ctb"
  have ct: "map_option sc_our_ratchet_public_key (rt_sender_chain ?B) = Some (buf ctb)"
    by (simp add: e2ee_suite.init_fields [OF suite_of_laws [OF demo_hyps]])
  show ?thesis
    using bob_first_chain [OF demo_hyps gen, of "[1]" "[1]" "[[10], [20]]" "[1, 1, 0]" 0 ?B s1 "buf ctb"] init(1,2) ct
    by (auto simp: plain_out_def)
qed

subsection \<open>No undefined behaviour\<close>

text \<open>
  C8: \<open>decrypt_ratchet\<close> on a well-formed ratchet and any payload whose ratchet key has the suite's
  length and whose ciphertext is at least as long as the authentication tag: it returns without
  undefined behaviour, whether its allocations succeed or fail, with a plaintext only when it
  reports success; the ratchet is well formed again, is accepted by \<open>is_valid_ratchet\<close> and holds at
  most 1024 skipped keys.  Excluded are the wrap-around of the root sequence and a first message
  that announces missing messages to a side without a receiver chain.
\<close>

theorem decrypt_ratchet_safe:
  assumes P: "prims_ok P" and raw: "is_valid_e2ees_pack_id P raw" and a: "pack_kem raw = Some a"
    and r: "suite_ratchet P a r ns" and p: "suite_payload P a p rk ct" and ad: "ad \<noteq> []"
    and root: "unat (rt_root_sequence r) + 2 < 2 ^ 32"
    and sane: "rt_root_sequence r = 0 \<Longrightarrow>
      unat (pl_sending_message_sequence p) \<le> unat (rt_received_message_sequence r + (pl_sequence p + 1))"
  shows "\<exists>ret out r' s' ns'. decrypt_ratchet mem_ok (Some (suite_of P raw)) (Some r) (buf ad) (Some p) s =
      Some (ret, out, r', s') \<and> (ret = 0 \<or> ret = - 1 \<and> out = empty_bdata) \<and>
    suite_ratchet P a r' ns' \<and> is_valid_ratchet (Some r') = Some True \<and> rt_n_skipped_msg_key_list r' \<le> 1024"
proof -
  note suite = suite_of_laws [OF P raw a]
  have "e2ee_suite.safe_outcome 32 48 (pr_kem_ct_bytes P a) (pr_kem_pk_bytes P a) (pr_kem_sk_bytes P a)
      (decrypt_ratchet mem_ok (Some (suite_of P raw)) (Some r) (buf ad) (Some p) s)"
    by (rule e2ee_suite.decrypt_safe [OF suite r [unfolded suite_ratchet_def] p [unfolded suite_payload_def] ad root])
      (use sane in simp)
  then obtain ret out r' s' ns' where
    run: "decrypt_ratchet mem_ok (Some (suite_of P raw)) (Some r) (buf ad) (Some p) s = Some (ret, out, r', s')"
      "ret = 0 \<or> ret = - 1 \<and> out = empty_bdata" and wf: "suite_ratchet P a r' ns'"
    unfolding e2ee_suite.safe_outcome_def [OF suite] suite_ratchet_def by blast
  have "is_valid_ratchet (Some r') = Some True"
    by (rule e2ee_suite.wf_valid [OF suite wf [unfolded suite_ratchet_def]])
  moreover have "rt_n_skipped_msg_key_list r' \<le> 1024"
    using wf by (simp add: suite_ratchet_def wf_ratchet_def holds_skipped_def)
  ultimately show ?thesis using run wf by blast
qed

definition demo_forgery :: one2one_payload where
  "demo_forgery = \<lparr>pl_sequence = 3, pl_ratchet_key = buf [9], pl_root_sequence = 0, pl_sending_message_sequence = 4,
     pl_ciphertext = buf (replicate 16 0)\<rparr>"

lemma demo_forgery_wf: "suite_payload demo_prims KEM_MLKEM1024 demo_forgery [9] (replicate 16 0)"
  by (simp add: suite_payload_def wf_payload_def demo_forgery_def demo_prims_def)

theorem decrypt_ratchet_safe_witness:
  "\<exists>ret out r' s' ns'. decrypt_ratchet (\<lambda>_. False) (Some (suite_of demo_prims 0x113101)) (Some demo_receiver) (buf [1])
      (Some demo_forgery) 0 = Some (ret, out, r', s') \<and> (ret = 0 \<or> ret = - 1 \<and> out = empty_bdata) \<and>
    suite_ratchet demo_prims KEM_MLKEM1024 r' ns' \<and> is_valid_ratchet (Some r') = Some True \<and>
    rt_n_skipped_msg_key_list r' \<le> 1024"
  by (rule decrypt_ratchet_safe [OF demo_hyps demo_ratchets(2) demo_forgery_wf]) (simp_all add: demo_receiver_def)

subsection \<open>Messages that do not authenticate\<close>

text \<open>
  The message keys a ratchet has for a message with the ratchet key \<open>rk\<close>: on the current chain the key of
  the message's number; for a number that the chain has passed, and for older chains, the stored keys \<open>ns\<close>
  of this ratchet key and number; on the next chain the key of the message's number there, where \<open>new\<close> is the first chain
  key made from the root key and the own private key; none for any other root sequence or ratchet key.
\<close>

definition tried_keys :: "(bytes \<Rightarrow> bytes \<Rightarrow> bytes) \<Rightarrow> (bytes \<Rightarrow> bytes) \<Rightarrow> (bytes \<Rightarrow> bytes \<Rightarrow> bytes) \<Rightarrow> ratchet \<Rightarrow>
    (bytes \<times> u32 \<times> bytes) list \<Rightarrow> one2one_payload \<Rightarrow> bytes \<Rightarrow> bytes list" where
  "tried_keys mac mkey new r ns p rk =
     (let coming = pl_root_sequence p; our = rt_root_sequence r;
          content = (\<lambda>b. case pb_data b of None \<Rightarrow> [] | Some x \<Rightarrow> x);
          stored = [k. (rk', i, k) \<leftarrow> ns, rk' = rk \<and> i = pl_sequence p]
      in case rt_receiver_chain r of None \<Rightarrow> []
         | Some chain \<Rightarrow>
             if coming < our \<and> coming \<noteq> our - 1 then stored
             else if coming < our then
               (if rc_their_ratchet_public_key chain \<noteq> buf rk then []
                else case rc_chain_key chain of None \<Rightarrow> []
                     | Some c \<Rightarrow> if pl_sequence p < ck_index c then stored
                         else [mkey (chain_at mac (content (ck_shared_key c)) (unat (pl_sequence p) - unat (ck_index c)))])
             else if coming = our + 1 then
               [mkey (chain_at mac (new (content (rt_root_key r)) (content (rc_our_ratchet_private_key chain))) (unat (pl_sequence p)))]
             else [])"

definition message_keys :: "prims \<Rightarrow> kem_alg \<Rightarrow> ratchet \<Rightarrow> (bytes \<times> u32 \<times> bytes) list \<Rightarrow> one2one_payload \<Rightarrow> bytes \<Rightarrow> bytes list" where
  "message_keys P a r ns p rk =
     tried_keys (std_mac P) (message_key (std_kdf P) 32 48)
       (\<lambda>root sk. drop 32 (std_kdf P (std_dec P a sk rk) root KDF_INFO_RATCHET 64)) r ns p rk"

context e2ee_suite
begin

abbreviation (input) "suite_keys r ns p rk \<equiv> tried_keys mac mkey (\<lambda>root sk. drop hf_len (step_secrets (dec sk rk) root)) r ns p rk"

lemma stored_misses:
  assumes "\<forall>k\<in>set [k. (rk', i, k) \<leftarrow> ns, rk' = rk \<and> i = pl_sequence p]. aead_open k ad ct = None"
  shows "\<forall>e\<in>set ns. hit p rk ad ct e = None"
proof
  fix e assume e: "e \<in> set ns"
  obtain rk' i k where split: "e = (rk', i, k)" by (rule prod_cases3)
  then have "k \<in> set [k. (rk', i, k) \<leftarrow> ns, rk' = rk \<and> i = pl_sequence p]" if "rk' = rk" "i = pl_sequence p"
    using e that by (force intro!: bexI [of _ e])
  then show "hit p rk ad ct e = None" using assms by (auto simp: opens_def split)
qed

text \<open>The trial decryption fails when no key of the ratchet opens the message.\<close>

lemma untried_refused:
  assumes wf: "wf_r r ns" and p: "wf_p p rk ct" and ad: "ad \<noteq> []"
    and forged: "\<forall>k\<in>set (suite_keys r ns p rk). aead_open k ad ct = None"
  shows "decrypt_ratchet mem_ok csp (Some r) (buf ad) (Some p) s = Some (- 1, empty_bdata, bump p r, s)"
proof (cases "pl_root_sequence p < rt_root_sequence r")
  case behind: True
  then have root: "rt_root_sequence r \<noteq> 0" by auto
  obtain rk0 sk i k where chain: "rt_receiver_chain r = Some (receiver_of rk0 sk i k)" "length rk0 = rk_len" "length k = hf_len"
    by (rule wf_receiver [OF wf root])
  have key: "pl_ratchet_key p = buf rk" using p by (simp add: wf_payload_def)
  show ?thesis
  proof (cases "pl_root_sequence p = rt_root_sequence r - 1")
    case True
    note way = classify_current [OF root True chain(1) key]
    consider "rk0 \<noteq> rk" | (passed) "rk0 = rk" "i > pl_sequence p" | (current) "rk0 = rk" "i \<le> pl_sequence p" using not_le by blast
    then show ?thesis
    proof cases
      case passed
      then have "\<forall>e\<in>set ns. hit p rk ad ct e = None"
        using forged chain behind True by (intro stored_misses) (simp add: tried_keys_def)
      from trial_skipped_none [OF wf p ad this] passed way show ?thesis by (intro decrypt_refused [OF wf p ad]) auto
    next
      case current
      then have "aead_open (mkey (chain_at mac k (unat (pl_sequence p) - unat i))) ad ct = None"
        using forged chain behind True by (simp add: tried_keys_def leD)
      with current way trial_current [OF chain(1) [unfolded current(1)] chain(3) _ p ad current(2)] chain(2)
      show ?thesis by (intro decrypt_refused [OF wf p ad]) (auto simp: open_result_def)
    qed (use way in \<open>auto intro!: decrypt_refused [OF wf p ad]\<close>)
  next
    case False
    then have "\<forall>e\<in>set ns. hit p rk ad ct e = None"
      using forged chain behind by (intro stored_misses) (simp add: tried_keys_def)
    from trial_skipped_none [OF wf p ad this] classify_old [OF behind False]
    show ?thesis by (intro decrypt_refused [OF wf p ad]) auto
  qed
next
  case ahead: False
  show ?thesis
  proof (cases "pl_root_sequence p = rt_root_sequence r + 1 \<and> pl_root_sequence p \<noteq> rt_root_sequence r")
    case True
    then have coming: "pl_root_sequence p = rt_root_sequence r + 1" "rt_root_sequence r + 1 \<noteq> 0"
      using ahead by (auto, metis word_neq_0_conv)
    obtain rt pk rk' i k chain sk where core: "rt_root_key r = buf rt" "length rt = hf_len"
        "rt_sender_chain r = Some (sender_of pk rk' i k)" "length pk = pk_len"
        "rt_receiver_chain r = Some chain" "rc_our_ratchet_private_key chain = buf sk" "length sk = sk_len"
      using wf wf_coreE unfolding wf_r_iff by metis
    have "aead_open (mkey (chain_at mac (drop hf_len (step_secrets (dec sk rk) rt)) (unat (pl_sequence p)))) ad ct = None"
      using forged core(1,5,6) ahead coming(1) by (simp add: tried_keys_def)
    with trial_new [OF wf p ad coming core(1,2,5-7)] classify_new [OF coming]
    show ?thesis by (intro decrypt_refused [OF wf p ad]) (auto simp: open_result_def)
  next
    case False
    with classify_rest [OF ahead] show ?thesis by (intro decrypt_refused [OF wf p ad]) auto
  qed
qed

end

lemma forged_refused:
  assumes P: "prims_ok P" and raw: "is_valid_e2ees_pack_id P raw" and a: "pack_kem raw = Some a"
    and r: "suite_ratchet P a r ns" and p: "suite_payload P a p rk ct" and ad: "ad \<noteq> []"
    and forged: "\<forall>k\<in>set (message_keys P a r ns p rk). std_open P k ad ct = None"
  shows "decrypt_ratchet mem_ok (Some (suite_of P raw)) (Some r) (buf ad) (Some p) s =
    Some (- 1, empty_bdata,
      r\<lparr>rt_received_message_sequence := max (rt_received_message_sequence r) (pl_sending_message_sequence p)\<rparr>, s)"
  using e2ee_suite.untried_refused [OF suite_of_laws [OF P raw a] r [unfolded suite_ratchet_def] p [unfolded suite_payload_def] ad]
    forged by (simp add: message_keys_def bump_eq)

text \<open>
  C9: a message, on whichever chain, that opens under none of the message keys the ratchet has for it
  is refused without a plaintext, and the chains, the root key and the skipped keys are as before; only
  the receive counter is raised to the counter of the refused message.  The ratchet key of the message
  has the suite's length and its ciphertext is at least as long as the authentication tag.
\<close>

theorem forged_message_refused:
  assumes P: "prims_ok P" and raw: "is_valid_e2ees_pack_id P raw" and a: "pack_kem raw = Some a"
    and r: "suite_ratchet P a r ns" and p: "suite_payload P a p rk ct" and ad: "ad \<noteq> []"
    and forged: "\<forall>k\<in>set (message_keys P a r ns p rk). std_open P k ad ct = None"
  shows "decrypt_ratchet mem_ok (Some (suite_of P raw)) (Some r) (buf ad) (Some p) s =
    Some (- 1, empty_bdata,
      r\<lparr>rt_received_message_sequence := max (rt_received_message_sequence r) (pl_sending_message_sequence p)\<rparr>, s)"
  by (rule forged_refused [OF assms])

lemma demo_forged:
  "\<forall>k\<in>set (message_keys demo_prims KEM_MLKEM1024 demo_receiver [] demo_forgery [9]).
     std_open demo_prims k [1] (replicate 16 0) = None"
  by (simp add: message_keys_def tried_keys_def demo_receiver_def demo_forgery_def
      std_open_def message_key_def std_kdf_def std_mac_def demo_prims_def chain_at_def
      CHAIN_KEY_SEED_def MESSAGE_KEY_SEED_def) (simp add: numeral_3_eq_3)

theorem forged_message_refused_witness:
  "decrypt_ratchet (\<lambda>_. True) (Some (suite_of demo_prims 0x113101)) (Some demo_receiver) (buf [1]) (Some demo_forgery) 0 =
    Some (- 1, empty_bdata, demo_receiver\<lparr>rt_received_message_sequence := 4\<rparr>, 0)"
  using forged_message_refused [OF demo_hyps demo_ratchets(2) demo_forgery_wf _ demo_forged, of "\<lambda>_. True" 0]
  by (simp add: demo_receiver_def demo_forgery_def)

subsection \<open>A tampered counter in the first message\<close>

context e2ee_suite
begin

lemma invalid_ratchet_refuses:
  assumes "is_valid_ratchet (Some r) = Some False" and "rt_n_skipped_msg_key_list r \<le> 1024"
  shows "decrypt_ratchet mem_ok csp (Some r) ad (Some p) s = Some (- 1, empty_bdata, bump p r, s)"
  using assms by (simp add: decrypt_ratchet_def decrypt_checks_def bump_def prune_bloated_skipped_keys_def)

lemma tampered_counter:
  assumes pair: "pair ska pka" "pair skb pkb" and enc: "enc s pka = (ssb, ctb, s1)" "enc s1 pkb = (ssa, cta, s2)"
    and msg: "length msg \<le> GCM_LIMIT" and ad: "ad \<noteq> []" and c: "1 < c" "c \<le> 1025" and mem: "mem_ok GrowPrevious"
  shows "\<exists>p A' B'.
    encrypt_ratchet csp (Some (alice_ratchet secret ska pkb ctb cta ssa)) (buf ad) (Some msg) = Some (0, Some p, Some A') \<and>
    decrypt_ratchet mem_ok csp (Some (bob_ratchet secret skb pka ctb)) (buf ad)
        (Some (p\<lparr>pl_sending_message_sequence := c\<rparr>)) t = Some (- 1, empty_bdata, B', t) \<and>
    is_valid_ratchet (Some B') = Some False \<and> rt_n_skipped_msg_key_list B' \<le> 1024"
proof -
  let ?A = "alice_ratchet secret ska pkb ctb cta ssa"
  let ?B = "bob_ratchet secret skb pka ctb"
  let ?d = "step_secrets ssa (take hf_len (root_secrets secret))"
  note len = pair_length [OF pair(1)] pair_length [OF pair(2)]
  have ct: "length ctb = rk_len" "length cta = rk_len"
    using enc_call [OF _ enc(1)] enc_call [OF _ enc(2)] len by simp_all
  have wf: "wf_r ?A []" "wf_r ?B []" using len ct by (simp_all add: alice_wf bob_wf)
  define q where "q = \<lparr>pl_sequence = 0, pl_ratchet_key = buf cta, pl_root_sequence = 1, pl_sending_message_sequence = c,
      pl_ciphertext = buf (aead_seal (mkey (drop hf_len ?d)) ad msg)\<rparr>"
  obtain p A' where send: "encrypt_ratchet csp (Some ?A) (buf ad) (Some msg) = Some (0, Some p, Some A')"
      and q: "p\<lparr>pl_sending_message_sequence := c\<rparr> = q"
    using encrypt_ok [OF wf(1) init_fields(7) msg] by (simp add: q_def init_fields)
  have qw: "wf_p q cta (aead_seal (mkey (drop hf_len ?d)) ad msg)"
    using ct msg by (simp add: wf_payload_def q_def seal_length)
  have root: "length (take hf_len (root_secrets secret)) = hf_len" by (simp add: kdf_length)
  have coming: "pl_root_sequence q = rt_root_sequence ?B + 1" "rt_root_sequence ?B + 1 \<noteq> 0"
    by (simp_all add: q_def init_fields)
  have trial: "decrypt_trial mem_ok csp ?B (buf ad) q NewChain rk_len t = Some (0, plain_out msg, ?B, t)"
    using trial_new [where mem_ok = mem_ok and s = t, OF wf(2) qw ad coming init_fields(1) root init_fields(2)
        first_receiver_simps(1)] len msg dec_enc [OF pair(2) enc(2)]
    by (simp add: q_def open_seal open_result_def)
  have c': "unat c \<le> 1025" "1 < unat c" using c by (simp_all add: word_less_nat_alt word_le_nat_alt)
  have early: "pl_root_sequence q = 1" "\<not> pl_sending_message_sequence q < pl_sequence q" by (simp_all add: q_def)
  have miss: "0 < missing ?B q" "missing ?B q \<le> 1024" using c' by (simp_all add: q_def init_fields)
  obtain B' where B': "decrypt_ratchet mem_ok csp (Some ?B) (buf ad) (Some q) t = Some (- 1, empty_bdata, B', t)"
      "is_valid_ratchet (Some B') = Some False" "rt_n_skipped_msg_key_list B' = 0"
    using first_message_breaks [where mem_ok = mem_ok, OF wf(2) qw ad init_fields(4) early miss mem trial] by blast
  then have "rt_n_skipped_msg_key_list B' \<le> 1024" by simp
  with B' show ?thesis using send q by blast
qed

end



text \<open>
  \<open>decrypt_ratchet\<close> checks its payload pointer but follows it unconditionally in the update of
  the receive counter at its end: with a NULL payload the behaviour is undefined for every ratchet,
  suite and associated data.  The same holds for a NULL ratchet.
\<close>

lemma decrypt_ratchet_null:
  "decrypt_ratchet mem_ok cs r ad None s = None \<and> decrypt_ratchet mem_ok cs None ad p s = None"
proof
  show "decrypt_ratchet mem_ok cs r ad None s = None"
    by (cases "decrypt_checks cs r ad None"; cases r) (auto simp: decrypt_ratchet_def)
  show "decrypt_ratchet mem_ok cs None ad p s = None"
    by (cases "decrypt_checks cs None ad p") (auto simp: decrypt_ratchet_def)
qed

subsection \<open>Encryption\<close>

text \<open>
  What \<open>encrypt_ratchet\<close> returns: the payload carries the number of the message in its chain,
  the ratchet key of the chain, the root sequence and the running count, and the plaintext sealed
  under the message key of the current chain key; afterwards the chain key is one step further, so
  the next message uses another number and another key, and nothing else of the ratchet changes.
\<close>

lemma encrypt_ratchet_functional:
  assumes P: "prims_ok P" and raw: "is_valid_e2ees_pack_id P raw" and a: "pack_kem raw = Some a"
    and r: "suite_ratchet P a r ns" and sender: "rt_sender_chain r = Some (sender_of pk rk i k)"
    and pt: "length pt \<le> GCM_LIMIT"
  shows "encrypt_ratchet (Some (suite_of P raw)) (Some r) (buf ad) (Some pt) =
    Some (0, Some \<lparr>pl_sequence = i, pl_ratchet_key = buf rk, pl_root_sequence = rt_root_sequence r,
             pl_sending_message_sequence = rt_sending_message_sequence r + 1,
             pl_ciphertext = buf (std_seal P (message_key (std_kdf P) 32 48 k) ad pt)\<rparr>,
          Some (r\<lparr>rt_sender_chain := Some (sender_of pk rk (i + 1) (std_mac P k CHAIN_KEY_SEED)),
                  rt_sending_message_sequence := rt_sending_message_sequence r + 1\<rparr>)) \<and>
    suite_ratchet P a (r\<lparr>rt_sender_chain := Some (sender_of pk rk (i + 1) (std_mac P k CHAIN_KEY_SEED)),
                  rt_sending_message_sequence := rt_sending_message_sequence r + 1\<rparr>) ns"
proof -
  note suite = suite_of_laws [OF P raw a] and r' = r [unfolded suite_ratchet_def]
  show ?thesis unfolding suite_ratchet_def
    using e2ee_suite.encrypt_ok [OF suite r' sender pt] e2ee_suite.wf_encrypted [OF suite r' sender] by blast
qed

lemma encrypt_ratchet_functional_example:
  "encrypt_ratchet (Some (suite_of demo_prims 0x113101)) (Some demo_sender) (buf [1]) (Some [10]) =
    Some (0, Some \<lparr>pl_sequence = 0, pl_ratchet_key = buf [9], pl_root_sequence = 0, pl_sending_message_sequence = 1,
             pl_ciphertext = buf (10 # replicate 16 43)\<rparr>,
          Some (demo_sender\<lparr>rt_sender_chain := Some (sender_of [7] [9] 1 (replicate 32 98)),
                  rt_sending_message_sequence := 1\<rparr>))"
proof -
  have seal: "std_seal demo_prims (message_key (std_kdf demo_prims) 32 48 (replicate 32 3)) [1] [10] = 10 # replicate 16 43"
    by (simp add: std_seal_def message_key_def std_kdf_def demo_prims_def MESSAGE_KEY_SEED_def)
  have mac: "std_mac demo_prims (replicate 32 3) CHAIN_KEY_SEED = replicate 32 98"
    by (simp add: std_mac_def demo_prims_def CHAIN_KEY_SEED_def)
  have sender: "rt_sender_chain demo_sender = Some (sender_of [7] [9] 0 (replicate 32 3))" by (simp add: demo_sender_def)
  show ?thesis
    using encrypt_ratchet_functional [OF demo_hyps demo_ratchets(1) sender, of "[10]" "[1]"]
    by (simp add: seal mac) (simp add: demo_sender_def)
qed

text \<open>
  Pruning keeps the newest 1024 skipped keys in their order and drops the oldest; a shorter
  list is left as it is.
\<close>

lemma prune_keeps_newest:
  assumes "holds_skipped r ns"
  shows "\<exists>r'. prune_bloated_skipped_keys r = Some r' \<and> holds_skipped r' (drop (length ns - 1024) ns) \<and>
    rt_receiver_chain r' = rt_receiver_chain r \<and> rt_sender_chain r' = rt_sender_chain r \<and> rt_root_key r' = rt_root_key r"
proof -
  from prune_ok [OF assms] obtain l where
    "prune_bloated_skipped_keys r = Some (r\<lparr>rt_skipped_msg_key_list := l, rt_n_skipped_msg_key_list := length (newest ns)\<rparr>)"
    "\<And>r' :: ratchet. rt_skipped_msg_key_list r' = l \<Longrightarrow> rt_n_skipped_msg_key_list r' = length (newest ns) \<Longrightarrow>
       holds_skipped r' (newest ns)" by blast
  then show ?thesis by (simp add: newest_def)
qed

lemma prune_keeps_newest_witness:
  "\<exists>r'. prune_bloated_skipped_keys (demo_receiver\<lparr>rt_n_skipped_msg_key_list := 1026,
      rt_skipped_msg_key_list := Some (map node_of (replicate 1026 ([9], 0, [1])))\<rparr>) = Some r' \<and>
    holds_skipped r' (replicate 1024 ([9], 0, [1]))"
proof -
  have "holds_skipped (demo_receiver\<lparr>rt_n_skipped_msg_key_list := 1026,
      rt_skipped_msg_key_list := Some (map node_of (replicate 1026 ([9], 0, [1])))\<rparr>) (replicate 1026 ([9], 0, [1]))"
    by (simp add: holds_skipped_def)
  from prune_keeps_newest [OF this] show ?thesis by auto
qed

end
