(* ===== verification/Messages.thy ===== *)
theory Messages
  imports Validation
begin

section \<open>Messages of the session protocol\<close>

text \<open>
  The structs of invitations, messages and group keys, and their validators (\<open>src/validation.c\<close>).
\<close>

subsection \<open>Invitations\<close>

datatype response_code =
    RESPONSE_CODE_OK
  | RESPONSE_CODE_ACCEPTED
  | RESPONSE_CODE_BAD_REQUEST
  | RESPONSE_CODE_NOT_FOUND
  | RESPONSE_CODE_EXPECTATION_FAILED
  | RESPONSE_CODE_SERVICE_UNAVAILABLE
  | RESPONSE_CODE_OTHER int

record invite_msg =
  im_version :: cstr
  im_e2ees_pack_id :: u32
  im_session_id :: cstr
  im_from :: "address ptr"
  im_to :: "address ptr"
  im_alice_identity_key :: bdata
  im_alice_base_key :: bdata
  im_n_pre_shared_input_list :: nat
  im_pre_shared_input_list :: "bdata array"
  im_bob_signed_pre_key_id :: u32
  im_bob_one_time_pre_key_id :: u32
  im_invite_t :: int

record accept_msg =
  am_e2ees_pack_id :: u32
  am_session_id :: cstr
  am_from :: "address ptr"
  am_to :: "address ptr"
  am_encaps_ciphertext :: bdata
  am_ratchet_key :: bdata

record invite_response =
  ir_code :: response_code
  ir_session_id :: cstr
  ir_invite_t :: int

record accept_response =
  ar_code :: response_code

subsection \<open>One-to-one and group messages\<close>

text \<open>
  Plaintexts sent over a session: messages of the application and the key material of groups.  The
  member the \<open>payload_case\<close> of a protobuf names is a constructor here, so reading another member of
  the union is not a value of the model.
\<close>

record user_devices_bundle =
  udb_domain :: cstr
  udb_user_id :: cstr
  udb_n_device_id_list :: nat
  udb_device_id_list :: "cstr array"

record group_pre_key_bundle =
  gpk_version :: cstr
  gpk_e2ees_pack_id :: u32
  gpk_session_id :: cstr
  gpk_old_session_id :: cstr
  gpk_sender :: "address ptr"
  gpk_group_info :: "group_info ptr"
  gpk_sequence :: u32
  gpk_group_seed :: bdata

record group_update_key_bundle =
  guk_version :: cstr
  guk_e2ees_pack_id :: u32
  guk_session_id :: cstr
  guk_sender :: "address ptr"
  guk_adding :: bool
  guk_group_info :: "group_info ptr"
  guk_sequence :: u32
  guk_chain_key :: bdata
  guk_sign_public_key :: bdata
  guk_n_adding_member_info_list :: nat
  guk_adding_member_info_list :: "group_member_info ptr array"

datatype plaintext_payload =
    PLAINTEXT_NOT_SET
  | PAYLOAD_COMMON_MSG bdata
  | PAYLOAD_COMMON_SYNC_MSG bdata
  | PAYLOAD_USER_DEVICES_BUNDLE "user_devices_bundle ptr"
  | PAYLOAD_GROUP_PRE_KEY_BUNDLE "group_pre_key_bundle ptr"
  | PAYLOAD_GROUP_UPDATE_KEY_BUNDLE "group_update_key_bundle ptr"

record plaintext =
  pt_version :: cstr
  pt_payload :: plaintext_payload

record group_msg_payload =
  gmp_sequence :: u32
  gmp_ciphertext :: bdata
  gmp_signature :: bdata

datatype e2ee_payload =
    E2EE_PAYLOAD_NOT_SET
  | PAYLOAD_ONE2ONE_MSG "one2one_payload ptr"
  | PAYLOAD_GROUP_MSG "group_msg_payload ptr"

record e2ee_msg =
  em_version :: cstr
  em_session_id :: cstr
  em_from :: "address ptr"
  em_to :: "address ptr"
  em_msg_id :: cstr
  em_notif_level :: u32
  em_payload :: e2ee_payload

record send_one2one_msg_response =
  sor_code :: response_code

record send_group_msg_request =
  sgq_msg :: e2ee_msg
  sgq_n_allow_list :: nat
  sgq_allow_list :: "address ptr array"
  sgq_n_deny_list :: nat
  sgq_deny_list :: "address ptr array"

record send_group_msg_response =
  sgr_code :: response_code

record get_pre_key_bundle_request =
  gbr_domain :: cstr
  gbr_user_id :: cstr
  gbr_device_id :: cstr

record get_pre_key_bundle_response =
  gbs_code :: response_code
  gbs_user_id :: cstr
  gbs_n_pre_key_bundles :: nat
  gbs_pre_key_bundles :: "pre_key_bundle ptr array"

record remove_user_device_msg =
  rud_user_address :: "address ptr"

record add_user_device_msg =
  aud_user_address :: "address ptr"
  aud_n_old_address_list :: nat
  aud_old_address_list :: "address ptr array"

subsection \<open>Parameters and validators\<close>

record accept_params =
  ap_e2ees_pack_id :: u32
  ap_from :: "address ptr"
  ap_to :: "address ptr"
  ap_session_id :: cstr
  ap_ciphertext_1 :: "bdata ptr"
  ap_our_ratchet_key :: "bdata ptr"

record send_group_msg_params =
  sgp_sender_address :: "address ptr"
  sgp_group_address :: "address ptr"
  sgp_allow_list :: "address ptr array"
  sgp_allow_list_len :: nat
  sgp_deny_list :: "address ptr array"
  sgp_deny_list_len :: nat

record get_pre_key_bundle_params =
  gbp_from :: "address ptr"
  gbp_auth :: cstr
  gbp_to_user_id :: cstr
  gbp_to_domain :: cstr
  gbp_to_device_id :: cstr

definition is_valid_invite_response :: "invite_response ptr \<Rightarrow> bool" where
  "is_valid_invite_response src =
     (case src of None \<Rightarrow> False
      | Some r \<Rightarrow> if ir_code r = RESPONSE_CODE_NOT_FOUND then True
                   else if ir_code r \<noteq> RESPONSE_CODE_OK then False
                   else is_valid_string (ir_session_id r))"

definition is_valid_accept_response :: "accept_response ptr \<Rightarrow> bool" where
  "is_valid_accept_response src =
     (case src of None \<Rightarrow> False
      | Some r \<Rightarrow> if ar_code r = RESPONSE_CODE_NOT_FOUND then True else ar_code r = RESPONSE_CODE_OK)"

definition is_valid_invite_msg :: "prims \<Rightarrow> invite_msg ptr \<Rightarrow> bool option" where
  "is_valid_invite_msg P src =
     (case src of None \<Rightarrow> Some False
      | Some m \<Rightarrow>
          if \<not> (is_valid_string (im_version m) \<and> is_valid_e2ees_pack_id P (im_e2ees_pack_id m) \<and>
                 is_valid_string (im_session_id m) \<and> is_valid_address (im_from m) \<and> is_valid_address (im_to m) \<and>
                 is_valid_protobuf (Some (im_alice_identity_key m)) \<and> is_valid_protobuf (Some (im_alice_base_key m)))
          then Some False
          else is_valid_protobuf_list (im_pre_shared_input_list m) (im_n_pre_shared_input_list m))"

definition is_valid_accept_msg :: "prims \<Rightarrow> accept_msg ptr \<Rightarrow> bool" where
  "is_valid_accept_msg P src =
     (case src of None \<Rightarrow> False
      | Some m \<Rightarrow> is_valid_e2ees_pack_id P (am_e2ees_pack_id m) \<and> is_valid_string (am_session_id m) \<and>
          is_valid_address (am_from m) \<and> is_valid_address (am_to m) \<and>
          is_valid_protobuf (Some (am_encaps_ciphertext m)) \<and> is_valid_protobuf (Some (am_ratchet_key m)))"

definition is_valid_accept_inputs :: "prims \<Rightarrow> accept_params \<Rightarrow> bool" where
  "is_valid_accept_inputs P params \<longleftrightarrow>
     is_valid_e2ees_pack_id P (ap_e2ees_pack_id params) \<and> is_valid_address (ap_from params) \<and>
     is_valid_address (ap_to params) \<and> is_valid_string (ap_session_id params) \<and>
     \<not> (ap_ciphertext_1 params \<noteq> None \<and> \<not> is_valid_protobuf (ap_ciphertext_1 params)) \<and>
     is_valid_protobuf (ap_our_ratchet_key params)"

definition is_valid_group_update_key_bundle :: "prims \<Rightarrow> group_update_key_bundle ptr \<Rightarrow> bool option" where
  "is_valid_group_update_key_bundle P src =
     (case src of None \<Rightarrow> Some False
      | Some b \<Rightarrow>
          if \<not> (is_valid_string (guk_version b) \<and> is_valid_e2ees_pack_id P (guk_e2ees_pack_id b) \<and>
                 is_valid_string (guk_session_id b) \<and> is_valid_address (guk_sender b)) then Some False
          else and_then (is_valid_group_info (guk_group_info b))
            (if \<not> (is_valid_protobuf (Some (guk_chain_key b)) \<and> is_valid_protobuf (Some (guk_sign_public_key b))) then Some False
             else is_valid_group_member_info_list (guk_adding_member_info_list b) (guk_n_adding_member_info_list b)))"

definition is_valid_group_pre_key_bundle :: "prims \<Rightarrow> group_pre_key_bundle ptr \<Rightarrow> bool option" where
  "is_valid_group_pre_key_bundle P src =
     (case src of None \<Rightarrow> Some False
      | Some b \<Rightarrow>
          if \<not> (is_valid_string (gpk_version b) \<and> is_valid_e2ees_pack_id P (gpk_e2ees_pack_id b) \<and>
                 is_valid_string (gpk_session_id b) \<and> is_valid_address (gpk_sender b)) then Some False
          else and_then (is_valid_group_info (gpk_group_info b)) (Some (is_valid_protobuf (Some (gpk_group_seed b)))))"

definition is_valid_group_msg_payload :: "group_msg_payload ptr \<Rightarrow> bool" where
  "is_valid_group_msg_payload payload =
     (case payload of None \<Rightarrow> False
      | Some p \<Rightarrow> is_valid_protobuf (Some (gmp_ciphertext p)) \<and> is_valid_protobuf (Some (gmp_signature p)))"

definition is_valid_e2ee_msg :: "e2ee_msg ptr \<Rightarrow> bool" where
  "is_valid_e2ee_msg src =
     (case src of None \<Rightarrow> False
      | Some m \<Rightarrow> is_valid_string (em_version m) \<and> is_valid_string (em_session_id m) \<and>
          is_valid_address (em_from m) \<and> is_valid_address (em_to m) \<and>
          (case em_payload m of PAYLOAD_ONE2ONE_MSG p \<Rightarrow> is_valid_one2one_msg_payload p
           | PAYLOAD_GROUP_MSG p \<Rightarrow> is_valid_group_msg_payload p
           | E2EE_PAYLOAD_NOT_SET \<Rightarrow> False))"

definition is_valid_create_group_msg :: "prims \<Rightarrow> create_group_msg ptr \<Rightarrow> bool option" where
  "is_valid_create_group_msg P src =
     (case src of None \<Rightarrow> Some False
      | Some m \<Rightarrow>
          if \<not> (is_valid_e2ees_pack_id P (cgm_e2ees_pack_id m) \<and> is_valid_address (cgm_sender_address m)) then Some False
          else and_then (is_valid_group_info (cgm_group_info m))
            (is_valid_group_member_info_list (cgm_member_info_list m) (cgm_n_member_info_list m)))"

definition is_valid_send_group_msg_response :: "send_group_msg_response ptr \<Rightarrow> bool" where
  "is_valid_send_group_msg_response src = (case src of None \<Rightarrow> False | Some r \<Rightarrow> sgr_code r = RESPONSE_CODE_OK)"

definition is_valid_send_group_msg_inputs :: "send_group_msg_params \<Rightarrow> bool option" where
  "is_valid_send_group_msg_inputs params =
     (if \<not> (is_valid_address (sgp_sender_address params) \<and> is_valid_address (sgp_group_address params)) then Some False
      else and_then (is_valid_address_list (sgp_allow_list params) (sgp_allow_list_len params))
             (is_valid_address_list (sgp_deny_list params) (sgp_deny_list_len params)))"

definition is_valid_subject :: "subject ptr \<Rightarrow> bool option" where
  "is_valid_subject src =
     (case src of None \<Rightarrow> Some False
      | Some u \<Rightarrow>
          if \<not> (is_valid_string (su_cn u) \<and> is_valid_string (su_domain u) \<and> is_valid_string (su_o u)) then Some False
          else is_valid_string_list (su_ou u) (su_n_ou u))"

definition is_valid_server_signed_signature :: "server_signed_signature ptr \<Rightarrow> bool option" where
  "is_valid_server_signed_signature src =
     (case src of None \<Rightarrow> Some False
      | Some x \<Rightarrow> and_then (is_valid_subject (sss_signer x))
          (Some (is_valid_protobuf (Some (sss_signing_public_key_fingerprint x)) \<and>
                 is_valid_protobuf (Some (sss_msg_fingerprint x)) \<and> is_valid_protobuf (Some (sss_signature x)))))"

definition is_valid_get_pre_key_bundle_response :: "get_pre_key_bundle_response ptr \<Rightarrow> bool option" where
  "is_valid_get_pre_key_bundle_response src =
     (case src of None \<Rightarrow> Some False
      | Some r \<Rightarrow>
          if \<not> (gbs_code r = RESPONSE_CODE_OK \<and> is_valid_string (gbs_user_id r) \<and> gbs_n_pre_key_bundles r > 0) then Some False
          else is_valid_pre_key_bundle_list (gbs_pre_key_bundles r) (gbs_n_pre_key_bundles r))"

definition is_valid_get_pre_key_bundle_inputs :: "get_pre_key_bundle_params \<Rightarrow> bool" where
  "is_valid_get_pre_key_bundle_inputs params \<longleftrightarrow>
     is_valid_address (gbp_from params) \<and> is_valid_string (gbp_auth params) \<and> is_valid_string (gbp_to_user_id params) \<and>
     is_valid_string (gbp_to_domain params) \<and> is_valid_optional_string (gbp_to_device_id params)"

definition is_valid_add_user_device_msg :: "add_user_device_msg ptr \<Rightarrow> bool option" where
  "is_valid_add_user_device_msg src =
     (case src of None \<Rightarrow> Some False
      | Some m \<Rightarrow> if \<not> is_valid_address (aud_user_address m) then Some False
                   else is_valid_address_list (aud_old_address_list m) (aud_n_old_address_list m))"

definition is_valid_remove_user_device_msg :: "remove_user_device_msg ptr \<Rightarrow> bool" where
  "is_valid_remove_user_device_msg src = (case src of None \<Rightarrow> False | Some m \<Rightarrow> is_valid_address (rud_user_address m))"

end
