(* ===== verification/Requests.thy ===== *)
theory Requests
  imports Messages
begin

section \<open>Requests on accounts and groups\<close>

text \<open>
  The structs of registration, of published keys and of the requests that change a group, the messages
  the server delivers, and their validators (\<open>src/validation.c\<close>).  A request that only wraps a
  message is the message.
\<close>

subsection \<open>Accounts\<close>

record register_user_params =
  rup_e2ees_pack_id :: u32
  rup_user_name :: cstr
  rup_user_id :: cstr
  rup_device_id :: cstr
  rup_authenticator :: cstr
  rup_auth_code :: cstr

record register_user_request =
  rur_e2ees_pack_id :: u32
  rur_user_name :: cstr
  rur_user_id :: cstr
  rur_device_id :: cstr
  rur_authenticator :: cstr
  rur_auth_code :: cstr
  rur_identity_key_public :: "identity_key_public ptr"
  rur_signed_pre_key_public :: "signed_pre_key_public ptr"
  rur_n_one_time_pre_key_list :: nat
  rur_one_time_pre_key_list :: "one_time_pre_key_public ptr array"

record register_user_response =
  rus_code :: response_code
  rus_address :: "address ptr"
  rus_username :: cstr
  rus_password :: cstr
  rus_auth :: cstr
  rus_expires_in :: int
  rus_server_cert :: "certificate ptr"
  rus_n_other_device_address_list :: nat
  rus_other_device_address_list :: "address ptr array"
  rus_n_other_user_address_list :: nat
  rus_other_user_address_list :: "address ptr array"
  rus_n_group_info_list :: nat
  rus_group_info_list :: "group_info ptr array"

record publish_spk_params =
  psp_e2ees_pack_id :: u32
  psp_user_address :: "address ptr"
  psp_new_spk :: "signed_pre_key ptr"

record publish_spk_request =
  psr_user_address :: "address ptr"
  psr_signed_pre_key_public :: "signed_pre_key_public ptr"

record publish_spk_response =
  pss_code :: response_code

record supply_opks_params =
  sop_account :: "account ptr"
  sop_opks_num :: u32

record supply_opks_request =
  soq_e2ees_pack_id :: u32
  soq_user_address :: "address ptr"
  soq_n_one_time_pre_key_public_list :: nat
  soq_one_time_pre_key_public_list :: "one_time_pre_key_public ptr array"

record supply_opks_response =
  sos_code :: response_code

record supply_opks_msg =
  som_opks_num :: u32
  som_user_address :: "address ptr"

text \<open>The loop over an array whose elements are tested by a validator that reads an array itself.\<close>

fun all_loop_opt :: "('a \<Rightarrow> bool option) \<Rightarrow> 'a array \<Rightarrow> nat \<Rightarrow> nat \<Rightarrow> bool option" where
  "all_loop_opt p a i 0 = Some True"
| "all_loop_opt p a i (Suc k) =
     do { x \<leftarrow> array_get a i; valid \<leftarrow> p x; if \<not> valid then Some False else all_loop_opt p a (Suc i) k }"

definition is_valid_group_info_list :: "group_info ptr array \<Rightarrow> nat \<Rightarrow> bool option" where
  "is_valid_group_info_list src n =
     (if n > 0 \<and> src = None then Some False
      else if n = 0 \<and> src \<noteq> None then Some False
      else all_loop_opt is_valid_group_info src 0 n)"

definition is_valid_cert :: "cert ptr \<Rightarrow> bool option" where
  "is_valid_cert src =
     (case src of None \<Rightarrow> Some False
      | Some c \<Rightarrow> and_then (is_valid_subject (ce_issuee c))
          (if \<not> is_valid_protobuf (Some (ce_public_key c)) then Some False else is_valid_subject (ce_issuer c)))"

definition is_valid_certificate :: "certificate ptr \<Rightarrow> bool option" where
  "is_valid_certificate src =
     (case src of None \<Rightarrow> Some False
      | Some c \<Rightarrow> and_then (is_valid_cert (ct_cert c))
          (Some (is_valid_protobuf (Some (ct_cert_fingerprint c)) \<and>
                 is_valid_protobuf (Some (ct_signing_public_key_fingerprint c)) \<and> is_valid_protobuf (Some (ct_signature c)))))"

definition is_valid_register_user_response :: "register_user_response ptr \<Rightarrow> bool option" where
  "is_valid_register_user_response src =
     (case src of None \<Rightarrow> Some False
      | Some r \<Rightarrow>
          if \<not> (rus_code r = RESPONSE_CODE_OK \<and> is_valid_address (rus_address r) \<and> is_valid_string (rus_username r) \<and>
                 is_valid_string (rus_password r) \<and> is_valid_string (rus_auth r)) then Some False
          else and_then (is_valid_address_list (rus_other_device_address_list r) (rus_n_other_device_address_list r))
            (and_then (is_valid_no_device_id_user_address_list (rus_other_user_address_list r) (rus_n_other_user_address_list r))
              (is_valid_group_info_list (rus_group_info_list r) (rus_n_group_info_list r))))"

definition is_valid_publish_spk_response :: "publish_spk_response ptr \<Rightarrow> bool" where
  "is_valid_publish_spk_response src = (case src of None \<Rightarrow> False | Some r \<Rightarrow> pss_code r = RESPONSE_CODE_OK)"

definition is_valid_supply_opks_response :: "supply_opks_response ptr \<Rightarrow> bool" where
  "is_valid_supply_opks_response src = (case src of None \<Rightarrow> False | Some r \<Rightarrow> sos_code r = RESPONSE_CODE_OK)"

definition is_valid_supply_opks_msg :: "supply_opks_msg ptr \<Rightarrow> bool" where
  "is_valid_supply_opks_msg src = (case src of None \<Rightarrow> False | Some m \<Rightarrow> is_valid_address (som_user_address m))"

definition is_valid_register_user_inputs :: "prims \<Rightarrow> register_user_params \<Rightarrow> bool" where
  "is_valid_register_user_inputs P params \<longleftrightarrow>
     is_valid_e2ees_pack_id P (rup_e2ees_pack_id params) \<and> is_valid_string (rup_user_name params) \<and>
     is_valid_string (rup_user_id params) \<and> is_valid_string (rup_device_id params) \<and>
     is_valid_optional_string (rup_authenticator params) \<and> is_valid_string (rup_auth_code params)"

definition is_valid_publish_spk_inputs :: "prims \<Rightarrow> publish_spk_params \<Rightarrow> bool" where
  "is_valid_publish_spk_inputs P params \<longleftrightarrow>
     is_valid_e2ees_pack_id P (psp_e2ees_pack_id params) \<and> is_valid_address (psp_user_address params) \<and>
     is_valid_signed_pre_key (psp_new_spk params)"

definition is_valid_supply_opks_inputs :: "prims \<Rightarrow> supply_opks_params \<Rightarrow> bool option" where
  "is_valid_supply_opks_inputs P params =
     (if sop_opks_num params = 0 then Some False else is_valid_registered_account P (sop_account params))"

subsection \<open>Groups\<close>

record create_group_params =
  cgp_sender_address :: "address ptr"
  cgp_group_name :: cstr
  cgp_group_members :: "group_member ptr array"
  cgp_group_members_num :: nat

record add_group_members_params =
  agp_sender_address :: "address ptr"
  agp_group_address :: "address ptr"
  agp_adding_members :: "group_member ptr array"
  agp_adding_members_num :: nat

record remove_group_members_params =
  rgp_sender_address :: "address ptr"
  rgp_group_address :: "address ptr"
  rgp_removing_members :: "group_member ptr array"
  rgp_removing_members_num :: nat

record add_group_member_device_params =
  adp_sender_address :: "address ptr"
  adp_group_address :: "address ptr"
  adp_new_device_address :: "address ptr"

record leave_group_params =
  lgp_sender_address :: "address ptr"
  lgp_group_address :: "address ptr"

record create_group_response =
  cgs_code :: response_code
  cgs_group_address :: "address ptr"
  cgs_n_member_info_list :: nat
  cgs_member_info_list :: "group_member_info ptr array"

record get_group_response =
  ggs_code :: response_code
  ggs_group_name :: cstr
  ggs_n_group_member_list :: nat
  ggs_group_member_list :: "group_member ptr array"

record add_group_members_response =
  ags_code :: response_code
  ags_n_added_group_member_list :: nat
  ags_added_group_member_list :: "group_member ptr array"
  ags_n_group_member_list :: nat
  ags_group_member_list :: "group_member ptr array"
  ags_n_adding_member_info_list :: nat
  ags_adding_member_info_list :: "group_member_info ptr array"

record add_group_member_device_response =
  ads_code :: response_code
  ads_n_group_member_list :: nat
  ads_group_member_list :: "group_member ptr array"
  ads_adding_member_device_info :: "group_member_info ptr"

record remove_group_members_response =
  rgs_code :: response_code
  rgs_n_removed_group_member_list :: nat
  rgs_removed_group_member_list :: "group_member ptr array"
  rgs_n_group_member_list :: nat
  rgs_group_member_list :: "group_member ptr array"
  rgs_n_member_info_list :: nat
  rgs_member_info_list :: "group_member_info ptr array"

record leave_group_response =
  lgs_code :: response_code
  lgs_leave_group_member_address :: "address ptr"
  lgs_group_address :: "address ptr"

definition is_valid_create_group_response :: "create_group_response ptr \<Rightarrow> bool option" where
  "is_valid_create_group_response src =
     (case src of None \<Rightarrow> Some False
      | Some r \<Rightarrow> if \<not> (cgs_code r = RESPONSE_CODE_OK \<and> is_valid_address (cgs_group_address r)) then Some False
                   else is_valid_group_member_info_list (cgs_member_info_list r) (cgs_n_member_info_list r))"

definition is_valid_add_group_members_response :: "add_group_members_response ptr \<Rightarrow> bool option" where
  "is_valid_add_group_members_response src =
     (case src of None \<Rightarrow> Some False
      | Some r \<Rightarrow>
          if ags_code r \<noteq> RESPONSE_CODE_OK then Some False
          else and_then (is_valid_group_member_list (ags_added_group_member_list r) (ags_n_added_group_member_list r))
            (and_then (is_valid_group_member_list (ags_group_member_list r) (ags_n_group_member_list r))
              (is_valid_group_member_info_list (ags_adding_member_info_list r) (ags_n_adding_member_info_list r))))"

definition is_valid_add_group_member_device_response :: "add_group_member_device_response ptr \<Rightarrow> bool option" where
  "is_valid_add_group_member_device_response src =
     (case src of None \<Rightarrow> Some False
      | Some r \<Rightarrow>
          if ads_code r \<noteq> RESPONSE_CODE_OK then Some False
          else and_then (is_valid_group_member_list (ads_group_member_list r) (ads_n_group_member_list r))
            (Some (is_valid_group_member_info (ads_adding_member_device_info r))))"

definition is_valid_remove_group_members_response :: "remove_group_members_response ptr \<Rightarrow> bool option" where
  "is_valid_remove_group_members_response src =
     (case src of None \<Rightarrow> Some False
      | Some r \<Rightarrow>
          if rgs_code r \<noteq> RESPONSE_CODE_OK then Some False
          else and_then (is_valid_group_member_list (rgs_removed_group_member_list r) (rgs_n_removed_group_member_list r))
            (and_then (is_valid_group_member_list (rgs_group_member_list r) (rgs_n_group_member_list r))
              (is_valid_group_member_info_list (rgs_member_info_list r) (rgs_n_member_info_list r))))"

definition is_valid_leave_group_response :: "leave_group_response ptr \<Rightarrow> bool" where
  "is_valid_leave_group_response src =
     (case src of None \<Rightarrow> False
      | Some r \<Rightarrow> lgs_code r = RESPONSE_CODE_OK \<and> is_valid_address (lgs_leave_group_member_address r) \<and>
          is_valid_address (lgs_group_address r))"

definition is_valid_add_group_members_msg :: "prims \<Rightarrow> add_group_members_msg ptr \<Rightarrow> bool option" where
  "is_valid_add_group_members_msg P src =
     (case src of None \<Rightarrow> Some False
      | Some m \<Rightarrow>
          if \<not> (is_valid_e2ees_pack_id P (agm_e2ees_pack_id m) \<and> is_valid_address (agm_sender_address m)) then Some False
          else and_then (is_valid_group_info (agm_group_info m))
            (and_then (is_valid_group_member_list (agm_adding_member_list m) (agm_n_adding_member_list m))
              (is_valid_group_member_info_list (agm_adding_member_info_list m) (agm_n_adding_member_info_list m))))"

definition is_valid_add_group_member_device_msg :: "prims \<Rightarrow> add_group_member_device_msg ptr \<Rightarrow> bool option" where
  "is_valid_add_group_member_device_msg P src =
     (case src of None \<Rightarrow> Some False
      | Some m \<Rightarrow>
          if \<not> (is_valid_e2ees_pack_id P (agd_e2ees_pack_id m) \<and> is_valid_address (agd_sender_address m)) then Some False
          else and_then (is_valid_group_info (agd_group_info m)) (Some (is_valid_group_member_info (agd_adding_member_device m))))"

definition is_valid_remove_group_members_msg :: "prims \<Rightarrow> remove_group_members_msg ptr \<Rightarrow> bool option" where
  "is_valid_remove_group_members_msg P src =
     (case src of None \<Rightarrow> Some False
      | Some m \<Rightarrow>
          if \<not> (is_valid_e2ees_pack_id P (rgm_e2ees_pack_id m) \<and> is_valid_address (rgm_sender_address m)) then Some False
          else and_then (is_valid_group_info (rgm_group_info m))
            (and_then (is_valid_group_member_list (rgm_removing_member_list m) (rgm_n_removing_member_list m))
              (is_valid_group_member_info_list (rgm_member_info_list m) (rgm_n_member_info_list m))))"

definition is_valid_leave_group_msg :: "leave_group_msg ptr \<Rightarrow> bool" where
  "is_valid_leave_group_msg src =
     (case src of None \<Rightarrow> False | Some m \<Rightarrow> is_valid_address (lgm_user_address m) \<and> is_valid_address (lgm_group_address m))"

definition is_valid_create_group_inputs :: "create_group_params \<Rightarrow> bool option" where
  "is_valid_create_group_inputs params =
     (if \<not> (is_valid_address (cgp_sender_address params) \<and> is_valid_string (cgp_group_name params) \<and>
            cgp_group_members_num params \<noteq> 0) then Some False
      else is_valid_group_member_list (cgp_group_members params) (cgp_group_members_num params))"

definition is_valid_add_group_members_inputs :: "add_group_members_params \<Rightarrow> bool option" where
  "is_valid_add_group_members_inputs params =
     (if \<not> (is_valid_address (agp_sender_address params) \<and> is_valid_address (agp_group_address params) \<and>
            agp_adding_members_num params \<noteq> 0) then Some False
      else is_valid_group_member_list (agp_adding_members params) (agp_adding_members_num params))"

definition is_valid_remove_group_members_inputs :: "remove_group_members_params \<Rightarrow> bool option" where
  "is_valid_remove_group_members_inputs params =
     (if \<not> (is_valid_address (rgp_sender_address params) \<and> is_valid_address (rgp_group_address params) \<and>
            rgp_removing_members_num params \<noteq> 0) then Some False
      else is_valid_group_member_list (rgp_removing_members params) (rgp_removing_members_num params))"

definition is_valid_add_group_member_device_inputs :: "add_group_member_device_params \<Rightarrow> bool" where
  "is_valid_add_group_member_device_inputs params \<longleftrightarrow>
     is_valid_address (adp_sender_address params) \<and> is_valid_address (adp_group_address params) \<and>
     is_valid_address (adp_new_device_address params)"

definition is_valid_leave_group_inputs :: "leave_group_params \<Rightarrow> bool" where
  "is_valid_leave_group_inputs params \<longleftrightarrow>
     is_valid_address (lgp_sender_address params) \<and> is_valid_address (lgp_group_address params)"

subsection \<open>Messages from the server\<close>

text \<open>
  The tag of a message is a struct with the message's id, here the id.  The library does not look at
  other payloads.
\<close>

datatype proto_payload =
    PAYLOAD_SUPPLY_OPKS_MSG "supply_opks_msg ptr"
  | PAYLOAD_ADD_USER_DEVICE_MSG "add_user_device_msg ptr"
  | PAYLOAD_REMOVE_USER_DEVICE_MSG "remove_user_device_msg ptr"
  | PAYLOAD_INVITE_MSG "invite_msg ptr"
  | PAYLOAD_ACCEPT_MSG "accept_msg ptr"
  | PAYLOAD_E2EE_MSG "e2ee_msg ptr"
  | PAYLOAD_CREATE_GROUP_MSG "create_group_msg ptr"
  | PAYLOAD_ADD_GROUP_MEMBERS_MSG "add_group_members_msg ptr"
  | PAYLOAD_ADD_GROUP_MEMBER_DEVICE_MSG "add_group_member_device_msg ptr"
  | PAYLOAD_REMOVE_GROUP_MEMBERS_MSG "remove_group_members_msg ptr"
  | PAYLOAD_LEAVE_GROUP_MSG "leave_group_msg ptr"
  | PAYLOAD_OTHER

record proto_msg =
  pm_to :: "address ptr"
  pm_n_signature_list :: nat
  pm_signature_list :: "server_signed_signature ptr array"
  pm_tag :: "cstr ptr"
  pm_payload :: proto_payload

record consume_proto_msg_response =
  cps_code :: response_code

definition is_valid_server_signed_signature_list :: "server_signed_signature ptr array \<Rightarrow> nat \<Rightarrow> bool option" where
  "is_valid_server_signed_signature_list src n = all_loop_opt is_valid_server_signed_signature src 0 n"

definition is_valid_proto_msg :: "proto_msg ptr \<Rightarrow> bool option" where
  "is_valid_proto_msg src =
     (case src of None \<Rightarrow> Some False
      | Some m \<Rightarrow> if \<not> is_valid_address (pm_to m) then Some False
                   else is_valid_server_signed_signature_list (pm_signature_list m) (pm_n_signature_list m))"

end
