(* ===== verification/Host.thy ===== *)
theory Host
  imports Requests
begin

section \<open>The host\<close>

text \<open>
  The handlers of the plugin the library is started with (\<open>e2ees_plugin_t\<close>), for the database, the
  server, the clock and the callbacks.  The host's code is not part of the library, so its handlers
  are a parameter over a state \<open>'w\<close> of the world.  Where the library hands a packed protobuf to the
  host, the handler here is given the struct that is packed.

  A pending request is the packed request with its arguments; the library itself stores those of
  invitations, answers, one-to-one messages, pre-key bundles, new devices and consumed messages.
\<close>

datatype pending_request =
    PENDING_REQUEST_TYPE_INVITE invite_msg
  | PENDING_REQUEST_TYPE_ACCEPT accept_msg
  | PENDING_REQUEST_TYPE_SEND_ONE2ONE_MSG e2ee_msg
  | PENDING_REQUEST_TYPE_GET_PRE_KEY_BUNDLE get_pre_key_bundle_request "bdata list"
  | PENDING_REQUEST_TYPE_PUBLISH_SPK publish_spk_request
  | PENDING_REQUEST_TYPE_SUPPLY_OPKS supply_opks_request "one_time_pre_key ptr list"
  | PENDING_REQUEST_TYPE_CREATE_GROUP create_group_msg
  | PENDING_REQUEST_TYPE_ADD_GROUP_MEMBERS add_group_members_msg
  | PENDING_REQUEST_TYPE_ADD_GROUP_MEMBER_DEVICE add_group_member_device_msg
  | PENDING_REQUEST_TYPE_REMOVE_GROUP_MEMBERS remove_group_members_msg
  | PENDING_REQUEST_TYPE_LEAVE_GROUP leave_group_msg
  | PENDING_REQUEST_TYPE_SEND_GROUP_MSG send_group_msg_request
  | PENDING_REQUEST_TYPE_PROTO_MSG proto_msg
  | PENDING_REQUEST_TYPE_UNKNOWN

text \<open>
  \<open>hs_base64\<close> is the encoder of mbedtls, \<open>hs_pack_plaintext\<close> and its inverse are generated protobuf
  code.  The handlers of the server are pointers: the library tests them for NULL.  A handler that
  returns several parallel arrays of one length returns a list of tuples here.
\<close>

record 'w host =
  hs_gen_ts :: "'w \<Rightarrow> int \<times> 'w"
  hs_gen_uuid :: "'w \<Rightarrow> bytes \<times> 'w"
  hs_base64 :: "bytes \<Rightarrow> string"
  hs_load_account_by_address :: "'w \<Rightarrow> address ptr \<Rightarrow> account ptr"
  hs_load_signed_pre_key :: "'w \<Rightarrow> address ptr \<Rightarrow> u32 \<Rightarrow> signed_pre_key ptr"
  hs_update_one_time_pre_key :: "'w \<Rightarrow> address ptr \<Rightarrow> u32 \<Rightarrow> 'w"
  hs_load_auth :: "'w \<Rightarrow> address ptr \<Rightarrow> cstr"
  hs_load_session :: "'w \<Rightarrow> cstr \<Rightarrow> address ptr \<Rightarrow> session ptr"
  hs_store_session :: "'w \<Rightarrow> session \<Rightarrow> 'w"
  hs_store_pending_request_data :: "'w \<Rightarrow> address ptr \<Rightarrow> cstr \<Rightarrow> pending_request \<Rightarrow> 'w"
  hs_invite :: "('w \<Rightarrow> address ptr \<Rightarrow> cstr \<Rightarrow> invite_msg \<Rightarrow> invite_response ptr \<times> 'w) ptr"
  hs_accept :: "('w \<Rightarrow> address ptr \<Rightarrow> cstr \<Rightarrow> accept_msg \<Rightarrow> accept_response ptr \<times> 'w) ptr"
  hs_on_inbound_session_invited :: "'w \<Rightarrow> address ptr \<Rightarrow> address ptr \<Rightarrow> 'w"
  hs_on_inbound_session_ready :: "'w \<Rightarrow> address ptr \<Rightarrow> session ptr \<Rightarrow> 'w"
  hs_on_outbound_session_ready :: "'w \<Rightarrow> address ptr \<Rightarrow> session ptr \<Rightarrow> 'w"
  hs_on_one2one_msg_received :: "'w \<Rightarrow> address ptr \<Rightarrow> address ptr \<Rightarrow> address ptr \<Rightarrow> bdata \<Rightarrow> 'w"
  hs_on_other_device_msg_received :: "'w \<Rightarrow> address ptr \<Rightarrow> address ptr \<Rightarrow> address ptr \<Rightarrow> bdata \<Rightarrow> 'w"
  hs_on_group_created :: "'w \<Rightarrow> address ptr \<Rightarrow> address ptr \<Rightarrow> cstr \<Rightarrow> group_member ptr array \<Rightarrow> nat \<Rightarrow> 'w"
  hs_on_group_msg_received :: "'w \<Rightarrow> address ptr \<Rightarrow> address ptr \<Rightarrow> address ptr \<Rightarrow> bdata \<Rightarrow> 'w"
  hs_unload_session :: "'w \<Rightarrow> address ptr \<Rightarrow> address ptr \<Rightarrow> 'w"
  hs_unload_old_session :: "'w \<Rightarrow> address ptr \<Rightarrow> address ptr \<Rightarrow> int \<Rightarrow> 'w"
  hs_load_pending_plaintext_data :: "'w \<Rightarrow> address ptr \<Rightarrow> address ptr \<Rightarrow> (cstr \<times> bytes \<times> u32) list"
  hs_unload_pending_plaintext_data :: "'w \<Rightarrow> address ptr \<Rightarrow> address ptr \<Rightarrow> cstr \<Rightarrow> 'w"
  hs_store_pending_plaintext_data :: "'w \<Rightarrow> address ptr \<Rightarrow> address ptr \<Rightarrow> cstr \<Rightarrow> bytes \<Rightarrow> u32 \<Rightarrow> 'w"
  hs_send_one2one_msg :: "('w \<Rightarrow> address ptr \<Rightarrow> cstr \<Rightarrow> e2ee_msg \<Rightarrow> send_one2one_msg_response ptr \<times> 'w) ptr"
  hs_pack_plaintext :: "plaintext \<Rightarrow> bytes"
  hs_unpack_plaintext :: "bdata \<Rightarrow> plaintext ptr"
  hs_store_group_session :: "'w \<Rightarrow> group_session \<Rightarrow> 'w"
  hs_load_group_session_by_id :: "'w \<Rightarrow> address ptr \<Rightarrow> address ptr \<Rightarrow> cstr \<Rightarrow> group_session ptr"
  hs_load_group_session_by_address :: "'w \<Rightarrow> address ptr \<Rightarrow> address ptr \<Rightarrow> address ptr \<Rightarrow> group_session ptr"
  hs_load_group_sessions :: "'w \<Rightarrow> address ptr \<Rightarrow> address ptr \<Rightarrow> nat \<times> group_session ptr array"
  hs_load_outbound_sessions :: "'w \<Rightarrow> address ptr \<Rightarrow> cstr \<Rightarrow> cstr \<Rightarrow> nat \<times> session ptr array"
  hs_load_outbound_session :: "'w \<Rightarrow> address ptr \<Rightarrow> address ptr \<Rightarrow> session ptr"
  hs_get_pre_key_bundle ::
    "('w \<Rightarrow> address ptr \<Rightarrow> cstr \<Rightarrow> get_pre_key_bundle_request \<Rightarrow> get_pre_key_bundle_response ptr \<times> 'w) ptr"
  hs_send_group_msg :: "('w \<Rightarrow> address ptr \<Rightarrow> cstr \<Rightarrow> send_group_msg_request \<Rightarrow> send_group_msg_response ptr \<times> 'w) ptr"
  hs_unload_group_session_by_address :: "'w \<Rightarrow> address ptr \<Rightarrow> address ptr \<Rightarrow> 'w"
  hs_unload_group_session_by_id :: "'w \<Rightarrow> address ptr \<Rightarrow> cstr \<Rightarrow> 'w"

text \<open>
  The handlers of accounts and of the members of groups, beside those of sessions and messages.
  \<open>pg_unpack_proto_msg\<close> is generated protobuf code.
\<close>

record 'w plugin =
  pg_host :: "'w host"
  pg_store_account :: "'w \<Rightarrow> account \<Rightarrow> 'w"
  pg_load_accounts :: "'w \<Rightarrow> nat \<times> account ptr array"
  pg_update_signed_pre_key :: "'w \<Rightarrow> address ptr \<Rightarrow> signed_pre_key ptr \<Rightarrow> 'w"
  pg_remove_expired_signed_pre_key :: "'w \<Rightarrow> address ptr \<Rightarrow> 'w"
  pg_add_one_time_pre_key :: "'w \<Rightarrow> address ptr \<Rightarrow> one_time_pre_key ptr \<Rightarrow> 'w"
  pg_remove_one_time_pre_key :: "'w \<Rightarrow> address ptr \<Rightarrow> u32 \<Rightarrow> 'w"
  pg_load_group_addresses :: "'w \<Rightarrow> address ptr \<Rightarrow> address ptr \<Rightarrow> nat \<times> address ptr array"
  pg_load_pending_request_data :: "'w \<Rightarrow> address ptr \<Rightarrow> (cstr \<times> pending_request ptr) list"
  pg_unload_pending_request_data :: "'w \<Rightarrow> address ptr \<Rightarrow> cstr \<Rightarrow> 'w"
  pg_register_user :: "('w \<Rightarrow> register_user_request \<Rightarrow> register_user_response ptr \<times> 'w) ptr"
  pg_publish_spk :: "('w \<Rightarrow> address ptr \<Rightarrow> cstr \<Rightarrow> publish_spk_request \<Rightarrow> publish_spk_response ptr \<times> 'w) ptr"
  pg_supply_opks :: "('w \<Rightarrow> address ptr \<Rightarrow> cstr \<Rightarrow> supply_opks_request \<Rightarrow> supply_opks_response ptr \<times> 'w) ptr"
  pg_create_group :: "('w \<Rightarrow> address ptr \<Rightarrow> cstr \<Rightarrow> create_group_msg \<Rightarrow> create_group_response ptr \<times> 'w) ptr"
  pg_add_group_members ::
    "('w \<Rightarrow> address ptr \<Rightarrow> cstr \<Rightarrow> add_group_members_msg \<Rightarrow> add_group_members_response ptr \<times> 'w) ptr"
  pg_add_group_member_device ::
    "('w \<Rightarrow> address ptr \<Rightarrow> cstr \<Rightarrow> add_group_member_device_msg \<Rightarrow> add_group_member_device_response ptr \<times> 'w) ptr"
  pg_remove_group_members ::
    "('w \<Rightarrow> address ptr \<Rightarrow> cstr \<Rightarrow> remove_group_members_msg \<Rightarrow> remove_group_members_response ptr \<times> 'w) ptr"
  pg_leave_group :: "('w \<Rightarrow> address ptr \<Rightarrow> cstr \<Rightarrow> leave_group_msg \<Rightarrow> leave_group_response ptr \<times> 'w) ptr"
  pg_consume_proto_msg :: "('w \<Rightarrow> address ptr \<Rightarrow> cstr \<Rightarrow> cstr \<Rightarrow> consume_proto_msg_response ptr \<times> 'w) ptr"
  pg_on_user_registered :: "'w \<Rightarrow> account \<Rightarrow> 'w"
  pg_on_group_members_added :: "'w \<Rightarrow> address ptr \<Rightarrow> address ptr \<Rightarrow> cstr \<Rightarrow> group_member ptr array \<Rightarrow> nat \<Rightarrow>
    group_member ptr array \<Rightarrow> nat \<Rightarrow> 'w"
  pg_on_group_members_removed :: "'w \<Rightarrow> address ptr \<Rightarrow> address ptr \<Rightarrow> cstr \<Rightarrow> group_member ptr array \<Rightarrow> nat \<Rightarrow>
    group_member ptr array \<Rightarrow> nat \<Rightarrow> 'w"
  pg_gen_rand :: "seed \<Rightarrow> nat \<Rightarrow> bytes \<times> seed"
  pg_unpack_proto_msg :: "bytes \<Rightarrow> proto_msg ptr"

definition crypto_base64_encode :: "'w host \<Rightarrow> bytes \<Rightarrow> cstr" where
  "crypto_base64_encode H msg = Some (hs_base64 H msg)"

definition generate_uuid_str :: "'w host \<Rightarrow> 'w \<Rightarrow> cstr \<times> 'w" where
  "generate_uuid_str H w = (let (uuid, w) = hs_gen_uuid H w in (crypto_base64_encode H uuid, w))"

definition dispatch_proto_request ::
    "('w \<Rightarrow> address ptr \<Rightarrow> cstr \<Rightarrow> 'q \<Rightarrow> 'r ptr \<times> 'w) ptr \<Rightarrow> 'w \<Rightarrow> 'q \<Rightarrow> address ptr \<Rightarrow> cstr \<Rightarrow> 'r ptr \<times> 'w" where
  "dispatch_proto_request handler w request sender_address auth =
     (case handler of None \<Rightarrow> (None, w) | Some proto_fun \<Rightarrow> proto_fun w sender_address auth request)"

definition store_pending_request_internal :: "'w host \<Rightarrow> 'w \<Rightarrow> address ptr \<Rightarrow> pending_request \<Rightarrow> 'w" where
  "store_pending_request_internal H w user_address request =
     (let (pending_request_id, w) = generate_uuid_str H w
      in hs_store_pending_request_data H w user_address pending_request_id request)"

definition store_pending_common_plaintext_data_internal ::
    "'w host \<Rightarrow> 'w \<Rightarrow> address ptr \<Rightarrow> address ptr \<Rightarrow> bytes \<Rightarrow> u32 \<Rightarrow> 'w" where
  "store_pending_common_plaintext_data_internal H w from to common_plaintext_data notif_level =
     (let (pending_plaintext_id, w) = generate_uuid_str H w
      in hs_store_pending_plaintext_data H w from to pending_plaintext_id common_plaintext_data notif_level)"

definition e2ees_notify_inbound_session_invited :: "'w host \<Rightarrow> 'w \<Rightarrow> address ptr \<Rightarrow> address ptr \<Rightarrow> 'w" where
  "e2ees_notify_inbound_session_invited H w user_address from = hs_on_inbound_session_invited H w user_address from"

definition e2ees_notify_inbound_session_ready :: "'w host \<Rightarrow> 'w \<Rightarrow> address ptr \<Rightarrow> session ptr \<Rightarrow> 'w" where
  "e2ees_notify_inbound_session_ready H w user_address inbound_session =
     hs_on_inbound_session_ready H w user_address inbound_session"

definition e2ees_notify_outbound_session_ready :: "'w host \<Rightarrow> 'w \<Rightarrow> address ptr \<Rightarrow> session ptr \<Rightarrow> 'w" where
  "e2ees_notify_outbound_session_ready H w user_address outbound_session =
     hs_on_outbound_session_ready H w user_address outbound_session"

definition e2ees_notify_one2one_msg ::
    "'w host \<Rightarrow> 'w \<Rightarrow> address ptr \<Rightarrow> address ptr \<Rightarrow> address ptr \<Rightarrow> bdata \<Rightarrow> 'w" where
  "e2ees_notify_one2one_msg H w user_address from_address to_address plaintext =
     hs_on_one2one_msg_received H w user_address from_address to_address plaintext"

definition e2ees_notify_other_device_msg ::
    "'w host \<Rightarrow> 'w \<Rightarrow> address ptr \<Rightarrow> address ptr \<Rightarrow> address ptr \<Rightarrow> bdata \<Rightarrow> 'w" where
  "e2ees_notify_other_device_msg H w user_address from_address to_address plaintext =
     hs_on_other_device_msg_received H w user_address from_address to_address plaintext"

definition e2ees_notify_group_created ::
    "'w host \<Rightarrow> 'w \<Rightarrow> address ptr \<Rightarrow> address ptr \<Rightarrow> cstr \<Rightarrow> group_member ptr array \<Rightarrow> nat \<Rightarrow> 'w" where
  "e2ees_notify_group_created H w user_address group_address group_name group_members group_members_num =
     hs_on_group_created H w user_address group_address group_name group_members group_members_num"

definition e2ees_notify_group_msg ::
    "'w host \<Rightarrow> 'w \<Rightarrow> address ptr \<Rightarrow> address ptr \<Rightarrow> address ptr \<Rightarrow> bdata \<Rightarrow> 'w" where
  "e2ees_notify_group_msg H w user_address from_address group_address plaintext =
     hs_on_group_msg_received H w user_address from_address group_address plaintext"

definition e2ees_randombytes :: "'w plugin \<Rightarrow> seed \<Rightarrow> nat \<Rightarrow> bytes \<times> seed" where
  "e2ees_randombytes G s rand_data_len = pg_gen_rand G s rand_data_len"

definition e2ees_notify_user_registered :: "'w plugin \<Rightarrow> 'w \<Rightarrow> account \<Rightarrow> 'w" where
  "e2ees_notify_user_registered G w account = pg_on_user_registered G w account"

definition e2ees_notify_group_members_added ::
    "'w plugin \<Rightarrow> 'w \<Rightarrow> address ptr \<Rightarrow> address ptr \<Rightarrow> cstr \<Rightarrow> group_member ptr array \<Rightarrow> nat \<Rightarrow> group_member ptr array \<Rightarrow> nat \<Rightarrow> 'w" where
  "e2ees_notify_group_members_added G w user_address group_address group_name group_members group_members_num
       added_group_members added_group_members_num =
     pg_on_group_members_added G w user_address group_address group_name group_members group_members_num
       added_group_members added_group_members_num"

definition e2ees_notify_group_members_removed ::
    "'w plugin \<Rightarrow> 'w \<Rightarrow> address ptr \<Rightarrow> address ptr \<Rightarrow> cstr \<Rightarrow> group_member ptr array \<Rightarrow> nat \<Rightarrow> group_member ptr array \<Rightarrow> nat \<Rightarrow> 'w" where
  "e2ees_notify_group_members_removed G w user_address group_address group_name group_members group_members_num
       removed_group_members removed_group_members_num =
     pg_on_group_members_removed G w user_address group_address group_name group_members group_members_num
       removed_group_members removed_group_members_num"

end
