(* ===== verification/Session.thy ===== *)
theory Session
  imports Ratchet Account Host
begin

section \<open>Sessions\<close>

text \<open>
  \<open>src/session.c\<close>, \<open>src/session_pqc.c\<close> and the invitation handlers of \<open>src/session_manager.c\<close> and
  \<open>src/e2ees_client_internal.c\<close>: an inviter builds an outbound session from the other side's pre-key
  bundle and sends an invitation, the invited side builds the inbound session and answers, and the
  answer completes the outbound session.  The two long functions of \<open>session_pqc.c\<close> are split where
  they turn from checks and key agreement to the database and the server.  Log messages are left out;
  the addresses one of them reads are read.
\<close>

definition FINGERPRINT_SEED :: bytes where
  "FINGERPRINT_SEED = [0x46, 0x69, 0x6e, 0x67, 0x65, 0x72, 0x70, 0x72, 0x69, 0x6e, 0x74]"

definition init_session :: "gen_defaults \<Rightarrow> session" where
  "init_session D = \<lparr>se_version = gd_string D, se_e2ees_pack_id = 0, se_session_id = gd_string D,
     se_our_address = None, se_their_address = None, se_ratchet = None, se_associated_data = empty_bdata,
     se_temp_shared_secret = empty_bdata, se_fingerprint = empty_bdata, se_alice_base_key = None,
     se_bob_signed_pre_key_id = 0, se_bob_one_time_pre_key_id = 0, se_n_pre_shared_input_list = 0,
     se_pre_shared_input_list = None, se_f2f = False, se_responded = False, se_invite_t = 0\<rparr>"

definition init_invite_msg :: "gen_defaults \<Rightarrow> invite_msg" where
  "init_invite_msg D = \<lparr>im_version = gd_string D, im_e2ees_pack_id = 0, im_session_id = gd_string D, im_from = None,
     im_to = None, im_alice_identity_key = empty_bdata, im_alice_base_key = empty_bdata,
     im_n_pre_shared_input_list = 0, im_pre_shared_input_list = None, im_bob_signed_pre_key_id = 0,
     im_bob_one_time_pre_key_id = 0, im_invite_t = 0\<rparr>"

definition initialise_session :: "gen_defaults \<Rightarrow> u32 \<Rightarrow> address ptr \<Rightarrow> address ptr \<Rightarrow> session option" where
  "initialise_session D e2ees_pack_id our_address their_address =
     do { our \<leftarrow> copy_address_from_address D our_address;
          their \<leftarrow> copy_address_from_address D their_address;
          Some ((init_session D)\<lparr>se_e2ees_pack_id := e2ees_pack_id, se_our_address := Some our,
                                 se_their_address := Some their\<rparr>) }"

subsection \<open>Requests and responses\<close>

definition produce_invite_request :: "gen_defaults \<Rightarrow> session \<Rightarrow> (int \<times> invite_msg) option" where
  "produce_invite_request D outbound_session =
     do { version \<leftarrow> deref (se_version outbound_session);
          session_id \<leftarrow> deref (se_session_id outbound_session);
          from \<leftarrow> copy_address_from_address D (se_our_address outbound_session);
          to \<leftarrow> copy_address_from_address D (se_their_address outbound_session);
          let n = se_n_pre_shared_input_list outbound_session;
          inputs \<leftarrow> map_loop (copy_protobuf_from_protobuf init_protobuf) (se_pre_shared_input_list outbound_session) 0 n;
          base_key \<leftarrow> deref (se_alice_base_key outbound_session);
          alice_base_key \<leftarrow> copy_protobuf_from_protobuf empty_bdata (kpr_public_key base_key);
          Some (E2EES_RESULT_SUCC, (init_invite_msg D)
            \<lparr>im_version := Some version, im_e2ees_pack_id := se_e2ees_pack_id outbound_session,
             im_session_id := Some session_id, im_from := Some from, im_to := Some to,
             im_n_pre_shared_input_list := n, im_pre_shared_input_list := Some inputs,
             im_alice_base_key := alice_base_key,
             im_bob_signed_pre_key_id := se_bob_signed_pre_key_id outbound_session,
             im_bob_one_time_pre_key_id := se_bob_one_time_pre_key_id outbound_session,
             im_invite_t := se_invite_t outbound_session\<rparr>) }"

definition consume_invite_response :: "'w host \<Rightarrow> 'w \<Rightarrow> address ptr \<Rightarrow> invite_response ptr \<Rightarrow> (int \<times> 'w) option" where
  "consume_invite_response H w user_address response =
     (if \<not> (is_valid_address user_address \<and> is_valid_invite_response response) then Some (E2EES_RESULT_FAIL, w)
      else do {
        r \<leftarrow> deref response;
        if ir_code r \<noteq> RESPONSE_CODE_NOT_FOUND then
          (case hs_load_session H w (ir_session_id r) user_address of
             None \<Rightarrow> Some (E2EES_RESULT_FAIL, w)
           | Some inbound_session \<Rightarrow>
               Some (E2EES_RESULT_SUCC, hs_store_session H w (inbound_session\<lparr>se_invite_t := ir_invite_t r\<rparr>)))
        else Some (E2EES_RESULT_SUCC, w) })"

definition invite_internal ::
    "'w host \<Rightarrow> prims \<Rightarrow> gen_defaults \<Rightarrow> 'w \<Rightarrow> session \<Rightarrow> (int \<times> invite_response ptr \<times> 'w) option" where
  "invite_internal H P D w outbound_session =
     do { valid \<leftarrow> is_valid_uncompleted_session P (Some outbound_session);
          let auth = hs_load_auth H w (se_our_address outbound_session);
          if \<not> valid \<or> \<not> is_valid_string auth then Some (E2EES_RESULT_FAIL, None, w)
          else do {
            (ret, invite_request) \<leftarrow> produce_invite_request D outbound_session;
            let (response, w) = dispatch_proto_request (hs_invite H) w invite_request (se_our_address outbound_session) auth;
            (ret, w) \<leftarrow> consume_invite_response H w (se_our_address outbound_session) response;
            let w = (if ret = E2EES_RESULT_FAIL
                     then store_pending_request_internal H w (se_our_address outbound_session)
                            (PENDING_REQUEST_TYPE_INVITE invite_request)
                     else w);
            Some (ret, response, w) } }"

definition produce_accept_request :: "gen_defaults \<Rightarrow> accept_params \<Rightarrow> (int \<times> accept_msg) option" where
  "produce_accept_request D params =
     do { session_id \<leftarrow> deref (ap_session_id params);
          from \<leftarrow> copy_address_from_address D (ap_from params);
          to \<leftarrow> copy_address_from_address D (ap_to params);
          encaps_ciphertext \<leftarrow> (case ap_ciphertext_1 params of None \<Rightarrow> Some empty_bdata
             | Some c \<Rightarrow> copy_protobuf_from_protobuf empty_bdata c);
          key \<leftarrow> deref (ap_our_ratchet_key params);
          ratchet_key \<leftarrow> copy_protobuf_from_protobuf empty_bdata key;
          Some (E2EES_RESULT_SUCC, \<lparr>am_e2ees_pack_id = ap_e2ees_pack_id params, am_session_id = Some session_id,
             am_from = Some from, am_to = Some to, am_encaps_ciphertext = encaps_ciphertext,
             am_ratchet_key = ratchet_key\<rparr>) }"

definition consume_accept_response :: "address ptr \<Rightarrow> accept_response ptr \<Rightarrow> int" where
  "consume_accept_response user_address response =
     (if is_valid_address user_address \<and> is_valid_accept_response response then E2EES_RESULT_SUCC else E2EES_RESULT_FAIL)"

definition accept_internal ::
    "'w host \<Rightarrow> prims \<Rightarrow> gen_defaults \<Rightarrow> 'w \<Rightarrow> accept_params \<Rightarrow> (int \<times> accept_response ptr \<times> 'w) option" where
  "accept_internal H P D w params =
     (let auth = hs_load_auth H w (ap_from params) in
      if \<not> is_valid_accept_inputs P params \<or> \<not> is_valid_string auth then Some (E2EES_RESULT_FAIL, None, w)
      else do {
        (ret, accept_request) \<leftarrow> produce_accept_request D params;
        let (response, w) = dispatch_proto_request (hs_accept H) w accept_request (ap_from params) auth;
        let ret = consume_accept_response (ap_from params) response;
        let w = (if ret = E2EES_RESULT_FAIL
                 then store_pending_request_internal H w (ap_from params) (PENDING_REQUEST_TYPE_ACCEPT accept_request)
                 else w);
        Some (ret, response, w) })"

subsection \<open>The outbound session\<close>

text \<open>The fingerprint of the public keys of both sides.\<close>

definition session_fingerprint :: "cipher_suite \<Rightarrow> bytes \<Rightarrow> bdata option" where
  "session_fingerprint cs hash_input =
     do { hf \<leftarrow> hf_param cs;
          (_, out) \<leftarrow> call_hkdf cs hash_input (replicate (hfp_hf_len hf) 0) FINGERPRINT_SEED (2 * hfp_hf_len hf);
          derived_secrets \<leftarrow> fill (2 * hfp_hf_len hf) out;
          copy_protobuf_from_array derived_secrets (2 * hfp_hf_len hf) }"

text \<open>
  The checks of \<open>pqc_new_outbound_session_v2\<close>: the lengths of the keys in the bundle and of the
  signature, then the signature itself.
\<close>

definition outbound_checks ::
    "cipher_suite \<Rightarrow> identity_key_public \<Rightarrow> signed_pre_key_public \<Rightarrow> one_time_pre_key_public ptr \<Rightarrow> int option" where
  "outbound_checks cs their_ik their_spk their_opk =
     do { kem \<leftarrow> kem_param cs; ds \<leftarrow> ds_param cs;
          if pb_len (ikp_asym_public_key their_ik) \<noteq> kp_asym_pub_key_len kem \<or>
             pb_len (ikp_sign_public_key their_ik) \<noteq> dsp_sign_pub_key_len ds \<or>
             pb_len (spkp_public_key their_spk) \<noteq> kp_asym_pub_key_len kem \<or>
             pb_len (spkp_signature their_spk) \<noteq> dsp_sig_len ds \<or>
             (case their_opk of None \<Rightarrow> False | Some o' \<Rightarrow> pb_len (opkp_public_key o') \<noteq> kp_asym_pub_key_len kem)
          then Some E2EES_RESULT_FAIL
          else do { sig \<leftarrow> read_pb (spkp_signature their_spk);
                    msg \<leftarrow> read_bytes (pb_data (spkp_public_key their_spk)) (kp_asym_pub_key_len kem);
                    call_verify cs sig msg (pb_data (ikp_sign_public_key their_ik)) } }"

text \<open>The session the inviter builds; \<open>session_id\<close> is the fresh id.\<close>

definition outbound_session ::
    "gen_defaults \<Rightarrow> cipher_suite \<Rightarrow> u32 \<Rightarrow> cstr \<Rightarrow> address ptr \<Rightarrow> address ptr \<Rightarrow> key_pair \<Rightarrow> identity_key_public \<Rightarrow>
     signed_pre_key_public \<Rightarrow> one_time_pre_key_public ptr \<Rightarrow> seed \<Rightarrow> (session \<times> seed) option" where
  "outbound_session D cs e2ees_pack_id session_id from to my_identity_key_pair their_ik their_spk their_opk s =
     do { session \<leftarrow> initialise_session D e2ees_pack_id from to;
          kem \<leftarrow> kem_param cs;
          let asym_pub_key_len = kp_asym_pub_key_len kem;
          their_ratchet_key \<leftarrow> copy_protobuf_from_protobuf empty_bdata (spkp_public_key their_spk);
          my_ik \<leftarrow> read_bytes (pb_data (kpr_public_key my_identity_key_pair)) asym_pub_key_len;
          ik \<leftarrow> read_bytes (pb_data (ikp_asym_public_key their_ik)) asym_pub_key_len;
          spk \<leftarrow> read_bytes (pb_data (spkp_public_key their_spk)) asym_pub_key_len;
          opk \<leftarrow> (case their_opk of None \<Rightarrow> Some []
                  | Some o' \<Rightarrow> read_bytes (pb_data (opkp_public_key o')) asym_pub_key_len);
          fingerprint \<leftarrow> session_fingerprint cs (my_ik @ ik @ spk @ opk);
          (_, ss2, ciphertext_2, s) \<leftarrow> call_encaps cs s (ikp_asym_public_key their_ik);
          ss2 \<leftarrow> fill (kp_shared_secret_len kem) ss2;
          (_, ss3, ciphertext_3, s) \<leftarrow> call_encaps cs s (spkp_public_key their_spk);
          ss3 \<leftarrow> fill (kp_shared_secret_len kem) ss3;
          input_2 \<leftarrow> copy_protobuf_from_protobuf init_protobuf ciphertext_2;
          input_3 \<leftarrow> copy_protobuf_from_protobuf init_protobuf ciphertext_3;
          (secret, inputs, s) \<leftarrow>
            (case their_opk of None \<Rightarrow> Some (ss2 @ ss3, [input_2, input_3], s)
             | Some o' \<Rightarrow>
                 do { (_, ss4, ciphertext_4, s) \<leftarrow> call_encaps cs s (opkp_public_key o');
                      ss4 \<leftarrow> fill (kp_shared_secret_len kem) ss4;
                      input_4 \<leftarrow> copy_protobuf_from_protobuf init_protobuf ciphertext_4;
                      Some (ss2 @ ss3 @ ss4, [input_2, input_3, input_4], s) });
          (_, pub, priv, s) \<leftarrow> call_asym_key_gen cs s;
          Some (session\<lparr>se_version := Some E2EES_PROTOCOL_VERSION, se_session_id := session_id, se_f2f := False,
             se_responded := False, se_bob_signed_pre_key_id := spkp_spk_id their_spk,
             se_ratchet := Some (init_ratchet
               \<lparr>rt_sender_chain := Some (init_sender_chain\<lparr>sc_their_ratchet_public_key := their_ratchet_key\<rparr>)\<rparr>),
             se_bob_one_time_pre_key_id :=
               (case their_opk of None \<Rightarrow> se_bob_one_time_pre_key_id session | Some o' \<Rightarrow> opkp_opk_id o'),
             se_associated_data := buf (my_ik @ ik), se_fingerprint := fingerprint,
             se_temp_shared_secret := buf (replicate (kp_shared_secret_len kem) 0 @ secret),
             se_n_pre_shared_input_list := length inputs, se_pre_shared_input_list := Some inputs,
             se_alice_base_key := Some \<lparr>kpr_private_key = priv, kpr_public_key = pub\<rparr>\<rparr>, s) }"

definition pqc_new_outbound_session_v2 ::
    "'w host \<Rightarrow> prims \<Rightarrow> gen_defaults \<Rightarrow> 'w \<Rightarrow> seed \<Rightarrow> address ptr \<Rightarrow> pre_key_bundle ptr \<Rightarrow>
     (int \<times> invite_response ptr \<times> 'w \<times> seed) option" where
  "pqc_new_outbound_session_v2 H P D w s from their_pre_key_bundle =
     (if \<not> is_valid_address from then Some (E2EES_RESULT_FAIL, None, w, s)
      else do {
        let local_account = hs_load_account_by_address H w from;
        valid \<leftarrow> is_valid_registered_account P local_account;
        if \<not> valid \<or> \<not> is_valid_pre_key_bundle their_pre_key_bundle then Some (E2EES_RESULT_FAIL, None, w, s)
        else do {
          account \<leftarrow> deref local_account; bundle \<leftarrow> deref their_pre_key_bundle;
          identity_key \<leftarrow> deref (acc_identity_key account);
          let cs = suite_of P (pkb_e2ees_pack_id bundle);
          if \<not> is_valid_cipher_suite (Some cs) then Some (E2EES_RESULT_FAIL, None, w, s)
          else do {
            their_ik \<leftarrow> deref (pkb_identity_key_public bundle);
            their_spk \<leftarrow> deref (pkb_signed_pre_key_public bundle);
            let their_opk = pkb_one_time_pre_key_public bundle;
            ret \<leftarrow> outbound_checks cs their_ik their_spk their_opk;
            if ret \<noteq> E2EES_RESULT_SUCC then Some (ret, None, w, s)
            else do {
              my_identity_key_pair \<leftarrow> deref (ik_asym_key_pair identity_key);
              let (session_id, w) = generate_uuid_str H w;
              (session, s) \<leftarrow> outbound_session D cs (pkb_e2ees_pack_id bundle) session_id from
                (pkb_user_address bundle) my_identity_key_pair their_ik their_spk their_opk s;
              our \<leftarrow> deref (se_our_address session); _ \<leftarrow> deref (ad_user our);
              their \<leftarrow> deref (se_their_address session); _ \<leftarrow> deref (ad_user their);
              let (invite_t, w) = hs_gen_ts H w;
              let session = session\<lparr>se_invite_t := invite_t\<rparr>;
              let w = hs_store_session H w session;
              (ret, response, w) \<leftarrow> invite_internal H P D w session;
              Some (ret, response, w, s) } } } })"

subsection \<open>The inbound session\<close>

text \<open>
  The pre-keys an invitation names: the signed pre-key of the account or an older one from the
  database, and the one-time pre-key when its id is not zero.  \<open>None\<close> inside is the failure code.
\<close>

definition inbound_keys ::
    "'w host \<Rightarrow> 'w \<Rightarrow> account \<Rightarrow> invite_msg \<Rightarrow> (signed_pre_key \<times> one_time_pre_key ptr) option option" where
  "inbound_keys H w account msg =
     do { our_spk \<leftarrow> deref (acc_signed_pre_key account);
          let old_spk_data = (if spk_id our_spk \<noteq> im_bob_signed_pre_key_id msg
            then hs_load_signed_pre_key H w (acc_address account) (im_bob_signed_pre_key_id msg) else Some our_spk);
          if spk_id our_spk \<noteq> im_bob_signed_pre_key_id msg \<and> \<not> is_valid_signed_pre_key old_spk_data then Some None
          else do {
            spk \<leftarrow> deref old_spk_data;
            if im_bob_one_time_pre_key_id msg \<noteq> 0 then
              do { opk \<leftarrow> lookup_one_time_pre_key (Some account) (im_bob_one_time_pre_key_id msg);
                   if \<not> is_valid_one_time_pre_key opk then Some None else Some (Some (spk, opk)) }
            else Some (Some (spk, None)) } }"

text \<open>
  The key agreement of the invited side: the session and the ciphertext for the answer.  The third
  key of the fingerprint is that of the account's current signed pre-key, also when the invitation
  names an older one.
\<close>

definition inbound_session ::
    "cipher_suite \<Rightarrow> session \<Rightarrow> invite_msg \<Rightarrow> key_pair \<Rightarrow> key_pair \<Rightarrow> key_pair \<Rightarrow> key_pair ptr \<Rightarrow> seed \<Rightarrow>
     (int \<times> session \<times> ratchet ptr \<times> bdata \<times> seed) option" where
  "inbound_session cs session msg bob_identity_key current_spk bob_signed_pre_key bob_one_time_pre_key s =
     do { kem \<leftarrow> kem_param cs;
          let asym_pub_key_len = kp_asym_pub_key_len kem;
          alice \<leftarrow> read_bytes (pb_data (im_alice_identity_key msg)) asym_pub_key_len;
          ik \<leftarrow> read_bytes (pb_data (kpr_public_key bob_identity_key)) asym_pub_key_len;
          spk \<leftarrow> read_bytes (pb_data (kpr_public_key current_spk)) asym_pub_key_len;
          opk \<leftarrow> (case bob_one_time_pre_key of None \<Rightarrow> Some []
                  | Some k \<Rightarrow> read_bytes (pb_data (kpr_public_key k)) asym_pub_key_len);
          fingerprint \<leftarrow> session_fingerprint cs (alice @ ik @ spk @ opk);
          (_, ss1, ciphertext_1, s) \<leftarrow> call_encaps cs s (im_alice_identity_key msg);
          ss1 \<leftarrow> fill (kp_shared_secret_len kem) ss1;
          input_2 \<leftarrow> array_get (im_pre_shared_input_list msg) 0;
          (_, ss2) \<leftarrow> call_decaps cs (kpr_private_key bob_identity_key) input_2;
          ss2 \<leftarrow> fill (kp_shared_secret_len kem) ss2;
          input_3 \<leftarrow> array_get (im_pre_shared_input_list msg) 1;
          (_, ss3) \<leftarrow> call_decaps cs (kpr_private_key bob_signed_pre_key) input_3;
          ss3 \<leftarrow> fill (kp_shared_secret_len kem) ss3;
          ss4 \<leftarrow> (case bob_one_time_pre_key of None \<Rightarrow> Some []
                  | Some k \<Rightarrow> do { input_4 \<leftarrow> array_get (im_pre_shared_input_list msg) 2;
                                   (_, ss4) \<leftarrow> call_decaps cs (kpr_private_key k) input_4;
                                   fill (kp_shared_secret_len kem) ss4 });
          (ret, ratchet, s) \<leftarrow> initialise_as_bob (Some cs) (Some (ss1 @ ss2 @ ss3 @ ss4)) (Some bob_signed_pre_key)
            (Some (im_alice_base_key msg)) s;
          Some (ret, session\<lparr>se_associated_data := buf (alice @ ik), se_fingerprint := fingerprint,
                             se_responded := True, se_invite_t := im_invite_t msg\<rparr>, ratchet, ciphertext_1, s) }"

text \<open>The account is returned because a used one-time pre-key is marked in it.\<close>

definition pqc_new_inbound_session ::
    "'w host \<Rightarrow> prims \<Rightarrow> gen_defaults \<Rightarrow> 'w \<Rightarrow> seed \<Rightarrow> account ptr \<Rightarrow> invite_msg ptr \<Rightarrow>
     (int \<times> session ptr \<times> account ptr \<times> 'w \<times> seed) option" where
  "pqc_new_inbound_session H P D w s local_account invite_msg =
     do { valid_account \<leftarrow> is_valid_registered_account P local_account;
          valid_msg \<leftarrow> is_valid_invite_msg P invite_msg;
          if \<not> valid_account \<or> \<not> valid_msg then Some (E2EES_RESULT_FAIL, None, local_account, w, s)
          else do {
            account \<leftarrow> deref local_account; msg \<leftarrow> deref invite_msg;
            let cs = suite_of P (im_e2ees_pack_id msg);
            kem \<leftarrow> kem_param cs;
            keys \<leftarrow> inbound_keys H w account msg;
            (case keys of None \<Rightarrow> Some (E2EES_RESULT_FAIL, None, local_account, w, s)
             | Some (spk, opk) \<Rightarrow> do {
                 session \<leftarrow> initialise_session D (im_e2ees_pack_id msg) (im_to msg) (im_from msg);
                 version \<leftarrow> deref (im_version msg); session_id \<leftarrow> deref (im_session_id msg);
                 our_ik \<leftarrow> deref (acc_identity_key account); our_spk \<leftarrow> deref (acc_signed_pre_key account);
                 bob_identity_key \<leftarrow> deref (ik_asym_key_pair our_ik);
                 bob_signed_pre_key \<leftarrow> deref (spk_key_pair spk);
                 (bob_one_time_pre_key, used_id, account, w) \<leftarrow>
                   (case opk of None \<Rightarrow> Some (None, se_bob_one_time_pre_key_id session, account, w)
                    | Some k \<Rightarrow> do { (_, account) \<leftarrow> mark_opk_as_used (Some account) (opk_id k);
                                      Some (opk_key_pair k, opk_id k, account,
                                            hs_update_one_time_pre_key H w (acc_address account) (opk_id k)) });
                 let session = session\<lparr>se_version := Some version, se_session_id := Some session_id,
                   se_bob_signed_pre_key_id := im_bob_signed_pre_key_id msg, se_bob_one_time_pre_key_id := used_id\<rparr>;
                 if pb_len (kpr_private_key bob_identity_key) \<noteq> kp_asym_priv_key_len kem \<or>
                    pb_len (kpr_private_key bob_signed_pre_key) \<noteq> kp_asym_priv_key_len kem \<or>
                    (case bob_one_time_pre_key of None \<Rightarrow> False
                     | Some k \<Rightarrow> pb_len (kpr_private_key k) \<noteq> kp_asym_priv_key_len kem)
                 then Some (E2EES_RESULT_FAIL, None, Some account, w, s)
                 else do {
                   current_spk \<leftarrow> deref (spk_key_pair our_spk);
                   (ret, session, ratchet, ciphertext_1, s) \<leftarrow> inbound_session cs session msg bob_identity_key
                     current_spk bob_signed_pre_key bob_one_time_pre_key s;
                   if ret \<noteq> E2EES_RESULT_SUCC then Some (ret, None, Some account, w, s)
                   else do {
                     let session = session\<lparr>se_ratchet := ratchet\<rparr>;
                     let w = hs_store_session H w session;
                     r \<leftarrow> deref ratchet; sender_chain \<leftarrow> deref (rt_sender_chain r);
                     (ret, _, w) \<leftarrow> accept_internal H P D w
                       \<lparr>ap_e2ees_pack_id = se_e2ees_pack_id session, ap_from = se_our_address session,
                        ap_to = se_their_address session, ap_session_id = se_session_id session,
                        ap_ciphertext_1 = Some ciphertext_1,
                        ap_our_ratchet_key = Some (sc_our_ratchet_public_key sender_chain)\<rparr>;
                     Some (ret, if ret = E2EES_RESULT_SUCC then Some session else None, Some account, w, s) } } }) } }"

subsection \<open>Completion\<close>

definition pqc_complete_outbound_session ::
    "'w host \<Rightarrow> prims \<Rightarrow> cache \<Rightarrow> 'w \<Rightarrow> seed \<Rightarrow> accept_msg ptr \<Rightarrow> (int \<times> session ptr \<times> 'w \<times> seed) option" where
  "pqc_complete_outbound_session H P cache w s accept_msg =
     (if \<not> is_valid_accept_msg P accept_msg then Some (E2EES_RESULT_FAIL, None, w, s)
      else do {
        msg \<leftarrow> deref accept_msg;
        let stored = hs_load_session H w (am_session_id msg) (am_to msg);
        valid \<leftarrow> is_valid_uncompleted_session P stored;
        if \<not> valid then Some (E2EES_RESULT_FAIL, None, w, s)
        else do {
          session \<leftarrow> deref stored;
          cached \<leftarrow> load_identity_key_from_cache cache (se_our_address session);
          found \<leftarrow> (case cached of Some k \<Rightarrow> Some (Some k)
            | None \<Rightarrow> do { let account = hs_load_account_by_address H w (se_our_address session);
                            valid \<leftarrow> is_valid_registered_account P account;
                            if valid then do { a \<leftarrow> deref account; k \<leftarrow> copy_ik_from_ik (acc_identity_key a); Some (Some k) }
                            else Some None });
          (case found of None \<Rightarrow> Some (E2EES_RESULT_FAIL, None, w, s)
           | Some identity_key \<Rightarrow> do {
               let cs = suite_of P (se_e2ees_pack_id session);
               old \<leftarrow> deref (se_ratchet session); sender_chain \<leftarrow> deref (rt_sender_chain old);
               their_ratchet_key \<leftarrow> copy_protobuf_from_protobuf empty_bdata (sc_their_ratchet_public_key sender_chain);
               asym_key_pair \<leftarrow> deref (ik_asym_key_pair identity_key);
               (_, ss1) \<leftarrow> call_decaps cs (kpr_private_key asym_key_pair) (am_encaps_ciphertext msg);
               temp \<leftarrow> deref (pb_data (se_temp_shared_secret session));
               temp \<leftarrow> write_buf temp ss1;
               secret \<leftarrow> read_bytes (Some temp) (pb_len (se_temp_shared_secret session));
               (ret, ratchet, s) \<leftarrow> initialise_as_alice (Some cs) (Some secret) (se_alice_base_key session)
                 (Some their_ratchet_key) (Some (am_ratchet_key msg)) s;
               let session = session\<lparr>se_ratchet := ratchet, se_responded := True,
                 se_temp_shared_secret := (se_temp_shared_secret session)\<lparr>pb_data := Some temp\<rparr>\<rparr>;
               if ret = E2EES_RESULT_SUCC then Some (ret, Some session, hs_store_session H w session, s)
               else Some (ret, None, w, s) }) } })"

subsection \<open>Received invitations\<close>

text \<open>
  \<open>consume_invite_msg\<close> through the session suite of the post-quantum packs; the members of the other
  suite are NULL.  It returns true in every case.
\<close>

definition consume_invite_msg ::
    "'w host \<Rightarrow> prims \<Rightarrow> gen_defaults \<Rightarrow> 'w \<Rightarrow> seed \<Rightarrow> address ptr \<Rightarrow> invite_msg ptr \<Rightarrow> (bool \<times> 'w \<times> seed) option" where
  "consume_invite_msg H P D w s receiver_address invite_msg =
     (if \<not> is_valid_address receiver_address then Some (True, w, s)
      else do {
        valid \<leftarrow> is_valid_invite_msg P invite_msg;
        if \<not> valid then Some (True, w, s)
        else do {
          msg \<leftarrow> deref invite_msg;
          same \<leftarrow> compare_address receiver_address (im_to msg);
          if \<not> same then Some (True, w, s)
          else if hs_load_session H w (im_session_id msg) receiver_address \<noteq> None then Some (True, w, s)
          else do {
            let w = e2ees_notify_inbound_session_invited H w receiver_address (im_from msg);
            let account = hs_load_account_by_address H w (im_to msg);
            valid \<leftarrow> is_valid_registered_account P account;
            if \<not> valid then Some (True, w, s)
            else do {
              (ret, inbound_session, _, w, s) \<leftarrow>
                (if pk_session_suite (get_e2ees_pack P (im_e2ees_pack_id msg)) = E2EES_SESSION_PQC
                 then pqc_new_inbound_session H P D w s account invite_msg else None);
              Some (True, if ret = E2EES_RESULT_SUCC
                          then e2ees_notify_inbound_session_ready H w receiver_address inbound_session else w, s) } } } })"

end
