(* ===== verification/Session_Laws.thy ===== *)
theory Session_Laws
  imports Session Ratchet_Props
begin

section \<open>Laws of the session protocol\<close>

text \<open>
  The key agreement over an accepted suite: what the inviter proposes, what the invited side derives
  from it, and that the answer makes both sides hold the same secret.
\<close>

subsection \<open>Encapsulations to an optional key\<close>

definition enc_opt :: "prims \<Rightarrow> kem_alg \<Rightarrow> seed \<Rightarrow> bytes option \<Rightarrow> bytes \<times> bytes list \<times> seed" where
  "enc_opt P a s pk = (case pk of None \<Rightarrow> ([], [], s) | Some pk \<Rightarrow> (case std_enc P a s pk of (ss, ct, s') \<Rightarrow> (ss, [ct], s')))"

definition fingerprint_of :: "prims \<Rightarrow> bytes \<Rightarrow> bytes" where
  "fingerprint_of P keys = std_kdf P keys (replicate 32 0) FINGERPRINT_SEED 64"

text \<open>
  What an outbound session proposes: the keys of both sides, the secrets of its encapsulations and
  their ciphertexts, the base key.
\<close>

record proposal =
  pp_session_id :: cstr
  pp_from :: address
  pp_to :: address
  pp_alice :: bytes
  pp_bob :: bytes
  pp_spk :: bytes
  pp_spk_id :: u32
  pp_opk :: "(u32 \<times> bytes) option"
  pp_secret :: bytes
  pp_inputs :: "bytes list"
  pp_base :: bytes
  pp_base_priv :: bytes

definition proposes :: "prims \<Rightarrow> kem_alg \<Rightarrow> u32 \<Rightarrow> proposal \<Rightarrow> session \<Rightarrow> bool" where
  "proposes P a raw p S \<longleftrightarrow>
     se_version S = Some E2EES_PROTOCOL_VERSION \<and> se_e2ees_pack_id S = raw \<and> se_session_id S = pp_session_id p \<and>
     se_our_address S = Some (pp_from p) \<and> se_their_address S = Some (pp_to p) \<and>
     se_ratchet S = Some (init_ratchet
       \<lparr>rt_sender_chain := Some (init_sender_chain\<lparr>sc_their_ratchet_public_key := buf (pp_spk p)\<rparr>)\<rparr>) \<and>
     se_associated_data S = buf (pp_alice p @ pp_bob p) \<and>
     se_fingerprint S = buf (fingerprint_of P (pp_alice p @ pp_bob p @ pp_spk p @
       (case pp_opk p of None \<Rightarrow> [] | Some (i, pk) \<Rightarrow> pk))) \<and>
     se_temp_shared_secret S = buf (replicate (pr_kem_ss_bytes P a) 0 @ pp_secret p) \<and>
     se_n_pre_shared_input_list S = length (pp_inputs p) \<and>
     se_pre_shared_input_list S = Some (map buf (pp_inputs p)) \<and>
     se_alice_base_key S = Some (key_pair_of (pp_base_priv p) (pp_base p)) \<and>
     se_bob_signed_pre_key_id S = pp_spk_id p \<and>
     se_bob_one_time_pre_key_id S = (case pp_opk p of None \<Rightarrow> 0 | Some (i, pk) \<Rightarrow> i)"

lemma fingerprint_ok:
  assumes P: "prims_ok P" and raw: "is_valid_e2ees_pack_id P raw" and a: "pack_kem raw = Some a"
  shows "session_fingerprint (suite_of P raw) keys = Some (buf (fingerprint_of P keys))" "fingerprint_of P keys \<noteq> []"
proof -
  note suite = suite_of_laws [OF P raw a]
  have len: "length (fingerprint_of P keys) = 64"
    unfolding fingerprint_of_def by (rule trans [OF e2ee_suite.kdf_length [OF suite]]) simp_all
  then show "fingerprint_of P keys \<noteq> []" by auto
  have "call_hkdf (suite_of P raw) keys (replicate 32 0) FINGERPRINT_SEED 64 = Some (0, fingerprint_of P keys)"
    unfolding fingerprint_of_def by (rule e2ee_suite.kdf_call [OF suite]) simp
  then show "session_fingerprint (suite_of P raw) keys = Some (buf (fingerprint_of P keys))"
    using len by (simp add: session_fingerprint_def e2ee_suite.hf_param [OF suite])
qed

lemma asym_gen_pair:
  assumes P: "prims_ok P" and raw: "is_valid_e2ees_pack_id P raw" and a: "pack_kem raw = Some a"
  obtains pk sk s' where "call_asym_key_gen (suite_of P raw) s = Some (0, buf pk, buf sk, s')" "std_pair P a sk pk"
proof -
  obtain pub priv s' where gen: "call_asym_key_gen (suite_of P raw) s = Some (0, pub, priv, s')"
      "generated (pr_kem_pk_bytes P a) (pr_kem_sk_bytes P a) \<lparr>kpr_private_key = priv, kpr_public_key = pub\<rparr>"
    by (rule asym_key_gen_ok [OF P raw a])
  then obtain pk sk where "pub = buf pk" "priv = buf sk" by (auto simp: generated_def)
  then show ?thesis using gen(1) key_gen_pair [OF raw a] by (intro that) auto
qed

lemma outbound_session_ok:
  assumes P: "prims_ok P" and raw: "is_valid_e2ees_pack_id P raw" and a: "pack_kem raw = Some a"
    and adr: "wf_address D from" "wf_address D to"
    and len: "length pka = pr_kem_pk_bytes P a" "length pkb = pr_kem_pk_bytes P a" "length pks = pr_kem_pk_bytes P a"
      "case opk of None \<Rightarrow> True | Some (i, pk) \<Rightarrow> length pk = pr_kem_pk_bytes P a"
    and enc: "std_enc P a s pkb = (ss2, ct2, s1)" "std_enc P a s1 pks = (ss3, ct3, s2)"
      "enc_opt P a s2 (map_option snd opk) = (ss4, cts4, s3)"
    and gen: "call_asym_key_gen (suite_of P raw) s3 = Some (r, buf pke, buf ske, s4)"
  shows "\<exists>S. outbound_session D (suite_of P raw) raw sid (Some from) (Some to) (key_pair_of ska pka)
       \<lparr>ikp_asym_public_key = buf pkb, ikp_sign_public_key = sign\<rparr>
       \<lparr>spkp_spk_id = i, spkp_public_key = buf pks, spkp_signature = sig\<rparr>
       (map_option (\<lambda>(i, pk). \<lparr>opkp_opk_id = i, opkp_public_key = buf pk\<rparr>) opk) s = Some (S, s4) \<and>
     proposes P a raw \<lparr>pp_session_id = sid, pp_from = from, pp_to = to, pp_alice = pka, pp_bob = pkb, pp_spk = pks,
       pp_spk_id = i, pp_opk = opk, pp_secret = ss2 @ ss3 @ ss4, pp_inputs = [ct2, ct3] @ cts4, pp_base = pke,
       pp_base_priv = ske\<rparr> S"
proof -
  note suite = suite_of_laws [OF P raw a]
  note e2 = e2ee_suite.enc_call [OF suite len(2) enc(1)] and e3 = e2ee_suite.enc_call [OF suite len(3) enc(2)]
  have ne: "0 < pr_kem_ct_bytes P a" "0 < pr_kem_pk_bytes P a" using e2ee_suite.sizes [OF suite] by simp_all
  then have nonempty: "ct2 \<noteq> []" "ct3 \<noteq> []" "pks \<noteq> []" using e2 e3 len(3) by auto
  note simps = outbound_session_def initialise_session_def address_copy.copy_id [OF adr(1)] address_copy.copy_id [OF adr(2)]
    e2ee_suite.kem_param [OF suite] fingerprint_ok [OF P raw a] init_protobuf_def key_pair_of_def proposes_def
    init_session_def
  show ?thesis
  proof (cases opk)
    case None
    then have "ss4 = []" "cts4 = []" "s3 = s2" using enc(3) by (simp_all add: enc_opt_def)
    then show ?thesis using None e2 e3 len nonempty gen by (simp add: simps)
  next
    case (Some o')
    then obtain j pko where o: "opk = Some (j, pko)" by (cases o') auto
    then obtain ct4 where cts4: "cts4 = [ct4]" "std_enc P a s2 pko = (ss4, ct4, s3)"
      using enc(3) by (auto simp: enc_opt_def split: prod.splits)
    have pko: "length pko = pr_kem_pk_bytes P a" using len(4) o by simp
    note e4 = e2ee_suite.enc_call [OF suite pko cts4(2)]
    then have "ct4 \<noteq> []" using ne by auto
    then show ?thesis using o cts4(1) pko e2 e3 e4 len nonempty gen by (simp add: simps)
  qed
qed

subsection \<open>The invitation and the answer\<close>

text \<open>
  The invitation as the invited side receives it: what the inviter sends, with the inviter's identity
  key, which the server fills in.
\<close>

definition invitation :: "gen_defaults \<Rightarrow> u32 \<Rightarrow> int \<Rightarrow> proposal \<Rightarrow> invite_msg" where
  "invitation D raw t p = (init_invite_msg D)
     \<lparr>im_version := Some E2EES_PROTOCOL_VERSION, im_e2ees_pack_id := raw, im_session_id := pp_session_id p,
      im_from := Some (pp_from p), im_to := Some (pp_to p), im_n_pre_shared_input_list := length (pp_inputs p),
      im_pre_shared_input_list := Some (map buf (pp_inputs p)), im_alice_base_key := buf (pp_base p),
      im_bob_signed_pre_key_id := pp_spk_id p,
      im_bob_one_time_pre_key_id := (case pp_opk p of None \<Rightarrow> 0 | Some (i, pk) \<Rightarrow> i), im_invite_t := t\<rparr>"

lemma map_loop_bufs:
  assumes "\<forall>x\<in>set xs. x \<noteq> []"
  shows "map_loop (copy_protobuf_from_protobuf d) (Some (map buf xs)) 0 (length xs) = Some (map buf xs)"
proof -
  have "map_loop (copy_protobuf_from_protobuf d) (Some (map buf xs)) 0 (length xs) = Some (take (length xs) (map buf xs))"
    using assms by (intro map_loop_id) auto
  then show ?thesis by simp
qed

lemma invite_request_ok:
  assumes S: "proposes P a raw p S" and adr: "wf_address D (pp_from p)" "wf_address D (pp_to p)"
    and ne: "\<forall>x\<in>set (pp_inputs p). x \<noteq> []" "pp_base p \<noteq> []" and sid: "pp_session_id p \<noteq> None"
  shows "produce_invite_request D S = Some (0, invitation D raw (se_invite_t S) p)"
  using assms
  by (auto simp: produce_invite_request_def proposes_def invitation_def key_pair_of_def map_loop_bufs
      address_copy.copy_id)

lemma surjective_pairing3: "p = (fst p, fst (snd p), snd (snd p))"
  by simp

lemma inbound_session_ok:
  assumes P: "prims_ok P" and raw: "is_valid_e2ees_pack_id P raw" and a: "pack_kem raw = Some a"
    and len: "length pka = pr_kem_pk_bytes P a" "length pkc = pr_kem_pk_bytes P a"
    and pair: "std_pair P a skb pkb" "std_pair P a sks pks" "std_pair P a ske pke"
      "case opk of None \<Rightarrow> True | Some (i, pk) \<Rightarrow> std_pair P a sko pk"
    and enc: "std_enc P a s pkb = (ss2, ct2, s1)" "std_enc P a s1 pks = (ss3, ct3, s2)"
      "enc_opt P a s2 (map_option snd opk) = (ss4, cts4, s3)"
    and answer: "std_enc P a t pka = (ss1, ct1, t1)" "std_enc P a t1 pke = (ssr, ctr, t2)"
    and m: "im_alice_identity_key m = buf pka" "im_alice_base_key m = buf pke"
      "im_pre_shared_input_list m = Some (map buf ([ct2, ct3] @ cts4))"
  shows "inbound_session (suite_of P raw) T m (key_pair_of skb pkb) (key_pair_of skc pkc) (key_pair_of sks pks)
      (map_option (\<lambda>(i, pk). key_pair_of sko pk) opk) t =
    Some (0, T\<lparr>se_associated_data := buf (pka @ pkb), se_fingerprint := buf (fingerprint_of P (pka @ pkb @ pkc @
        (case opk of None \<Rightarrow> [] | Some (i, pk) \<Rightarrow> pk))), se_responded := True, se_invite_t := im_invite_t m\<rparr>,
      Some (e2ee_suite.bob_ratchet 32 (std_kdf P) (ss1 @ ss2 @ ss3 @ ss4) sks pke ctr), buf ct1, t2)"
proof -
  note suite = suite_of_laws [OF P raw a]
  note pl = e2ee_suite.pair_length [OF suite pair(1)] e2ee_suite.pair_length [OF suite pair(2)]
    e2ee_suite.pair_length [OF suite pair(3)]
  note e1 = e2ee_suite.enc_call [OF suite len(1) answer(1)]
  note e2 = e2ee_suite.enc_call [OF suite _ enc(1)] and e3 = e2ee_suite.enc_call [OF suite _ enc(2)]
  have d2: "\<exists>r. call_decaps (suite_of P raw) (buf skb) (buf ct2) = Some (r, ss2)" "length ss2 = pr_kem_ss_bytes P a"
    using e2ee_suite.dec_call [OF suite, of skb ct2] e2ee_suite.dec_enc [OF suite pair(1) enc(1)] e2 pl by auto
  have d3: "\<exists>r. call_decaps (suite_of P raw) (buf sks) (buf ct3) = Some (r, ss3)" "length ss3 = pr_kem_ss_bytes P a"
    using e2ee_suite.dec_call [OF suite, of sks ct3] e2ee_suite.dec_enc [OF suite pair(2) enc(2)] e3 pl by auto
  have "pr_kem_ss_bytes P a > 0"
    using P suite_of_valid [OF raw] a by (auto simp: prims_ok_def kem_documented_def)
  then have secret: "ss1 @ ss2 @ ss3 @ ss4 \<noteq> []" using e1 by auto
  have bob: "initialise_as_bob (Some (suite_of P raw)) (Some (ss1 @ ss2 @ ss3 @ ss4)) (Some (key_pair_of sks pks))
      (Some (buf pke)) t1 = Some (0, Some (e2ee_suite.bob_ratchet 32 (std_kdf P) (ss1 @ ss2 @ ss3 @ ss4) sks pke ctr), t2)"
    by (rule both_sides(1) [OF P raw a pair(3,2) secret answer(2) surjective_pairing3])
  note simps = inbound_session_def e2ee_suite.kem_param [OF suite] fingerprint_ok [OF P raw a] m array_get_Some
  show ?thesis
  proof (cases opk)
    case None
    then have "ss4 = []" "cts4 = []" using enc(3) by (simp_all add: enc_opt_def)
    then show ?thesis using None e1 d2 d3 pl len bob by (auto simp: simps key_pair_of_def)
  next
    case (Some o')
    then obtain j pko where o: "opk = Some (j, pko)" by (cases o') auto
    then obtain ct4 where cts4: "cts4 = [ct4]" "std_enc P a s2 pko = (ss4, ct4, s3)"
      using enc(3) by (auto simp: enc_opt_def split: prod.splits)
    have pair4: "std_pair P a sko pko" using pair(4) o by simp
    note pl4 = e2ee_suite.pair_length [OF suite pair4] and e4 = e2ee_suite.enc_call [OF suite _ cts4(2)]
    have "\<exists>r. call_decaps (suite_of P raw) (buf sko) (buf ct4) = Some (r, ss4)" "length ss4 = pr_kem_ss_bytes P a"
      using e2ee_suite.dec_call [OF suite, of sko ct4] e2ee_suite.dec_enc [OF suite pair4 cts4(2)] e4 pl4 by auto
    then show ?thesis using o cts4(1) pl4 e1 d2 d3 pl len bob by (auto simp: simps key_pair_of_def)
  qed
qed

text \<open>A proposal whose parts the validators accept.\<close>

definition wf_proposal :: "prims \<Rightarrow> kem_alg \<Rightarrow> gen_defaults \<Rightarrow> proposal \<Rightarrow> bool" where
  "wf_proposal P a D p \<longleftrightarrow> is_valid_string (pp_session_id p) \<and>
     is_valid_address (Some (pp_from p)) \<and> is_valid_address (Some (pp_to p)) \<and>
     wf_address D (pp_from p) \<and> wf_address D (pp_to p) \<and> ad_user (pp_from p) \<noteq> None \<and> ad_user (pp_to p) \<noteq> None \<and>
     std_pair P a (pp_base_priv p) (pp_base p) \<and> length (pp_spk p) = pr_kem_pk_bytes P a \<and>
     pp_inputs p \<noteq> [] \<and> (\<forall>x\<in>set (pp_inputs p). x \<noteq> [])"

lemma uncompleted_valid:
  assumes P: "prims_ok P" and raw: "is_valid_e2ees_pack_id P raw" and a: "pack_kem raw = Some a"
    and S: "proposes P a raw p S" and p: "wf_proposal P a D p"
  shows "is_valid_uncompleted_session P (Some S) = Some True"
proof -
  note suite = suite_of_laws [OF P raw a]
  have "pr_kem_ss_bytes P a > 0"
    using P suite_of_valid [OF raw] a by (auto simp: prims_ok_def kem_documented_def)
  moreover have "pp_base p \<noteq> []" "pp_base_priv p \<noteq> []" "pp_spk p \<noteq> []"
    using p e2ee_suite.pair_length [OF suite, of "pp_base_priv p" "pp_base p"] e2ee_suite.sizes [OF suite]
    by (auto simp: wf_proposal_def)
  moreover have "list_all (\<lambda>b. is_valid_protobuf (Some b)) (map buf (pp_inputs p))"
    using p by (auto simp: wf_proposal_def list_all_iff)
  ultimately show ?thesis using S p raw fingerprint_ok(2) [OF P raw a]
    by (simp add: is_valid_uncompleted_session_def proposes_def wf_proposal_def is_valid_key_pair_def key_pair_of_def
        is_valid_protobuf_list_def valid_array_eq and_then_def E2EES_PROTOCOL_VERSION_def)
qed

lemma complete_ok:
  assumes P: "prims_ok P" and raw: "is_valid_e2ees_pack_id P raw" and a: "pack_kem raw = Some a"
    and S: "proposes P a raw p S" and p: "wf_proposal P a D p"
    and msg: "is_valid_accept_msg P (Some m)" "am_encaps_ciphertext m = buf ct1" "am_ratchet_key m = buf ctr"
    and stored: "hs_load_session H w (am_session_id m) (am_to m) = Some S"
    and ik: "load_identity_key_from_cache cache (Some (pp_from p)) = Some (Some ik)"
      "ik_asym_key_pair ik = Some (key_pair_of ska pka)" "std_pair P a ska pka"
    and answer: "std_enc P a t pka = (ss1, ct1, t1)" "length ctr = pr_kem_ct_bytes P a"
    and enc: "std_enc P a u (pp_spk p) = (ssa, cta, u')"
  shows "\<exists>S'. pqc_complete_outbound_session H P cache w u (Some m) = Some (0, Some S', hs_store_session H w S', u') \<and>
    S' = S\<lparr>se_ratchet := Some (e2ee_suite.alice_ratchet 32 (std_kdf P) (ss1 @ pp_secret p) (pp_base_priv p) (pp_spk p) ctr cta ssa),
      se_responded := True, se_temp_shared_secret := buf (ss1 @ pp_secret p)\<rparr>"
proof -
  note suite = suite_of_laws [OF P raw a]
  note pl = e2ee_suite.pair_length [OF suite ik(3)]
  note e1 = e2ee_suite.enc_call [OF suite _ answer(1)]
  have base: "std_pair P a (pp_base_priv p) (pp_base p)" and spk: "length (pp_spk p) = pr_kem_pk_bytes P a"
    using p by (simp_all add: wf_proposal_def)
  note bl = e2ee_suite.pair_length [OF suite base]
  have ss: "pr_kem_ss_bytes P a > 0"
    using P suite_of_valid [OF raw] a by (auto simp: prims_ok_def kem_documented_def)
  have ne: "pp_spk p \<noteq> []" "pp_base p \<noteq> []" "ss1 @ pp_secret p \<noteq> []"
    using spk bl e1 pl ss e2ee_suite.sizes [OF suite] by auto
  obtain r where dec: "call_decaps (suite_of P raw) (buf ska) (buf ct1) = Some (r, ss1)" "length ss1 = pr_kem_ss_bytes P a"
    using e2ee_suite.dec_call [OF suite, of ska ct1] e2ee_suite.dec_enc [OF suite ik(3) answer(1)] e1 pl by auto
  have alice: "initialise_as_alice (Some (suite_of P raw)) (Some (ss1 @ pp_secret p))
      (Some (key_pair_of (pp_base_priv p) (pp_base p))) (Some (buf (pp_spk p))) (Some (buf ctr)) u =
      Some (0, Some (e2ee_suite.alice_ratchet 32 (std_kdf P) (ss1 @ pp_secret p) (pp_base_priv p) (pp_spk p) ctr cta ssa), u')"
    using bl spk by (intro e2ee_suite.alice_ok [OF suite ne(3) _ ne(2) _ answer(2) enc]) simp_all
  have temp: "write_buf (replicate (pr_kem_ss_bytes P a) 0 @ pp_secret p) ss1 = Some (ss1 @ pp_secret p)"
    using dec(2) by (simp add: write_buf_def)
  have valid: "is_valid_uncompleted_session P (Some S) = Some True" by (rule uncompleted_valid [OF P raw a S p])
  have fields: "se_our_address S = Some (pp_from p)" "se_e2ees_pack_id S = raw"
    "se_alice_base_key S = Some (key_pair_of (pp_base_priv p) (pp_base p))"
    "pb_data (se_temp_shared_secret S) = Some (replicate (pr_kem_ss_bytes P a) 0 @ pp_secret p)"
    "pb_len (se_temp_shared_secret S) = length (ss1 @ pp_secret p)"
    "(se_temp_shared_secret S)\<lparr>pb_data := Some (ss1 @ pp_secret p)\<rparr> = buf (ss1 @ pp_secret p)"
    "se_ratchet S = Some (init_ratchet
       \<lparr>rt_sender_chain := Some (init_sender_chain\<lparr>sc_their_ratchet_public_key := buf (pp_spk p)\<rparr>)\<rparr>)"
    using S dec(2) by (simp_all add: proposes_def buf_def)
  show ?thesis
    using msg stored valid ik dec(1) ne(1) temp alice fields
    by (simp add: pqc_complete_outbound_session_def key_pair_of_def [of ska] Let_def del: length_append)
qed

subsection \<open>The host\<close>

text \<open>
  Documented behaviour of a host: a stored session is loaded again under its id and address, a
  request to the server or a generated id or time leaves the stored sessions alone, and the server
  answers an invitation with its session id and an answer with OK.
\<close>

definition host_documented :: "'w host \<Rightarrow> bool" where
  "host_documented H \<longleftrightarrow>
     (\<forall>w S. hs_load_session H (hs_store_session H w S) (se_session_id S) (se_our_address S) = Some S) \<and>
     (\<exists>f. hs_invite H = Some f \<and> (\<forall>w from auth m. \<exists>t w'. f w from auth m =
        (Some \<lparr>ir_code = RESPONSE_CODE_OK, ir_session_id = im_session_id m, ir_invite_t = t\<rparr>, w') \<and>
        hs_load_session H w' = hs_load_session H w)) \<and>
     (\<exists>g. hs_accept H = Some g \<and> (\<forall>w from auth m. \<exists>w'. g w from auth m = (Some \<lparr>ar_code = RESPONSE_CODE_OK\<rparr>, w') \<and>
        hs_load_session H w' = hs_load_session H w))"

lemma host_store: "host_documented H \<Longrightarrow> hs_load_session H (hs_store_session H w S) (se_session_id S) (se_our_address S) = Some S"
  by (simp add: host_documented_def)

lemma invite_internal_ok:
  assumes H: "host_documented H"
    and P: "prims_ok P" and raw: "is_valid_e2ees_pack_id P raw" and a: "pack_kem raw = Some a"
    and S: "proposes P a raw p S" and p: "wf_proposal P a D p"
    and auth: "is_valid_string (hs_load_auth H (hs_store_session H w S) (Some (pp_from p)))"
  obtains r w' where "invite_internal H P D (hs_store_session H w S) S = Some (0, Some r, w')"
    "hs_load_session H w' (pp_session_id p) (Some (pp_from p)) = Some (S\<lparr>se_invite_t := ir_invite_t r\<rparr>)"
    "\<exists>f auth w1. hs_invite H = Some f \<and>
       f (hs_store_session H w S) (Some (pp_from p)) auth (invitation D raw (se_invite_t S) p) = (Some r, w1)"
proof -
  let ?w = "hs_store_session H w S" and ?m = "invitation D raw (se_invite_t S) p"
  let ?auth = "hs_load_auth H ?w (Some (pp_from p))"
  obtain f where f: "hs_invite H = Some f" "\<And>w from auth m. \<exists>t w'. f w from auth m =
      (Some \<lparr>ir_code = RESPONSE_CODE_OK, ir_session_id = im_session_id m, ir_invite_t = t\<rparr>, w') \<and>
      hs_load_session H w' = hs_load_session H w"
    using H by (auto simp: host_documented_def)
  obtain t w1 where call: "f ?w (Some (pp_from p)) ?auth ?m =
      (Some \<lparr>ir_code = RESPONSE_CODE_OK, ir_session_id = im_session_id ?m, ir_invite_t = t\<rparr>, w1)"
    "hs_load_session H w1 = hs_load_session H ?w" using f(2) by blast
  have sid: "im_session_id ?m = pp_session_id p" by (simp add: invitation_def)
  have fields: "se_our_address S = Some (pp_from p)" "se_session_id S = pp_session_id p" using S by (simp_all add: proposes_def)
  have loaded: "hs_load_session H w1 (pp_session_id p) (Some (pp_from p)) = Some S"
    using host_store [OF H, of w S] call(2) fields by simp
  have base: "pp_base p \<noteq> []"
    using p e2ee_suite.pair_length [OF suite_of_laws [OF P raw a], of "pp_base_priv p" "pp_base p"]
      e2ee_suite.sizes [OF suite_of_laws [OF P raw a]] by (auto simp: wf_proposal_def)
  have wf: "wf_address D (pp_from p)" "wf_address D (pp_to p)" "\<forall>x\<in>set (pp_inputs p). x \<noteq> []"
    "is_valid_address (Some (pp_from p))" "is_valid_string (pp_session_id p)"
    using p by (simp_all add: wf_proposal_def)
  then have sid': "pp_session_id p \<noteq> None" by (auto simp: is_valid_string_def split: option.splits)
  note request = invite_request_ok [OF S wf(1,2,3) base sid']
  let ?r = "\<lparr>ir_code = RESPONSE_CODE_OK, ir_session_id = pp_session_id p, ir_invite_t = t\<rparr>"
  let ?S = "S\<lparr>se_invite_t := t\<rparr>"
  show ?thesis
  proof (rule that [of ?r "hs_store_session H w1 ?S"])
    show "invite_internal H P D ?w S = Some (0, Some ?r, hs_store_session H w1 ?S)"
      using uncompleted_valid [OF P raw a S p] auth request call(1) loaded wf f(1) sid
      by (simp add: invite_internal_def fields dispatch_proto_request_def consume_invite_response_def
          is_valid_invite_response_def Let_def)
    show "hs_load_session H (hs_store_session H w1 ?S) (pp_session_id p) (Some (pp_from p)) = Some (S\<lparr>se_invite_t := ir_invite_t ?r\<rparr>)"
      using host_store [OF H, of w1 ?S] fields by simp
    show "\<exists>f auth w1. hs_invite H = Some f \<and> f ?w (Some (pp_from p)) auth ?m = (Some ?r, w1)"
      using f(1) call(1) sid by auto
  qed
qed

subsection \<open>The inviter\<close>

text \<open>A pre-key bundle with the public keys of an account.\<close>

definition bundle_of ::
    "u32 \<Rightarrow> address \<Rightarrow> bytes \<Rightarrow> bytes \<Rightarrow> u32 \<Rightarrow> bytes \<Rightarrow> bytes \<Rightarrow> (u32 \<times> bytes) option \<Rightarrow> pre_key_bundle" where
  "bundle_of raw adr ik sign i spk sig opk =
     \<lparr>pkb_e2ees_pack_id = raw, pkb_user_address = Some adr,
      pkb_identity_key_public = Some \<lparr>ikp_asym_public_key = buf ik, ikp_sign_public_key = buf sign\<rparr>,
      pkb_signed_pre_key_public = Some \<lparr>spkp_spk_id = i, spkp_public_key = buf spk, spkp_signature = buf sig\<rparr>,
      pkb_one_time_pre_key_public = map_option (\<lambda>(i, pk). \<lparr>opkp_opk_id = i, opkp_public_key = buf pk\<rparr>) opk,
      pkb_signature = None\<rparr>"

lemma outbound_checks_ok:
  assumes P: "prims_ok P" and raw: "is_valid_e2ees_pack_id P raw" and a: "pack_kem raw = Some a"
    and d: "pack_ds raw = Some d" "d \<noteq> DS_CURVE25519"
    and len: "length pkb = pr_kem_pk_bytes P a" "length pks = pr_kem_pk_bytes P a"
      "case opk of None \<Rightarrow> True | Some (i, pk) \<Rightarrow> length pk = pr_kem_pk_bytes P a"
    and sign: "length sign = pr_sign_pk_bytes P d" "length sig = pr_sign_bytes P d"
    and verify: "pr_sign_verify P d sig pks (Some sign) = 0"
  shows "outbound_checks (suite_of P raw) \<lparr>ikp_asym_public_key = buf pkb, ikp_sign_public_key = buf sign\<rparr>
    \<lparr>spkp_spk_id = i, spkp_public_key = buf pks, spkp_signature = buf sig\<rparr>
    (map_option (\<lambda>(i, pk). \<lparr>opkp_opk_id = i, opkp_public_key = buf pk\<rparr>) opk) = Some 0"
proof -
  note suite = suite_of_laws [OF P raw a]
  have ds: "ds_param (suite_of P raw) = Some (crypto_ds_params_pqc P d)"
    by (simp add: ds_param_def suite_of_pqc [OF raw a d] E2EES_DS_PQC_def)
  have "call_verify (suite_of P raw) sig pks (Some sign) = Some 0"
    using verify by (simp add: call_verify_def suite_of_pqc [OF raw a d] E2EES_DS_PQC_def)
  then show ?thesis using len sign
    by (auto simp: outbound_checks_def e2ee_suite.kem_param [OF suite] ds crypto_ds_params_pqc_def
        split: option.splits)
qed

lemma enc_opt_length:
  assumes P: "prims_ok P" and raw: "is_valid_e2ees_pack_id P raw" and a: "pack_kem raw = Some a"
    and len: "case opk of None \<Rightarrow> True | Some (i, pk) \<Rightarrow> length pk = pr_kem_pk_bytes P a"
    and enc: "enc_opt P a s (map_option snd opk) = (ss, cts, s')"
  shows "\<forall>x\<in>set cts. length x = pr_kem_ct_bytes P a"
proof (cases opk)
  case None
  then show ?thesis using enc by (simp add: enc_opt_def)
next
  case (Some o')
  then obtain j pk where o: "opk = Some (j, pk)" by (cases o') auto
  then obtain ct where ct: "cts = [ct]" "std_enc P a s pk = (ss, ct, s')"
    using enc by (auto simp: enc_opt_def split: prod.splits)
  have "length pk = pr_kem_pk_bytes P a" using len o by simp
  from e2ee_suite.enc_call [OF suite_of_laws [OF P raw a] this ct(2)] show ?thesis using ct(1) by simp
qed

lemma outbound_handler_ok:
  assumes H: "host_documented H"
    and P: "prims_ok P" and raw: "is_valid_e2ees_pack_id P raw" and a: "pack_kem raw = Some a"
    and d: "pack_ds raw = Some d" "d \<noteq> DS_CURVE25519"
    and adr: "is_valid_address (Some from)" "is_valid_address (Some to)" "wf_address D from" "wf_address D to"
      "ad_user from \<noteq> None" "ad_user to \<noteq> None"
    and auth: "\<And>w. is_valid_string (hs_load_auth H w (Some from))"
    and uuid: "generate_uuid_str H w = (sid, w1)" "is_valid_string sid"
    and acc: "hs_load_account_by_address H w (Some from) = Some A" "is_valid_registered_account P (Some A) = Some True"
      "acc_identity_key A = Some ikA" "ik_asym_key_pair ikA = Some (key_pair_of ska pka)" "length pka = pr_kem_pk_bytes P a"
    and len: "length pkb = pr_kem_pk_bytes P a" "length pks = pr_kem_pk_bytes P a"
      "case opk of None \<Rightarrow> True | Some (i, pk) \<Rightarrow> length pk = pr_kem_pk_bytes P a"
    and sign: "length sign = pr_sign_pk_bytes P d" "length sig = pr_sign_bytes P d" "sign \<noteq> []" "sig \<noteq> []"
    and verify: "pr_sign_verify P d sig pks (Some sign) = 0"
    and enc: "std_enc P a s pkb = (ss2, ct2, s1)" "std_enc P a s1 pks = (ss3, ct3, s2)"
      "enc_opt P a s2 (map_option snd opk) = (ss4, cts4, s3)"
    and gen: "call_asym_key_gen (suite_of P raw) s3 = Some (r, buf pke, buf ske, s4)" "std_pair P a ske pke"
    and p: "p = \<lparr>pp_session_id = sid, pp_from = from, pp_to = to, pp_alice = pka, pp_bob = pkb, pp_spk = pks,
       pp_spk_id = i, pp_opk = opk, pp_secret = ss2 @ ss3 @ ss4, pp_inputs = [ct2, ct3] @ cts4, pp_base = pke,
       pp_base_priv = ske\<rparr>"
  obtains S resp w' f auth w2 t w3 where
    "pqc_new_outbound_session_v2 H P D w s (Some from) (Some (bundle_of raw to pkb sign i pks sig opk)) = Some (0, Some resp, w', s4)"
    "proposes P a raw p S" "hs_load_session H w' sid (Some from) = Some S" "wf_proposal P a D p"
    "hs_invite H = Some f" "f w2 (Some from) auth (invitation D raw t p) = (Some resp, w3)"
proof -
  note suite = suite_of_laws [OF P raw a]
  obtain S0 where S0: "outbound_session D (suite_of P raw) raw sid (Some from) (Some to) (key_pair_of ska pka)
       \<lparr>ikp_asym_public_key = buf pkb, ikp_sign_public_key = buf sign\<rparr>
       \<lparr>spkp_spk_id = i, spkp_public_key = buf pks, spkp_signature = buf sig\<rparr>
       (map_option (\<lambda>(i, pk). \<lparr>opkp_opk_id = i, opkp_public_key = buf pk\<rparr>) opk) s = Some (S0, s4)"
      "proposes P a raw p S0"
    using outbound_session_ok [OF P raw a adr(3,4) acc(5) len enc gen(1)] unfolding p by blast
  obtain ts w2 where ts: "hs_gen_ts H w1 = (ts, w2)" by (metis prod.exhaust)
  let ?S = "S0\<lparr>se_invite_t := ts\<rparr>"
  have S: "proposes P a raw p ?S" using S0(2) by (simp add: proposes_def)
  have "length ct2 = pr_kem_ct_bytes P a" "length ct3 = pr_kem_ct_bytes P a"
    using e2ee_suite.enc_call [OF suite len(1) enc(1)] e2ee_suite.enc_call [OF suite len(2) enc(2)] by simp_all
  moreover have "\<forall>x\<in>set cts4. length x = pr_kem_ct_bytes P a"
    by (rule enc_opt_length [OF P raw a len(3) enc(3)])
  ultimately have inputs: "\<forall>x\<in>set ([ct2, ct3] @ cts4). x \<noteq> []"
    using e2ee_suite.sizes(3) [OF suite] by auto
  have wfp: "wf_proposal P a D p" using adr uuid(2) gen(2) len(2) inputs by (simp add: p wf_proposal_def)
  have auth': "is_valid_string (hs_load_auth H (hs_store_session H w2 ?S) (Some (pp_from p)))" by (simp add: p auth)
  obtain resp w' where inv: "invite_internal H P D (hs_store_session H w2 ?S) ?S = Some (0, Some resp, w')"
    "hs_load_session H w' (pp_session_id p) (Some (pp_from p)) = Some (?S\<lparr>se_invite_t := ir_invite_t resp\<rparr>)"
    "\<exists>f auth w1. hs_invite H = Some f \<and>
       f (hs_store_session H w2 ?S) (Some (pp_from p)) auth (invitation D raw (se_invite_t ?S) p) = (Some resp, w1)"
    by (rule invite_internal_ok [OF H P raw a S wfp auth'])
  have fields: "se_our_address S0 = Some from" "se_their_address S0 = Some to" using S0(2) by (simp_all add: proposes_def p)
  have published: "is_valid_pre_key_bundle (Some (bundle_of raw to pkb sign i pks sig opk))"
    using adr(2) len sign e2ee_suite.sizes [OF suite]
    by (auto simp: is_valid_pre_key_bundle_def bundle_of_def is_valid_identity_key_public_def is_valid_signed_pre_key_public_def)
  have handler: "pqc_new_outbound_session_v2 H P D w s (Some from) (Some (bundle_of raw to pkb sign i pks sig opk)) =
      Some (0, Some resp, w', s4)"
    using adr acc published valid_suite [OF raw] outbound_checks_ok [OF P raw a d len sign(1,2) verify, of i] uuid(1) S0(1) ts
      inv(1) fields
    by (auto simp: pqc_new_outbound_session_v2_def Let_def bundle_of_def)
  show ?thesis
  proof -
    obtain f auth w3 where "hs_invite H = Some f"
      "f (hs_store_session H w2 ?S) (Some from) auth (invitation D raw ts p) = (Some resp, w3)"
      using inv(3) by (auto simp: p)
    moreover have "proposes P a raw p (?S\<lparr>se_invite_t := ir_invite_t resp\<rparr>)" using S0(2) by (simp add: proposes_def)
    ultimately show ?thesis using that [OF handler _ _ wfp] inv(2) by (simp add: p)
  qed
qed

subsection \<open>The invited side\<close>

text \<open>The answer to a proposal.\<close>

definition answer :: "u32 \<Rightarrow> proposal \<Rightarrow> bytes \<Rightarrow> bytes \<Rightarrow> accept_msg" where
  "answer raw p ct ratchet_key = \<lparr>am_e2ees_pack_id = raw, am_session_id = pp_session_id p, am_from = Some (pp_to p),
     am_to = Some (pp_from p), am_encaps_ciphertext = buf ct, am_ratchet_key = buf ratchet_key\<rparr>"

lemma answer_valid:
  assumes "is_valid_e2ees_pack_id P raw" and "wf_proposal P a D p" and "ct \<noteq> []" "rk \<noteq> []"
  shows "is_valid_accept_msg P (Some (answer raw p ct rk))"
  using assms by (simp add: is_valid_accept_msg_def answer_def wf_proposal_def)

lemma accept_internal_ok:
  assumes H: "host_documented H" and raw: "is_valid_e2ees_pack_id P raw" and p: "wf_proposal P a D p"
    and ct: "ct \<noteq> []" "rk \<noteq> []" and auth: "is_valid_string (hs_load_auth H w (Some (pp_to p)))"
  obtains r w' g where "accept_internal H P D w \<lparr>ap_e2ees_pack_id = raw, ap_from = Some (pp_to p),
      ap_to = Some (pp_from p), ap_session_id = pp_session_id p, ap_ciphertext_1 = Some (buf ct),
      ap_our_ratchet_key = Some (buf rk)\<rparr> = Some (0, Some r, w')"
    "hs_accept H = Some g" "g w (Some (pp_to p)) (hs_load_auth H w (Some (pp_to p))) (answer raw p ct rk) = (Some r, w')"
    "hs_load_session H w' = hs_load_session H w"
proof -
  obtain g where g: "hs_accept H = Some g" "\<And>w from auth m. \<exists>w'. g w from auth m = (Some \<lparr>ar_code = RESPONSE_CODE_OK\<rparr>, w') \<and>
      hs_load_session H w' = hs_load_session H w"
    using H by (auto simp: host_documented_def)
  obtain w' where call: "g w (Some (pp_to p)) (hs_load_auth H w (Some (pp_to p))) (answer raw p ct rk) =
      (Some \<lparr>ar_code = RESPONSE_CODE_OK\<rparr>, w')" "hs_load_session H w' = hs_load_session H w" using g(2) by blast
  have wf: "is_valid_string (pp_session_id p)" "is_valid_address (Some (pp_from p))" "is_valid_address (Some (pp_to p))"
    "wf_address D (pp_from p)" "wf_address D (pp_to p)" using p by (simp_all add: wf_proposal_def)
  then obtain sid where sid: "pp_session_id p = Some sid" by (auto simp: is_valid_string_def split: option.splits)
  show ?thesis
  proof (rule that [OF _ g(1) call])
    show "accept_internal H P D w \<lparr>ap_e2ees_pack_id = raw, ap_from = Some (pp_to p),
      ap_to = Some (pp_from p), ap_session_id = pp_session_id p, ap_ciphertext_1 = Some (buf ct),
      ap_our_ratchet_key = Some (buf rk)\<rparr> = Some (0, Some \<lparr>ar_code = RESPONSE_CODE_OK\<rparr>, w')"
      using raw ct auth wf g(1) call sid
      by (simp add: accept_internal_def Let_def is_valid_accept_inputs_def produce_accept_request_def
          address_copy.copy_id dispatch_proto_request_def consume_accept_response_def is_valid_accept_response_def answer_def)
  qed
qed

lemma invitation_valid:
  assumes raw: "is_valid_e2ees_pack_id P raw" and p: "wf_proposal P a D p" and ne: "pka \<noteq> []" "pp_base p \<noteq> []"
  shows "is_valid_invite_msg P (Some ((invitation D raw t p)\<lparr>im_alice_identity_key := buf pka\<rparr>)) = Some True"
proof -
  have "list_all (\<lambda>b. is_valid_protobuf (Some b)) (map buf (pp_inputs p))"
    using p by (auto simp: wf_proposal_def list_all_iff)
  then show ?thesis using assms
    by (simp add: is_valid_invite_msg_def invitation_def init_invite_msg_def wf_proposal_def is_valid_protobuf_list_def
        valid_array_eq E2EES_PROTOCOL_VERSION_def)
qed

lemma inbound_handler_ok:
  assumes H: "host_documented H"
    and P: "prims_ok P" and raw: "is_valid_e2ees_pack_id P raw" and a: "pack_kem raw = Some a"
    and p: "p = \<lparr>pp_session_id = sid, pp_from = from, pp_to = to, pp_alice = pka, pp_bob = pkb, pp_spk = pks,
       pp_spk_id = i, pp_opk = opk, pp_secret = ss2 @ ss3 @ ss4, pp_inputs = [ct2, ct3] @ cts4, pp_base = pke,
       pp_base_priv = ske\<rparr>" "wf_proposal P a D p"
    and auth: "\<And>w. is_valid_string (hs_load_auth H w (Some to))"
    and acc: "is_valid_registered_account P (Some B) = Some True" "acc_identity_key B = Some ikB"
      "ik_asym_key_pair ikB = Some (key_pair_of skb pkb)" "acc_signed_pre_key B = Some cur"
      "spk_key_pair cur = Some (key_pair_of skc pkc)"
    and m: "m = (invitation D raw ts p)\<lparr>im_alice_identity_key := buf pka\<rparr>"
    and keys: "inbound_keys H w B m = Some (Some (spk, kopt))" "spk_key_pair spk = Some (key_pair_of sks pks)"
      "case opk of None \<Rightarrow> kopt = None | Some (j, pk) \<Rightarrow> \<exists>k. kopt = Some k \<and> opk_id k = j \<and> opk_key_pair k = Some (key_pair_of sko pk)"
      "case opk of None \<Rightarrow> True | Some (j, pk) \<Rightarrow> \<exists>r. mark_opk_as_used (Some B) j = Some (r, B')"
    and len: "length pka = pr_kem_pk_bytes P a" "length pkc = pr_kem_pk_bytes P a"
    and pair: "std_pair P a skb pkb" "std_pair P a sks pks"
      "case opk of None \<Rightarrow> True | Some (i, pk) \<Rightarrow> std_pair P a sko pk"
    and enc: "std_enc P a s pkb = (ss2, ct2, s1)" "std_enc P a s1 pks = (ss3, ct3, s2)"
      "enc_opt P a s2 (map_option snd opk) = (ss4, cts4, s3)"
    and ans: "std_enc P a t pka = (ss1, ct1, t1)" "std_enc P a t1 pke = (ssr, ctr, t2)"
  obtains T w' g w1 auth r w2 where
    "pqc_new_inbound_session H P D w t (Some B) (Some m) =
       Some (0, Some T, Some (case opk of None \<Rightarrow> B | Some _ \<Rightarrow> B'), w', t2)"
    "se_associated_data T = buf (pka @ pkb)"
    "se_fingerprint T = buf (fingerprint_of P (pka @ pkb @ pkc @ (case opk of None \<Rightarrow> [] | Some (i, pk) \<Rightarrow> pk)))"
    "se_ratchet T = Some (e2ee_suite.bob_ratchet 32 (std_kdf P) (ss1 @ ss2 @ ss3 @ ss4) sks pke ctr)"
    "hs_accept H = Some g" "g w1 (Some to) auth (answer raw p ct1 ctr) = (Some r, w2)"
    "se_version T = Some E2EES_PROTOCOL_VERSION" "se_e2ees_pack_id T = raw" "se_session_id T = sid"
    "se_our_address T = Some to" "se_their_address T = Some from" "se_responded T"
    "hs_load_session H w' sid (Some to) = Some T"
proof -
  note suite = suite_of_laws [OF P raw a]
  have base: "std_pair P a ske pke" using p by (simp add: wf_proposal_def)
  note pl = e2ee_suite.pair_length [OF suite base] e2ee_suite.pair_length [OF suite pair(1)] e2ee_suite.pair_length [OF suite pair(2)]
  have ne: "pka \<noteq> []" "pke \<noteq> []" using len pl e2ee_suite.sizes [OF suite] by auto
  have e1: "length ct1 = pr_kem_ct_bytes P a" "length ctr = pr_kem_ct_bytes P a"
    using e2ee_suite.enc_call [OF suite len(1) ans(1)] e2ee_suite.enc_call [OF suite _ ans(2)] pl by auto
  then have ne': "ct1 \<noteq> []" "ctr \<noteq> []" using e2ee_suite.sizes [OF suite] by auto
  have valid: "is_valid_invite_msg P (Some m) = Some True"
    unfolding m using ne p(1) by (intro invitation_valid [OF raw p(2)]) simp_all
  obtain vsid where sid: "sid = Some vsid" using p by (auto simp: wf_proposal_def is_valid_string_def split: option.splits)
  have adr: "wf_address D from" "wf_address D to" using p by (simp_all add: wf_proposal_def)
  have fields: "im_e2ees_pack_id m = raw" "im_to m = Some to" "im_from m = Some from" "im_session_id m = Some vsid"
    "im_version m = Some E2EES_PROTOCOL_VERSION" "im_alice_identity_key m = buf pka" "im_alice_base_key m = buf pke"
    "im_pre_shared_input_list m = Some (map buf ([ct2, ct3] @ cts4))" "im_bob_signed_pre_key_id m = i"
    by (simp_all add: m invitation_def p(1) sid)
  let ?R = "e2ee_suite.bob_ratchet 32 (std_kdf P) (ss1 @ ss2 @ ss3 @ ss4) sks pke ctr"
  define B'' where "B'' = (case opk of None \<Rightarrow> B | Some _ \<Rightarrow> B')"
  have spl: "case opk of None \<Rightarrow> True | Some (j, pk) \<Rightarrow> length sko = pr_kem_sk_bytes P a"
    using pair(3) e2ee_suite.pair_length [OF suite, of sko] by (auto split: option.splits)
  define T0 where "T0 = (init_session D)\<lparr>se_e2ees_pack_id := raw, se_our_address := Some to, se_their_address := Some from,
      se_version := Some E2EES_PROTOCOL_VERSION, se_session_id := Some vsid, se_bob_signed_pre_key_id := i,
      se_bob_one_time_pre_key_id := (case opk of None \<Rightarrow> 0 | Some (j, pk) \<Rightarrow> j)\<rparr>"
  define w0 where "w0 = (case opk of None \<Rightarrow> w | Some (j, pk) \<Rightarrow> hs_update_one_time_pre_key H w (acc_address B') j)"
  define T where "T = T0\<lparr>se_associated_data := buf (pka @ pkb), se_fingerprint := buf (fingerprint_of P (pka @ pkb @ pkc @
        (case opk of None \<Rightarrow> [] | Some (i, pk) \<Rightarrow> pk))), se_responded := True, se_invite_t := im_invite_t m, se_ratchet := Some ?R\<rparr>"
  have inb: "inbound_session (suite_of P raw) T0 m (key_pair_of skb pkb) (key_pair_of skc pkc) (key_pair_of sks pks)
      (map_option (\<lambda>(i, pk). key_pair_of sko pk) opk) t =
    Some (0, T0\<lparr>se_associated_data := buf (pka @ pkb), se_fingerprint := buf (fingerprint_of P (pka @ pkb @ pkc @
        (case opk of None \<Rightarrow> [] | Some (i, pk) \<Rightarrow> pk))), se_responded := True, se_invite_t := im_invite_t m\<rparr>, Some ?R, buf ct1, t2)"
    by (rule inbound_session_ok [OF P raw a len pair(1,2) base pair(3) enc ans fields(6,7,8)])
  have auth': "is_valid_string (hs_load_auth H (hs_store_session H w0 T) (Some (pp_to p)))" using auth by (simp add: p(1))
  obtain r w' g where acc_int: "accept_internal H P D (hs_store_session H w0 T) \<lparr>ap_e2ees_pack_id = raw, ap_from = Some (pp_to p),
      ap_to = Some (pp_from p), ap_session_id = pp_session_id p, ap_ciphertext_1 = Some (buf ct1),
      ap_our_ratchet_key = Some (buf ctr)\<rparr> = Some (0, Some r, w')"
    "hs_accept H = Some g" "g (hs_store_session H w0 T) (Some (pp_to p)) (hs_load_auth H (hs_store_session H w0 T) (Some (pp_to p)))
       (answer raw p ct1 ctr) = (Some r, w')"
      "hs_load_session H w' = hs_load_session H (hs_store_session H w0 T)"
    by (rule accept_internal_ok [OF H raw p(2) ne' auth'])
  have load: "hs_load_session H w' sid (Some to) = Some T"
    using host_store [OF H, of w0 T] acc_int(4) by (simp add: T_def T0_def sid)
  note simps = pqc_new_inbound_session_def Let_def e2ee_suite.kem_param [OF suite] initialise_session_def
    address_copy.copy_id [OF adr(1)] address_copy.copy_id [OF adr(2)] fields
  have key_pair_lens: "pb_len (kpr_private_key (key_pair_of sk pk)) = length sk" for sk pk by (simp add: key_pair_of_def)
  obtain c where fields_R: "rt_sender_chain ?R = Some c" "sc_our_ratchet_public_key c = buf ctr"
    by (simp add: e2ee_suite.init_fields [OF suite] sender_of_def)
  have handler: "pqc_new_inbound_session H P D w t (Some B) (Some m) = Some (0, Some T, Some B'', w', t2)"
  proof (cases opk)
    case None
    then have "kopt = None" using keys(3) by simp
    then show ?thesis
      using None acc valid keys(1,2) inb acc_int(1) pl
      by (simp add: simps B''_def w0_def T_def T0_def init_session_def key_pair_lens fields_R p(1) sid)
  next
    case (Some o')
    then obtain j pko where o: "opk = Some (j, pko)" by (cases o') auto
    obtain k where k: "kopt = Some k" "opk_id k = j" "opk_key_pair k = Some (key_pair_of sko pko)" using keys(3) o by auto
    obtain mr where mark: "mark_opk_as_used (Some B) j = Some (mr, B')" using keys(4) o by auto
    show ?thesis
      using o k mark acc valid keys(1,2) inb acc_int(1) pl spl
      by (simp add: simps B''_def w0_def T_def T0_def init_session_def key_pair_lens fields_R p(1) sid)
  qed
  show ?thesis
    by (rule that [OF handler [unfolded B''_def] _ _ _ acc_int(2)])
      (use acc_int(3) load in \<open>auto simp: T_def T0_def p(1) sid\<close>)
qed

subsection \<open>Both sides\<close>

text \<open>A user with an account: addresses, token, identity key.\<close>

definition user_ready :: "'w host \<Rightarrow> prims \<Rightarrow> gen_defaults \<Rightarrow> kem_alg \<Rightarrow> address \<Rightarrow> account \<Rightarrow> bytes \<Rightarrow> bytes \<Rightarrow> bool" where
  "user_ready H P D a adr A sk pk \<longleftrightarrow>
     is_valid_address (Some adr) \<and> wf_address D adr \<and> ad_user adr \<noteq> None \<and>
     (\<forall>w. is_valid_string (hs_load_auth H w (Some adr))) \<and>
     is_valid_registered_account P (Some A) = Some True \<and> std_pair P a sk pk \<and>
     (\<exists>ik. acc_identity_key A = Some ik \<and> ik_asym_key_pair ik = Some (key_pair_of sk pk))"

text \<open>The signed pre-key \<open>spk\<close> of an account under an id: the current one or an older one in the database.\<close>

definition has_spk :: "'w host \<Rightarrow> 'w \<Rightarrow> account \<Rightarrow> u32 \<Rightarrow> signed_pre_key \<Rightarrow> bool" where
  "has_spk H w B i spk \<longleftrightarrow> (\<exists>cur. acc_signed_pre_key B = Some cur \<and>
     (if spk_id cur = i then spk = cur
      else hs_load_signed_pre_key H w (acc_address B) i = Some spk \<and> is_valid_signed_pre_key (Some spk)))"

definition has_opk :: "prims \<Rightarrow> kem_alg \<Rightarrow> account \<Rightarrow> (u32 \<times> bytes) option \<Rightarrow> bytes \<Rightarrow> bool" where
  "has_opk P a B opk sko \<longleftrightarrow> (case opk of None \<Rightarrow> True | Some (j, pko) \<Rightarrow> j \<noteq> 0 \<and> std_pair P a sko pko \<and>
     (\<exists>ks k. holds_opks B ks \<and> find (\<lambda>k. opk_id k = j) ks = Some k \<and> opk_key_pair k = Some (key_pair_of sko pko)))"

lemma inbound_keys_ok:
  assumes P: "prims_ok P" and raw: "is_valid_e2ees_pack_id P raw" and a: "pack_kem raw = Some a"
    and spk: "has_spk H w B i spk" and opk: "has_opk P a B opk sko"
    and m: "im_bob_signed_pre_key_id m = i" "im_bob_one_time_pre_key_id m = (case opk of None \<Rightarrow> 0 | Some (j, pk) \<Rightarrow> j)"
  obtains kopt B' where "inbound_keys H w B m = Some (Some (spk, kopt))"
    "case opk of None \<Rightarrow> kopt = None | Some (j, pk) \<Rightarrow> \<exists>k. kopt = Some k \<and> opk_id k = j \<and> opk_key_pair k = Some (key_pair_of sko pk)"
    "case opk of None \<Rightarrow> True | Some (j, pk) \<Rightarrow> \<exists>r. mark_opk_as_used (Some B) j = Some (r, B')"
proof (cases opk)
  case None
  then show ?thesis using spk m that [of None B] by (auto simp: inbound_keys_def has_spk_def split: if_splits)
next
  case (Some o')
  then obtain j pko where o: "opk = Some (j, pko)" by (cases o') auto
  obtain ks k where k: "j \<noteq> 0" "std_pair P a sko pko" "holds_opks B ks" "find (\<lambda>k. opk_id k = j) ks = Some k"
      "opk_key_pair k = Some (key_pair_of sko pko)"
    using opk o by (auto simp: has_opk_def)
  have id: "opk_id k = j" using k(4) by (auto simp: find_Some_iff)
  note pl = e2ee_suite.pair_length [OF suite_of_laws [OF P raw a] k(2)]
  have valid: "is_valid_one_time_pre_key (Some k)"
    using k(5) pl e2ee_suite.sizes [OF suite_of_laws [OF P raw a]]
    by (auto simp: is_valid_one_time_pre_key_def is_valid_key_pair_def key_pair_of_def)
  have "inbound_keys H w B m = Some (Some (spk, Some k))"
    using spk m o k(1) lookup_eq [OF k(3), of j] k(4) valid by (auto simp: inbound_keys_def has_spk_def split: if_splits)
  then show ?thesis using that [of "Some k"] o id k(5) mark_eq [OF k(3), of j] k(4) by auto
qed

text \<open>
  A handshake: the inviter's request, the invitation handed to the server and delivered with the
  inviter's identity key, the invited side's answer, and the completion with it.  It yields the
  sessions \<open>S\<close> of the inviter and \<open>T\<close> of the invited side, and the worlds of both after it.
\<close>

definition handshake ::
    "'v host \<Rightarrow> 'w host \<Rightarrow> prims \<Rightarrow> gen_defaults \<Rightarrow> cache \<Rightarrow> 'v \<Rightarrow> 'w \<Rightarrow> seed \<Rightarrow> seed \<Rightarrow> seed \<Rightarrow> address \<Rightarrow> address \<Rightarrow>
     bytes \<Rightarrow> account \<Rightarrow> pre_key_bundle \<Rightarrow> session \<Rightarrow> session \<Rightarrow> 'v \<Rightarrow> 'w \<Rightarrow> bool" where
  "handshake HA HB P D cache wA wB s t u from to pka B bd S T wA'' wB' \<longleftrightarrow>
     (\<exists>resp wA' s' M B' t' N u'.
        pqc_new_outbound_session_v2 HA P D wA s (Some from) (Some bd) = Some (0, Some resp, wA', s') \<and>
        (\<exists>f w auth w'. hs_invite HA = Some f \<and> f w (Some from) auth M = (Some resp, w')) \<and>
        pqc_new_inbound_session HB P D wB t (Some B) (Some (M\<lparr>im_alice_identity_key := buf pka\<rparr>)) =
          Some (0, Some T, B', wB', t') \<and>
        (\<exists>g w auth r w'. hs_accept HB = Some g \<and> g w (Some to) auth N = (Some r, w')) \<and>
        pqc_complete_outbound_session HA P cache wA' u (Some N) = Some (0, Some S, wA'', u'))"

text \<open>What a completed session holds apart from its ratchet.\<close>

definition endpoint :: "prims \<Rightarrow> gen_defaults \<Rightarrow> u32 \<Rightarrow> bytes \<Rightarrow> string \<Rightarrow> address \<Rightarrow> address \<Rightarrow> session \<Rightarrow> bool" where
  "endpoint P D raw ad sid our their S \<longleftrightarrow>
     is_valid_string (se_version S) \<and> se_e2ees_pack_id S = raw \<and> is_valid_e2ees_pack_id P raw \<and>
     se_session_id S = Some sid \<and> sid \<noteq> [] \<and> se_our_address S = Some our \<and> se_their_address S = Some their \<and>
     is_valid_address (Some our) \<and> wf_address D our \<and> is_valid_address (Some their) \<and> wf_address D their \<and>
     se_associated_data S = buf ad \<and> ad \<noteq> [] \<and> is_valid_protobuf (Some (se_fingerprint S)) \<and> se_responded S"

lemma sessions_agree:
  assumes HA: "host_documented HA" and HB: "host_documented HB"
    and P: "prims_ok P" and raw: "is_valid_e2ees_pack_id P raw" and a: "pack_kem raw = Some a"
    and d: "pack_ds raw = Some d" "d \<noteq> DS_CURVE25519"
    and alice: "user_ready HA P D a from A ska pka" "hs_load_account_by_address HA wA (Some from) = Some A"
      "load_identity_key_from_cache cache (Some from) = Some (acc_identity_key A)"
      "is_valid_string (fst (generate_uuid_str HA wA))"
    and bob: "user_ready HB P D a to B skb pkb" "has_spk HB wB B i spk" "spk_key_pair spk = Some (key_pair_of sks pks)"
      "std_pair P a sks pks" "has_opk P a B opk sko"
      "map_option spk_key_pair (acc_signed_pre_key B) = Some (Some (key_pair_of skc pkc))" "length pkc = pr_kem_pk_bytes P a"
    and sign: "length sign = pr_sign_pk_bytes P d" "length sig = pr_sign_bytes P d" "sign \<noteq> []" "sig \<noteq> []"
      "pr_sign_verify P d sig pks (Some sign) = 0"
    and ms: "\<forall>m\<in>set ms. length m \<le> GCM_LIMIT" "length ms + 1 < 2 ^ 32" and mem: "mem_ok GrowCurrent"
  shows "\<exists>S T x y vA vB sid. handshake HA HB P D cache wA wB s t u from to pka B (bundle_of raw to pkb sign i pks sig opk) S T vA vB \<and>
    fst (generate_uuid_str HA wA) = Some sid \<and> endpoint P D raw (pka @ pkb) sid from to S \<and> hs_load_session HA vA (Some sid) (Some from) = Some S \<and>
    endpoint P D raw (pka @ pkb) sid to from T \<and> hs_load_session HB vB (Some sid) (Some to) = Some T \<and>
    se_associated_data S = buf (pka @ pkb) \<and> se_associated_data T = buf (pka @ pkb) \<and>
    se_fingerprint S = buf (fingerprint_of P (pka @ pkb @ pks @ (case opk of None \<Rightarrow> [] | Some (j, pk) \<Rightarrow> pk))) \<and>
    se_fingerprint T = buf (fingerprint_of P (pka @ pkb @ pkc @ (case opk of None \<Rightarrow> [] | Some (j, pk) \<Rightarrow> pk))) \<and>
    se_ratchet S = Some x \<and> se_ratchet T = Some y \<and>
    talk mem_ok (suite_of P raw) (buf (pka @ pkb)) x y ms v = Some (map (\<lambda>m. (0, plain_out m)) ms)"
proof -
  note suite = suite_of_laws [OF P raw a]
  obtain ikA where A: "is_valid_address (Some from)" "wf_address D from" "ad_user from \<noteq> None"
    "\<And>w. is_valid_string (hs_load_auth HA w (Some from))" "is_valid_registered_account P (Some A) = Some True"
    "std_pair P a ska pka" "acc_identity_key A = Some ikA" "ik_asym_key_pair ikA = Some (key_pair_of ska pka)"
    using alice(1) by (auto simp: user_ready_def)
  obtain ikB where B: "is_valid_address (Some to)" "wf_address D to" "ad_user to \<noteq> None"
    "\<And>w. is_valid_string (hs_load_auth HB w (Some to))" "is_valid_registered_account P (Some B) = Some True"
    "std_pair P a skb pkb" "acc_identity_key B = Some ikB" "ik_asym_key_pair ikB = Some (key_pair_of skb pkb)"
    using bob(1) by (auto simp: user_ready_def)
  obtain cur where cur: "acc_signed_pre_key B = Some cur" "spk_key_pair cur = Some (key_pair_of skc pkc)" using bob(6) by auto
  have len: "length pka = pr_kem_pk_bytes P a" "length pkb = pr_kem_pk_bytes P a" "length pks = pr_kem_pk_bytes P a"
    using e2ee_suite.pair_length [OF suite A(6)] e2ee_suite.pair_length [OF suite B(6)] e2ee_suite.pair_length [OF suite bob(4)] by simp_all
  have pairo: "case opk of None \<Rightarrow> True | Some (j, pk) \<Rightarrow> std_pair P a sko pk"
    using bob(5) by (auto simp: has_opk_def split: option.splits)
  then have leno: "case opk of None \<Rightarrow> True | Some (j, pk) \<Rightarrow> length pk = pr_kem_pk_bytes P a"
    using e2ee_suite.pair_length [OF suite, of sko] by (auto split: option.splits)
  obtain ss2 ct2 s1 where e2: "std_enc P a s pkb = (ss2, ct2, s1)" by (metis prod_cases3)
  obtain ss3 ct3 s2 where e3: "std_enc P a s1 pks = (ss3, ct3, s2)" by (metis prod_cases3)
  obtain ss4 cts4 s3 where e4: "enc_opt P a s2 (map_option snd opk) = (ss4, cts4, s3)" by (metis prod_cases3)
  obtain pke ske s4 where gen: "call_asym_key_gen (suite_of P raw) s3 = Some (0, buf pke, buf ske, s4)" "std_pair P a ske pke"
    by (rule asym_gen_pair [OF P raw a])
  obtain sid w1 where uuid: "generate_uuid_str HA wA = (sid, w1)" by (metis prod.exhaust)
  have vsid: "is_valid_string sid" using alice(4) uuid by simp
  define p where p: "p = \<lparr>pp_session_id = sid, pp_from = from, pp_to = to, pp_alice = pka, pp_bob = pkb, pp_spk = pks,
       pp_spk_id = i, pp_opk = opk, pp_secret = ss2 @ ss3 @ ss4, pp_inputs = [ct2, ct3] @ cts4, pp_base = pke, pp_base_priv = ske\<rparr>"
  obtain S resp wA' f auth w2 ts w3 where out:
    "pqc_new_outbound_session_v2 HA P D wA s (Some from) (Some (bundle_of raw to pkb sign i pks sig opk)) = Some (0, Some resp, wA', s4)"
    "proposes P a raw p S" "hs_load_session HA wA' sid (Some from) = Some S" "wf_proposal P a D p"
    "hs_invite HA = Some f" "f w2 (Some from) auth (invitation D raw ts p) = (Some resp, w3)"
    by (rule outbound_handler_ok [OF HA P raw a d A(1) B(1) A(2) B(2) A(3) B(3) A(4) uuid vsid alice(2) A(5,7,8) len(1) len(2,3) leno
          sign e2 e3 e4 gen p])
  define m where m: "m = (invitation D raw ts p)\<lparr>im_alice_identity_key := buf pka\<rparr>"
  have ids: "im_bob_signed_pre_key_id m = i" "im_bob_one_time_pre_key_id m = (case opk of None \<Rightarrow> 0 | Some (j, pk) \<Rightarrow> j)"
    by (simp_all add: m invitation_def p)
  obtain kopt B' where keys: "inbound_keys HB wB B m = Some (Some (spk, kopt))"
    "case opk of None \<Rightarrow> kopt = None | Some (j, pk) \<Rightarrow> \<exists>k. kopt = Some k \<and> opk_id k = j \<and> opk_key_pair k = Some (key_pair_of sko pk)"
    "case opk of None \<Rightarrow> True | Some (j, pk) \<Rightarrow> \<exists>r. mark_opk_as_used (Some B) j = Some (r, B')"
    by (rule inbound_keys_ok [OF P raw a bob(2,5) ids])
  obtain ss1 ct1 t1 where a1: "std_enc P a t pka = (ss1, ct1, t1)" by (metis prod_cases3)
  obtain ssr ctr t2 where a2: "std_enc P a t1 pke = (ssr, ctr, t2)" by (metis prod_cases3)
  obtain T wB' g w4 auth' r w5 where inb:
    "pqc_new_inbound_session HB P D wB t (Some B) (Some m) = Some (0, Some T, Some (case opk of None \<Rightarrow> B | Some _ \<Rightarrow> B'), wB', t2)"
    "se_associated_data T = buf (pka @ pkb)"
    "se_fingerprint T = buf (fingerprint_of P (pka @ pkb @ pkc @ (case opk of None \<Rightarrow> [] | Some (i, pk) \<Rightarrow> pk)))"
    "se_ratchet T = Some (e2ee_suite.bob_ratchet 32 (std_kdf P) (ss1 @ ss2 @ ss3 @ ss4) sks pke ctr)"
    "hs_accept HB = Some g" "g w4 (Some to) auth' (answer raw p ct1 ctr) = (Some r, w5)"
    "se_version T = Some E2EES_PROTOCOL_VERSION" "se_e2ees_pack_id T = raw" "se_session_id T = sid"
    "se_our_address T = Some to" "se_their_address T = Some from" "se_responded T"
    "hs_load_session HB wB' sid (Some to) = Some T"
    by (rule inbound_handler_ok [OF HB P raw a p out(4) B(4,5,7,8) cur m keys(1) bob(3) keys(2,3) len(1) bob(7) B(6) bob(4) pairo e2 e3 e4 a1 a2])
  obtain ssa cta u' where e5: "std_enc P a u pks = (ssa, cta, u')" by (metis prod_cases3)
  have ct: "length ct1 = pr_kem_ct_bytes P a" "length ctr = pr_kem_ct_bytes P a"
    using e2ee_suite.enc_call [OF suite len(1) a1] e2ee_suite.enc_call [OF suite _ a2] e2ee_suite.pair_length [OF suite gen(2)] by simp_all
  then have ne: "ct1 \<noteq> []" "ctr \<noteq> []" using e2ee_suite.sizes(3) [OF suite] by auto
  note N = answer_valid [OF raw out(4) ne]
  have load: "hs_load_session HA wA' (am_session_id (answer raw p ct1 ctr)) (am_to (answer raw p ct1 ctr)) = Some S"
    using out(3) by (simp add: answer_def p)
  have cached: "load_identity_key_from_cache cache (Some (pp_from p)) = Some (Some ikA)" using alice(3) A(7) by (simp add: p)
  have e5': "std_enc P a u (pp_spk p) = (ssa, cta, u')" using e5 by (simp add: p)
  obtain S' where S': "pqc_complete_outbound_session HA P cache wA' u (Some (answer raw p ct1 ctr)) =
      Some (0, Some S', hs_store_session HA wA' S', u')"
    "S' = S\<lparr>se_ratchet := Some (e2ee_suite.alice_ratchet 32 (std_kdf P) (ss1 @ pp_secret p) (pp_base_priv p) (pp_spk p) ctr cta ssa),
      se_responded := True, se_temp_shared_secret := buf (ss1 @ pp_secret p)\<rparr>"
    using complete_ok [OF P raw a out(2,4) N _ _ load cached A(8,6) a1 ct(2) e5'] by (auto simp: answer_def)
  have "length ss1 = pr_kem_ss_bytes P a" using e2ee_suite.enc_call [OF suite len(1) a1] by simp
  moreover have "pr_kem_ss_bytes P a > 0" using P suite_of_valid [OF raw] a by (auto simp: prims_ok_def kem_documented_def)
  ultimately have secret: "ss1 @ ss2 @ ss3 @ ss4 \<noteq> []" by auto
  have ad: "pka @ pkb \<noteq> []" using len e2ee_suite.sizes [OF suite] by auto
  have "talk mem_ok (suite_of P raw) (buf (pka @ pkb)) (e2ee_suite.alice_ratchet 32 (std_kdf P) (ss1 @ ss2 @ ss3 @ ss4) ske pks ctr cta ssa)
      (e2ee_suite.bob_ratchet 32 (std_kdf P) (ss1 @ ss2 @ ss3 @ ss4) sks pke ctr) ms v = Some (map (\<lambda>m. (0, plain_out m)) ms)"
    by (rule talk_after_init [where mem_ok = mem_ok, OF P raw a gen(2) bob(4) secret a2 e5 ad mem ms])
  moreover have "se_associated_data S' = buf (pka @ pkb)"
    "se_fingerprint S' = buf (fingerprint_of P (pka @ pkb @ pks @ (case opk of None \<Rightarrow> [] | Some (j, pk) \<Rightarrow> pk)))"
    "se_ratchet S' = Some (e2ee_suite.alice_ratchet 32 (std_kdf P) (ss1 @ ss2 @ ss3 @ ss4) ske pks ctr cta ssa)"
    using out(2) by (simp_all add: S'(2) proposes_def p)
  moreover have "handshake HA HB P D cache wA wB s t u from to pka B (bundle_of raw to pkb sign i pks sig opk) S' T
      (hs_store_session HA wA' S') wB'"
    unfolding handshake_def using out(1,5,6) inb(1,5,6) S'(1) unfolding m by blast
  moreover obtain id where id: "sid = Some id" "id \<noteq> []" using vsid by (auto simp: is_valid_string_def split: option.splits)
  moreover have "endpoint P D raw (pka @ pkb) id from to S'" "endpoint P D raw (pka @ pkb) id to from T"
    using out(2) inb raw A(1,2) B(1,2) id ad fingerprint_ok(2) [OF P raw a]
    by (simp_all add: endpoint_def S'(2) proposes_def p E2EES_PROTOCOL_VERSION_def)
  moreover have "hs_load_session HA (hs_store_session HA wA' S') (Some id) (Some from) = Some S'"
    using host_store [OF HA, of wA' S'] out(2) id by (simp add: S'(2) proposes_def p)
  moreover have "hs_load_session HB wB' (Some id) (Some to) = Some T" using inb(13) id by simp
  ultimately show ?thesis using inb uuid by (metis (no_types, lifting) fst_conv)
qed

end
