(* ===== verification/Session_Props.thy ===== *)
theory Session_Props
  imports Session_Laws Account_Props
begin

section \<open>Properties of sessions\<close>

text \<open>
  The handshake of two users over their hosts and a server, from the pre-key bundle to the first
  conversation, and the cases in which it fails or the two sides end with different fingerprints.
\<close>

subsection \<open>A host with the documented behaviour\<close>

text \<open>A host that does nothing and a host with a list of sessions as its database.\<close>

definition idle_host :: "'w host" where
  "idle_host =
     \<lparr>hs_gen_ts = (\<lambda>w. (5, w)), hs_gen_uuid = (\<lambda>w. ([1], w)), hs_base64 = (\<lambda>_. ''id''),
      hs_load_account_by_address = (\<lambda>w adr. None), hs_load_signed_pre_key = (\<lambda>w adr i. None),
      hs_update_one_time_pre_key = (\<lambda>w adr i. w), hs_load_auth = (\<lambda>w adr. None),
      hs_load_session = (\<lambda>w sid adr. None), hs_store_session = (\<lambda>w S. w),
      hs_store_pending_request_data = (\<lambda>w adr i r. w), hs_invite = None, hs_accept = None,
      hs_on_inbound_session_invited = (\<lambda>w a b. w), hs_on_inbound_session_ready = (\<lambda>w a S. w),
      hs_on_outbound_session_ready = (\<lambda>w a S. w), hs_on_one2one_msg_received = (\<lambda>w a b c p. w),
      hs_on_other_device_msg_received = (\<lambda>w a b c p. w), hs_on_group_created = (\<lambda>w a g n ms k. w),
      hs_on_group_msg_received = (\<lambda>w a b g p. w), hs_unload_session = (\<lambda>w a b. w),
      hs_unload_old_session = (\<lambda>w a b t. w), hs_load_pending_plaintext_data = (\<lambda>w a b. []),
      hs_unload_pending_plaintext_data = (\<lambda>w a b i. w), hs_store_pending_plaintext_data = (\<lambda>w a b i p l. w),
      hs_send_one2one_msg = None, hs_pack_plaintext = (\<lambda>p. []), hs_unpack_plaintext = (\<lambda>b. None),
      hs_store_group_session = (\<lambda>w G. w), hs_load_group_session_by_id = (\<lambda>w a b i. None),
      hs_load_group_session_by_address = (\<lambda>w a b g. None), hs_load_group_sessions = (\<lambda>w a g. (0, None)),
      hs_load_outbound_sessions = (\<lambda>w a u d. (0, None)), hs_load_outbound_session = (\<lambda>w a b. None),
      hs_get_pre_key_bundle = None, hs_send_group_msg = None, hs_unload_group_session_by_address = (\<lambda>w a g. w),
      hs_unload_group_session_by_id = (\<lambda>w a i. w)\<rparr>"

definition demo_host :: "string \<Rightarrow> account \<Rightarrow> signed_pre_key \<Rightarrow> session list host" where
  "demo_host tok A old = idle_host
     \<lparr>hs_load_account_by_address := (\<lambda>w adr. Some A), hs_load_signed_pre_key := (\<lambda>w adr i. Some old),
      hs_load_auth := (\<lambda>w adr. Some tok),
      hs_load_session := (\<lambda>w sid adr. find (\<lambda>S. se_session_id S = sid \<and> se_our_address S = adr) w),
      hs_store_session := (\<lambda>w S. S # w),
      hs_invite := Some (\<lambda>w adr auth m.
        (Some \<lparr>ir_code = RESPONSE_CODE_OK, ir_session_id = im_session_id m, ir_invite_t = 6\<rparr>, w)),
      hs_accept := Some (\<lambda>w adr auth m. (Some \<lparr>ar_code = RESPONSE_CODE_OK\<rparr>, w))\<rparr>"

lemma demo_host_documented: "host_documented (demo_host tok A old)"
  by (auto simp: host_documented_def demo_host_def idle_host_def)

definition demo_address :: "string \<Rightarrow> address" where
  "demo_address u = \<lparr>ad_domain = Some ''d'', ad_peer_case = PEER_USER,
     ad_user = Some \<lparr>pu_user_name = Some ''n'', pu_user_id = Some u, pu_device_id = Some ''v''\<rparr>, ad_group = None\<rparr>"

definition demo_spk :: "u32 \<Rightarrow> byte \<Rightarrow> signed_pre_key" where
  "demo_spk i k = \<lparr>spk_id = i, spk_key_pair = Some (key_pair_of [k] [k]), spk_signature = buf [k + 9], spk_ttl = 9\<rparr>"

definition demo_user :: "string \<Rightarrow> byte \<Rightarrow> account" where
  "demo_user u k = (demo_registered 0x113101)\<lparr>acc_address := Some (demo_address u),
     acc_identity_key := Some \<lparr>ik_asym_key_pair = Some (key_pair_of [k] [k]), ik_sign_key_pair = Some (key_pair_of [9] [9])\<rparr>,
     acc_signed_pre_key := Some (demo_spk 2 7),
     acc_one_time_pre_key_list := Some [Some \<lparr>opk_id = 3, opk_used = False, opk_key_pair = Some (key_pair_of [8] [8])\<rparr>],
     acc_n_one_time_pre_key_list := 1\<rparr>"

definition demo_cache :: "string \<Rightarrow> byte \<Rightarrow> cache" where
  "demo_cache u k = [cache_entry (demo_user u k)]"

lemma demo_pair: "std_pair demo_prims KEM_MLKEM1024 [n] [n]"
  unfolding std_pair_def by (intro exI [of _ "unat n"]) (simp add: demo_prims_def)

lemma demo_user_ready:
  assumes "u \<noteq> []" "tok \<noteq> []"
  shows "user_ready (demo_host tok A old) demo_prims \<lparr>gd_string = Some [], gd_role = GROUP_ROLE_MEMBER, gd_notif_level_normal = 0, gd_notif_level_session = 1\<rparr> KEM_MLKEM1024
    (demo_address u) (demo_user u k) [k] [k]"
  using assms demo_pair [of k] demo_pack(1) [of demo_prims]
  by (simp add: user_ready_def demo_host_def idle_host_def demo_address_def demo_user_def demo_registered_simps demo_spk_def
      key_pair_of_def valid_array_eq is_valid_one_time_pre_key_def wf_address_def wf_str_def)

lemma demo_cached:
  "load_identity_key_from_cache (demo_cache u k) (Some (demo_address u)) = Some (acc_identity_key (demo_user u k))"
  by (simp add: load_identity_key_from_cache_def demo_cache_def cache_entry_def demo_user_def compare_address_def
      demo_address_def copy_ik_from_ik_def copy_key_pair_from_key_pair_def key_pair_of_def)

lemma demo_sides:
  "has_spk (demo_host tok A (demo_spk 1 6)) w (demo_user u k) 2 (demo_spk 2 7)"
  "has_spk (demo_host tok A (demo_spk 1 6)) w (demo_user u k) 1 (demo_spk 1 6)"
  "has_opk demo_prims KEM_MLKEM1024 (demo_user u k) (Some (3, [8])) [8]"
  "is_valid_string (fst (generate_uuid_str (demo_host tok A old) w))"
  using demo_pair [of 8]
  by (auto simp: has_spk_def has_opk_def demo_user_def demo_spk_def demo_host_def idle_host_def is_valid_signed_pre_key_def
      is_valid_key_pair_def key_pair_of_def holds_opks_def generate_uuid_str_def crypto_base64_encode_def
      intro: exI [of _ "[_]"])

subsection \<open>The handshake\<close>

text \<open>
  C2: two registered users with documented hosts run the handshake: the inviter builds an outbound
  session from a bundle with the other side's keys (signed pre-key current, signature of the
  announced length, with or without a one-time pre-key), the server delivers the invitation with the
  inviter's identity key, the invited side answers, and the answer completes the outbound session.
  All three handlers succeed, both sessions have the same associated data and the same fingerprint,
  and over their ratchets every message of an alternating conversation is decrypted to its plaintext.
\<close>

theorem session_established:
  assumes "host_documented HA" and "host_documented HB"
    and "prims_ok P" and "is_valid_e2ees_pack_id P raw" and "pack_kem raw = Some a"
    and "pack_ds raw = Some d" "d \<noteq> DS_CURVE25519"
    and alice: "user_ready HA P D a from A ska pka" "hs_load_account_by_address HA wA (Some from) = Some A"
      "load_identity_key_from_cache cache (Some from) = Some (acc_identity_key A)"
      "is_valid_string (fst (generate_uuid_str HA wA))"
    and bob: "user_ready HB P D a to B skb pkb" "acc_signed_pre_key B = Some spk"
      "spk_key_pair spk = Some (key_pair_of sks pks)" "std_pair P a sks pks" "has_opk P a B opk sko"
    and sign: "length sign = pr_sign_pk_bytes P d" "length sig = pr_sign_bytes P d" "sign \<noteq> []" "sig \<noteq> []"
      "pr_sign_verify P d sig pks (Some sign) = 0"
    and ms: "\<forall>m\<in>set ms. length m \<le> GCM_LIMIT" "length ms + 1 < 2 ^ 32" and mem: "mem_ok GrowCurrent"
  shows "\<exists>S T x y vA vB. handshake HA HB P D cache wA wB s t u from to pka B (bundle_of raw to pkb sign (spk_id spk) pks sig opk) S T vA vB \<and>
    se_associated_data S = se_associated_data T \<and> se_fingerprint S = se_fingerprint T \<and>
    se_ratchet S = Some x \<and> se_ratchet T = Some y \<and>
    talk mem_ok (suite_of P raw) (se_associated_data S) x y ms v = Some (map (\<lambda>m. (0, plain_out m)) ms)"
proof -
  have cur: "has_spk HB wB B (spk_id spk) spk" "map_option spk_key_pair (acc_signed_pre_key B) = Some (Some (key_pair_of sks pks))"
    using bob(2,3) by (simp_all add: has_spk_def)
  have len: "length pks = pr_kem_pk_bytes P a" using e2ee_suite.pair_length [OF suite_of_laws [OF assms(3-5)] bob(4)] by simp
  show ?thesis
    using sessions_agree [where mem_ok = mem_ok, OF assms(1-7) alice bob(1) cur(1) bob(3-5) cur(2) len sign ms mem, of s t u v]
    by (metis (no_types, lifting))
qed

abbreviation (input) demo_D :: gen_defaults where
  "demo_D \<equiv> \<lparr>gd_string = Some [], gd_role = GROUP_ROLE_MEMBER, gd_notif_level_normal = 0, gd_notif_level_session = 1\<rparr>"

abbreviation (input) demo_alice :: "session list host" where
  "demo_alice \<equiv> demo_host ''t'' (demo_user ''a'' 5) (demo_spk 1 6)"

abbreviation (input) demo_bob :: "session list host" where
  "demo_bob \<equiv> demo_host ''t'' (demo_user ''b'' 4) (demo_spk 1 6)"

lemma demo_sign: "length [9 :: byte] = pr_sign_pk_bytes demo_prims d" "length [n + 9 :: byte] = pr_sign_bytes demo_prims d"
  "[9 :: byte] \<noteq> []" "[n + 9 :: byte] \<noteq> []" "pr_sign_verify demo_prims d [n + 9] [n] (Some [9]) = 0"
  by (simp_all add: demo_prims_def)

lemmas demo_handshake = demo_host_documented demo_host_documented demo_prims_ok demo_pack demo_ds(1,2)

theorem session_established_witness:
  "\<exists>S T x y vA vB. handshake demo_alice demo_bob demo_prims demo_D (demo_cache ''a'' 5) [] [] 0 0 0
      (demo_address ''a'') (demo_address ''b'') [5] (demo_user ''b'' 4)
      (bundle_of 0x113101 (demo_address ''b'') [4] [9] (spk_id (demo_spk 2 7)) [7] [7 + 9] (Some (3, [8]))) S T vA vB \<and>
    se_associated_data S = se_associated_data T \<and> se_fingerprint S = se_fingerprint T \<and>
    se_ratchet S = Some x \<and> se_ratchet T = Some y \<and>
    talk (\<lambda>_. True) (suite_of demo_prims 0x113101) (se_associated_data S) x y [[10], [20]] 0 =
      Some (map (\<lambda>m. (0, plain_out m)) [[10], [20]])"
  by (rule session_established [OF demo_handshake demo_user_ready _ demo_cached demo_sides(4) demo_user_ready _ _
        demo_pair demo_sides(3) demo_sign])
    (simp_all add: demo_host_def idle_host_def demo_user_def demo_spk_def)

text \<open>
  When the bundle names an older signed pre-key that the invited side still has, the handshake
  succeeds, but the two sides compute their fingerprints over different
  keys: the inviter over the key it was given, the invited side over its current one.  They differ
  whenever the key derivation separates the two inputs.
\<close>

lemma old_spk_fingerprints_differ:
  assumes "host_documented HA" and "host_documented HB"
    and "prims_ok P" and "is_valid_e2ees_pack_id P raw" and "pack_kem raw = Some a"
    and "pack_ds raw = Some d" "d \<noteq> DS_CURVE25519"
    and alice: "user_ready HA P D a from A ska pka" "hs_load_account_by_address HA wA (Some from) = Some A"
      "load_identity_key_from_cache cache (Some from) = Some (acc_identity_key A)"
      "is_valid_string (fst (generate_uuid_str HA wA))"
    and bob: "user_ready HB P D a to B skb pkb" "has_spk HB wB B i old" "spk_key_pair old = Some (key_pair_of sks pks)"
      "std_pair P a sks pks" "has_opk P a B opk sko"
      "map_option spk_key_pair (acc_signed_pre_key B) = Some (Some (key_pair_of skc pkc))" "length pkc = pr_kem_pk_bytes P a"
    and sign: "length sign = pr_sign_pk_bytes P d" "length sig = pr_sign_bytes P d" "sign \<noteq> []" "sig \<noteq> []"
      "pr_sign_verify P d sig pks (Some sign) = 0"
    and separated: "fingerprint_of P (pka @ pkb @ pks @ (case opk of None \<Rightarrow> [] | Some (j, pk) \<Rightarrow> pk)) \<noteq>
      fingerprint_of P (pka @ pkb @ pkc @ (case opk of None \<Rightarrow> [] | Some (j, pk) \<Rightarrow> pk))"
  shows "\<exists>S T vA vB. handshake HA HB P D cache wA wB s t u from to pka B (bundle_of raw to pkb sign i pks sig opk) S T vA vB \<and>
    se_fingerprint S \<noteq> se_fingerprint T"
proof -
  have ms: "\<forall>m\<in>set ([] :: bytes list). length m \<le> GCM_LIMIT" "length ([] :: bytes list) + 1 < 2 ^ 32" by simp_all
  obtain S T vA vB where run: "handshake HA HB P D cache wA wB s t u from to pka B (bundle_of raw to pkb sign i pks sig opk) S T vA vB"
    "se_fingerprint S = buf (fingerprint_of P (pka @ pkb @ pks @ (case opk of None \<Rightarrow> [] | Some (j, pk) \<Rightarrow> pk)))"
    "se_fingerprint T = buf (fingerprint_of P (pka @ pkb @ pkc @ (case opk of None \<Rightarrow> [] | Some (j, pk) \<Rightarrow> pk)))"
    using sessions_agree [where mem_ok = "\<lambda>_. True", OF assms(1-7) alice bob sign ms, of s t u] by blast
  have "se_fingerprint S \<noteq> se_fingerprint T" using run(2,3) separated by (simp add: buf_def)
  then show ?thesis using run(1) by blast
qed

lemma old_spk_fingerprints_differ_witness:
  "\<exists>S T vA vB. handshake demo_alice demo_bob demo_prims demo_D (demo_cache ''a'' 5) [] [] 0 0 0
      (demo_address ''a'') (demo_address ''b'') [5] (demo_user ''b'' 4)
      (bundle_of 0x113101 (demo_address ''b'') [4] [9] 1 [6] [6 + 9] (Some (3, [8]))) S T vA vB \<and>
    se_fingerprint S \<noteq> se_fingerprint T"
  by (rule old_spk_fingerprints_differ [OF demo_handshake demo_user_ready _ demo_cached demo_sides(4) demo_user_ready
        demo_sides(2) _ demo_pair demo_sides(3) _ _ demo_sign, of _ _ _ _ _ _ _ _ _ _ "[7]" "[7]"])
    (simp_all add: demo_host_def idle_host_def demo_user_def demo_spk_def fingerprint_of_def std_kdf_def demo_prims_def)

subsection \<open>Refusals and failures\<close>

text \<open>
  A bundle whose signature is shorter than the announced maximum is refused, even when the
  signature verifies.  The signed pre-keys of a scheme with signatures of varying length, which
  \<open>generate_signed_pre_key\<close> accepts, are refused this way.
\<close>

lemma short_signature_refused:
  assumes raw: "is_valid_e2ees_pack_id P raw" and a: "pack_kem raw = Some a"
    and d: "pack_ds raw = Some d" "d \<noteq> DS_CURVE25519"
    and short: "length sig < pr_sign_bytes P d" and verify: "pr_sign_verify P d sig pks (Some sign) = 0"
    and sender: "is_valid_address (Some from)" "hs_load_account_by_address H w (Some from) = Some A"
      "is_valid_registered_account P (Some A) = Some True"
    and bd: "is_valid_pre_key_bundle (Some (bundle_of raw to pkb sign i pks sig opk))"
  shows "pqc_new_outbound_session_v2 H P D w s (Some from) (Some (bundle_of raw to pkb sign i pks sig opk)) =
    Some (- 1, None, w, s)"
proof -
  note cs = suite_of_pqc [OF raw a d]
  have checks: "outbound_checks (suite_of P raw) \<lparr>ikp_asym_public_key = buf pkb, ikp_sign_public_key = buf sign\<rparr>
      \<lparr>spkp_spk_id = i, spkp_public_key = buf pks, spkp_signature = buf sig\<rparr> o' = Some (- 1)" for o'
    using short by (simp add: outbound_checks_def kem_param_def ds_param_def cs E2EES_DS_PQC_def E2EES_KEM_PQC_def
        crypto_ds_params_pqc_def)
  have "acc_identity_key A \<noteq> None"
    using sender(3) by (auto simp: is_valid_registered_account_def is_valid_identity_key_def split: if_splits option.splits)
  then show ?thesis using sender bd valid_suite [OF raw] checks
    by (auto simp: pqc_new_outbound_session_v2_def Let_def bundle_of_def)
qed

lemma short_signature_refused_witness:
  "pqc_new_outbound_session_v2 demo_alice (demo_prims\<lparr>pr_sign_bytes := (\<lambda>_. 2)\<rparr>) demo_D [] 0 (Some (demo_address ''a''))
     (Some (bundle_of 0x113101 (demo_address ''b'') [4] [9] 1 [6] [6 + 9] None)) = Some (- 1, None, [], 0)"
  by (rule short_signature_refused [OF demo_pack demo_ds(1,2), where A = "demo_user ''a'' 5"])
    (simp_all add: demo_prims_def demo_host_def idle_host_def demo_address_def demo_user_def demo_registered_simps demo_spk_def
      key_pair_of_def valid_array_eq is_valid_one_time_pre_key_def demo_pack is_valid_pre_key_bundle_def bundle_of_def
      is_valid_identity_key_public_def is_valid_signed_pre_key_public_def)

text \<open>
  An invitation that names a one-time pre-key but carries only the two ciphertexts of an
  invitation without one passes the validator; the invited side reads a third ciphertext behind the
  end of the list.
\<close>

lemma missing_ciphertext_undefined:
  assumes acc: "is_valid_registered_account P (Some B) = Some True" and msg: "is_valid_invite_msg P (Some m) = Some True"
    and keys: "inbound_keys H w B m = Some (Some (spk, Some k))"
    and pairs: "map_option ik_asym_key_pair (acc_identity_key B) = Some (Some ik_pair)"
      "spk_key_pair spk = Some spk_pair" "opk_key_pair k = Some opk_pair"
    and len: "map_option kp_asym_priv_key_len (kem_param (suite_of P (im_e2ees_pack_id m))) = Some n"
      "pb_len (kpr_private_key ik_pair) = n" "pb_len (kpr_private_key spk_pair) = n" "pb_len (kpr_private_key opk_pair) = n"
    and two: "im_pre_shared_input_list m = Some [x, y]"
  shows "pqc_new_inbound_session H P D w s (Some B) (Some m) = None"
proof -
  have none: "inbound_session cs T m b c e (Some k') t = None" for cs T b c e k' t
    by (rule option.exhaust [of "inbound_session cs T m b c e (Some k') t"])
      (auto simp: inbound_session_def Let_def two array_get_def bind_eq_Some_conv)
  obtain kem where kem: "kem_param (suite_of P (im_e2ees_pack_id m)) = Some kem" "kp_asym_priv_key_len kem = n"
    using len(1) by auto
  obtain ik where ik: "acc_identity_key B = Some ik" "ik_asym_key_pair ik = Some ik_pair" using pairs(1) by auto
  show ?thesis
    by (rule option.exhaust [of "pqc_new_inbound_session H P D w s (Some B) (Some m)"])
      (auto simp: pqc_new_inbound_session_def acc msg keys kem ik pairs len none Let_def bind_eq_Some_conv)
qed

definition demo_invitation :: "u32 \<Rightarrow> bdata list \<Rightarrow> invite_msg" where
  "demo_invitation i xs = (init_invite_msg demo_D)\<lparr>im_version := Some ''1'', im_e2ees_pack_id := 0x113101,
     im_session_id := Some ''id'', im_from := Some (demo_address ''a''), im_to := Some (demo_address ''b''),
     im_alice_identity_key := buf [5], im_alice_base_key := buf [3], im_n_pre_shared_input_list := length xs,
     im_pre_shared_input_list := Some xs, im_bob_signed_pre_key_id := 2, im_bob_one_time_pre_key_id := i\<rparr>"

lemma demo_invitation_valid:
  "is_valid_invite_msg demo_prims (Some (demo_invitation i [buf [1], buf [2]])) = Some True"
  using demo_pack(1) [of demo_prims]
  by (simp add: is_valid_invite_msg_def demo_invitation_def demo_address_def is_valid_address_def
      is_valid_protobuf_list_def valid_array_eq)

lemma demo_user_valid: "is_valid_registered_account demo_prims (Some (demo_user ''b'' 4)) = Some True"
  using demo_user_ready [of "''b''" "''t''"] by (simp add: user_ready_def)

lemma demo_inbound_keys:
  "inbound_keys H w (demo_user ''b'' 4) (demo_invitation 3 xs) = Some (Some (demo_spk 2 7,
     Some \<lparr>opk_id = 3, opk_used = False, opk_key_pair = Some (key_pair_of [8] [8])\<rparr>))"
proof -
  have "holds_opks (demo_user ''b'' 4) [\<lparr>opk_id = 3, opk_used = False, opk_key_pair = Some (key_pair_of [8] [8])\<rparr>]"
    by (simp add: holds_opks_def demo_user_def)
  from lookup_eq [OF this, of 3] show ?thesis
    by (simp add: inbound_keys_def demo_invitation_def demo_user_def demo_spk_def is_valid_one_time_pre_key_def
        is_valid_key_pair_def key_pair_of_def)
qed

lemma missing_ciphertext_undefined_witness:
  "pqc_new_inbound_session demo_bob demo_prims demo_D [] 0 (Some (demo_user ''b'' 4))
     (Some (demo_invitation 3 [buf [1], buf [2]])) = None"
proof (rule missing_ciphertext_undefined [where ik_pair = "key_pair_of [4] [4]" and spk_pair = "key_pair_of [7] [7]"
      and opk_pair = "key_pair_of [8] [8]", OF demo_user_valid demo_invitation_valid demo_inbound_keys])
  show "map_option kp_asym_priv_key_len (kem_param (suite_of demo_prims
      (im_e2ees_pack_id (demo_invitation 3 [buf [1], buf [2]])))) = Some 1"
    using e2ee_suite.kem_param [OF suite_of_laws [OF demo_prims_ok demo_pack]]
    by (simp add: demo_invitation_def demo_prims_def)
qed (simp_all add: demo_user_def demo_spk_def key_pair_of_def demo_invitation_def)

text \<open>
  A one-time pre-key serves more than once: after an invitation has used it and it is marked as
  used, a second invitation that names it finds the same key pair, still in the account, and goes on
  with it.
\<close>

lemma one_time_pre_key_reused:
  assumes ks: "holds_opks B ks" and m: "im_bob_one_time_pre_key_id m = j" "j \<noteq> 0"
    and first: "inbound_keys H w B m = Some (Some (spk, Some k))"
    and used: "mark_opk_as_used (Some B) j = Some (ret, B')"
  shows "inbound_keys H w B' m = Some (Some (spk, Some (k\<lparr>opk_used := True\<rparr>)))"
proof -
  have found: "find (\<lambda>k. opk_id k = j) ks = Some k"
    using first m lookup_eq [OF ks, of j]
    by (auto simp: inbound_keys_def bind_eq_Some_conv Let_def split: if_splits)
  have B': "B' = B\<lparr>acc_one_time_pre_key_list := Some (map Some (use_first ks j))\<rparr>"
    using mark_eq [OF ks, of j] used found by simp
  then have "holds_opks B' (use_first ks j)" using ks by (simp add: holds_opks_def)
  from lookup_eq [OF this, of j] have "lookup_one_time_pre_key (Some B') j = Some (Some (k\<lparr>opk_used := True\<rparr>))"
    using find_use_first [of j ks j] found by simp
  moreover have "acc_signed_pre_key B' = acc_signed_pre_key B" "acc_address B' = acc_address B" by (simp_all add: B')
  ultimately show ?thesis using first m lookup_eq [OF ks, of j] found
    by (auto simp: inbound_keys_def bind_eq_Some_conv Let_def is_valid_one_time_pre_key_def split: if_splits)
qed

lemma one_time_pre_key_reused_witness:
  "\<exists>ret B'. mark_opk_as_used (Some (demo_user ''b'' 4)) 3 = Some (ret, B') \<and>
    inbound_keys demo_bob [] B' (demo_invitation 3 []) = Some (Some (demo_spk 2 7,
      Some \<lparr>opk_id = 3, opk_used = True, opk_key_pair = Some (key_pair_of [8] [8])\<rparr>))"
proof -
  have ks: "holds_opks (demo_user ''b'' 4) [\<lparr>opk_id = 3, opk_used = False, opk_key_pair = Some (key_pair_of [8] [8])\<rparr>]"
    by (simp add: holds_opks_def demo_user_def)
  obtain ret B' where mark: "mark_opk_as_used (Some (demo_user ''b'' 4)) 3 = Some (ret, B')"
    using mark_eq [OF ks, of 3] by simp
  have id: "im_bob_one_time_pre_key_id (demo_invitation 3 []) = 3" by (simp add: demo_invitation_def)
  show ?thesis using one_time_pre_key_reused [OF ks id _ demo_inbound_keys mark, of demo_bob "[]"] mark by simp
qed

text \<open>
  An invitation whose session id the receiver has stored already changes nothing: no session, no
  callback, no draw from the random tape.
\<close>

lemma repeated_invitation_ignored:
  assumes "is_valid_address (Some receiver)" and "is_valid_invite_msg P (Some m) = Some True"
    and "hs_load_session H w (im_session_id m) (Some receiver) = Some T"
  shows "consume_invite_msg H P D w s (Some receiver) (Some m) = Some (True, w, s)"
proof -
  have "is_valid_address (im_to m)" using assms(2) by (auto simp: is_valid_invite_msg_def split: if_splits)
  then obtain to where to: "im_to m = Some to" "wf_peer to"
    using valid_address_wf_peer by (cases "im_to m") (auto simp: is_valid_address_def)
  show ?thesis using assms to compare_address_id [OF valid_address_wf_peer [OF assms(1)] to(2)]
    by (simp add: consume_invite_msg_def)
qed

lemma repeated_invitation_ignored_witness:
  "consume_invite_msg demo_bob demo_prims demo_D
     [(init_session demo_D)\<lparr>se_session_id := Some ''id'', se_our_address := Some (demo_address ''b'')\<rparr>] 0
     (Some (demo_address ''b'')) (Some (demo_invitation 0 [buf [1], buf [2]])) =
   Some (True, [(init_session demo_D)\<lparr>se_session_id := Some ''id'', se_our_address := Some (demo_address ''b'')\<rparr>], 0)"
  by (rule repeated_invitation_ignored [OF _ demo_invitation_valid])
    (simp_all add: demo_address_def is_valid_address_def demo_host_def idle_host_def demo_invitation_def)

text \<open>
  When the server does not answer an invitation, the call fails and exactly the invitation that
  was sent is stored as a pending request, under a fresh id.
\<close>

lemma unanswered_invitation_pending:
  assumes "is_valid_uncompleted_session P (Some S) = Some True"
    and "is_valid_string (hs_load_auth H w (se_our_address S))"
    and "produce_invite_request D S = Some (ret, m)"
    and "dispatch_proto_request (hs_invite H) w m (se_our_address S) (hs_load_auth H w (se_our_address S)) = (None, w')"
    and "generate_uuid_str H w' = (i, w'')"
  shows "invite_internal H P D w S =
    Some (- 1, None, hs_store_pending_request_data H w'' (se_our_address S) i (PENDING_REQUEST_TYPE_INVITE m))"
  using assms
  by (simp add: invite_internal_def consume_invite_response_def is_valid_invite_response_def
      store_pending_request_internal_def Let_def)

definition demo_outbound :: session where
  "demo_outbound = (init_session demo_D)\<lparr>se_version := Some ''1'', se_e2ees_pack_id := 0x113101, se_session_id := Some ''id'',
     se_our_address := Some (demo_address ''a''), se_their_address := Some (demo_address ''b''),
     se_temp_shared_secret := buf [0], se_fingerprint := buf [1], se_alice_base_key := Some (key_pair_of [3] [3]),
     se_n_pre_shared_input_list := 1, se_pre_shared_input_list := Some [buf [2]],
     se_ratchet := Some (init_ratchet\<lparr>rt_sender_chain :=
       Some (init_sender_chain\<lparr>sc_their_ratchet_public_key := buf [7]\<rparr>)\<rparr>)\<rparr>"

lemma unanswered_invitation_pending_witness:
  "\<exists>m. invite_internal (demo_alice\<lparr>hs_invite := None\<rparr>) demo_prims demo_D [] demo_outbound =
    Some (- 1, None, hs_store_pending_request_data demo_alice [] (Some (demo_address ''a'')) (Some ''id'')
      (PENDING_REQUEST_TYPE_INVITE m))"
proof -
  have adr: "copy_address_from_address demo_D (Some (demo_address u)) = Some (demo_address u)" for u
    by (rule address_copy.copy_id) (simp add: demo_address_def wf_address_def wf_str_def)
  have valid: "is_valid_uncompleted_session demo_prims (Some demo_outbound) = Some True"
    using demo_pack(1) [of demo_prims]
    by (simp add: is_valid_uncompleted_session_def demo_outbound_def demo_address_def is_valid_address_def key_pair_of_def
        is_valid_key_pair_def is_valid_protobuf_list_def valid_array_eq and_then_def)
  obtain m where m: "produce_invite_request demo_D demo_outbound = Some (0, m)"
    by (simp add: produce_invite_request_def demo_outbound_def adr key_pair_of_def array_get_def init_protobuf_def)
  have "invite_internal (demo_alice\<lparr>hs_invite := None\<rparr>) demo_prims demo_D [] demo_outbound =
      Some (- 1, None, hs_store_pending_request_data (demo_alice\<lparr>hs_invite := None\<rparr>) [] (se_our_address demo_outbound)
        (Some ''id'') (PENDING_REQUEST_TYPE_INVITE m))"
    by (rule unanswered_invitation_pending [OF valid _ m])
      (simp_all add: demo_host_def idle_host_def dispatch_proto_request_def generate_uuid_str_def crypto_base64_encode_def)
  then show ?thesis by (auto simp: demo_outbound_def demo_host_def idle_host_def)
qed

end
