(* ===== verification/Group.thy ===== *)
theory Group
  imports Account Host
begin

section \<open>Group sessions\<close>

text \<open>
  \<open>src/group_session.c\<close> and the message handlers of \<open>src/group_session_manager.c\<close> and
  \<open>src/session_manager.c\<close> that build and use group sessions.  Each device keeps, for a group, one
  outbound session of its own and one inbound session per other device.  A session has a chain key
  that a hash advances with every message; it starts from the seed of the group's creator and the
  signing key of the session's sender, so who knows the seed and the member list can build the
  sessions of all members.  The four functions that also send messages over one-to-one sessions are
  not part of this theory.
\<close>

subsection \<open>Key derivation\<close>

definition SEED_SECRET_LEN :: nat where "SEED_SECRET_LEN = 32"

definition ROOT_SEED :: bytes where "ROOT_SEED = [0x52, 0x4f, 0x4f, 0x54]"

definition GROUP_CHAIN_KEY_SEED :: bytes where "GROUP_CHAIN_KEY_SEED = [0x02]"

definition GROUP_MESSAGE_KEY_SEED :: bytes where
  "GROUP_MESSAGE_KEY_SEED = [0x4d, 0x65, 0x73, 0x73, 0x61, 0x67, 0x65, 0x4b, 0x65, 0x79, 0x73]"

definition SALT_welcome :: bytes where "SALT_welcome = [0x77, 0x65, 0x6c, 0x63, 0x6f, 0x6d, 0x65]"

definition SALT_add :: bytes where "SALT_add = [0x61, 0x64, 0x64]"

definition advance_group_chain_key :: "cipher_suite \<Rightarrow> bdata \<Rightarrow> bdata option" where
  "advance_group_chain_key cs chain_key =
     do { hf \<leftarrow> hf_param cs; key \<leftarrow> read_pb chain_key;
          (_, shared_key) \<leftarrow> call_hmac cs key GROUP_CHAIN_KEY_SEED;
          shared_key \<leftarrow> fill (hfp_hf_len hf) shared_key;
          overwrite_protobuf_from_array chain_key shared_key }"

definition advance_group_chain_key_by_welcome :: "cipher_suite \<Rightarrow> bdata \<Rightarrow> bdata option" where
  "advance_group_chain_key_by_welcome cs src_chain_key =
     do { hf \<leftarrow> hf_param cs; key \<leftarrow> read_pb src_chain_key;
          (_, out) \<leftarrow> call_hkdf cs key SALT_welcome GROUP_CHAIN_KEY_SEED (hfp_hf_len hf);
          out \<leftarrow> fill (hfp_hf_len hf) out;
          Some (buf out) }"

definition advance_group_chain_key_by_add :: "cipher_suite \<Rightarrow> bdata \<Rightarrow> bdata \<Rightarrow> bdata option" where
  "advance_group_chain_key_by_add cs src_chain_key dest_chain_key =
     do { hf \<leftarrow> hf_param cs; key \<leftarrow> read_pb src_chain_key;
          (_, out) \<leftarrow> call_hkdf cs key SALT_add GROUP_CHAIN_KEY_SEED (hfp_hf_len hf);
          out \<leftarrow> fill (hfp_hf_len hf) out;
          overwrite_protobuf_from_array dest_chain_key out }"

text \<open>The derived key of the message key, whose other field stays 0.\<close>

definition create_group_message_key :: "cipher_suite \<Rightarrow> bdata \<Rightarrow> bdata option" where
  "create_group_message_key cs chain_key =
     do { se \<leftarrow> se_param cs; hf \<leftarrow> hf_param cs; key \<leftarrow> read_pb chain_key;
          let n = sep_aead_key_len se + sep_aead_iv_len se;
          (_, out) \<leftarrow> call_hkdf cs key (replicate (hfp_hf_len hf) 0) GROUP_MESSAGE_KEY_SEED n;
          out \<leftarrow> fill n out;
          Some (buf out) }"

text \<open>The chain key of a member: seed and signing key, hashed; written out in four functions of the source.\<close>

definition group_root_key :: "cipher_suite \<Rightarrow> bytes ptr \<Rightarrow> bytes ptr \<Rightarrow> bdata option" where
  "group_root_key cs group_seed identity_public_key =
     do { ds \<leftarrow> ds_param cs; hf \<leftarrow> hf_param cs;
          seed \<leftarrow> read_bytes group_seed SEED_SECRET_LEN;
          pk \<leftarrow> read_bytes identity_public_key (dsp_sign_pub_key_len ds);
          (_, out) \<leftarrow> call_hkdf cs (seed @ pk) (replicate (hfp_hf_len hf) 0) ROOT_SEED (hfp_hf_len hf);
          out \<leftarrow> fill (hfp_hf_len hf) out;
          Some (buf out) }"

definition group_associated_data :: "cipher_suite \<Rightarrow> bytes ptr \<Rightarrow> bdata option" where
  "group_associated_data cs identity_public_key =
     do { ds \<leftarrow> ds_param cs; pk \<leftarrow> read_bytes identity_public_key (dsp_sign_pub_key_len ds); Some (buf (pk @ pk)) }"

subsection \<open>Encryption\<close>

definition encrypt_group_msg ::
    "prims \<Rightarrow> u32 \<Rightarrow> bytes \<Rightarrow> bdata \<Rightarrow> bdata \<Rightarrow> u32 \<Rightarrow> identity_key \<Rightarrow> seed \<Rightarrow>
     (int \<times> group_msg_payload ptr \<times> seed) option" where
  "encrypt_group_msg P e2ees_pack_id plaintext chain_key associated_data sequence identity_key s =
     do { let cs = suite_of P e2ees_pack_id;
          derived_key \<leftarrow> create_group_message_key cs chain_key;
          (ret, ct) \<leftarrow> call_encrypt cs associated_data (pb_data derived_key) plaintext;
          if ret \<noteq> E2EES_RESULT_SUCC then Some (ret, None, s)
          else do {
            ciphertext \<leftarrow> read_pb ct; ds \<leftarrow> ds_param cs; key_pair \<leftarrow> deref (ik_sign_key_pair identity_key);
            (ret, sig, s) \<leftarrow> call_sign cs s ciphertext (pb_data (kpr_private_key key_pair));
            _ \<leftarrow> write_buf (replicate (dsp_sig_len ds) 0) sig;
            if ret \<noteq> E2EES_RESULT_SUCC then Some (ret, None, s)
            else do {
              signature \<leftarrow> fill (dsp_sig_len ds) sig;
              Some (ret, Some \<lparr>gmp_sequence = sequence, gmp_ciphertext = buf ciphertext, gmp_signature = buf signature\<rparr>, s) } } }"

subsection \<open>Data of a new session\<close>

definition init_group_session :: "gen_defaults \<Rightarrow> group_session" where
  "init_group_session D = \<lparr>gs_version = gd_string D, gs_e2ees_pack_id = 0, gs_session_id = gd_string D, gs_sender = None,
     gs_session_owner = None, gs_group_info = None, gs_sequence = 0, gs_group_seed = empty_bdata,
     gs_chain_key = empty_bdata, gs_associated_data = empty_bdata\<rparr>"

definition insert_outbound_group_session_data ::
    "'w host \<Rightarrow> prims \<Rightarrow> gen_defaults \<Rightarrow> 'w \<Rightarrow> group_session \<Rightarrow> u32 \<Rightarrow> address ptr \<Rightarrow> cstr \<Rightarrow> address ptr \<Rightarrow> cstr \<Rightarrow>
     group_member ptr array \<Rightarrow> nat \<Rightarrow> bytes ptr \<Rightarrow> (group_session \<times> 'w) option" where
  "insert_outbound_group_session_data H P D w outbound_group_session e2ees_pack_id user_address group_name group_address
     session_id group_member_list group_members_num identity_public_key =
     do { let cs = suite_of P e2ees_pack_id;
          sender \<leftarrow> copy_address_from_address D user_address;
          let (session_id, w) = (case session_id of None \<Rightarrow> generate_uuid_str H w | Some i \<Rightarrow> (Some i, w));
          name \<leftarrow> deref group_name;
          group_adr \<leftarrow> copy_address_from_address D group_address;
          members \<leftarrow> copy_group_members D group_member_list group_members_num;
          chain_key \<leftarrow> group_root_key cs (pb_data (gs_group_seed outbound_group_session)) identity_public_key;
          ad \<leftarrow> group_associated_data cs identity_public_key;
          Some (outbound_group_session\<lparr>gs_version := Some E2EES_PROTOCOL_VERSION, gs_e2ees_pack_id := e2ees_pack_id,
            gs_sender := Some sender, gs_session_owner := Some sender, gs_session_id := session_id,
            gs_group_info := Some ((init_group_info D)\<lparr>gi_group_name := Some name, gi_group_address := Some group_adr,
              gi_n_group_member_list := group_members_num, gi_group_member_list := Some members\<rparr>),
            gs_sequence := 0, gs_chain_key := chain_key, gs_associated_data := ad\<rparr>, w) }"

definition insert_inbound_group_session_data ::
    "gen_defaults \<Rightarrow> group_member_info \<Rightarrow> group_session \<Rightarrow> group_session \<Rightarrow> group_session option" where
  "insert_inbound_group_session_data D group_member_id other_group_session inbound_group_session =
     do { owner \<leftarrow> copy_address_from_address D (gs_session_owner other_group_session);
          version \<leftarrow> deref (gs_version other_group_session); session_id \<leftarrow> deref (gs_session_id other_group_session);
          sender \<leftarrow> copy_address_from_address D (gmi_member_address group_member_id);
          group_info \<leftarrow> copy_group_info D (gs_group_info other_group_session);
          Some (inbound_group_session\<lparr>gs_e2ees_pack_id := gs_e2ees_pack_id other_group_session,
            gs_session_owner := Some owner, gs_version := Some version, gs_session_id := Some session_id,
            gs_sender := Some sender, gs_group_info := Some group_info\<rparr>) }"

text \<open>
  The signing key of the own account, from the cache or the database, with the result code of the
  search; the block stands at the start of each function that makes an outbound session.
\<close>

definition own_sign_key :: "'w host \<Rightarrow> cache \<Rightarrow> 'w \<Rightarrow> address ptr \<Rightarrow> (int \<times> bytes ptr) option" where
  "own_sign_key H cache w user_address =
     (if \<not> is_valid_address user_address then Some (E2EES_RESULT_FAIL, None)
      else do {
        cached \<leftarrow> load_identity_key_from_cache cache user_address;
        (case cached of
           None \<Rightarrow> (let key = get_identity_public_key_ds_uint8_from_account (hs_load_account_by_address H w user_address)
                    in Some (if key = None then E2EES_RESULT_FAIL else E2EES_RESULT_SUCC, key))
         | Some identity_key \<Rightarrow> do { k \<leftarrow> deref (ik_sign_key_pair identity_key);
                                     Some (E2EES_RESULT_SUCC, pb_data (kpr_public_key k)) }) })"

definition new_outbound_group_session_by_receiver ::
    "'w host \<Rightarrow> prims \<Rightarrow> gen_defaults \<Rightarrow> cache \<Rightarrow> 'w \<Rightarrow> bdata \<Rightarrow> u32 \<Rightarrow> address ptr \<Rightarrow> cstr \<Rightarrow> address ptr \<Rightarrow> cstr \<Rightarrow>
     group_member ptr array \<Rightarrow> nat \<Rightarrow> (int \<times> 'w) option" where
  "new_outbound_group_session_by_receiver H P D cache w group_seed e2ees_pack_id user_address group_name group_address
     session_id group_member_list group_members_num =
     do { (ret, identity_public_key) \<leftarrow> own_sign_key H cache w user_address;
          members \<leftarrow> is_valid_group_member_list group_member_list group_members_num;
          if ret \<noteq> E2EES_RESULT_SUCC \<or> \<not> members \<or>
             \<not> (is_valid_e2ees_pack_id P e2ees_pack_id \<and> is_valid_protobuf (Some group_seed) \<and>
                is_valid_string group_name \<and> is_valid_address group_address \<and> is_valid_string session_id)
          then Some (E2EES_RESULT_FAIL, w)
          else do {
            seed \<leftarrow> read_pb group_seed;
            (session, w) \<leftarrow> insert_outbound_group_session_data H P D w ((init_group_session D)\<lparr>gs_group_seed := buf seed\<rparr>)
              e2ees_pack_id user_address group_name group_address session_id group_member_list group_members_num
              identity_public_key;
            let session = session\<lparr>gs_group_seed := free_protobuf (gs_group_seed session)\<rparr>;
            Some (E2EES_RESULT_SUCC, hs_store_group_session H w session) } }"

subsection \<open>Inbound sessions\<close>

definition new_inbound_group_session_by_pre_key_bundle ::
    "'w host \<Rightarrow> prims \<Rightarrow> gen_defaults \<Rightarrow> 'w \<Rightarrow> u32 \<Rightarrow> address ptr \<Rightarrow> group_pre_key_bundle ptr \<Rightarrow> (int \<times> 'w) option" where
  "new_inbound_group_session_by_pre_key_bundle H P D w e2ees_pack_id user_address group_pre_key_bundle =
     do { valid \<leftarrow> is_valid_group_pre_key_bundle P group_pre_key_bundle;
          if \<not> (is_valid_e2ees_pack_id P e2ees_pack_id \<and> is_valid_address user_address \<and> valid)
          then Some (E2EES_RESULT_FAIL, w)
          else do {
            b \<leftarrow> deref group_pre_key_bundle;
            owner \<leftarrow> copy_address_from_address D user_address;
            version \<leftarrow> deref (gpk_version b); session_id \<leftarrow> deref (gpk_session_id b);
            sender \<leftarrow> copy_address_from_address D (gpk_sender b);
            group_info \<leftarrow> copy_group_info D (gpk_group_info b);
            seed \<leftarrow> read_pb (gpk_group_seed b);
            Some (E2EES_RESULT_SUCC, hs_store_group_session H w ((init_group_session D)
              \<lparr>gs_e2ees_pack_id := e2ees_pack_id, gs_session_owner := Some owner, gs_version := Some version,
               gs_session_id := Some session_id, gs_sender := Some sender, gs_group_info := Some group_info,
               gs_sequence := gpk_sequence b, gs_group_seed := buf seed\<rparr>)) } }"

definition new_inbound_group_session_by_member_id ::
    "'w host \<Rightarrow> prims \<Rightarrow> gen_defaults \<Rightarrow> 'w \<Rightarrow> u32 \<Rightarrow> address ptr \<Rightarrow> group_member_info ptr \<Rightarrow> group_info ptr \<Rightarrow>
     (int \<times> 'w) option" where
  "new_inbound_group_session_by_member_id H P D w e2ees_pack_id user_address group_member_id group_info =
     do { valid \<leftarrow> is_valid_group_info group_info;
          if \<not> (is_valid_e2ees_pack_id P e2ees_pack_id \<and> is_valid_address user_address \<and>
                 is_valid_group_member_info group_member_id \<and> valid)
          then Some (E2EES_RESULT_FAIL, w)
          else do {
            m \<leftarrow> deref group_member_id;
            owner \<leftarrow> copy_address_from_address D user_address;
            sender \<leftarrow> copy_address_from_address D (gmi_member_address m);
            info \<leftarrow> copy_group_info D group_info;
            ad \<leftarrow> group_associated_data (suite_of P e2ees_pack_id) (pb_data (gmi_sign_public_key m));
            Some (E2EES_RESULT_SUCC, hs_store_group_session H w ((init_group_session D)
              \<lparr>gs_e2ees_pack_id := e2ees_pack_id, gs_session_owner := Some owner, gs_sender := Some sender,
               gs_group_info := Some info, gs_associated_data := ad\<rparr>)) } }"

text \<open>The completions change the session they are given, which is returned.\<close>

definition complete_inbound_group_session_by_pre_key_bundle ::
    "'w host \<Rightarrow> prims \<Rightarrow> 'w \<Rightarrow> group_session ptr \<Rightarrow> group_pre_key_bundle ptr \<Rightarrow> (int \<times> group_session ptr \<times> 'w) option" where
  "complete_inbound_group_session_by_pre_key_bundle H P w inbound_group_session group_pre_key_bundle =
     do { valid \<leftarrow> is_valid_group_session_by_member_id P inbound_group_session;
          valid' \<leftarrow> is_valid_group_pre_key_bundle P group_pre_key_bundle;
          if \<not> valid \<or> \<not> valid' then Some (E2EES_RESULT_FAIL, inbound_group_session, w)
          else do {
            g \<leftarrow> deref inbound_group_session; b \<leftarrow> deref group_pre_key_bundle;
            version \<leftarrow> deref (gpk_version b); session_id \<leftarrow> deref (gpk_session_id b);
            chain_key \<leftarrow> group_root_key (suite_of P (gs_e2ees_pack_id g)) (pb_data (gpk_group_seed b))
              (pb_data (gs_associated_data g));
            let g = g\<lparr>gs_version := Some version, gs_session_id := Some session_id, gs_sequence := gpk_sequence b,
                      gs_chain_key := chain_key\<rparr>;
            Some (E2EES_RESULT_SUCC, Some g, hs_store_group_session H w g) } }"

definition complete_inbound_group_session_by_member_id ::
    "'w host \<Rightarrow> prims \<Rightarrow> 'w \<Rightarrow> group_session ptr \<Rightarrow> group_member_info ptr \<Rightarrow> (int \<times> group_session ptr \<times> 'w) option" where
  "complete_inbound_group_session_by_member_id H P w inbound_group_session group_member_id =
     do { valid \<leftarrow> is_valid_group_session_by_pre_key_bundle P inbound_group_session;
          if \<not> valid \<or> \<not> is_valid_group_member_info group_member_id then Some (E2EES_RESULT_FAIL, inbound_group_session, w)
          else do {
            g \<leftarrow> deref inbound_group_session; m \<leftarrow> deref group_member_id;
            let cs = suite_of P (gs_e2ees_pack_id g);
            ad \<leftarrow> group_associated_data cs (pb_data (gmi_sign_public_key m));
            chain_key \<leftarrow> group_root_key cs (pb_data (gs_group_seed g)) (pb_data (gmi_sign_public_key m));
            let g = g\<lparr>gs_associated_data := ad, gs_group_seed := free_protobuf (gs_group_seed g), gs_chain_key := chain_key\<rparr>;
            Some (E2EES_RESULT_SUCC, Some g, hs_store_group_session H w g) } }"

definition new_and_complete_inbound_group_session ::
    "'w host \<Rightarrow> prims \<Rightarrow> gen_defaults \<Rightarrow> 'w \<Rightarrow> group_member_info ptr \<Rightarrow> group_session ptr \<Rightarrow> (int \<times> 'w) option" where
  "new_and_complete_inbound_group_session H P D w group_member_id other_group_session =
     do { valid \<leftarrow> is_valid_group_session_by_pre_key_bundle P other_group_session;
          if \<not> is_valid_group_member_info group_member_id \<or> \<not> valid then Some (E2EES_RESULT_FAIL, w)
          else do {
            m \<leftarrow> deref group_member_id; other \<leftarrow> deref other_group_session;
            g \<leftarrow> insert_inbound_group_session_data D m other (init_group_session D);
            let cs = suite_of P (gs_e2ees_pack_id other);
            chain_key \<leftarrow> group_root_key cs (pb_data (gs_group_seed other)) (pb_data (gmi_sign_public_key m));
            ad \<leftarrow> group_associated_data cs (pb_data (gmi_sign_public_key m));
            Some (E2EES_RESULT_SUCC,
              hs_store_group_session H w (g\<lparr>gs_chain_key := chain_key, gs_sequence := 0, gs_associated_data := ad\<rparr>)) } }"

definition new_and_complete_inbound_group_session_with_chain_key ::
    "'w host \<Rightarrow> prims \<Rightarrow> gen_defaults \<Rightarrow> 'w \<Rightarrow> group_member_info ptr \<Rightarrow> group_session ptr \<Rightarrow> bdata ptr \<Rightarrow> (int \<times> 'w) option" where
  "new_and_complete_inbound_group_session_with_chain_key H P D w group_member_info other_group_session their_chain_key =
     do { valid \<leftarrow> is_valid_group_session_no_chain_key P other_group_session;
          if \<not> is_valid_group_member_info group_member_info \<or> \<not> valid \<or> their_chain_key = None
          then Some (E2EES_RESULT_FAIL, w)
          else do {
            m \<leftarrow> deref group_member_info; other \<leftarrow> deref other_group_session; key \<leftarrow> deref their_chain_key;
            g \<leftarrow> insert_inbound_group_session_data D m other (init_group_session D);
            let cs = suite_of P (gs_e2ees_pack_id other);
            chain_key \<leftarrow> copy_protobuf_from_protobuf (gs_chain_key g) key;
            ad \<leftarrow> group_associated_data cs (pb_data (gmi_sign_public_key m));
            Some (E2EES_RESULT_SUCC,
              hs_store_group_session H w (g\<lparr>gs_chain_key := chain_key, gs_sequence := 0, gs_associated_data := ad\<rparr>)) } }"

text \<open>The bundle is returned: when it does not add members its chain key is advanced in place.\<close>

definition new_and_complete_inbound_group_session_with_ratchet_state ::
    "'w host \<Rightarrow> prims \<Rightarrow> gen_defaults \<Rightarrow> 'w \<Rightarrow> group_update_key_bundle ptr \<Rightarrow> address ptr \<Rightarrow>
     (int \<times> group_update_key_bundle ptr \<times> 'w) option" where
  "new_and_complete_inbound_group_session_with_ratchet_state H P D w group_update_key_bundle user_address =
     do { valid \<leftarrow> is_valid_group_update_key_bundle P group_update_key_bundle;
          if \<not> is_valid_address user_address \<or> \<not> valid then Some (E2EES_RESULT_FAIL, group_update_key_bundle, w)
          else do {
            b \<leftarrow> deref group_update_key_bundle;
            version \<leftarrow> deref (guk_version b); session_id \<leftarrow> deref (guk_session_id b);
            let cs = suite_of P (guk_e2ees_pack_id b);
            sender \<leftarrow> copy_address_from_address D (guk_sender b);
            owner \<leftarrow> copy_address_from_address D user_address;
            group_info \<leftarrow> copy_group_info D (guk_group_info b);
            bundle_key \<leftarrow> (if guk_adding b = False then advance_group_chain_key_by_add cs (guk_chain_key b) (guk_chain_key b)
                          else Some (guk_chain_key b));
            chain_key \<leftarrow> copy_protobuf_from_protobuf empty_bdata bundle_key;
            ad \<leftarrow> group_associated_data cs (pb_data (guk_sign_public_key b));
            Some (E2EES_RESULT_SUCC, Some (b\<lparr>guk_chain_key := bundle_key\<rparr>), hs_store_group_session H w ((init_group_session D)
              \<lparr>gs_version := Some version, gs_e2ees_pack_id := guk_e2ees_pack_id b, gs_session_id := Some session_id,
               gs_sender := Some sender, gs_session_owner := Some owner, gs_group_info := Some group_info,
               gs_chain_key := chain_key, gs_sequence := 0, gs_associated_data := ad\<rparr>)) } }"

subsection \<open>New members\<close>

text \<open>
  The loop of an invited member: for each added device the welcome key of the sender's chain key is
  the device's chain key, and the sender's own advances from it.  The key of the own device goes into
  the outbound session, for the others an inbound session is made.
\<close>

fun invited_loop ::
    "'w host \<Rightarrow> prims \<Rightarrow> gen_defaults \<Rightarrow> cipher_suite \<Rightarrow> address ptr \<Rightarrow> group_member_info ptr array \<Rightarrow> nat \<Rightarrow> nat \<Rightarrow>
     'w \<Rightarrow> group_session \<Rightarrow> bdata \<Rightarrow> ('w \<times> group_session \<times> bdata) option" where
  "invited_loop H P D cs user_address infos i 0 w g sender_chain_key = Some (w, g, sender_chain_key)"
| "invited_loop H P D cs user_address infos i (Suc k) w g sender_chain_key =
     do { key \<leftarrow> advance_group_chain_key_by_welcome cs sender_chain_key;
          sender_chain_key \<leftarrow> advance_group_chain_key_by_add cs key sender_chain_key;
          info \<leftarrow> array_get infos i; m \<leftarrow> deref info;
          own \<leftarrow> compare_address (gmi_member_address m) user_address;
          if own then
            do { chain_key \<leftarrow> copy_protobuf_from_protobuf (gs_chain_key g) key;
                 invited_loop H P D cs user_address infos (Suc i) k w (g\<lparr>gs_chain_key := chain_key, gs_sequence := 0\<rparr>)
                   sender_chain_key }
          else
            do { (_, w) \<leftarrow> new_and_complete_inbound_group_session_with_chain_key H P D w info (Some g) (Some key);
                 invited_loop H P D cs user_address infos (Suc i) k w g sender_chain_key } }"

text \<open>The sender's chain key is advanced inside the bundle, which is returned.\<close>

definition new_outbound_group_session_invited ::
    "'w host \<Rightarrow> prims \<Rightarrow> gen_defaults \<Rightarrow> cache \<Rightarrow> 'w \<Rightarrow> group_update_key_bundle ptr \<Rightarrow> address ptr \<Rightarrow>
     (int \<times> group_update_key_bundle ptr \<times> 'w) option" where
  "new_outbound_group_session_invited H P D cache w group_update_key_bundle user_address =
     do { (ret, identity_public_key) \<leftarrow> own_sign_key H cache w user_address;
          valid \<leftarrow> is_valid_group_update_key_bundle P group_update_key_bundle;
          if ret \<noteq> E2EES_RESULT_SUCC \<or> \<not> valid then Some (E2EES_RESULT_FAIL, group_update_key_bundle, w)
          else do {
            b \<leftarrow> deref group_update_key_bundle;
            if guk_n_adding_member_info_list b = 0 then Some (E2EES_RESULT_FAIL, group_update_key_bundle, w)
            else do {
              let cs = suite_of P (guk_e2ees_pack_id b);
              version \<leftarrow> deref (guk_version b); session_id \<leftarrow> deref (guk_session_id b);
              sender \<leftarrow> copy_address_from_address D user_address;
              group_info \<leftarrow> copy_group_info D (guk_group_info b);
              ad \<leftarrow> group_associated_data cs identity_public_key;
              (w, g, chain_key) \<leftarrow> invited_loop H P D cs user_address (guk_adding_member_info_list b) 0
                (guk_n_adding_member_info_list b) w ((init_group_session D)
                  \<lparr>gs_version := Some version, gs_e2ees_pack_id := guk_e2ees_pack_id b, gs_sender := Some sender,
                   gs_session_owner := Some sender, gs_session_id := Some session_id, gs_group_info := Some group_info,
                   gs_associated_data := ad\<rparr>) (guk_chain_key b);
              Some (E2EES_RESULT_SUCC, Some (b\<lparr>guk_chain_key := chain_key\<rparr>), hs_store_group_session H w g) } } }"

definition renew_inbound_group_session_by_welcome_and_add ::
    "'w host \<Rightarrow> prims \<Rightarrow> gen_defaults \<Rightarrow> 'w \<Rightarrow> bdata ptr \<Rightarrow> group_session ptr \<Rightarrow> group_info ptr \<Rightarrow>
     (int \<times> group_session ptr \<times> 'w) option" where
  "renew_inbound_group_session_by_welcome_and_add H P D w sender_chain_key inbound_group_session new_group_info =
     do { valid \<leftarrow> is_valid_group_session P inbound_group_session;
          if \<not> valid \<or> new_group_info = None then Some (E2EES_RESULT_FAIL, inbound_group_session, w)
          else do {
            g \<leftarrow> deref inbound_group_session;
            let cs = suite_of P (gs_e2ees_pack_id g);
            group_info \<leftarrow> copy_group_info D new_group_info;
            chain_key \<leftarrow> (case sender_chain_key of
               Some key \<Rightarrow> copy_protobuf_from_protobuf
                 ((gs_chain_key g)\<lparr>pb_data := free_mem (pb_data (gs_chain_key g)) (pb_len (gs_chain_key g))\<rparr>) key
             | None \<Rightarrow> advance_group_chain_key_by_add cs (gs_chain_key g) (gs_chain_key g));
            let g = g\<lparr>gs_group_info := Some group_info, gs_chain_key := chain_key, gs_sequence := 0\<rparr>;
            Some (E2EES_RESULT_SUCC, Some g, hs_store_group_session H w g) } }"

end
