(* ===== verification/Group_Manager.thy ===== *)
theory Group_Manager
  imports Group
begin

section \<open>Messages of groups\<close>

text \<open>
  The handlers of \<open>src/group_session_manager.c\<close> for a group message, for the response to a sent one
  and for the creation of a group, and the branches of \<open>consume_one2one_msg\<close>
  (\<open>src/session_manager.c\<close>) that receive the key material of a group.  Log messages are left out; the
  user of an address one of them reads is read.
\<close>

subsection \<open>Sending and receiving\<close>

definition consume_send_group_msg_response ::
    "'w host \<Rightarrow> prims \<Rightarrow> 'w \<Rightarrow> group_session ptr \<Rightarrow> send_group_msg_response ptr \<Rightarrow> (int \<times> group_session ptr \<times> 'w) option" where
  "consume_send_group_msg_response H P w outbound_group_session response =
     do { valid \<leftarrow> is_valid_group_session P outbound_group_session;
          if \<not> valid \<or> \<not> is_valid_send_group_msg_response response then Some (E2EES_RESULT_FAIL, outbound_group_session, w)
          else do {
            g \<leftarrow> deref outbound_group_session;
            chain_key \<leftarrow> advance_group_chain_key (suite_of P (gs_e2ees_pack_id g)) (gs_chain_key g);
            let g = g\<lparr>gs_chain_key := chain_key, gs_sequence := gs_sequence g + 1\<rparr>;
            Some (E2EES_RESULT_SUCC, Some g, hs_store_group_session H w g) } }"

definition produce_send_group_msg_request ::
    "'w host \<Rightarrow> gen_defaults \<Rightarrow> 'w \<Rightarrow> send_group_msg_params \<Rightarrow> u32 \<Rightarrow> group_session \<Rightarrow> group_msg_payload ptr \<Rightarrow>
     (int \<times> send_group_msg_request \<times> 'w) option" where
  "produce_send_group_msg_request H D w params notif_level outbound_group_session group_msg_payload =
     do { version \<leftarrow> deref (gs_version outbound_group_session); session_id \<leftarrow> deref (gs_session_id outbound_group_session);
          from \<leftarrow> copy_address_from_address D (sgp_sender_address params);
          to \<leftarrow> copy_address_from_address D (sgp_group_address params);
          let (msg_id, w) = generate_uuid_str H w;
          let copy_list = (\<lambda>list n. if n > 0 \<and> list \<noteq> None
            then do { xs \<leftarrow> map_loop (copy_address_from_address D) list 0 n; Some (n, Some (map Some xs)) }
            else Some (0, None));
          (n_allow, allow) \<leftarrow> copy_list (sgp_allow_list params) (sgp_allow_list_len params);
          (n_deny, deny) \<leftarrow> copy_list (sgp_deny_list params) (sgp_deny_list_len params);
          Some (E2EES_RESULT_SUCC,
            \<lparr>sgq_msg = \<lparr>em_version = Some version, em_session_id = Some session_id, em_from = Some from, em_to = Some to,
                        em_msg_id = msg_id, em_notif_level = notif_level, em_payload = PAYLOAD_GROUP_MSG group_msg_payload\<rparr>,
             sgq_n_allow_list = n_allow, sgq_allow_list = allow, sgq_n_deny_list = n_deny, sgq_deny_list = deny\<rparr>, w) }"

definition send_group_msg_with_filter ::
    "'w host \<Rightarrow> prims \<Rightarrow> gen_defaults \<Rightarrow> 'w \<Rightarrow> seed \<Rightarrow> send_group_msg_params \<Rightarrow> u32 \<Rightarrow> bytes \<Rightarrow>
     (int \<times> send_group_msg_response ptr \<times> 'w \<times> seed) option" where
  "send_group_msg_with_filter H P D w s params notif_level plaintext =
     do { valid \<leftarrow> is_valid_send_group_msg_inputs params;
          if \<not> valid then Some (E2EES_RESULT_FAIL, None, w, s)
          else do {
            let sender_address = sgp_sender_address params;
            let auth = hs_load_auth H w sender_address;
            let account = hs_load_account_by_address H w sender_address;
            let outbound_group_session = hs_load_group_session_by_address H w sender_address sender_address
                  (sgp_group_address params);
            if \<not> is_valid_string auth \<or>
               (case account of None \<Rightarrow> True | Some a \<Rightarrow> \<not> is_valid_identity_key (acc_identity_key a))
            then Some (E2EES_RESULT_FAIL, None, w, s)
            else do {
              valid \<leftarrow> is_valid_group_session P outbound_group_session;
              if \<not> valid then Some (E2EES_RESULT_FAIL, None, w, s)
              else do {
                g \<leftarrow> deref outbound_group_session; a \<leftarrow> deref account; identity_key \<leftarrow> deref (acc_identity_key a);
                (ret, payload, s) \<leftarrow> encrypt_group_msg P (gs_e2ees_pack_id g) plaintext (gs_chain_key g)
                  (gs_associated_data g) (gs_sequence g) identity_key s;
                if ret \<noteq> E2EES_RESULT_SUCC then Some (ret, None, w, s)
                else do {
                  (_, request, w) \<leftarrow> produce_send_group_msg_request H D w params notif_level g payload;
                  let (response, w) = dispatch_proto_request (hs_send_group_msg H) w request sender_address auth;
                  (ret, _, w) \<leftarrow> consume_send_group_msg_response H P w outbound_group_session response;
                  Some (ret, response, w, s) } } } } }"

definition send_group_msg ::
    "'w host \<Rightarrow> prims \<Rightarrow> gen_defaults \<Rightarrow> 'w \<Rightarrow> seed \<Rightarrow> address ptr \<Rightarrow> address ptr \<Rightarrow> u32 \<Rightarrow> bytes \<Rightarrow>
     (int \<times> send_group_msg_response ptr \<times> 'w \<times> seed) option" where
  "send_group_msg H P D w s sender_address group_address notif_level plaintext =
     send_group_msg_with_filter H P D w s
       \<lparr>sgp_sender_address = sender_address, sgp_group_address = group_address, sgp_allow_list = None,
        sgp_allow_list_len = 0, sgp_deny_list = None, sgp_deny_list_len = 0\<rparr> notif_level plaintext"

text \<open>The loop that advances an inbound session to the sequence number \<open>n\<close> of a message.\<close>

function advance_group_to :: "cipher_suite \<Rightarrow> group_session \<Rightarrow> u32 \<Rightarrow> group_session option" where
  "advance_group_to cs g n =
     (if gs_sequence g < n then
        do { chain_key \<leftarrow> advance_group_chain_key cs (gs_chain_key g);
             advance_group_to cs (g\<lparr>gs_chain_key := chain_key, gs_sequence := gs_sequence g + 1\<rparr>) n }
      else Some g)"
  by pat_completeness auto

termination
  by (relation "measure (\<lambda>(cs, g, n). unat n - unat (gs_sequence g))")
    (auto simp: unat_Suc_less word_less_nat_alt)

declare advance_group_to.simps [simp del]

definition consume_group_msg :: "'w host \<Rightarrow> prims \<Rightarrow> 'w \<Rightarrow> address ptr \<Rightarrow> e2ee_msg ptr \<Rightarrow> (bool \<times> 'w) option" where
  "consume_group_msg H P w receiver_address e2ee_msg =
     (if \<not> is_valid_address receiver_address \<or> \<not> is_valid_e2ee_msg e2ee_msg then Some (True, w)
      else do {
        msg \<leftarrow> deref e2ee_msg;
        payload \<leftarrow> (case em_payload msg of PAYLOAD_GROUP_MSG p \<Rightarrow> deref p | _ \<Rightarrow> None);
        let inbound_group_session = hs_load_group_session_by_id H w (em_from msg) receiver_address (em_session_id msg);
        valid \<leftarrow> is_valid_group_session P inbound_group_session;
        if \<not> valid then Some (True, w)
        else do {
          g \<leftarrow> deref inbound_group_session;
          let cs = suite_of P (gs_e2ees_pack_id g);
          ds \<leftarrow> ds_param cs;
          identity_public_key \<leftarrow> read_bytes (pb_data (gs_associated_data g)) (dsp_sign_pub_key_len ds);
          sig \<leftarrow> read_pb (gmp_signature payload); ct \<leftarrow> read_pb (gmp_ciphertext payload);
          ret \<leftarrow> call_verify cs sig ct (Some identity_public_key);
          if ret \<noteq> E2EES_RESULT_SUCC then Some (True, w)
          else do {
            g \<leftarrow> advance_group_to cs g (gmp_sequence payload);
            derived_key \<leftarrow> create_group_message_key cs (gs_chain_key g);
            (ret, plaintext) \<leftarrow> call_decrypt cs (gs_associated_data g) (pb_data derived_key) ct;
            if ret \<noteq> E2EES_RESULT_SUCC then Some (True, w)
            else do {
              info \<leftarrow> deref (gs_group_info g);
              let w = e2ees_notify_group_msg H w (gs_session_owner g) (em_from msg) (gi_group_address info) plaintext;
              chain_key \<leftarrow> advance_group_chain_key cs (gs_chain_key g);
              Some (True, hs_store_group_session H w
                (g\<lparr>gs_chain_key := chain_key, gs_sequence := gs_sequence g + 1\<rparr>)) } } } })"

subsection \<open>The creation of a group\<close>

text \<open>The user of a member's address, read by the log message of a failure.\<close>

definition log_member :: "int \<Rightarrow> group_member_info \<Rightarrow> unit option" where
  "log_member ret m =
     (if ret = E2EES_RESULT_FAIL
      then do { a \<leftarrow> deref (gmi_member_address m); _ \<leftarrow> deref (ad_user a); Some () } else Some ())"

text \<open>
  The loop over the members when no session with the group's creator exists; it returns the last
  result code.
\<close>

fun create_sessions_loop ::
    "'w host \<Rightarrow> prims \<Rightarrow> gen_defaults \<Rightarrow> u32 \<Rightarrow> address ptr \<Rightarrow> group_info ptr \<Rightarrow> group_member_info ptr array \<Rightarrow> nat \<Rightarrow> nat \<Rightarrow>
     int \<Rightarrow> 'w \<Rightarrow> (int \<times> 'w) option" where
  "create_sessions_loop H P D e2ees_pack_id receiver_address group_info infos i 0 ret w = Some (ret, w)"
| "create_sessions_loop H P D e2ees_pack_id receiver_address group_info infos i (Suc k) ret w =
     do { info \<leftarrow> array_get infos i; m \<leftarrow> deref info;
          own \<leftarrow> compare_address (gmi_member_address m) receiver_address;
          if own then create_sessions_loop H P D e2ees_pack_id receiver_address group_info infos (Suc i) k ret w
          else do {
            (ret, w) \<leftarrow> new_inbound_group_session_by_member_id H P D w e2ees_pack_id receiver_address info group_info;
            _ \<leftarrow> log_member ret m;
            create_sessions_loop H P D e2ees_pack_id receiver_address group_info infos (Suc i) k ret w } }"

text \<open>
  The loop over the members when the session with the creator exists: it is completed at the
  creator's entry, and for the other members a session is made from it.
\<close>

fun complete_sessions_loop ::
    "'w host \<Rightarrow> prims \<Rightarrow> gen_defaults \<Rightarrow> address ptr \<Rightarrow> address ptr \<Rightarrow> group_member_info ptr array \<Rightarrow> nat \<Rightarrow> nat \<Rightarrow>
     int \<Rightarrow> group_session ptr \<Rightarrow> 'w \<Rightarrow> (int \<times> group_session ptr \<times> 'w) option" where
  "complete_sessions_loop H P D sender_address receiver_address infos i 0 ret g w = Some (ret, g, w)"
| "complete_sessions_loop H P D sender_address receiver_address infos i (Suc k) ret g w =
     do { info \<leftarrow> array_get infos i; m \<leftarrow> deref info;
          creator \<leftarrow> compare_address (gmi_member_address m) sender_address;
          if creator then
            do { (ret, g, w) \<leftarrow> complete_inbound_group_session_by_member_id H P w g info;
                 _ \<leftarrow> log_member ret m;
                 complete_sessions_loop H P D sender_address receiver_address infos (Suc i) k ret g w }
          else do {
            own \<leftarrow> compare_address (gmi_member_address m) receiver_address;
            if own then complete_sessions_loop H P D sender_address receiver_address infos (Suc i) k ret g w
            else do {
              (ret, w) \<leftarrow> new_and_complete_inbound_group_session H P D w info g;
              _ \<leftarrow> log_member ret m;
              complete_sessions_loop H P D sender_address receiver_address infos (Suc i) k ret g w } } }"

definition consume_create_group_msg ::
    "'w host \<Rightarrow> prims \<Rightarrow> gen_defaults \<Rightarrow> cache \<Rightarrow> 'w \<Rightarrow> address ptr \<Rightarrow> create_group_msg ptr \<Rightarrow> (bool \<times> 'w) option" where
  "consume_create_group_msg H P D cache w receiver_address create_group_msg =
     (if \<not> is_valid_address receiver_address then Some (True, w)
      else do {
        valid \<leftarrow> is_valid_create_group_msg P create_group_msg;
        if \<not> valid then Some (True, w)
        else do {
          msg \<leftarrow> deref create_group_msg;
          group_info \<leftarrow> deref (cgm_group_info msg);
          let inbound_group_session = hs_load_group_session_by_address H w (cgm_sender_address msg) receiver_address
                (gi_group_address group_info);
          (ret, w) \<leftarrow> (case inbound_group_session of
             None \<Rightarrow> create_sessions_loop H P D (cgm_e2ees_pack_id msg) receiver_address (cgm_group_info msg)
                       (cgm_member_info_list msg) 0 (cgm_n_member_info_list msg) E2EES_RESULT_SUCC w
           | Some _ \<Rightarrow> do {
               valid \<leftarrow> is_valid_group_session_by_pre_key_bundle P inbound_group_session;
               if \<not> valid then Some (E2EES_RESULT_FAIL, w)
               else do {
                 (_, inbound_group_session, w) \<leftarrow> complete_sessions_loop H P D (cgm_sender_address msg) receiver_address
                   (cgm_member_info_list msg) 0 (cgm_n_member_info_list msg) E2EES_RESULT_SUCC inbound_group_session w;
                 g \<leftarrow> deref inbound_group_session;
                 (ret, w) \<leftarrow> new_outbound_group_session_by_receiver H P D cache w (gs_group_seed g) (cgm_e2ees_pack_id msg)
                   receiver_address (gi_group_name group_info) (gi_group_address group_info) (gs_session_id g)
                   (gi_group_member_list group_info) (gi_n_group_member_list group_info);
                 _ \<leftarrow> (if ret = E2EES_RESULT_FAIL
                      then do { a \<leftarrow> deref receiver_address; _ \<leftarrow> deref (ad_user a); Some () } else Some ());
                 Some (ret, w) } });
          Some (True, if ret = E2EES_RESULT_SUCC
                      then e2ees_notify_group_created H w receiver_address (gi_group_address group_info)
                             (gi_group_name group_info) (gi_group_member_list group_info) (gi_n_group_member_list group_info)
                      else w) } })"

subsection \<open>Key material from a one-to-one message\<close>

text \<open>The loop of \<open>consume_one2one_msg\<close> that completes the sessions a group pre-key bundle belongs to.\<close>

fun complete_by_bundle_loop ::
    "'w host \<Rightarrow> prims \<Rightarrow> address ptr \<Rightarrow> group_pre_key_bundle ptr \<Rightarrow> group_session ptr array \<Rightarrow> nat \<Rightarrow> nat \<Rightarrow> 'w \<Rightarrow> 'w option" where
  "complete_by_bundle_loop H P receiver_address bundle sessions i 0 w = Some w"
| "complete_by_bundle_loop H P receiver_address bundle sessions i (Suc k) w =
     do { session \<leftarrow> array_get sessions i; g \<leftarrow> deref session;
          own \<leftarrow> compare_address receiver_address (gs_sender g);
          if own then complete_by_bundle_loop H P receiver_address bundle sessions (Suc i) k w
          else do {
            (_, _, w) \<leftarrow> complete_inbound_group_session_by_pre_key_bundle H P w session bundle;
            a \<leftarrow> deref receiver_address; _ \<leftarrow> deref (ad_user a);
            complete_by_bundle_loop H P receiver_address bundle sessions (Suc i) k w } }"

definition consume_group_pre_key_bundle ::
    "'w host \<Rightarrow> prims \<Rightarrow> gen_defaults \<Rightarrow> cache \<Rightarrow> 'w \<Rightarrow> address ptr \<Rightarrow> group_pre_key_bundle ptr \<Rightarrow> 'w option" where
  "consume_group_pre_key_bundle H P D cache w receiver_address group_pre_key_bundle =
     do { b \<leftarrow> deref group_pre_key_bundle;
          let w = (if is_valid_string (gpk_old_session_id b)
                   then hs_unload_group_session_by_id H w receiver_address (gpk_old_session_id b) else w);
          a \<leftarrow> deref receiver_address; _ \<leftarrow> deref (ad_user a);
          group_info \<leftarrow> deref (gpk_group_info b);
          let (inbound_group_sessions_num, inbound_group_sessions) =
            hs_load_group_sessions H w receiver_address (gi_group_address group_info);
          if inbound_group_sessions_num > 0 \<and> inbound_group_sessions \<noteq> None then
            do { w \<leftarrow> complete_by_bundle_loop H P receiver_address group_pre_key_bundle inbound_group_sessions 0
                   inbound_group_sessions_num w;
                 (_, w) \<leftarrow> new_outbound_group_session_by_receiver H P D cache w (gpk_group_seed b) (gpk_e2ees_pack_id b)
                   receiver_address (gi_group_name group_info) (gi_group_address group_info) (gpk_session_id b)
                   (gi_group_member_list group_info) (gi_n_group_member_list group_info);
                 Some w }
          else
            do { (_, w) \<leftarrow> new_inbound_group_session_by_pre_key_bundle H P D w (gpk_e2ees_pack_id b) receiver_address
                   group_pre_key_bundle;
                 Some w } }"

definition consume_group_update_key_bundle ::
    "'w host \<Rightarrow> prims \<Rightarrow> gen_defaults \<Rightarrow> cache \<Rightarrow> 'w \<Rightarrow> address ptr \<Rightarrow> group_update_key_bundle ptr \<Rightarrow> 'w option" where
  "consume_group_update_key_bundle H P D cache w receiver_address group_update_key_bundle =
     do { b \<leftarrow> deref group_update_key_bundle; a \<leftarrow> deref receiver_address; _ \<leftarrow> deref (ad_user a);
          (group_update_key_bundle, w) \<leftarrow>
            (if guk_adding b
             then do { (_, bundle, w) \<leftarrow> new_outbound_group_session_invited H P D cache w group_update_key_bundle receiver_address;
                       Some (bundle, w) }
             else Some (group_update_key_bundle, w));
          (_, _, w) \<leftarrow> new_and_complete_inbound_group_session_with_ratchet_state H P D w group_update_key_bundle
            receiver_address;
          Some w }"

end
