(* ===== verification/Group_Laws.thy ===== *)
theory Group_Laws
  imports Group_Manager Session_Laws
begin

section \<open>What group sessions rely on\<close>

text \<open>
  The interface through which a group session uses its suite, an extension of \<open>e2ee_suite\<close> by the
  signature scheme and by keys of one hash length; that the suites of the library provide it; the
  chain of a session as a function of its first key; and what one call of each operation does.
\<close>

subsection \<open>The interface\<close>

locale group_suite = e2ee_suite +
  fixes vk_len sig_len :: nat
    and sign :: "seed \<Rightarrow> bytes \<Rightarrow> bytes \<Rightarrow> bytes \<times> seed"
    and verify :: "bytes \<Rightarrow> bytes \<Rightarrow> bytes \<Rightarrow> bool"
    and sign_pair :: "bytes \<Rightarrow> bytes \<Rightarrow> bool"
  assumes vk_param: "map_option (\<lambda>p. (dsp_sign_pub_key_len p, dsp_sig_len p)) (ds_param cs) = Some (vk_len, sig_len)"
    and sign_sizes: "0 < vk_len" "0 < sig_len"
    and key_call: "call_hkdf cs ikm salt info hf_len = Some (E2EES_RESULT_SUCC, kdf ikm salt info hf_len)"
    and key_length [simp]: "length (kdf ikm salt info hf_len) = hf_len"
    and sign_call: "sign_pair sk vk \<Longrightarrow> sign s m sk = (sig, s') \<Longrightarrow>
          call_sign cs s m (Some sk) = Some (E2EES_RESULT_SUCC, sig, s') \<and> length sig = sig_len"
    and verify_call: "\<exists>ret. call_verify cs sig m (Some vk) = Some ret \<and> (ret = E2EES_RESULT_SUCC \<longleftrightarrow> verify sig m vk)"
    and verify_sign: "sign_pair sk vk \<Longrightarrow> sign s m sk = (sig, s') \<Longrightarrow> verify sig m vk"
    and vk_length: "sign_pair sk vk \<Longrightarrow> length vk = vk_len"

subsection \<open>The suites of the library provide it\<close>

definition std_sign :: "prims \<Rightarrow> ds_alg \<Rightarrow> seed \<Rightarrow> bytes \<Rightarrow> bytes \<Rightarrow> bytes \<times> seed" where
  "std_sign P d s m sk = (case pr_sign_signature P d s m (Some sk) of (_, sig, s') \<Rightarrow> (sig, s'))"

definition std_verify :: "prims \<Rightarrow> ds_alg \<Rightarrow> bytes \<Rightarrow> bytes \<Rightarrow> bytes \<Rightarrow> bool" where
  "std_verify P d sig m vk \<longleftrightarrow> pr_sign_verify P d sig m (Some vk) = 0"

definition std_sign_pair :: "prims \<Rightarrow> ds_alg \<Rightarrow> bytes \<Rightarrow> bytes \<Rightarrow> bool" where
  "std_sign_pair P d sk vk \<longleftrightarrow> (\<exists>s ret s'. pr_sign_keypair P d s = (ret, vk, sk, s'))"

text \<open>A scheme whose signatures all have the announced length, as ML-DSA and SPHINCS+ have.\<close>

definition ds_fixed_length :: "prims \<Rightarrow> ds_alg \<Rightarrow> bool" where
  "ds_fixed_length P d \<longleftrightarrow> ds_documented P d \<and> 0 < pr_sign_bytes P d \<and>
     (\<forall>s m sk. length sk = pr_sign_sk_bytes P d \<longrightarrow> length (fst (std_sign P d s m sk)) = pr_sign_bytes P d)"

lemma ds_fixed_lengthD:
  assumes "ds_fixed_length P d" and "std_sign_pair P d sk vk"
  shows "length vk = pr_sign_pk_bytes P d" "length sk = pr_sign_sk_bytes P d" "0 < pr_sign_pk_bytes P d"
    and "std_sign P d s m sk = (sig, s') \<Longrightarrow>
      pr_sign_signature P d s m (Some sk) = (0, sig, s') \<and> length sig = pr_sign_bytes P d \<and> std_verify P d sig m vk"
proof -
  from assms obtain t r t' where kp: "pr_sign_keypair P d t = (r, vk, sk, t')" by (auto simp: std_sign_pair_def)
  have D: "ds_documented P d" using assms by (simp add: ds_fixed_length_def)
  then show len: "length vk = pr_sign_pk_bytes P d" "length sk = pr_sign_sk_bytes P d" "0 < pr_sign_pk_bytes P d"
    using kp by (auto simp: ds_documented_def dest!: spec [of _ t])
  assume sg: "std_sign P d s m sk = (sig, s')"
  then obtain ret where ret: "pr_sign_signature P d s m (Some sk) = (ret, sig, s')"
    by (auto simp: std_sign_def split: prod.splits)
  have "case pr_sign_signature P d s m (Some sk) of (ret, sig, s') \<Rightarrow> ret = 0 \<and> 0 < length sig \<and> length sig \<le> pr_sign_bytes P d"
    using D len(2) by (simp add: ds_documented_def)
  moreover have "case pr_sign_keypair P d t of (_, pk, sk, _) \<Rightarrow>
      (case pr_sign_signature P d s m (Some sk) of (_, sig, _) \<Rightarrow> pr_sign_verify P d sig m (Some pk) = 0)"
    using D by (simp add: ds_documented_def)
  moreover have "length (fst (std_sign P d s m sk)) = pr_sign_bytes P d"
    using assms(1) len by (simp add: ds_fixed_length_def)
  ultimately show "pr_sign_signature P d s m (Some sk) = (0, sig, s') \<and> length sig = pr_sign_bytes P d \<and> std_verify P d sig m vk"
    using ret kp sg by (simp add: std_verify_def)
qed

lemma group_suite_of:
  assumes P: "prims_ok P" and raw: "is_valid_e2ees_pack_id P raw" and a: "pack_kem raw = Some a"
    and d: "pack_ds raw = Some d" "d \<noteq> DS_CURVE25519" "ds_fixed_length P d"
  shows "group_suite (suite_of P raw) 32 48 (pr_kem_ct_bytes P a) (pr_kem_ss_bytes P a) (pr_kem_pk_bytes P a)
    (pr_kem_sk_bytes P a) 16 (std_mac P) (std_kdf P) (std_seal P) (std_open P) (std_enc P a) (std_dec P a)
    (std_pair P a) (pr_sign_pk_bytes P d) (pr_sign_bytes P d) (std_sign P d) (std_verify P d) (std_sign_pair P d)"
proof -
  note cs = suite_of_pqc [OF raw a d(1,2)]
  have h: "hf_documented P" using P by (simp add: prims_ok_def)
  have "0 < pr_sign_pk_bytes P d" "0 < pr_sign_bytes P d"
    using d(3) by (auto simp: ds_fixed_length_def ds_documented_def)
  then show ?thesis
    by (intro group_suite.intro suite_of_laws [OF P raw a] group_suite_axioms.intro)
      (auto simp: cs call_defs E2EES_DS_PQC_def crypto_ds_params_pqc_def E2EES_HF_SHA256_def hf_calls_std [OF h]
        std_verify_def ds_fixed_lengthD [OF d(3)] dest: ds_fixed_lengthD(4) [OF d(3)])
qed

subsection \<open>The chain of a session\<close>

definition group_chain_at :: "(bytes \<Rightarrow> bytes \<Rightarrow> bytes) \<Rightarrow> bytes \<Rightarrow> nat \<Rightarrow> bytes" where
  "group_chain_at mac k n = ((\<lambda>k. mac k GROUP_CHAIN_KEY_SEED) ^^ n) k"

text \<open>The state of a session that started with chain key \<open>k\<close>, at sequence number \<open>i\<close>.\<close>

definition group_at :: "(bytes \<Rightarrow> bytes \<Rightarrow> bytes) \<Rightarrow> bytes \<Rightarrow> group_session \<Rightarrow> nat \<Rightarrow> group_session" where
  "group_at mac k G i = G\<lparr>gs_chain_key := buf (group_chain_at mac k i), gs_sequence := of_nat i\<rparr>"

lemma group_chain_at_simps [simp]:
  "group_chain_at mac k 0 = k" "group_chain_at mac k (Suc n) = mac (group_chain_at mac k n) GROUP_CHAIN_KEY_SEED"
  by (simp_all add: group_chain_at_def)

lemma group_at_simps [simp]:
  "gs_chain_key (group_at mac k G i) = buf (group_chain_at mac k i)" "gs_sequence (group_at mac k G i) = of_nat i"
  "gs_associated_data (group_at mac k G i) = gs_associated_data G" "gs_sender (group_at mac k G i) = gs_sender G"
  "gs_session_owner (group_at mac k G i) = gs_session_owner G" "gs_session_id (group_at mac k G i) = gs_session_id G"
  "gs_group_info (group_at mac k G i) = gs_group_info G" "gs_e2ees_pack_id (group_at mac k G i) = gs_e2ees_pack_id G"
  "gs_version (group_at mac k G i) = gs_version G"
  by (simp_all add: group_at_def)

lemma group_at_Suc:
  "(group_at mac k G i)\<lparr>gs_chain_key := buf (mac (group_chain_at mac k i) GROUP_CHAIN_KEY_SEED), gs_sequence := of_nat i + 1\<rparr> =
   group_at mac k G (Suc i)"
  by (simp add: group_at_def ac_simps)

definition group_msg_key :: "(bytes \<Rightarrow> bytes \<Rightarrow> bytes \<Rightarrow> nat \<Rightarrow> bytes) \<Rightarrow> nat \<Rightarrow> nat \<Rightarrow> bytes \<Rightarrow> bytes" where
  "group_msg_key kdf hf_len mk_len k = kdf k (replicate hf_len 0) GROUP_MESSAGE_KEY_SEED mk_len"

context group_suite
begin

lemma ds_paramE:
  obtains p where "ds_param cs = Some p" "dsp_sign_pub_key_len p = vk_len" "dsp_sig_len p = sig_len"
  using vk_param by auto

lemma chain_length: "length k = hf_len \<Longrightarrow> length (group_chain_at mac k n) = hf_len"
  by (cases n) simp_all

lemma advance_ok:
  assumes "length k = hf_len"
  shows "advance_group_chain_key cs (buf k) = Some (buf (mac k GROUP_CHAIN_KEY_SEED))"
  using assms by (simp add: advance_group_chain_key_def mac_call overwrite_protobuf_from_array_def buf_def)

lemma advance_to:
  assumes k: "length k = hf_len" and i: "i \<le> n" and n: "n < 2 ^ 32"
  shows "advance_group_to cs (group_at mac k G i) (of_nat n) = Some (group_at mac k G n)"
  using i
proof (induction "n - i" arbitrary: i)
  case 0
  then have "i = n" by simp
  then show ?case by (simp add: advance_group_to.simps)
next
  case (Suc m)
  then have less: "i < n" by simp
  then have "(of_nat i :: u32) < of_nat n" using n by (simp add: word_less_nat_alt unat_of_nat)
  then have "advance_group_to cs (group_at mac k G i) (of_nat n) = advance_group_to cs (group_at mac k G (Suc i)) (of_nat n)"
    by (subst advance_group_to.simps) (simp add: advance_ok chain_length [OF k] group_at_Suc)
  also have "\<dots> = Some (group_at mac k G n)" using Suc less by (intro Suc.hyps) simp_all
  finally show ?case .
qed

lemma advance_total:
  assumes "gs_chain_key g = buf k" and "length k = hf_len"
  shows "advance_group_to cs g n = Some (g\<lparr>gs_chain_key := buf (group_chain_at mac k (unat n - unat (gs_sequence g))),
    gs_sequence := max (gs_sequence g) n\<rparr>)"
  using assms
proof (induction "unat n - unat (gs_sequence g)" arbitrary: g k)
  case 0
  then have "\<not> gs_sequence g < n" by (simp add: word_less_nat_alt)
  with 0 show ?case by (cases g) (simp add: advance_group_to.simps max_def leD)
next
  case (Suc m)
  let ?g = "g\<lparr>gs_chain_key := buf (mac k GROUP_CHAIN_KEY_SEED), gs_sequence := gs_sequence g + 1\<rparr>"
  have less: "gs_sequence g < n" using Suc.hyps(2) by (simp add: word_less_nat_alt)
  have up: "unat (gs_sequence g + 1) = Suc (unat (gs_sequence g))" by (rule unat_Suc_less [OF less])
  then have m: "m = unat n - unat (gs_sequence ?g)" using Suc.hyps(2) by simp
  have "advance_group_to cs g n = advance_group_to cs ?g n"
    using less by (subst advance_group_to.simps) (simp add: Suc.prems advance_ok)
  also have "\<dots> = Some (?g\<lparr>gs_chain_key := buf (group_chain_at mac (mac k GROUP_CHAIN_KEY_SEED) m), gs_sequence := max (gs_sequence g + 1) n\<rparr>)"
    using Suc.hyps(1) [OF m] m by simp
  also have "max (gs_sequence g + 1) n = n" using less up by (simp add: max_def word_le_nat_alt word_less_nat_alt)
  finally show ?case
    using Suc.hyps(2) [symmetric] less by (simp add: max_def group_chain_at_def funpow_swap1 [of "\<lambda>k. mac k GROUP_CHAIN_KEY_SEED"])
qed

lemma message_key_ok:
  assumes "length k = hf_len"
  shows "create_group_message_key cs (buf k) = Some (buf (group_msg_key kdf hf_len mk_len k))"
    and "length (group_msg_key kdf hf_len mk_len k) = mk_len"
proof -
  obtain p where p: "se_param cs = Some p" "sep_aead_key_len p + sep_aead_iv_len p = mk_len" using se_param by auto
  show "length (group_msg_key kdf hf_len mk_len k) = mk_len" by (simp add: group_msg_key_def kdf_length)
  then show "create_group_message_key cs (buf k) = Some (buf (group_msg_key kdf hf_len mk_len k))"
    using p assms by (simp add: create_group_message_key_def Let_def kdf_call group_msg_key_def)
qed

lemma root_key_ok:
  assumes "32 \<le> length seed" and "length vk = vk_len"
  shows "group_root_key cs (Some seed) (Some vk) = Some (buf (kdf (take 32 seed @ vk) (replicate hf_len 0) ROOT_SEED hf_len))"
    and "32 \<le> length seed \<Longrightarrow> length xs = vk_len \<Longrightarrow>
      group_root_key cs (Some seed) (Some (xs @ ys)) = Some (buf (kdf (take 32 seed @ xs) (replicate hf_len 0) ROOT_SEED hf_len))"
    and "group_associated_data cs (Some vk) = Some (buf (vk @ vk))"
proof -
  obtain p where p: "ds_param cs = Some p" "dsp_sign_pub_key_len p = vk_len" by (rule ds_paramE)
  show "group_root_key cs (Some seed) (Some vk) = Some (buf (kdf (take 32 seed @ vk) (replicate hf_len 0) ROOT_SEED hf_len))"
    "group_associated_data cs (Some vk) = Some (buf (vk @ vk))"
    using assms p by (simp_all add: group_root_key_def group_associated_data_def SEED_SECRET_LEN_def read_bytes_take key_call)
  assume "32 \<le> length seed" and "length xs = vk_len"
  then show "group_root_key cs (Some seed) (Some (xs @ ys)) = Some (buf (kdf (take 32 seed @ xs) (replicate hf_len 0) ROOT_SEED hf_len))"
    using p by (simp add: group_root_key_def SEED_SECRET_LEN_def read_bytes_take key_call)
qed

lemma encrypt_group_ok:
  assumes cs: "suite_of P raw = cs" and k: "length k = hf_len" and pt: "length pt \<le> GCM_LIMIT"
    and pair: "sign_pair sk vk" "ik_sign_key_pair ik = Some \<lparr>kpr_private_key = buf sk, kpr_public_key = pub\<rparr>"
  obtains sig s' where "encrypt_group_msg P raw pt (buf k) (buf ad) seq ik s = Some (0, Some \<lparr>gmp_sequence = seq,
      gmp_ciphertext = buf (aead_seal (group_msg_key kdf hf_len mk_len k) ad pt), gmp_signature = buf sig\<rparr>, s')"
    "length sig = sig_len" "verify sig (aead_seal (group_msg_key kdf hf_len mk_len k) ad pt) vk"
proof -
  obtain p where p: "ds_param cs = Some p" "dsp_sig_len p = sig_len" by (rule ds_paramE)
  let ?ct = "aead_seal (group_msg_key kdf hf_len mk_len k) ad pt"
  obtain sig s' where sg: "sign s ?ct sk = (sig, s')" by fastforce
  have call: "call_sign cs s ?ct (Some sk) = Some (0, sig, s')" "length sig = sig_len"
    using sign_call [OF pair(1) sg] by simp_all
  show ?thesis
  proof (rule that)
    show "encrypt_group_msg P raw pt (buf k) (buf ad) seq ik s = Some (0, Some \<lparr>gmp_sequence = seq,
      gmp_ciphertext = buf ?ct, gmp_signature = buf sig\<rparr>, s')"
      using call p pair(2) message_key_ok [OF k] seal_call [OF message_key_ok(2) [OF k] pt]
      by (simp add: encrypt_group_msg_def cs Let_def write_buf_def)
  qed (use call(2) verify_sign [OF pair(1) sg] in simp_all)
qed

end

text \<open>The interface for a fixed choice of primitives and pack id.\<close>

locale library_group = library_suite +
  fixes d :: ds_alg
  assumes scheme: "pack_ds raw = Some d" "d \<noteq> DS_CURVE25519" "ds_fixed_length P d"

sublocale library_group \<subseteq> grp: group_suite "suite_of P raw" 32 48 "pr_kem_ct_bytes P a" "pr_kem_ss_bytes P a"
    "pr_kem_pk_bytes P a" "pr_kem_sk_bytes P a" 16 "std_mac P" "std_kdf P" "std_seal P" "std_open P"
    "std_enc P a" "std_dec P a" "std_pair P a" "pr_sign_pk_bytes P d" "pr_sign_bytes P d" "std_sign P d" "std_verify P d"
    "std_sign_pair P d"
  by (rule group_suite_of [OF prims accepted kem scheme])

subsection \<open>Sessions of one member\<close>

text \<open>
  A session for messages from the device \<open>sender\<close> with signing key \<open>vk\<close>, kept by the device \<open>owner\<close>:
  what the group's handlers require of it, apart from chain key and sequence number.
\<close>

definition member_session ::
    "prims \<Rightarrow> u32 \<Rightarrow> bytes \<Rightarrow> address \<Rightarrow> address \<Rightarrow> address \<Rightarrow> string \<Rightarrow> group_session \<Rightarrow> bool" where
  "member_session P raw vk sender owner gadr sid G \<longleftrightarrow>
     is_valid_string (gs_version G) \<and> gs_e2ees_pack_id G = raw \<and> is_valid_e2ees_pack_id P raw \<and>
     gs_session_id G = Some sid \<and> sid \<noteq> [] \<and> gs_sender G = Some sender \<and> is_valid_address (Some sender) \<and>
     gs_session_owner G = Some owner \<and> is_valid_address (Some owner) \<and>
     (\<exists>info. gs_group_info G = Some info \<and> gi_group_address info = Some gadr \<and> is_valid_group_info (Some info) = Some True) \<and>
     gs_associated_data G = buf (vk @ vk)"

lemma member_session_at:
  "member_session P raw vk sender owner gadr sid (group_at mac k G i) = member_session P raw vk sender owner gadr sid G"
  by (simp add: member_session_def)

lemma member_session_valid:
  assumes "member_session P raw vk sender owner gadr sid G" and "vk \<noteq> []" and "group_chain_at mac k i \<noteq> []"
  shows "is_valid_group_session P (Some (group_at mac k G i)) = Some True"
  using assms by (auto simp: member_session_def is_valid_group_session_def)

subsection \<open>A documented host\<close>

text \<open>
  The database returns the session that was stored last under its sender and owner, the server
  accepts a group message (\<open>sent\<close> is what it was given), \<open>received\<close> is what the application was given,
  and nothing else changes these.
\<close>

definition same_groups :: "'w host \<Rightarrow> 'w \<Rightarrow> 'w \<Rightarrow> bool" where
  "same_groups H w w' \<longleftrightarrow>
     hs_load_group_session_by_id H w' = hs_load_group_session_by_id H w \<and>
     hs_load_group_session_by_address H w' = hs_load_group_session_by_address H w"

definition group_host_documented :: "'w host \<Rightarrow> ('w \<Rightarrow> bdata list) \<Rightarrow> ('w \<Rightarrow> e2ee_msg list) \<Rightarrow> bool" where
  "group_host_documented H received sent \<longleftrightarrow>
     (\<forall>w G. hs_load_group_session_by_id H (hs_store_group_session H w G) (gs_sender G) (gs_session_owner G) (gs_session_id G) = Some G \<and>
        (\<forall>info. gs_group_info G = Some info \<longrightarrow>
           hs_load_group_session_by_address H (hs_store_group_session H w G) (gs_sender G) (gs_session_owner G)
             (gi_group_address info) = Some G) \<and>
        received (hs_store_group_session H w G) = received w \<and> sent (hs_store_group_session H w G) = sent w) \<and>
     (\<forall>w a b g p. same_groups H w (hs_on_group_msg_received H w a b g p) \<and>
        received (hs_on_group_msg_received H w a b g p) = received w @ [p] \<and> sent (hs_on_group_msg_received H w a b g p) = sent w) \<and>
     (\<forall>w. same_groups H w (snd (hs_gen_uuid H w)) \<and> received (snd (hs_gen_uuid H w)) = received w \<and>
        sent (snd (hs_gen_uuid H w)) = sent w) \<and>
     (\<exists>f. hs_send_group_msg H = Some f \<and> (\<forall>w from auth q. \<exists>w'. f w from auth q = (Some \<lparr>sgr_code = RESPONSE_CODE_OK\<rparr>, w') \<and>
        same_groups H w w' \<and> received w' = received w \<and> sent w' = sent w @ [sgq_msg q]))"

text \<open>The other case: a server that takes the message and answers with \<open>r\<close>, which is not a success.\<close>

definition group_host_refuses :: "'w host \<Rightarrow> send_group_msg_response ptr \<Rightarrow> ('w \<Rightarrow> e2ee_msg list) \<Rightarrow> bool" where
  "group_host_refuses H r sent \<longleftrightarrow> \<not> is_valid_send_group_msg_response r \<and>
     (\<forall>w. same_groups H w (snd (hs_gen_uuid H w)) \<and> sent (snd (hs_gen_uuid H w)) = sent w) \<and>
     (\<exists>f. hs_send_group_msg H = Some f \<and> (\<forall>w from auth q. \<exists>w'. f w from auth q = (r, w') \<and>
        same_groups H w w' \<and> sent w' = sent w @ [sgq_msg q]))"

lemma group_host_store:
  assumes "group_host_documented H received sent"
  shows "hs_load_group_session_by_id H (hs_store_group_session H w G) (gs_sender G) (gs_session_owner G) (gs_session_id G) = Some G"
    and "gs_group_info G = Some info \<Longrightarrow> hs_load_group_session_by_address H (hs_store_group_session H w G) (gs_sender G)
      (gs_session_owner G) (gi_group_address info) = Some G"
    and "received (hs_store_group_session H w G) = received w" "sent (hs_store_group_session H w G) = sent w"
  using assms by (simp_all add: group_host_documented_def)

lemma group_host_send:
  assumes "group_host_documented H received sent"
  obtains f w' where "hs_send_group_msg H = Some f" "f w adr auth q = (Some \<lparr>sgr_code = RESPONSE_CODE_OK\<rparr>, w')"
    "received w' = received w" "sent w' = sent w @ [sgq_msg q]"
proof -
  obtain f where f: "hs_send_group_msg H = Some f"
      "\<forall>w from auth q. \<exists>w'. f w from auth q = (Some \<lparr>sgr_code = RESPONSE_CODE_OK\<rparr>, w') \<and>
        same_groups H w w' \<and> received w' = received w \<and> sent w' = sent w @ [sgq_msg q]"
    using assms unfolding group_host_documented_def by (elim conjE exE) (rule that)
  from f(2) [rule_format, of w adr auth q] f(1) that show ?thesis by blast
qed

text \<open>The message with number \<open>i\<close> of the chain from \<open>k\<close>, with plaintext \<open>pt\<close>.\<close>

definition carries :: "prims \<Rightarrow> ds_alg \<Rightarrow> bytes \<Rightarrow> bytes \<Rightarrow> address \<Rightarrow> string \<Rightarrow> nat \<Rightarrow> bytes \<Rightarrow> e2ee_msg \<Rightarrow> bool" where
  "carries P d k vk sender sid i pt m \<longleftrightarrow>
     (let ct = std_seal P (group_msg_key (std_kdf P) 32 48 (group_chain_at (std_mac P) k i)) (vk @ vk) pt in
      is_valid_e2ee_msg (Some m) \<and> em_from m = Some sender \<and> em_session_id m = Some sid \<and>
      (\<exists>sig. std_verify P d sig ct vk \<and> em_payload m =
         PAYLOAD_GROUP_MSG (Some \<lparr>gmp_sequence = of_nat i, gmp_ciphertext = buf ct, gmp_signature = buf sig\<rparr>)))"

text \<open>A device that can send to the group: its account in the database and an authentication token.\<close>

definition group_sender :: "'w host \<Rightarrow> gen_defaults \<Rightarrow> address \<Rightarrow> address \<Rightarrow> bytes \<Rightarrow> account \<Rightarrow> bool" where
  "group_sender H D adr gadr sk A \<longleftrightarrow>
     is_valid_address (Some adr) \<and> wf_address D adr \<and> is_valid_address (Some gadr) \<and> wf_address D gadr \<and>
     (\<forall>w. is_valid_string (hs_load_auth H w (Some adr)) \<and> hs_load_account_by_address H w (Some adr) = Some A) \<and>
     is_valid_identity_key (acc_identity_key A) \<and>
     (\<exists>ik pub. acc_identity_key A = Some ik \<and> ik_sign_key_pair ik = Some \<lparr>kpr_private_key = buf sk, kpr_public_key = pub\<rparr>)"

context library_group
begin

text \<open>What the server is given, and what is left of the call.\<close>

lemma send_call:
  assumes G: "member_session P raw vk adr adr gadr sid G"
    and A: "group_sender H D adr gadr sk A" and k: "length k = 32" and pair: "std_sign_pair P d sk vk"
    and pt: "length pt \<le> GCM_LIMIT" and f: "hs_send_group_msg H = Some f"
    and load: "hs_load_group_session_by_address H w (Some adr) (Some adr) (Some gadr) = Some (group_at (std_mac P) k G i)"
  obtains s' q where "carries P d k vk adr sid i pt (sgq_msg q)"
    "send_group_msg H P D w s (Some adr) (Some gadr) level pt =
      (case f (snd (hs_gen_uuid H w)) (Some adr) (hs_load_auth H w (Some adr)) q of (resp, w2) \<Rightarrow>
         Option.bind (consume_send_group_msg_response H P w2 (Some (group_at (std_mac P) k G i)) resp)
           (\<lambda>(ret, _, w3). Some (ret, resp, w3, s')))"
proof -
  let ?g = "group_at (std_mac P) k G i" and ?k = "group_chain_at (std_mac P) k i"
  have vk: "vk \<noteq> []" using ds_fixed_lengthD(1,3) [OF scheme(3) pair] by auto
  have k': "length ?k = 32" by (rule grp.chain_length [OF k])
  then have valid: "is_valid_group_session P (Some ?g) = Some True" by (intro member_session_valid [OF G vk]) auto
  have pack: "gs_e2ees_pack_id G = raw" "gs_associated_data G = buf (vk @ vk)" "gs_session_id G = Some sid" "sid \<noteq> []"
    using G by (simp_all add: member_session_def)
  have ready: "is_valid_string (hs_load_auth H w (Some adr))" "hs_load_account_by_address H w (Some adr) = Some A"
      "is_valid_identity_key (acc_identity_key A)" "is_valid_address (Some adr)" "is_valid_address (Some gadr)"
    using A by (simp_all add: group_sender_def)
  obtain ik pub where ik: "acc_identity_key A = Some ik" "ik_sign_key_pair ik = Some \<lparr>kpr_private_key = buf sk, kpr_public_key = pub\<rparr>"
    using A by (auto simp: group_sender_def)
  let ?ct = "std_seal P (group_msg_key (std_kdf P) 32 48 ?k) (vk @ vk) pt"
  obtain sig s' where enc: "encrypt_group_msg P raw pt (buf ?k) (buf (vk @ vk)) (of_nat i) ik s = Some (0, Some \<lparr>gmp_sequence = of_nat i,
      gmp_ciphertext = buf ?ct, gmp_signature = buf sig\<rparr>, s')" "length sig = pr_sign_bytes P d" "std_verify P d sig ?ct vk"
    by (rule grp.encrypt_group_ok [OF refl k' pt pair ik(2)])
  let ?p = "\<lparr>gmp_sequence = of_nat i, gmp_ciphertext = buf ?ct, gmp_signature = buf sig\<rparr>"
  obtain u where uuid: "generate_uuid_str H w = (u, snd (hs_gen_uuid H w))"
    by (cases "hs_gen_uuid H w") (simp add: generate_uuid_str_def)
  have copies: "copy_address_from_address D (Some adr) = Some adr" "copy_address_from_address D (Some gadr) = Some gadr"
    using A by (simp_all add: address_copy.copy_id group_sender_def)
  obtain ver where ver: "gs_version G = Some ver" "ver \<noteq> []" using G by (cases "gs_version G") (auto simp: member_session_def)
  let ?m = "\<lparr>em_version = Some ver, em_session_id = Some sid, em_from = Some adr, em_to = Some gadr, em_msg_id = u,
    em_notif_level = level, em_payload = PAYLOAD_GROUP_MSG (Some ?p)\<rparr>"
  let ?q = "\<lparr>sgq_msg = ?m, sgq_n_allow_list = 0, sgq_allow_list = None, sgq_n_deny_list = 0, sgq_deny_list = None\<rparr>"
  have req: "produce_send_group_msg_request H D w \<lparr>sgp_sender_address = Some adr, sgp_group_address = Some gadr,
      sgp_allow_list = None, sgp_allow_list_len = 0, sgp_deny_list = None, sgp_deny_list_len = 0\<rparr> level ?g (Some ?p) =
      Some (0, ?q, snd (hs_gen_uuid H w))"
    using ver copies uuid pack by (simp add: produce_send_group_msg_request_def Let_def)
  show ?thesis
  proof (rule that)
    show "send_group_msg H P D w s (Some adr) (Some gadr) level pt =
      (case f (snd (hs_gen_uuid H w)) (Some adr) (hs_load_auth H w (Some adr)) ?q of (resp, w2) \<Rightarrow>
         Option.bind (consume_send_group_msg_response H P w2 (Some ?g) resp) (\<lambda>(ret, _, w3). Some (ret, resp, w3, s')))"
      using ready load enc(1) req f ik(1) valid pack
      by (simp add: send_group_msg_def send_group_msg_with_filter_def is_valid_send_group_msg_inputs_def Let_def
          is_valid_address_list_def valid_array_NULL dispatch_proto_request_def and_then_def split: prod.split)
    have "sig \<noteq> []" using enc(2) scheme(3) by (auto simp: ds_fixed_length_def)
    moreover have "?ct \<noteq> []" using std.seal_length [OF grp.message_key_ok(2) [OF k'] pt, of "vk @ vk"] by auto
    ultimately show "carries P d k vk adr sid i pt (sgq_msg ?q)"
      using enc(3) ready pack ver by (auto simp: carries_def Let_def is_valid_e2ee_msg_def is_valid_group_msg_payload_def)
  qed
qed

lemma send_step:
  assumes H: "group_host_documented H received sent" and G: "member_session P raw vk adr adr gadr sid G"
    and A: "group_sender H D adr gadr sk A" and k: "length k = 32" and pair: "std_sign_pair P d sk vk"
    and pt: "length pt \<le> GCM_LIMIT"
    and load: "hs_load_group_session_by_address H w (Some adr) (Some adr) (Some gadr) = Some (group_at (std_mac P) k G i)"
  obtains w' s' m where
    "send_group_msg H P D w s (Some adr) (Some gadr) level pt = Some (0, Some \<lparr>sgr_code = RESPONSE_CODE_OK\<rparr>, w', s')"
    "hs_load_group_session_by_address H w' (Some adr) (Some adr) (Some gadr) = Some (group_at (std_mac P) k G (Suc i))"
    "sent w' = sent w @ [m]" "carries P d k vk adr sid i pt m"
proof -
  let ?g = "group_at (std_mac P) k G i" and ?g' = "group_at (std_mac P) k G (Suc i)" and ?w1 = "snd (hs_gen_uuid H w)"
  have k': "length (group_chain_at (std_mac P) k i) = 32" by (rule grp.chain_length [OF k])
  have vk: "vk \<noteq> []" using ds_fixed_lengthD(1,3) [OF scheme(3) pair] by auto
  have valid: "is_valid_group_session P (Some ?g) = Some True" using k' by (intro member_session_valid [OF G vk]) auto
  obtain info where info: "gs_group_info G = Some info" "gi_group_address info = Some gadr" "gs_e2ees_pack_id G = raw"
      "gs_sender G = Some adr" "gs_session_owner G = Some adr"
    using G by (auto simp: member_session_def)
  obtain f where f: "hs_send_group_msg H = Some f" using group_host_send [OF H] by blast
  obtain s' q where q: "carries P d k vk adr sid i pt (sgq_msg q)"
    "send_group_msg H P D w s (Some adr) (Some gadr) level pt =
      (case f ?w1 (Some adr) (hs_load_auth H w (Some adr)) q of (resp, w2) \<Rightarrow>
         Option.bind (consume_send_group_msg_response H P w2 (Some ?g) resp) (\<lambda>(ret, _, w3). Some (ret, resp, w3, s')))"
    by (rule send_call [OF G A k pair pt f load])
  obtain w2 where w2: "f ?w1 (Some adr) (hs_load_auth H w (Some adr)) q = (Some \<lparr>sgr_code = RESPONSE_CODE_OK\<rparr>, w2)"
      "sent w2 = sent ?w1 @ [sgq_msg q]"
    using group_host_send [OF H, of ?w1 "Some adr" "hs_load_auth H w (Some adr)" q] f by auto
  have resp: "consume_send_group_msg_response H P w2 (Some ?g) (Some \<lparr>sgr_code = RESPONSE_CODE_OK\<rparr>) =
      Some (0, Some ?g', hs_store_group_session H w2 ?g')"
    using valid grp.advance_ok [OF k'] info(3)
    by (simp add: consume_send_group_msg_response_def is_valid_send_group_msg_response_def Let_def group_at_Suc)
  have "sent ?w1 = sent w" using H by (simp add: group_host_documented_def)
  then show ?thesis
    using q w2 resp group_host_store(2) [OF H, of ?g' info w2] group_host_store(4) [OF H] info
    by (intro that [of "hs_store_group_session H w2 ?g'" s' "sgq_msg q"]) simp_all
qed

text \<open>A response of the server that is not a success leaves the session as it was.\<close>

lemma send_refused:
  assumes H: "group_host_refuses H r sent" and G: "member_session P raw vk adr adr gadr sid G"
    and A: "group_sender H D adr gadr sk A" and k: "length k = 32" and pair: "std_sign_pair P d sk vk"
    and pt: "length pt \<le> GCM_LIMIT"
    and load: "hs_load_group_session_by_address H w (Some adr) (Some adr) (Some gadr) = Some (group_at (std_mac P) k G i)"
  obtains w' s' m where "carries P d k vk adr sid i pt m" "send_group_msg H P D w s (Some adr) (Some gadr) level pt = Some (- 1, r, w', s')"
    "sent w' = sent w @ [m]" "same_groups H w w'"
proof -
  obtain f where f: "hs_send_group_msg H = Some f" using H by (auto simp: group_host_refuses_def)
  obtain s' q where q: "carries P d k vk adr sid i pt (sgq_msg q)"
    "send_group_msg H P D w s (Some adr) (Some gadr) level pt =
      (case f (snd (hs_gen_uuid H w)) (Some adr) (hs_load_auth H w (Some adr)) q of (resp, w2) \<Rightarrow>
         Option.bind (consume_send_group_msg_response H P w2 (Some (group_at (std_mac P) k G i)) resp)
           (\<lambda>(ret, _, w3). Some (ret, resp, w3, s')))"
    by (rule send_call [OF G A k pair pt f load])
  have vk: "vk \<noteq> []" using ds_fixed_lengthD(1,3) [OF scheme(3) pair] by auto
  have "length (group_chain_at (std_mac P) k i) = 32" by (rule grp.chain_length [OF k])
  then have "is_valid_group_session P (Some (group_at (std_mac P) k G i)) = Some True"
    by (intro member_session_valid [OF G vk]) auto
  moreover obtain w' where "f (snd (hs_gen_uuid H w)) (Some adr) (hs_load_auth H w (Some adr)) q = (r, w')"
      "sent w' = sent w @ [sgq_msg q]" "same_groups H w w'"
  proof -
    let ?w = "snd (hs_gen_uuid H w)"
    have "\<forall>w from auth q. \<exists>w'. f w from auth q = (r, w') \<and> same_groups H w w' \<and> sent w' = sent w @ [sgq_msg q]"
        "same_groups H w ?w" "sent ?w = sent w"
      using H f by (simp_all add: group_host_refuses_def)
    then show thesis using that by (metis same_groups_def)
  qed
  moreover have "\<not> is_valid_send_group_msg_response r" using H by (simp add: group_host_refuses_def)
  ultimately show ?thesis using q by (intro that [of "sgq_msg q" w' s']) (simp_all add: consume_send_group_msg_response_def)
qed

text \<open>
  A received message: the chain is advanced to its number unless the session is further, and the
  message is tried with the key of the number reached.  If it opens, the plaintext is delivered and
  the session stored one step further; otherwise nothing is kept.
\<close>

lemma consume_carried:
  assumes I: "member_session P raw vk adr owner gadr sid I" and k: "length k = 32" and vk: "length vk = pr_sign_pk_bytes P d"
    and m: "carries P d k vk adr sid i pt m" and pt: "length pt \<le> GCM_LIMIT" and n: "n = max i j" "n < 2 ^ 32"
    and load: "hs_load_group_session_by_id H w (Some adr) (Some owner) (Some sid) = Some (group_at (std_mac P) k I j)"
  shows "consume_group_msg H P w (Some owner) (Some m) = Some (True,
    case std_open P (group_msg_key (std_kdf P) 32 48 (group_chain_at (std_mac P) k n)) (vk @ vk)
      (std_seal P (group_msg_key (std_kdf P) 32 48 (group_chain_at (std_mac P) k i)) (vk @ vk) pt) of None \<Rightarrow> w
    | Some q \<Rightarrow> hs_store_group_session H (hs_on_group_msg_received H w (Some owner) (Some adr) (Some gadr) (plain_out q))
        (group_at (std_mac P) k I (Suc n)))"
proof -
  let ?g = "group_at (std_mac P) k I j" and ?k = "group_chain_at (std_mac P) k n"
  let ?ct = "std_seal P (group_msg_key (std_kdf P) 32 48 (group_chain_at (std_mac P) k i)) (vk @ vk) pt"
  have vk': "vk \<noteq> []" using vk grp.sign_sizes(1) by auto
  have k': "length ?k = 32" "length (group_chain_at (std_mac P) k j) = 32" by (simp_all add: grp.chain_length [OF k])
  have valid: "is_valid_group_session P (Some ?g) = Some True" using k'(2) by (intro member_session_valid [OF I vk']) auto
  have pack: "gs_e2ees_pack_id I = raw" "gs_associated_data I = buf (vk @ vk)" "is_valid_address (Some owner)"
      "gs_session_owner I = Some owner"
    using I by (simp_all add: member_session_def)
  obtain info where info: "gs_group_info I = Some info" "gi_group_address info = Some gadr"
    using I by (auto simp: member_session_def)
  obtain sig where sg: "std_verify P d sig ?ct vk" and msg: "is_valid_e2ee_msg (Some m)" "em_from m = Some adr" "em_session_id m = Some sid"
      "em_payload m = PAYLOAD_GROUP_MSG (Some \<lparr>gmp_sequence = of_nat i, gmp_ciphertext = buf ?ct, gmp_signature = buf sig\<rparr>)"
    using m by (auto simp: carries_def Let_def)
  obtain p where p: "ds_param (suite_of P raw) = Some p" "dsp_sign_pub_key_len p = pr_sign_pk_bytes P d" by (rule grp.ds_paramE)
  have ver: "call_verify (suite_of P raw) sig ?ct (Some vk) = Some 0" using grp.verify_call [of sig ?ct vk] sg by auto
  note mk = grp.message_key_ok [OF k'(1)]
  have len: "length ?ct = length pt + 16"
    by (rule std.seal_length [OF grp.message_key_ok(2) [OF grp.chain_length [OF k]] pt])
  have dec: "call_decrypt (suite_of P raw) (buf (vk @ vk)) (Some (group_msg_key (std_kdf P) 32 48 ?k)) ?ct =
      Some (open_result (std_open P (group_msg_key (std_kdf P) 32 48 ?k) (vk @ vk) ?ct))"
    using std.open_call [OF mk(2), of ?ct "vk @ vk"] len pt by simp
  have adv: "advance_group_to (suite_of P raw) ?g (of_nat i) = Some (group_at (std_mac P) k I n)"
  proof (cases "j \<le> i")
    case True
    then show ?thesis using grp.advance_to [OF k True, of I] n by (simp add: max_def)
  next
    case False
    then have "\<not> (of_nat j :: u32) < of_nat i" "n = j" using n by (simp_all add: word_less_nat_alt unat_of_nat max_def)
    then show ?thesis by (subst advance_group_to.simps) simp
  qed
  show ?thesis
    using valid pack info msg load p ver vk mk(1) dec adv grp.advance_ok [OF k'(1)]
    by (simp add: consume_group_msg_def Let_def read_bytes_take e2ees_notify_group_msg_def group_at_Suc open_result_def
        split: option.split)
qed

lemma receive_step:
  assumes H: "group_host_documented H received sent" and I: "member_session P raw vk adr owner gadr sid I"
    and k: "length k = 32" and vk: "length vk = pr_sign_pk_bytes P d" and m: "carries P d k vk adr sid i pt m"
    and pt: "length pt \<le> GCM_LIMIT" and ji: "j \<le> i" "i < 2 ^ 32"
    and load: "hs_load_group_session_by_id H w (Some adr) (Some owner) (Some sid) = Some (group_at (std_mac P) k I j)"
  obtains w' where "consume_group_msg H P w (Some owner) (Some m) = Some (True, w')"
    "hs_load_group_session_by_id H w' (Some adr) (Some owner) (Some sid) = Some (group_at (std_mac P) k I (Suc i))"
    "received w' = received w @ [plain_out pt]" "sent w' = sent w"
proof -
  let ?w1 = "hs_on_group_msg_received H w (Some owner) (Some adr) (Some gadr) (plain_out pt)"
  let ?G = "group_at (std_mac P) k I (Suc i)"
  note mk = grp.message_key_ok(2) [OF grp.chain_length [OF k]]
  show ?thesis
  proof (rule that)
    show "consume_group_msg H P w (Some owner) (Some m) = Some (True, hs_store_group_session H ?w1 ?G)"
      using consume_carried [OF I k vk m pt _ _ load, of i] std.open_seal [OF mk pt, of i "vk @ vk"] ji by (simp add: max_def)
    show "hs_load_group_session_by_id H (hs_store_group_session H ?w1 ?G) (Some adr) (Some owner) (Some sid) = Some ?G"
      using group_host_store(1) [OF H, of ?w1 ?G] I by (simp add: member_session_def)
    show "received (hs_store_group_session H ?w1 ?G) = received w @ [plain_out pt]" "sent (hs_store_group_session H ?w1 ?G) = sent w"
      using H by (simp_all add: group_host_store [OF H]) (simp_all add: group_host_documented_def)
  qed
qed

end

subsection \<open>Runs\<close>

fun send_all ::
    "'w host \<Rightarrow> prims \<Rightarrow> gen_defaults \<Rightarrow> address \<Rightarrow> address \<Rightarrow> u32 \<Rightarrow> bytes list \<Rightarrow> 'w \<Rightarrow> seed \<Rightarrow> ('w \<times> seed) option" where
  "send_all H P D adr gadr level [] w s = Some (w, s)"
| "send_all H P D adr gadr level (pt # pts) w s =
     do { (_, _, w, s) \<leftarrow> send_group_msg H P D w s (Some adr) (Some gadr) level pt; send_all H P D adr gadr level pts w s }"

fun receive_all :: "'w host \<Rightarrow> prims \<Rightarrow> address \<Rightarrow> e2ee_msg list \<Rightarrow> 'w \<Rightarrow> 'w option" where
  "receive_all H P owner [] w = Some w"
| "receive_all H P owner (m # ms) w = do { (_, w) \<leftarrow> consume_group_msg H P w (Some owner) (Some m); receive_all H P owner ms w }"

context library_group
begin

lemma send_all_ok:
  assumes H: "group_host_documented H received sent" and G: "member_session P raw vk adr adr gadr sid G"
    and A: "group_sender H D adr gadr sk A" and k: "length k = 32" and pair: "std_sign_pair P d sk vk"
    and pts: "\<forall>pt\<in>set pts. length pt \<le> GCM_LIMIT"
    and load: "hs_load_group_session_by_address H w (Some adr) (Some adr) (Some gadr) = Some (group_at (std_mac P) k G i)"
  shows "\<exists>w' s' xs. send_all H P D adr gadr level pts w s = Some (w', s') \<and> sent w' = sent w @ xs \<and>
    length xs = length pts \<and> (\<forall>j<length pts. carries P d k vk adr sid (i + j) (pts ! j) (xs ! j))"
  using pts load
proof (induction pts arbitrary: w s i)
  case Nil
  then show ?case by auto
next
  case (Cons pt pts)
  have pt: "length pt \<le> GCM_LIMIT" using Cons.prems(1) by simp
  obtain w1 s1 m where step: "send_group_msg H P D w s (Some adr) (Some gadr) level pt = Some (0, Some \<lparr>sgr_code = RESPONSE_CODE_OK\<rparr>, w1, s1)"
      "hs_load_group_session_by_address H w1 (Some adr) (Some adr) (Some gadr) = Some (group_at (std_mac P) k G (Suc i))"
      "sent w1 = sent w @ [m]" "carries P d k vk adr sid i pt m"
    by (rule send_step [OF H G A k pair pt Cons.prems(2)])
  obtain w' s' xs where rest: "send_all H P D adr gadr level pts w1 s1 = Some (w', s')" "sent w' = sent w1 @ xs"
      "length xs = length pts" "\<forall>j<length pts. carries P d k vk adr sid (Suc i + j) (pts ! j) (xs ! j)"
    using Cons.IH [OF _ step(2), of s1] Cons.prems(1) by auto
  have "carries P d k vk adr sid (i + j) ((pt # pts) ! j) ((m # xs) ! j)" if "j < length (pt # pts)" for j
    using that step(4) rest(4) by (cases j) simp_all
  then show ?case using step rest by (intro exI [of _ w'] exI [of _ s'] exI [of _ "m # xs"]) simp
qed

lemma receive_all_ok:
  assumes H: "group_host_documented H received sent" and I: "member_session P raw vk adr owner gadr sid I"
    and k: "length k = 32" and vk: "length vk = pr_sign_pk_bytes P d"
    and ms: "\<forall>n<length pts. carries P d k vk adr sid (b + n) (pts ! n) (xs ! n) \<and> length (pts ! n) \<le> GCM_LIMIT"
    and bound: "b + length pts \<le> 2 ^ 32" "\<forall>n\<in>set ns. n < length pts"
    and ns: "sorted_wrt (<) ns" "\<forall>n\<in>set ns. j \<le> b + n"
    and load: "hs_load_group_session_by_id H w (Some adr) (Some owner) (Some sid) = Some (group_at (std_mac P) k I j)"
  shows "\<exists>w'. receive_all H P owner (map ((!) xs) ns) w = Some w' \<and>
    received w' = received w @ map (\<lambda>n. plain_out (pts ! n)) ns"
  using ns bound(2) load
proof (induction ns arbitrary: w j)
  case Nil
  then show ?case by simp
next
  case (Cons n ns)
  have n: "n < length pts" "b + n < 2 ^ 32" "j \<le> b + n" using Cons.prems bound(1) by auto
  obtain w1 where step: "consume_group_msg H P w (Some owner) (Some (xs ! n)) = Some (True, w1)"
      "hs_load_group_session_by_id H w1 (Some adr) (Some owner) (Some sid) = Some (group_at (std_mac P) k I (Suc (b + n)))"
      "received w1 = received w @ [plain_out (pts ! n)]"
    using receive_step [OF H I k vk _ _ n(3,2) Cons.prems(4)] ms n(1) by blast
  have "\<forall>n'\<in>set ns. Suc (b + n) \<le> b + n'" using Cons.prems(1) by auto
  from Cons.IH [OF _ this _ step(2)] Cons.prems step(1,3) show ?case by auto
qed

end

end
