(* ===== verification/Group_Creation.thy ===== *)
theory Group_Creation
  imports Group_Laws
begin

section \<open>How group sessions come about\<close>

text \<open>
  The session of one member at its owner and at another device: the owner makes it from the group's
  seed, another device in one of three ways, depending on whether the seed or the member list arrives
  first or both are there.  Then what remains of the creation of a group when the seed arrives first.
\<close>

definition group_key :: "prims \<Rightarrow> bytes \<Rightarrow> bytes \<Rightarrow> bytes" where
  "group_key P seed vk = std_kdf P (take 32 seed @ vk) (replicate 32 0) ROOT_SEED 32"

definition good_address :: "gen_defaults \<Rightarrow> address \<Rightarrow> bool" where
  "good_address D a \<longleftrightarrow> is_valid_address (Some a) \<and> wf_address D a"

definition good_group :: "gen_defaults \<Rightarrow> address \<Rightarrow> group_info \<Rightarrow> bool" where
  "good_group D gadr gi \<longleftrightarrow> wf_group_info D gi \<and> is_valid_group_info (Some gi) = Some True \<and> gi_group_address gi = Some gadr"

definition group_bundle :: "u32 \<Rightarrow> string \<Rightarrow> string \<Rightarrow> address \<Rightarrow> group_info \<Rightarrow> bytes \<Rightarrow> group_pre_key_bundle" where
  "group_bundle raw v sid sender gi seed =
     \<lparr>gpk_version = Some v, gpk_e2ees_pack_id = raw, gpk_session_id = Some sid, gpk_old_session_id = None,
      gpk_sender = Some sender, gpk_group_info = Some gi, gpk_sequence = 0, gpk_group_seed = buf seed\<rparr>"

abbreviation member_info_of :: "address \<Rightarrow> bytes \<Rightarrow> group_member_info" where
  "member_info_of adr vk \<equiv> \<lparr>gmi_member_address = Some adr, gmi_sign_public_key = buf vk\<rparr>"

lemma good_groupD:
  assumes "good_group D gadr gi"
  shows "good_address D gadr" "copy_group_info D (Some gi) = Some gi" "is_valid_string (gi_group_name gi)"
    "is_valid_group_member_list (gi_group_member_list gi) (gi_n_group_member_list gi) = Some True"
    "copy_address_from_address D (gi_group_address gi) = Some gadr"
proof -
  show "copy_group_info D (Some gi) = Some gi" using assms by (simp add: good_group_def group_info_copy.copy_id)
  show gadr: "good_address D gadr"
    using assms by (auto simp: good_group_def is_valid_group_info_def wf_group_info_def good_address_def split: if_splits)
  then show "copy_address_from_address D (gi_group_address gi) = Some gadr"
    using assms by (simp add: good_group_def good_address_def address_copy.copy_id)
qed (use assms in \<open>auto simp: good_group_def is_valid_group_info_def split: if_splits\<close>)

lemma good_group_members:
  assumes "good_group D gadr gi"
  obtains name ms where "gi_group_name gi = Some name"
    "copy_group_members D (gi_group_member_list gi) (gi_n_group_member_list gi) = Some ms"
    "gi = (init_group_info D)\<lparr>gi_group_name := Some name, gi_group_address := Some gadr,
       gi_n_group_member_list := gi_n_group_member_list gi, gi_group_member_list := Some ms\<rparr>"
proof -
  obtain ms where ms: "gi_group_member_list gi = Some ms" "length ms = gi_n_group_member_list gi" "list_all (set_ptr (wf_member D)) ms"
    using assms by (auto simp: good_group_def wf_group_info_def)
  obtain name where "gi_group_name gi = Some name" using good_groupD(3) [OF assms] by (cases "gi_group_name gi") auto
  then show ?thesis
    using that ms member_copy.array_id [of "length ms" ms] assms
    by (simp add: copy_group_members_def good_group_def init_group_info_def)
qed

context library_group
begin

lemma root_key:
  assumes "32 \<le> length seed" and "length vk = pr_sign_pk_bytes P d"
  shows "group_root_key (suite_of P raw) (Some seed) (Some vk) = Some (buf (group_key P seed vk))"
    "group_root_key (suite_of P raw) (Some seed) (Some (vk @ vk)) = Some (buf (group_key P seed vk))"
    "group_associated_data (suite_of P raw) (Some vk) = Some (buf (vk @ vk))"
  using grp.root_key_ok [OF assms] assms by (simp_all add: group_key_def)

lemma group_key_length: "length (group_key P seed vk) = 32"
  by (simp add: group_key_def)

lemma by_receiver_ok:
  assumes own: "own_sign_key H cache w (Some adr) = Some (0, Some vk)" and vk: "length vk = pr_sign_pk_bytes P d"
    and seed: "32 \<le> length seed" and adr: "good_address D adr" and gi: "good_group D gadr gi" and sid: "sid \<noteq> []"
  obtains G where "new_outbound_group_session_by_receiver H P D cache w (buf seed) raw (Some adr) (gi_group_name gi)
      (gi_group_address gi) (Some sid) (gi_group_member_list gi) (gi_n_group_member_list gi) =
      Some (0, hs_store_group_session H w (group_at (std_mac P) (group_key P seed vk) G 0))"
    "member_session P raw vk adr adr gadr sid G"
proof -
  have seed': "seed \<noteq> []" using seed by auto
  obtain name ms where gi': "gi_group_name gi = Some name"
    "copy_group_members D (gi_group_member_list gi) (gi_n_group_member_list gi) = Some ms"
    "gi = (init_group_info D)\<lparr>gi_group_name := Some name, gi_group_address := Some gadr,
       gi_n_group_member_list := gi_n_group_member_list gi, gi_group_member_list := Some ms\<rparr>"
    by (rule good_group_members [OF gi])
  note gd = good_groupD [OF gi]
  let ?G = "(init_group_session D)\<lparr>gs_version := Some E2EES_PROTOCOL_VERSION, gs_e2ees_pack_id := raw, gs_sender := Some adr,
    gs_session_owner := Some adr, gs_session_id := Some sid, gs_group_info := Some gi, gs_associated_data := buf (vk @ vk)\<rparr>"
  show ?thesis
  proof (rule that)
    show "new_outbound_group_session_by_receiver H P D cache w (buf seed) raw (Some adr) (gi_group_name gi)
      (gi_group_address gi) (Some sid) (gi_group_member_list gi) (gi_n_group_member_list gi) =
      Some (0, hs_store_group_session H w (group_at (std_mac P) (group_key P seed vk) ?G 0))"
      using own gd(1,3,4,5) gi'(1,2) accepted adr sid seed' root_key [OF seed vk] gi gi'(3) [symmetric]
      by (simp add: new_outbound_group_session_by_receiver_def insert_outbound_group_session_data_def Let_def good_address_def
          good_group_def address_copy.copy_id free_protobuf_def group_at_def init_group_session_def)
    show "member_session P raw vk adr adr gadr sid ?G"
      using accepted sid adr gi by (simp add: member_session_def good_address_def good_group_def E2EES_PROTOCOL_VERSION_def)
  qed
qed

text \<open>The three ways to the session at another device.\<close>

lemma bundle_then_member:
  assumes vk: "length vk = pr_sign_pk_bytes P d" and seed: "32 \<le> length seed"
    and adr: "good_address D adr" "good_address D owner" and gi: "good_group D gadr gi" and sid: "sid \<noteq> []" "v \<noteq> []"
  obtains I0 I where
    "new_inbound_group_session_by_pre_key_bundle H P D w raw (Some owner) (Some (group_bundle raw v sid adr gi seed)) =
      Some (0, hs_store_group_session H w I0)"
    "\<forall>w'. complete_inbound_group_session_by_member_id H P w' (Some I0) (Some (member_info_of adr vk)) =
      Some (0, Some (group_at (std_mac P) (group_key P seed vk) I 0),
        hs_store_group_session H w' (group_at (std_mac P) (group_key P seed vk) I 0))"
    "member_session P raw vk adr owner gadr sid I"
    "is_valid_group_session_by_pre_key_bundle P (Some I0) = Some True" "gs_group_seed I0 = buf seed"
      "gs_session_owner I0 = Some owner" "gs_version I0 = Some v" "gs_session_id I0 = Some sid" "gs_group_info I0 = Some gi"
      "gs_e2ees_pack_id I0 = raw" "gs_sender I0 = Some adr"
proof -
  have ne: "seed \<noteq> []" "vk \<noteq> []" using seed vk grp.sign_sizes(1) by auto
  let ?start = "(init_group_session D)\<lparr>gs_e2ees_pack_id := raw, gs_session_owner := Some owner, gs_version := Some v,
    gs_session_id := Some sid, gs_sender := Some adr, gs_group_info := Some gi, gs_sequence := 0, gs_group_seed := buf seed\<rparr>"
  let ?I = "?start\<lparr>gs_associated_data := buf (vk @ vk), gs_group_seed := empty_bdata\<rparr>"
  note gd = good_groupD [OF gi]
  have adr': "copy_address_from_address D (Some adr) = Some adr" "copy_address_from_address D (Some owner) = Some owner"
      "is_valid_address (Some adr)" "is_valid_address (Some owner)" "is_valid_group_info (Some gi) = Some True"
    using adr gi by (simp_all add: good_address_def good_group_def address_copy.copy_id)
  have valid0: "is_valid_group_session_by_pre_key_bundle P (Some ?start) = Some True"
    using adr' accepted sid ne(1) by (simp add: is_valid_group_session_by_pre_key_bundle_def)
  show ?thesis
  proof (rule that [of ?start ?I])
    show "new_inbound_group_session_by_pre_key_bundle H P D w raw (Some owner) (Some (group_bundle raw v sid adr gi seed)) =
      Some (0, hs_store_group_session H w ?start)"
      using gd(2) adr' accepted sid ne(1)
      by (simp add: new_inbound_group_session_by_pre_key_bundle_def is_valid_group_pre_key_bundle_def group_bundle_def and_then_def)
    show "\<forall>w'. complete_inbound_group_session_by_member_id H P w' (Some ?start) (Some (member_info_of adr vk)) =
      Some (0, Some (group_at (std_mac P) (group_key P seed vk) ?I 0),
        hs_store_group_session H w' (group_at (std_mac P) (group_key P seed vk) ?I 0))"
      using valid0 adr'(3) ne(2) root_key [OF seed vk]
      by (simp add: complete_inbound_group_session_by_member_id_def is_valid_group_member_info_def Let_def free_protobuf_def
          group_at_def init_group_session_def)
    show "member_session P raw vk adr owner gadr sid ?I"
      using accepted sid adr gi by (simp add: member_session_def good_address_def good_group_def)
  qed (simp_all add: valid0)
qed

lemma member_then_bundle:
  assumes vk: "length vk = pr_sign_pk_bytes P d" and seed: "32 \<le> length seed"
    and adr: "good_address D adr" "good_address D owner" "good_address D creator"
    and gi: "good_group D gadr gi" and sid: "sid \<noteq> []" "v \<noteq> []"
  obtains I0 I where
    "new_inbound_group_session_by_member_id H P D w raw (Some owner) (Some (member_info_of adr vk)) (Some gi) =
      Some (0, hs_store_group_session H w I0)"
    "complete_inbound_group_session_by_pre_key_bundle H P w' (Some I0) (Some (group_bundle raw v sid creator gi seed)) =
      Some (0, Some (group_at (std_mac P) (group_key P seed vk) I 0),
        hs_store_group_session H w' (group_at (std_mac P) (group_key P seed vk) I 0))"
    "member_session P raw vk adr owner gadr sid I"
proof -
  have ne: "seed \<noteq> []" "vk \<noteq> []" using seed vk grp.sign_sizes(1) by auto
  let ?start = "(init_group_session D)\<lparr>gs_e2ees_pack_id := raw, gs_session_owner := Some owner, gs_sender := Some adr,
    gs_group_info := Some gi, gs_associated_data := buf (vk @ vk)\<rparr>"
  let ?I = "?start\<lparr>gs_version := Some v, gs_session_id := Some sid\<rparr>"
  note gd = good_groupD [OF gi]
  have adr': "copy_address_from_address D (Some adr) = Some adr" "copy_address_from_address D (Some owner) = Some owner"
      "is_valid_address (Some adr)" "is_valid_address (Some owner)" "is_valid_address (Some creator)"
      "is_valid_group_info (Some gi) = Some True"
    using adr gi by (simp_all add: good_address_def good_group_def address_copy.copy_id)
  show ?thesis
  proof (rule that [of ?start ?I])
    show "new_inbound_group_session_by_member_id H P D w raw (Some owner) (Some (member_info_of adr vk)) (Some gi) =
      Some (0, hs_store_group_session H w ?start)"
      using gd(2) adr' accepted ne(2) root_key(3) [OF seed vk]
      by (simp add: new_inbound_group_session_by_member_id_def is_valid_group_member_info_def)
    show "complete_inbound_group_session_by_pre_key_bundle H P w' (Some ?start) (Some (group_bundle raw v sid creator gi seed)) =
      Some (0, Some (group_at (std_mac P) (group_key P seed vk) ?I 0),
        hs_store_group_session H w' (group_at (std_mac P) (group_key P seed vk) ?I 0))"
      using adr' accepted sid ne root_key(2) [OF seed vk]
      by (simp add: complete_inbound_group_session_by_pre_key_bundle_def is_valid_group_session_by_member_id_def
          is_valid_group_pre_key_bundle_def group_bundle_def and_then_def Let_def group_at_def init_group_session_def)
    show "member_session P raw vk adr owner gadr sid ?I"
      using accepted sid adr gi by (simp add: member_session_def good_address_def good_group_def)
  qed
qed

lemma both_at_once:
  assumes vk: "length vk = pr_sign_pk_bytes P d" and seed: "32 \<le> length seed"
    and adr: "good_address D adr" "good_address D owner" and gi: "good_group D gadr gi" and sid: "sid \<noteq> []" "v \<noteq> []"
    and other: "is_valid_group_session_by_pre_key_bundle P (Some I0) = Some True" "gs_group_seed I0 = buf seed"
      "gs_session_owner I0 = Some owner" "gs_version I0 = Some v" "gs_session_id I0 = Some sid" "gs_group_info I0 = Some gi"
      "gs_e2ees_pack_id I0 = raw"
  obtains I where "new_and_complete_inbound_group_session H P D w (Some (member_info_of adr vk)) (Some I0) =
      Some (0, hs_store_group_session H w (group_at (std_mac P) (group_key P seed vk) I 0))"
    "member_session P raw vk adr owner gadr sid I"
proof -
  have ne: "seed \<noteq> []" "vk \<noteq> []" using seed vk grp.sign_sizes(1) by auto
  let ?I = "(init_group_session D)\<lparr>gs_e2ees_pack_id := raw, gs_session_owner := Some owner, gs_version := Some v,
    gs_session_id := Some sid, gs_sender := Some adr, gs_group_info := Some gi, gs_associated_data := buf (vk @ vk)\<rparr>"
  note gd = good_groupD [OF gi]
  have adr': "copy_address_from_address D (Some adr) = Some adr" "copy_address_from_address D (Some owner) = Some owner"
      "is_valid_address (Some adr)"
    using adr by (simp_all add: good_address_def address_copy.copy_id)
  show ?thesis
  proof (rule that)
    show "new_and_complete_inbound_group_session H P D w (Some (member_info_of adr vk)) (Some I0) =
      Some (0, hs_store_group_session H w (group_at (std_mac P) (group_key P seed vk) ?I 0))"
      using other gd(2) adr' ne(2) root_key [OF seed vk]
      by (simp add: new_and_complete_inbound_group_session_def insert_inbound_group_session_data_def
          is_valid_group_member_info_def Let_def group_at_def init_group_session_def)
    show "member_session P raw vk adr owner gadr sid ?I"
      using accepted sid adr gi by (simp add: member_session_def good_address_def good_group_def)
  qed
qed

end

subsection \<open>A session without its seed\<close>

definition user_entry :: "group_member_info \<Rightarrow> bool" where
  "user_entry m \<longleftrightarrow> (\<exists>adr. gmi_member_address m = Some adr \<and> is_valid_address (Some adr) \<and> ad_user adr \<noteq> None)"

lemma log_member_user: "user_entry m \<Longrightarrow> log_member ret m = Some ()"
  by (auto simp: user_entry_def log_member_def)

text \<open>Once the session with the creator has no seed, the loop over the members stores nothing any more.\<close>

lemma spent_seed_loop:
  assumes g: "is_valid_group_session_by_pre_key_bundle P (Some g) = Some False"
    and adr: "wf_peer creator" "wf_peer receiver" and ms: "list_all user_entry ms"
  shows "\<exists>ret'. complete_sessions_loop H P D (Some creator) (Some receiver) (Some (map Some (xs @ ms))) (length xs) (length ms)
    ret (Some g) w = Some (ret', Some g, w)"
  using ms
proof (induction ms arbitrary: xs ret)
  case Nil
  then show ?case by simp
next
  case (Cons m ms)
  from Cons.prems obtain b where b: "gmi_member_address m = Some b" "wf_peer b" and m: "log_member ret' m = Some ()" for ret'
    using valid_address_wf_peer by (auto simp: user_entry_def log_member_def)
  have rest: "\<exists>ret'. complete_sessions_loop H P D (Some creator) (Some receiver) (Some (map Some (xs @ m # ms))) (Suc (length xs))
      (length ms) ret (Some g) w = Some (ret', Some g, w)" for ret
    using Cons.IH [of "xs @ [m]" ret] Cons.prems by simp
  have slot: "array_get (Some (map Some (xs @ m # ms))) (length xs) = Some (Some m)" by (simp add: array_get_def nth_append)
  then show ?case
    using b m rest compare_address_id [OF b(2) adr(1)] compare_address_id [OF b(2) adr(2)] g
    by (simp add: complete_inbound_group_session_by_member_id_def new_and_complete_inbound_group_session_def del: map_append list.map)
qed

lemma no_seed_invalid:
  assumes "is_valid_group_session_by_pre_key_bundle P (Some g) = Some True" and "gs_group_seed g' = empty_bdata"
    "gs_version g' = gs_version g" "gs_e2ees_pack_id g' = gs_e2ees_pack_id g" "gs_session_id g' = gs_session_id g"
    "gs_sender g' = gs_sender g" "gs_session_owner g' = gs_session_owner g" "gs_group_info g' = gs_group_info g"
  shows "is_valid_group_session_by_pre_key_bundle P (Some g') = Some False"
  using assms by (auto simp: is_valid_group_session_by_pre_key_bundle_def and_then_def bind_eq_Some_conv split: if_splits)

lemma create_after_bundle:
  assumes receiver: "is_valid_address (Some receiver)" "ad_user receiver \<noteq> None"
    and msg: "is_valid_create_group_msg P (Some m) = Some True" "cgm_sender_address m = Some creator"
      "cgm_group_info m = Some gi" "cgm_member_info_list m = Some (map Some (c # ms))" "cgm_n_member_info_list m = length (c # ms)"
    and c: "gmi_member_address c = Some creator" and ms: "list_all user_entry (c # ms)"
    and load: "hs_load_group_session_by_address H w (Some creator) (Some receiver) (gi_group_address gi) = Some g"
    and g: "is_valid_group_session_by_pre_key_bundle P (Some g) = Some True"
    and completed: "complete_inbound_group_session_by_member_id H P w (Some g) (Some c) = Some (0, Some g', w')"
    and own: "own_sign_key H cache w' (Some receiver) \<noteq> None"
  shows "consume_create_group_msg H P D cache w (Some receiver) (Some m) = Some (True, w')"
proof -
  have g': "gs_group_seed g' = empty_bdata" "gs_version g' = gs_version g" "gs_e2ees_pack_id g' = gs_e2ees_pack_id g"
      "gs_session_id g' = gs_session_id g" "gs_sender g' = gs_sender g" "gs_session_owner g' = gs_session_owner g"
      "gs_group_info g' = gs_group_info g"
    using completed g by (auto simp: complete_inbound_group_session_by_member_id_def free_protobuf_def Let_def bind_eq_Some_conv
        split: if_splits)
  note bad = no_seed_invalid [OF g g']
  have peers: "wf_peer creator" "wf_peer receiver"
    using valid_address_wf_peer receiver(1) msg(1,2) by (auto simp: is_valid_create_group_msg_def split: if_splits)
  obtain ret where rest: "complete_sessions_loop H P D (Some creator) (Some receiver) (Some (map Some ([c] @ ms))) (length [c])
      (length ms) 0 (Some g') w' = Some (ret, Some g', w')"
    using spent_seed_loop [OF bad peers, of ms H D "[c]" 0 w'] ms by auto
  have loop: "complete_sessions_loop H P D (Some creator) (Some receiver) (Some (map Some (c # ms))) 0 (length (c # ms))
      0 (Some g) w = Some (ret, Some g', w')"
    using completed rest c ms compare_address_id [OF peers(1,1)] by (simp add: array_get_def log_member_user)
  obtain r key where own': "own_sign_key H cache w' (Some receiver) = Some (r, key)" using own by auto
  have members: "is_valid_group_member_list (gi_group_member_list gi) (gi_n_group_member_list gi) = Some True"
    using msg(1,3) by (auto simp: is_valid_create_group_msg_def is_valid_group_info_def split: if_splits)
  have fail: "new_outbound_group_session_by_receiver H P D cache w' (gs_group_seed g') (cgm_e2ees_pack_id m) (Some receiver)
      (gi_group_name gi) (gi_group_address gi) (gs_session_id g') (gi_group_member_list gi) (gi_n_group_member_list gi) =
      Some (- 1, w')"
    using own' members g'(1) by (simp add: new_outbound_group_session_by_receiver_def)
  show ?thesis
    using receiver msg load g loop fail by (auto simp: consume_create_group_msg_def Let_def simp del: complete_sessions_loop.simps)
qed

end
