(* ===== verification/Group_Props.thy ===== *)
theory Group_Props
  imports Group_Creation Session_Props Base_Props
begin

section \<open>Properties of groups\<close>

text \<open>
  That all devices of a group come to the same session of a member, whatever arrives first, and that
  its messages are delivered; what happens to a late message, to a message the server refuses and to a
  group whose key arrives before its member list.
\<close>

lemma library_groupI:
  assumes "prims_ok P" and "is_valid_e2ees_pack_id P raw" and "pack_kem raw = Some a"
    and "pack_ds raw = Some d" "d \<noteq> DS_CURVE25519" "ds_fixed_length P d"
  shows "library_group P raw a d"
  using assms by unfold_locales

subsection \<open>A concrete host\<close>

text \<open>The state: stored group sessions, delivered plaintexts, messages given to the server.\<close>

type_synonym demo_world = "group_session list \<times> bdata list \<times> e2ee_msg list"

definition demo_group_host :: "account \<Rightarrow> response_code \<Rightarrow> demo_world host" where
  "demo_group_host A code = idle_host
     \<lparr>hs_load_account_by_address := (\<lambda>w adr. Some A), hs_load_auth := (\<lambda>w adr. Some ''token''),
      hs_on_group_msg_received := (\<lambda>w a b g p. (fst w, fst (snd w) @ [p], snd (snd w))),
      hs_store_group_session := (\<lambda>w G. (G # fst w, snd w)),
      hs_load_group_session_by_id := (\<lambda>w a b i. find (\<lambda>G. gs_sender G = a \<and> gs_session_owner G = b \<and> gs_session_id G = i) (fst w)),
      hs_load_group_session_by_address := (\<lambda>w a b g. find (\<lambda>G. gs_sender G = a \<and> gs_session_owner G = b \<and>
        map_option gi_group_address (gs_group_info G) = Some g) (fst w)),
      hs_send_group_msg := Some (\<lambda>w adr auth q.
        (Some \<lparr>sgr_code = code\<rparr>, (fst w, fst (snd w), snd (snd w) @ [sgq_msg q])))\<rparr>"

lemma demo_group_host_documented:
  "group_host_documented (demo_group_host A RESPONSE_CODE_OK) (fst \<circ> snd) (snd \<circ> snd)"
  by (auto simp: group_host_documented_def demo_group_host_def idle_host_def same_groups_def)

definition demo_gadr :: address where
  "demo_gadr = \<lparr>ad_domain = Some ''d'', ad_peer_case = PEER_GROUP, ad_user = None,
     ad_group = Some \<lparr>pg_group_name = Some ''g'', pg_group_id = Some ''1''\<rparr>\<rparr>"

definition demo_gi :: group_info where
  "demo_gi = \<lparr>gi_group_name = Some ''g'', gi_group_address = Some demo_gadr, gi_n_group_member_list = 1,
     gi_group_member_list = Some [Some (demo_member ''a'')]\<rparr>"

lemma demo_good:
  "u \<noteq> [] \<Longrightarrow> good_address demo_D (demo_address u)" "good_address demo_D demo_gadr" "good_group demo_D demo_gadr demo_gi"
proof -
  show "u \<noteq> [] \<Longrightarrow> good_address demo_D (demo_address u)"
    by (simp add: good_address_def demo_address_def is_valid_address_def wf_address_def wf_str_def)
  show gadr: "good_address demo_D demo_gadr"
    by (simp add: good_address_def demo_gadr_def is_valid_address_def wf_address_def wf_str_def)
  then show "good_group demo_D demo_gadr demo_gi"
    by (simp add: good_group_def demo_gi_def good_address_def wf_group_info_def is_valid_group_info_def wf_str_def wf_member_def
        demo_member_def is_valid_group_member_list_def valid_array_eq is_valid_group_member_def)
qed

lemma demo_fixed: "ds_fixed_length demo_prims d" "std_sign_pair demo_prims d [n] [n]" "pr_sign_pk_bytes demo_prims d = 1"
proof -
  show "ds_fixed_length demo_prims d"
    using demo_ds(3) by (simp add: ds_fixed_length_def std_sign_def demo_prims_def)
  show "std_sign_pair demo_prims d [n] [n]"
    unfolding std_sign_pair_def by (intro exI [of _ "unat n"]) (simp add: demo_prims_def)
qed (simp add: demo_prims_def)

lemmas demo_library = demo_prims_ok demo_pack demo_ds(1,2) demo_fixed(1)

lemma demo_own:
  "own_sign_key (demo_group_host (demo_user ''a'' 5) code) [] w (Some (demo_address ''a'')) = Some (0, Some [9])"
  by (simp add: own_sign_key_def demo_address_def is_valid_address_def load_identity_key_from_cache_def demo_group_host_def idle_host_def
      get_identity_public_key_ds_uint8_from_account_def demo_user_def key_pair_of_def buf_def Let_def)

lemma demo_group_sender:
  "group_sender (demo_group_host (demo_user ''a'' 5) code) demo_D (demo_address ''a'') demo_gadr [9] (demo_user ''a'' 5)"
  using demo_good(1) [of "''a''"] demo_good(2)
  by (simp add: group_sender_def good_address_def demo_group_host_def idle_host_def demo_user_def is_valid_identity_key_def is_valid_key_pair_def
      key_pair_of_def)

subsection \<open>Agreement\<close>

text \<open>The part of a session that encrypts and decrypts.\<close>

definition same_stream :: "group_session \<Rightarrow> group_session \<Rightarrow> bool" where
  "same_stream G I \<longleftrightarrow> gs_chain_key G = gs_chain_key I \<and> gs_sequence G = gs_sequence I \<and>
     gs_associated_data G = gs_associated_data I \<and> gs_session_id G = gs_session_id I \<and> gs_sender G = gs_sender I"

lemma same_stream_at:
  assumes "member_session P raw vk adr owner gadr sid G" and "member_session P raw vk adr owner' gadr sid I"
  shows "same_stream (group_at mac k G i) (group_at mac k I i)"
  using assms by (simp add: same_stream_def member_session_def)

text \<open>
  C33: a member with signing key \<open>vk\<close> makes the own outbound session from the group's seed.  Another
  device comes to the inbound session for this member in three ways: from the key bundle and then the
  member list when the member is the creator, from the member list and then the bundle, or, both
  being there, from the session with the creator.  All succeed, and the three inbound sessions have the
  chain key, the number, the associated data and the id of the outbound one.
\<close>

theorem group_sessions_agree:
  assumes lib: "prims_ok P" "is_valid_e2ees_pack_id P raw" "pack_kem raw = Some a"
      "pack_ds raw = Some d" "d \<noteq> DS_CURVE25519" "ds_fixed_length P d"
    and vk: "length vk = pr_sign_pk_bytes P d" and seed: "32 \<le> length seed" and sid: "sid \<noteq> []" "v \<noteq> []"
    and adr: "good_address D adr" "good_address D owner" "good_address D creator" and gi: "good_group D gadr gi"
    and own: "own_sign_key HA cache wA (Some adr) = Some (0, Some vk)"
  shows "\<exists>G I J K s1 s2 s3.
    new_outbound_group_session_by_receiver HA P D cache wA (buf seed) raw (Some adr) (gi_group_name gi)
      (gi_group_address gi) (Some sid) (gi_group_member_list gi) (gi_n_group_member_list gi) =
      Some (0, hs_store_group_session HA wA G) \<and>
    new_inbound_group_session_by_pre_key_bundle H P D w raw (Some owner) (Some (group_bundle raw v sid adr gi seed)) =
      Some (0, hs_store_group_session H w s1) \<and>
    complete_inbound_group_session_by_member_id H P w' (Some s1) (Some (member_info_of adr vk)) =
      Some (0, Some I, hs_store_group_session H w' I) \<and> same_stream G I \<and>
    new_inbound_group_session_by_member_id H P D w raw (Some owner) (Some (member_info_of adr vk)) (Some gi) =
      Some (0, hs_store_group_session H w s2) \<and>
    complete_inbound_group_session_by_pre_key_bundle H P w' (Some s2) (Some (group_bundle raw v sid creator gi seed)) =
      Some (0, Some J, hs_store_group_session H w' J) \<and> same_stream G J \<and>
    new_inbound_group_session_by_pre_key_bundle H P D w raw (Some owner) (Some (group_bundle raw v sid creator gi seed)) =
      Some (0, hs_store_group_session H w s3) \<and>
    new_and_complete_inbound_group_session H P D w' (Some (member_info_of adr vk)) (Some s3) =
      Some (0, hs_store_group_session H w' K) \<and> same_stream G K"
proof -
  note L = library_groupI [OF lib]
  obtain G where G: "new_outbound_group_session_by_receiver HA P D cache wA (buf seed) raw (Some adr) (gi_group_name gi)
      (gi_group_address gi) (Some sid) (gi_group_member_list gi) (gi_n_group_member_list gi) =
      Some (0, hs_store_group_session HA wA (group_at (std_mac P) (group_key P seed vk) G 0))"
    "member_session P raw vk adr adr gadr sid G"
    by (rule library_group.by_receiver_ok [OF L own vk seed adr(1) gi sid(1)])
  obtain s1 I where I: "new_inbound_group_session_by_pre_key_bundle H P D w raw (Some owner)
      (Some (group_bundle raw v sid adr gi seed)) = Some (0, hs_store_group_session H w s1)"
    "\<forall>w'. complete_inbound_group_session_by_member_id H P w' (Some s1) (Some (member_info_of adr vk)) =
      Some (0, Some (group_at (std_mac P) (group_key P seed vk) I 0),
        hs_store_group_session H w' (group_at (std_mac P) (group_key P seed vk) I 0))"
    "member_session P raw vk adr owner gadr sid I"
    by (rule library_group.bundle_then_member [OF L vk seed adr(1,2) gi sid])
  obtain s2 J where J: "new_inbound_group_session_by_member_id H P D w raw (Some owner) (Some (member_info_of adr vk)) (Some gi) =
      Some (0, hs_store_group_session H w s2)"
    "complete_inbound_group_session_by_pre_key_bundle H P w' (Some s2) (Some (group_bundle raw v sid creator gi seed)) =
      Some (0, Some (group_at (std_mac P) (group_key P seed vk) J 0),
        hs_store_group_session H w' (group_at (std_mac P) (group_key P seed vk) J 0))"
    "member_session P raw vk adr owner gadr sid J"
    by (rule library_group.member_then_bundle [OF L vk seed adr gi sid])
  obtain s3 where s3: "new_inbound_group_session_by_pre_key_bundle H P D w raw (Some owner)
      (Some (group_bundle raw v sid creator gi seed)) = Some (0, hs_store_group_session H w s3)"
    "is_valid_group_session_by_pre_key_bundle P (Some s3) = Some True" "gs_group_seed s3 = buf seed"
      "gs_session_owner s3 = Some owner" "gs_version s3 = Some v" "gs_session_id s3 = Some sid" "gs_group_info s3 = Some gi"
      "gs_e2ees_pack_id s3 = raw"
    by (rule library_group.bundle_then_member [OF L vk seed adr(3,2) gi sid])
  obtain K where K: "new_and_complete_inbound_group_session H P D w' (Some (member_info_of adr vk)) (Some s3) =
      Some (0, hs_store_group_session H w' (group_at (std_mac P) (group_key P seed vk) K 0))"
    "member_session P raw vk adr owner gadr sid K"
    by (rule library_group.both_at_once [OF L vk seed adr(1,2) gi sid s3(2-)])
  note same = same_stream_at [OF G(2) I(3)] same_stream_at [OF G(2) J(3)] same_stream_at [OF G(2) K(2)]
  show ?thesis using G(1) I(1,2) J(1,2) s3(1) K(1) same by blast
qed

abbreviation (input) demo_group_alice :: "demo_world host" where
  "demo_group_alice \<equiv> demo_group_host (demo_user ''a'' 5) RESPONSE_CODE_OK"

abbreviation (input) demo_group_bob :: "demo_world host" where
  "demo_group_bob \<equiv> demo_group_host (demo_user ''b'' 4) RESPONSE_CODE_OK"

theorem group_sessions_agree_witness:
  "\<exists>G J start. new_outbound_group_session_by_receiver demo_group_alice demo_prims demo_D [] ([], [], []) (buf (replicate 32 7)) 0x113101
      (Some (demo_address ''a'')) (gi_group_name demo_gi) (gi_group_address demo_gi) (Some ''s'') (gi_group_member_list demo_gi)
      (gi_n_group_member_list demo_gi) = Some (0, hs_store_group_session demo_group_alice ([], [], []) G) \<and>
    new_inbound_group_session_by_member_id demo_group_bob demo_prims demo_D ([], [], []) 0x113101 (Some (demo_address ''b''))
      (Some (member_info_of (demo_address ''a'') [9])) (Some demo_gi) = Some (0, hs_store_group_session demo_group_bob ([], [], []) start) \<and>
    complete_inbound_group_session_by_pre_key_bundle demo_group_bob demo_prims ([], [], []) (Some start)
      (Some (group_bundle 0x113101 ''v'' ''s'' (demo_address ''c'') demo_gi (replicate 32 7))) =
      Some (0, Some J, hs_store_group_session demo_group_bob ([], [], []) J) \<and> same_stream G J"
proof -
  have sizes: "length [9 :: byte] = pr_sign_pk_bytes demo_prims DS_MLDSA87" "32 \<le> length (replicate 32 (7 :: byte))"
      "''s'' \<noteq> []" "''v'' \<noteq> []" by (simp_all add: demo_fixed)
  have "''a'' \<noteq> []" "''b'' \<noteq> []" "''c'' \<noteq> []" by simp_all
  note users = this [THEN demo_good(1)]
  show ?thesis
    using group_sessions_agree [OF demo_library sizes users demo_good(3) demo_own [of RESPONSE_CODE_OK "([], [], [])"],
        where H = demo_group_bob and w = "([], [], [])" and w' = "([], [], [])"] by blast
qed

subsection \<open>Delivery\<close>

text \<open>
  C34: Alice makes her outbound session from the seed, Bob his inbound session for her from the member
  list and then the creator's bundle.  She sends any messages over a server that accepts them.  Bob
  receives some of them, in the order of sending and with any of them lost: the application gets exactly the
  plaintexts of the received ones, in order.
\<close>

theorem group_messages_delivered:
  assumes lib: "prims_ok P" "is_valid_e2ees_pack_id P raw" "pack_kem raw = Some a"
      "pack_ds raw = Some d" "d \<noteq> DS_CURVE25519" "ds_fixed_length P d"
    and hosts: "group_host_documented HA receivedA sentA" "group_host_documented HB receivedB sentB"
    and alice: "group_sender HA D adr gadr sk A" "std_sign_pair P d sk vk"
      "own_sign_key HA cache wA (Some adr) = Some (0, Some vk)"
    and seed: "32 \<le> length seed" and sid: "sid \<noteq> []" "v \<noteq> []"
    and adr: "good_address D owner" "good_address D creator" and gi: "good_group D gadr gi"
    and msgs: "\<forall>pt\<in>set pts. length pt \<le> GCM_LIMIT" "length pts \<le> 2 ^ 32"
    and order: "sorted_wrt (<) ns" "\<forall>n\<in>set ns. n < length pts"
  shows "\<exists>wA1 wA2 s2 xs start I w2 w3.
    new_outbound_group_session_by_receiver HA P D cache wA (buf seed) raw (Some adr) (gi_group_name gi)
      (gi_group_address gi) (Some sid) (gi_group_member_list gi) (gi_n_group_member_list gi) = Some (0, wA1) \<and>
    send_all HA P D adr gadr level pts wA1 s = Some (wA2, s2) \<and> sentA wA2 = sentA wA1 @ xs \<and> length xs = length pts \<and>
    new_inbound_group_session_by_member_id HB P D wB raw (Some owner) (Some (member_info_of adr vk)) (Some gi) =
      Some (0, hs_store_group_session HB wB start) \<and>
    complete_inbound_group_session_by_pre_key_bundle HB P w1 (Some start) (Some (group_bundle raw v sid creator gi seed)) =
      Some (0, Some I, w2) \<and>
    receive_all HB P owner (map ((!) xs) ns) w2 = Some w3 \<and>
    receivedB w3 = receivedB w1 @ map (\<lambda>n. plain_out (pts ! n)) ns"
proof -
  note L = library_groupI [OF lib]
  let ?k = "group_key P seed vk"
  have k: "length ?k = 32" by (rule library_group.group_key_length [OF L])
  have vk: "length vk = pr_sign_pk_bytes P d" by (rule ds_fixed_lengthD(1) [OF lib(6) alice(2)])
  have sender: "good_address D adr" using alice(1) by (simp add: group_sender_def good_address_def)
  obtain G where G: "new_outbound_group_session_by_receiver HA P D cache wA (buf seed) raw (Some adr) (gi_group_name gi)
      (gi_group_address gi) (Some sid) (gi_group_member_list gi) (gi_n_group_member_list gi) =
      Some (0, hs_store_group_session HA wA (group_at (std_mac P) ?k G 0))" "member_session P raw vk adr adr gadr sid G"
    by (rule library_group.by_receiver_ok [OF L alice(3) vk seed sender gi sid(1)])
  obtain start I where I: "new_inbound_group_session_by_member_id HB P D wB raw (Some owner) (Some (member_info_of adr vk)) (Some gi) =
      Some (0, hs_store_group_session HB wB start)"
    "complete_inbound_group_session_by_pre_key_bundle HB P w1 (Some start) (Some (group_bundle raw v sid creator gi seed)) =
      Some (0, Some (group_at (std_mac P) ?k I 0), hs_store_group_session HB w1 (group_at (std_mac P) ?k I 0))"
    "member_session P raw vk adr owner gadr sid I"
    by (rule library_group.member_then_bundle [OF L vk seed sender adr gi sid])
  let ?wA = "hs_store_group_session HA wA (group_at (std_mac P) ?k G 0)" and ?wB = "hs_store_group_session HB w1 (group_at (std_mac P) ?k I 0)"
  have loadA: "hs_load_group_session_by_address HA ?wA (Some adr) (Some adr) (Some gadr) = Some (group_at (std_mac P) ?k G 0)"
    using group_host_store(2) [OF hosts(1), of "group_at (std_mac P) ?k G 0" _ wA] G(2) by (auto simp: member_session_def)
  have loadB: "hs_load_group_session_by_id HB ?wB (Some adr) (Some owner) (Some sid) = Some (group_at (std_mac P) ?k I 0)"
    using group_host_store(1) [OF hosts(2), of w1 "group_at (std_mac P) ?k I 0"] I(3) by (simp add: member_session_def)
  obtain wA2 s2 xs where sends: "send_all HA P D adr gadr level pts ?wA s = Some (wA2, s2)" "sentA wA2 = sentA ?wA @ xs"
      "length xs = length pts" "\<forall>j<length pts. carries P d ?k vk adr sid (0 + j) (pts ! j) (xs ! j)"
    using library_group.send_all_ok [OF L hosts(1) G(2) alice(1) k alice(2) msgs(1) loadA] by blast
  obtain w3 where rec: "receive_all HB P owner (map ((!) xs) ns) ?wB = Some w3"
      "receivedB w3 = receivedB ?wB @ map (\<lambda>n. plain_out (pts ! n)) ns"
    using library_group.receive_all_ok [OF L hosts(2) I(3) k vk _ _ order(2,1) _ loadB, where b = 0 and xs = xs] sends(4) msgs by auto
  then show ?thesis
    using G(1) I(1,2) sends(1-3) group_host_store(3) [OF hosts(2), of w1] by auto
qed

theorem group_messages_delivered_witness:
  "\<exists>wA1 wA2 s2 xs start I w2 w3.
    new_outbound_group_session_by_receiver demo_group_alice demo_prims demo_D [] ([], [], []) (buf (replicate 32 7)) 0x113101
      (Some (demo_address ''a'')) (gi_group_name demo_gi) (gi_group_address demo_gi) (Some ''s'') (gi_group_member_list demo_gi)
      (gi_n_group_member_list demo_gi) = Some (0, wA1) \<and>
    send_all demo_group_alice demo_prims demo_D (demo_address ''a'') demo_gadr 0 [[1], [2], [3]] wA1 0 = Some (wA2, s2) \<and>
    (snd \<circ> snd) wA2 = (snd \<circ> snd) wA1 @ xs \<and> length xs = length [[1 :: byte], [2], [3]] \<and>
    new_inbound_group_session_by_member_id demo_group_bob demo_prims demo_D ([], [], []) 0x113101 (Some (demo_address ''b''))
      (Some (member_info_of (demo_address ''a'') [9])) (Some demo_gi) = Some (0, hs_store_group_session demo_group_bob ([], [], []) start) \<and>
    complete_inbound_group_session_by_pre_key_bundle demo_group_bob demo_prims ([], [], []) (Some start)
      (Some (group_bundle 0x113101 ''v'' ''s'' (demo_address ''c'') demo_gi (replicate 32 7))) = Some (0, Some I, w2) \<and>
    receive_all demo_group_bob demo_prims (demo_address ''b'') (map ((!) xs) [0, 2]) w2 = Some w3 \<and>
    (fst \<circ> snd) w3 = (fst \<circ> snd) (([], [], []) :: demo_world) @ map (\<lambda>n. plain_out ([[1], [2], [3]] ! n)) [0, 2]"
proof -
  have "''b'' \<noteq> []" "''c'' \<noteq> []" by simp_all
  note users = this [THEN demo_good(1)]
  show ?thesis
    by (rule group_messages_delivered [OF demo_library demo_group_host_documented demo_group_host_documented demo_group_sender
          demo_fixed(2) demo_own _ _ _ users demo_good(3)]) simp_all
qed

text \<open>
  C35: what \<open>consume_group_msg\<close> does with message number \<open>i\<close> of a member when the session is at number \<open>j\<close>.  A
  message whose number the session has not passed is delivered, and the session is stored one further
  than the message.  A message that arrives after a later one is tried with the key of the number \<open>j\<close>
  alone, under which it was not sealed: if it does not open under that key it is lost, and neither the
  database nor the host hears of it; if it does, what comes out is delivered and the session stored at
  \<open>j + 1\<close>.
\<close>

theorem group_message_outcome:
  assumes lib: "prims_ok P" "is_valid_e2ees_pack_id P raw" "pack_kem raw = Some a"
      "pack_ds raw = Some d" "d \<noteq> DS_CURVE25519" "ds_fixed_length P d"
    and I: "member_session P raw vk adr owner gadr sid I" and k: "length k = 32" "length vk = pr_sign_pk_bytes P d"
    and m: "carries P d k vk adr sid i pt m" "length pt \<le> GCM_LIMIT" and n: "i < 2 ^ 32" "j < 2 ^ 32"
    and load: "hs_load_group_session_by_id H w (Some adr) (Some owner) (Some sid) = Some (group_at (std_mac P) k I j)"
  shows "consume_group_msg H P w (Some owner) (Some m) = Some (True,
    if j \<le> i then
      hs_store_group_session H (hs_on_group_msg_received H w (Some owner) (Some adr) (Some gadr) (plain_out pt)) (group_at (std_mac P) k I (Suc i))
    else
      case std_open P (group_msg_key (std_kdf P) 32 48 (group_chain_at (std_mac P) k j)) (vk @ vk)
        (std_seal P (group_msg_key (std_kdf P) 32 48 (group_chain_at (std_mac P) k i)) (vk @ vk) pt) of None \<Rightarrow> w
      | Some q \<Rightarrow> hs_store_group_session H (hs_on_group_msg_received H w (Some owner) (Some adr) (Some gadr) (plain_out q))
          (group_at (std_mac P) k I (Suc j)))"
proof -
  have "length (group_msg_key (std_kdf P) 32 48 (group_chain_at (std_mac P) k i)) = 48"
    using group_suite.message_key_ok(2) [OF group_suite_of [OF lib]] group_suite.chain_length [OF group_suite_of [OF lib] k(1)] by blast
  note same = e2ee_suite.open_seal [OF suite_of_laws [OF lib(1-3)] this m(2), of "vk @ vk"]
  note run = library_group.consume_carried [OF library_groupI [OF lib] I k m _ _ load]
  show ?thesis
  proof (cases "j \<le> i")
    case True
    with run [of i] same n show ?thesis by (simp add: max_def)
  next
    case False
    with run [of j] n show ?thesis by (simp add: max_def)
  qed
qed

definition demo_inbound :: group_session where
  "demo_inbound = (init_group_session demo_D)\<lparr>gs_version := Some ''v'', gs_e2ees_pack_id := 0x113101, gs_session_id := Some ''s'',
     gs_sender := Some (demo_address ''a''), gs_session_owner := Some (demo_address ''b''), gs_group_info := Some demo_gi,
     gs_associated_data := buf [9, 9]\<rparr>"

definition demo_chain :: bytes where
  "demo_chain = 1 # replicate 31 0"

definition demo_ciphertext :: "nat \<Rightarrow> bytes" where
  "demo_ciphertext i = std_seal demo_prims (group_msg_key (std_kdf demo_prims) 32 48
     (group_chain_at (std_mac demo_prims) (demo_chain) i)) [9, 9] [4]"

definition demo_group_msg :: "nat \<Rightarrow> e2ee_msg" where
  "demo_group_msg i = \<lparr>em_version = Some ''v'', em_session_id = Some ''s'', em_from = Some (demo_address ''a''),
     em_to = Some demo_gadr, em_msg_id = Some ''m'', em_notif_level = 0, em_payload = PAYLOAD_GROUP_MSG (Some
       \<lparr>gmp_sequence = of_nat i, gmp_ciphertext = buf (demo_ciphertext i), gmp_signature = buf [sum_bytes (demo_ciphertext i) + 9]\<rparr>)\<rparr>"

lemma demo_signed: "std_verify demo_prims d [sum_bytes ct + 9] ct [9]"
  by (simp add: std_verify_def demo_prims_def)

lemma demo_stream:
  "member_session demo_prims 0x113101 [9] (demo_address ''a'') (demo_address ''b'') demo_gadr ''s'' demo_inbound"
  "carries demo_prims DS_MLDSA87 demo_chain [9] (demo_address ''a'') ''s'' i [4] (demo_group_msg i)"
proof -
  show "member_session demo_prims 0x113101 [9] (demo_address ''a'') (demo_address ''b'') demo_gadr ''s'' demo_inbound"
    using demo_good(1) [of "''a''"] demo_good(1) [of "''b''"] demo_good(3) demo_pack(1)
    by (simp add: member_session_def demo_inbound_def good_address_def good_group_def demo_gi_def)
  have "demo_ciphertext i \<noteq> []" by (simp add: demo_ciphertext_def std_seal_def demo_prims_def)
  then show "carries demo_prims DS_MLDSA87 demo_chain [9] (demo_address ''a'') ''s'' i [4] (demo_group_msg i)"
    using demo_good(1) [of "''a''"] demo_good(2) demo_signed
    by (auto simp: carries_def Let_def demo_group_msg_def demo_ciphertext_def [symmetric] is_valid_e2ee_msg_def
        is_valid_group_msg_payload_def good_address_def)
qed

theorem group_message_outcome_witness:
  "consume_group_msg demo_group_bob demo_prims ([group_at (std_mac demo_prims) demo_chain demo_inbound 1], [], [])
     (Some (demo_address ''b'')) (Some (demo_group_msg 0)) =
   Some (True, ([group_at (std_mac demo_prims) demo_chain demo_inbound 1], [], []))"
proof -
  let ?w = "([group_at (std_mac demo_prims) demo_chain demo_inbound 1], [], [])"
  have load: "hs_load_group_session_by_id demo_group_bob ?w (Some (demo_address ''a'')) (Some (demo_address ''b'')) (Some ''s'') =
      Some (group_at (std_mac demo_prims) demo_chain demo_inbound 1)"
    by (simp add: demo_group_host_def idle_host_def demo_inbound_def)
  have key: "length demo_chain = 32" by (simp add: demo_chain_def)
  have "std_open demo_prims (group_msg_key (std_kdf demo_prims) 32 48 (group_chain_at (std_mac demo_prims) demo_chain 1)) [9, 9]
      (demo_ciphertext 0) = None"
    by (simp add: demo_ciphertext_def std_open_def std_seal_def group_msg_key_def std_kdf_def std_mac_def demo_prims_def Let_def
        GROUP_CHAIN_KEY_SEED_def demo_chain_def)
  then show ?thesis
    using group_message_outcome [OF demo_library demo_stream(1) key _ demo_stream(2) _ _ _ load]
    by (simp add: demo_fixed demo_ciphertext_def)
qed

text \<open>
  C36: a message that the server refuses leaves the outbound session where it was, but the server has the
  ciphertext.  The next message is then sealed with the same key and the same initialisation vector.
\<close>

theorem failed_send_reuses_key:
  assumes lib: "prims_ok P" "is_valid_e2ees_pack_id P raw" "pack_kem raw = Some a"
      "pack_ds raw = Some d" "d \<noteq> DS_CURVE25519" "ds_fixed_length P d"
    and H: "group_host_refuses H r sent"
    and G: "member_session P raw vk adr adr gadr sid G" and alice: "group_sender H D adr gadr sk A" "std_sign_pair P d sk vk"
    and k: "length k = 32" and pt: "length pt \<le> GCM_LIMIT" "length pt' \<le> GCM_LIMIT"
    and load: "hs_load_group_session_by_address H w (Some adr) (Some adr) (Some gadr) = Some (group_at (std_mac P) k G i)"
  shows "\<exists>w1 w2 s1 s2 m1 m2.
    send_group_msg H P D w s (Some adr) (Some gadr) level pt = Some (- 1, r, w1, s1) \<and>
    send_group_msg H P D w1 s1 (Some adr) (Some gadr) level pt' = Some (- 1, r, w2, s2) \<and>
    sent w2 = sent w @ [m1, m2] \<and> carries P d k vk adr sid i pt m1 \<and> carries P d k vk adr sid i pt' m2"
proof -
  note L = library_groupI [OF lib]
  obtain w1 s1 m1 where one: "carries P d k vk adr sid i pt m1"
    "send_group_msg H P D w s (Some adr) (Some gadr) level pt = Some (- 1, r, w1, s1)" "sent w1 = sent w @ [m1]" "same_groups H w w1"
    by (rule library_group.send_refused [OF L H G alice(1) k alice(2) pt(1) load])
  have load1: "hs_load_group_session_by_address H w1 (Some adr) (Some adr) (Some gadr) = Some (group_at (std_mac P) k G i)"
    using load one(4) by (simp add: same_groups_def)
  obtain w2 s2 m2 where two: "carries P d k vk adr sid i pt' m2"
    "send_group_msg H P D w1 s1 (Some adr) (Some gadr) level pt' = Some (- 1, r, w2, s2)" "sent w2 = sent w1 @ [m2]"
    by (rule library_group.send_refused [OF L H G alice(1) k alice(2) pt(2) load1])
  have "sent w2 = sent w @ [m1, m2]" using one(3) two(3) by simp
  with one(1,2) two(1,2) show ?thesis by blast
qed

definition demo_gout :: group_session where
  "demo_gout = demo_inbound\<lparr>gs_session_owner := Some (demo_address ''a'')\<rparr>"

abbreviation (input) demo_refusing :: "demo_world host" where
  "demo_refusing \<equiv> demo_group_host (demo_user ''a'' 5) (RESPONSE_CODE_OTHER 1)"

theorem failed_send_reuses_key_witness:
  "\<exists>w1 w2 s1 s2 m1 m2.
    send_group_msg demo_refusing demo_prims demo_D ([group_at (std_mac demo_prims) demo_chain demo_gout 0], [], []) 0
      (Some (demo_address ''a'')) (Some demo_gadr) 0 [1] = Some (- 1, Some \<lparr>sgr_code = RESPONSE_CODE_OTHER 1\<rparr>, w1, s1) \<and>
    send_group_msg demo_refusing demo_prims demo_D w1 s1 (Some (demo_address ''a'')) (Some demo_gadr) 0 [2] =
      Some (- 1, Some \<lparr>sgr_code = RESPONSE_CODE_OTHER 1\<rparr>, w2, s2) \<and>
    (snd \<circ> snd) w2 = (snd \<circ> snd) (([group_at (std_mac demo_prims) demo_chain demo_gout 0], [], []) :: demo_world) @ [m1, m2] \<and>
    carries demo_prims DS_MLDSA87 demo_chain [9] (demo_address ''a'') ''s'' 0 [1] m1 \<and>
    carries demo_prims DS_MLDSA87 demo_chain [9] (demo_address ''a'') ''s'' 0 [2] m2"
proof -
  have G: "member_session demo_prims 0x113101 [9] (demo_address ''a'') (demo_address ''a'') demo_gadr ''s'' demo_gout"
    using demo_stream(1) by (simp add: member_session_def demo_gout_def)
  have H: "group_host_refuses demo_refusing (Some \<lparr>sgr_code = RESPONSE_CODE_OTHER 1\<rparr>) (snd \<circ> snd)"
    by (auto simp: group_host_refuses_def demo_group_host_def idle_host_def same_groups_def is_valid_send_group_msg_response_def)
  show ?thesis
    by (rule failed_send_reuses_key [OF demo_library H G demo_group_sender demo_fixed(2)])
      (simp_all add: demo_chain_def demo_group_host_def idle_host_def demo_inbound_def demo_gout_def demo_gi_def)
qed

subsection \<open>A bundle that arrives before the group\<close>

text \<open>
  A device gets the creator's key bundle first and the message that announces the group then.  The
  handler completes the session of the creator, which releases the group's seed, and then takes the
  seed from it for everything else.  The message is consumed, but the stored session of the creator is the
  only effect: no session for any other member, no outbound session and no notification.
\<close>

lemma bundle_before_creation:
  assumes lib: "prims_ok P" "is_valid_e2ees_pack_id P raw" "pack_kem raw = Some a"
      "pack_ds raw = Some d" "d \<noteq> DS_CURVE25519" "ds_fixed_length P d"
    and vk: "length vk = pr_sign_pk_bytes P d" and seed: "32 \<le> length seed" and sid: "sid \<noteq> []" "v \<noteq> []"
    and adr: "good_address D creator" "good_address D receiver" "ad_user receiver \<noteq> None" "ad_user creator \<noteq> None"
    and gi: "good_group D gadr gi" and H: "group_host_documented H received sent"
    and msg: "is_valid_create_group_msg P (Some m) = Some True" "cgm_sender_address m = Some creator" "cgm_group_info m = Some gi"
      "cgm_member_info_list m = Some (map Some (member_info_of creator vk # ms))" "cgm_n_member_info_list m = Suc (length ms)"
    and ms: "list_all user_entry ms" and own: "\<And>w. own_sign_key H cache w (Some receiver) \<noteq> None"
  shows "\<exists>start I.
    new_inbound_group_session_by_pre_key_bundle H P D w raw (Some receiver) (Some (group_bundle raw v sid creator gi seed)) =
      Some (0, hs_store_group_session H w start) \<and>
    consume_create_group_msg H P D cache (hs_store_group_session H w start) (Some receiver) (Some m) =
      Some (True, hs_store_group_session H (hs_store_group_session H w start) I) \<and> gs_sender I = Some creator"
proof -
  note L = library_groupI [OF lib]
  let ?w1 = "\<lambda>start. hs_store_group_session H w start" and ?at = "\<lambda>I. group_at (std_mac P) (group_key P seed vk) I 0"
  obtain start I where I: "new_inbound_group_session_by_pre_key_bundle H P D w raw (Some receiver)
      (Some (group_bundle raw v sid creator gi seed)) = Some (0, ?w1 start)"
    "\<forall>w'. complete_inbound_group_session_by_member_id H P w' (Some start) (Some (member_info_of creator vk)) =
      Some (0, Some (?at I), hs_store_group_session H w' (?at I))"
    "member_session P raw vk creator receiver gadr sid I"
    "is_valid_group_session_by_pre_key_bundle P (Some start) = Some True" "gs_group_seed start = buf seed"
      "gs_session_owner start = Some receiver" "gs_version start = Some v" "gs_session_id start = Some sid" "gs_group_info start = Some gi"
      "gs_e2ees_pack_id start = raw" "gs_sender start = Some creator"
    by (rule library_group.bundle_then_member [OF L vk seed adr(1,2) gi sid])
  have load: "hs_load_group_session_by_address H (?w1 start) (Some creator) (Some receiver) (gi_group_address gi) = Some start"
    using group_host_store(2) [OF H I(9), of w] I by simp
  have ok: "is_valid_address (Some receiver)" "list_all user_entry (member_info_of creator vk # ms)"
    using adr ms by (simp_all add: good_address_def user_entry_def)
  have "consume_create_group_msg H P D cache (?w1 start) (Some receiver) (Some m) = Some (True, hs_store_group_session H (?w1 start) (?at I))"
    using msg(5) by (intro create_after_bundle [OF ok(1) adr(3) msg(1-4) _ _ ok(2) load I(4) I(2) [rule_format] own]) simp_all
  moreover have "gs_sender (?at I) = Some creator" using I(3) by (simp add: member_session_def)
  ultimately show ?thesis using I(1) by blast
qed

definition demo_create_msg :: create_group_msg where
  "demo_create_msg = \<lparr>cgm_e2ees_pack_id = 0x113101, cgm_sender_address = Some (demo_address ''c''), cgm_group_info = Some demo_gi,
     cgm_n_member_info_list = 2,
     cgm_member_info_list = Some (map Some [member_info_of (demo_address ''c'') [9], member_info_of (demo_address ''b'') [4]])\<rparr>"

lemma bundle_before_creation_witness:
  "\<exists>start I.
    new_inbound_group_session_by_pre_key_bundle demo_group_bob demo_prims demo_D ([], [], []) 0x113101 (Some (demo_address ''b''))
      (Some (group_bundle 0x113101 ''v'' ''s'' (demo_address ''c'') demo_gi (replicate 32 7))) =
      Some (0, hs_store_group_session demo_group_bob ([], [], []) start) \<and>
    consume_create_group_msg demo_group_bob demo_prims demo_D [] (hs_store_group_session demo_group_bob ([], [], []) start)
      (Some (demo_address ''b'')) (Some demo_create_msg) =
      Some (True, hs_store_group_session demo_group_bob (hs_store_group_session demo_group_bob ([], [], []) start) I) \<and>
    gs_sender I = Some (demo_address ''c'')"
proof -
  have "''b'' \<noteq> []" "''c'' \<noteq> []" by simp_all
  note users = this [THEN demo_good(1)]
  have valid: "is_valid_create_group_msg demo_prims (Some demo_create_msg) = Some True"
    using users demo_good(3) demo_pack(1)
    by (simp add: is_valid_create_group_msg_def demo_create_msg_def good_address_def good_group_def is_valid_group_member_info_list_def
        valid_array_eq is_valid_group_member_info_def)
  have own: "own_sign_key demo_group_bob [] w (Some (demo_address ''b'')) \<noteq> None" for w
    by (simp add: own_sign_key_def demo_address_def is_valid_address_def load_identity_key_from_cache_def demo_group_host_def idle_host_def
      get_identity_public_key_ds_uint8_from_account_def demo_user_def key_pair_of_def buf_def Let_def)
  show ?thesis
    by (rule bundle_before_creation [where vk = "[9]" and ms = "[member_info_of (demo_address ''b'') [4]]", OF demo_library _ _ _ _ users(2,1) _ _ demo_good(3) demo_group_host_documented valid _ _ _ _ _ own])
      (use users in \<open>simp_all add: demo_fixed demo_create_msg_def demo_address_def user_entry_def good_address_def\<close>)
qed

subsection \<open>The loop over missed numbers\<close>

text \<open>
  C37: the loop that advances an inbound session to the number of a message ends for every session with a
  chain key of the right length and every number, with the chain advanced by the difference; a session
  that is further is not changed.
\<close>

theorem group_advance_terminates:
  assumes lib: "prims_ok P" "is_valid_e2ees_pack_id P raw" "pack_kem raw = Some a"
      "pack_ds raw = Some d" "d \<noteq> DS_CURVE25519" "ds_fixed_length P d"
    and g: "gs_chain_key g = buf k" "length k = 32"
  shows "advance_group_to (suite_of P raw) g n =
    Some (g\<lparr>gs_chain_key := buf (((\<lambda>k. std_mac P k GROUP_CHAIN_KEY_SEED) ^^ (unat n - unat (gs_sequence g))) k),
      gs_sequence := max (gs_sequence g) n\<rparr>)"
  using group_suite.advance_total [OF group_suite_of [OF lib] g, of n] by (simp add: group_chain_at_def)

theorem group_advance_terminates_witness:
  "advance_group_to (suite_of demo_prims 0x113101) (demo_inbound\<lparr>gs_chain_key := buf (replicate 32 1), gs_sequence := 4\<rparr>) 6 =
   Some (demo_inbound\<lparr>gs_chain_key := buf (replicate 32 66), gs_sequence := 6\<rparr>)"
proof -
  have mac: "std_mac demo_prims k m = replicate 32 (sum_bytes k + sum_bytes m)" for k m by (simp add: std_mac_def demo_prims_def)
  have two: "(f ^^ 2) x = f (f x)" for f :: "bytes \<Rightarrow> bytes" and x by (simp add: numeral_2_eq_2)
  show ?thesis
    using group_advance_terminates [OF demo_library, of "demo_inbound\<lparr>gs_chain_key := buf (replicate 32 1), gs_sequence := 4\<rparr>"
        "replicate 32 1" 6]
    by (simp add: mac two GROUP_CHAIN_KEY_SEED_def max_def)
qed

end
