(* ===== verification/Messaging.thy ===== *)
theory Messaging
  imports Session Group_Manager
begin

section \<open>One-to-one messages\<close>

text \<open>
  The rest of \<open>src/session_manager.c\<close> but the new device of a group member, and what \<open>src/session.c\<close>,
  \<open>src/e2ees_client_internal.c\<close> and \<open>src/e2ees_client.c\<close> do to send a message to the devices of a user and
  to invite them.  A message for a session that is not established yet waits in the database and is sent
  when the other side accepts.  A session a function is given through a pointer is given and returned.
\<close>

subsection \<open>Sending over a session\<close>

definition E2EES_PLAINTEXT_VERSION :: string where
  "E2EES_PLAINTEXT_VERSION = [CHR 0x01]"

text \<open>The payload case is the constructor; the two the library uses are those of the source's switch.\<close>

definition pack_common_plaintext :: "'w host \<Rightarrow> bytes \<Rightarrow> (bdata \<Rightarrow> plaintext_payload) \<Rightarrow> bytes" where
  "pack_common_plaintext H plaintext_data plaintext_type =
     hs_pack_plaintext H \<lparr>pt_version = Some E2EES_PLAINTEXT_VERSION, pt_payload = plaintext_type (buf plaintext_data)\<rparr>"

definition produce_send_one2one_msg_request ::
    "'w host \<Rightarrow> gen_defaults \<Rightarrow> 'w \<Rightarrow> session \<Rightarrow> u32 \<Rightarrow> one2one_payload ptr \<Rightarrow> (int \<times> e2ee_msg \<times> 'w) option" where
  "produce_send_one2one_msg_request H D w out_session notif_level payload =
     do { version \<leftarrow> deref (se_version out_session); session_id \<leftarrow> deref (se_session_id out_session);
          from \<leftarrow> copy_address_from_address D (se_our_address out_session);
          to \<leftarrow> copy_address_from_address D (se_their_address out_session);
          let (msg_id, w) = generate_uuid_str H w;
          Some (E2EES_RESULT_SUCC,
            \<lparr>em_version = Some version, em_session_id = Some session_id, em_from = Some from, em_to = Some to,
             em_msg_id = msg_id, em_notif_level = notif_level, em_payload = PAYLOAD_ONE2ONE_MSG payload\<rparr>, w) }"

definition consume_send_one2one_msg_response ::
    "'w host \<Rightarrow> 'w \<Rightarrow> session \<Rightarrow> send_one2one_msg_response ptr \<Rightarrow> bool \<times> 'w" where
  "consume_send_one2one_msg_response H w out_session response =
     (let (succ, remove_session) =
        (case response of None \<Rightarrow> (False, False)
         | Some r \<Rightarrow> if sor_code r = RESPONSE_CODE_OK then (True, False)
                      else if sor_code r = RESPONSE_CODE_NOT_FOUND then (True, True) else (False, False))
      in (succ, if remove_session
                then hs_unload_session H w (se_our_address out_session) (se_their_address out_session)
                else hs_store_session H w out_session))"

definition send_one2one_msg_internal ::
    "'w host \<Rightarrow> prims \<Rightarrow> gen_defaults \<Rightarrow> 'w \<Rightarrow> session \<Rightarrow> u32 \<Rightarrow> bytes \<Rightarrow>
     (send_one2one_msg_response \<times> session \<times> 'w) option" where
  "send_one2one_msg_internal H P D w out_session notif_level plaintext_data =
     do { let unavailable = \<lparr>sor_code = RESPONSE_CODE_SERVICE_UNAVAILABLE\<rparr>;
          valid \<leftarrow> is_valid_completed_session P (Some out_session);
          let auth = hs_load_auth H w (se_our_address out_session);
          if \<not> valid \<or> \<not> is_valid_string auth then Some (unavailable, out_session, w)
          else do {
            (ret, payload, ratchet) \<leftarrow> encrypt_ratchet (Some (suite_of P (se_e2ees_pack_id out_session)))
              (se_ratchet out_session) (se_associated_data out_session) (Some plaintext_data);
            let session = out_session\<lparr>se_ratchet := ratchet\<rparr>;
            if ret \<noteq> E2EES_RESULT_SUCC then Some (unavailable, session, w)
            else do {
              (_, request, w) \<leftarrow> produce_send_one2one_msg_request H D w session notif_level payload;
              let (response, w) = dispatch_proto_request (hs_send_one2one_msg H) w request (se_our_address session) auth;
              let (succ, w) = consume_send_one2one_msg_response H w session response;
              let w = (if succ then w
                       else store_pending_request_internal H w (se_our_address session)
                              (PENDING_REQUEST_TYPE_SEND_ONE2ONE_MSG request));
              Some (case response of None \<Rightarrow> unavailable | Some r \<Rightarrow> r, session, w) } } }"

subsection \<open>Messages that waited for a session\<close>

fun send_pending_loop ::
    "'w host \<Rightarrow> prims \<Rightarrow> gen_defaults \<Rightarrow> (cstr \<times> bytes \<times> u32) list \<Rightarrow> 'w \<Rightarrow> session \<Rightarrow> (session \<times> 'w) option" where
  "send_pending_loop H P D [] w out_session = Some (out_session, w)"
| "send_pending_loop H P D ((plaintext_id, plaintext_data, notif_level) # rest) w out_session =
     do { (_, session, w) \<leftarrow> send_one2one_msg_internal H P D w out_session notif_level plaintext_data;
          let w = hs_unload_pending_plaintext_data H w (se_our_address session) (se_their_address session) plaintext_id;
          send_pending_loop H P D rest w session }"

definition send_pending_plaintext_data :: "'w host \<Rightarrow> prims \<Rightarrow> gen_defaults \<Rightarrow> 'w \<Rightarrow> session \<Rightarrow> (session \<times> 'w) option" where
  "send_pending_plaintext_data H P D w out_session =
     send_pending_loop H P D
       (hs_load_pending_plaintext_data H w (se_our_address out_session) (se_their_address out_session))
       w out_session"

definition consume_accept_msg ::
    "'w host \<Rightarrow> prims \<Rightarrow> gen_defaults \<Rightarrow> cache \<Rightarrow> 'w \<Rightarrow> seed \<Rightarrow> address ptr \<Rightarrow> accept_msg ptr \<Rightarrow> (bool \<times> 'w \<times> seed) option" where
  "consume_accept_msg H P D cache w s receiver_address accept_msg =
     (if \<not> is_valid_address receiver_address \<or> \<not> is_valid_accept_msg P accept_msg then Some (True, w, s)
      else do {
        msg \<leftarrow> deref accept_msg;
        same \<leftarrow> compare_address receiver_address (am_to msg);
        if \<not> same then Some (True, w, s)
        else do {
          (ret, out_session, w, s) \<leftarrow>
            (if pk_session_suite (get_e2ees_pack P (am_e2ees_pack_id msg)) = E2EES_SESSION_PQC
             then pqc_complete_outbound_session H P cache w s accept_msg else None);
          if ret \<noteq> E2EES_RESULT_SUCC then Some (True, w, s)
          else do {
            let w = e2ees_notify_outbound_session_ready H w receiver_address out_session;
            session \<leftarrow> deref out_session;
            (_, w) \<leftarrow> send_pending_plaintext_data H P D w session;
            Some (True, w, s) } } })"

subsection \<open>Messages to one's other devices\<close>

text \<open>The loop of \<open>send_sync_msg\<close> and of \<open>send_sync_invite_msg\<close>.\<close>

fun send_sync_loop ::
    "'w host \<Rightarrow> prims \<Rightarrow> gen_defaults \<Rightarrow> address ptr \<Rightarrow> bytes \<Rightarrow> session ptr array \<Rightarrow> nat \<Rightarrow> nat \<Rightarrow> 'w \<Rightarrow> 'w option" where
  "send_sync_loop H P D from data sessions i 0 w = Some w"
| "send_sync_loop H P D from data sessions i (Suc k) w =
     do { p \<leftarrow> array_get sessions i; session \<leftarrow> deref p;
          their \<leftarrow> deref (se_their_address session); their_user \<leftarrow> deref (ad_user their);
          our \<leftarrow> deref from; our_user \<leftarrow> deref (ad_user our);
          their_device \<leftarrow> deref (pu_device_id their_user); our_device \<leftarrow> deref (pu_device_id our_user);
          w \<leftarrow> (if their_device = our_device then Some w
               else if se_responded session then
                 do { (_, _, w) \<leftarrow> send_one2one_msg_internal H P D w session (gd_notif_level_normal D) data; Some w }
               else Some (store_pending_common_plaintext_data_internal H w (se_our_address session) (se_their_address session)
                            data (gd_notif_level_normal D)));
          send_sync_loop H P D from data sessions (Suc i) k w }"

definition send_sync_msg :: "'w host \<Rightarrow> prims \<Rightarrow> gen_defaults \<Rightarrow> 'w \<Rightarrow> address ptr \<Rightarrow> bytes \<Rightarrow> 'w option" where
  "send_sync_msg H P D w from plaintext_data =
     do { our \<leftarrow> deref from; user \<leftarrow> deref (ad_user our);
          let (n, sessions) = hs_load_outbound_sessions H w from (pu_user_id user) (ad_domain our);
          if n > 0 then send_sync_loop H P D from (pack_common_plaintext H plaintext_data PAYLOAD_COMMON_SYNC_MSG) sessions 0 n w
          else Some w }"

definition send_sync_invite_msg ::
    "'w host \<Rightarrow> prims \<Rightarrow> gen_defaults \<Rightarrow> 'w \<Rightarrow> address ptr \<Rightarrow> cstr \<Rightarrow> cstr \<Rightarrow> cstr array \<Rightarrow> nat \<Rightarrow> 'w option" where
  "send_sync_invite_msg H P D w from to_user_id to_domain to_device_id_list to_device_num =
     do { our \<leftarrow> deref from; user \<leftarrow> deref (ad_user our);
          let (n, sessions) = hs_load_outbound_sessions H w from (pu_user_id user) (ad_domain our);
          if n > 0 then
            do { domain \<leftarrow> deref to_domain; user_id \<leftarrow> deref to_user_id;
                 ids \<leftarrow> map_loop deref to_device_id_list 0 to_device_num;
                 let data = hs_pack_plaintext H \<lparr>pt_version = Some E2EES_PLAINTEXT_VERSION,
                       pt_payload = PAYLOAD_USER_DEVICES_BUNDLE (Some \<lparr>udb_domain = Some domain, udb_user_id = Some user_id,
                         udb_n_device_id_list = to_device_num, udb_device_id_list = Some (map Some ids)\<rparr>)\<rparr>;
                 send_sync_loop H P D from data sessions 0 n w }
          else Some w }"

subsection \<open>Pre-key bundles\<close>

definition produce_get_pre_key_bundle_request :: "get_pre_key_bundle_params \<Rightarrow> (int \<times> get_pre_key_bundle_request) option" where
  "produce_get_pre_key_bundle_request params =
     do { domain \<leftarrow> deref (gbp_to_domain params); user_id \<leftarrow> deref (gbp_to_user_id params);
          Some (E2EES_RESULT_SUCC,
            \<lparr>gbr_domain = Some domain, gbr_user_id = Some user_id,
             gbr_device_id = (case gbp_to_device_id params of None \<Rightarrow> Some [] | Some d \<Rightarrow> Some d)\<rparr>) }"

text \<open>Whether a bundle is skipped because it is of the device itself.\<close>

definition own_bundle :: "address ptr \<Rightarrow> bool \<Rightarrow> pre_key_bundle \<Rightarrow> bool option" where
  "own_bundle from is_self bundle = (if is_self then compare_address from (pkb_user_address bundle) else Some False)"

fun verify_bundles_loop ::
    "prims \<Rightarrow> cache \<Rightarrow> address ptr \<Rightarrow> bool \<Rightarrow> pre_key_bundle ptr array \<Rightarrow> nat \<Rightarrow> nat \<Rightarrow> int \<Rightarrow> int option" where
  "verify_bundles_loop P cache from is_self bundles i 0 ret = Some ret"
| "verify_bundles_loop P cache from is_self bundles i (Suc k) ret =
     do { p \<leftarrow> array_get bundles i; bundle \<leftarrow> deref p;
          own \<leftarrow> own_bundle from is_self bundle;
          ret \<leftarrow> (if own then Some ret
                 else do {
                   valid \<leftarrow> is_valid_server_signed_signature (pkb_signature bundle);
                   if \<not> valid then Some E2EES_RESULT_FAIL
                   else do {
                     server_public_key \<leftarrow> load_server_public_key_from_cache cache from;
                     if pb_data server_public_key = None then Some E2EES_RESULT_FAIL
                     else do {
                       x \<leftarrow> deref (pkb_signature bundle); suite \<leftarrow> deref (get_ds_suite P (sss_signing_alg x));
                       verify \<leftarrow> deref (ds_verify suite);
                       sig \<leftarrow> read_pb (sss_signature x); fingerprint \<leftarrow> read_pb (sss_msg_fingerprint x);
                       server_check \<leftarrow> verify sig fingerprint (pb_data server_public_key);
                       Some (if server_check = E2EES_RESULT_FAIL then E2EES_RESULT_FAIL else ret) } } });
          verify_bundles_loop P cache from is_self bundles (Suc i) k ret }"

fun invite_bundles_loop ::
    "'w host \<Rightarrow> prims \<Rightarrow> gen_defaults \<Rightarrow> address ptr \<Rightarrow> bool \<Rightarrow> bytes ptr \<Rightarrow> pre_key_bundle ptr array \<Rightarrow> nat \<Rightarrow> nat \<Rightarrow>
     'w \<Rightarrow> seed \<Rightarrow> (invite_response ptr list \<times> 'w \<times> seed) option" where
  "invite_bundles_loop H P D from is_self group_data bundles i 0 w s = Some ([], w, s)"
| "invite_bundles_loop H P D from is_self group_data bundles i (Suc k) w s =
     do { p \<leftarrow> array_get bundles i; bundle \<leftarrow> deref p;
          own \<leftarrow> own_bundle from is_self bundle;
          if own then invite_bundles_loop H P D from is_self group_data bundles (Suc i) k w s
          else do {
            let w = (case group_data of None \<Rightarrow> w
                     | Some data \<Rightarrow> (let (plaintext_id, w) = generate_uuid_str H w
                         in hs_store_pending_plaintext_data H w from (pkb_user_address bundle) plaintext_id data
                              (gd_notif_level_session D)));
            (_, response, w, s) \<leftarrow>
              (if pk_session_suite (get_e2ees_pack P (pkb_e2ees_pack_id bundle)) = E2EES_SESSION_PQC
               then pqc_new_outbound_session_v2 H P D w s from p else None);
            (rest, w, s) \<leftarrow> invite_bundles_loop H P D from is_self group_data bundles (Suc i) k w s;
            Some (response # rest, w, s) } }"

text \<open>The number of responses is the length of their list.\<close>

definition consume_get_pre_key_bundle_response ::
    "'w host \<Rightarrow> prims \<Rightarrow> gen_defaults \<Rightarrow> cache \<Rightarrow> 'w \<Rightarrow> seed \<Rightarrow> address ptr \<Rightarrow> bytes ptr \<Rightarrow> get_pre_key_bundle_response ptr \<Rightarrow>
     (int \<times> invite_response ptr array \<times> 'w \<times> seed) option" where
  "consume_get_pre_key_bundle_response H P D cache w s from group_pre_key_plaintext_data response =
     (if \<not> is_valid_address from then Some (E2EES_RESULT_FAIL, None, w, s)
      else do {
        our \<leftarrow> deref from; user \<leftarrow> deref (ad_user our);
        valid \<leftarrow> is_valid_get_pre_key_bundle_response response;
        if \<not> valid then Some (E2EES_RESULT_FAIL, None, w, s)
        else do {
          r \<leftarrow> deref response;
          let is_self = safe_strcmp (pu_user_id user) (gbs_user_id r);
          ret \<leftarrow> verify_bundles_loop P cache from is_self (gbs_pre_key_bundles r) 0 (gbs_n_pre_key_bundles r) E2EES_RESULT_SUCC;
          if ret \<noteq> E2EES_RESULT_SUCC then Some (ret, None, w, s)
          else do {
            (responses, w, s) \<leftarrow> invite_bundles_loop H P D from is_self group_pre_key_plaintext_data
              (gbs_pre_key_bundles r) 0 (gbs_n_pre_key_bundles r) w s;
            Some (E2EES_RESULT_SUCC, Some responses, w, s) } } })"

definition get_pre_key_bundle_internal ::
    "'w host \<Rightarrow> prims \<Rightarrow> gen_defaults \<Rightarrow> cache \<Rightarrow> 'w \<Rightarrow> seed \<Rightarrow> address ptr \<Rightarrow> cstr \<Rightarrow> cstr \<Rightarrow> cstr \<Rightarrow> cstr \<Rightarrow> bool \<Rightarrow> bytes ptr \<Rightarrow>
     (int \<times> invite_response ptr array \<times> 'w \<times> seed) option" where
  "get_pre_key_bundle_internal H P D cache w s from auth to_user_id to_domain to_device_id active group_data =
     (let params = \<lparr>gbp_from = from, gbp_auth = auth, gbp_to_user_id = to_user_id, gbp_to_domain = to_domain,
                    gbp_to_device_id = to_device_id\<rparr>
      in if \<not> is_valid_get_pre_key_bundle_inputs params then Some (E2EES_RESULT_FAIL, None, w, s)
      else do {
        (_, request) \<leftarrow> produce_get_pre_key_bundle_request params;
        let (response, w) = dispatch_proto_request (hs_get_pre_key_bundle H) w request from auth;
        valid \<leftarrow> is_valid_get_pre_key_bundle_response response;
        (ret, responses, w, s) \<leftarrow>
          (if \<not> valid then Some (E2EES_RESULT_FAIL, None, w, s)
           else consume_get_pre_key_bundle_response H P D cache w s from group_data response);
        if ret = E2EES_RESULT_SUCC then
          (if \<not> active then Some (ret, responses, w, s)
           else do {
             r \<leftarrow> deref response;
             ids \<leftarrow> map_loop (\<lambda>p. do { b \<leftarrow> deref p; a \<leftarrow> deref (pkb_user_address b); u \<leftarrow> deref (ad_user a); deref (pu_device_id u) })
               (gbs_pre_key_bundles r) 0 (gbs_n_pre_key_bundles r);
             w \<leftarrow> send_sync_invite_msg H P D w from to_user_id to_domain (Some (map Some ids)) (gbs_n_pre_key_bundles r);
             Some (ret, responses, w, s) })
        else
          Some (ret, responses,
                (case response of None \<Rightarrow> w
                 | Some r \<Rightarrow> if gbs_code r = RESPONSE_CODE_NOT_FOUND then w
                    else store_pending_request_internal H w from (PENDING_REQUEST_TYPE_GET_PRE_KEY_BUNDLE request
                      (copy_protobuf_from_bool active # (case group_data of None \<Rightarrow> [] | Some data \<Rightarrow> [buf data])))), s) })"

subsection \<open>Receiving\<close>

text \<open>The devices of a user that another device of one's own has invited: the loop over them.\<close>

fun invite_devices_loop ::
    "'w host \<Rightarrow> prims \<Rightarrow> gen_defaults \<Rightarrow> cache \<Rightarrow> address ptr \<Rightarrow> cstr \<Rightarrow> cstr \<Rightarrow> cstr \<Rightarrow> cstr array \<Rightarrow> nat \<Rightarrow> nat \<Rightarrow>
     'w \<Rightarrow> seed \<Rightarrow> ('w \<times> seed) option" where
  "invite_devices_loop H P D cache from auth to_user_id to_domain ids i 0 w s = Some (w, s)"
| "invite_devices_loop H P D cache from auth to_user_id to_domain ids i (Suc k) w s =
     do { cur_device_id \<leftarrow> array_get ids i;
          (_, _, w, s) \<leftarrow> get_pre_key_bundle_internal H P D cache w s from auth to_user_id to_domain cur_device_id False None;
          invite_devices_loop H P D cache from auth to_user_id to_domain ids (Suc i) k w s }"

definition consume_user_devices_bundle ::
    "'w host \<Rightarrow> prims \<Rightarrow> gen_defaults \<Rightarrow> cache \<Rightarrow> 'w \<Rightarrow> seed \<Rightarrow> address ptr \<Rightarrow> user_devices_bundle ptr \<Rightarrow> ('w \<times> seed) option" where
  "consume_user_devices_bundle H P D cache w s receiver_address bundle =
     do { b \<leftarrow> deref bundle;
          let auth = hs_load_auth H w receiver_address;
          if \<not> is_valid_string auth
          then do { a \<leftarrow> deref receiver_address; _ \<leftarrow> deref (ad_user a); Some (w, s) }
          else if udb_n_device_id_list b = 0 then
            do { (_, _, w, s) \<leftarrow> get_pre_key_bundle_internal H P D cache w s receiver_address auth (udb_user_id b)
                   (udb_domain b) None False None;
                 Some (w, s) }
          else invite_devices_loop H P D cache receiver_address auth (udb_user_id b) (udb_domain b) (udb_device_id_list b)
                 0 (udb_n_device_id_list b) w s }"

text \<open>What a decrypted message does, by its kind.\<close>

definition consume_plaintext ::
    "'w host \<Rightarrow> prims \<Rightarrow> gen_defaults \<Rightarrow> cache \<Rightarrow> 'w \<Rightarrow> seed \<Rightarrow> address ptr \<Rightarrow> e2ee_msg \<Rightarrow> plaintext \<Rightarrow> ('w \<times> seed) option" where
  "consume_plaintext H P D cache w s receiver_address msg plaintext =
     (case pt_payload plaintext of
        PAYLOAD_COMMON_MSG b \<Rightarrow> Some (e2ees_notify_one2one_msg H w receiver_address (em_from msg) (em_to msg) b, s)
      | PAYLOAD_USER_DEVICES_BUNDLE b \<Rightarrow> consume_user_devices_bundle H P D cache w s receiver_address b
      | PAYLOAD_COMMON_SYNC_MSG b \<Rightarrow> Some (e2ees_notify_other_device_msg H w receiver_address (em_from msg) (em_to msg) b, s)
      | PAYLOAD_GROUP_PRE_KEY_BUNDLE b \<Rightarrow> do { w \<leftarrow> consume_group_pre_key_bundle H P D cache w receiver_address b; Some (w, s) }
      | PAYLOAD_GROUP_UPDATE_KEY_BUNDLE b \<Rightarrow> do { w \<leftarrow> consume_group_update_key_bundle H P D cache w receiver_address b; Some (w, s) }
      | PLAINTEXT_NOT_SET \<Rightarrow> Some (w, s))"

definition consume_one2one_msg ::
    "(alloc_site \<Rightarrow> bool) \<Rightarrow> 'w host \<Rightarrow> prims \<Rightarrow> gen_defaults \<Rightarrow> cache \<Rightarrow> 'w \<Rightarrow> seed \<Rightarrow> address ptr \<Rightarrow> e2ee_msg ptr \<Rightarrow>
     (bool \<times> 'w \<times> seed) option" where
  "consume_one2one_msg mem_ok H P D cache w s receiver_address e2ee_msg =
     do { loaded \<leftarrow>
            (if \<not> is_valid_e2ee_msg e2ee_msg then Some None
             else do { msg \<leftarrow> deref e2ee_msg;
                       let session = hs_load_session H w (em_session_id msg) receiver_address;
                       valid \<leftarrow> is_valid_inbound_session P session;
                       Some (if valid then session else None) });
          msg \<leftarrow> deref e2ee_msg;
          (case (loaded, em_payload msg) of
             (Some session, PAYLOAD_ONE2ONE_MSG payload) \<Rightarrow>
               do { (ret, out, ratchet, s) \<leftarrow> decrypt_ratchet mem_ok (Some (suite_of P (se_e2ees_pack_id session)))
                      (se_ratchet session) (se_associated_data session) payload s;
                    if ret \<noteq> E2EES_RESULT_SUCC then Some (True, w, s)
                    else do {
                      let w = hs_store_session H w (session\<lparr>se_ratchet := Some ratchet\<rparr>);
                      let w = hs_unload_old_session H w receiver_address (em_from msg) (se_invite_t session);
                      (w, s) \<leftarrow> (case hs_unpack_plaintext H out of None \<Rightarrow> Some (w, s)
                                | Some plaintext \<Rightarrow> consume_plaintext H P D cache w s receiver_address msg plaintext);
                      Some (True, w, s) } }
           | _ \<Rightarrow> Some (True, w, s)) }"

definition consume_remove_user_device_msg :: "'w host \<Rightarrow> 'w \<Rightarrow> address ptr \<Rightarrow> remove_user_device_msg ptr \<Rightarrow> (bool \<times> 'w) option" where
  "consume_remove_user_device_msg H w receiver_address msg =
     (if \<not> is_valid_address receiver_address \<or> \<not> is_valid_remove_user_device_msg msg then Some (True, w)
      else do { m \<leftarrow> deref msg; Some (True, hs_unload_session H w receiver_address (rud_user_address m)) })"

subsection \<open>The client's calls\<close>

fun send_sessions_loop ::
    "'w host \<Rightarrow> prims \<Rightarrow> gen_defaults \<Rightarrow> u32 \<Rightarrow> bytes \<Rightarrow> session ptr array \<Rightarrow> nat \<Rightarrow> nat \<Rightarrow> bool \<Rightarrow> 'w \<Rightarrow> (bool \<times> 'w) option" where
  "send_sessions_loop H P D notif_level data sessions i 0 succ w = Some (succ, w)"
| "send_sessions_loop H P D notif_level data sessions i (Suc k) succ w =
     do { p \<leftarrow> array_get sessions i; session \<leftarrow> deref p;
          if \<not> se_responded session then
            send_sessions_loop H P D notif_level data sessions (Suc i) k succ
              (store_pending_common_plaintext_data_internal H w (se_our_address session) (se_their_address session)
                 data notif_level)
          else do {
            (response, _, w) \<leftarrow> send_one2one_msg_internal H P D w session notif_level data;
            send_sessions_loop H P D notif_level data sessions (Suc i) k (succ \<or> sor_code response = RESPONSE_CODE_OK) w } }"

definition send_one2one_msg ::
    "'w host \<Rightarrow> prims \<Rightarrow> gen_defaults \<Rightarrow> 'w \<Rightarrow> address ptr \<Rightarrow> cstr \<Rightarrow> cstr \<Rightarrow> u32 \<Rightarrow> bytes \<Rightarrow>
     (int \<times> send_one2one_msg_response \<times> 'w) option" where
  "send_one2one_msg H P D w from to_user_id to_domain notif_level plaintext_data =
     do { let data = pack_common_plaintext H plaintext_data PAYLOAD_COMMON_MSG;
          let (n, sessions) = hs_load_outbound_sessions H w from to_user_id to_domain;
          if n = 0 \<or> sessions = None then
            do { domain \<leftarrow> deref to_domain; user_id \<leftarrow> deref to_user_id;
                 let to = (init_address D)\<lparr>ad_domain := Some domain, ad_peer_case := PEER_USER,
                            ad_user := Some ((init_peer_user D)\<lparr>pu_user_id := Some user_id\<rparr>)\<rparr>;
                 let w = store_pending_common_plaintext_data_internal H w from (Some to) data notif_level;
                 w \<leftarrow> send_sync_msg H P D w from plaintext_data;
                 Some (E2EES_RESULT_FAIL, \<lparr>sor_code = RESPONSE_CODE_EXPECTATION_FAILED\<rparr>, w) }
          else
            do { (succ, w) \<leftarrow> send_sessions_loop H P D notif_level data sessions 0 n False w;
                 w \<leftarrow> send_sync_msg H P D w from plaintext_data;
                 Some (E2EES_RESULT_SUCC,
                   \<lparr>sor_code = (if succ then RESPONSE_CODE_OK else RESPONSE_CODE_BAD_REQUEST)\<rparr>, w) } }"

definition E2EES_INVITE_WAITING_TIME_MS :: int where
  "E2EES_INVITE_WAITING_TIME_MS = 60000"

definition reinvite ::
    "'w host \<Rightarrow> prims \<Rightarrow> gen_defaults \<Rightarrow> 'w \<Rightarrow> session \<Rightarrow> (invite_response ptr \<times> session \<times> 'w) option" where
  "reinvite H P D w session =
     (if se_responded session then Some (None, session, w)
      else let (now, w) = hs_gen_ts H w
      in if now < se_invite_t session + E2EES_INVITE_WAITING_TIME_MS then Some (None, session, w)
      else do {
        let (invite_t, w) = hs_gen_ts H w;
        let session = session\<lparr>se_invite_t := invite_t\<rparr>;
        let w = hs_store_session H w session;
        (_, response, w) \<leftarrow> invite_internal H P D w session;
        _ \<leftarrow> (if response = None \<or> map_option ir_code response \<noteq> Some RESPONSE_CODE_OK
             then do { our \<leftarrow> deref (se_our_address session); _ \<leftarrow> deref (ad_user our);
                       their \<leftarrow> deref (se_their_address session); _ \<leftarrow> deref (ad_user their); Some () }
             else Some ());
        Some (response, session, w) })"

definition invite ::
    "'w host \<Rightarrow> prims \<Rightarrow> gen_defaults \<Rightarrow> cache \<Rightarrow> 'w \<Rightarrow> seed \<Rightarrow> address ptr \<Rightarrow> cstr \<Rightarrow> cstr \<Rightarrow>
     (invite_response \<times> 'w \<times> seed) option" where
  "invite H P D cache w s from to_user_id to_domain =
     do { let auth = (if is_valid_address from then hs_load_auth H w from else None);
          _ \<leftarrow> (if is_valid_address from \<and> \<not> is_valid_string auth
               then do { a \<leftarrow> deref from; _ \<leftarrow> deref (ad_user a); Some () } else Some ());
          (ret, _, w, s) \<leftarrow>
            (if \<not> is_valid_string auth \<or> \<not> is_valid_string to_user_id \<or> \<not> is_valid_string to_domain
             then Some (E2EES_RESULT_FAIL, None, w, s)
             else get_pre_key_bundle_internal H P D cache w s from auth to_user_id to_domain None True None);
          Some (\<lparr>ir_code = (if ret = E2EES_RESULT_SUCC then RESPONSE_CODE_ACCEPTED else RESPONSE_CODE_BAD_REQUEST),
                 ir_session_id = gd_string D, ir_invite_t = 0\<rparr>, w, s) }"

end
