(* ===== verification/Messaging_Laws.thy ===== *)
theory Messaging_Laws
  imports Messaging Session_Laws
begin

section \<open>Conversations over the handlers\<close>

text \<open>
  What the handlers add to the ratchet: a message passes from the client's call through the session of
  the sender, the server and the session of the receiver to the receiver's application.  A conversation
  over the handlers follows the conversation over the ratchets, \<open>talk\<close>, step by step.
\<close>

subsection \<open>Parties\<close>

text \<open>A device: its host, its cache and address, and what the host shows of delivered and sent messages.\<close>

record 'w party =
  pa_host :: "'w host"
  pa_cache :: cache
  pa_address :: address
  pa_received :: "'w \<Rightarrow> bdata list"
  pa_sent :: "'w \<Rightarrow> e2ee_msg list"

definition user_of :: "address \<Rightarrow> cstr" where
  "user_of adr = (case ad_user adr of None \<Rightarrow> None | Some u \<Rightarrow> pu_user_id u)"

abbreviation common_msg :: "bytes \<Rightarrow> plaintext" where
  "common_msg m \<equiv> \<lparr>pt_version = Some E2EES_PLAINTEXT_VERSION, pt_payload = PAYLOAD_COMMON_MSG (buf m)\<rparr>"

definition quiet :: "'w party \<Rightarrow> 'w \<Rightarrow> 'w \<Rightarrow> bool" where
  "quiet A w w' \<longleftrightarrow> pa_received A w' = pa_received A w \<and> pa_sent A w' = pa_sent A w"

text \<open>
  Documented behaviour of the host of a device with one session, \<open>sid\<close>, with the device \<open>peer\<close>, and no
  other device of the same user: the database keeps sessions and drops only those older than the given
  time, the server accepts messages, callbacks and generated ids leave the database alone, and unpacking
  inverts the packing of a message.
\<close>

definition chat_documented :: "'w party \<Rightarrow> address \<Rightarrow> string \<Rightarrow> (plaintext \<Rightarrow> bytes) \<Rightarrow> (bdata \<Rightarrow> plaintext ptr) \<Rightarrow> bool" where
  "chat_documented A peer sid pack unpack \<longleftrightarrow>
     (let H = pa_host A; adr = pa_address A in
      hs_pack_plaintext H = pack \<and> hs_unpack_plaintext H = unpack \<and> (\<forall>m. unpack (plain_out (pack (common_msg m))) = Some (common_msg m)) \<and>
      ad_user adr \<noteq> None \<and> (\<forall>w. is_valid_string (hs_load_auth H w (Some adr))) \<and>
      (\<forall>w. hs_load_outbound_sessions H w (Some adr) (user_of peer) (ad_domain peer) =
             (1, Some [hs_load_session H w (Some sid) (Some adr)]) \<and>
           hs_load_outbound_sessions H w (Some adr) (user_of adr) (ad_domain adr) = (0, None)) \<and>
      (\<forall>w S. hs_load_session H (hs_store_session H w S) (se_session_id S) (se_our_address S) = Some S \<and>
             quiet A w (hs_store_session H w S)) \<and>
      (\<forall>w. hs_load_session H (snd (hs_gen_uuid H w)) = hs_load_session H w \<and> quiet A w (snd (hs_gen_uuid H w))) \<and>
      (\<forall>w a b t. (\<forall>i S. hs_load_session H w i (Some adr) = Some S \<and> t \<le> se_invite_t S \<longrightarrow>
                    hs_load_session H (hs_unload_old_session H w a b t) i (Some adr) = Some S) \<and>
                 quiet A w (hs_unload_old_session H w a b t)) \<and>
      (\<forall>w a b c p. hs_load_session H (hs_on_one2one_msg_received H w a b c p) = hs_load_session H w \<and>
         pa_received A (hs_on_one2one_msg_received H w a b c p) = pa_received A w @ [p] \<and>
         pa_sent A (hs_on_one2one_msg_received H w a b c p) = pa_sent A w) \<and>
      (\<exists>f. hs_send_one2one_msg H = Some f \<and> (\<forall>w from auth m. \<exists>w'. f w from auth m = (Some \<lparr>sor_code = RESPONSE_CODE_OK\<rparr>, w') \<and>
         hs_load_session H w' = hs_load_session H w \<and> pa_received A w' = pa_received A w \<and> pa_sent A w' = pa_sent A w @ [m])))"

lemma quiet_trans: "quiet A w w' \<Longrightarrow> quiet A w' w'' \<Longrightarrow> quiet A w w''"
  by (simp add: quiet_def)

lemma chat_host:
  assumes "chat_documented A peer sid pack unpack"
  shows "hs_pack_plaintext (pa_host A) = pack" "hs_unpack_plaintext (pa_host A) = unpack" "unpack (plain_out (pack (common_msg m))) = Some (common_msg m)"
    "ad_user (pa_address A) \<noteq> None" "is_valid_string (hs_load_auth (pa_host A) w (Some (pa_address A)))"
    "hs_load_outbound_sessions (pa_host A) w (Some (pa_address A)) (user_of peer) (ad_domain peer) =
       (1, Some [hs_load_session (pa_host A) w (Some sid) (Some (pa_address A))])"
    "hs_load_outbound_sessions (pa_host A) w (Some (pa_address A)) (user_of (pa_address A)) (ad_domain (pa_address A)) = (0, None)"
    "hs_load_session (pa_host A) (hs_store_session (pa_host A) w S) (se_session_id S) (se_our_address S) = Some S"
    "quiet A w (hs_store_session (pa_host A) w S)"
    "hs_load_session (pa_host A) (snd (hs_gen_uuid (pa_host A) w)) = hs_load_session (pa_host A) w"
    "quiet A w (snd (hs_gen_uuid (pa_host A) w))"
    "hs_load_session (pa_host A) w i (Some (pa_address A)) = Some S \<Longrightarrow> t \<le> se_invite_t S \<Longrightarrow>
       hs_load_session (pa_host A) (hs_unload_old_session (pa_host A) w a b t) i (Some (pa_address A)) = Some S"
    "quiet A w (hs_unload_old_session (pa_host A) w a b t)"
    "hs_load_session (pa_host A) (hs_on_one2one_msg_received (pa_host A) w a b c q) = hs_load_session (pa_host A) w"
    "pa_received A (hs_on_one2one_msg_received (pa_host A) w a b c q) = pa_received A w @ [q]"
    "pa_sent A (hs_on_one2one_msg_received (pa_host A) w a b c q) = pa_sent A w"
  using assms by (simp_all add: chat_documented_def Let_def)

lemma chat_host_send:
  assumes "chat_documented A peer sid pack unpack"
  obtains f where "hs_send_one2one_msg (pa_host A) = Some f"
    "\<forall>w from auth m. \<exists>w'. f w from auth m = (Some \<lparr>sor_code = RESPONSE_CODE_OK\<rparr>, w') \<and>
       hs_load_session (pa_host A) w' = hs_load_session (pa_host A) w \<and> pa_received A w' = pa_received A w \<and>
       pa_sent A w' = pa_sent A w @ [m]"
  using assms by (auto simp: chat_documented_def Let_def)

subsection \<open>One message\<close>

lemma endpoint_ratchet:
  "endpoint P D raw ad sid our their (S\<lparr>se_ratchet := r\<rparr>) = endpoint P D raw ad sid our their S"
  by (simp add: endpoint_def)

lemma endpoint_valid:
  assumes "endpoint P D raw ad sid our their S" and "is_valid_ratchet (se_ratchet S) = Some True"
  shows "is_valid_completed_session P (Some S) = Some True" "is_valid_inbound_session P (Some S) = Some True"
  using assms by (simp_all add: endpoint_def is_valid_completed_session_def is_valid_inbound_session_def)

text \<open>What goes out for a payload \<open>p\<close> from \<open>our\<close> to \<open>their\<close>.\<close>

definition wraps :: "e2ee_msg \<Rightarrow> string \<Rightarrow> address \<Rightarrow> address \<Rightarrow> one2one_payload \<Rightarrow> bool" where
  "wraps m sid our their p \<longleftrightarrow> is_valid_string (em_version m) \<and> em_session_id m = Some sid \<and>
     em_from m = Some our \<and> em_to m = Some their \<and> em_payload m = PAYLOAD_ONE2ONE_MSG (Some p)"

lemma send_internal_step:
  assumes A: "chat_documented A peer sid pack unpack" and S: "endpoint P D raw ad sid (pa_address A) peer S"
    and x: "se_ratchet S = Some x" "is_valid_ratchet (Some x) = Some True"
    and enc: "encrypt_ratchet (Some (suite_of P raw)) (Some x) (buf ad) (Some data) = Some (0, Some p, Some x')"
  shows "\<exists>w' m. send_one2one_msg_internal (pa_host A) P D w S level data =
      Some (\<lparr>sor_code = RESPONSE_CODE_OK\<rparr>, S\<lparr>se_ratchet := Some x'\<rparr>, w') \<and>
    hs_load_session (pa_host A) w' (Some sid) (Some (pa_address A)) = Some (S\<lparr>se_ratchet := Some x'\<rparr>) \<and>
    pa_received A w' = pa_received A w \<and> pa_sent A w' = pa_sent A w @ [m] \<and> wraps m sid (pa_address A) peer p \<and>
    em_notif_level m = level"
proof -
  let ?H = "pa_host A" and ?S = "S\<lparr>se_ratchet := Some x'\<rparr>" and ?w1 = "snd (hs_gen_uuid (pa_host A) w)"
  note doc = chat_host [OF A]
  obtain f where f: "hs_send_one2one_msg ?H = Some f"
    "\<forall>w from auth m. \<exists>w'. f w from auth m = (Some \<lparr>sor_code = RESPONSE_CODE_OK\<rparr>, w') \<and>
       hs_load_session ?H w' = hs_load_session ?H w \<and> pa_received A w' = pa_received A w \<and> pa_sent A w' = pa_sent A w @ [m]"
    by (rule chat_host_send [OF A])
  obtain ver where ver: "se_version S = Some ver" "ver \<noteq> []"
    using S by (auto simp: endpoint_def is_valid_string_def split: option.splits)
  define m where "m = \<lparr>em_version = Some ver, em_session_id = Some sid, em_from = Some (pa_address A), em_to = Some peer,
      em_msg_id = crypto_base64_encode ?H (fst (hs_gen_uuid ?H w)), em_notif_level = level, em_payload = PAYLOAD_ONE2ONE_MSG (Some p)\<rparr>"
  have req: "produce_send_one2one_msg_request ?H D w ?S level (Some p) = Some (0, m, ?w1)"
    using S ver by (simp add: produce_send_one2one_msg_request_def generate_uuid_str_def endpoint_def address_copy.copy_id m_def
        split: prod.split)
  obtain w2 where w2: "f ?w1 (Some (pa_address A)) (hs_load_auth ?H w (Some (pa_address A))) m = (Some \<lparr>sor_code = RESPONSE_CODE_OK\<rparr>, w2)"
      "pa_received A w2 = pa_received A ?w1" "pa_sent A w2 = pa_sent A ?w1 @ [m]"
    using f(2) by blast
  let ?w' = "hs_store_session ?H w2 ?S"
  have "is_valid_completed_session P (Some S) = Some True" using endpoint_valid(1) [OF S] x by simp
  then have "send_one2one_msg_internal ?H P D w S level data = Some (\<lparr>sor_code = RESPONSE_CODE_OK\<rparr>, ?S, ?w')"
    using S x enc req f(1) w2(1) doc(5)
    by (simp add: send_one2one_msg_internal_def endpoint_def dispatch_proto_request_def consume_send_one2one_msg_response_def Let_def)
  moreover have "hs_load_session ?H ?w' (Some sid) (Some (pa_address A)) = Some ?S"
    using doc(8) [of w2 ?S] S by (simp add: endpoint_def)
  moreover have "pa_received A ?w' = pa_received A w" "pa_sent A ?w' = pa_sent A w @ [m]"
    using doc(9) [of w2 ?S] doc(11) [of w] w2(2,3) by (simp_all add: quiet_def)
  moreover have "wraps m sid (pa_address A) peer p" "em_notif_level m = level" using ver by (simp_all add: wraps_def m_def)
  ultimately show ?thesis by blast
qed

lemma send_msg_step:
  assumes A: "chat_documented A peer sid pack unpack" and S: "endpoint P D raw ad sid (pa_address A) peer S"
    and load: "hs_load_session (pa_host A) w (Some sid) (Some (pa_address A)) = Some S"
    and x: "se_ratchet S = Some x" "is_valid_ratchet (Some x) = Some True"
    and enc: "encrypt_ratchet (Some (suite_of P raw)) (Some x) (buf ad)
      (Some (pack (common_msg msg))) = Some (0, Some p, Some x')"
  shows "\<exists>w' m. send_one2one_msg (pa_host A) P D w (Some (pa_address A)) (user_of peer) (ad_domain peer) level msg =
      Some (0, \<lparr>sor_code = RESPONSE_CODE_OK\<rparr>, w') \<and>
    hs_load_session (pa_host A) w' (Some sid) (Some (pa_address A)) = Some (S\<lparr>se_ratchet := Some x'\<rparr>) \<and>
    pa_received A w' = pa_received A w \<and> pa_sent A w' = pa_sent A w @ [m] \<and> wraps m sid (pa_address A) peer p"
proof -
  note doc = chat_host [OF A]
  obtain w' m where step: "send_one2one_msg_internal (pa_host A) P D w S level
        (pack (common_msg msg)) =
      Some (\<lparr>sor_code = RESPONSE_CODE_OK\<rparr>, S\<lparr>se_ratchet := Some x'\<rparr>, w')"
    "hs_load_session (pa_host A) w' (Some sid) (Some (pa_address A)) = Some (S\<lparr>se_ratchet := Some x'\<rparr>)"
    "pa_received A w' = pa_received A w" "pa_sent A w' = pa_sent A w @ [m]" "wraps m sid (pa_address A) peer p"
    using send_internal_step [OF A S x enc] by blast
  obtain u where u: "ad_user (pa_address A) = Some u" using doc(4) by auto
  then have own: "hs_load_outbound_sessions (pa_host A) w' (Some (pa_address A)) (pu_user_id u) (ad_domain (pa_address A)) = (0, None)"
    using doc(7) by (simp add: user_of_def)
  have "se_responded S" using S by (simp add: endpoint_def)
  then have "send_one2one_msg (pa_host A) P D w (Some (pa_address A)) (user_of peer) (ad_domain peer) level msg =
      Some (0, \<lparr>sor_code = RESPONSE_CODE_OK\<rparr>, w')"
    using step(1) own u load
    by (simp add: send_one2one_msg_def doc(1,6) pack_common_plaintext_def Let_def array_get_def send_sync_msg_def)
  then show ?thesis using step(2-) by blast
qed

lemma decrypt_checked:
  assumes "decrypt_ratchet mem_ok cs (Some y) ad (Some p) s = Some (0, out, y', s')"
  shows "is_valid_ratchet (Some y) = Some True" "is_valid_one2one_msg_payload (Some p)"
  using assms
  by (auto simp: decrypt_ratchet_def decrypt_checks_def Let_def bind_eq_Some_conv split: if_splits)

lemma receive_msg_step:
  assumes B: "chat_documented B peer sid pack unpack" and T: "endpoint P D raw ad sid (pa_address B) peer T"
    and load: "hs_load_session (pa_host B) v (Some sid) (Some (pa_address B)) = Some T" and y: "se_ratchet T = Some y"
    and m: "wraps m sid peer (pa_address B) p"
    and dec: "decrypt_ratchet mem_ok (Some (suite_of P raw)) (Some y) (buf ad) (Some p) s =
      Some (0, plain_out (pack (common_msg msg)), y', s')"
  shows "\<exists>v'. consume_one2one_msg mem_ok (pa_host B) P D (pa_cache B) v s (Some (pa_address B)) (Some m) = Some (True, v', s') \<and>
    hs_load_session (pa_host B) v' (Some sid) (Some (pa_address B)) = Some (T\<lparr>se_ratchet := Some y'\<rparr>) \<and>
    pa_received B v' = pa_received B v @ [buf msg] \<and> pa_sent B v' = pa_sent B v"
proof -
  let ?H = "pa_host B" and ?T = "T\<lparr>se_ratchet := Some y'\<rparr>"
  note doc = chat_host [OF B]
  let ?v1 = "hs_store_session ?H v ?T"
  let ?v2 = "hs_unload_old_session ?H ?v1 (Some (pa_address B)) (Some peer) (se_invite_t T)"
  let ?v3 = "hs_on_one2one_msg_received ?H ?v2 (Some (pa_address B)) (Some peer) (Some (pa_address B)) (buf msg)"
  note checked = decrypt_checked [OF dec]
  have "is_valid_inbound_session P (Some T) = Some True" using endpoint_valid(2) [OF T] y checked(1) by simp
  moreover have "is_valid_e2ee_msg (Some m)" using m T checked(2) by (simp add: wraps_def is_valid_e2ee_msg_def endpoint_def)
  ultimately have "consume_one2one_msg mem_ok ?H P D (pa_cache B) v s (Some (pa_address B)) (Some m) = Some (True, ?v3, s')"
    using m T load y dec
    by (simp add: consume_one2one_msg_def wraps_def endpoint_def doc(2,3) consume_plaintext_def e2ees_notify_one2one_msg_def)
  moreover have "hs_load_session ?H ?v1 (Some sid) (Some (pa_address B)) = Some ?T"
    using doc(8) [of v ?T] T by (simp add: endpoint_def)
  then have "hs_load_session ?H ?v3 (Some sid) (Some (pa_address B)) = Some ?T"
    using doc(12) [of ?v1 "Some sid" ?T "se_invite_t T"] by (simp add: doc(14))
  moreover have "quiet B v ?v2" using quiet_trans [OF doc(9) doc(13)] .
  then have "pa_received B ?v3 = pa_received B v @ [buf msg]" "pa_sent B ?v3 = pa_sent B v"
    by (simp_all add: quiet_def doc(15,16))
  ultimately show ?thesis by blast
qed

subsection \<open>A conversation\<close>

text \<open>The two parties take turns; the server delivers each message before the next one is sent.\<close>

fun chat ::
    "(alloc_site \<Rightarrow> bool) \<Rightarrow> prims \<Rightarrow> gen_defaults \<Rightarrow> u32 \<Rightarrow> 'w party \<Rightarrow> 'w party \<Rightarrow> bytes list \<Rightarrow> 'w \<Rightarrow> 'w \<Rightarrow> seed \<Rightarrow> ('w \<times> 'w) option" where
  "chat mem_ok P D level A B [] w v s = Some (w, v)"
| "chat mem_ok P D level A B (m # ms) w v s =
     do { (_, _, w) \<leftarrow> send_one2one_msg (pa_host A) P D w (Some (pa_address A)) (user_of (pa_address B)) (ad_domain (pa_address B)) level m;
          (_, v, s) \<leftarrow> consume_one2one_msg mem_ok (pa_host B) P D (pa_cache B) v s (Some (pa_address B))
            (Some (last (pa_sent A w)));
          (v, w) \<leftarrow> chat mem_ok P D level B A ms v w s;
          Some (w, v) }"

text \<open>The messages of the side that begins, and those of the other.\<close>

fun turns :: "'a list \<Rightarrow> 'a list \<times> 'a list" where
  "turns [] = ([], [])"
| "turns (m # ms) = (case turns ms of (xs, ys) \<Rightarrow> (m # ys, xs))"

lemma talk_step:
  assumes "talk mem_ok cs ad x y (m # ms) s = Some ((ret, out) # rs)"
  obtains p x' y' s' where "is_valid_ratchet (Some x) = Some True"
    "encrypt_ratchet (Some cs) (Some x) ad (Some m) = Some (0, Some p, Some x')"
    "decrypt_ratchet mem_ok (Some cs) (Some y) ad (Some p) s = Some (ret, out, y', s')"
    "talk mem_ok cs ad y' x' ms s' = Some rs"
proof -
  have ret: "r = 0" if "encrypt_ratchet (Some cs) (Some x) ad (Some m) = Some (r, Some p, q)" for r p q
    using that by (auto simp: encrypt_ratchet_def Let_def bind_eq_Some_conv split: if_splits)
  show ?thesis using assms ret that by (auto simp: bind_eq_Some_conv deref_def split: if_splits)
qed

lemma chat_follows_talk:
  assumes A: "chat_documented A (pa_address B) sid pack unpack" and B: "chat_documented B (pa_address A) sid pack unpack"
    and S: "endpoint P D raw ad sid (pa_address A) (pa_address B) S" "se_ratchet S = Some x"
      "hs_load_session (pa_host A) w (Some sid) (Some (pa_address A)) = Some S"
    and T: "endpoint P D raw ad sid (pa_address B) (pa_address A) T" "se_ratchet T = Some y"
      "hs_load_session (pa_host B) v (Some sid) (Some (pa_address B)) = Some T"
    and talk: "talk mem_ok (suite_of P raw) (buf ad) x y (map (\<lambda>m. pack (common_msg m)) ms) s =
      Some (map (\<lambda>m. (0, plain_out m)) (map (\<lambda>m. pack (common_msg m)) ms))"
  shows "\<exists>w' v'. chat mem_ok P D level A B ms w v s = Some (w', v') \<and>
    pa_received A w' = pa_received A w @ map buf (snd (turns ms)) \<and> pa_received B v' = pa_received B v @ map buf (fst (turns ms))"
  using assms
proof (induction ms arbitrary: A B S T x y w v s)
  case Nil
  then show ?case by simp
next
  case (Cons m ms)
  obtain p x' y' s' where step: "is_valid_ratchet (Some x) = Some True"
    "encrypt_ratchet (Some (suite_of P raw)) (Some x) (buf ad) (Some (pack (common_msg m))) = Some (0, Some p, Some x')"
    "decrypt_ratchet mem_ok (Some (suite_of P raw)) (Some y) (buf ad) (Some p) s = Some (0, plain_out (pack (common_msg m)), y', s')"
    "talk mem_ok (suite_of P raw) (buf ad) y' x' (map (\<lambda>m. pack (common_msg m)) ms) s' = Some (map (\<lambda>m. (0, plain_out m)) (map (\<lambda>m. pack (common_msg m)) ms))"
    using Cons.prems(9) by (auto elim: talk_step simp del: talk.simps)
  obtain w1 e where send: "send_one2one_msg (pa_host A) P D w (Some (pa_address A)) (user_of (pa_address B)) (ad_domain (pa_address B)) level m =
      Some (0, \<lparr>sor_code = RESPONSE_CODE_OK\<rparr>, w1)"
    "hs_load_session (pa_host A) w1 (Some sid) (Some (pa_address A)) = Some (S\<lparr>se_ratchet := Some x'\<rparr>)"
    "pa_received A w1 = pa_received A w" "pa_sent A w1 = pa_sent A w @ [e]" "wraps e sid (pa_address A) (pa_address B) p"
    using send_msg_step [OF Cons.prems(1,3,5,4) step(1,2)] by blast
  obtain v1 where receive: "consume_one2one_msg mem_ok (pa_host B) P D (pa_cache B) v s (Some (pa_address B)) (Some e) = Some (True, v1, s')"
    "hs_load_session (pa_host B) v1 (Some sid) (Some (pa_address B)) = Some (T\<lparr>se_ratchet := Some y'\<rparr>)"
    "pa_received B v1 = pa_received B v @ [buf m]" "pa_sent B v1 = pa_sent B v"
    using receive_msg_step [OF Cons.prems(2,6,8,7) send(5) step(3)] by blast
  obtain w' v' where rest: "chat mem_ok P D level B A ms v1 w1 s' = Some (v', w')"
    "pa_received B v' = pa_received B v1 @ map buf (snd (turns ms))" "pa_received A w' = pa_received A w1 @ map buf (fst (turns ms))"
    using Cons.IH [OF Cons.prems(2,1) _ _ receive(2) _ _ send(2) step(4)] Cons.prems(3,6) by (auto simp: endpoint_ratchet)
  then show ?case using send(1,3,4) receive(1,3) by (auto split: prod.splits)
qed

subsection \<open>Messages that waited\<close>

lemma suite_encrypt:
  assumes P: "prims_ok P" and raw: "is_valid_e2ees_pack_id P raw" and a: "pack_kem raw = Some a"
    and r: "suite_ratchet P a r ns" and sender: "rt_sender_chain r = Some (sender_of pk rk i k)" and pt: "length pt \<le> GCM_LIMIT"
  obtains p r' k' where "encrypt_ratchet (Some (suite_of P raw)) (Some r) (buf ad) (Some pt) = Some (0, Some p, Some r')"
    "suite_ratchet P a r' ns" "rt_sender_chain r' = Some (sender_of pk rk (i + 1) k')" "is_valid_one2one_msg_payload (Some p)"
    "is_valid_ratchet (Some r) = Some True"
proof -
  note suite = suite_of_laws [OF P raw a] and r' = r [unfolded suite_ratchet_def]
  have "length rk = pr_kem_ct_bytes P a" using r' sender by (auto simp: wf_ratchet_def)
  then have ne: "rk \<noteq> []" using e2ee_suite.nonempty(3) [OF suite] by blast
  have "length (std_seal P (message_key (std_kdf P) 32 48 k) ad pt) = length pt + 16"
    by (rule e2ee_suite.seal_length [OF suite e2ee_suite.mkey_length [OF suite] pt])
  then have seal: "std_seal P (message_key (std_kdf P) 32 48 k) ad pt \<noteq> []" by auto
  show ?thesis
    by (rule that [OF e2ee_suite.encrypt_ok [OF suite r' sender pt]
          e2ee_suite.wf_encrypted [OF suite r' sender, folded suite_ratchet_def]])
      (simp_all add: is_valid_one2one_msg_payload_def ne seal e2ee_suite.wf_valid [OF suite r'])
qed

lemma message_valid:
  assumes "endpoint P D raw ad sid our their S" and "wraps m sid our their p" and "is_valid_one2one_msg_payload (Some p)"
  shows "is_valid_e2ee_msg (Some m)"
  using assms by (simp add: wraps_def is_valid_e2ee_msg_def endpoint_def)

text \<open>The waiting messages of a device for another one, and how the host keeps them.\<close>

abbreviation waiting :: "'w party \<Rightarrow> address \<Rightarrow> 'w \<Rightarrow> (cstr \<times> bytes \<times> u32) list" where
  "waiting A peer w \<equiv> hs_load_pending_plaintext_data (pa_host A) w (Some (pa_address A)) (Some peer)"

definition waiting_documented :: "'w party \<Rightarrow> address \<Rightarrow> bool" where
  "waiting_documented A peer \<longleftrightarrow>
     (\<forall>w S. waiting A peer (hs_store_session (pa_host A) w S) = waiting A peer w) \<and>
     (\<forall>w. waiting A peer (snd (hs_gen_uuid (pa_host A) w)) = waiting A peer w) \<and>
     (\<forall>f w from auth m. hs_send_one2one_msg (pa_host A) = Some f \<longrightarrow> waiting A peer (snd (f w from auth m)) = waiting A peer w) \<and>
     (\<forall>w i. let w' = hs_unload_pending_plaintext_data (pa_host A) w (Some (pa_address A)) (Some peer) i in
        waiting A peer w' = filter (\<lambda>x. fst x \<noteq> i) (waiting A peer w) \<and> quiet A w w' \<and>
        hs_load_session (pa_host A) w' = hs_load_session (pa_host A) w)"

text \<open>What sending over a session leaves alone, when the server accepts the message.\<close>

lemma send_internal_keeps:
  assumes "send_one2one_msg_internal H P D w S level data = Some (\<lparr>sor_code = RESPONSE_CODE_OK\<rparr>, S', w')"
    and "\<And>w S. g (hs_store_session H w S) = g w" and "\<And>w. g (snd (hs_gen_uuid H w)) = g w"
    and "\<And>f w from auth m. hs_send_one2one_msg H = Some f \<Longrightarrow> g (snd (f w from auth m)) = g w"
  shows "g w' = g w"
  using assms(1)
  by (auto simp: send_one2one_msg_internal_def Let_def bind_eq_Some_conv dispatch_proto_request_def produce_send_one2one_msg_request_def
      consume_send_one2one_msg_response_def generate_uuid_str_def assms(2) split: if_splits option.splits prod.splits)
    (use assms(3,4) in \<open>metis snd_conv\<close>)+

definition sends :: "prims \<Rightarrow> u32 \<Rightarrow> bytes \<Rightarrow> string \<Rightarrow> address \<Rightarrow> address \<Rightarrow> ratchet \<Rightarrow> (cstr \<times> bytes \<times> u32) list \<Rightarrow>
    e2ee_msg list \<Rightarrow> ratchet \<Rightarrow> bool" where
  "sends P raw ad sid our their x items ms x' \<longleftrightarrow>
     (\<exists>ps. encrypt_all (suite_of P raw) x (buf ad) (map (\<lambda>(i, data, level). data) items) = Some (ps, x') \<and>
        list_all2 (\<lambda>m p. wraps m sid our their p) ms ps \<and> map em_notif_level ms = map (\<lambda>(i, data, level). level) items)"

lemma send_pending_ok:
  assumes A: "chat_documented A peer sid pack unpack" and W: "waiting_documented A peer"
    and P: "prims_ok P" and raw: "is_valid_e2ees_pack_id P raw" and a: "pack_kem raw = Some a"
    and S: "endpoint P D raw ad sid (pa_address A) peer S" "hs_load_session (pa_host A) w (Some sid) (Some (pa_address A)) = Some S"
    and x: "se_ratchet S = Some x" "suite_ratchet P a x ns" "rt_sender_chain x = Some (sender_of pk rk i k)"
    and items: "\<forall>(i, data, level)\<in>set items. length data \<le> GCM_LIMIT" "fst ` set (waiting A peer w) \<subseteq> fst ` set items"
  shows "\<exists>w' ms x'. send_pending_loop (pa_host A) P D items w S = Some (S\<lparr>se_ratchet := Some x'\<rparr>, w') \<and>
    sends P raw ad sid (pa_address A) peer x items ms x' \<and>
    hs_load_session (pa_host A) w' (Some sid) (Some (pa_address A)) = Some (S\<lparr>se_ratchet := Some x'\<rparr>) \<and>
    pa_sent A w' = pa_sent A w @ ms \<and> pa_received A w' = pa_received A w \<and> waiting A peer w' = []"
  using S x items
proof (induction items arbitrary: w S x i k)
  case Nil
  moreover from this have "S\<lparr>se_ratchet := Some x\<rparr> = S" by (cases S) simp
  ultimately show ?case by (auto simp: sends_def)
next
  case (Cons item items)
  obtain j data level where item: "item = (j, data, level)" by (cases item) auto
  have data: "length data \<le> GCM_LIMIT" using Cons.prems(6) item by simp
  obtain p x1 k1 where enc: "encrypt_ratchet (Some (suite_of P raw)) (Some x) (buf ad) (Some data) = Some (0, Some p, Some x1)"
    "suite_ratchet P a x1 ns" "rt_sender_chain x1 = Some (sender_of pk rk (i + 1) k1)" "is_valid_ratchet (Some x) = Some True"
    by (rule suite_encrypt [OF P raw a Cons.prems(4,5) data])
  let ?S = "S\<lparr>se_ratchet := Some x1\<rparr>"
  obtain w1 m where step: "send_one2one_msg_internal (pa_host A) P D w S level data = Some (\<lparr>sor_code = RESPONSE_CODE_OK\<rparr>, ?S, w1)"
    "hs_load_session (pa_host A) w1 (Some sid) (Some (pa_address A)) = Some ?S"
    "pa_received A w1 = pa_received A w" "pa_sent A w1 = pa_sent A w @ [m]" "wraps m sid (pa_address A) peer p" "em_notif_level m = level"
    using send_internal_step [OF A Cons.prems(1,3) enc(4,1)] by blast
  have kept: "waiting A peer w1 = waiting A peer w"
    by (rule send_internal_keeps [where g = "waiting A peer", OF step(1)]) (use W in \<open>simp_all add: waiting_documented_def\<close>)
  define w2 where "w2 = hs_unload_pending_plaintext_data (pa_host A) w1 (Some (pa_address A)) (Some peer) j"
  have w2: "waiting A peer w2 = filter (\<lambda>x. fst x \<noteq> j) (waiting A peer w)" "pa_sent A w2 = pa_sent A w @ [m]"
    "pa_received A w2 = pa_received A w" "hs_load_session (pa_host A) w2 (Some sid) (Some (pa_address A)) = Some ?S"
    using W kept step(2-4) by (simp_all add: waiting_documented_def w2_def Let_def quiet_def)
  have S2: "endpoint P D raw ad sid (pa_address A) peer ?S" "se_ratchet ?S = Some x1"
    "\<forall>(i, data, level)\<in>set items. length data \<le> GCM_LIMIT" "fst ` set (waiting A peer w2) \<subseteq> fst ` set items"
    using Cons.prems(1,6,7) w2(1) item by (auto simp: endpoint_ratchet)
  obtain w' ms x' where rest: "send_pending_loop (pa_host A) P D items w2 ?S = Some (?S\<lparr>se_ratchet := Some x'\<rparr>, w')"
    "sends P raw ad sid (pa_address A) peer x1 items ms x'"
    "hs_load_session (pa_host A) w' (Some sid) (Some (pa_address A)) = Some (?S\<lparr>se_ratchet := Some x'\<rparr>)"
    "pa_sent A w' = pa_sent A w2 @ ms" "pa_received A w' = pa_received A w2" "waiting A peer w' = []"
    using Cons.IH [OF S2(1) w2(4) S2(2) enc(2,3) S2(3,4)] by blast
  have "sends P raw ad sid (pa_address A) peer x (item # items) (m # ms) x'"
    using rest(2) enc(1) step(5,6) item by (auto simp: sends_def)
  moreover have "se_our_address S = Some (pa_address A)" "se_their_address S = Some peer" using Cons.prems(1) by (simp_all add: endpoint_def)
  ultimately show ?case using rest step(1) w2 item by (intro exI [of _ w'] exI [of _ "m # ms"] exI [of _ x']) (simp add: w2_def)
qed

text \<open>A message without a token is not sent: nothing is encrypted, and the world stays as it is.\<close>

lemma no_token_unsent:
  assumes "is_valid_completed_session P (Some S) = Some v" and "\<not> is_valid_string (hs_load_auth H w (se_our_address S))"
  shows "send_one2one_msg_internal H P D w S level data = Some (\<lparr>sor_code = RESPONSE_CODE_SERVICE_UNAVAILABLE\<rparr>, S, w)"
  using assms by (simp add: send_one2one_msg_internal_def Let_def)

end
