(* ===== verification/Messaging_Props.thy ===== *)
theory Messaging_Props
  imports Messaging_Laws Session_Props
begin

section \<open>Properties of one-to-one messages\<close>

text \<open>
  From the handshake to the applications of both sides, and what happens to messages that wait for a
  session.
\<close>

subsection \<open>A concrete host\<close>

text \<open>The state: stored sessions, delivered messages, messages given to the server, waiting messages.\<close>

record chat_world =
  cw_sessions :: "session list"
  cw_received :: "bdata list"
  cw_sent :: "e2ee_msg list"
  cw_waiting :: "(cstr \<times> bytes \<times> u32) list"

abbreviation (input) empty_world :: chat_world where
  "empty_world \<equiv> \<lparr>cw_sessions = [], cw_received = [], cw_sent = [], cw_waiting = []\<rparr>"

definition demo_pack_msg :: "plaintext \<Rightarrow> bytes" where
  "demo_pack_msg p = (case pt_payload p of PAYLOAD_COMMON_MSG b \<Rightarrow> (case pb_data b of None \<Rightarrow> [0] | Some d \<Rightarrow> 1 # d) | _ \<Rightarrow> [0])"

definition demo_unpack_msg :: "bdata \<Rightarrow> plaintext ptr" where
  "demo_unpack_msg b = (case pb_data b of Some (x # d) \<Rightarrow> Some (common_msg d) | _ \<Rightarrow> None)"

definition demo_chat_host :: "account \<Rightarrow> signed_pre_key \<Rightarrow> cstr \<Rightarrow> chat_world host" where
  "demo_chat_host A old peer = idle_host
     \<lparr>hs_load_account_by_address := (\<lambda>w adr. Some A), hs_load_signed_pre_key := (\<lambda>w adr i. Some old),
      hs_load_auth := (\<lambda>w adr. Some ''t''),
      hs_load_session := (\<lambda>w sid adr. find (\<lambda>S. se_session_id S = sid \<and> se_our_address S = adr) (cw_sessions w)),
      hs_store_session := (\<lambda>w S. w\<lparr>cw_sessions := S # cw_sessions w\<rparr>),
      hs_invite := Some (\<lambda>w adr auth m.
        (Some \<lparr>ir_code = RESPONSE_CODE_OK, ir_session_id = im_session_id m, ir_invite_t = 6\<rparr>, w)),
      hs_accept := Some (\<lambda>w adr auth m. (Some \<lparr>ar_code = RESPONSE_CODE_OK\<rparr>, w)),
      hs_load_outbound_sessions := (\<lambda>w adr uid dom. if uid = peer
        then (1, Some [find (\<lambda>S. se_session_id S = Some ''id'' \<and> se_our_address S = adr) (cw_sessions w)]) else (0, None)),
      hs_send_one2one_msg := Some (\<lambda>w adr auth m. (Some \<lparr>sor_code = RESPONSE_CODE_OK\<rparr>, w\<lparr>cw_sent := cw_sent w @ [m]\<rparr>)),
      hs_on_one2one_msg_received := (\<lambda>w a b c p. w\<lparr>cw_received := cw_received w @ [p]\<rparr>),
      hs_load_pending_plaintext_data := (\<lambda>w a b. cw_waiting w),
      hs_unload_pending_plaintext_data := (\<lambda>w a b i. w\<lparr>cw_waiting := filter (\<lambda>x. fst x \<noteq> i) (cw_waiting w)\<rparr>),
      hs_pack_plaintext := demo_pack_msg, hs_unpack_plaintext := demo_unpack_msg\<rparr>"

definition demo_party :: "string \<Rightarrow> byte \<Rightarrow> string \<Rightarrow> chat_world party" where
  "demo_party u n peer = \<lparr>pa_host = demo_chat_host (demo_user u n) (demo_spk 1 6) (Some peer), pa_cache = demo_cache u n,
     pa_address = demo_address u, pa_received = cw_received, pa_sent = cw_sent\<rparr>"

lemma demo_party_simps:
  "pa_host (demo_party u n peer) = demo_chat_host (demo_user u n) (demo_spk 1 6) (Some peer)"
  "pa_cache (demo_party u n peer) = demo_cache u n" "pa_address (demo_party u n peer) = demo_address u"
  by (simp_all add: demo_party_def)

lemma demo_chat_documented:
  assumes "u \<noteq> peer"
  shows "chat_documented (demo_party u n peer) (demo_address peer) ''id'' demo_pack_msg demo_unpack_msg"
    and "host_documented (demo_chat_host A old p)" and "waiting_documented (demo_party u n peer) q"
  using assms
  by (auto simp: waiting_documented_def chat_documented_def host_documented_def demo_party_def demo_chat_host_def idle_host_def quiet_def user_of_def
      demo_address_def demo_pack_msg_def demo_unpack_msg_def plain_out_def buf_def)

lemma demo_chat_ready:
  assumes "u \<noteq> []"
  shows "user_ready (demo_chat_host A old peer) demo_prims demo_D KEM_MLKEM1024 (demo_address u) (demo_user u k) [k] [k]"
  using assms demo_pair [of k] demo_pack(1) [of demo_prims]
  by (simp add: user_ready_def demo_chat_host_def idle_host_def demo_address_def demo_user_def demo_registered_simps demo_spk_def
      key_pair_of_def valid_array_eq is_valid_one_time_pre_key_def wf_address_def wf_str_def)

subsection \<open>From the handshake to the application\<close>

text \<open>
  C1: two registered users with documented hosts run the handshake and then a conversation: each side
  in turn calls \<open>send_one2one_msg\<close>, the server passes the message on and the other side's library
  consumes it.  Every call succeeds, and the applications get exactly the messages of the other side,
  in order.
\<close>

theorem conversation_delivered:
  assumes "host_documented (pa_host A)" and "host_documented (pa_host B)"
    and "prims_ok P" and "is_valid_e2ees_pack_id P raw" and "pack_kem raw = Some a"
    and "pack_ds raw = Some d" "d \<noteq> DS_CURVE25519"
    and alice: "user_ready (pa_host A) P D a (pa_address A) accA ska pka"
      "hs_load_account_by_address (pa_host A) wA (Some (pa_address A)) = Some accA"
      "load_identity_key_from_cache (pa_cache A) (Some (pa_address A)) = Some (acc_identity_key accA)"
      "fst (generate_uuid_str (pa_host A) wA) = Some sid" "sid \<noteq> []"
    and bob: "user_ready (pa_host B) P D a (pa_address B) accB skb pkb" "acc_signed_pre_key accB = Some spk"
      "spk_key_pair spk = Some (key_pair_of sks pks)" "std_pair P a sks pks" "has_opk P a accB opk sko"
    and sign: "length sign = pr_sign_pk_bytes P d" "length sig = pr_sign_bytes P d" "sign \<noteq> []" "sig \<noteq> []"
      "pr_sign_verify P d sig pks (Some sign) = 0"
    and chat: "chat_documented A (pa_address B) sid pack unpack" "chat_documented B (pa_address A) sid pack unpack"
    and ms: "\<forall>m\<in>set ms. length (pack (common_msg m)) \<le> GCM_LIMIT" "length ms + 1 < 2 ^ 32" and mem: "mem_ok GrowCurrent"
  shows "\<exists>S T vA vB w v'.
    handshake (pa_host A) (pa_host B) P D (pa_cache A) wA wB s t u (pa_address A) (pa_address B) pka accB
      (bundle_of raw (pa_address B) pkb sign (spk_id spk) pks sig opk) S T vA vB \<and>
    chat mem_ok P D level A B ms vA vB v = Some (w, v') \<and>
    pa_received A w = pa_received A vA @ map buf (snd (turns ms)) \<and>
    pa_received B v' = pa_received B vB @ map buf (fst (turns ms))"
proof -
  have vsid: "is_valid_string (fst (generate_uuid_str (pa_host A) wA))" using alice(4,5) by simp
  have cur: "has_spk (pa_host B) wB accB (spk_id spk) spk"
      "map_option spk_key_pair (acc_signed_pre_key accB) = Some (Some (key_pair_of sks pks))"
    using bob(2,3) by (simp_all add: has_spk_def)
  have len: "length pks = pr_kem_pk_bytes P a" using e2ee_suite.pair_length [OF suite_of_laws [OF assms(3-5)] bob(4)] by simp
  have ms': "\<forall>m\<in>set (map (\<lambda>m. pack (common_msg m)) ms). length m \<le> GCM_LIMIT" "length (map (\<lambda>m. pack (common_msg m)) ms) + 1 < 2 ^ 32"
    using ms by simp_all
  obtain S T x y vA vB where run: "handshake (pa_host A) (pa_host B) P D (pa_cache A) wA wB s t u (pa_address A) (pa_address B) pka accB
        (bundle_of raw (pa_address B) pkb sign (spk_id spk) pks sig opk) S T vA vB"
      "endpoint P D raw (pka @ pkb) sid (pa_address A) (pa_address B) S" "hs_load_session (pa_host A) vA (Some sid) (Some (pa_address A)) = Some S"
      "endpoint P D raw (pka @ pkb) sid (pa_address B) (pa_address A) T" "hs_load_session (pa_host B) vB (Some sid) (Some (pa_address B)) = Some T"
      "se_ratchet S = Some x" "se_ratchet T = Some y"
      "talk mem_ok (suite_of P raw) (buf (pka @ pkb)) x y (map (\<lambda>m. pack (common_msg m)) ms) v =
        Some (map (\<lambda>m. (0, plain_out m)) (map (\<lambda>m. pack (common_msg m)) ms))"
    using sessions_agree [where mem_ok = mem_ok, OF assms(1-7) alice(1-3) vsid bob(1) cur(1) bob(3-5) cur(2) len sign ms' mem, of s t u v]
      alice(4) by (metis (no_types, lifting) option.inject)
  obtain w v' where "chat mem_ok P D level A B ms vA vB v = Some (w, v')"
      "pa_received A w = pa_received A vA @ map buf (snd (turns ms))" "pa_received B v' = pa_received B vB @ map buf (fst (turns ms))"
    using chat_follows_talk [OF chat run(2,6,3,4,7,5,8)] by blast
  with run(1) show ?thesis by blast
qed

theorem conversation_delivered_witness:
  "\<exists>S T vA vB w v'.
    handshake (pa_host (demo_party ''a'' 5 ''b'')) (pa_host (demo_party ''b'' 4 ''a'')) demo_prims demo_D
      (pa_cache (demo_party ''a'' 5 ''b'')) empty_world empty_world 0 0 0 (pa_address (demo_party ''a'' 5 ''b''))
      (pa_address (demo_party ''b'' 4 ''a'')) [5] (demo_user ''b'' 4)
      (bundle_of 0x113101 (pa_address (demo_party ''b'' 4 ''a'')) [4] [9] (spk_id (demo_spk 2 7)) [7] [7 + 9] (Some (3, [8]))) S T vA vB \<and>
    chat (\<lambda>_. True) demo_prims demo_D 0 (demo_party ''a'' 5 ''b'') (demo_party ''b'' 4 ''a'') [[10], [20], [30]] vA vB 0 = Some (w, v') \<and>
    pa_received (demo_party ''a'' 5 ''b'') w = pa_received (demo_party ''a'' 5 ''b'') vA @ map buf (snd (turns [[10], [20], [30]])) \<and>
    pa_received (demo_party ''b'' 4 ''a'') v' = pa_received (demo_party ''b'' 4 ''a'') vB @ map buf (fst (turns [[10], [20], [30]]))"
proof -
  have doc: "chat_documented (demo_party ''a'' 5 ''b'') (pa_address (demo_party ''b'' 4 ''a'')) ''id'' demo_pack_msg demo_unpack_msg"
    "chat_documented (demo_party ''b'' 4 ''a'') (pa_address (demo_party ''a'' 5 ''b'')) ''id'' demo_pack_msg demo_unpack_msg"
    using demo_chat_documented(1) by (simp_all add: demo_party_simps)
  have hosts: "host_documented (pa_host (demo_party ''a'' 5 ''b''))" "host_documented (pa_host (demo_party ''b'' 4 ''a''))"
    using demo_chat_documented(2) [of "''a''" "''b''"] by (simp_all add: demo_party_simps)
  have ready: "user_ready (pa_host (demo_party ''a'' 5 ''b'')) demo_prims demo_D KEM_MLKEM1024 (pa_address (demo_party ''a'' 5 ''b''))
      (demo_user ''a'' 5) [5] [5]"
    "user_ready (pa_host (demo_party ''b'' 4 ''a'')) demo_prims demo_D KEM_MLKEM1024 (pa_address (demo_party ''b'' 4 ''a''))
      (demo_user ''b'' 4) [4] [4]"
    using demo_chat_ready by (simp_all add: demo_party_simps)
  show ?thesis
    by (rule conversation_delivered [OF hosts demo_prims_ok demo_pack demo_ds(1,2) ready(1) _ _ _ _ ready(2) _ _ demo_pair demo_sides(3)
          demo_sign doc])
      (simp_all add: demo_party_simps demo_cached demo_chat_host_def idle_host_def demo_user_def demo_spk_def generate_uuid_str_def
        crypto_base64_encode_def demo_pack_msg_def buf_def)
qed

subsection \<open>Messages that waited for a session\<close>

text \<open>
  C24: once a session is ready, \<open>send_pending_plaintext_data\<close> hands every message that waited for it
  to the server: the messages go out in the order in which they waited, encrypted one after the other by
  \<open>encrypt_ratchet\<close> and with their notification levels, the session with the advanced ratchet is
  stored, and no message is left waiting.
\<close>

theorem pending_messages_sent:
  assumes A: "chat_documented A peer sid pack unpack" and W: "waiting_documented A peer"
    and P: "prims_ok P" and raw: "is_valid_e2ees_pack_id P raw" and a: "pack_kem raw = Some a"
    and S: "endpoint P D raw ad sid (pa_address A) peer S" "hs_load_session (pa_host A) w (Some sid) (Some (pa_address A)) = Some S"
    and x: "se_ratchet S = Some x" "suite_ratchet P a x ns" "rt_sender_chain x = Some (sender_of pk rk i k)"
    and size: "\<forall>(i, data, level)\<in>set (waiting A peer w). length data \<le> GCM_LIMIT"
  shows "\<exists>w' ms x'. send_pending_plaintext_data (pa_host A) P D w S = Some (S\<lparr>se_ratchet := Some x'\<rparr>, w') \<and>
    sends P raw ad sid (pa_address A) peer x (waiting A peer w) ms x' \<and>
    hs_load_session (pa_host A) w' (Some sid) (Some (pa_address A)) = Some (S\<lparr>se_ratchet := Some x'\<rparr>) \<and>
    pa_sent A w' = pa_sent A w @ ms \<and> pa_received A w' = pa_received A w \<and> waiting A peer w' = []"
proof -
  have "se_our_address S = Some (pa_address A)" "se_their_address S = Some peer" using S(1) by (simp_all add: endpoint_def)
  then show ?thesis unfolding send_pending_plaintext_data_def
    using send_pending_ok [OF A W P raw a S x size] by simp
qed

definition demo_session :: "ratchet \<Rightarrow> session" where
  "demo_session r = (init_session demo_D)\<lparr>se_version := Some E2EES_PROTOCOL_VERSION, se_e2ees_pack_id := 0x113101, se_session_id := Some ''id'',
     se_our_address := Some (demo_address ''a''), se_their_address := Some (demo_address ''b''), se_ratchet := Some r,
     se_associated_data := buf [1], se_fingerprint := buf [2], se_responded := True\<rparr>"

lemma demo_endpoint: "endpoint demo_prims demo_D 0x113101 [1] ''id'' (demo_address ''a'') (demo_address ''b'') (demo_session r)"
  by (simp add: endpoint_def demo_session_def demo_pack E2EES_PROTOCOL_VERSION_def is_valid_address_def demo_address_def wf_address_def
      wf_str_def init_session_def)

lemma demo_session_ratchet: "se_ratchet (demo_session r) = Some r" "(demo_session r)\<lparr>se_ratchet := Some r'\<rparr> = demo_session r'"
  by (simp_all add: demo_session_def)

lemma demo_sender_chain: "rt_sender_chain demo_sender = Some (sender_of [7] [9] 0 (replicate 32 3))"
  by (simp add: demo_sender_def)

text \<open>Two messages that wait for the session of \<open>demo_session\<close>.\<close>

abbreviation (input) demo_waiting :: chat_world where
  "demo_waiting \<equiv> \<lparr>cw_sessions = [demo_session demo_sender], cw_received = [], cw_sent = [], cw_waiting = [(Some ''x'', [10], 0), (Some ''y'', [20], 1)]\<rparr>"

theorem pending_messages_sent_witness:
  "\<exists>w' ms x'. send_pending_plaintext_data (pa_host (demo_party ''a'' 5 ''b'')) demo_prims demo_D demo_waiting (demo_session demo_sender) =
      Some (demo_session x', w') \<and>
    sends demo_prims 0x113101 [1] ''id'' (demo_address ''a'') (demo_address ''b'') demo_sender [(Some ''x'', [10], 0), (Some ''y'', [20], 1)] ms x' \<and>
    cw_sent w' = ms \<and> cw_waiting w' = []"
proof -
  have doc: "chat_documented (demo_party ''a'' 5 ''b'') (demo_address ''b'') ''id'' demo_pack_msg demo_unpack_msg"
    by (rule demo_chat_documented(1)) simp
  have wait: "waiting_documented (demo_party ''a'' 5 ''b'') (demo_address ''b'')"
    by (rule demo_chat_documented(3) [of "''a''" "''b''"]) simp
  have host: "hs_load_pending_plaintext_data (demo_chat_host A old q) w a b = cw_waiting w" for A old q w a b
    by (simp add: demo_chat_host_def)
  have load: "hs_load_session (demo_chat_host A old q) demo_waiting (Some ''id'') (Some (demo_address ''a'')) = Some (demo_session demo_sender)"
    for A old q
    by (simp add: demo_chat_host_def demo_session_def)
  show ?thesis
    using pending_messages_sent [OF doc wait demo_hyps, where D = demo_D and ad = "[1]" and S = "demo_session demo_sender" and w = demo_waiting
        and x = demo_sender and ns = "[]" and pk = "[7]" and rk = "[9]" and i = 0 and k = "replicate 32 3"]
    by (simp add: demo_party_simps demo_endpoint demo_session_ratchet demo_ratchets(1) demo_sender_chain host load)
      (auto simp: demo_party_def)
qed

text \<open>
  A message that waited for a session is removed from the database also when it was never sent:
  without a token of the device no message is encrypted and nothing reaches the server, but all
  waiting messages are removed.
\<close>

lemma pending_lost_without_token:
  assumes "is_valid_completed_session P (Some S) = Some v" and "\<And>w. \<not> is_valid_string (hs_load_auth H w (se_our_address S))"
  shows "send_pending_plaintext_data H P D w S =
    Some (S, fold (\<lambda>(i, data, level) w. hs_unload_pending_plaintext_data H w (se_our_address S) (se_their_address S) i)
               (hs_load_pending_plaintext_data H w (se_our_address S) (se_their_address S)) w)"
proof -
  have "send_pending_loop H P D items w S =
      Some (S, fold (\<lambda>(i, data, level) w. hs_unload_pending_plaintext_data H w (se_our_address S) (se_their_address S) i) items w)"
    for items
    by (induction items arbitrary: w) (auto simp: no_token_unsent [OF assms])
  then show ?thesis by (simp add: send_pending_plaintext_data_def)
qed

lemma pending_lost_without_token_witness:
  "\<exists>w'. send_pending_plaintext_data ((demo_chat_host (demo_user ''a'' 5) (demo_spk 1 6) (Some ''b''))\<lparr>hs_load_auth := \<lambda>w a. None\<rparr>)
      demo_prims demo_D demo_waiting (demo_session demo_sender) = Some (demo_session demo_sender, w') \<and>
    cw_waiting w' = [] \<and> cw_sent w' = []"
proof -
  have "is_valid_ratchet (Some demo_sender) = Some True"
    using demo_ratchets(1) e2ee_suite.wf_valid [OF suite_of_laws [OF demo_hyps]] by (simp add: suite_ratchet_def)
  then have valid: "is_valid_completed_session demo_prims (Some (demo_session demo_sender)) = Some True"
    using endpoint_valid(1) [OF demo_endpoint] by (simp add: demo_session_ratchet)
  show ?thesis
    using pending_lost_without_token [OF valid, of "(demo_chat_host (demo_user ''a'' 5) (demo_spk 1 6) (Some ''b''))\<lparr>hs_load_auth := \<lambda>w a. None\<rparr>"
        demo_D demo_waiting]
    by (simp add: demo_chat_host_def)
qed

subsection \<open>What the handlers accept and send\<close>

text \<open>
  C32: the message \<open>send_one2one_msg_internal\<close> builds for any plaintext over a complete session with a
  well-formed ratchet is one that the validator of the receiving side accepts; the session stays
  complete and its ratchet well formed.
\<close>

theorem sent_message_valid:
  assumes P: "prims_ok P" and raw: "is_valid_e2ees_pack_id P raw" and a: "pack_kem raw = Some a"
    and S: "endpoint P D raw ad sid our their S"
    and x: "se_ratchet S = Some x" "suite_ratchet P a x ns" "rt_sender_chain x = Some (sender_of pk rk i k)"
    and pt: "length pt \<le> GCM_LIMIT"
  shows "\<exists>p x' m w'. encrypt_ratchet (Some (suite_of P raw)) (se_ratchet S) (se_associated_data S) (Some pt) = Some (0, Some p, Some x') \<and>
    produce_send_one2one_msg_request H D w (S\<lparr>se_ratchet := Some x'\<rparr>) level (Some p) = Some (0, m, w') \<and>
    is_valid_e2ee_msg (Some m) \<and> suite_ratchet P a x' ns \<and> is_valid_completed_session P (Some (S\<lparr>se_ratchet := Some x'\<rparr>)) = Some True"
proof -
  obtain p x' k' where enc: "encrypt_ratchet (Some (suite_of P raw)) (Some x) (buf ad) (Some pt) = Some (0, Some p, Some x')"
    "suite_ratchet P a x' ns" "rt_sender_chain x' = Some (sender_of pk rk (i + 1) k')" "is_valid_one2one_msg_payload (Some p)"
    by (rule suite_encrypt [OF P raw a x(2,3) pt])
  have valid: "is_valid_ratchet (Some x') = Some True"
    using e2ee_suite.wf_valid [OF suite_of_laws [OF P raw a]] enc(2) by (simp add: suite_ratchet_def)
  obtain ver where ver: "se_version S = Some ver" "ver \<noteq> []"
    using S by (auto simp: endpoint_def is_valid_string_def split: option.splits)
  let ?m = "\<lparr>em_version = Some ver, em_session_id = Some sid, em_from = Some our, em_to = Some their,
      em_msg_id = fst (generate_uuid_str H w), em_notif_level = level, em_payload = PAYLOAD_ONE2ONE_MSG (Some p)\<rparr>"
  have req: "produce_send_one2one_msg_request H D w (S\<lparr>se_ratchet := Some x'\<rparr>) level (Some p) = Some (0, ?m, snd (generate_uuid_str H w))"
    using S ver by (simp add: produce_send_one2one_msg_request_def endpoint_def address_copy.copy_id split: prod.split)
  have "is_valid_e2ee_msg (Some ?m)" using message_valid [OF S _ enc(4)] ver by (simp add: wraps_def)
  moreover have "is_valid_completed_session P (Some (S\<lparr>se_ratchet := Some x'\<rparr>)) = Some True"
    using endpoint_valid(1) [of P D raw ad sid our their "S\<lparr>se_ratchet := Some x'\<rparr>"] S valid by (simp add: endpoint_ratchet)
  ultimately show ?thesis using enc(1,2) req S x(1) by (auto simp: endpoint_def)
qed

theorem sent_message_valid_witness:
  "\<exists>p x' m w'. encrypt_ratchet (Some (suite_of demo_prims 0x113101)) (se_ratchet (demo_session demo_sender))
      (se_associated_data (demo_session demo_sender)) (Some [10]) = Some (0, Some p, Some x') \<and>
    produce_send_one2one_msg_request (demo_host ''t'' (demo_user ''a'' 5) (demo_spk 1 6)) demo_D [] (demo_session x') 0 (Some p) = Some (0, m, w') \<and>
    is_valid_e2ee_msg (Some m) \<and> suite_ratchet demo_prims KEM_MLKEM1024 x' [] \<and>
    is_valid_completed_session demo_prims (Some (demo_session x')) = Some True"
  using sent_message_valid [OF demo_hyps demo_endpoint demo_session_ratchet(1) demo_ratchets(1) demo_sender_chain, of "[10]"
      "demo_host ''t'' (demo_user ''a'' 5) (demo_spk 1 6)" "[]" 0]
  by (simp add: demo_session_ratchet)

text \<open>
  C31: a message for a session, on whichever chain, that opens under none of the message keys the
  session's ratchet has for it has no effect at all: \<open>consume_one2one_msg\<close> leaves the database as it is
  and calls no callback, whatever the host.  The ratchet key of the message has the suite's length and
  its ciphertext is at least as long as the authentication tag.
\<close>

theorem forged_message_ignored:
  assumes P: "prims_ok P" and raw: "is_valid_e2ees_pack_id P raw" and a: "pack_kem raw = Some a"
    and S: "endpoint P D raw ad sid our their S" "hs_load_session H w (em_session_id m) (Some our) = Some S" "se_ratchet S = Some r"
    and m: "em_payload m = PAYLOAD_ONE2ONE_MSG (Some p)"
    and r: "suite_ratchet P a r ns" and p: "suite_payload P a p rk ct"
    and forged: "\<forall>k\<in>set (message_keys P a r ns p rk). std_open P k ad ct = None"
  shows "consume_one2one_msg mem_ok H P D cache w s (Some our) (Some m) = Some (True, w, s)"
proof -
  have ad: "ad \<noteq> []" and fields: "se_e2ees_pack_id S = raw" "se_associated_data S = buf ad" using S(1) by (simp_all add: endpoint_def)
  have "is_valid_ratchet (se_ratchet S) = Some True"
    using e2ee_suite.wf_valid [OF suite_of_laws [OF P raw a]] r S(3) by (simp add: suite_ratchet_def)
  then have "is_valid_inbound_session P (Some S) = Some True" by (rule endpoint_valid(2) [OF S(1)])
  then show ?thesis
    using S(2,3) m fields forged_refused [OF P raw a r p ad forged, of mem_ok s]
    by (simp add: consume_one2one_msg_def)
qed

definition demo_forged_msg :: e2ee_msg where
  "demo_forged_msg = \<lparr>em_version = Some ''v'', em_session_id = Some ''id'', em_from = Some (demo_address ''b''), em_to = Some (demo_address ''a''),
     em_msg_id = Some ''m'', em_notif_level = 0, em_payload = PAYLOAD_ONE2ONE_MSG (Some demo_forgery)\<rparr>"

theorem forged_message_ignored_witness:
  "consume_one2one_msg (\<lambda>_. True) (demo_host ''t'' (demo_user ''a'' 5) (demo_spk 1 6)) demo_prims demo_D [] [demo_session demo_receiver] 0
      (Some (demo_address ''a'')) (Some demo_forged_msg) = Some (True, [demo_session demo_receiver], 0)"
proof -
  have load: "hs_load_session (demo_host ''t'' (demo_user ''a'' 5) (demo_spk 1 6)) [demo_session demo_receiver] (em_session_id demo_forged_msg)
      (Some (demo_address ''a'')) = Some (demo_session demo_receiver)"
    by (simp add: demo_host_def idle_host_def demo_session_def demo_forged_msg_def)
  show ?thesis
    by (rule forged_message_ignored [OF demo_hyps demo_endpoint load demo_session_ratchet(1) _ demo_ratchets(2) demo_forgery_wf demo_forged])
      (simp add: demo_forged_msg_def)
qed

end
