(* ===== verification/Group_Sending.thy ===== *)
theory Group_Sending
  imports Messaging
begin

section \<open>Group keys sent over sessions\<close>

text \<open>
  The functions of \<open>src/group_session.c\<close> that hand the key material of a group to other devices over
  their one-to-one sessions: the first session of a group by its creator, and the renewal of all
  sessions of a group when members or a device are added.
\<close>

subsection \<open>Packed keys\<close>

definition pack_group_pre_key :: "'w host \<Rightarrow> group_pre_key_bundle \<Rightarrow> bytes" where
  "pack_group_pre_key H group_pre_key_bundle =
     hs_pack_plaintext H \<lparr>pt_version = Some E2EES_PLAINTEXT_VERSION, pt_payload = PAYLOAD_GROUP_PRE_KEY_BUNDLE (Some group_pre_key_bundle)\<rparr>"

definition pack_group_pre_key_plaintext :: "'w host \<Rightarrow> gen_defaults \<Rightarrow> group_session \<Rightarrow> cstr \<Rightarrow> bytes option" where
  "pack_group_pre_key_plaintext H D outbound_group_session old_session_id =
     do { version \<leftarrow> deref (gs_version outbound_group_session); session_id \<leftarrow> deref (gs_session_id outbound_group_session);
          sender \<leftarrow> copy_address_from_address D (gs_sender outbound_group_session);
          group_info \<leftarrow> copy_group_info D (gs_group_info outbound_group_session);
          seed \<leftarrow> copy_protobuf_from_protobuf empty_bdata (gs_group_seed outbound_group_session);
          Some (pack_group_pre_key H
            \<lparr>gpk_version = Some version, gpk_e2ees_pack_id = gs_e2ees_pack_id outbound_group_session,
             gpk_session_id = Some session_id,
             gpk_old_session_id = (case old_session_id of None \<Rightarrow> gd_string D | Some i \<Rightarrow> Some i),
             gpk_sender = Some sender, gpk_group_info = Some group_info,
             gpk_sequence = gs_sequence outbound_group_session, gpk_group_seed = seed\<rparr>) }"

definition pack_group_ratchet_state :: "'w host \<Rightarrow> group_update_key_bundle \<Rightarrow> bytes" where
  "pack_group_ratchet_state H group_update_key_bundle =
     hs_pack_plaintext H \<lparr>pt_version = Some E2EES_PLAINTEXT_VERSION, pt_payload = PAYLOAD_GROUP_UPDATE_KEY_BUNDLE (Some group_update_key_bundle)\<rparr>"

definition pack_group_ratchet_state_plaintext ::
    "'w host \<Rightarrow> gen_defaults \<Rightarrow> group_session \<Rightarrow> bool \<Rightarrow> bdata \<Rightarrow> nat \<Rightarrow> group_member_info ptr array \<Rightarrow> bytes option" where
  "pack_group_ratchet_state_plaintext H D outbound_group_session adding identity_public_key n_adding_member_info_list
     adding_member_info_list =
     do { version \<leftarrow> deref (gs_version outbound_group_session); session_id \<leftarrow> deref (gs_session_id outbound_group_session);
          sender \<leftarrow> copy_address_from_address D (gs_sender outbound_group_session);
          group_info \<leftarrow> copy_group_info D (gs_group_info outbound_group_session);
          chain_key \<leftarrow> copy_protobuf_from_protobuf empty_bdata (gs_chain_key outbound_group_session);
          sign_public_key \<leftarrow> copy_protobuf_from_protobuf empty_bdata identity_public_key;
          infos \<leftarrow> copy_group_member_ids D adding_member_info_list n_adding_member_info_list;
          Some (pack_group_ratchet_state H
            \<lparr>guk_version = Some version, guk_e2ees_pack_id = gs_e2ees_pack_id outbound_group_session,
             guk_session_id = Some session_id, guk_sender = Some sender, guk_adding = adding,
             guk_group_info = Some group_info, guk_sequence = gs_sequence outbound_group_session,
             guk_chain_key = chain_key, guk_sign_public_key = sign_public_key,
             guk_n_adding_member_info_list = n_adding_member_info_list, guk_adding_member_info_list = Some infos\<rparr>) }"

subsection \<open>Sending to the members\<close>

text \<open>
  The signing key and the token of the own account, from the cache and the database or from the
  database alone; the block stands at the start of the three functions below.
\<close>

definition own_key_and_auth :: "'w host \<Rightarrow> cache \<Rightarrow> 'w \<Rightarrow> address ptr \<Rightarrow> (int \<times> bdata ptr \<times> cstr) option" where
  "own_key_and_auth H cache w user_address =
     do { cached \<leftarrow> load_identity_key_from_cache cache user_address;
          (case cached of
             None \<Rightarrow>
               (case hs_load_account_by_address H w user_address of None \<Rightarrow> Some (E2EES_RESULT_FAIL, None, None)
                | Some a \<Rightarrow>
                    (case get_identity_public_key_ds_bytes_from_account (Some a) of
                       None \<Rightarrow> Some (E2EES_RESULT_FAIL, None, None)
                     | Some k \<Rightarrow> do { auth \<leftarrow> deref (acc_auth a); Some (E2EES_RESULT_SUCC, Some k, Some auth) }))
           | Some identity_key \<Rightarrow>
               (let auth = hs_load_auth H w user_address
                in if \<not> is_valid_string auth then Some (E2EES_RESULT_FAIL, None, None)
                   else do { k \<leftarrow> deref (ik_sign_key_pair identity_key);
                             Some (E2EES_RESULT_SUCC, Some (kpr_public_key k), auth) })) }"

fun send_key_loop ::
    "'w host \<Rightarrow> prims \<Rightarrow> gen_defaults \<Rightarrow> address ptr \<Rightarrow> bytes \<Rightarrow> session ptr array \<Rightarrow> nat \<Rightarrow> nat \<Rightarrow> 'w \<Rightarrow> 'w option" where
  "send_key_loop H P D session_owner data sessions j 0 w = Some w"
| "send_key_loop H P D session_owner data sessions j (Suc k) w =
     do { p \<leftarrow> array_get sessions j; out_session \<leftarrow> deref p;
          own \<leftarrow> compare_address (se_their_address out_session) session_owner;
          w \<leftarrow> (if own then Some w
               else if se_responded out_session then
                 do { (_, _, w) \<leftarrow> send_one2one_msg_internal H P D w out_session (gd_notif_level_session D) data; Some w }
               else Some (store_pending_common_plaintext_data_internal H w (se_our_address out_session)
                            (se_their_address out_session) data (gd_notif_level_session D)));
          send_key_loop H P D session_owner data sessions (Suc j) k w }"

fun send_key_to_members_loop ::
    "'w host \<Rightarrow> prims \<Rightarrow> gen_defaults \<Rightarrow> cache \<Rightarrow> address ptr \<Rightarrow> cstr \<Rightarrow> bytes \<Rightarrow> group_member ptr array \<Rightarrow> nat \<Rightarrow> nat \<Rightarrow>
     'w \<Rightarrow> seed \<Rightarrow> ('w \<times> seed) option" where
  "send_key_to_members_loop H P D cache session_owner auth data members i 0 w s = Some (w, s)"
| "send_key_to_members_loop H P D cache session_owner auth data members i (Suc k) w s =
     do { p \<leftarrow> array_get members i; m \<leftarrow> deref p;
          let (n, sessions) = hs_load_outbound_sessions H w session_owner (gm_user_id m) (gm_domain m);
          (w, s) \<leftarrow>
            (if n > 0 \<and> sessions \<noteq> None then do { w \<leftarrow> send_key_loop H P D session_owner data sessions 0 n w; Some (w, s) }
             else do { (_, _, w, s) \<leftarrow> get_pre_key_bundle_internal H P D cache w s session_owner auth (gm_user_id m)
                         (gm_domain m) None True (Some data);
                       Some (w, s) });
          send_key_to_members_loop H P D cache session_owner auth data members (Suc i) k w s }"

subsection \<open>The creator of a group\<close>

fun complete_members_loop ::
    "'w host \<Rightarrow> prims \<Rightarrow> gen_defaults \<Rightarrow> address ptr \<Rightarrow> group_session \<Rightarrow> group_member_info ptr array \<Rightarrow> nat \<Rightarrow> nat \<Rightarrow> 'w \<Rightarrow>
     'w option" where
  "complete_members_loop H P D user_address g infos i 0 w = Some w"
| "complete_members_loop H P D user_address g infos i (Suc k) w =
     do { p \<leftarrow> array_get infos i; m \<leftarrow> deref p;
          own \<leftarrow> compare_address (gmi_member_address m) user_address;
          w \<leftarrow> (if own then Some w
               else do { (_, w) \<leftarrow> new_and_complete_inbound_group_session H P D w p (Some g); Some w });
          complete_members_loop H P D user_address g infos (Suc i) k w }"

definition new_outbound_group_session_by_sender ::
    "'w plugin \<Rightarrow> prims \<Rightarrow> gen_defaults \<Rightarrow> cache \<Rightarrow> 'w \<Rightarrow> seed \<Rightarrow> nat \<Rightarrow> group_member_info ptr array \<Rightarrow> u32 \<Rightarrow> address ptr \<Rightarrow> cstr \<Rightarrow>
     address ptr \<Rightarrow> group_member ptr array \<Rightarrow> nat \<Rightarrow> cstr \<Rightarrow> (int \<times> 'w \<times> seed) option" where
  "new_outbound_group_session_by_sender G P D cache w s n_member_info_list member_info_list e2ees_pack_id user_address group_name
     group_address group_member_list group_members_num old_session_id =
     (let H = pg_host G in
      do { (ret, identity_public_key, auth) \<leftarrow>
             (if \<not> is_valid_address user_address then Some (E2EES_RESULT_FAIL, None, None)
              else own_key_and_auth H cache w user_address);
           infos \<leftarrow> is_valid_group_member_info_list member_info_list n_member_info_list;
           members \<leftarrow> is_valid_group_member_list group_member_list group_members_num;
           if ret \<noteq> E2EES_RESULT_SUCC \<or> \<not> infos \<or> \<not> members \<or>
              \<not> (is_valid_e2ees_pack_id P e2ees_pack_id \<and> is_valid_string group_name \<and> is_valid_address group_address) \<or>
              group_members_num = 0 \<or> n_member_info_list = 0 \<or> group_members_num > n_member_info_list
           then Some (E2EES_RESULT_FAIL, w, s)
           else do {
             let (random, s) = e2ees_randombytes G s SEED_SECRET_LEN;
             seed \<leftarrow> fill SEED_SECRET_LEN random;
             key \<leftarrow> deref identity_public_key;
             (g, w) \<leftarrow> insert_outbound_group_session_data H P D w ((init_group_session D)\<lparr>gs_group_seed := buf seed\<rparr>)
               e2ees_pack_id user_address group_name group_address None group_member_list group_members_num (pb_data key);
             data \<leftarrow> pack_group_pre_key_plaintext H D g old_session_id;
             group_info \<leftarrow> deref (gs_group_info g);
             (w, s) \<leftarrow> send_key_to_members_loop H P D cache (gs_session_owner g) auth data (gi_group_member_list group_info) 0
               (gi_n_group_member_list group_info) w s;
             w \<leftarrow> complete_members_loop H P D user_address g member_info_list 0 n_member_info_list w;
             Some (E2EES_RESULT_SUCC,
               hs_store_group_session H w (g\<lparr>gs_group_seed := free_protobuf (gs_group_seed g)\<rparr>), s) } })"

subsection \<open>New members and devices\<close>

text \<open>
  For each added device the welcome key of the chain key is the device's chain key, and the chain key
  advances from it.
\<close>

fun welcome_loop :: "cipher_suite \<Rightarrow> nat \<Rightarrow> bdata \<Rightarrow> (bdata list \<times> bdata) option" where
  "welcome_loop cs 0 chain_key = Some ([], chain_key)"
| "welcome_loop cs (Suc k) chain_key =
     do { their_chain_key \<leftarrow> advance_group_chain_key_by_welcome cs chain_key;
          chain_key \<leftarrow> advance_group_chain_key_by_add cs their_chain_key chain_key;
          (keys, chain_key) \<leftarrow> welcome_loop cs k chain_key;
          Some (their_chain_key # keys, chain_key) }"

text \<open>
  The new chain keys of the added devices, of the sender of the addition (when another device added
  them) and of the own outbound session.
\<close>

definition advance_chain_keys :: "cipher_suite \<Rightarrow> nat \<Rightarrow> bdata ptr \<Rightarrow> bdata \<Rightarrow> (bdata list \<times> bdata ptr \<times> bdata) option" where
  "advance_chain_keys cs n sender_chain_key chain_key =
     (case sender_chain_key of
        None \<Rightarrow> do { (keys, chain_key) \<leftarrow> welcome_loop cs n chain_key; Some (keys, None, chain_key) }
      | Some sender_key \<Rightarrow>
          do { (keys, sender_key) \<leftarrow> welcome_loop cs n sender_key;
               chain_key \<leftarrow> advance_group_chain_key_by_add cs chain_key chain_key;
               Some (keys, Some sender_key, chain_key) })"

text \<open>The users of the two addresses are read by a log message.\<close>

fun renew_inbound_loop ::
    "'w host \<Rightarrow> prims \<Rightarrow> gen_defaults \<Rightarrow> group_session \<Rightarrow> bdata ptr \<Rightarrow> address ptr \<Rightarrow> group_session ptr array \<Rightarrow> nat \<Rightarrow> nat \<Rightarrow>
     'w \<Rightarrow> 'w option" where
  "renew_inbound_loop H P D g sender_chain_key sender_address sessions i 0 w = Some w"
| "renew_inbound_loop H P D g sender_chain_key sender_address sessions i (Suc k) w =
     do { p \<leftarrow> array_get sessions i; inbound \<leftarrow> deref p;
          own \<leftarrow> compare_address (gs_session_owner g) (gs_sender inbound);
          w \<leftarrow> (if own then Some w
               else do {
                 from_sender \<leftarrow> compare_address sender_address (gs_sender inbound);
                 (_, _, w) \<leftarrow> renew_inbound_group_session_by_welcome_and_add H P D w
                   (if from_sender then sender_chain_key else None) p (gs_group_info g);
                 a \<leftarrow> deref sender_address; _ \<leftarrow> deref (ad_user a);
                 b \<leftarrow> deref (gs_sender inbound); _ \<leftarrow> deref (ad_user b);
                 Some w });
          renew_inbound_loop H P D g sender_chain_key sender_address sessions (Suc i) k w }"

fun add_inbound_loop ::
    "'w host \<Rightarrow> prims \<Rightarrow> gen_defaults \<Rightarrow> group_session \<Rightarrow> group_member_info ptr array \<Rightarrow> nat \<Rightarrow> bdata list \<Rightarrow> 'w \<Rightarrow> 'w option" where
  "add_inbound_loop H P D g infos i [] w = Some w"
| "add_inbound_loop H P D g infos i (key # keys) w =
     do { p \<leftarrow> array_get infos i;
          (_, w) \<leftarrow> new_and_complete_inbound_group_session_with_chain_key H P D w p (Some g) (Some key);
          add_inbound_loop H P D g infos (Suc i) keys w }"

text \<open>The renewed outbound session is returned: the caller reads its group.\<close>

definition renew_outbound_group_session_by_welcome_and_add ::
    "'w host \<Rightarrow> prims \<Rightarrow> gen_defaults \<Rightarrow> cache \<Rightarrow> 'w \<Rightarrow> seed \<Rightarrow> group_session ptr \<Rightarrow> bdata ptr \<Rightarrow> address ptr \<Rightarrow> nat \<Rightarrow>
     group_member_info ptr array \<Rightarrow> nat \<Rightarrow> group_member ptr array \<Rightarrow> (int \<times> group_session ptr \<times> 'w \<times> seed) option" where
  "renew_outbound_group_session_by_welcome_and_add H P D cache w s outbound_group_session sender_chain_key sender_address
     n_adding_member_info_list adding_member_info_list adding_group_members_num adding_group_members =
     (if n_adding_member_info_list = 0 then Some (E2EES_RESULT_FAIL, outbound_group_session, w, s)
      else do {
        valid \<leftarrow> is_valid_group_session P outbound_group_session;
        (ret, identity_public_key, auth) \<leftarrow>
          (if \<not> valid then Some (E2EES_RESULT_FAIL, None, None)
           else do { g \<leftarrow> deref outbound_group_session; own_key_and_auth H cache w (gs_session_owner g) });
        infos \<leftarrow> is_valid_group_member_info_list adding_member_info_list n_adding_member_info_list;
        members \<leftarrow> is_valid_group_member_list adding_group_members adding_group_members_num;
        if ret \<noteq> E2EES_RESULT_SUCC \<or> \<not> is_valid_address sender_address \<or> \<not> infos \<or> \<not> members
        then Some (E2EES_RESULT_FAIL, outbound_group_session, w, s)
        else do {
          g \<leftarrow> deref outbound_group_session;
          let cs = suite_of P (gs_e2ees_pack_id g);
          old_group_info \<leftarrow> copy_group_info D (gs_group_info g);
          group_info \<leftarrow> add_group_members_to_group_info D old_group_info adding_group_members adding_group_members_num;
          let g = g\<lparr>gs_group_info := Some group_info\<rparr>;
          key \<leftarrow> deref identity_public_key;
          data \<leftarrow> pack_group_ratchet_state_plaintext H D g (sender_chain_key = None) key n_adding_member_info_list
            adding_member_info_list;
          (w, s) \<leftarrow> send_key_to_members_loop H P D cache (gs_session_owner g) auth data adding_group_members 0
            adding_group_members_num w s;
          (their_chain_keys, sender_chain_key, chain_key) \<leftarrow>
            advance_chain_keys cs n_adding_member_info_list sender_chain_key (gs_chain_key g);
          let g = g\<lparr>gs_chain_key := chain_key, gs_sequence := 0\<rparr>;
          let w = hs_store_group_session H w g;
          let (n, sessions) = hs_load_group_sessions H w (gs_session_owner g) (gi_group_address group_info);
          w \<leftarrow> (if n > 0 \<and> sessions \<noteq> None
               then renew_inbound_loop H P D g sender_chain_key sender_address sessions 0 n w else Some w);
          w \<leftarrow> add_inbound_loop H P D g adding_member_info_list 0 their_chain_keys w;
          Some (E2EES_RESULT_SUCC, Some g, w, s) } })"

definition renew_group_sessions_with_new_device ::
    "'w host \<Rightarrow> prims \<Rightarrow> gen_defaults \<Rightarrow> cache \<Rightarrow> 'w \<Rightarrow> seed \<Rightarrow> group_session ptr \<Rightarrow> bdata ptr \<Rightarrow> address ptr \<Rightarrow> address ptr \<Rightarrow>
     group_member_info ptr \<Rightarrow> (int \<times> group_session ptr \<times> 'w \<times> seed) option" where
  "renew_group_sessions_with_new_device H P D cache w s outbound_group_session sender_chain_key sender_address new_device_address
     adding_member_device_info =
     do { valid \<leftarrow> is_valid_group_session P outbound_group_session;
          (ret, identity_public_key, auth) \<leftarrow>
            (if \<not> valid then Some (E2EES_RESULT_FAIL, None, None)
             else do { g \<leftarrow> deref outbound_group_session; own_key_and_auth H cache w (gs_session_owner g) });
          (if is_valid_address new_device_address
           then do { a \<leftarrow> deref new_device_address; _ \<leftarrow> deref (ad_user a); Some () } else Some ());
          if ret \<noteq> E2EES_RESULT_SUCC \<or> \<not> is_valid_address sender_address \<or> \<not> is_valid_address new_device_address \<or>
             \<not> is_valid_group_member_info adding_member_device_info
          then Some (E2EES_RESULT_FAIL, outbound_group_session, w, s)
          else do {
            g \<leftarrow> deref outbound_group_session; info \<leftarrow> deref adding_member_device_info;
            new_device \<leftarrow> deref new_device_address; new_user \<leftarrow> deref (ad_user new_device);
            owner \<leftarrow> deref (gs_session_owner g); _ \<leftarrow> deref (ad_user owner);
            sender \<leftarrow> deref sender_address; _ \<leftarrow> deref (ad_user sender);
            member \<leftarrow> deref (gmi_member_address info); _ \<leftarrow> deref (ad_user member);
            let cs = suite_of P (gs_e2ees_pack_id g);
            key \<leftarrow> deref identity_public_key;
            data \<leftarrow> pack_group_ratchet_state_plaintext H D g (sender_chain_key = None) key 1
              (Some [adding_member_device_info]);
            (w, s) \<leftarrow>
              (case hs_load_outbound_session H w (gs_session_owner g) new_device_address of
                 Some out_session \<Rightarrow>
                   if se_responded out_session then
                     do { (_, _, w) \<leftarrow> send_one2one_msg_internal H P D w out_session (gd_notif_level_session D) data; Some (w, s) }
                   else Some (store_pending_common_plaintext_data_internal H w (se_our_address out_session)
                                (se_their_address out_session) data (gd_notif_level_session D), s)
               | None \<Rightarrow>
                   do { (_, _, w, s) \<leftarrow> get_pre_key_bundle_internal H P D cache w s (gs_session_owner g) auth
                          (pu_user_id new_user) (ad_domain new_device) (pu_device_id new_user) False (Some data);
                        Some (w, s) });
            (their_chain_keys, sender_chain_key, chain_key) \<leftarrow> advance_chain_keys cs 1 sender_chain_key (gs_chain_key g);
            let g = g\<lparr>gs_chain_key := chain_key, gs_sequence := 0\<rparr>;
            let w = hs_store_group_session H w g;
            group_info \<leftarrow> deref (gs_group_info g);
            let (n, sessions) = hs_load_group_sessions H w (gs_session_owner g) (gi_group_address group_info);
            w \<leftarrow> (if n > 0 \<and> sessions \<noteq> None
                 then do { w \<leftarrow> renew_inbound_loop H P D g sender_chain_key sender_address sessions 0 n w;
                           add_inbound_loop H P D g (Some [adding_member_device_info]) 0 their_chain_keys w }
                 else Some w);
            Some (E2EES_RESULT_SUCC, Some g, w, s) } }"

end
