(* ===== verification/Group_Requests.thy ===== *)
theory Group_Requests
  imports Group_Sending
begin

section \<open>Groups and their members\<close>

text \<open>
  The requests that create a group and change its members, their responses and the messages the other
  members get: the rest of \<open>src/group_session_manager.c\<close>, the calls of \<open>src/e2ees_client.c\<close> and
  \<open>add_group_member_device_internal\<close> of \<open>src/e2ees_client_internal.c\<close>.
\<close>

subsection \<open>Creating a group\<close>

definition produce_create_group_request :: "gen_defaults \<Rightarrow> create_group_params \<Rightarrow> u32 \<Rightarrow> (int \<times> create_group_msg) option" where
  "produce_create_group_request D params e2ees_pack_id =
     do { sender \<leftarrow> copy_address_from_address D (cgp_sender_address params);
          name \<leftarrow> deref (cgp_group_name params);
          members \<leftarrow> copy_group_members D (cgp_group_members params) (cgp_group_members_num params);
          Some (E2EES_RESULT_SUCC,
            \<lparr>cgm_e2ees_pack_id = e2ees_pack_id, cgm_sender_address = Some sender,
             cgm_group_info = Some ((init_group_info D)\<lparr>gi_group_name := Some name,
               gi_n_group_member_list := cgp_group_members_num params, gi_group_member_list := Some members\<rparr>),
             cgm_n_member_info_list = 0, cgm_member_info_list = None\<rparr>) }"

definition consume_create_group_response ::
    "'w plugin \<Rightarrow> prims \<Rightarrow> gen_defaults \<Rightarrow> cache \<Rightarrow> 'w \<Rightarrow> seed \<Rightarrow> u32 \<Rightarrow> address ptr \<Rightarrow> cstr \<Rightarrow> group_member ptr array \<Rightarrow> nat \<Rightarrow>
     create_group_response ptr \<Rightarrow> (int \<times> 'w \<times> seed) option" where
  "consume_create_group_response G P D cache w s e2ees_pack_id sender_address group_name group_member_list group_members_num
     response =
     do { members \<leftarrow> is_valid_group_member_list group_member_list group_members_num;
          valid \<leftarrow> is_valid_create_group_response response;
          if \<not> (is_valid_e2ees_pack_id P e2ees_pack_id \<and> is_valid_address sender_address \<and> is_valid_string group_name \<and>
                 members \<and> valid)
          then Some (E2EES_RESULT_FAIL, w, s)
          else do {
            r \<leftarrow> deref response;
            (ret, w, s) \<leftarrow> new_outbound_group_session_by_sender G P D cache w s (cgs_n_member_info_list r)
              (cgs_member_info_list r) e2ees_pack_id sender_address group_name (cgs_group_address r) group_member_list
              group_members_num None;
            Some (ret, if ret = E2EES_RESULT_SUCC
                       then e2ees_notify_group_created (pg_host G) w sender_address (cgs_group_address r) group_name
                              group_member_list group_members_num
                       else w, s) } }"

definition create_group ::
    "'w plugin \<Rightarrow> prims \<Rightarrow> gen_defaults \<Rightarrow> cache \<Rightarrow> 'w \<Rightarrow> seed \<Rightarrow> address ptr \<Rightarrow> cstr \<Rightarrow> group_member ptr array \<Rightarrow> nat \<Rightarrow>
     (int \<times> create_group_response ptr \<times> 'w \<times> seed) option" where
  "create_group G P D cache w s sender_address group_name group_members group_members_num =
     do { let params = \<lparr>cgp_sender_address = sender_address, cgp_group_name = group_name, cgp_group_members = group_members,
                        cgp_group_members_num = group_members_num\<rparr>;
          valid \<leftarrow> is_valid_create_group_inputs params;
          if \<not> valid then Some (E2EES_RESULT_FAIL, None, w, s)
          else (case hs_load_account_by_address (pg_host G) w sender_address of
            None \<Rightarrow> Some (E2EES_RESULT_FAIL, None, w, s)
          | Some account \<Rightarrow>
              if \<not> is_valid_e2ees_pack_id P (acc_e2ees_pack_id account) \<or> \<not> is_valid_string (acc_auth account)
              then Some (E2EES_RESULT_FAIL, None, w, s)
              else do {
                (_, request) \<leftarrow> produce_create_group_request D params (acc_e2ees_pack_id account);
                let (response, w) = dispatch_proto_request (pg_create_group G) w request sender_address (acc_auth account);
                valid \<leftarrow> is_valid_create_group_response response;
                if \<not> valid then Some (E2EES_RESULT_FAIL, response, w, s)
                else do {
                  (ret, w, s) \<leftarrow> consume_create_group_response G P D cache w s (acc_e2ees_pack_id account) sender_address
                    group_name group_members group_members_num response;
                  Some (ret, response, w, s) } }) }"

text \<open>The name and the members of the response are read and not used.\<close>

definition consume_get_group_response :: "get_group_response ptr \<Rightarrow> bool" where
  "consume_get_group_response response = (case response of None \<Rightarrow> False | Some r \<Rightarrow> ggs_code r = RESPONSE_CODE_OK)"

subsection \<open>Adding members\<close>

definition produce_add_group_members_request ::
    "gen_defaults \<Rightarrow> add_group_members_params \<Rightarrow> group_session \<Rightarrow> (int \<times> add_group_members_msg) option" where
  "produce_add_group_members_request D params outbound_group_session =
     do { sender \<leftarrow> copy_address_from_address D (agp_sender_address params);
          adding \<leftarrow> copy_group_members D (agp_adding_members params) (agp_adding_members_num params);
          old_group_info \<leftarrow> deref (gs_group_info outbound_group_session);
          group_info \<leftarrow> add_group_members_to_group_info D old_group_info (agp_adding_members params)
            (agp_adding_members_num params);
          Some (E2EES_RESULT_SUCC,
            \<lparr>agm_e2ees_pack_id = gs_e2ees_pack_id outbound_group_session, agm_sender_address = Some sender,
             agm_sequence = gs_sequence outbound_group_session, agm_group_info = Some group_info,
             agm_n_adding_member_info_list = 0, agm_adding_member_info_list = None,
             agm_n_adding_member_list = agp_adding_members_num params, agm_adding_member_list = Some adding\<rparr>) }"

definition consume_add_group_members_response ::
    "'w plugin \<Rightarrow> prims \<Rightarrow> gen_defaults \<Rightarrow> cache \<Rightarrow> 'w \<Rightarrow> seed \<Rightarrow> group_session ptr \<Rightarrow> add_group_members_response ptr \<Rightarrow>
     group_member ptr array \<Rightarrow> nat \<Rightarrow> (int \<times> 'w \<times> seed) option" where
  "consume_add_group_members_response G P D cache w s outbound_group_session response added_members added_members_num =
     do { session \<leftarrow> is_valid_group_session P outbound_group_session;
          valid \<leftarrow> is_valid_add_group_members_response response;
          members \<leftarrow> is_valid_group_member_list added_members added_members_num;
          if \<not> session \<or> \<not> valid \<or> \<not> members then Some (E2EES_RESULT_FAIL, w, s)
          else do {
            g \<leftarrow> deref outbound_group_session; r \<leftarrow> deref response;
            let session_owner = gs_session_owner g;
            (ret, renewed, w, s) \<leftarrow> renew_outbound_group_session_by_welcome_and_add (pg_host G) P D cache w s
              outbound_group_session None session_owner (ags_n_adding_member_info_list r) (ags_adding_member_info_list r)
              added_members_num added_members;
            if ret \<noteq> E2EES_RESULT_SUCC then Some (ret, w, s)
            else do {
              g \<leftarrow> deref renewed; group_info \<leftarrow> deref (gs_group_info g);
              Some (ret, e2ees_notify_group_members_added G w session_owner (gi_group_address group_info)
                (gi_group_name group_info) (ags_group_member_list r) (ags_n_group_member_list r) added_members
                added_members_num, s) } } }"

definition add_group_members ::
    "'w plugin \<Rightarrow> prims \<Rightarrow> gen_defaults \<Rightarrow> cache \<Rightarrow> 'w \<Rightarrow> seed \<Rightarrow> address ptr \<Rightarrow> address ptr \<Rightarrow> group_member ptr array \<Rightarrow> nat \<Rightarrow>
     (int \<times> add_group_members_response ptr \<times> 'w \<times> seed) option" where
  "add_group_members G P D cache w s sender_address group_address adding_members adding_members_num =
     do { let params = \<lparr>agp_sender_address = sender_address, agp_group_address = group_address,
                        agp_adding_members = adding_members, agp_adding_members_num = adding_members_num\<rparr>;
          valid \<leftarrow> is_valid_add_group_members_inputs params;
          let auth = hs_load_auth (pg_host G) w sender_address;
          if \<not> valid \<or> \<not> is_valid_string auth then Some (E2EES_RESULT_FAIL, None, w, s)
          else do {
            let outbound_group_session =
              hs_load_group_session_by_address (pg_host G) w sender_address sender_address group_address;
            session \<leftarrow> is_valid_group_session P outbound_group_session;
            if \<not> session then Some (E2EES_RESULT_FAIL, None, w, s)
            else do {
              g \<leftarrow> deref outbound_group_session;
              (_, request) \<leftarrow> produce_add_group_members_request D params g;
              let (response, w) = dispatch_proto_request (pg_add_group_members G) w request sender_address auth;
              valid \<leftarrow> is_valid_add_group_members_response response;
              if \<not> valid then Some (E2EES_RESULT_FAIL, response, w, s)
              else do {
                r \<leftarrow> deref response;
                (ret, w, s) \<leftarrow> consume_add_group_members_response G P D cache w s outbound_group_session response
                  (ags_added_group_member_list r) (ags_n_added_group_member_list r);
                Some (ret, response, w, s) } } } }"

text \<open>
  The sessions with which another member's addition is followed: the own outbound session of the
  group, and the session with the sender of the message.
\<close>

definition sessions_of_addition ::
    "'w host \<Rightarrow> prims \<Rightarrow> 'w \<Rightarrow> address ptr \<Rightarrow> address ptr \<Rightarrow> address ptr \<Rightarrow> (group_session \<times> group_session) option option" where
  "sessions_of_addition H P w receiver_address sender_address group_address =
     do { let outbound_group_session = hs_load_group_session_by_address H w receiver_address receiver_address group_address;
          valid \<leftarrow> is_valid_group_session P outbound_group_session;
          if \<not> valid then Some None
          else do {
            g \<leftarrow> deref outbound_group_session;
            let inbound_group_session = hs_load_group_session_by_id H w sender_address receiver_address (gs_session_id g);
            valid \<leftarrow> is_valid_group_session P inbound_group_session;
            if \<not> valid then Some None
            else do { inbound \<leftarrow> deref inbound_group_session; Some (Some (g, inbound)) } } }"

definition consume_add_group_members_msg ::
    "'w plugin \<Rightarrow> prims \<Rightarrow> gen_defaults \<Rightarrow> cache \<Rightarrow> 'w \<Rightarrow> seed \<Rightarrow> address ptr \<Rightarrow> add_group_members_msg ptr \<Rightarrow> (bool \<times> 'w \<times> seed) option" where
  "consume_add_group_members_msg G P D cache w s receiver_address msg =
     (if \<not> is_valid_address receiver_address then Some (True, w, s)
      else do {
        valid \<leftarrow> is_valid_add_group_members_msg P msg;
        if \<not> valid then Some (True, w, s)
        else do {
          m \<leftarrow> deref msg; group_info \<leftarrow> deref (agm_group_info m);
          sessions \<leftarrow> sessions_of_addition (pg_host G) P w receiver_address (agm_sender_address m) (gi_group_address group_info);
          (case sessions of None \<Rightarrow> Some (True, w, s)
           | Some (g, inbound) \<Rightarrow> do {
               inbound \<leftarrow> advance_group_to (suite_of P (gs_e2ees_pack_id inbound)) inbound (agm_sequence m);
               (ret, _, w, s) \<leftarrow> renew_outbound_group_session_by_welcome_and_add (pg_host G) P D cache w s (Some g)
                 (Some (gs_chain_key inbound)) (agm_sender_address m) (agm_n_adding_member_info_list m)
                 (agm_adding_member_info_list m) (agm_n_adding_member_list m) (agm_adding_member_list m);
               Some (True,
                 if ret = E2EES_RESULT_SUCC
                 then e2ees_notify_group_members_added G w receiver_address (gi_group_address group_info)
                        (gi_group_name group_info) (gi_group_member_list group_info) (gi_n_group_member_list group_info)
                        (agm_adding_member_list m) (agm_n_adding_member_list m)
                 else w, s) }) } })"

subsection \<open>Adding a device\<close>

definition produce_add_group_member_device_request ::
    "gen_defaults \<Rightarrow> add_group_member_device_params \<Rightarrow> group_session \<Rightarrow> (int \<times> add_group_member_device_msg) option" where
  "produce_add_group_member_device_request D params outbound_group_session =
     do { sender \<leftarrow> copy_address_from_address D (adp_sender_address params);
          group_info \<leftarrow> copy_group_info D (gs_group_info outbound_group_session);
          device \<leftarrow> copy_address_from_address D (adp_new_device_address params);
          Some (E2EES_RESULT_SUCC,
            \<lparr>agd_e2ees_pack_id = gs_e2ees_pack_id outbound_group_session, agd_sender_address = Some sender,
             agd_sequence = gs_sequence outbound_group_session, agd_group_info = Some group_info,
             agd_adding_member_device = Some \<lparr>gmi_member_address = Some device, gmi_sign_public_key = empty_bdata\<rparr>\<rparr>) }"

text \<open>
  A response that the device is known already ends the function with \<open>true\<close>, the number one.  On
  success the users of the new device's address and the group of the group's address are logged.
\<close>

definition consume_add_group_member_device_response ::
    "'w plugin \<Rightarrow> prims \<Rightarrow> gen_defaults \<Rightarrow> cache \<Rightarrow> 'w \<Rightarrow> seed \<Rightarrow> group_session ptr \<Rightarrow> add_group_member_device_response ptr \<Rightarrow>
     (int \<times> 'w \<times> seed) option" where
  "consume_add_group_member_device_response G P D cache w s outbound_group_session response =
     do { session \<leftarrow> is_valid_group_session P outbound_group_session;
          valid \<leftarrow> is_valid_add_group_member_device_response response;
          if \<not> valid \<and> map_option ads_code response = Some RESPONSE_CODE_NOT_FOUND then Some (1, w, s)
          else if \<not> session \<or> \<not> valid then Some (E2EES_RESULT_FAIL, w, s)
          else do {
            g \<leftarrow> deref outbound_group_session; r \<leftarrow> deref response;
            group_info \<leftarrow> deref (gs_group_info g); info \<leftarrow> deref (ads_adding_member_device_info r);
            (ret, _, w, s) \<leftarrow> renew_group_sessions_with_new_device (pg_host G) P D cache w s outbound_group_session None
              (gs_session_owner g) (gmi_member_address info) (ads_adding_member_device_info r);
            if ret \<noteq> E2EES_RESULT_SUCC then Some (ret, w, s)
            else do {
              device \<leftarrow> deref (gmi_member_address info); _ \<leftarrow> deref (ad_user device);
              group_address \<leftarrow> deref (gi_group_address group_info); _ \<leftarrow> deref (ad_group group_address);
              Some (ret, w, s) } } }"

definition consume_add_group_member_device_msg ::
    "'w plugin \<Rightarrow> prims \<Rightarrow> gen_defaults \<Rightarrow> cache \<Rightarrow> 'w \<Rightarrow> seed \<Rightarrow> address ptr \<Rightarrow> add_group_member_device_msg ptr \<Rightarrow>
     (bool \<times> 'w \<times> seed) option" where
  "consume_add_group_member_device_msg G P D cache w s receiver_address msg =
     (if \<not> is_valid_address receiver_address then Some (True, w, s)
      else do {
        valid \<leftarrow> is_valid_add_group_member_device_msg P msg;
        if \<not> valid then Some (True, w, s)
        else do {
          m \<leftarrow> deref msg; group_info \<leftarrow> deref (agd_group_info m);
          sessions \<leftarrow> sessions_of_addition (pg_host G) P w receiver_address (agd_sender_address m) (gi_group_address group_info);
          (case sessions of None \<Rightarrow> Some (True, w, s)
           | Some (g, inbound) \<Rightarrow> do {
               inbound \<leftarrow> advance_group_to (suite_of P (gs_e2ees_pack_id inbound)) inbound (agd_sequence m);
               device \<leftarrow> deref (agd_adding_member_device m);
               (_, _, w, s) \<leftarrow> renew_group_sessions_with_new_device (pg_host G) P D cache w s (Some g)
                 (Some (gs_chain_key inbound)) (agd_sender_address m) (gmi_member_address device) (agd_adding_member_device m);
               Some (True, w, s) }) } })"

definition add_group_member_device_internal ::
    "'w plugin \<Rightarrow> prims \<Rightarrow> gen_defaults \<Rightarrow> cache \<Rightarrow> 'w \<Rightarrow> seed \<Rightarrow> address ptr \<Rightarrow> address ptr \<Rightarrow> address ptr \<Rightarrow>
     (int \<times> add_group_member_device_response ptr \<times> 'w \<times> seed) option" where
  "add_group_member_device_internal G P D cache w s sender_address group_address new_device_address =
     (let params = \<lparr>adp_sender_address = sender_address, adp_group_address = group_address,
                    adp_new_device_address = new_device_address\<rparr>;
          auth = hs_load_auth (pg_host G) w sender_address
      in if \<not> is_valid_add_group_member_device_inputs params \<or> \<not> is_valid_string auth then Some (E2EES_RESULT_FAIL, None, w, s)
      else do {
        let outbound_group_session = hs_load_group_session_by_address (pg_host G) w sender_address sender_address group_address;
        session \<leftarrow> is_valid_group_session P outbound_group_session;
        if \<not> session then Some (E2EES_RESULT_FAIL, None, w, s)
        else do {
          g \<leftarrow> deref outbound_group_session;
          (_, request) \<leftarrow> produce_add_group_member_device_request D params g;
          let (response, w) = dispatch_proto_request (pg_add_group_member_device G) w request sender_address auth;
          valid \<leftarrow> is_valid_add_group_member_device_response response;
          if \<not> valid
          then Some (E2EES_RESULT_FAIL, response,
                 store_pending_request_internal (pg_host G) w sender_address (PENDING_REQUEST_TYPE_ADD_GROUP_MEMBER_DEVICE request), s)
          else do {
            (ret, w, s) \<leftarrow> consume_add_group_member_device_response G P D cache w s outbound_group_session response;
            Some (ret, response, w, s) } } })"

subsection \<open>Removing members\<close>

definition produce_remove_group_members_request ::
    "gen_defaults \<Rightarrow> remove_group_members_params \<Rightarrow> group_session \<Rightarrow> (int \<times> remove_group_members_msg) option" where
  "produce_remove_group_members_request D params outbound_group_session =
     do { sender \<leftarrow> copy_address_from_address D (rgp_sender_address params);
          old_group_info \<leftarrow> deref (gs_group_info outbound_group_session);
          group_info \<leftarrow> remove_group_members_from_group_info D old_group_info (rgp_removing_members params)
            (rgp_removing_members_num params);
          removing \<leftarrow> copy_group_members D (rgp_removing_members params) (rgp_removing_members_num params);
          Some (E2EES_RESULT_SUCC,
            \<lparr>rgm_e2ees_pack_id = gs_e2ees_pack_id outbound_group_session, rgm_sender_address = Some sender,
             rgm_group_info = Some group_info, rgm_n_member_info_list = 0, rgm_member_info_list = None,
             rgm_n_removing_member_list = rgp_removing_members_num params, rgm_removing_member_list = Some removing\<rparr>) }"

fun user_in_group_loop :: "address ptr \<Rightarrow> group_member ptr array \<Rightarrow> nat \<Rightarrow> nat \<Rightarrow> bool option" where
  "user_in_group_loop user_address members i 0 = Some False"
| "user_in_group_loop user_address members i (Suc k) =
     do { p \<leftarrow> array_get members i; m \<leftarrow> deref p; a \<leftarrow> deref user_address; u \<leftarrow> deref (ad_user a);
          if safe_strcmp (gm_user_id m) (pu_user_id u) \<and> safe_strcmp (gm_domain m) (ad_domain a) then Some True
          else user_in_group_loop user_address members (Suc i) k }"

definition user_in_group :: "address ptr \<Rightarrow> group_member ptr array \<Rightarrow> nat \<Rightarrow> bool option" where
  "user_in_group user_address group_member_list group_members_num =
     user_in_group_loop user_address group_member_list 0 group_members_num"

definition consume_remove_group_members_response ::
    "'w plugin \<Rightarrow> prims \<Rightarrow> gen_defaults \<Rightarrow> cache \<Rightarrow> 'w \<Rightarrow> seed \<Rightarrow> group_session ptr \<Rightarrow> remove_group_members_response ptr \<Rightarrow>
     group_member ptr array \<Rightarrow> nat \<Rightarrow> (int \<times> 'w \<times> seed) option" where
  "consume_remove_group_members_response G P D cache w s outbound_group_session response removed_members removed_members_num =
     do { session \<leftarrow> is_valid_group_session P outbound_group_session;
          valid \<leftarrow> is_valid_remove_group_members_response response;
          if \<not> session \<or> \<not> valid then Some (E2EES_RESULT_FAIL, w, s)
          else do {
            g \<leftarrow> deref outbound_group_session; r \<leftarrow> deref response; group_info \<leftarrow> deref (gs_group_info g);
            let sender_address = gs_session_owner g;
            let w = hs_unload_group_session_by_id (pg_host G) w sender_address (gs_session_id g);
            member \<leftarrow> (if rgs_n_group_member_list r > 0
                      then user_in_group sender_address (rgs_group_member_list r) (rgs_n_group_member_list r) else Some False);
            (ret, w, s) \<leftarrow>
              (if member then
                 new_outbound_group_session_by_sender G P D cache w s (rgs_n_member_info_list r) (rgs_member_info_list r)
                   (gs_e2ees_pack_id g) sender_address (gi_group_name group_info) (gi_group_address group_info)
                   (rgs_group_member_list r) (rgs_n_group_member_list r) (gs_session_id g)
               else Some (E2EES_RESULT_SUCC, w, s));
            Some (ret, if ret = E2EES_RESULT_SUCC
                       then e2ees_notify_group_members_removed G w sender_address (gi_group_address group_info)
                              (gi_group_name group_info) (rgs_group_member_list r) (rgs_n_group_member_list r)
                              removed_members removed_members_num
                       else w, s) } }"

definition remove_group_members ::
    "'w plugin \<Rightarrow> prims \<Rightarrow> gen_defaults \<Rightarrow> cache \<Rightarrow> 'w \<Rightarrow> seed \<Rightarrow> address ptr \<Rightarrow> address ptr \<Rightarrow> group_member ptr array \<Rightarrow> nat \<Rightarrow>
     (int \<times> remove_group_members_response ptr \<times> 'w \<times> seed) option" where
  "remove_group_members G P D cache w s sender_address group_address removing_members removing_members_num =
     do { let params = \<lparr>rgp_sender_address = sender_address, rgp_group_address = group_address,
                        rgp_removing_members = removing_members, rgp_removing_members_num = removing_members_num\<rparr>;
          valid \<leftarrow> is_valid_remove_group_members_inputs params;
          let auth = hs_load_auth (pg_host G) w sender_address;
          if \<not> valid \<or> \<not> is_valid_string auth then Some (E2EES_RESULT_FAIL, None, w, s)
          else do {
            let outbound_group_session =
              hs_load_group_session_by_address (pg_host G) w sender_address sender_address group_address;
            session \<leftarrow> is_valid_group_session P outbound_group_session;
            if \<not> session then Some (E2EES_RESULT_FAIL, None, w, s)
            else do {
              g \<leftarrow> deref outbound_group_session;
              (_, request) \<leftarrow> produce_remove_group_members_request D params g;
              let (response, w) = dispatch_proto_request (pg_remove_group_members G) w request sender_address auth;
              valid \<leftarrow> is_valid_remove_group_members_response response;
              if \<not> valid then Some (E2EES_RESULT_FAIL, response, w, s)
              else do {
                r \<leftarrow> deref response;
                (ret, w, s) \<leftarrow> consume_remove_group_members_response G P D cache w s outbound_group_session response
                  (rgs_removed_group_member_list r) (rgs_n_removed_group_member_list r);
                Some (ret, response, w, s) } } } }"

text \<open>The loop over the removed members: the receiver unloads its sessions for each entry that is itself.\<close>

fun removed_loop ::
    "'w plugin \<Rightarrow> address ptr \<Rightarrow> group_info \<Rightarrow> remove_group_members_msg \<Rightarrow> nat \<Rightarrow> nat \<Rightarrow> bool \<Rightarrow> 'w \<Rightarrow> (bool \<times> 'w) option" where
  "removed_loop G receiver_address group_info msg i 0 removed w = Some (removed, w)"
| "removed_loop G receiver_address group_info msg i (Suc k) removed w =
     do { a \<leftarrow> deref receiver_address; u \<leftarrow> deref (ad_user a);
          p \<leftarrow> array_get (rgm_removing_member_list msg) i; m \<leftarrow> deref p;
          if safe_strcmp (pu_user_id u) (gm_user_id m) \<and> safe_strcmp (ad_domain a) (gm_domain m)
          then (let w = hs_unload_group_session_by_address (pg_host G) w receiver_address (gi_group_address group_info);
                    w = e2ees_notify_group_members_removed G w receiver_address (gi_group_address group_info)
                          (gi_group_name group_info) (gi_group_member_list group_info) (gi_n_group_member_list group_info)
                          (rgm_removing_member_list msg) (rgm_n_removing_member_list msg)
                in removed_loop G receiver_address group_info msg (Suc i) k True w)
          else removed_loop G receiver_address group_info msg (Suc i) k removed w }"

text \<open>
  Whether the session with the sender is already that of the group after the removal, and the
  world without the old sessions when it is not.
\<close>

definition renewed_by_bundle ::
    "'w host \<Rightarrow> prims \<Rightarrow> 'w \<Rightarrow> address ptr \<Rightarrow> group_info \<Rightarrow> group_session ptr \<Rightarrow> (bool \<times> 'w) option" where
  "renewed_by_bundle H P w receiver_address group_info inbound_group_session =
     do { valid \<leftarrow> is_valid_group_session P inbound_group_session;
          if \<not> valid then Some (False, w)
          else do {
            g \<leftarrow> deref inbound_group_session; info \<leftarrow> deref (gs_group_info g);
            same \<leftarrow> compare_group_member (gi_group_member_list info) (gi_n_group_member_list info)
              (gi_group_member_list group_info) (gi_n_group_member_list group_info);
            Some (if same then (True, w)
                  else (False, hs_unload_group_session_by_id H w receiver_address (gs_session_id g))) } }"

text \<open>The loops over the members are those of a new group.\<close>

definition consume_remove_group_members_msg ::
    "'w plugin \<Rightarrow> prims \<Rightarrow> gen_defaults \<Rightarrow> cache \<Rightarrow> 'w \<Rightarrow> address ptr \<Rightarrow> remove_group_members_msg ptr \<Rightarrow> (bool \<times> 'w) option" where
  "consume_remove_group_members_msg G P D cache w receiver_address msg =
     (let H = pg_host G in
      if \<not> is_valid_address receiver_address then Some (True, w)
      else do {
        valid \<leftarrow> is_valid_remove_group_members_msg P msg;
        if \<not> valid then Some (True, w)
        else do {
          m \<leftarrow> deref msg; group_info \<leftarrow> deref (rgm_group_info m);
          (removed, w) \<leftarrow> removed_loop G receiver_address group_info m 0 (rgm_n_removing_member_list m) False w;
          if removed then Some (True, w)
          else do {
            let inbound_group_session = hs_load_group_session_by_address H w (rgm_sender_address m) receiver_address
                  (gi_group_address group_info);
            (new_group_session, w) \<leftarrow> renewed_by_bundle H P w receiver_address group_info inbound_group_session;
            (ret, w) \<leftarrow>
              (if \<not> new_group_session then
                 create_sessions_loop H P D (rgm_e2ees_pack_id m) receiver_address (rgm_group_info m)
                   (rgm_member_info_list m) 0 (rgm_n_member_info_list m) E2EES_RESULT_SUCC w
               else do {
                 (_, inbound_group_session, w) \<leftarrow> complete_sessions_loop H P D (rgm_sender_address m) receiver_address
                   (rgm_member_info_list m) 0 (rgm_n_member_info_list m) E2EES_RESULT_SUCC inbound_group_session w;
                 g \<leftarrow> deref inbound_group_session;
                 new_outbound_group_session_by_receiver H P D cache w (gs_group_seed g) (rgm_e2ees_pack_id m)
                   receiver_address (gi_group_name group_info) (gi_group_address group_info) (gs_session_id g)
                   (gi_group_member_list group_info) (gi_n_group_member_list group_info) });
            Some (True,
              if ret = E2EES_RESULT_SUCC
              then e2ees_notify_group_members_removed G w receiver_address (gi_group_address group_info)
                     (gi_group_name group_info) (gi_group_member_list group_info) (gi_n_group_member_list group_info)
                     (rgm_removing_member_list m) (rgm_n_removing_member_list m)
              else w) } } })"

subsection \<open>Leaving a group\<close>

definition produce_leave_group_request :: "gen_defaults \<Rightarrow> leave_group_params \<Rightarrow> (int \<times> leave_group_msg) option" where
  "produce_leave_group_request D params =
     do { user \<leftarrow> copy_address_from_address D (lgp_sender_address params);
          group_adr \<leftarrow> copy_address_from_address D (lgp_group_address params);
          Some (E2EES_RESULT_SUCC, \<lparr>lgm_user_address = Some user, lgm_group_address = Some group_adr\<rparr>) }"

definition consume_leave_group_response :: "'w host \<Rightarrow> 'w \<Rightarrow> address ptr \<Rightarrow> leave_group_response ptr \<Rightarrow> (int \<times> 'w) option" where
  "consume_leave_group_response H w user_address response =
     (if \<not> is_valid_address user_address \<or> \<not> is_valid_leave_group_response response then Some (E2EES_RESULT_FAIL, w)
      else do { r \<leftarrow> deref response;
                Some (E2EES_RESULT_SUCC, hs_unload_group_session_by_address H w user_address (lgs_group_address r)) })"

definition leave_group ::
    "'w plugin \<Rightarrow> gen_defaults \<Rightarrow> 'w \<Rightarrow> address ptr \<Rightarrow> address ptr \<Rightarrow> (int \<times> leave_group_response ptr \<times> 'w) option" where
  "leave_group G D w sender_address group_address =
     (let params = \<lparr>lgp_sender_address = sender_address, lgp_group_address = group_address\<rparr>;
          auth = hs_load_auth (pg_host G) w sender_address
      in if \<not> is_valid_leave_group_inputs params \<or> \<not> is_valid_string auth then Some (E2EES_RESULT_FAIL, None, w)
      else do {
        (_, request) \<leftarrow> produce_leave_group_request D params;
        let (response, w) = dispatch_proto_request (pg_leave_group G) w request sender_address auth;
        if \<not> is_valid_leave_group_response response then Some (E2EES_RESULT_FAIL, response, w)
        else do { (ret, w) \<leftarrow> consume_leave_group_response (pg_host G) w sender_address response; Some (ret, response, w) } })"

definition consume_leave_group_msg ::
    "'w plugin \<Rightarrow> prims \<Rightarrow> gen_defaults \<Rightarrow> cache \<Rightarrow> 'w \<Rightarrow> seed \<Rightarrow> address ptr \<Rightarrow> leave_group_msg ptr \<Rightarrow> (bool \<times> 'w \<times> seed) option" where
  "consume_leave_group_msg G P D cache w s receiver_address msg =
     (if \<not> is_valid_address receiver_address \<or> \<not> is_valid_leave_group_msg msg then Some (True, w, s)
      else do {
        m \<leftarrow> deref msg; a \<leftarrow> deref (lgm_user_address m); u \<leftarrow> deref (ad_user a);
        user_id \<leftarrow> deref (pu_user_id u); domain \<leftarrow> deref (ad_domain a);
        (_, response, w, s) \<leftarrow> remove_group_members G P D cache w s receiver_address (lgm_group_address m)
          (Some [Some ((init_group_member D)\<lparr>gm_user_id := Some user_id, gm_domain := Some domain, gm_role := GROUP_ROLE_MEMBER\<rparr>)]) 1;
        _ \<leftarrow> is_valid_remove_group_members_response response;
        Some (True, w, s) })"

end
