(* ===== verification/Group_Renewal.thy ===== *)
theory Group_Renewal
  imports Group_Requests Group_Creation
begin

section \<open>How group sessions follow an addition\<close>

text \<open>
  The chain keys after members are added, as functions of those before, and the sessions each device
  stores when it follows the addition.
\<close>

subsection \<open>The keys\<close>

definition welcome_key :: "prims \<Rightarrow> bytes \<Rightarrow> bytes" where
  "welcome_key P k = std_kdf P k SALT_welcome GROUP_CHAIN_KEY_SEED 32"

definition add_key :: "prims \<Rightarrow> bytes \<Rightarrow> bytes" where
  "add_key P k = std_kdf P k SALT_add GROUP_CHAIN_KEY_SEED 32"

text \<open>The keys of \<open>n\<close> added devices and the key of the device that adds them.\<close>

fun welcome_chain :: "prims \<Rightarrow> nat \<Rightarrow> bytes \<Rightarrow> bytes list \<times> bytes" where
  "welcome_chain P 0 k = ([], k)"
| "welcome_chain P (Suc n) k =
     (let t = welcome_key P k; (ks, k') = welcome_chain P n (add_key P t) in (t # ks, k'))"

lemma length_welcome_chain [simp]: "length (fst (welcome_chain P n k)) = n"
  by (induction n arbitrary: k) (simp_all add: Let_def case_prod_unfold)

text \<open>The chain key of a session.\<close>

definition group_chain_of :: "group_session \<Rightarrow> bytes" where
  "group_chain_of g = (case pb_data (gs_chain_key g) of None \<Rightarrow> [] | Some k \<Rightarrow> k)"

lemma group_chain_of_buf [simp]: "gs_chain_key g = buf k \<Longrightarrow> group_chain_of g = k"
  by (simp add: group_chain_of_def)

text \<open>An inbound session that is renewed, with the key of the device that added members or with its own.\<close>

definition renewed :: "prims \<Rightarrow> group_info \<Rightarrow> bytes option \<Rightarrow> group_session \<Rightarrow> group_session" where
  "renewed P gi key x = x\<lparr>gs_group_info := Some gi,
     gs_chain_key := buf (case key of Some k \<Rightarrow> k | None \<Rightarrow> add_key P (group_chain_of x)), gs_sequence := 0\<rparr>"

text \<open>The inbound session for an added device.\<close>

definition session_with :: "gen_defaults \<Rightarrow> group_session \<Rightarrow> address \<times> bytes \<Rightarrow> bytes \<Rightarrow> group_session" where
  "session_with D g dev k = (init_group_session D)\<lparr>gs_e2ees_pack_id := gs_e2ees_pack_id g, gs_session_owner := gs_session_owner g,
     gs_version := gs_version g, gs_session_id := gs_session_id g, gs_sender := Some (fst dev), gs_group_info := gs_group_info g,
     gs_chain_key := buf k, gs_sequence := 0, gs_associated_data := buf (snd dev @ snd dev)\<rparr>"

abbreviation device_info :: "address \<times> bytes \<Rightarrow> group_member_info ptr" where
  "device_info dev \<equiv> Some (member_info_of (fst dev) (snd dev))"

abbreviation store_sessions :: "'w host \<Rightarrow> group_session list \<Rightarrow> 'w \<Rightarrow> 'w" where
  "store_sessions H gs w \<equiv> fold (\<lambda>g w. hs_store_group_session H w g) gs w"

text \<open>A session of a device, and whether a session is with the device \<open>a\<close>.\<close>

definition user_address :: "address \<Rightarrow> bool" where
  "user_address a \<longleftrightarrow> ad_peer_case a = PEER_USER \<and> ad_user a \<noteq> None"

definition is_from :: "address \<Rightarrow> group_session \<Rightarrow> bool" where
  "is_from a x \<longleftrightarrow> (\<exists>s. gs_sender x = Some s \<and> address_id s = address_id a)"

definition group_entry :: "prims \<Rightarrow> u32 \<Rightarrow> group_session \<Rightarrow> bool" where
  "group_entry P raw x \<longleftrightarrow> (\<exists>s. gs_sender x = Some s \<and> user_address s) \<and> (\<exists>k. gs_chain_key x = buf k \<and> length k = 32) \<and>
     is_valid_group_session P (Some x) = Some True \<and> gs_e2ees_pack_id x = raw"

lemma user_address_peer: "user_address a \<Longrightarrow> wf_peer a"
  by (simp add: user_address_def wf_peer_def)

lemma compare_is_from:
  assumes "user_address a" "gs_sender x = Some s" "user_address s"
  shows "compare_address (Some a) (gs_sender x) = Some (is_from a x)"
  using assms compare_address_id [OF user_address_peer user_address_peer, of a s] by (auto simp: is_from_def)

context library_group
begin

lemma key_length: "length (welcome_key P k) = 32" "length (add_key P k) = 32"
  by (simp_all add: welcome_key_def add_key_def)

lemma welcome_chain_length:
  "length k = 32 \<Longrightarrow> length (snd (welcome_chain P n k)) = 32"
  "\<forall>t\<in>set (fst (welcome_chain P n k)). length t = 32"
  by (induction n arbitrary: k) (auto simp: Let_def case_prod_unfold key_length)

lemma welcome_ok:
  assumes "length k = 32"
  shows "advance_group_chain_key_by_welcome (suite_of P raw) (buf k) = Some (buf (welcome_key P k))"
  using assms grp.key_call [of k SALT_welcome GROUP_CHAIN_KEY_SEED]
  by (simp add: advance_group_chain_key_by_welcome_def welcome_key_def)

lemma add_ok:
  assumes "length k = 32" "length k' = 32"
  shows "advance_group_chain_key_by_add (suite_of P raw) (buf k) (buf k') = Some (buf (add_key P k))"
  using assms grp.key_call [of k SALT_add GROUP_CHAIN_KEY_SEED]
  by (simp add: advance_group_chain_key_by_add_def add_key_def overwrite_protobuf_from_array_def buf_def)

lemma welcome_loop_ok:
  assumes "length k = 32"
  shows "welcome_loop (suite_of P raw) n (buf k) = Some (map buf (fst (welcome_chain P n k)), buf (snd (welcome_chain P n k)))"
  using assms
  by (induction n arbitrary: k) (simp_all add: welcome_ok add_ok key_length Let_def case_prod_unfold)

lemma advance_chain_keys_ok:
  assumes "length k = 32"
  shows "advance_chain_keys (suite_of P raw) n None (buf k) =
      Some (map buf (fst (welcome_chain P n k)), None, buf (snd (welcome_chain P n k)))"
    and "length k' = 32 \<Longrightarrow> advance_chain_keys (suite_of P raw) n (Some (buf k')) (buf k) =
      Some (map buf (fst (welcome_chain P n k')), Some (buf (snd (welcome_chain P n k'))), buf (add_key P k))"
  using assms by (simp_all add: advance_chain_keys_def welcome_loop_ok add_ok)

subsection \<open>The sessions\<close>

lemma renew_inbound_ok:
  assumes "is_valid_group_session P (Some x) = Some True" "gs_e2ees_pack_id x = raw" "gs_chain_key x = buf k" "length k = 32"
    and "wf_group_info D gi" and "case key of None \<Rightarrow> True | Some t \<Rightarrow> t \<noteq> []"
  shows "renew_inbound_group_session_by_welcome_and_add H P D w (map_option buf key) (Some x) (Some gi) =
    Some (0, Some (renewed P gi key x), hs_store_group_session H w (renewed P gi key x))"
proof (cases key)
  case None
  then show ?thesis
    using assms by (simp add: renew_inbound_group_session_by_welcome_and_add_def group_info_copy.copy_id renewed_def add_ok Let_def)
next
  case (Some t)
  then have "copy_protobuf_from_protobuf ((buf k)\<lparr>pb_data := free_mem (Some k) (length k)\<rparr>) (buf t) = Some (buf t)"
    using assms(6) by (simp add: copy_protobuf_from_protobuf_def free_mem_def)
  then show ?thesis
    using assms Some by (simp add: renew_inbound_group_session_by_welcome_and_add_def group_info_copy.copy_id renewed_def buf_def Let_def)
qed

lemma add_inbound_ok:
  assumes g: "is_valid_group_session_no_chain_key P (Some g) = Some True" "gs_session_owner g = Some owner" "good_address D owner"
      "gs_group_info g = Some gi" "wf_group_info D gi" "gs_e2ees_pack_id g = raw"
    and dev: "good_address D (fst dev)" "length (snd dev) = pr_sign_pk_bytes P d" and k: "k \<noteq> []"
  shows "new_and_complete_inbound_group_session_with_chain_key H P D w (device_info dev) (Some g) (Some (buf k)) =
    Some (0, hs_store_group_session H w (session_with D g dev k))"
proof -
  have "snd dev \<noteq> []" using dev(2) grp.sign_sizes(1) by auto
  moreover obtain v sid where "gs_version g = Some v" "gs_session_id g = Some sid"
    using g(1) by (auto simp: is_valid_group_session_no_chain_key_def is_valid_string_def split: if_splits option.splits)
  moreover have "group_associated_data (suite_of P raw) (Some (snd dev)) = Some (buf (snd dev @ snd dev))"
    using dev(2) grp.ds_paramE by (metis root_key(3) [of "replicate 32 0"] length_replicate order_refl)
  ultimately show ?thesis using g dev k
    by (simp add: new_and_complete_inbound_group_session_with_chain_key_def is_valid_group_member_info_def good_address_def
        insert_inbound_group_session_data_def address_copy.copy_id group_info_copy.copy_id session_with_def init_group_session_def copy_simps Let_def)
qed

lemma renew_inbound_loop_ok:
  assumes g: "gs_session_owner g = Some owner" "user_address owner" "gs_group_info g = Some gi" "wf_group_info D gi"
    and sender: "user_address sender" and key: "case key of None \<Rightarrow> True | Some t \<Rightarrow> t \<noteq> []"
    and xs: "\<forall>x\<in>set xs. group_entry P raw x" and "i + n = length xs"
  shows "renew_inbound_loop H P D g (map_option buf key) (Some sender) (Some (map Some xs)) i n w =
    Some (store_sessions H (map (\<lambda>x. renewed P gi (if is_from sender x then key else None) x) (filter (\<lambda>x. \<not> is_from owner x) (drop i xs))) w)"
  using assms(8)
proof (induction n arbitrary: i w)
  case 0
  then show ?case by simp
next
  case (Suc n)
  then have i: "i < length xs" by simp
  then have drop: "drop i xs = xs ! i # drop (Suc i) xs" by (simp add: Cons_nth_drop_Suc)
  note IH = Suc.IH [of "Suc i", simplified]
  obtain s k where x: "gs_sender (xs ! i) = Some s" "user_address s" "gs_chain_key (xs ! i) = buf k" "length k = 32"
      "is_valid_group_session P (Some (xs ! i)) = Some True" "gs_e2ees_pack_id (xs ! i) = raw"
    using nth_mem [OF i] xs unfolding group_entry_def by metis
  have own: "compare_address (Some owner) (gs_sender (xs ! i)) = Some (is_from owner (xs ! i))"
      "compare_address (Some sender) (gs_sender (xs ! i)) = Some (is_from sender (xs ! i))"
    using compare_is_from [OF _ x(1,2)] g(2) sender by simp_all
  let ?key = "if is_from sender (xs ! i) then key else None"
  have "(if is_from sender (xs ! i) then map_option buf key else None) = map_option buf ?key" by simp
  moreover have "case ?key of None \<Rightarrow> True | Some t \<Rightarrow> t \<noteq> []" using key by simp
  note renew_inbound_ok [OF x(5,6,3,4) g(4) this, of H]
  ultimately show ?case
    using i IH Suc.prems own x(1,2) g(1,3) sender by (auto simp: drop array_get_def user_address_def)
qed

lemma add_inbound_loop_ok:
  assumes g: "is_valid_group_session_no_chain_key P (Some g) = Some True" "gs_session_owner g = Some owner" "good_address D owner"
      "gs_group_info g = Some gi" "wf_group_info D gi" "gs_e2ees_pack_id g = raw"
    and devs: "\<forall>dev\<in>set devs. good_address D (fst dev) \<and> length (snd dev) = pr_sign_pk_bytes P d"
    and ks: "\<forall>k\<in>set ks. k \<noteq> []" and "i + length ks = length devs"
  shows "add_inbound_loop H P D g (Some (map device_info devs)) i (map buf ks) w =
    Some (store_sessions H (map2 (session_with D g) (drop i devs) ks) w)"
  using ks assms(9)
proof (induction ks arbitrary: i w)
  case Nil
  then show ?case by simp
next
  case (Cons k ks)
  then have i: "i < length devs" by simp
  then have drop: "drop i devs = devs ! i # drop (Suc i) devs" by (simp add: Cons_nth_drop_Suc)
  have "new_and_complete_inbound_group_session_with_chain_key H P D w (device_info (devs ! i)) (Some g) (Some (buf k)) =
      Some (0, hs_store_group_session H w (session_with D g (devs ! i) k))"
    using devs i Cons.prems(1) by (intro add_inbound_ok [OF g]) auto
  then show ?case using i Cons.IH [of "Suc i"] Cons.prems by (simp add: drop array_get_def)
qed

end

subsection \<open>The whole addition\<close>

text \<open>The members of a group with \<open>ys\<close> added.\<close>

definition with_members :: "group_info \<Rightarrow> group_member ptr list \<Rightarrow> group_info" where
  "with_members gi ys = gi\<lparr>gi_n_group_member_list := gi_n_group_member_list gi + length ys,
     gi_group_member_list := map_option (\<lambda>xs. xs @ ys) (gi_group_member_list gi)\<rparr>"

definition good_members :: "gen_defaults \<Rightarrow> group_member ptr list \<Rightarrow> bool" where
  "good_members D ys \<longleftrightarrow> list_all (set_ptr (wf_member D)) ys \<and> list_all is_valid_group_member ys \<and> ys \<noteq> []"

lemma with_members_ok:
  assumes gi: "good_group D gadr gi" and ys: "good_members D ys"
  shows "add_group_members_to_group_info D gi (Some ys) (length ys) = Some (with_members gi ys)"
    and "good_group D gadr (with_members gi ys)" and "is_valid_group_member_list (Some ys) (length ys) = Some True"
proof -
  obtain xs where xs: "gi_group_member_list gi = Some xs" "length xs = gi_n_group_member_list gi" "list_all (set_ptr (wf_member D)) xs"
    using gi by (auto simp: good_group_def wf_group_info_def)
  show "is_valid_group_member_list (Some ys) (length ys) = Some True"
    using ys by (simp add: is_valid_group_member_list_def valid_array_eq good_members_def)
  show "add_group_members_to_group_info D gi (Some ys) (length ys) = Some (with_members gi ys)"
    using add_members_eq [OF _ xs(1)] gi ys xs by (simp add: good_group_def good_members_def with_members_def)
  have "is_valid_group_member_list (Some xs) (length xs) = Some True" using good_groupD(4) [OF gi] xs by simp
  then have "is_valid_group_member_list (Some (xs @ ys)) (length xs + length ys) = Some True"
    using ys by (simp add: is_valid_group_member_list_def valid_array_eq good_members_def)
  then show "good_group D gadr (with_members gi ys)"
    using gi ys xs by (auto simp: good_group_def with_members_def wf_group_info_def is_valid_group_info_def good_members_def split: if_splits)
qed

text \<open>The keys of the added devices, the key for the session with the device that added them, and the own new chain key.\<close>

definition keys_after :: "prims \<Rightarrow> nat \<Rightarrow> bytes option \<Rightarrow> bytes \<Rightarrow> bytes list \<times> bytes option \<times> bytes" where
  "keys_after P n key k =
     (case key of None \<Rightarrow> (fst (welcome_chain P n k), None, snd (welcome_chain P n k))
      | Some t \<Rightarrow> (fst (welcome_chain P n t), Some (snd (welcome_chain P n t)), add_key P k))"

text \<open>
  The database of a device: \<open>stored\<close> are its sessions of the group, which a store of the own session
  replaces without touching the others.
\<close>

definition sessions_documented :: "'w host \<Rightarrow> address \<Rightarrow> address \<Rightarrow> ('w \<Rightarrow> group_session list) \<Rightarrow> bool" where
  "sessions_documented H owner gadr stored \<longleftrightarrow>
     (\<forall>w. hs_load_group_sessions H w (Some owner) (Some gadr) = (length (stored w), Some (map Some (stored w)))) \<and>
     (\<forall>w x. is_from owner x \<longrightarrow> set (stored (hs_store_group_session H w x)) \<subseteq> insert x (set (stored w)) \<and>
        filter (\<lambda>y. \<not> is_from owner y) (stored (hs_store_group_session H w x)) = filter (\<lambda>y. \<not> is_from owner y) (stored w))"

text \<open>The own session \<open>g\<close> of a device of the group.\<close>

definition own_session :: "prims \<Rightarrow> gen_defaults \<Rightarrow> u32 \<Rightarrow> address \<Rightarrow> address \<Rightarrow> group_info \<Rightarrow> bytes \<Rightarrow> group_session \<Rightarrow> bool" where
  "own_session P D raw owner gadr gi k g \<longleftrightarrow>
     good_address D owner \<and> user_address owner \<and> gs_session_owner g = Some owner \<and> gs_sender g = Some owner \<and>
     gs_group_info g = Some gi \<and> good_group D gadr gi \<and> gs_chain_key g = buf k \<and> length k = 32 \<and>
     is_valid_group_session P (Some g) = Some True \<and> gs_e2ees_pack_id g = raw"

text \<open>The key material of the group as the device with the session \<open>g\<close> packs it for an added one.\<close>

definition update_bundle :: "group_session \<Rightarrow> bool \<Rightarrow> bytes \<Rightarrow> (address \<times> bytes) list \<Rightarrow> group_update_key_bundle" where
  "update_bundle g adding vk devs =
     \<lparr>guk_version = gs_version g, guk_e2ees_pack_id = gs_e2ees_pack_id g, guk_session_id = gs_session_id g, guk_sender = gs_sender g,
      guk_adding = adding, guk_group_info = gs_group_info g, guk_sequence = gs_sequence g, guk_chain_key = gs_chain_key g,
      guk_sign_public_key = buf vk, guk_n_adding_member_info_list = length devs, guk_adding_member_info_list = Some (map device_info devs)\<rparr>"

text \<open>The sessions a device stores: its own, those of the other devices renewed, and those for the added devices.\<close>

definition own_after :: "prims \<Rightarrow> group_info \<Rightarrow> nat \<Rightarrow> bytes option \<Rightarrow> bytes \<Rightarrow> group_session \<Rightarrow> group_session" where
  "own_after P gi n key k g = g\<lparr>gs_group_info := Some gi, gs_chain_key := buf (snd (snd (keys_after P n key k))), gs_sequence := 0\<rparr>"

definition others_after :: "prims \<Rightarrow> address \<Rightarrow> address \<Rightarrow> group_info \<Rightarrow> nat \<Rightarrow> bytes option \<Rightarrow> bytes \<Rightarrow> group_session list \<Rightarrow> group_session list" where
  "others_after P owner sender gi n key k xs =
     map (\<lambda>x. renewed P gi (if is_from sender x then fst (snd (keys_after P n key k)) else None) x) (filter (\<lambda>x. \<not> is_from owner x) xs)"

definition new_after :: "prims \<Rightarrow> gen_defaults \<Rightarrow> bytes option \<Rightarrow> bytes \<Rightarrow> group_session \<Rightarrow> (address \<times> bytes) list \<Rightarrow> group_session list" where
  "new_after P D key k g devs = map2 (session_with D g) devs (fst (keys_after P (length devs) key k))"

lemma own_session_with:
  assumes "own_session P D raw owner gadr gi k g" and "good_members D ys"
  shows "own_session P D raw owner gadr (with_members gi ys) k (g\<lparr>gs_group_info := Some (with_members gi ys)\<rparr>)"
proof -
  have gi: "good_group D gadr (with_members gi ys)" using with_members_ok(2) assms by (auto simp: own_session_def)
  then have "is_valid_group_info (Some (with_members gi ys)) = Some True" by (simp add: good_group_def)
  then show ?thesis using assms(1) gi
    by (auto simp: own_session_def is_valid_group_session_def and_then_def bind_eq_Some_conv split: if_splits)
qed

context library_group
begin

lemma keys_after_length:
  assumes "length k = 32" and "case key of None \<Rightarrow> True | Some t \<Rightarrow> length t = 32"
  shows "length (snd (snd (keys_after P n key k))) = 32" "\<forall>t\<in>set (fst (keys_after P n key k)). t \<noteq> []"
    "length (fst (keys_after P n key k)) = n"
    "case fst (snd (keys_after P n key k)) of None \<Rightarrow> True | Some t \<Rightarrow> t \<noteq> []"
proof -
  have ne: "t \<noteq> []" if "length t = 32" for t :: bytes using that by auto
  show "length (snd (snd (keys_after P n key k))) = 32" "length (fst (keys_after P n key k)) = n"
      "\<forall>t\<in>set (fst (keys_after P n key k)). t \<noteq> []" "case fst (snd (keys_after P n key k)) of None \<Rightarrow> True | Some t \<Rightarrow> t \<noteq> []"
    using assms welcome_chain_length key_length by (auto simp: keys_after_def split: option.splits intro!: ne)
qed

lemma renew_outbound_ok:
  assumes g: "own_session P D raw owner gadr gi k g"
    and own: "own_key_and_auth H cache w (Some owner) = Some (0, Some (buf vk), auth)" "vk \<noteq> []"
    and sender: "good_address D sender" "user_address sender"
    and key: "case key of None \<Rightarrow> True | Some t \<Rightarrow> length t = 32"
    and devs: "\<forall>dev\<in>set devs. good_address D (fst dev) \<and> length (snd dev) = pr_sign_pk_bytes P d" "devs \<noteq> []"
    and ys: "good_members D ys"
    and send: "\<And>data. \<exists>w1 s1. send_key_to_members_loop H P D cache (Some owner) auth data (Some ys) 0 (length ys) w s = Some (w1, s1) \<and>
      stored w1 = stored w"
    and db: "sessions_documented H owner gadr stored" and entries: "\<forall>x\<in>set (stored w). group_entry P raw x"
  defines "gi' \<equiv> with_members gi ys"
  defines "g' \<equiv> own_after P gi' (length devs) key k g"
  shows "\<exists>w1 s1. renew_outbound_group_session_by_welcome_and_add H P D cache w s (Some g) (map_option buf key) (Some sender)
      (length devs) (Some (map device_info devs)) (length ys) (Some ys) =
    Some (0, Some g', store_sessions H (g' # others_after P owner sender gi' (length devs) key k (stored w) @ new_after P D key k g' devs) w1, s1) \<and>
    stored w1 = stored w \<and>
    send_key_to_members_loop H P D cache (Some owner) auth
      (pack_group_ratchet_state H (update_bundle (g\<lparr>gs_group_info := Some gi'\<rparr>) (key = None) vk devs)) (Some ys) 0 (length ys) w s = Some (w1, s1)"
proof -
  have gd: "good_address D owner" "user_address owner" "gs_session_owner g = Some owner" "gs_sender g = Some owner"
      "gs_group_info g = Some gi" "good_group D gadr gi" "gs_chain_key g = buf k" "length k = 32"
      "is_valid_group_session P (Some g) = Some True" "gs_e2ees_pack_id g = raw"
    using g by (simp_all add: own_session_def)
  note gi' = with_members_ok [OF gd(6) ys, folded gi'_def]
  have wf: "wf_group_info D gi" "wf_group_info D gi'" "gi_group_address gi' = Some gadr" "is_valid_group_info (Some gi') = Some True"
    using gd(6) gi'(2) by (simp_all add: good_group_def)
  note kl = keys_after_length [OF gd(8) key, of "length devs"]
  obtain v sid where strings: "gs_version g = Some v" "gs_session_id g = Some sid"
    using gd(9) by (auto simp: is_valid_group_session_def is_valid_string_def split: if_splits option.splits)
  have ne: "snd dev \<noteq> []" if "dev \<in> set devs" for dev using devs(1) that grp.sign_sizes(1) by fastforce
  then have infos: "is_valid_group_member_info_list (Some (map device_info devs)) (length devs) = Some True"
      "copy_group_member_ids D (Some (map device_info devs)) (length devs) = Some (map device_info devs)"
    using devs info_copy.array_id [of "length devs" "map device_info devs" D]
    by (auto simp: is_valid_group_member_info_list_def valid_array_eq list_all_iff is_valid_group_member_info_def good_address_def
        copy_group_member_ids_def wf_member_info_def)
  have "k \<noteq> []" using gd(8) by auto
  define data where "data = pack_group_ratchet_state H (update_bundle (g\<lparr>gs_group_info := Some gi'\<rparr>) (key = None) vk devs)"
  have data: "pack_group_ratchet_state_plaintext H D (g\<lparr>gs_group_info := Some gi'\<rparr>) (map_option buf key = None) (buf vk)
      (length devs) (Some (map device_info devs)) = Some data"
    using \<open>k \<noteq> []\<close> strings gd(1,4,7,8) wf own(2) infos(2)
    by (auto simp: pack_group_ratchet_state_plaintext_def good_address_def address_copy.copy_id group_info_copy.copy_id copy_simps data_def update_bundle_def)
  obtain w1 s1 where w1: "send_key_to_members_loop H P D cache (Some owner) auth data (Some ys) 0 (length ys) w s = Some (w1, s1)"
      "stored w1 = stored w" using send by blast
  have keys: "advance_chain_keys (suite_of P raw) (length devs) (map_option buf key) (buf k) =
      Some (map buf (fst (keys_after P (length devs) key k)), map_option buf (fst (snd (keys_after P (length devs) key k))),
        buf (snd (snd (keys_after P (length devs) key k))))"
    using advance_chain_keys_ok [OF gd(8)] key by (cases key) (simp_all add: keys_after_def)
  have valid': "is_valid_group_session P (Some g') = Some True" "is_valid_group_session_no_chain_key P (Some g') = Some True"
    using gd(9) wf(4) kl(1)
    by (auto simp: g'_def own_after_def is_valid_group_session_def is_valid_group_session_no_chain_key_def and_then_def bind_eq_Some_conv split: if_splits)
  have g': "gs_session_owner g' = Some owner" "gs_group_info g' = Some gi'" "gs_e2ees_pack_id g' = raw" "is_from owner g'"
    using gd by (simp_all add: g'_def own_after_def is_from_def)
  have entry': "group_entry P raw g'"
    using valid' gd kl(1) by (auto simp: group_entry_def g'_def own_after_def)
  let ?w2 = "hs_store_group_session H w1 g'"
  have db': "set (stored ?w2) \<subseteq> insert g' (set (stored w))"
    using db g'(4) w1(2) unfolding sessions_documented_def by metis
  have stored: "hs_load_group_sessions H ?w2 (Some owner) (Some gadr) = (length (stored ?w2), Some (map Some (stored ?w2)))"
      "\<forall>x\<in>set (stored ?w2). group_entry P raw x" "filter (\<lambda>x. \<not> is_from owner x) (stored ?w2) = filter (\<lambda>x. \<not> is_from owner x) (stored w)"
    using db g'(4) entry' entries w1(2) db' by (auto simp: sessions_documented_def)
  have renew: "renew_inbound_loop H P D g' (map_option buf (fst (snd (keys_after P (length devs) key k)))) (Some sender)
      (Some (map Some (stored ?w2))) 0 (length (stored ?w2)) v = Some (store_sessions H (others_after P owner sender gi' (length devs) key k (stored w)) v)" for v
    using renew_inbound_loop_ok [OF g'(1) gd(2) g'(2) wf(2) sender(2) kl(4) stored(2), of 0 "length (stored ?w2)" H v] stored(3) by (simp add: others_after_def)
  have add: "add_inbound_loop H P D g' (Some (map device_info devs)) 0 (map buf (fst (keys_after P (length devs) key k))) v =
      Some (store_sessions H (new_after P D key k g' devs) v)" for v
    using add_inbound_loop_ok [OF valid'(2) g'(1) gd(1) g'(2) wf(2) g'(3) devs(1) kl(2), of 0] kl(3) by (simp add: new_after_def)
  have none: "others_after P owner sender gi' (length devs) key k (stored w) = []" if "stored ?w2 = []"
    using stored(3) that by (simp add: others_after_def)
  show ?thesis
    using devs(2) gd own sender(1) infos(1) gi'(1,3) wf(1,3) data w1(1) keys stored(1) renew add none w1(2)
    by (intro exI [of _ w1] exI [of _ s1] conjI)
      (auto simp: data_def [symmetric] renew_outbound_group_session_by_welcome_and_add_def good_address_def group_info_copy.copy_id Let_def g'_def own_after_def)
qed

text \<open>The device that adds the members, on the server's answer.\<close>

lemma addition_by_adder:
  assumes g: "own_session P D raw owner gadr gi k g"
    and own: "own_key_and_auth (pg_host G) cache w (Some owner) = Some (0, Some (buf vk), auth)" "vk \<noteq> []"
    and devs: "\<forall>dev\<in>set devs. good_address D (fst dev) \<and> length (snd dev) = pr_sign_pk_bytes P d" "devs \<noteq> []"
    and ys: "good_members D ys"
    and send: "\<And>data. \<exists>w1 s1. send_key_to_members_loop (pg_host G) P D cache (Some owner) auth data (Some ys) 0 (length ys) w s =
      Some (w1, s1) \<and> stored w1 = stored w"
    and db: "sessions_documented (pg_host G) owner gadr stored" "\<forall>x\<in>set (stored w). group_entry P raw x"
    and r: "is_valid_add_group_members_response (Some r) = Some True" "ags_n_adding_member_info_list r = length devs"
      "ags_adding_member_info_list r = Some (map device_info devs)"
  defines "gi' \<equiv> with_members gi ys"
  defines "g' \<equiv> own_after P gi' (length devs) None k g"
  shows "\<exists>w1 s1. consume_add_group_members_response G P D cache w s (Some g) (Some r) (Some ys) (length ys) =
    Some (0, pg_on_group_members_added G
      (store_sessions (pg_host G) (g' # others_after P owner owner gi' (length devs) None k (stored w) @ new_after P D None k g' devs) w1)
      (Some owner) (Some gadr) (gi_group_name gi') (ags_group_member_list r) (ags_n_group_member_list r) (Some ys) (length ys), s1) \<and>
    send_key_to_members_loop (pg_host G) P D cache (Some owner) auth
      (pack_group_ratchet_state (pg_host G) (update_bundle (g\<lparr>gs_group_info := Some gi'\<rparr>) True vk devs)) (Some ys) 0 (length ys) w s = Some (w1, s1)"
proof -
  have gd: "good_address D owner" "user_address owner" "is_valid_group_session P (Some g) = Some True" "gs_session_owner g = Some owner"
      "good_group D gadr gi"
    using g by (simp_all add: own_session_def)
  note gi' = with_members_ok [OF gd(5) ys]
  obtain w1 s1 where run: "renew_outbound_group_session_by_welcome_and_add (pg_host G) P D cache w s (Some g) None (Some owner)
      (length devs) (Some (map device_info devs)) (length ys) (Some ys) = Some (0, Some g', store_sessions (pg_host G)
        (g' # others_after P owner owner gi' (length devs) None k (stored w) @ new_after P D None k g' devs) w1, s1)"
      "send_key_to_members_loop (pg_host G) P D cache (Some owner) auth
        (pack_group_ratchet_state (pg_host G) (update_bundle (g\<lparr>gs_group_info := Some gi'\<rparr>) True vk devs)) (Some ys) 0 (length ys) w s = Some (w1, s1)"
    using renew_outbound_ok [OF g own gd(1,2) _ devs ys send db, of None] by (auto simp: g'_def gi'_def)
  have "gs_group_info g' = Some gi'" "gi_group_address gi' = Some gadr" "gs_session_owner g' = Some owner"
    using gi'(2) gd(4) by (simp_all add: g'_def own_after_def gi'_def good_group_def)
  then show ?thesis using gd gi'(3) r run
    by (intro exI [of _ w1] exI [of _ s1]) (simp add: consume_add_group_members_response_def e2ees_notify_group_members_added_def)
qed

text \<open>Another device of the group, on the message about the addition by the device \<open>sender\<close>.\<close>

lemma addition_by_member:
  assumes g: "own_session P D raw owner gadr gi k g"
    and own: "own_key_and_auth (pg_host G) cache w (Some owner) = Some (0, Some (buf vk), auth)" "vk \<noteq> []"
    and sender: "good_address D sender" "user_address sender"
    and devs: "\<forall>dev\<in>set devs. good_address D (fst dev) \<and> length (snd dev) = pr_sign_pk_bytes P d" "devs \<noteq> []"
    and ys: "good_members D ys"
    and send: "\<And>data. \<exists>w1 s1. send_key_to_members_loop (pg_host G) P D cache (Some owner) auth data (Some ys) 0 (length ys) w s =
      Some (w1, s1) \<and> stored w1 = stored w"
    and db: "sessions_documented (pg_host G) owner gadr stored" "\<forall>x\<in>set (stored w). group_entry P raw x"
    and load: "hs_load_group_session_by_address (pg_host G) w (Some owner) (Some owner) (Some gadr) = Some g"
      "hs_load_group_session_by_id (pg_host G) w (Some sender) (Some owner) (gs_session_id g) = Some x" "group_entry P raw x"
    and m: "is_valid_add_group_members_msg P (Some m) = Some True" "agm_sender_address m = Some sender"
      "map_option gi_group_address (agm_group_info m) = Some (Some gadr)"
      "agm_n_adding_member_info_list m = length devs" "agm_adding_member_info_list m = Some (map device_info devs)"
      "agm_n_adding_member_list m = length ys" "agm_adding_member_list m = Some ys"
  defines "t \<equiv> group_chain_at (std_mac P) (group_chain_of x) (unat (agm_sequence m) - unat (gs_sequence x))"
  defines "gi' \<equiv> with_members gi ys"
  defines "g' \<equiv> own_after P gi' (length devs) (Some t) k g"
  shows "\<exists>w1 s1 info. agm_group_info m = Some info \<and> consume_add_group_members_msg G P D cache w s (Some owner) (Some m) =
    Some (True, pg_on_group_members_added G
      (store_sessions (pg_host G) (g' # others_after P owner sender gi' (length devs) (Some t) k (stored w) @ new_after P D (Some t) k g' devs) w1)
      (Some owner) (Some gadr) (gi_group_name info) (gi_group_member_list info) (gi_n_group_member_list info) (Some ys) (length ys), s1) \<and>
    send_key_to_members_loop (pg_host G) P D cache (Some owner) auth
      (pack_group_ratchet_state (pg_host G) (update_bundle (g\<lparr>gs_group_info := Some gi'\<rparr>) False vk devs)) (Some ys) 0 (length ys) w s = Some (w1, s1)"
proof -
  have gd: "good_address D owner" "is_valid_group_session P (Some g) = Some True" using g by (simp_all add: own_session_def)
  obtain k' where x: "gs_chain_key x = buf k'" "length k' = 32" "is_valid_group_session P (Some x) = Some True" "gs_e2ees_pack_id x = raw"
    using load(3) by (auto simp: group_entry_def)
  have advance: "advance_group_to (suite_of P raw) x (agm_sequence m) =
      Some (x\<lparr>gs_chain_key := buf t, gs_sequence := max (gs_sequence x) (agm_sequence m)\<rparr>)"
    using grp.advance_total [OF x(1,2)] x(1) by (simp add: t_def)
  have t: "length t = 32" using grp.chain_length [OF x(2)] x(1) by (simp add: t_def)
  obtain info where info: "agm_group_info m = Some info" "gi_group_address info = Some gadr" using m(3) by auto
  obtain w1 s1 where run: "renew_outbound_group_session_by_welcome_and_add (pg_host G) P D cache w s (Some g) (Some (buf t)) (Some sender)
      (length devs) (Some (map device_info devs)) (length ys) (Some ys) = Some (0, Some g', store_sessions (pg_host G)
        (g' # others_after P owner sender gi' (length devs) (Some t) k (stored w) @ new_after P D (Some t) k g' devs) w1, s1)"
      "send_key_to_members_loop (pg_host G) P D cache (Some owner) auth
        (pack_group_ratchet_state (pg_host G) (update_bundle (g\<lparr>gs_group_info := Some gi'\<rparr>) False vk devs)) (Some ys) 0 (length ys) w s = Some (w1, s1)"
    using renew_outbound_ok [OF g own sender _ devs ys send db, of "Some t"] t by (auto simp: g'_def gi'_def)
  have "sessions_of_addition (pg_host G) P w (Some owner) (Some sender) (Some gadr) = Some (Some (g, x))"
    using load gd(2) x(3) by (simp add: sessions_of_addition_def)
  then show ?thesis using gd(1) m info advance run x(4)
    by (intro exI [of _ w1] exI [of _ s1] exI [of _ info]) (simp add: consume_add_group_members_msg_def good_address_def e2ees_notify_group_members_added_def)
qed

end

subsection \<open>The added device\<close>

abbreviation own_entry :: "address \<Rightarrow> address \<times> bytes \<Rightarrow> bool" where
  "own_entry user dev \<equiv> address_id (fst dev) = address_id user"

text \<open>The outbound session of an added device, made from a bundle, and its session with the sender of the bundle.\<close>

definition invited_session :: "gen_defaults \<Rightarrow> address \<Rightarrow> bytes \<Rightarrow> group_session \<Rightarrow> group_session" where
  "invited_session D user vk g = (init_group_session D)\<lparr>gs_version := gs_version g, gs_e2ees_pack_id := gs_e2ees_pack_id g,
     gs_sender := Some user, gs_session_owner := Some user, gs_session_id := gs_session_id g, gs_group_info := gs_group_info g,
     gs_associated_data := buf (vk @ vk)\<rparr>"

definition invited_inbound :: "gen_defaults \<Rightarrow> address \<Rightarrow> bytes \<Rightarrow> bytes \<Rightarrow> group_session \<Rightarrow> group_session" where
  "invited_inbound D user vk k g = (init_group_session D)\<lparr>gs_version := gs_version g, gs_e2ees_pack_id := gs_e2ees_pack_id g,
     gs_session_id := gs_session_id g, gs_sender := gs_sender g, gs_session_owner := Some user, gs_group_info := gs_group_info g,
     gs_chain_key := buf k, gs_sequence := 0, gs_associated_data := buf (vk @ vk)\<rparr>"

lemma session_with_chain [simp]: "session_with D (g\<lparr>gs_chain_key := c, gs_sequence := n\<rparr>) = session_with D g"
  by (intro ext) (simp add: session_with_def)

context library_group
begin

lemma invited_loop_ok:
  assumes g: "is_valid_group_session_no_chain_key P (Some g) = Some True" "gs_session_owner g = Some user" "good_address D user" "user_address user"
      "gs_group_info g = Some gi" "wf_group_info D gi" "gs_e2ees_pack_id g = raw"
    and devs: "\<forall>dev\<in>set devs. good_address D (fst dev) \<and> user_address (fst dev) \<and> length (snd dev) = pr_sign_pk_bytes P d"
    and "distinct (map (address_id \<circ> fst) devs)" and "length k = 32" and "i + n = length devs"
  defines "keys \<equiv> \<lambda>i n k. zip (drop i devs) (fst (welcome_chain P n k))"
  shows "invited_loop H P D (suite_of P raw) (Some user) (Some (map device_info devs)) i n w g (buf k) =
    Some (store_sessions H (map (\<lambda>(dev, t). session_with D g dev t) (filter (\<lambda>(dev, t). \<not> own_entry user dev) (keys i n k))) w,
      case find (\<lambda>(dev, t). own_entry user dev) (keys i n k) of None \<Rightarrow> g | Some (dev, t) \<Rightarrow> g\<lparr>gs_chain_key := buf t, gs_sequence := 0\<rparr>,
      buf (snd (welcome_chain P n k)))"
  using g(1,2,5,7) assms(10,11)
proof (induction n arbitrary: i w g k)
  case 0
  then show ?case by (simp add: keys_def)
next
  case (Suc n)
  then have i: "i < length devs" by simp
  let ?t = "welcome_key P k"
  have keys: "keys i (Suc n) k = (devs ! i, ?t) # keys (Suc i) n (add_key P ?t)"
    using i by (simp add: keys_def Let_def case_prod_unfold flip: Cons_nth_drop_Suc)
  have dev: "good_address D (fst (devs ! i))" "user_address (fst (devs ! i))" "length (snd (devs ! i)) = pr_sign_pk_bytes P d"
    using devs i by simp_all
  have own: "compare_address (Some (fst (devs ! i))) (Some user) = Some (own_entry user (devs ! i))"
    using compare_address_id [OF user_address_peer user_address_peer, OF dev(2) g(4)] by simp
  have step: "advance_group_chain_key_by_welcome (suite_of P raw) (buf k) = Some (buf ?t)"
      "advance_group_chain_key_by_add (suite_of P raw) (buf ?t) (buf k) = Some (buf (add_key P ?t))" "?t \<noteq> []"
    using welcome_ok [OF Suc.prems(5)] add_ok [OF key_length(1) Suc.prems(5)] key_length(1) [of k] by auto
  note add = add_inbound_ok [OF Suc.prems(1,2) g(3) Suc.prems(3) g(6) Suc.prems(4) dev(1,3) step(3), of H w]
  show ?case
  proof (cases "own_entry user (devs ! i)")
    case True
    let ?g = "g\<lparr>gs_chain_key := buf ?t, gs_sequence := 0\<rparr>"
    have "is_valid_group_session_no_chain_key P (Some ?g) = Some True" using Suc.prems(1) by (auto simp: is_valid_group_session_no_chain_key_def split: if_splits)
    note IH = Suc.IH [OF this, of "add_key P ?t" "Suc i" w, simplified, OF Suc.prems(2-4) key_length(2)]
    have "\<not> own_entry user dev" if "dev \<in> set (drop (Suc i) devs)" for dev
    proof -
      have "distinct (map (address_id \<circ> fst) (drop i devs))" using assms(9) by (simp flip: drop_map)
      then have "address_id (fst (devs ! i)) \<notin> address_id ` fst ` set (drop (Suc i) devs)"
        using i by (simp add: image_comp flip: Cons_nth_drop_Suc)
      moreover have "address_id (fst dev) \<in> address_id ` fst ` set (drop (Suc i) devs)" using that by (intro imageI)
      ultimately show ?thesis using True by metis
    qed
    then have "find (\<lambda>(dev, t). own_entry user dev) (keys (Suc i) n (add_key P ?t)) = None"
      by (auto simp: find_None_iff keys_def dest: set_zip_leftD)
    then show ?thesis using IH Suc.prems i own step True
      by (simp add: keys array_get_def Let_def case_prod_unfold copy_protobuf_from_protobuf_def buf_def)
  next
    case False
    show ?thesis using Suc.IH [OF Suc.prems(1-4) key_length(2), of "Suc i"] Suc.prems i own step add False
      by (simp add: keys array_get_def Let_def case_prod_unfold)
  qed
qed

lemma valid_update_bundle:
  assumes "is_valid_group_session P (Some g) = Some True" "gs_chain_key g = buf k" "k \<noteq> []" "vk \<noteq> []" "devs \<noteq> []"
    and "\<forall>dev\<in>set devs. good_address D (fst dev) \<and> length (snd dev) = pr_sign_pk_bytes P d"
  shows "is_valid_group_update_key_bundle P (Some (update_bundle g adding vk devs)) = Some True"
proof -
  have "snd dev \<noteq> []" if "dev \<in> set devs" for dev using assms(6) that grp.sign_sizes(1) by fastforce
  then have "is_valid_group_member_info_list (Some (map device_info devs)) (length devs) = Some True"
    using assms(5,6) by (auto simp: is_valid_group_member_info_list_def valid_array_eq list_all_iff is_valid_group_member_info_def good_address_def)
  then show ?thesis using assms(1-4)
    by (auto simp: is_valid_group_update_key_bundle_def update_bundle_def is_valid_group_session_def and_then_def bind_eq_Some_conv split: if_splits)
qed

lemma associated_data: "length vk = pr_sign_pk_bytes P d \<Longrightarrow> group_associated_data (suite_of P raw) (Some vk) = Some (buf (vk @ vk))"
  by (rule root_key(3) [of "replicate 32 0"]) simp_all

text \<open>The session with the sender of a bundle, which hands out its key before or after its own change.\<close>

lemma ratchet_state_ok:
  assumes g: "own_session P D raw A gadr gi k g" and vk: "length vk = pr_sign_pk_bytes P d" and user: "good_address D user"
    and devs: "\<forall>dev\<in>set devs. good_address D (fst dev) \<and> length (snd dev) = pr_sign_pk_bytes P d" "devs \<noteq> []" and t: "length t = 32"
  shows "\<exists>b. new_and_complete_inbound_group_session_with_ratchet_state H P D w
      (Some ((update_bundle g adding vk devs)\<lparr>guk_chain_key := buf t\<rparr>)) (Some user) =
    Some (0, b, hs_store_group_session H w (invited_inbound D user vk (if adding then t else add_key P t) g))"
proof -
  have gd: "is_valid_group_session P (Some g) = Some True" "gs_sender g = Some A" "good_address D A" "gs_group_info g = Some gi"
      "good_group D gadr gi" "gs_e2ees_pack_id g = raw" using g by (simp_all add: own_session_def)
  have ne: "vk \<noteq> []" "t \<noteq> []" "add_key P t \<noteq> []" using vk t grp.sign_sizes(1) key_length(2) [of t] by auto
  obtain v sid where strings: "gs_version g = Some v" "gs_session_id g = Some sid"
    using gd(1) by (auto simp: is_valid_group_session_def is_valid_string_def split: if_splits option.splits)
  have "is_valid_group_session P (Some (g\<lparr>gs_chain_key := buf t\<rparr>)) = Some True"
    using gd(1) ne(2) by (auto simp: is_valid_group_session_def and_then_def bind_eq_Some_conv split: if_splits)
  from valid_update_bundle [OF this _ ne(2,1) devs(2,1), of adding]
  have valid: "is_valid_group_update_key_bundle P (Some ((update_bundle g adding vk devs)\<lparr>guk_chain_key := buf t\<rparr>)) = Some True"
    by (simp add: update_bundle_def)
  show ?thesis using valid gd user ne strings associated_data [OF vk] add_ok [OF t t]
    by (auto simp: new_and_complete_inbound_group_session_with_ratchet_state_def good_address_def address_copy.copy_id
        good_group_def group_info_copy.copy_id copy_simps invited_inbound_def update_bundle_def init_group_session_def Let_def)
qed

lemma invited_ok:
  assumes g: "own_session P D raw A gadr gi k g" and vk: "length vk = pr_sign_pk_bytes P d"
    and user: "good_address D user" "user_address user" "own_sign_key H cache w (Some user) = Some (0, Some vku)" "length vku = pr_sign_pk_bytes P d"
    and devs: "\<forall>dev\<in>set devs. good_address D (fst dev) \<and> user_address (fst dev) \<and> length (snd dev) = pr_sign_pk_bytes P d" "devs \<noteq> []"
      "distinct (map (address_id \<circ> fst) devs)"
    and j: "j < length devs" "own_entry user (devs ! j)"
  defines "keys \<equiv> zip devs (fst (welcome_chain P (length devs) k))"
  shows "consume_group_update_key_bundle H P D cache w (Some user) (Some (update_bundle g True vk devs)) =
    Some (store_sessions H (map (\<lambda>(dev, t). session_with D (invited_session D user vku g) dev t) (filter (\<lambda>(dev, t). \<not> own_entry user dev) keys) @
      [(invited_session D user vku g)\<lparr>gs_chain_key := buf (fst (welcome_chain P (length devs) k) ! j), gs_sequence := 0\<rparr>,
       invited_inbound D user vk (snd (welcome_chain P (length devs) k)) g]) w)"
proof -
  let ?b = "update_bundle g True vk devs" and ?u = "invited_session D user vku g" and ?n = "length devs"
  let ?k' = "snd (welcome_chain P ?n k)"
  have gd: "is_valid_group_session P (Some g) = Some True" "gs_sender g = Some A" "good_address D A" "gs_group_info g = Some gi"
      "good_group D gadr gi" "gs_e2ees_pack_id g = raw" "gs_chain_key g = buf k" "length k = 32"
    using g by (simp_all add: own_session_def)
  have devs': "\<forall>dev\<in>set devs. good_address D (fst dev) \<and> length (snd dev) = pr_sign_pk_bytes P d" using devs(1) by simp
  have ne: "vk \<noteq> []" "vku \<noteq> []" "k \<noteq> []" using vk user(4) gd(8) grp.sign_sizes(1) by auto
  obtain v sid where strings: "gs_version g = Some v" "gs_session_id g = Some sid"
    using gd(1) by (auto simp: is_valid_group_session_def is_valid_string_def split: if_splits option.splits)
  have valid: "is_valid_group_update_key_bundle P (Some ?b) = Some True"
    by (rule valid_update_bundle [OF gd(1,7) ne(3,1) devs(2) devs'])
  have u: "is_valid_group_session_no_chain_key P (Some ?u) = Some True" "gs_session_owner ?u = Some user" "gs_group_info ?u = Some gi"
      "gs_e2ees_pack_id ?u = raw"
    using gd(1,4,6) user(1) ne(2)
    by (auto simp: invited_session_def is_valid_group_session_def is_valid_group_session_no_chain_key_def good_address_def and_then_def
        bind_eq_Some_conv split: if_splits)
  have wf: "wf_group_info D gi" "copy_group_info D (Some gi) = Some gi" using gd(5) by (simp_all add: good_group_def group_info_copy.copy_id)
  have key: "find (\<lambda>(dev, t). own_entry user dev) keys = Some (devs ! j, fst (welcome_chain P ?n k) ! j)"
  proof -
    have "own_entry user (devs ! i) \<longleftrightarrow> i = j" if "i < length devs" for i
      using nth_eq_iff_index_eq [OF devs(3), of i j] j that by auto
    then show ?thesis using j by (auto simp: find_Some_iff keys_def case_prod_unfold intro!: exI [of _ j])
  qed
  have loop: "invited_loop H P D (suite_of P raw) (Some user) (Some (map device_info devs)) 0 ?n w ?u (buf k) =
    Some (store_sessions H (map (\<lambda>(dev, t). session_with D ?u dev t) (filter (\<lambda>(dev, t). \<not> own_entry user dev) keys)) w,
      ?u\<lparr>gs_chain_key := buf (fst (welcome_chain P ?n k) ! j), gs_sequence := 0\<rparr>, buf ?k')"
    using invited_loop_ok [OF u(1,2) user(1,2) u(3) wf(1) u(4) devs(1,3) gd(8), of 0 ?n H w] key by (simp add: keys_def)
  have k': "length ?k' = 32" by (rule welcome_chain_length(1) [OF gd(8)])
  obtain b where state: "\<And>w. new_and_complete_inbound_group_session_with_ratchet_state H P D w (Some (?b\<lparr>guk_chain_key := buf ?k'\<rparr>)) (Some user) =
      Some (0, b w, hs_store_group_session H w (invited_inbound D user vk ?k' g))"
    using ratchet_state_ok [OF g vk user(1) devs' devs(2) k', of H _ True] by (simp add: choice_iff) metis
  have "new_outbound_group_session_invited H P D cache w (Some ?b) (Some user) = Some (0, Some (?b\<lparr>guk_chain_key := buf ?k'\<rparr>),
      hs_store_group_session H (store_sessions H (map (\<lambda>(dev, t). session_with D ?u dev t) (filter (\<lambda>(dev, t). \<not> own_entry user dev) keys)) w)
        (?u\<lparr>gs_chain_key := buf (fst (welcome_chain P ?n k) ! j), gs_sequence := 0\<rparr>))"
    using user(1,3) valid strings gd(4,6,7) wf(2) devs(2) loop associated_data [OF user(4)]
    by (simp add: new_outbound_group_session_invited_def update_bundle_def good_address_def address_copy.copy_id invited_session_def Let_def)
  moreover obtain p where "ad_user user = Some p" using user(2) by (auto simp: user_address_def)
  moreover have "guk_adding ?b" by (simp add: update_bundle_def)
  ultimately show ?thesis using state by (simp add: consume_group_update_key_bundle_def)
qed

lemma pack_update_bundle:
  assumes g: "own_session P D raw A gadr gi k g" and vk: "vk \<noteq> []"
    and devs: "\<forall>dev\<in>set devs. good_address D (fst dev) \<and> length (snd dev) = pr_sign_pk_bytes P d"
  shows "pack_group_ratchet_state_plaintext H D g adding (buf vk) (length devs) (Some (map device_info devs)) =
    Some (pack_group_ratchet_state H (update_bundle g adding vk devs))"
proof -
  have gd: "is_valid_group_session P (Some g) = Some True" "gs_sender g = Some A" "good_address D A" "gs_group_info g = Some gi"
      "good_group D gadr gi" "gs_chain_key g = buf k" "k \<noteq> []" using g by (auto simp: own_session_def)
  obtain v sid where strings: "gs_version g = Some v" "gs_session_id g = Some sid"
    using gd(1) by (auto simp: is_valid_group_session_def is_valid_string_def split: if_splits option.splits)
  have "snd dev \<noteq> []" if "dev \<in> set devs" for dev using devs that grp.sign_sizes(1) by fastforce
  then have "copy_group_member_ids D (Some (map device_info devs)) (length devs) = Some (map device_info devs)"
    using devs info_copy.array_id [of "length devs" "map device_info devs" D]
    by (auto simp: list_all_iff good_address_def copy_group_member_ids_def wf_member_info_def)
  then show ?thesis using gd strings vk
    by (simp add: pack_group_ratchet_state_plaintext_def good_address_def address_copy.copy_id good_group_def group_info_copy.copy_id
        copy_simps update_bundle_def)
qed

end

end
