(* ===== verification/Account_Manager.thy ===== *)
theory Account_Manager
  imports Messaging Account
begin

section \<open>Registration and published keys\<close>

text \<open>
  \<open>src/account_manager.c\<close> with the functions it is called from: \<open>register_user\<close>
  (\<open>src/e2ees_client.c\<close>), \<open>publish_spk_internal\<close> and \<open>supply_opks_internal\<close>
  (\<open>src/e2ees_client_internal.c\<close>) and the renewal of an expired signed pre-key (\<open>src/account.c\<close>).
  Whether the allocation of a cache entry succeeds is a parameter.
\<close>

subsection \<open>Registration\<close>

definition produce_register_request :: "register_user_params \<Rightarrow> account \<Rightarrow> (int \<times> register_user_request) option" where
  "produce_register_request params account =
     do { user_name \<leftarrow> deref (rup_user_name params); user_id \<leftarrow> deref (rup_user_id params);
          device_id \<leftarrow> deref (rup_device_id params); auth_code \<leftarrow> deref (rup_auth_code params);
          ik \<leftarrow> copy_ik_to_public (acc_identity_key account);
          spk \<leftarrow> copy_spk_to_public (acc_signed_pre_key account);
          opks \<leftarrow> copy_opk_list_to_public (acc_one_time_pre_key_list account) (acc_n_one_time_pre_key_list account);
          Some (E2EES_RESULT_SUCC,
            \<lparr>rur_e2ees_pack_id = rup_e2ees_pack_id params, rur_user_name = Some user_name, rur_user_id = Some user_id,
             rur_device_id = Some device_id, rur_authenticator = rup_authenticator params, rur_auth_code = Some auth_code,
             rur_identity_key_public = Some ik, rur_signed_pre_key_public = Some spk,
             rur_n_one_time_pre_key_list = acc_n_one_time_pre_key_list account, rur_one_time_pre_key_list = Some opks\<rparr>) }"

text \<open>
  The loops over the other devices of the user and over the other users, who have no device yet; the
  addresses are read for the log messages too.
\<close>

fun invite_own_devices_loop ::
    "'w host \<Rightarrow> prims \<Rightarrow> gen_defaults \<Rightarrow> cache \<Rightarrow> address ptr \<Rightarrow> cstr \<Rightarrow> address ptr array \<Rightarrow> nat \<Rightarrow> nat \<Rightarrow> 'w \<Rightarrow> seed \<Rightarrow>
     ('w \<times> seed) option" where
  "invite_own_devices_loop H P D cache address auth devices i 0 w s = Some (w, s)"
| "invite_own_devices_loop H P D cache address auth devices i (Suc k) w s =
     do { p \<leftarrow> array_get devices i; other \<leftarrow> deref p; u \<leftarrow> deref (ad_user other);
          (_, _, w, s) \<leftarrow> get_pre_key_bundle_internal H P D cache w s address auth (pu_user_id u) (ad_domain other)
            (pu_device_id u) False None;
          invite_own_devices_loop H P D cache address auth devices (Suc i) k w s }"

fun invite_users_loop ::
    "'w host \<Rightarrow> prims \<Rightarrow> gen_defaults \<Rightarrow> cache \<Rightarrow> address ptr \<Rightarrow> cstr \<Rightarrow> address ptr array \<Rightarrow> nat \<Rightarrow> nat \<Rightarrow> 'w \<Rightarrow> seed \<Rightarrow>
     ('w \<times> seed) option" where
  "invite_users_loop H P D cache address auth users i 0 w s = Some (w, s)"
| "invite_users_loop H P D cache address auth users i (Suc k) w s =
     do { p \<leftarrow> array_get users i; to \<leftarrow> deref p; u \<leftarrow> deref (ad_user to);
          own \<leftarrow> compare_address address p;
          (w, s) \<leftarrow>
            (if own then Some (w, s)
             else do { (_, _, w, s) \<leftarrow> get_pre_key_bundle_internal H P D cache w s address auth (pu_user_id u) (ad_domain to)
                         (pu_device_id u) False None;
                       Some (w, s) });
          invite_users_loop H P D cache address auth users (Suc i) k w s }"

definition consume_register_response ::
    "'w plugin \<Rightarrow> prims \<Rightarrow> gen_defaults \<Rightarrow> bool \<Rightarrow> cache \<Rightarrow> 'w \<Rightarrow> seed \<Rightarrow> account ptr \<Rightarrow> register_user_response ptr \<Rightarrow>
     (bool \<times> account ptr \<times> cache \<times> 'w \<times> seed) option" where
  "consume_register_response G P D mem_ok cache w s account response =
     do { unregistered \<leftarrow> is_valid_unregistered_account P account;
          valid \<leftarrow> is_valid_register_user_response response;
          if \<not> unregistered \<or> \<not> valid then Some (False, account, cache, w, s)
          else do {
            a \<leftarrow> deref account; r \<leftarrow> deref response;
            address \<leftarrow> copy_address_from_address D (rus_address r);
            certified \<leftarrow> is_valid_certificate (rus_server_cert r);
            cert \<leftarrow> (if certified then map_option Some (copy_certificate_from_certificate (rus_server_cert r))
                    else Some (acc_server_cert a));
            password \<leftarrow> deref (rus_password r); auth \<leftarrow> deref (rus_auth r);
            let a = a\<lparr>acc_address := Some address, acc_server_cert := cert, acc_saved := True, acc_password := Some password,
                      acc_auth := Some auth, acc_expires_in := rus_expires_in r\<rparr>;
            let w = e2ees_notify_user_registered G (pg_store_account G w a) a;
            cache \<leftarrow> store_account_into_cache D mem_ok cache (Some a);
            (w, s) \<leftarrow> invite_own_devices_loop (pg_host G) P D cache (acc_address a) (acc_auth a)
              (rus_other_device_address_list r) 0 (rus_n_other_device_address_list r) w s;
            (w, s) \<leftarrow> invite_users_loop (pg_host G) P D cache (acc_address a) (acc_auth a)
              (rus_other_user_address_list r) 0 (rus_n_other_user_address_list r) w s;
            Some (True, Some a, cache, w, s) } }"

text \<open>
  The signed pre-key expires seven days after the time the host gives during the creation of the
  account; a creation that fails leaves the world as it was.
\<close>

definition register_user ::
    "'w plugin \<Rightarrow> prims \<Rightarrow> gen_defaults \<Rightarrow> bool \<Rightarrow> cache \<Rightarrow> 'w \<Rightarrow> seed \<Rightarrow> u32 \<Rightarrow> cstr \<Rightarrow> cstr \<Rightarrow> cstr \<Rightarrow> cstr \<Rightarrow> cstr \<Rightarrow>
     (int \<times> register_user_response ptr \<times> cache \<times> 'w \<times> seed) option" where
  "register_user G P D mem_ok cache w s e2ees_pack_id user_name user_id device_id authenticator auth_code =
     (let params = \<lparr>rup_e2ees_pack_id = e2ees_pack_id, rup_user_name = user_name, rup_user_id = user_id,
                    rup_device_id = device_id, rup_authenticator = authenticator, rup_auth_code = auth_code\<rparr>
      in if \<not> is_valid_register_user_inputs P params then Some (E2EES_RESULT_FAIL, None, cache, w, s)
      else do {
        let (now, w') = hs_gen_ts (pg_host G) w;
        (ret, account, s) \<leftarrow> create_account P D e2ees_pack_id now s;
        if ret \<noteq> E2EES_RESULT_SUCC then Some (ret, None, cache, w, s)
        else do {
          let w = w';
          a \<leftarrow> deref account;
          (_, request) \<leftarrow> produce_register_request params a;
          let (response, w) = (case pg_register_user G of None \<Rightarrow> (None, w) | Some proto_fun \<Rightarrow> proto_fun w request);
          valid \<leftarrow> is_valid_register_user_response response;
          if \<not> valid then Some (E2EES_RESULT_FAIL, response, cache, w, s)
          else do {
            (_, _, cache, w, s) \<leftarrow> consume_register_response G P D mem_ok cache w s account response;
            Some (ret, response, cache, w, s) } } })"

subsection \<open>Signed pre-keys\<close>

definition produce_publish_spk_request :: "gen_defaults \<Rightarrow> publish_spk_params \<Rightarrow> (int \<times> publish_spk_request) option" where
  "produce_publish_spk_request D params =
     do { address \<leftarrow> copy_address_from_address D (psp_user_address params); spk \<leftarrow> copy_spk_to_public (psp_new_spk params);
          Some (E2EES_RESULT_SUCC, \<lparr>psr_user_address = Some address, psr_signed_pre_key_public = Some spk\<rparr>) }"

definition consume_publish_spk_response ::
    "'w plugin \<Rightarrow> 'w \<Rightarrow> address ptr \<Rightarrow> signed_pre_key ptr \<Rightarrow> publish_spk_response ptr \<Rightarrow> int \<times> 'w" where
  "consume_publish_spk_response G w user_address signed_pre_key response =
     (if \<not> is_valid_publish_spk_response response then (E2EES_RESULT_FAIL, w)
      else (E2EES_RESULT_SUCC, pg_update_signed_pre_key G w user_address signed_pre_key))"

definition publish_spk_internal ::
    "'w plugin \<Rightarrow> prims \<Rightarrow> gen_defaults \<Rightarrow> 'w \<Rightarrow> u32 \<Rightarrow> address ptr \<Rightarrow> signed_pre_key ptr \<Rightarrow>
     (int \<times> publish_spk_response ptr \<times> 'w) option" where
  "publish_spk_internal G P D w e2ees_pack_id user_address new_spk_pair =
     (let params = \<lparr>psp_e2ees_pack_id = e2ees_pack_id, psp_user_address = user_address, psp_new_spk = new_spk_pair\<rparr>;
          auth = hs_load_auth (pg_host G) w user_address
      in if \<not> is_valid_string auth \<or> \<not> is_valid_publish_spk_inputs P params then Some (E2EES_RESULT_FAIL, None, w)
      else do {
        (ret, request) \<leftarrow> produce_publish_spk_request D params;
        let (response, w) = dispatch_proto_request (pg_publish_spk G) w request user_address auth;
        if is_valid_publish_spk_response response
        then (let (ret, w) = consume_publish_spk_response G w user_address new_spk_pair response
              in Some (ret, if ret = E2EES_RESULT_FAIL then None else response, w))
        else Some (ret, None, w) })"

text \<open>The account is returned with the new key.\<close>

definition purge_signed_pre_key ::
    "'w plugin \<Rightarrow> prims \<Rightarrow> gen_defaults \<Rightarrow> 'w \<Rightarrow> seed \<Rightarrow> account \<Rightarrow> (account \<times> 'w \<times> seed) option" where
  "purge_signed_pre_key G P D w s account =
     (if \<not> acc_saved account then Some (account, w, s)
      else do {
        let (now, w) = hs_gen_ts (pg_host G) w;
        spk \<leftarrow> deref (acc_signed_pre_key account);
        (ret, account, w, s) \<leftarrow>
          (if now > spk_ttl spk then do {
             ik \<leftarrow> deref (acc_identity_key account); sign_key_pair \<leftarrow> deref (ik_sign_key_pair ik);
             let (now, w') = hs_gen_ts (pg_host G) w;
             (ret, signed_pre_key, s) \<leftarrow> generate_signed_pre_key P (acc_e2ees_pack_id account) (spk_id spk)
               (pb_data (kpr_private_key sign_key_pair)) now s;
             if ret \<noteq> E2EES_RESULT_SUCC then Some (ret, account, w, s)
             else do {
               let w = w';
               let account = account\<lparr>acc_signed_pre_key := signed_pre_key\<rparr>;
               (ret, _, w) \<leftarrow> publish_spk_internal G P D w (acc_e2ees_pack_id account) (acc_address account) signed_pre_key;
               Some (ret, account, w, s) } }
           else Some (E2EES_RESULT_SUCC, account, w, s));
        Some (account, if ret = E2EES_RESULT_SUCC then pg_remove_expired_signed_pre_key G w (acc_address account) else w, s) })"

subsection \<open>One-time pre-keys\<close>

definition produce_supply_opks_request ::
    "gen_defaults \<Rightarrow> supply_opks_params \<Rightarrow> one_time_pre_key ptr array \<Rightarrow> (int \<times> supply_opks_request) option" where
  "produce_supply_opks_request D params one_time_pre_key_list =
     do { a \<leftarrow> deref (sop_account params);
          address \<leftarrow> copy_address_from_address D (acc_address a);
          keys \<leftarrow> copy_opk_list_to_public one_time_pre_key_list (unat (sop_opks_num params));
          Some (E2EES_RESULT_SUCC,
            \<lparr>soq_e2ees_pack_id = acc_e2ees_pack_id a, soq_user_address = Some address,
             soq_n_one_time_pre_key_public_list = unat (sop_opks_num params), soq_one_time_pre_key_public_list = Some keys\<rparr>) }"

fun add_opks_loop :: "'w plugin \<Rightarrow> address ptr \<Rightarrow> one_time_pre_key ptr array \<Rightarrow> nat \<Rightarrow> nat \<Rightarrow> 'w \<Rightarrow> 'w option" where
  "add_opks_loop G sender_address keys i 0 w = Some w"
| "add_opks_loop G sender_address keys i (Suc k) w =
     do { key \<leftarrow> array_get keys i; add_opks_loop G sender_address keys (Suc i) k (pg_add_one_time_pre_key G w sender_address key) }"

definition consume_supply_opks_response ::
    "'w plugin \<Rightarrow> 'w \<Rightarrow> address ptr \<Rightarrow> one_time_pre_key ptr array \<Rightarrow> nat \<Rightarrow> supply_opks_response ptr \<Rightarrow> (int \<times> 'w) option" where
  "consume_supply_opks_response G w sender_address one_time_pre_key_list opks_num response =
     (if \<not> is_valid_supply_opks_response response then Some (E2EES_RESULT_FAIL, w)
      else do { w \<leftarrow> add_opks_loop G sender_address one_time_pre_key_list 0 opks_num w; Some (E2EES_RESULT_SUCC, w) })"

definition supply_opks_internal ::
    "'w plugin \<Rightarrow> prims \<Rightarrow> gen_defaults \<Rightarrow> 'w \<Rightarrow> seed \<Rightarrow> account ptr \<Rightarrow> u32 \<Rightarrow> (int \<times> supply_opks_response ptr \<times> 'w \<times> seed) option" where
  "supply_opks_internal G P D w s account opks_num =
     do { let params = \<lparr>sop_account = account, sop_opks_num = opks_num\<rparr>;
          valid \<leftarrow> is_valid_supply_opks_inputs P params;
          if \<not> valid then Some (E2EES_RESULT_FAIL, None, w, s)
          else do {
            a \<leftarrow> deref account;
            (ret, keys, s) \<leftarrow> generate_opks P (unat opks_num) (acc_e2ees_pack_id a) (acc_next_one_time_pre_key_id a) s;
            if ret \<noteq> E2EES_RESULT_SUCC then Some (ret, None, w, s)
            else do {
              (ret, request) \<leftarrow> produce_supply_opks_request D params keys;
              let (response, w) = dispatch_proto_request (pg_supply_opks G) w request (acc_address a) (acc_auth a);
              (ret, w) \<leftarrow> (if is_valid_supply_opks_response response
                          then consume_supply_opks_response G w (acc_address a) keys (unat opks_num) response
                          else Some (ret, w));
              Some (ret, response, w, s) } } }"

definition consume_supply_opks_msg ::
    "'w plugin \<Rightarrow> prims \<Rightarrow> gen_defaults \<Rightarrow> 'w \<Rightarrow> seed \<Rightarrow> address ptr \<Rightarrow> supply_opks_msg ptr \<Rightarrow> (bool \<times> 'w \<times> seed) option" where
  "consume_supply_opks_msg G P D w s receiver_address msg =
     (if \<not> is_valid_address receiver_address \<or> \<not> is_valid_supply_opks_msg msg then Some (True, w, s)
      else do {
        m \<leftarrow> deref msg;
        same \<leftarrow> compare_address receiver_address (som_user_address m);
        if \<not> same then Some (True, w, s)
        else do {
          (ret, _, w, s) \<leftarrow> supply_opks_internal G P D w s (hs_load_account_by_address (pg_host G) w receiver_address)
            (som_opks_num m);
          Some (ret = E2EES_RESULT_SUCC, w, s) } })"

end
