(* ===== verification/Account_Manager_Props.thy ===== *)
theory Account_Manager_Props
  imports Account_Manager Messaging_Props
begin

section \<open>Properties of registration and of published keys\<close>

text \<open>
  What a registration stores and what the cache answers afterwards, the numbers of further one-time
  pre-keys, and the renewal of the signed pre-key.
\<close>

subsection \<open>A concrete plugin\<close>

text \<open>A plugin that does nothing beside the handlers of a host.\<close>

definition idle_plugin :: "'w host \<Rightarrow> 'w plugin" where
  "idle_plugin H =
     \<lparr>pg_host = H, pg_store_account = (\<lambda>w a. w), pg_load_accounts = (\<lambda>w. (0, None)),
      pg_update_signed_pre_key = (\<lambda>w a k. w), pg_remove_expired_signed_pre_key = (\<lambda>w a. w),
      pg_add_one_time_pre_key = (\<lambda>w a k. w), pg_remove_one_time_pre_key = (\<lambda>w a i. w),
      pg_load_group_addresses = (\<lambda>w a b. (0, None)), pg_load_pending_request_data = (\<lambda>w a. []),
      pg_unload_pending_request_data = (\<lambda>w a i. w), pg_register_user = None, pg_publish_spk = None, pg_supply_opks = None,
      pg_create_group = None, pg_add_group_members = None, pg_add_group_member_device = None, pg_remove_group_members = None,
      pg_leave_group = None, pg_consume_proto_msg = None, pg_on_user_registered = (\<lambda>w a. w),
      pg_on_group_members_added = (\<lambda>w a g n ms k ms' k'. w), pg_on_group_members_removed = (\<lambda>w a g n ms k ms' k'. w),
      pg_gen_rand = (\<lambda>s n. (replicate n (of_nat s), s + 1)), pg_unpack_proto_msg = (\<lambda>b. None)\<rparr>"

subsection \<open>Registration\<close>

text \<open>
  The invitations a new device sends: to its user's other devices \<open>ds\<close> and to the devices of other users
  \<open>us\<close>, its own address left out, one request for pre-key bundles after the other.
\<close>

fun invite_each :: "'w host \<Rightarrow> prims \<Rightarrow> gen_defaults \<Rightarrow> cache \<Rightarrow> address \<Rightarrow> cstr \<Rightarrow> address list \<Rightarrow> 'w \<Rightarrow> seed \<Rightarrow> ('w \<times> seed) option" where
  "invite_each H P D cache adr auth [] w s = Some (w, s)"
| "invite_each H P D cache adr auth (x # xs) w s =
     do { u \<leftarrow> ad_user x;
          (_, _, w, s) \<leftarrow> get_pre_key_bundle_internal H P D cache w s (Some adr) auth (pu_user_id u) (ad_domain x) (pu_device_id u) False None;
          invite_each H P D cache adr auth xs w s }"

abbreviation (input) invitees :: "address \<Rightarrow> address list \<Rightarrow> address list \<Rightarrow> address list" where
  "invitees adr ds us \<equiv> ds @ filter (\<lambda>x. address_id adr \<noteq> address_id x) us"

definition lists_others :: "register_user_response \<Rightarrow> address list \<Rightarrow> address list \<Rightarrow> bool" where
  "lists_others r ds us \<longleftrightarrow>
     rus_n_other_device_address_list r = length ds \<and> (ds = [] \<or> rus_other_device_address_list r = Some (map Some ds)) \<and>
     rus_n_other_user_address_list r = length us \<and> (us = [] \<or> rus_other_user_address_list r = Some (map Some us)) \<and>
     (\<forall>x\<in>set ds \<union> set us. ad_user x \<noteq> None \<and> wf_peer x)"

lemma invite_each_append:
  "invite_each H P D cache adr auth (xs @ ys) w s =
     do { (w, s) \<leftarrow> invite_each H P D cache adr auth xs w s; invite_each H P D cache adr auth ys w s }"
  by (induction xs arbitrary: w s) (simp_all add: Option.bind_assoc case_prod_unfold)

lemma own_devices_invited:
  assumes "\<forall>x\<in>set ds. ad_user x \<noteq> None" and "i + n = length ds"
  shows "invite_own_devices_loop H P D cache (Some adr) auth (Some (map Some ds)) i n w s = invite_each H P D cache adr auth (drop i ds) w s"
  using assms(2)
proof (induction n arbitrary: i w s)
  case (Suc n)
  then have i: "i < length ds" by simp
  then show ?case using Suc.IH [of "Suc i"] Suc.prems by (simp add: array_get_def deref_def case_prod_unfold flip: Cons_nth_drop_Suc)
qed simp

lemma users_invited:
  assumes "\<forall>x\<in>set us. ad_user x \<noteq> None \<and> wf_peer x" and "wf_peer adr" and "i + n = length us"
  shows "invite_users_loop H P D cache (Some adr) auth (Some (map Some us)) i n w s =
    invite_each H P D cache adr auth (filter (\<lambda>x. address_id adr \<noteq> address_id x) (drop i us)) w s"
  using assms(3)
proof (induction n arbitrary: i w s)
  case (Suc n)
  then have i: "i < length us" by simp
  then obtain u where u: "ad_user (us ! i) = Some u" "wf_peer (us ! i)" using assms(1) by (metis not_None_eq nth_mem)
  then show ?case using i Suc.IH [of "Suc i"] Suc.prems compare_address_id [OF assms(2) u(2)]
    by (simp add: array_get_def deref_def Option.bind_assoc case_prod_unfold flip: Cons_nth_drop_Suc)
qed simp

text \<open>
  Every request for pre-key bundles comes back, whatever the server answers and however the invitations
  go.  This holds for a server that hands out no bundle.
\<close>

definition requests_return :: "'w host \<Rightarrow> prims \<Rightarrow> gen_defaults \<Rightarrow> address \<Rightarrow> bool" where
  "requests_return H P D adr \<longleftrightarrow>
     (\<forall>cache w s auth uid domain dev. get_pre_key_bundle_internal H P D cache w s (Some adr) auth uid domain dev False None \<noteq> None)"

lemma requests_return_refused:
  assumes "\<And>v from auth q. is_valid_get_pre_key_bundle_response (fst (dispatch_proto_request (hs_get_pre_key_bundle H) v q from auth)) = Some False"
  shows "requests_return H P D adr"
proof -
  have "get_pre_key_bundle_internal H P D cache w s (Some adr) auth uid domain dev False None \<noteq> None" for cache w s auth uid domain dev
    using assms [of w] by (auto simp: get_pre_key_bundle_internal_def produce_get_pre_key_bundle_request_def is_valid_get_pre_key_bundle_inputs_def
        is_valid_string_def Let_def case_prod_unfold split: option.splits)
  then show ?thesis by (simp add: requests_return_def)
qed

lemma invitations_return:
  assumes "requests_return H P D adr" and "\<forall>x\<in>set xs. ad_user x \<noteq> None"
  obtains w' s' where "invite_each H P D cache adr auth xs w s = Some (w', s')"
  using assms(2)
proof (induction xs arbitrary: w s thesis)
  case (Cons x xs)
  obtain u where u: "ad_user x = Some u" using Cons.prems(2) by auto
  obtain a b w1 s1 where "get_pre_key_bundle_internal H P D cache w s (Some adr) auth (pu_user_id u) (ad_domain x) (pu_device_id u) False None = Some (a, b, w1, s1)"
    using assms(1) unfolding requests_return_def by (metis not_None_eq prod_cases4)
  then show ?case using Cons u by auto
qed simp

text \<open>
  The answer of the server: the address, the password, the token, a certificate with the server's key,
  and the addresses of other devices and of other users.
\<close>

definition good_registration :: "gen_defaults \<Rightarrow> address \<Rightarrow> bdata \<Rightarrow> register_user_response \<Rightarrow> bool" where
  "good_registration D adr key r \<longleftrightarrow>
     is_valid_register_user_response (Some r) = Some True \<and> rus_address r = Some adr \<and> wf_address D adr \<and> wf_peer adr \<and>
     (\<exists>ds us. lists_others r ds us) \<and>
     (\<exists>c x. rus_server_cert r = Some c \<and> is_valid_certificate (Some c) = Some True \<and>
        copy_certificate_from_certificate (Some c) = Some c \<and> ct_cert c = Some x \<and> ce_public_key x = key \<and> wf_bdata key)"

lemma copy_spk_to_public_ok:
  assumes "good_spk P raw pk c now spk"
  shows "\<exists>x. copy_spk_to_public (Some spk) = Some x"
proof -
  obtain k pub sig where k: "spk_key_pair spk = Some k" "kpr_public_key k = buf pub" "spk_signature spk = buf sig"
    using assms by (auto simp: good_spk_def)
  have "pub \<noteq> []" "sig \<noteq> []"
    using assms k by (auto simp: good_spk_def is_valid_signed_pre_key_def is_valid_key_pair_def is_valid_protobuf_def)
  then show ?thesis using k by (simp add: copy_spk_to_public_def copy_simps)
qed

definition opk_to_public :: "one_time_pre_key \<Rightarrow> one_time_pre_key_public" where
  "opk_to_public k = \<lparr>opkp_opk_id = opk_id k, opkp_public_key = kpr_public_key (the (opk_key_pair k))\<rparr>"

lemma copy_opks_to_public_ok:
  assumes "\<forall>k\<in>set ks. set_ptr wf_key_pair (opk_key_pair k)"
  shows "copy_opk_list_to_public (Some (map Some ks)) (length ks) = Some (map (Some \<circ> opk_to_public) ks)"
proof -
  have "map_loop (\<lambda>p. map_option Some (copy_opk_to_public p)) (Some (map Some ks)) 0 (length ks) =
      Some (map (\<lambda>p. Some (opk_to_public (the p))) (take (length ks) (drop 0 (map Some ks))))"
  proof (rule map_loop_Some)
    fix j assume "j < 0 + length ks"
    then have "set_ptr wf_key_pair (opk_key_pair (ks ! j))" using assms by simp
    then show "map_option Some (copy_opk_to_public (map Some ks ! j)) = Some (Some (opk_to_public (the (map Some ks ! j))))"
      using \<open>j < 0 + length ks\<close> by (auto simp: copy_opk_to_public_def opk_to_public_def wf_key_pair_def copy_simps elim!: set_ptrE)
  qed simp
  then show ?thesis by (simp add: copy_opk_list_to_public_def comp_def)
qed

lemma copy_ik_to_public_ok:
  assumes "wf_identity_key ik" "ik_asym_key_pair ik = Some x" "ik_sign_key_pair ik = Some y"
  shows "copy_ik_to_public (Some ik) = Some \<lparr>ikp_asym_public_key = kpr_public_key x, ikp_sign_public_key = kpr_public_key y\<rparr>"
  using assms by (simp add: wf_identity_key_def wf_key_pair_def copy_ik_to_public_def copy_simps)

text \<open>
  The run of a registration.  \<open>q\<close> is the request the server gets, \<open>acc\<close> the account that is stored.
\<close>

lemma registration_run:
  assumes P: "prims_ok P" and raw: "is_valid_e2ees_pack_id P raw" and a: "pack_kem raw = Some a"
    and d: "pack_ds raw = Some d" "d \<noteq> DS_CURVE25519" "ds_documented P d"
    and D: "is_invalid_string (gd_string D)"
    and inputs: "is_valid_string (Some name)" "is_valid_string (Some uid)" "is_valid_string (Some dev)"
      "is_valid_optional_string authenticator" "is_valid_string (Some code)"
    and f: "pg_register_user G = Some f" "\<And>v q. \<exists>r. fst (f v q) = Some r \<and> good_registration D adr key r"
    and requests: "requests_return (pg_host G) P D adr" and cache: "wf_cache D cache"
  obtains acc ks q r w2 s1 ds us w3 s' cache' where
    "register_user G P D True cache w s raw (Some name) (Some uid) (Some dev) authenticator (Some code) = Some (0, Some r, cache', w3, s')"
    "lists_others r ds us"
    "invite_each (pg_host G) P D cache' adr (acc_auth acc) (invitees adr ds us) (pg_on_user_registered G (pg_store_account G w2 acc) acc) s1 = Some (w3, s')"
    "f (snd (hs_gen_ts (pg_host G) w)) q = (Some r, w2)"
    "is_valid_registered_account P (Some acc) = Some True" "storable_account D acc" "acc_address acc = Some adr"
    "acc_e2ees_pack_id acc = raw" "acc_password acc = rus_password r" "acc_auth acc = rus_auth r" "server_key acc = key" "acc_saved acc"
    "holds_opks acc ks" "map opk_id ks = map of_nat [1..<101]"
    "rur_one_time_pre_key_list q = Some (map (Some \<circ> opk_to_public) ks)" "rur_n_one_time_pre_key_list q = 100"
    "rur_identity_key_public q = copy_ik_to_public (acc_identity_key acc)"
    "rur_signed_pre_key_public q = copy_spk_to_public (acc_signed_pre_key acc)"
    "store_account_into_cache D True cache (Some acc) = Some cache'" "wf_cache D cache'"
proof -
  obtain now w1 where ts: "hs_gen_ts (pg_host G) w = (now, w1)" by fastforce
  obtain acc0 ks spk pk s1 where new: "create_account P D raw now s = Some (0, Some acc0, s1)"
    "is_valid_unregistered_account P (Some acc0) = Some True" "acc_e2ees_pack_id acc0 = raw" "holds_opks acc0 ks"
    "map opk_id ks = map of_nat [1..<101]" "acc_signed_pre_key acc0 = Some spk" "good_spk P raw pk 0 now spk"
    "set_ptr wf_identity_key (acc_identity_key acc0)" "\<forall>k\<in>set ks. set_ptr wf_key_pair (opk_key_pair k)"
    "acc_version acc0 = Some E2EES_PROTOCOL_VERSION"
    using create_account_ok [OF P raw a d D, of now s] by blast
  have len: "length ks = 100" using arg_cong [OF new(5), of length] by (simp del: upt_rec_numeral)
  obtain spkp where spkp: "copy_spk_to_public (Some spk) = Some spkp" using copy_spk_to_public_ok [OF new(7)] by blast
  obtain ikp where ikp: "copy_ik_to_public (acc_identity_key acc0) = Some ikp"
    using new(8) copy_ik_to_public_ok by (auto simp: wf_identity_key_def elim!: set_ptrE)
  let ?params = "\<lparr>rup_e2ees_pack_id = raw, rup_user_name = Some name, rup_user_id = Some uid, rup_device_id = Some dev,
    rup_authenticator = authenticator, rup_auth_code = Some code\<rparr>"
  obtain q where q: "produce_register_request ?params acc0 = Some (0, q)" "rur_identity_key_public q = Some ikp"
      "rur_signed_pre_key_public q = Some spkp" "rur_one_time_pre_key_list q = Some (map (Some \<circ> opk_to_public) ks)"
      "rur_n_one_time_pre_key_list q = 100"
    using ikp spkp copy_opks_to_public_ok [OF new(9)] new(4,6) len by (simp add: produce_register_request_def holds_opks_def)
  obtain r w2 where r: "f w1 q = (Some r, w2)" "good_registration D adr key r"
    using f(2) [of w1 q] by (metis prod.collapse)
  obtain c x where c: "rus_server_cert r = Some c" "is_valid_certificate (Some c) = Some True"
      "copy_certificate_from_certificate (Some c) = Some c" "ct_cert c = Some x" "ce_public_key x = key" "wf_bdata key"
    using r(2) by (auto simp: good_registration_def)
  have resp: "is_valid_register_user_response (Some r) = Some True" "rus_address r = Some adr" "wf_address D adr" "wf_peer adr"
    using r(2) by (auto simp: good_registration_def)
  then obtain password auth where strings: "rus_password r = Some password" "rus_auth r = Some auth"
      "is_valid_string (Some password)" "is_valid_string (Some auth)" "is_valid_address (Some adr)"
    by (auto simp: is_valid_register_user_response_def is_valid_string_def split: if_splits option.splits)
  obtain ds us where others: "lists_others r ds us" using r(2) by (auto simp: good_registration_def)
  define acc where "acc = acc0\<lparr>acc_address := Some adr, acc_server_cert := Some c, acc_saved := True,
    acc_password := Some password, acc_auth := Some auth, acc_expires_in := rus_expires_in r\<rparr>"
  have storable: "storable_account D acc" "server_key acc = key"
    using new(8,10) resp(3,4) c(4-6) by (simp_all add: storable_account_def acc_def server_key_def)
  obtain cache' where cache': "store_account_into_cache D True cache (Some acc) = Some cache'" "wf_cache D cache'"
    using account_cache.store_ok [OF cache storable(1)] by blast
  have valid: "is_valid_registered_account P (Some acc) = Some True"
    using new(2,10) strings
    by (auto simp: is_valid_registered_account_def is_valid_unregistered_account_def acc_def and_then_def bind_eq_Some_conv split: if_splits)
  let ?v = "pg_on_user_registered G (pg_store_account G w2 acc) acc"
  have "\<forall>x\<in>set (invitees adr ds us). ad_user x \<noteq> None" using others by (auto simp: lists_others_def)
  then obtain w3 s' where inv: "invite_each (pg_host G) P D cache' adr (Some auth) (invitees adr ds us) ?v s1 = Some (w3, s')"
    by (rule invitations_return [OF requests])
  have loops: "invite_own_devices_loop (pg_host G) P D cache' (Some adr) (Some auth) (rus_other_device_address_list r) 0
        (rus_n_other_device_address_list r) v t = invite_each (pg_host G) P D cache' adr (Some auth) ds v t"
      "invite_users_loop (pg_host G) P D cache' (Some adr) (Some auth) (rus_other_user_address_list r) 0
        (rus_n_other_user_address_list r) v t =
       invite_each (pg_host G) P D cache' adr (Some auth) (filter (\<lambda>x. address_id adr \<noteq> address_id x) us) v t" for v t
    using others own_devices_invited [of ds 0 "length ds"] users_invited [of us adr 0 "length us"] resp(4) by (auto simp: lists_others_def)
  have consume: "consume_register_response G P D True cache w2 s1 (Some acc0) (Some r) = Some (True, Some acc, cache', w3, s')"
    using new(2) resp c strings cache'(1) inv
    by (auto simp: consume_register_response_def address_copy.copy_id e2ees_notify_user_registered_def Let_def loops acc_def
        invite_each_append bind_eq_Some_conv)
  have "register_user G P D True cache w s raw (Some name) (Some uid) (Some dev) authenticator (Some code) =
       Some (0, Some r, cache', w3, s')"
    using raw inputs ts new(1) q(1) f(1) r(1) resp(1) consume
    by (simp add: register_user_def is_valid_register_user_inputs_def)
  then show ?thesis
    by (rule that) (use ts r valid storable new(3-5) strings q ikp spkp cache' new(6) others inv in \<open>simp_all add: acc_def holds_opks_def del: upt_rec_numeral\<close>)
qed

text \<open>
  C4: registration of a user with valid inputs, over a suite with a post-quantum signature scheme and
  with a server that answers with an address, a password, a token, its certificate and any addresses of
  other devices and users, succeeds.  The account given to the database is a valid registered one with
  this address and the chosen suite; the server got the public parts of its identity key and signed
  pre-key and its hundred one-time pre-keys, numbered from 1.  If the address was not in the cache, the
  cache answers from now on with the suite and the identity key of the account and the key of the
  server.  Afterwards the other devices and users, but for the address itself, are invited in the order
  of the answer; the requests for their pre-key bundles return, whether they succeed or not.
\<close>

theorem registration_succeeds:
  assumes "prims_ok P" and "is_valid_e2ees_pack_id P raw" and "pack_kem raw = Some a"
    and "pack_ds raw = Some d" "d \<noteq> DS_CURVE25519" "ds_documented P d" and "is_invalid_string (gd_string D)"
    and "is_valid_string (Some name)" "is_valid_string (Some uid)" "is_valid_string (Some dev)"
      "is_valid_optional_string authenticator" "is_valid_string (Some code)"
    and server: "pg_register_user G = Some f" "\<And>v q. \<exists>r. fst (f v q) = Some r \<and> good_registration D adr key r"
    and requests: "requests_return (pg_host G) P D adr"
    and cache: "wf_cache D cache" "find_account_in_cache cache (Some adr) = Some None"
  shows "\<exists>acc q r w2 s1 ds us w3 s' cache'.
    register_user G P D True cache w s raw (Some name) (Some uid) (Some dev) authenticator (Some code) = Some (0, Some r, cache', w3, s') \<and>
    f (snd (hs_gen_ts (pg_host G) w)) q = (Some r, w2) \<and> lists_others r ds us \<and>
    invite_each (pg_host G) P D cache' adr (acc_auth acc) (invitees adr ds us) (pg_on_user_registered G (pg_store_account G w2 acc) acc) s1 = Some (w3, s') \<and>
    is_valid_registered_account P (Some acc) = Some True \<and> acc_address acc = Some adr \<and> acc_e2ees_pack_id acc = raw \<and>
    rur_identity_key_public q = copy_ik_to_public (acc_identity_key acc) \<and>
    rur_signed_pre_key_public q = copy_spk_to_public (acc_signed_pre_key acc) \<and>
    map_option (map (map_option opkp_opk_id)) (rur_one_time_pre_key_list q) = Some (map (\<lambda>i. Some (of_nat i)) [1..<101]) \<and>
    load_e2ees_pack_id_from_cache cache' (Some adr) = Some raw \<and>
    load_identity_key_from_cache cache' (Some adr) = Some (acc_identity_key acc) \<and>
    load_server_public_key_from_cache cache' (Some adr) = Some key"
proof -
  obtain acc ks q r w2 s1 ds us w3 s' cache' where run:
    "register_user G P D True cache w s raw (Some name) (Some uid) (Some dev) authenticator (Some code) = Some (0, Some r, cache', w3, s')"
    "f (snd (hs_gen_ts (pg_host G) w)) q = (Some r, w2)" "is_valid_registered_account P (Some acc) = Some True"
    "storable_account D acc" "acc_address acc = Some adr" "acc_e2ees_pack_id acc = raw" "server_key acc = key"
    "map opk_id ks = map of_nat [1..<101]" "rur_one_time_pre_key_list q = Some (map (Some \<circ> opk_to_public) ks)"
    "rur_identity_key_public q = copy_ik_to_public (acc_identity_key acc)"
    "rur_signed_pre_key_public q = copy_spk_to_public (acc_signed_pre_key acc)"
    "store_account_into_cache D True cache (Some acc) = Some cache'" "lists_others r ds us"
    "invite_each (pg_host G) P D cache' adr (acc_auth acc) (invitees adr ds us) (pg_on_user_registered G (pg_store_account G w2 acc) acc) s1 = Some (w3, s')"
    by (rule registration_run [OF assms(1-12) server requests cache(1)])
  have adr: "wf_peer adr" using run(4,5) by (simp add: storable_account_def)
  have "find_account_in_cache cache' (Some adr) = Some (map_option cache_entry (Some acc))"
    using account_cache.lookup_store [OF cache(1) run(4) adr run(12)] cache(2) run(5) by simp
  note loads = load_from_entry [where D = D, OF this]
  have "map (map_option opkp_opk_id) (map (Some \<circ> opk_to_public) ks) = map Some (map opk_id ks)"
    by (simp add: opk_to_public_def)
  then have "map_option (map (map_option opkp_opk_id)) (rur_one_time_pre_key_list q) = Some (map (\<lambda>i. Some (of_nat i)) [1..<101])"
    unfolding run(8,9) by (simp add: comp_def del: upt_rec_numeral)
  then show ?thesis using run(1-3,5-7,10,11,13,14) loads run(4)
    by (intro exI [of _ acc] exI [of _ q] exI [of _ r] exI [of _ w2] exI [of _ s1] exI [of _ ds] exI [of _ us] exI [of _ w3] exI [of _ s'] exI [of _ cache'])
      (simp del: upt_rec_numeral)
qed

text \<open>A server that answers every registration with the same address, and a database with the last account.\<close>

definition demo_certificate :: certificate where
  "demo_certificate = \<lparr>ct_version = 1, ct_hash_alg = 0, ct_signing_alg = 17,
     ct_cert = Some \<lparr>ce_issuee = Some \<lparr>su_cn = Some ''s'', su_domain = Some ''d'', su_o = Some ''o'', su_n_ou = 1, su_ou = Some [Some ''u'']\<rparr>,
       ce_public_key_alg = 0, ce_public_key = buf [2],
       ce_issuer = Some \<lparr>su_cn = Some ''s'', su_domain = Some ''d'', su_o = Some ''o'', su_n_ou = 1, su_ou = Some [Some ''u'']\<rparr>,
       ce_not_before = 0, ce_not_after = 9\<rparr>,
     ct_cert_fingerprint = buf [1], ct_signing_public_key_fingerprint = buf [1], ct_signature = buf [1], ct_ts = 0, ct_valid = True\<rparr>"

definition demo_answer :: register_user_response where
  "demo_answer = \<lparr>rus_code = RESPONSE_CODE_OK, rus_address = Some (demo_address ''a''), rus_username = Some ''n'', rus_password = Some ''p'',
     rus_auth = Some ''t'', rus_expires_in = 9, rus_server_cert = Some demo_certificate, rus_n_other_device_address_list = 1,
     rus_other_device_address_list = Some [Some (demo_address ''x'')], rus_n_other_user_address_list = 0, rus_other_user_address_list = None,
     rus_n_group_info_list = 0, rus_group_info_list = None\<rparr>"

definition demo_registrar :: "account ptr plugin" where
  "demo_registrar = (idle_plugin idle_host)\<lparr>pg_store_account := (\<lambda>w a. Some a), pg_register_user := Some (\<lambda>w q. (Some demo_answer, w))\<rparr>"

lemma demo_answer_others: "lists_others demo_answer ds us \<longleftrightarrow> ds = [demo_address ''x''] \<and> us = []"
  by (auto simp: lists_others_def demo_answer_def demo_address_def wf_peer_def map_eq_Cons_conv length_Suc_conv)

lemma demo_answer_good: "good_registration demo_D (demo_address ''a'') (buf [2]) demo_answer"
  by (simp add: good_registration_def demo_answer_others, simp add: demo_answer_def demo_certificate_def is_valid_register_user_response_def demo_address_def
      is_valid_address_def is_valid_address_list_def is_valid_no_device_id_user_address_list_def valid_array_NULL is_valid_group_info_list_def
      and_then_def wf_address_def wf_str_def wf_peer_def is_valid_certificate_def is_valid_cert_def is_valid_subject_def
      is_valid_string_list_def valid_array_eq copy_certificate_from_certificate_def copy_cert_from_cert_def copy_subject_from_subject_def copy_simps array_get_def)

text \<open>Its server hands out no bundles, and the invitations change nothing.\<close>

lemma demo_registrar_requests:
  "requests_return (pg_host demo_registrar) P D adr"
  by (rule requests_return_refused)
    (simp add: demo_registrar_def idle_plugin_def idle_host_def dispatch_proto_request_def is_valid_get_pre_key_bundle_response_def)

lemma demo_registrar_invites:
  "invite_each (pg_host demo_registrar) P D cache adr auth xs w s = Some (w', s') \<Longrightarrow> w' = w \<and> s' = s"
  by (induction xs arbitrary: w s)
    (auto simp: get_pre_key_bundle_internal_def demo_registrar_def idle_plugin_def idle_host_def dispatch_proto_request_def
      is_valid_get_pre_key_bundle_response_def Let_def bind_eq_Some_conv split: if_splits)

lemma demo_registration_hyps:
  "prims_ok demo_prims" "is_valid_e2ees_pack_id demo_prims 0x113101" "pack_kem 0x113101 = Some KEM_MLKEM1024"
  "pack_ds 0x113101 = Some DS_MLDSA87" "DS_MLDSA87 \<noteq> DS_CURVE25519" "ds_documented demo_prims DS_MLDSA87" "is_invalid_string (gd_string demo_D)"
  "is_valid_string (Some ''n'')" "is_valid_string (Some ''a'')" "is_valid_string (Some ''v'')" "is_valid_optional_string None"
  "is_valid_string (Some ''c'')" "pg_register_user demo_registrar = Some (\<lambda>w q. (Some demo_answer, w))"
  "\<exists>r. fst ((\<lambda>w q. (Some demo_answer, w)) v x) = Some r \<and> good_registration demo_D (demo_address ''a'') (buf [2]) r"
  using demo_prims_ok demo_pack demo_ds demo_answer_good
  by (simp_all add: is_invalid_string_def is_valid_optional_string_def demo_registrar_def)

theorem registration_succeeds_witness:
  "\<exists>acc s' cache'. register_user demo_registrar demo_prims demo_D True [] None 0 0x113101 (Some ''n'') (Some ''a'') (Some ''v'') None (Some ''c'') =
      Some (0, Some demo_answer, cache', Some acc, s') \<and> acc_address acc = Some (demo_address ''a'') \<and>
    load_identity_key_from_cache cache' (Some (demo_address ''a'')) = Some (acc_identity_key acc) \<and>
    load_server_public_key_from_cache cache' (Some (demo_address ''a'')) = Some (buf [2])"
proof -
  have "wf_cache demo_D []" "find_account_in_cache [] (Some (demo_address ''a'')) = Some None" by (simp_all add: wf_cache_def)
  from registration_succeeds [OF demo_registration_hyps demo_registrar_requests this, of None 0]
  show ?thesis by (auto dest!: demo_registrar_invites simp del: upt_rec_numeral) (auto simp: demo_registrar_def idle_plugin_def)
qed

text \<open>
  When the address is already in the cache, registering it again succeeds with new keys, which the
  database and the server get, but the cache goes on to answer with the identity key it had.
\<close>

lemma reregistration_keeps_cached_key:
  assumes "prims_ok P" and "is_valid_e2ees_pack_id P raw" and "pack_kem raw = Some a"
    and "pack_ds raw = Some d" "d \<noteq> DS_CURVE25519" "ds_documented P d" and "is_invalid_string (gd_string D)"
    and "is_valid_string (Some name)" "is_valid_string (Some uid)" "is_valid_string (Some dev)"
      "is_valid_optional_string authenticator" "is_valid_string (Some code)"
    and server: "pg_register_user G = Some f" "\<And>v q. \<exists>r. fst (f v q) = Some r \<and> good_registration D adr key r"
    and requests: "requests_return (pg_host G) P D adr"
    and cache: "wf_cache D cache" "find_account_in_cache cache (Some adr) = Some (Some (cache_entry old))" "storable_account D old"
  shows "\<exists>acc q r w2 s1 ds us w3 s' cache'.
    register_user G P D True cache w s raw (Some name) (Some uid) (Some dev) authenticator (Some code) = Some (0, Some r, cache', w3, s') \<and>
    f (snd (hs_gen_ts (pg_host G) w)) q = (Some r, w2) \<and> lists_others r ds us \<and>
    invite_each (pg_host G) P D cache' adr (acc_auth acc) (invitees adr ds us) (pg_on_user_registered G (pg_store_account G w2 acc) acc) s1 = Some (w3, s') \<and>
    acc_address acc = Some adr \<and>
    rur_identity_key_public q = copy_ik_to_public (acc_identity_key acc) \<and>
    load_identity_key_from_cache cache' (Some adr) = Some (acc_identity_key old)"
proof -
  obtain acc ks q r w2 s1 ds us w3 s' cache' where run:
    "register_user G P D True cache w s raw (Some name) (Some uid) (Some dev) authenticator (Some code) = Some (0, Some r, cache', w3, s')"
    "f (snd (hs_gen_ts (pg_host G) w)) q = (Some r, w2)" "storable_account D acc" "acc_address acc = Some adr"
    "rur_identity_key_public q = copy_ik_to_public (acc_identity_key acc)"
    "store_account_into_cache D True cache (Some acc) = Some cache'" "lists_others r ds us"
    "invite_each (pg_host G) P D cache' adr (acc_auth acc) (invitees adr ds us) (pg_on_user_registered G (pg_store_account G w2 acc) acc) s1 = Some (w3, s')"
    by (rule registration_run [OF assms(1-12) server requests cache(1)])
  have adr: "wf_peer adr" using run(3,4) by (simp add: storable_account_def)
  have "find_account_in_cache cache' (Some adr) = Some (map_option cache_entry (Some old))"
    using account_cache.lookup_store [OF cache(1) run(3) adr run(6)] cache(2) by simp
  note loads = load_from_entry [where D = D, OF this]
  show ?thesis using run(1,2,4,5,7,8) loads(3) cache(3)
    by (intro exI [of _ acc] exI [of _ q] exI [of _ r] exI [of _ w2] exI [of _ s1] exI [of _ ds] exI [of _ us] exI [of _ w3] exI [of _ s'] exI [of _ cache']) simp
qed

lemma reregistration_keeps_cached_key_witness:
  "\<exists>acc s' cache'. register_user demo_registrar demo_prims demo_D True (demo_cache ''a'' 5) None 0 0x113101 (Some ''n'') (Some ''a'') (Some ''v'')
       None (Some ''c'') = Some (0, Some demo_answer, cache', Some acc, s') \<and>
    load_identity_key_from_cache cache' (Some (demo_address ''a'')) = Some (acc_identity_key (demo_user ''a'' 5))"
proof -
  have "storable_account demo_D (demo_user ''a'' 5)" "wf_cache demo_D (demo_cache ''a'' 5)"
      "find_account_in_cache (demo_cache ''a'' 5) (Some (demo_address ''a'')) = Some (Some (cache_entry (demo_user ''a'' 5)))"
    by (simp_all add: storable_account_def wf_cache_def demo_cache_def cache_entry_def cached_address_def demo_user_def demo_address_def
        demo_registered_simps wf_address_def wf_str_def wf_peer_def wf_identity_key_def wf_key_pair_def key_pair_of_def server_key_def compare_address_def)
  from reregistration_keeps_cached_key [OF demo_registration_hyps demo_registrar_requests this(2,3,1), of None 0]
  show ?thesis by (auto dest!: demo_registrar_invites) (auto simp: demo_registrar_def idle_plugin_def)
qed

subsection \<open>The signed pre-key\<close>

text \<open>
  The renewal of an expired signed pre-key.  \<open>q\<close> is the request the server gets; only an accepted key
  is stored in the database.
\<close>

definition clock_read :: "'w plugin \<Rightarrow> 'w \<Rightarrow> 'w" where
  "clock_read G w = snd (hs_gen_ts (pg_host G) w)"

lemma spk_renewal_run:
  assumes P: "prims_ok P" and raw: "is_valid_e2ees_pack_id P raw" and a: "pack_kem raw = Some a"
    and d: "pack_ds raw = Some d" "d \<noteq> DS_CURVE25519" "ds_documented P d"
    and acc: "acc_saved acc" "acc_e2ees_pack_id acc = raw" "acc_address acc = Some adr" "is_valid_address (Some adr)" "wf_address D adr"
      "acc_signed_pre_key acc = Some old" "acc_identity_key acc = Some ik" "ik_sign_key_pair ik = Some (key_pair_of sk pk)"
    and pair: "pr_sign_keypair P d t = (ret, pk, sk, t')"
    and expired: "spk_ttl old < fst (hs_gen_ts (pg_host G) w)"
    and auth: "\<And>v. is_valid_string (hs_load_auth (pg_host G) v (Some adr))" and f: "pg_publish_spk G = Some f"
  obtains spk q r w2 s' where
    "purge_signed_pre_key G P D w s acc = Some (acc\<lparr>acc_signed_pre_key := Some spk\<rparr>,
       pg_remove_expired_signed_pre_key G
         (if is_valid_publish_spk_response r then pg_update_signed_pre_key G w2 (Some adr) (Some spk) else w2) (Some adr), s')"
    "good_spk P raw pk (spk_id old) (fst (hs_gen_ts (pg_host G) (clock_read G w))) spk"
    "f (clock_read G (clock_read G w)) (Some adr)
       (hs_load_auth (pg_host G) (clock_read G (clock_read G w)) (Some adr)) q = (r, w2)"
    "psr_signed_pre_key_public q = copy_spk_to_public (Some spk)"
proof -
  obtain now w1 where ts: "hs_gen_ts (pg_host G) w = (now, w1)" by fastforce
  obtain now' v where ts': "hs_gen_ts (pg_host G) w1 = (now', v)" by fastforce
  obtain spk s' where spk: "generate_signed_pre_key P raw (spk_id old) (Some sk) now' s = Some (0, Some spk, s')"
      "good_spk P raw pk (spk_id old) now' spk"
    by (rule signed_pre_key_ok [OF P raw a d pair])
  obtain spkp where spkp: "copy_spk_to_public (Some spk) = Some spkp" using copy_spk_to_public_ok [OF spk(2)] by blast
  have valid: "is_valid_signed_pre_key (Some spk)" using spk(2) by (simp add: good_spk_def)
  let ?q = "\<lparr>psr_user_address = Some adr, psr_signed_pre_key_public = Some spkp\<rparr>"
  obtain r w2 where r: "f v (Some adr) (hs_load_auth (pg_host G) v (Some adr)) ?q = (r, w2)" by fastforce
  have publish: "\<exists>x. publish_spk_internal G P D v raw (Some adr) (Some spk) =
      Some (0, x, if is_valid_publish_spk_response r then pg_update_signed_pre_key G w2 (Some adr) (Some spk) else w2)"
    using auth [of v] raw acc(4,5) valid f r spkp
    by (simp add: publish_spk_internal_def is_valid_publish_spk_inputs_def produce_publish_spk_request_def address_copy.copy_id
        dispatch_proto_request_def consume_publish_spk_response_def)
  show ?thesis
  proof (rule that [of spk r w2 s' ?q])
    show "purge_signed_pre_key G P D w s acc = Some (acc\<lparr>acc_signed_pre_key := Some spk\<rparr>,
       pg_remove_expired_signed_pre_key G
         (if is_valid_publish_spk_response r then pg_update_signed_pre_key G w2 (Some adr) (Some spk) else w2) (Some adr), s')"
      using publish acc ts ts' expired spk(1) by (auto simp: purge_signed_pre_key_def key_pair_of_def)
  qed (use spk(2) ts ts' r spkp in \<open>simp_all add: clock_read_def\<close>)
qed

text \<open>
  C27: when the signed pre-key of a registered account has expired and the server accepts the new one,
  the account gets a key with the next number that expires seven days after its creation and whose
  signature verifies under the account's identity key; the server got its public part, and the database
  stores it before the expired keys are removed.
\<close>

theorem expired_spk_renewed:
  assumes "prims_ok P" and "is_valid_e2ees_pack_id P raw" and "pack_kem raw = Some a"
    and "pack_ds raw = Some d" "d \<noteq> DS_CURVE25519" "ds_documented P d"
    and "acc_saved acc" "acc_e2ees_pack_id acc = raw" "acc_address acc = Some adr" "is_valid_address (Some adr)" "wf_address D adr"
      "acc_signed_pre_key acc = Some old" "acc_identity_key acc = Some ik" "ik_sign_key_pair ik = Some (key_pair_of sk pk)"
    and "pr_sign_keypair P d t = (ret, pk, sk, t')"
    and "spk_ttl old < fst (hs_gen_ts (pg_host G) w)"
    and "\<And>v. is_valid_string (hs_load_auth (pg_host G) v (Some adr))"
    and "pg_publish_spk G = Some f" and accepts: "\<And>v u auth q. fst (f v u auth q) = Some \<lparr>pss_code = RESPONSE_CODE_OK\<rparr>"
  shows "\<exists>spk q w2 s'. purge_signed_pre_key G P D w s acc = Some (acc\<lparr>acc_signed_pre_key := Some spk\<rparr>,
       pg_remove_expired_signed_pre_key G (pg_update_signed_pre_key G w2 (Some adr) (Some spk)) (Some adr), s') \<and>
    good_spk P raw pk (spk_id old) (fst (hs_gen_ts (pg_host G) (clock_read G w))) spk \<and>
    w2 = snd (f (clock_read G (clock_read G w)) (Some adr) (hs_load_auth (pg_host G) (clock_read G (clock_read G w)) (Some adr)) q) \<and> psr_signed_pre_key_public q = copy_spk_to_public (Some spk)"
proof -
  obtain spk q r w2 s' where run:
    "purge_signed_pre_key G P D w s acc = Some (acc\<lparr>acc_signed_pre_key := Some spk\<rparr>, pg_remove_expired_signed_pre_key G
         (if is_valid_publish_spk_response r then pg_update_signed_pre_key G w2 (Some adr) (Some spk) else w2) (Some adr), s')"
    "good_spk P raw pk (spk_id old) (fst (hs_gen_ts (pg_host G) (clock_read G w))) spk"
    "f (clock_read G (clock_read G w)) (Some adr)
       (hs_load_auth (pg_host G) (clock_read G (clock_read G w)) (Some adr)) q = (r, w2)"
    "psr_signed_pre_key_public q = copy_spk_to_public (Some spk)"
    by (rule spk_renewal_run [OF assms(1-18)])
  have "r = Some \<lparr>pss_code = RESPONSE_CODE_OK\<rparr>" using accepts run(3) by (metis fst_conv)
  then have "is_valid_publish_spk_response r" by (simp add: is_valid_publish_spk_response_def)
  with run show ?thesis
    by (intro exI [of _ spk] exI [of _ q] exI [of _ w2] exI [of _ s'] conjI)
      simp_all
qed

text \<open>
  When the server refuses the new key or does not answer, the renewal is reported as a success: the
  new key is not stored, it is not pending, and the expired keys are removed from the database all the
  same.
\<close>

lemma refused_spk_counts_as_published:
  assumes "prims_ok P" and "is_valid_e2ees_pack_id P raw" and "pack_kem raw = Some a"
    and "pack_ds raw = Some d" "d \<noteq> DS_CURVE25519" "ds_documented P d"
    and "acc_saved acc" "acc_e2ees_pack_id acc = raw" "acc_address acc = Some adr" "is_valid_address (Some adr)" "wf_address D adr"
      "acc_signed_pre_key acc = Some old" "acc_identity_key acc = Some ik" "ik_sign_key_pair ik = Some (key_pair_of sk pk)"
    and "pr_sign_keypair P d t = (ret, pk, sk, t')"
    and "spk_ttl old < fst (hs_gen_ts (pg_host G) w)"
    and "\<And>v. is_valid_string (hs_load_auth (pg_host G) v (Some adr))"
    and "pg_publish_spk G = Some f" and refuses: "\<And>v u auth q. \<not> is_valid_publish_spk_response (fst (f v u auth q))"
  shows "\<exists>a' q s'. purge_signed_pre_key G P D w s acc = Some (a',
       pg_remove_expired_signed_pre_key G
         (snd (f (clock_read G (clock_read G w)) (Some adr) (hs_load_auth (pg_host G) (clock_read G (clock_read G w)) (Some adr)) q)) (Some adr), s')"
proof -
  obtain spk q r w2 s' where run:
    "purge_signed_pre_key G P D w s acc = Some (acc\<lparr>acc_signed_pre_key := Some spk\<rparr>, pg_remove_expired_signed_pre_key G
         (if is_valid_publish_spk_response r then pg_update_signed_pre_key G w2 (Some adr) (Some spk) else w2) (Some adr), s')"
    "f (clock_read G (clock_read G w)) (Some adr)
       (hs_load_auth (pg_host G) (clock_read G (clock_read G w)) (Some adr)) q = (r, w2)"
    by (rule spk_renewal_run [OF assms(1-18)])
  then have "\<not> is_valid_publish_spk_response r" using refuses by (metis fst_conv)
  with run show ?thesis
    by (intro exI [of _ "acc\<lparr>acc_signed_pre_key := Some spk\<rparr>"] exI [of _ q] exI [of _ s']) simp
qed

text \<open>A database of signed pre-keys, given to the server and stored.\<close>

record spk_world =
  sw_published :: "publish_spk_request list"
  sw_stored :: "signed_pre_key ptr list"

definition demo_publisher :: "response_code \<Rightarrow> spk_world plugin" where
  "demo_publisher code = (idle_plugin (idle_host\<lparr>hs_gen_ts := (\<lambda>w. (10, w)), hs_load_auth := (\<lambda>w adr. Some ''t'')\<rparr>))
     \<lparr>pg_publish_spk := Some (\<lambda>w adr auth q. (Some \<lparr>pss_code = code\<rparr>, w\<lparr>sw_published := sw_published w @ [q]\<rparr>)),
      pg_update_signed_pre_key := (\<lambda>w adr k. w\<lparr>sw_stored := sw_stored w @ [k]\<rparr>),
      pg_remove_expired_signed_pre_key := (\<lambda>w adr. w\<lparr>sw_stored := drop (length (sw_stored w) - 1) (sw_stored w)\<rparr>)\<rparr>"

definition demo_saved :: account where
  "demo_saved = (demo_user ''a'' 5)\<lparr>acc_saved := True\<rparr>"

lemma demo_renewal_hyps:
  "prims_ok demo_prims" "is_valid_e2ees_pack_id demo_prims 0x113101" "pack_kem 0x113101 = Some KEM_MLKEM1024"
  "pack_ds 0x113101 = Some DS_MLDSA87" "DS_MLDSA87 \<noteq> DS_CURVE25519" "ds_documented demo_prims DS_MLDSA87"
  "acc_saved demo_saved" "acc_e2ees_pack_id demo_saved = 0x113101" "acc_address demo_saved = Some (demo_address ''a'')"
  "is_valid_address (Some (demo_address ''a''))" "wf_address demo_D (demo_address ''a'')" "acc_signed_pre_key demo_saved = Some (demo_spk 2 7)"
  "acc_identity_key demo_saved = Some \<lparr>ik_asym_key_pair = Some (key_pair_of [5] [5]), ik_sign_key_pair = Some (key_pair_of [9] [9])\<rparr>"
  "ik_sign_key_pair \<lparr>ik_asym_key_pair = Some (key_pair_of [5] [5]), ik_sign_key_pair = Some (key_pair_of [9] [9])\<rparr> = Some (key_pair_of [9] [9])"
  "pr_sign_keypair demo_prims DS_MLDSA87 9 = (0, [9], [9], 10)" "spk_ttl (demo_spk 2 7) < fst (hs_gen_ts (pg_host (demo_publisher code)) w)"
  "is_valid_string (hs_load_auth (pg_host (demo_publisher code)) v (Some (demo_address ''a'')))"
  "pg_publish_spk (demo_publisher code) = Some (\<lambda>w adr auth q. (Some \<lparr>pss_code = code\<rparr>, w\<lparr>sw_published := sw_published w @ [q]\<rparr>))"
  using demo_prims_ok demo_pack demo_ds
  by (simp_all add: demo_saved_def demo_user_def demo_spk_def demo_registered_def demo_address_def is_valid_address_def wf_address_def wf_str_def
      demo_prims_def demo_publisher_def idle_plugin_def)

theorem expired_spk_renewed_witness:
  "\<exists>spk q s'. purge_signed_pre_key (demo_publisher RESPONSE_CODE_OK) demo_prims demo_D \<lparr>sw_published = [], sw_stored = [Some (demo_spk 2 7)]\<rparr> 0 demo_saved =
      Some (demo_saved\<lparr>acc_signed_pre_key := Some spk\<rparr>, \<lparr>sw_published = [q], sw_stored = [Some spk]\<rparr>, s') \<and>
    spk_id spk = 3 \<and> psr_signed_pre_key_public q = copy_spk_to_public (Some spk)"
proof -
  have clock: "clock_read (demo_publisher RESPONSE_CODE_OK) w = w" for w by (simp add: clock_read_def demo_publisher_def idle_plugin_def)
  have "fst ((\<lambda>w adr auth q. (Some \<lparr>pss_code = RESPONSE_CODE_OK\<rparr>, w\<lparr>sw_published := sw_published w @ [q]\<rparr>)) v u auth q) =
      Some \<lparr>pss_code = RESPONSE_CODE_OK\<rparr>" for v u auth q by simp
  from expired_spk_renewed [OF demo_renewal_hyps this, of "\<lparr>sw_published = [], sw_stored = [Some (demo_spk 2 7)]\<rparr>" 0]
  show ?thesis unfolding clock by (auto simp: demo_publisher_def good_spk_def demo_spk_def)
qed

lemma refused_spk_counts_as_published_witness:
  "\<exists>a' q s'. purge_signed_pre_key (demo_publisher RESPONSE_CODE_NOT_FOUND) demo_prims demo_D
      \<lparr>sw_published = [], sw_stored = [Some (demo_spk 1 6), Some (demo_spk 2 7)]\<rparr> 0 demo_saved =
    Some (a', \<lparr>sw_published = [q], sw_stored = [Some (demo_spk 2 7)]\<rparr>, s')"
proof -
  have clock: "clock_read (demo_publisher RESPONSE_CODE_NOT_FOUND) w = w" for w by (simp add: clock_read_def demo_publisher_def idle_plugin_def)
  have "\<not> is_valid_publish_spk_response (fst ((\<lambda>w adr auth q. (Some \<lparr>pss_code = RESPONSE_CODE_NOT_FOUND\<rparr>, w\<lparr>sw_published := sw_published w @ [q]\<rparr>)) v u auth q))"
    for v u auth q by (simp add: is_valid_publish_spk_response_def)
  from refused_spk_counts_as_published [OF demo_renewal_hyps this, of "\<lparr>sw_published = [], sw_stored = [Some (demo_spk 1 6), Some (demo_spk 2 7)]\<rparr>" 0]
  show ?thesis unfolding clock by (auto simp: demo_publisher_def)
qed

subsection \<open>More one-time pre-keys\<close>

lemma add_opks_loop_fold:
  assumes "i + k = length ks"
  shows "add_opks_loop G adr (Some (map Some ks)) i k w = Some (fold (\<lambda>key w. pg_add_one_time_pre_key G w adr (Some key)) (drop i ks) w)"
  using assms
proof (induction k arbitrary: i w)
  case 0
  then show ?case by simp
next
  case (Suc k)
  then have i: "i < length ks" by simp
  then have drop: "drop i ks = ks ! i # drop (Suc i) ks" by (simp add: Cons_nth_drop_Suc)
  have "add_opks_loop G adr (Some (map Some ks)) (Suc i) k v = Some (fold (\<lambda>key w. pg_add_one_time_pre_key G w adr (Some key)) (drop (Suc i) ks) v)" for v
    using Suc.prems by (intro Suc.IH) simp
  then show ?case using i by (simp add: drop array_get_def)
qed

text \<open>
  C28: asked by the server for more one-time pre-keys, a registered account makes as many unused ones as
  asked for, numbered from its next number on (modulo \<open>2 ^ 32\<close>); the server gets their public parts,
  and when it accepts them, exactly these keys are added to the database, in order.
\<close>

theorem supplied_opks_numbered:
  assumes P: "prims_ok P" and raw: "is_valid_e2ees_pack_id P raw" and a: "pack_kem raw = Some a"
    and acc: "hs_load_account_by_address (pg_host G) w (Some adr) = Some acc" "is_valid_registered_account P (Some acc) = Some True"
      "acc_e2ees_pack_id acc = raw" "acc_address acc = Some adr" "wf_address D adr" "wf_peer adr"
    and n: "n \<noteq> 0"
    and f: "pg_supply_opks G = Some f" "\<And>q. fst (f w (Some adr) (acc_auth acc) q) = Some \<lparr>sos_code = RESPONSE_CODE_OK\<rparr>"
  shows "\<exists>ks q s'. consume_supply_opks_msg G P D w s (Some adr) (Some \<lparr>som_opks_num = n, som_user_address = Some adr\<rparr>) =
      Some (True, fold (\<lambda>key w. pg_add_one_time_pre_key G w (Some adr) (Some key)) ks (snd (f w (Some adr) (acc_auth acc) q)), s') \<and>
    map opk_id ks = map (\<lambda>j. acc_next_one_time_pre_key_id acc + of_nat j) [0..<unat n] \<and> (\<forall>k\<in>set ks. \<not> opk_used k) \<and>
    soq_one_time_pre_key_public_list q = Some (map (Some \<circ> opk_to_public) ks)"
proof -
  have adr: "is_valid_address (Some adr)"
    using acc(2,4) by (simp add: is_valid_registered_account_def split: if_splits)
  have same: "compare_address (Some adr) (Some adr) = Some True" using compare_address_id [OF acc(6) acc(6)] by simp
  obtain ks s' where ks: "generate_opks P (unat n) raw (acc_next_one_time_pre_key_id acc) s = Some (0, Some (map Some ks), s')"
      "map opk_id ks = map (\<lambda>j. acc_next_one_time_pre_key_id acc + of_nat j) [0..<unat n]"
      "\<forall>k\<in>set ks. \<not> opk_used k \<and> set_ptr (generated (pr_kem_pk_bytes P a) (pr_kem_sk_bytes P a)) (opk_key_pair k)"
    using generate_opks_ok [OF P raw a] by blast
  have len: "length ks = unat n" using arg_cong [OF ks(2), of length] by simp
  have "\<forall>k\<in>set ks. set_ptr wf_key_pair (opk_key_pair k)" using ks(3) generated_valid(2) by (auto elim!: set_ptrE)
  note public = copy_opks_to_public_ok [OF this, unfolded len]
  let ?q = "\<lparr>soq_e2ees_pack_id = raw, soq_user_address = Some adr, soq_n_one_time_pre_key_public_list = unat n,
    soq_one_time_pre_key_public_list = Some (map (Some \<circ> opk_to_public) ks)\<rparr>"
  obtain w1 where w1: "f w (Some adr) (acc_auth acc) ?q = (Some \<lparr>sos_code = RESPONSE_CODE_OK\<rparr>, w1)"
    using f(2) [of ?q] by (metis prod.collapse)
  have add: "add_opks_loop G (Some adr) (Some (map Some ks)) 0 (unat n) w1 =
      Some (fold (\<lambda>key w. pg_add_one_time_pre_key G w (Some adr) (Some key)) ks w1)"
    using add_opks_loop_fold [of 0 "unat n" ks] len by simp
  have "supply_opks_internal G P D w s (Some acc) n = Some (0, Some \<lparr>sos_code = RESPONSE_CODE_OK\<rparr>,
      fold (\<lambda>key w. pg_add_one_time_pre_key G w (Some adr) (Some key)) ks w1, s')"
    using n acc(2-5) ks(1) public f(1) w1 add
    by (simp add: supply_opks_internal_def is_valid_supply_opks_inputs_def produce_supply_opks_request_def address_copy.copy_id
        dispatch_proto_request_def is_valid_supply_opks_response_def consume_supply_opks_response_def)
  then have "consume_supply_opks_msg G P D w s (Some adr) (Some \<lparr>som_opks_num = n, som_user_address = Some adr\<rparr>) =
      Some (True, fold (\<lambda>key w. pg_add_one_time_pre_key G w (Some adr) (Some key)) ks (snd (f w (Some adr) (acc_auth acc) ?q)), s')"
    using adr same acc(1) w1 by (simp add: consume_supply_opks_msg_def is_valid_supply_opks_msg_def)
  then show ?thesis using ks(2,3) by (intro exI [of _ ks] exI [of _ ?q] exI [of _ s'] conjI) simp_all
qed

definition demo_supplier :: "one_time_pre_key ptr list plugin" where
  "demo_supplier = (idle_plugin (idle_host\<lparr>hs_load_account_by_address := (\<lambda>w adr. Some ((demo_user ''a'' 5)\<lparr>acc_next_one_time_pre_key_id := 4\<rparr>))\<rparr>))
     \<lparr>pg_add_one_time_pre_key := (\<lambda>w adr k. w @ [k]), pg_supply_opks := Some (\<lambda>w adr auth q. (Some \<lparr>sos_code = RESPONSE_CODE_OK\<rparr>, w))\<rparr>"

theorem supplied_opks_numbered_witness:
  "\<exists>ks s'. consume_supply_opks_msg demo_supplier demo_prims demo_D [] 0 (Some (demo_address ''a''))
      (Some \<lparr>som_opks_num = 2, som_user_address = Some (demo_address ''a'')\<rparr>) =
      Some (True, fold (\<lambda>key w. w @ [Some key]) ks [], s') \<and> map opk_id ks = [4, 5]"
proof -
  let ?acc = "(demo_user ''a'' 5)\<lparr>acc_next_one_time_pre_key_id := 4\<rparr>"
  have acc: "hs_load_account_by_address (pg_host demo_supplier) [] (Some (demo_address ''a'')) = Some ?acc"
      "is_valid_registered_account demo_prims (Some ?acc) = Some True" "acc_e2ees_pack_id ?acc = 0x113101"
      "acc_address ?acc = Some (demo_address ''a'')" "wf_address demo_D (demo_address ''a'')" "wf_peer (demo_address ''a'')"
    using demo_pack(1) [of demo_prims]
    by (simp_all add: demo_supplier_def idle_plugin_def demo_user_def demo_registered_simps demo_address_def wf_address_def wf_str_def wf_peer_def
        demo_spk_def key_pair_of_def valid_array_eq is_valid_one_time_pre_key_def)
  have f: "pg_supply_opks demo_supplier = Some (\<lambda>w adr auth q. (Some \<lparr>sos_code = RESPONSE_CODE_OK\<rparr>, w))"
      "fst ((\<lambda>w adr auth q. (Some \<lparr>sos_code = RESPONSE_CODE_OK\<rparr>, w)) [] (Some (demo_address ''a'')) (acc_auth ?acc) q) = Some \<lparr>sos_code = RESPONSE_CODE_OK\<rparr>" for q
    by (simp_all add: demo_supplier_def)
  from supplied_opks_numbered [OF demo_prims_ok demo_pack acc _ f, of 2 0]
  obtain ks s' where "consume_supply_opks_msg demo_supplier demo_prims demo_D [] 0 (Some (demo_address ''a''))
      (Some \<lparr>som_opks_num = 2, som_user_address = Some (demo_address ''a'')\<rparr>) =
      Some (True, fold (\<lambda>key w. pg_add_one_time_pre_key demo_supplier w (Some (demo_address ''a'')) (Some key)) ks [], s')"
    "map opk_id ks = map (\<lambda>j. 4 + of_nat j) [0..<unat (2 :: u32)]" by auto
  then show ?thesis by (intro exI [of _ ks] exI [of _ s']) (simp add: demo_supplier_def upt_rec)
qed

end
