(* ===== verification/Group_Renewal_Props.thy ===== *)
theory Group_Renewal_Props
  imports Group_Renewal Group_Props Account_Manager_Props
begin

section \<open>Properties of changes of a group\<close>

text \<open>
  When members are added every device renews its sessions.  The devices agree afterwards where they
  agreed before; a device that has not received all messages of another falls out of step for good.
\<close>

subsection \<open>A device of a group\<close>

text \<open>
  A device with its own session \<open>g\<close> and the database \<open>stored\<close>, whose account has a signing key and a
  token, and which gets as far as handing the keys of the group to the added members, whether or not
  they are reached.
\<close>

definition group_device ::
    "'w plugin \<Rightarrow> prims \<Rightarrow> gen_defaults \<Rightarrow> u32 \<Rightarrow> cache \<Rightarrow> 'w \<Rightarrow> seed \<Rightarrow> address \<Rightarrow> address \<Rightarrow> group_info \<Rightarrow> bytes \<Rightarrow> group_session \<Rightarrow>
     ('w \<Rightarrow> group_session list) \<Rightarrow> group_member ptr list \<Rightarrow> bool" where
  "group_device G P D raw cache w s owner gadr gi k g stored ys \<longleftrightarrow>
     own_session P D raw owner gadr gi k g \<and> sessions_documented (pg_host G) owner gadr stored \<and>
     (\<forall>x\<in>set (stored w). group_entry P raw x) \<and>
     (\<exists>vk auth. own_key_and_auth (pg_host G) cache w (Some owner) = Some (0, Some (buf vk), auth) \<and> vk \<noteq> [] \<and>
        (\<forall>data. \<exists>w1 s1. send_key_to_members_loop (pg_host G) P D cache (Some owner) auth data (Some ys) 0 (length ys) w s = Some (w1, s1) \<and>
           stored w1 = stored w))"

definition good_devices :: "prims \<Rightarrow> gen_defaults \<Rightarrow> ds_alg \<Rightarrow> (address \<times> bytes) list \<Rightarrow> bool" where
  "good_devices P D d devs \<longleftrightarrow> devs \<noteq> [] \<and> (\<forall>dev\<in>set devs. good_address D (fst dev) \<and> length (snd dev) = pr_sign_pk_bytes P d)"

text \<open>The answer of the server and the message to the other devices about the same addition.\<close>

definition addition_response :: "(address \<times> bytes) list \<Rightarrow> add_group_members_response \<Rightarrow> bool" where
  "addition_response devs r \<longleftrightarrow> is_valid_add_group_members_response (Some r) = Some True \<and>
     ags_n_adding_member_info_list r = length devs \<and> ags_adding_member_info_list r = Some (map device_info devs)"

definition addition_msg ::
    "prims \<Rightarrow> address \<Rightarrow> address \<Rightarrow> u32 \<Rightarrow> (address \<times> bytes) list \<Rightarrow> group_member ptr list \<Rightarrow> add_group_members_msg \<Rightarrow> bool" where
  "addition_msg P sender gadr seq devs ys m \<longleftrightarrow> is_valid_add_group_members_msg P (Some m) = Some True \<and>
     agm_sender_address m = Some sender \<and> agm_sequence m = seq \<and> map_option gi_group_address (agm_group_info m) = Some (Some gadr) \<and>
     agm_n_adding_member_info_list m = length devs \<and> agm_adding_member_info_list m = Some (map device_info devs) \<and>
     agm_n_adding_member_list m = length ys \<and> agm_adding_member_list m = Some ys"

lemma same_stream_new:
  assumes "gs_session_id g = gs_session_id h" and "dev \<in> set devs" and "length ks = length devs"
  shows "\<exists>x\<in>set (map2 (session_with D g) devs ks). \<exists>y\<in>set (map2 (session_with D h) devs ks).
    gs_sender x = Some (fst dev) \<and> same_stream x y"
proof -
  obtain i where i: "i < length devs" "dev = devs ! i" using assms(2) by (metis in_set_conv_nth)
  then have "(dev, ks ! i) \<in> set (zip devs ks)" using assms(3) by (auto simp: in_set_zip)
  then show ?thesis using assms(1)
    by (intro bexI [of _ "session_with D g dev (ks ! i)"] bexI [of _ "session_with D h dev (ks ! i)"])
      (auto simp: same_stream_def session_with_def intro!: rev_image_eqI [where x = "(dev, ks ! i)"])
qed

text \<open>What the device \<open>B\<close> stores when \<open>A\<close> adds members, \<open>t\<close> being the key of \<open>A\<close> at the number of the message.\<close>

definition stored_by_member ::
    "prims \<Rightarrow> gen_defaults \<Rightarrow> address \<Rightarrow> address \<Rightarrow> group_info \<Rightarrow> bytes \<Rightarrow> group_session \<Rightarrow> bytes \<Rightarrow> (address \<times> bytes) list \<Rightarrow>
     group_member ptr list \<Rightarrow> group_session list \<Rightarrow> group_session list" where
  "stored_by_member P D B A gi k g t devs ys xs =
     (let g' = own_after P (with_members gi ys) (length devs) (Some t) k g
      in g' # others_after P B A (with_members gi ys) (length devs) (Some t) k xs @ new_after P D (Some t) k g' devs)"

lemma member_run_sends:
  assumes L: "library_group P raw a d" and B: "group_device G P D raw cache w s B gadr gi k g stored ys"
    and A: "good_address D A" "user_address A" and "good_devices P D d devs" and "good_members D ys"
    and "addition_msg P A gadr seq devs ys m"
    and load: "hs_load_group_session_by_address (pg_host G) w (Some B) (Some B) (Some gadr) = Some g"
      "hs_load_group_session_by_id (pg_host G) w (Some A) (Some B) (gs_session_id g) = Some IA"
    and IA: "IA \<in> set (stored w)" "group_chain_at (std_mac P) (group_chain_of IA) (unat seq - unat (gs_sequence IA)) = t"
    and own: "own_key_and_auth (pg_host G) cache w (Some B) = Some (0, Some (buf vk), auth)"
  shows "\<exists>w' s' (info :: group_info). consume_add_group_members_msg G P D cache w s (Some B) (Some m) =
      Some (True, pg_on_group_members_added G (store_sessions (pg_host G) (stored_by_member P D B A gi k g t devs ys (stored w)) w') (Some B) (Some gadr)
        (gi_group_name info) (gi_group_member_list info) (gi_n_group_member_list info) (Some ys) (length ys), s') \<and>
    send_key_to_members_loop (pg_host G) P D cache (Some B) auth
      (pack_group_ratchet_state (pg_host G) (update_bundle (g\<lparr>gs_group_info := Some (with_members gi ys)\<rparr>) False vk devs)) (Some ys) 0 (length ys) w s = Some (w', s')"
proof -
  have devs: "\<forall>dev\<in>set devs. good_address D (fst dev) \<and> length (snd dev) = pr_sign_pk_bytes P d" "devs \<noteq> []"
    using assms(5) by (simp_all add: good_devices_def)
  have g: "own_session P D raw B gadr gi k g" "sessions_documented (pg_host G) B gadr stored" "\<forall>x\<in>set (stored w). group_entry P raw x"
    using B by (simp_all add: group_device_def)
  have send: "vk \<noteq> []"
      "\<And>data. \<exists>w1 s1. send_key_to_members_loop (pg_host G) P D cache (Some B) auth data (Some ys) 0 (length ys) w s = Some (w1, s1) \<and>
        stored w1 = stored w" using B own unfolding group_device_def by auto
  have m: "is_valid_add_group_members_msg P (Some m) = Some True" "agm_sender_address m = Some A"
      "map_option gi_group_address (agm_group_info m) = Some (Some gadr)" "agm_n_adding_member_info_list m = length devs"
      "agm_adding_member_info_list m = Some (map device_info devs)" "agm_n_adding_member_list m = length ys" "agm_adding_member_list m = Some ys"
      "agm_sequence m = seq"
    using assms(7) by (simp_all add: addition_msg_def)
  have IA': "group_entry P raw IA" using g(3) IA(1) by simp
  show ?thesis
    using library_group.addition_by_member [OF L g(1) own send(1) A devs assms(6) send(2) g(2,3) load IA' m(1-7), unfolded m(8) IA(2)]
    unfolding stored_by_member_def Let_def by blast
qed

lemma member_run:
  assumes L: "library_group P raw a d" and B: "group_device G P D raw cache w s B gadr gi k g stored ys"
    and A: "good_address D A" "user_address A" and "good_devices P D d devs" and "good_members D ys"
    and "addition_msg P A gadr seq devs ys m"
    and load: "hs_load_group_session_by_address (pg_host G) w (Some B) (Some B) (Some gadr) = Some g"
      "hs_load_group_session_by_id (pg_host G) w (Some A) (Some B) (gs_session_id g) = Some IA"
    and IA: "IA \<in> set (stored w)" "group_chain_at (std_mac P) (group_chain_of IA) (unat seq - unat (gs_sequence IA)) = t"
  shows "\<exists>w' s' (info :: group_info). consume_add_group_members_msg G P D cache w s (Some B) (Some m) =
      Some (True, pg_on_group_members_added G (store_sessions (pg_host G) (stored_by_member P D B A gi k g t devs ys (stored w)) w') (Some B) (Some gadr)
        (gi_group_name info) (gi_group_member_list info) (gi_n_group_member_list info) (Some ys) (length ys), s')"
proof -
  obtain vk auth where "own_key_and_auth (pg_host G) cache w (Some B) = Some (0, Some (buf vk), auth)"
    using B unfolding group_device_def by blast
  from member_run_sends [OF assms this] show ?thesis by blast
qed

text \<open>What the device \<open>A\<close> that adds the members stores.\<close>

definition stored_by_adder ::
    "prims \<Rightarrow> gen_defaults \<Rightarrow> address \<Rightarrow> group_info \<Rightarrow> bytes \<Rightarrow> group_session \<Rightarrow> (address \<times> bytes) list \<Rightarrow> group_member ptr list \<Rightarrow>
     group_session list \<Rightarrow> group_session list" where
  "stored_by_adder P D A gi k g devs ys xs =
     (let g' = own_after P (with_members gi ys) (length devs) None k g
      in g' # others_after P A A (with_members gi ys) (length devs) None k xs @ new_after P D None k g' devs)"

lemma adder_run_sends:
  assumes L: "library_group P raw a d" and A: "group_device G P D raw cache w s A gadr gi k g stored ys"
    and "good_devices P D d devs" and "good_members D ys" and "addition_response devs r"
    and own: "own_key_and_auth (pg_host G) cache w (Some A) = Some (0, Some (buf vk), auth)"
  shows "\<exists>w' s'. consume_add_group_members_response G P D cache w s (Some g) (Some r) (Some ys) (length ys) =
      Some (0, pg_on_group_members_added G (store_sessions (pg_host G) (stored_by_adder P D A gi k g devs ys (stored w)) w') (Some A) (Some gadr)
        (gi_group_name gi) (ags_group_member_list r) (ags_n_group_member_list r) (Some ys) (length ys), s') \<and>
    send_key_to_members_loop (pg_host G) P D cache (Some A) auth
      (pack_group_ratchet_state (pg_host G) (update_bundle (g\<lparr>gs_group_info := Some (with_members gi ys)\<rparr>) True vk devs)) (Some ys) 0 (length ys) w s = Some (w', s')"
proof -
  have devs: "\<forall>dev\<in>set devs. good_address D (fst dev) \<and> length (snd dev) = pr_sign_pk_bytes P d" "devs \<noteq> []"
    using assms(3) by (simp_all add: good_devices_def)
  have g: "own_session P D raw A gadr gi k g" "sessions_documented (pg_host G) A gadr stored" "\<forall>x\<in>set (stored w). group_entry P raw x"
    using A by (simp_all add: group_device_def)
  have send: "vk \<noteq> []"
      "\<And>data. \<exists>w1 s1. send_key_to_members_loop (pg_host G) P D cache (Some A) auth data (Some ys) 0 (length ys) w s = Some (w1, s1) \<and>
        stored w1 = stored w" using A own unfolding group_device_def by auto
  have r: "is_valid_add_group_members_response (Some r) = Some True" "ags_n_adding_member_info_list r = length devs"
      "ags_adding_member_info_list r = Some (map device_info devs)"
    using assms(5) by (simp_all add: addition_response_def)
  have name: "gi_group_name (with_members gi ys) = gi_group_name gi" by (simp add: with_members_def)
  show ?thesis
    using library_group.addition_by_adder [OF L g(1) own send(1) devs assms(4) send(2) g(2,3) r]
    unfolding stored_by_adder_def Let_def name by blast
qed

subsection \<open>A concrete group\<close>

text \<open>
  The database of a device is the list of its sessions of the group; no session with a user who is not
  in the group exists and the server does not hand out pre-key bundles.
\<close>

definition demo_device :: "group_session list plugin" where
  "demo_device = idle_plugin (idle_host
     \<lparr>hs_load_auth := (\<lambda>w adr. Some ''t''),
      hs_store_group_session := (\<lambda>w x. x # filter (\<lambda>y. gs_sender y \<noteq> gs_sender x) w),
      hs_load_group_sessions := (\<lambda>w adr gadr. (length w, Some (map Some w))),
      hs_load_group_session_by_id := (\<lambda>w a b i. find (\<lambda>x. gs_sender x = a) w),
      hs_load_group_session_by_address := (\<lambda>w a b g. find (\<lambda>x. gs_sender x = a) w)\<rparr>)"

definition demo_stream_of :: "string \<Rightarrow> string \<Rightarrow> nat \<Rightarrow> group_session" where
  "demo_stream_of u v i = group_at (std_mac demo_prims) demo_chain (demo_inbound\<lparr>gs_sender := Some (demo_address u), gs_session_owner := Some (demo_address v)\<rparr>) i"

lemma demo_stream_of_simps [simp]:
  "gs_sender (demo_stream_of u v i) = Some (demo_address u)" "gs_session_id (demo_stream_of u v i) = Some ''s''"
  "gs_associated_data (demo_stream_of u v i) = buf [9, 9]" "gs_sequence (demo_stream_of u v i) = of_nat i"
  "group_chain_of (demo_stream_of u v i) = group_chain_at (std_mac demo_prims) demo_chain i"
  by (simp_all add: demo_stream_of_def demo_inbound_def group_chain_of_def)

lemma demo_address_eq [simp]: "demo_address u = demo_address v \<longleftrightarrow> u = v" "address_id (demo_address u) = address_id (demo_address v) \<longleftrightarrow> u = v"
  by (auto simp: demo_address_def address_id_def)

lemma demo_device_load [simp]:
  "hs_load_group_session_by_address (pg_host demo_device) w a b g = find (\<lambda>x. gs_sender x = a) w"
  "hs_load_group_session_by_id (pg_host demo_device) w a b i = find (\<lambda>x. gs_sender x = a) w"
  by (simp_all add: demo_device_def idle_plugin_def)

lemma demo_stream_of_entry:
  assumes "u \<noteq> []" "v \<noteq> []"
  shows "is_valid_group_session demo_prims (Some (demo_stream_of u v i)) = Some True" "group_entry demo_prims 0x113101 (demo_stream_of u v i)"
    "own_session demo_prims demo_D 0x113101 (demo_address u) demo_gadr demo_gi (group_chain_at (std_mac demo_prims) demo_chain i) (demo_stream_of u u i)"
proof -
  let ?k = "group_chain_at (std_mac demo_prims) demo_chain i"
  have k: "length ?k = 32"
    by (rule group_suite.chain_length [OF group_suite_of [OF demo_library]]) (simp add: demo_chain_def)
  then have "?k \<noteq> []" by auto
  then have valid: "is_valid_group_session demo_prims (Some (demo_stream_of u v i)) = Some True" if "u \<noteq> []" "v \<noteq> []" for u v
    using demo_good(1) [OF that(1)] demo_good(1) [OF that(2)] demo_good(3) demo_pack(1)
    by (simp add: demo_stream_of_def is_valid_group_session_def demo_inbound_def good_address_def good_group_def and_then_def)
  show "is_valid_group_session demo_prims (Some (demo_stream_of u v i)) = Some True" by (rule valid [OF assms])
  show "group_entry demo_prims 0x113101 (demo_stream_of u v i)"
    using valid [OF assms] k by (auto simp: group_entry_def demo_stream_of_def demo_inbound_def demo_address_def user_address_def)
  show "own_session demo_prims demo_D 0x113101 (demo_address u) demo_gadr demo_gi ?k (demo_stream_of u u i)"
    using valid [OF assms(1,1)] k demo_good(1) [OF assms(1)] demo_good(3)
    by (auto simp: own_session_def demo_stream_of_def demo_inbound_def demo_address_def user_address_def)
qed

lemma demo_device_documented: "user_address owner \<Longrightarrow> sessions_documented (pg_host demo_device) owner gadr (\<lambda>w. w)"
  by (auto simp: sessions_documented_def demo_device_def idle_plugin_def is_from_def intro!: filter_cong)

abbreviation (input) demo_new_members :: "group_member ptr list" where
  "demo_new_members \<equiv> [Some (demo_member ''n'')]"

abbreviation (input) demo_new_devices :: "(address \<times> bytes) list" where
  "demo_new_devices \<equiv> [(demo_address ''n'', [9])]"

lemma demo_send_keys:
  "send_key_to_members_loop (pg_host demo_device) demo_prims demo_D cache adr auth data (Some demo_new_members) 0 (length demo_new_members) w s = Some (w, s)"
proof -
  have "\<exists>r. get_pre_key_bundle_internal (pg_host demo_device) demo_prims demo_D cache w s adr auth (Some ''n'') (Some ''d'') None True (Some data) = Some (r, None, w, s)"
    by (auto simp: get_pre_key_bundle_internal_def produce_get_pre_key_bundle_request_def demo_device_def idle_plugin_def idle_host_def
        dispatch_proto_request_def is_valid_get_pre_key_bundle_response_def Let_def)
  then show ?thesis by (auto simp: array_get_def demo_member_def demo_device_def idle_plugin_def idle_host_def)
qed

lemma demo_own_key:
  "own_key_and_auth (pg_host demo_device) (demo_cache u n) w (Some (demo_address u)) = Some (0, Some (buf [9]), Some ''t'')"
  using demo_cached [of u n] by (simp add: own_key_and_auth_def demo_device_def idle_plugin_def demo_user_def key_pair_of_def)

lemma demo_behind:
  "group_chain_at (std_mac demo_prims) (group_chain_of (demo_stream_of ''a'' ''b'' 1))
      (unat (gs_sequence (demo_stream_of ''a'' ''a'' 3)) - unat (gs_sequence (demo_stream_of ''a'' ''b'' 1))) = group_chain_at (std_mac demo_prims) demo_chain 3"
  by (simp, simp add: group_chain_at_def numeral_2_eq_2 numeral_3_eq_3)

lemma demo_group_device:
  assumes "u \<noteq> []" and "\<forall>x\<in>set w. group_entry demo_prims 0x113101 x"
  shows "group_device demo_device demo_prims demo_D 0x113101 (demo_cache u n) w s (demo_address u) demo_gadr demo_gi
    (group_chain_at (std_mac demo_prims) demo_chain i) (demo_stream_of u u i) (\<lambda>w. w) demo_new_members"
proof -
  have "user_address (demo_address u)" by (simp add: user_address_def demo_address_def)
  then show ?thesis
    unfolding group_device_def using demo_own_key demo_stream_of_entry(3) [OF assms(1,1)] demo_device_documented demo_send_keys assms(2)
    by (intro conjI exI [of _ "[9]"] exI [of _ "Some ''t''"]) auto
qed

lemma demo_addition:
  "good_devices demo_prims demo_D DS_MLDSA87 demo_new_devices" "good_members demo_D demo_new_members"
  using demo_good(1) [of "''n''"]
  by (simp_all add: good_devices_def demo_fixed(3) good_members_def demo_member_def wf_member_def wf_str_def is_valid_group_member_def)

definition demo_addition_response :: add_group_members_response where
  "demo_addition_response = \<lparr>ags_code = RESPONSE_CODE_OK, ags_n_added_group_member_list = 1, ags_added_group_member_list = Some demo_new_members,
     ags_n_group_member_list = 1, ags_group_member_list = Some demo_new_members, ags_n_adding_member_info_list = 1,
     ags_adding_member_info_list = Some (map device_info demo_new_devices)\<rparr>"

definition demo_addition_msg :: "u32 \<Rightarrow> add_group_members_msg" where
  "demo_addition_msg seq = \<lparr>agm_e2ees_pack_id = 0x113101, agm_sender_address = Some (demo_address ''a''), agm_sequence = seq, agm_group_info = Some demo_gi,
     agm_n_adding_member_info_list = 1, agm_adding_member_info_list = Some (map device_info demo_new_devices),
     agm_n_adding_member_list = 1, agm_adding_member_list = Some demo_new_members\<rparr>"

lemma demo_addition_delivered:
  "addition_response demo_new_devices demo_addition_response"
  "addition_msg demo_prims (demo_address ''a'') demo_gadr seq demo_new_devices demo_new_members (demo_addition_msg seq)"
  using demo_good(1) [of "''n''"] demo_good(1) [of "''a''"] demo_good(3) demo_pack(1)
  by (simp_all add: addition_response_def addition_msg_def demo_addition_response_def demo_addition_msg_def is_valid_add_group_members_response_def
      is_valid_add_group_members_msg_def and_then_def is_valid_group_member_list_def is_valid_group_member_info_list_def valid_array_eq
      is_valid_group_member_def demo_member_def is_valid_group_member_info_def good_address_def good_group_def demo_gi_def)

subsection \<open>Agreement after an addition\<close>

text \<open>
  C3: the device \<open>A\<close> adds members and another device \<open>B\<close> of the group gets the message about it, both
  with the same sessions: \<open>B\<close>'s session with \<open>A\<close> may be behind \<open>A\<close>'s own, \<open>A\<close>'s session with \<open>B\<close> is
  where \<open>B\<close>'s own is.  Both succeed, and among the sessions each stores, those with \<open>A\<close>, those with
  \<open>B\<close> and those with every added device are again at the same key, number, associated data and id.
\<close>

theorem members_agree_after_addition:
  assumes "prims_ok P" "is_valid_e2ees_pack_id P raw" "pack_kem raw = Some a" "pack_ds raw = Some d" "d \<noteq> DS_CURVE25519" "ds_fixed_length P d"
    and A: "group_device GA P D raw cacheA wA sA A gadr giA kA gA storedA ys"
    and B: "group_device GB P D raw cacheB wB sB B gadr giB kB gB storedB ys"
    and "good_devices P D d devs" and "good_members D ys" and "address_id A \<noteq> address_id B"
    and "addition_response devs r" and "addition_msg P A gadr (gs_sequence gA) devs ys m"
    and load: "hs_load_group_session_by_address (pg_host GB) wB (Some B) (Some B) (Some gadr) = Some gB"
      "hs_load_group_session_by_id (pg_host GB) wB (Some A) (Some B) (gs_session_id gB) = Some IA"
    and IA: "IA \<in> set (storedB wB)" "gs_sender IA = Some A" "gs_associated_data IA = gs_associated_data gA" "gs_session_id IA = gs_session_id gA"
      "group_chain_at (std_mac P) (group_chain_of IA) (unat (gs_sequence gA) - unat (gs_sequence IA)) = kA"
    and IB: "IB \<in> set (storedA wA)" "gs_sender IB = Some B" "gs_associated_data IB = gs_associated_data gB" "gs_session_id IB = gs_session_id gB"
      "group_chain_of IB = kB"
    and "gs_session_id gA = gs_session_id gB"
  shows "\<exists>SA SB wA' wB' sA' sB' (infoB :: group_info) gA' gB'.
    consume_add_group_members_response GA P D cacheA wA sA (Some gA) (Some r) (Some ys) (length ys) =
      Some (0, pg_on_group_members_added GA (store_sessions (pg_host GA) SA wA') (Some A) (Some gadr) (gi_group_name giA)
        (ags_group_member_list r) (ags_n_group_member_list r) (Some ys) (length ys), sA') \<and>
    consume_add_group_members_msg GB P D cacheB wB sB (Some B) (Some m) =
      Some (True, pg_on_group_members_added GB (store_sessions (pg_host GB) SB wB') (Some B) (Some gadr) (gi_group_name infoB)
        (gi_group_member_list infoB) (gi_n_group_member_list infoB) (Some ys) (length ys), sB') \<and>
    gA' \<in> set SA \<and> gs_sender gA' = Some A \<and> (\<exists>x\<in>set SB. same_stream gA' x) \<and>
    gB' \<in> set SB \<and> gs_sender gB' = Some B \<and> (\<exists>x\<in>set SA. same_stream gB' x) \<and>
    (\<forall>dev\<in>set devs. \<exists>x\<in>set SA. \<exists>y\<in>set SB. gs_sender x = Some (fst dev) \<and> same_stream x y)"
proof -
  note L = library_groupI [OF assms(1-6)]
  have devs: "\<forall>dev\<in>set devs. good_address D (fst dev) \<and> length (snd dev) = pr_sign_pk_bytes P d" "devs \<noteq> []"
    using assms(9) by (simp_all add: good_devices_def)
  have gA: "own_session P D raw A gadr giA kA gA" "sessions_documented (pg_host GA) A gadr storedA" "\<forall>x\<in>set (storedA wA). group_entry P raw x"
    using A by (simp_all add: group_device_def)
  have gB: "own_session P D raw B gadr giB kB gB" using B by (simp add: group_device_def)
  obtain vkA authA where ownA: "own_key_and_auth (pg_host GA) cacheA wA (Some A) = Some (0, Some (buf vkA), authA)"
    using A unfolding group_device_def by blast
  have adrs: "good_address D A" "user_address A" using gA(1) by (simp_all add: own_session_def)
  define nA where "nA = own_after P (with_members giA ys) (length devs) None kA gA"
  define nB where "nB = own_after P (with_members giB ys) (length devs) (Some kA) kB gB"
  define SA where "SA = nA # others_after P A A (with_members giA ys) (length devs) None kA (storedA wA) @ new_after P D None kA nA devs"
  define SB where "SB = stored_by_member P D B A giB kB gB kA devs ys (storedB wB)"
  have SB: "SB = nB # others_after P B A (with_members giB ys) (length devs) (Some kA) kB (storedB wB) @ new_after P D (Some kA) kB nB devs"
    by (simp add: SB_def stored_by_member_def nB_def Let_def)
  obtain wA' sA' where runA: "consume_add_group_members_response GA P D cacheA wA sA (Some gA) (Some r) (Some ys) (length ys) =
      Some (0, pg_on_group_members_added GA (store_sessions (pg_host GA) SA wA') (Some A) (Some gadr) (gi_group_name giA)
        (ags_group_member_list r) (ags_n_group_member_list r) (Some ys) (length ys), sA')"
    using adder_run_sends [OF L A assms(9,10,12) ownA] unfolding stored_by_adder_def Let_def nA_def [symmetric] SA_def [symmetric] by blast
  obtain wB' sB' and infoB :: group_info where runB: "consume_add_group_members_msg GB P D cacheB wB sB (Some B) (Some m) =
      Some (True, pg_on_group_members_added GB (store_sessions (pg_host GB) SB wB') (Some B) (Some gadr) (gi_group_name infoB)
        (gi_group_member_list infoB) (gi_n_group_member_list infoB) (Some ys) (length ys), sB')"
    using member_run [OF L B adrs assms(9,10,13) load IA(1,5)] unfolding SB_def by blast
  have others: "renewed P (with_members giB ys) (Some (snd (welcome_chain P (length devs) kA))) IA \<in> set SB"
      "renewed P (with_members giA ys) None IB \<in> set SA"
    using IA(1,2) IB(1,2) assms(11) by (force simp: SA_def SB others_after_def is_from_def keys_after_def)+
  have streams: "same_stream nA (renewed P (with_members giB ys) (Some (snd (welcome_chain P (length devs) kA))) IA)"
      "same_stream nB (renewed P (with_members giA ys) None IB)" "gs_sender nA = Some A" "gs_sender nB = Some B" "gs_session_id nA = gs_session_id nB"
    using IA(2-4) IB(2-5) gA(1) gB assms(26)
    by (simp_all add: same_stream_def nA_def nB_def own_after_def renewed_def keys_after_def own_session_def)
  have new: "\<exists>x\<in>set SA. \<exists>y\<in>set SB. gs_sender x = Some (fst dev) \<and> same_stream x y" if "dev \<in> set devs" for dev
    using same_stream_new [OF streams(5) that, of "fst (welcome_chain P (length devs) kA)" D] by (auto simp: SA_def SB new_after_def keys_after_def)
  have "nA \<in> set SA" "nB \<in> set SB" by (simp_all add: SA_def SB)
  with runA runB others streams new show ?thesis by blast
qed

theorem members_agree_after_addition_witness:
  "\<exists>SA SB wA' wB' sA' sB' (infoB :: group_info) gA' gB'.
    consume_add_group_members_response demo_device demo_prims demo_D (demo_cache ''a'' 5) [demo_stream_of ''a'' ''a'' 3, demo_stream_of ''b'' ''a'' 0] 0
        (Some (demo_stream_of ''a'' ''a'' 3)) (Some demo_addition_response) (Some demo_new_members) (length demo_new_members) =
      Some (0, pg_on_group_members_added demo_device (store_sessions (pg_host demo_device) SA wA') (Some (demo_address ''a'')) (Some demo_gadr) (gi_group_name demo_gi)
        (ags_group_member_list demo_addition_response) (ags_n_group_member_list demo_addition_response) (Some demo_new_members) (length demo_new_members), sA') \<and>
    consume_add_group_members_msg demo_device demo_prims demo_D (demo_cache ''b'' 4) [demo_stream_of ''b'' ''b'' 0, demo_stream_of ''a'' ''b'' 1] 0
        (Some (demo_address ''b'')) (Some (demo_addition_msg 3)) =
      Some (True, pg_on_group_members_added demo_device (store_sessions (pg_host demo_device) SB wB') (Some (demo_address ''b'')) (Some demo_gadr) (gi_group_name infoB)
        (gi_group_member_list infoB) (gi_n_group_member_list infoB) (Some demo_new_members) (length demo_new_members), sB') \<and>
    gA' \<in> set SA \<and> gs_sender gA' = Some (demo_address ''a'') \<and> (\<exists>x\<in>set SB. same_stream gA' x) \<and>
    gB' \<in> set SB \<and> gs_sender gB' = Some (demo_address ''b'') \<and> (\<exists>x\<in>set SA. same_stream gB' x) \<and>
    (\<forall>dev\<in>set demo_new_devices. \<exists>x\<in>set SA. \<exists>y\<in>set SB. gs_sender x = Some (fst dev) \<and> same_stream x y)"
proof -
  have A: "group_device demo_device demo_prims demo_D 0x113101 (demo_cache ''a'' 5) [demo_stream_of ''a'' ''a'' 3, demo_stream_of ''b'' ''a'' 0] 0
      (demo_address ''a'') demo_gadr demo_gi (group_chain_at (std_mac demo_prims) demo_chain 3) (demo_stream_of ''a'' ''a'' 3) (\<lambda>w. w) demo_new_members"
    using demo_stream_of_entry(2) by (intro demo_group_device) auto
  have B: "group_device demo_device demo_prims demo_D 0x113101 (demo_cache ''b'' 4) [demo_stream_of ''b'' ''b'' 0, demo_stream_of ''a'' ''b'' 1] 0
      (demo_address ''b'') demo_gadr demo_gi (group_chain_at (std_mac demo_prims) demo_chain 0) (demo_stream_of ''b'' ''b'' 0) (\<lambda>w. w) demo_new_members"
    using demo_stream_of_entry(2) by (intro demo_group_device) auto
  have m: "addition_msg demo_prims (demo_address ''a'') demo_gadr (gs_sequence (demo_stream_of ''a'' ''a'' 3)) demo_new_devices demo_new_members (demo_addition_msg 3)"
    using demo_addition_delivered(2) [of 3] by simp
  show ?thesis
    by (rule members_agree_after_addition [OF demo_library A B demo_addition _ demo_addition_delivered(1) m _ _ _ _ _ _ demo_behind,
          where IB = "demo_stream_of ''b'' ''a'' 0"]) simp_all
qed

text \<open>
  What a device \<open>N\<close> that was added stores from the bundle of the device \<open>A\<close> that added it, and from the
  bundle of another device \<open>B\<close>.
\<close>

lemma added_sessions_adder:
  assumes L: "library_group P raw a d" and A: "own_session P D raw A gadr gi kA gA" "length vkA = pr_sign_pk_bytes P d"
    and N: "good_address D N" "user_address N" "own_sign_key H cache w (Some N) = Some (0, Some vkN)" "(N, vkN) \<in> set devs"
    and devs: "good_devices P D d devs" "\<forall>dev\<in>set devs. user_address (fst dev)" "distinct (map (address_id \<circ> fst) devs)"
  obtains S y j where
    "consume_group_update_key_bundle H P D cache w (Some N) (Some (update_bundle gA True vkA devs)) = Some (store_sessions H S w)"
    "invited_inbound D N vkA (snd (welcome_chain P (length devs) kA)) gA \<in> set S" "y \<in> set S" "gs_sender y = Some N"
    "j < length devs" "devs ! j = (N, vkN)"
    "\<forall>g. gs_session_id g = gs_session_id gA \<longrightarrow> same_stream y (session_with D g (N, vkN) (fst (welcome_chain P (length devs) kA) ! j))"
proof -
  have dv: "devs \<noteq> []" "\<forall>dev\<in>set devs. good_address D (fst dev) \<and> user_address (fst dev) \<and> length (snd dev) = pr_sign_pk_bytes P d"
    using devs(1,2) by (auto simp: good_devices_def)
  obtain j where j: "j < length devs" "devs ! j = (N, vkN)" using N(4) by (metis in_set_conv_nth)
  have vkN: "length vkN = pr_sign_pk_bytes P d" using dv(2) N(4) by auto
  have own: "own_entry N (devs ! j)" using j(2) by simp
  note run = library_group.invited_ok [OF L A N(1-3) vkN dv(2,1) devs(3) j(1) own]
  show ?thesis
    by (rule that [of _ "(invited_session D N vkN gA)\<lparr>gs_chain_key := buf (fst (welcome_chain P (length devs) kA) ! j), gs_sequence := 0\<rparr>", OF run _ _ _ j])
      (auto simp: same_stream_def invited_session_def session_with_def)
qed

lemma added_session_member:
  assumes L: "library_group P raw a d" and B: "own_session P D raw B gadr gi kB gB" "length vkB = pr_sign_pk_bytes P d"
    and N: "good_address D N" "user_address N" and devs: "good_devices P D d devs"
  shows "consume_group_update_key_bundle H P D cache w (Some N) (Some (update_bundle gB False vkB devs)) =
    Some (hs_store_group_session H w (invited_inbound D N vkB (add_key P kB) gB))"
proof -
  have dv: "\<forall>dev\<in>set devs. good_address D (fst dev) \<and> length (snd dev) = pr_sign_pk_bytes P d" "devs \<noteq> []"
    using devs by (auto simp: good_devices_def)
  have kB: "length kB = 32" "gs_chain_key gB = buf kB" using B(1) by (simp_all add: own_session_def)
  obtain b where state: "new_and_complete_inbound_group_session_with_ratchet_state H P D w (Some (update_bundle gB False vkB devs)) (Some N) =
      Some (0, b, hs_store_group_session H w (invited_inbound D N vkB (add_key P kB) gB))"
    using library_group.ratchet_state_ok [OF L B N(1) dv kB(1), of H w False] kB(2) by (auto simp: update_bundle_def)
  obtain p where "ad_user N = Some p" using N(2) by (auto simp: user_address_def)
  then show ?thesis using state by (simp add: consume_group_update_key_bundle_def update_bundle_def)
qed

lemma session_with_stored:
  assumes "j < length devs"
  shows "session_with D (own_after P (with_members gi ys) (length devs) None k g) (devs ! j) (fst (welcome_chain P (length devs) k) ! j) \<in>
      set (stored_by_adder P D A gi k g devs ys xs)"
    and "session_with D (own_after P (with_members gi ys) (length devs) (Some t) k g) (devs ! j) (fst (welcome_chain P (length devs) t) ! j) \<in>
      set (stored_by_member P D B A gi k g t devs ys xs)"
proof -
  have "(devs ! j, fst (welcome_chain P (length devs) u) ! j) \<in> set (zip devs (fst (welcome_chain P (length devs) u)))" for u
    using assms by (auto simp: in_set_zip)
  then show "session_with D (own_after P (with_members gi ys) (length devs) None k g) (devs ! j) (fst (welcome_chain P (length devs) k) ! j) \<in>
      set (stored_by_adder P D A gi k g devs ys xs)"
    "session_with D (own_after P (with_members gi ys) (length devs) (Some t) k g) (devs ! j) (fst (welcome_chain P (length devs) t) ! j) \<in>
      set (stored_by_member P D B A gi k g t devs ys xs)"
    by (force simp: stored_by_adder_def stored_by_member_def Let_def new_after_def keys_after_def)+
qed

text \<open>
  C26: the device \<open>A\<close> adds members on the server's answer, another device \<open>B\<close> gets the message about it,
  and each sends the added members the key of its own session as it was.  An added device \<open>N\<close> that gets
  both bundles stores, from that of \<open>A\<close>, a session with \<open>A\<close> at the key and number of \<open>A\<close>'s renewed own
  session, and an own session at the key and number of the sessions that \<open>A\<close> and \<open>B\<close> stored for \<open>N\<close>;
  from that of \<open>B\<close> it stores a session with \<open>B\<close> at the key and number of \<open>B\<close>'s renewed own session.
\<close>

theorem added_device_agrees:
  assumes "prims_ok P" "is_valid_e2ees_pack_id P raw" "pack_kem raw = Some a" "pack_ds raw = Some d" "d \<noteq> DS_CURVE25519" "ds_fixed_length P d"
    and A: "group_device GA P D raw cacheA wA sA A gadr giA kA gA storedA ys" "length vkA = pr_sign_pk_bytes P d" "gs_associated_data gA = buf (vkA @ vkA)"
      "own_key_and_auth (pg_host GA) cacheA wA (Some A) = Some (0, Some (buf vkA), authA)"
    and B: "group_device GB P D raw cacheB wB sB B gadr giB kB gB storedB ys" "length vkB = pr_sign_pk_bytes P d" "gs_associated_data gB = buf (vkB @ vkB)"
      "own_key_and_auth (pg_host GB) cacheB wB (Some B) = Some (0, Some (buf vkB), authB)"
    and devs: "good_devices P D d devs" "\<forall>dev\<in>set devs. user_address (fst dev)" "distinct (map (address_id \<circ> fst) devs)" and ys: "good_members D ys"
    and addition: "addition_response devs r" "addition_msg P A gadr (gs_sequence gA) devs ys m"
    and load: "hs_load_group_session_by_address (pg_host GB) wB (Some B) (Some B) (Some gadr) = Some gB"
      "hs_load_group_session_by_id (pg_host GB) wB (Some A) (Some B) (gs_session_id gB) = Some IA"
    and IA: "IA \<in> set (storedB wB)" "group_chain_at (std_mac P) (group_chain_of IA) (unat (gs_sequence gA) - unat (gs_sequence IA)) = kA"
    and sid: "gs_session_id gA = gs_session_id gB"
    and N: "good_address D N" "user_address N" "own_sign_key H cache w (Some N) = Some (0, Some vkN)" "(N, vkN) \<in> set devs"
  shows "let bundleA = update_bundle (gA\<lparr>gs_group_info := Some (with_members giA ys)\<rparr>) True vkA devs;
      bundleB = update_bundle (gB\<lparr>gs_group_info := Some (with_members giB ys)\<rparr>) False vkB devs
    in \<exists>SA SB S x wA' wB' sA' sB' (infoB :: group_info).
      send_key_to_members_loop (pg_host GA) P D cacheA (Some A) authA (pack_group_ratchet_state (pg_host GA) bundleA) (Some ys) 0 (length ys) wA sA =
        Some (wA', sA') \<and>
      consume_add_group_members_response GA P D cacheA wA sA (Some gA) (Some r) (Some ys) (length ys) =
        Some (0, pg_on_group_members_added GA (store_sessions (pg_host GA) SA wA') (Some A) (Some gadr) (gi_group_name giA)
          (ags_group_member_list r) (ags_n_group_member_list r) (Some ys) (length ys), sA') \<and>
      send_key_to_members_loop (pg_host GB) P D cacheB (Some B) authB (pack_group_ratchet_state (pg_host GB) bundleB) (Some ys) 0 (length ys) wB sB =
        Some (wB', sB') \<and>
      consume_add_group_members_msg GB P D cacheB wB sB (Some B) (Some m) =
        Some (True, pg_on_group_members_added GB (store_sessions (pg_host GB) SB wB') (Some B) (Some gadr) (gi_group_name infoB)
          (gi_group_member_list infoB) (gi_n_group_member_list infoB) (Some ys) (length ys), sB') \<and>
      consume_group_update_key_bundle H P D cache w (Some N) (Some bundleA) = Some (store_sessions H S w) \<and>
      consume_group_update_key_bundle H P D cache w' (Some N) (Some bundleB) = Some (hs_store_group_session H w' x) \<and>
      (\<exists>g\<in>set SA. gs_sender g = Some A \<and> (\<exists>y\<in>set S. same_stream g y)) \<and>
      (\<exists>g\<in>set SB. gs_sender g = Some B \<and> same_stream g x) \<and>
      (\<exists>y\<in>set S. gs_sender y = Some N \<and> (\<exists>g\<in>set SA. same_stream y g) \<and> (\<exists>g\<in>set SB. same_stream y g))"
proof -
  note L = library_groupI [OF assms(1-6)]
  let ?gA = "gA\<lparr>gs_group_info := Some (with_members giA ys)\<rparr>" and ?gB = "gB\<lparr>gs_group_info := Some (with_members giB ys)\<rparr>"
  let ?SA = "stored_by_adder P D A giA kA gA devs ys (storedA wA)" and ?SB = "stored_by_member P D B A giB kB gB kA devs ys (storedB wB)"
  let ?nA = "own_after P (with_members giA ys) (length devs) None kA gA" and ?nB = "own_after P (with_members giB ys) (length devs) (Some kA) kB gB"
  have gA: "own_session P D raw A gadr giA kA gA" and gB: "own_session P D raw B gadr giB kB gB"
    using A(1) B(1) by (simp_all add: group_device_def)
  have adr: "good_address D A" "user_address A" using gA by (simp_all add: own_session_def)
  obtain S y j where new: "consume_group_update_key_bundle H P D cache w (Some N) (Some (update_bundle ?gA True vkA devs)) = Some (store_sessions H S w)"
      "invited_inbound D N vkA (snd (welcome_chain P (length devs) kA)) ?gA \<in> set S" "y \<in> set S" "gs_sender y = Some N"
      "j < length devs" "devs ! j = (N, vkN)"
      "\<forall>g. gs_session_id g = gs_session_id ?gA \<longrightarrow> same_stream y (session_with D g (N, vkN) (fst (welcome_chain P (length devs) kA) ! j))"
    by (rule added_sessions_adder [OF L own_session_with [OF gA ys] A(2) N devs])
  have own: "?nA \<in> set ?SA" "gs_sender ?nA = Some A" "same_stream ?nA (invited_inbound D N vkA (snd (welcome_chain P (length devs) kA)) ?gA)"
    "?nB \<in> set ?SB" "gs_sender ?nB = Some B" "same_stream ?nB (invited_inbound D N vkB (add_key P kB) ?gB)"
    using gA gB A(3) B(3)
    by (simp_all add: stored_by_adder_def stored_by_member_def Let_def same_stream_def own_after_def keys_after_def invited_inbound_def own_session_def)
  have stored: "same_stream y (session_with D ?nA (devs ! j) (fst (welcome_chain P (length devs) kA) ! j))"
      "same_stream y (session_with D ?nB (devs ! j) (fst (welcome_chain P (length devs) kA) ! j))"
    unfolding new(6) using new(7) by (simp_all add: own_after_def sid)
  have streams: "\<exists>g\<in>set ?SA. gs_sender g = Some A \<and> (\<exists>y\<in>set S. same_stream g y)"
      "\<exists>g\<in>set ?SB. gs_sender g = Some B \<and> same_stream g (invited_inbound D N vkB (add_key P kB) ?gB)"
      "\<exists>y\<in>set S. gs_sender y = Some N \<and> (\<exists>g\<in>set ?SA. same_stream y g) \<and> (\<exists>g\<in>set ?SB. same_stream y g)"
  proof -
    show "\<exists>g\<in>set ?SA. gs_sender g = Some A \<and> (\<exists>y\<in>set S. same_stream g y)"
      by (intro bexI [of _ ?nA] conjI bexI [of _ "invited_inbound D N vkA (snd (welcome_chain P (length devs) kA)) ?gA"]) (fact own new(2))+
    show "\<exists>g\<in>set ?SB. gs_sender g = Some B \<and> same_stream g (invited_inbound D N vkB (add_key P kB) ?gB)"
      by (intro bexI [of _ ?nB] conjI) (fact own)+
    show "\<exists>y\<in>set S. gs_sender y = Some N \<and> (\<exists>g\<in>set ?SA. same_stream y g) \<and> (\<exists>g\<in>set ?SB. same_stream y g)"
      using new(3,4) stored session_with_stored(1) [OF new(5)] session_with_stored(2) [OF new(5)]
      by (metis (no_types, lifting))
  qed
  obtain wA' sA' where runA: "consume_add_group_members_response GA P D cacheA wA sA (Some gA) (Some r) (Some ys) (length ys) =
        Some (0, pg_on_group_members_added GA (store_sessions (pg_host GA) ?SA wA') (Some A) (Some gadr)
          (gi_group_name giA) (ags_group_member_list r) (ags_n_group_member_list r) (Some ys) (length ys), sA')"
      "send_key_to_members_loop (pg_host GA) P D cacheA (Some A) authA (pack_group_ratchet_state (pg_host GA) (update_bundle ?gA True vkA devs))
        (Some ys) 0 (length ys) wA sA = Some (wA', sA')"
    using adder_run_sends [OF L A(1) devs(1) ys addition(1) A(4)] by blast
  obtain wB' sB' and infoB :: group_info where runB: "consume_add_group_members_msg GB P D cacheB wB sB (Some B) (Some m) =
        Some (True, pg_on_group_members_added GB (store_sessions (pg_host GB) ?SB wB') (Some B)
          (Some gadr) (gi_group_name infoB) (gi_group_member_list infoB) (gi_n_group_member_list infoB) (Some ys) (length ys), sB')"
      "send_key_to_members_loop (pg_host GB) P D cacheB (Some B) authB (pack_group_ratchet_state (pg_host GB) (update_bundle ?gB False vkB devs))
        (Some ys) 0 (length ys) wB sB = Some (wB', sB')"
    using member_run_sends [OF L B(1) adr devs(1) ys addition(2) load IA B(4)] by blast
  note runN = added_session_member [OF L own_session_with [OF gB ys] B(2) N(1,2) devs(1), of H cache w']
  show ?thesis unfolding Let_def
    by (intro exI conjI) (rule runA(2), rule runA(1), rule runB(2), rule runB(1), rule new(1), rule runN, rule streams, rule streams, rule streams)
qed

theorem added_device_agrees_witness:
  "\<exists>SA SB S x wA' wB' sA' sB' (infoB :: group_info).
    consume_add_group_members_response demo_device demo_prims demo_D (demo_cache ''a'' 5) [demo_stream_of ''a'' ''a'' 3, demo_stream_of ''b'' ''a'' 0] 0
        (Some (demo_stream_of ''a'' ''a'' 3)) (Some demo_addition_response) (Some demo_new_members) (length demo_new_members) =
      Some (0, pg_on_group_members_added demo_device (store_sessions (pg_host demo_device) SA wA') (Some (demo_address ''a'')) (Some demo_gadr) (gi_group_name demo_gi)
        (ags_group_member_list demo_addition_response) (ags_n_group_member_list demo_addition_response) (Some demo_new_members) (length demo_new_members), sA') \<and>
    consume_add_group_members_msg demo_device demo_prims demo_D (demo_cache ''b'' 4) [demo_stream_of ''b'' ''b'' 0, demo_stream_of ''a'' ''b'' 1] 0
        (Some (demo_address ''b'')) (Some (demo_addition_msg 3)) =
      Some (True, pg_on_group_members_added demo_device (store_sessions (pg_host demo_device) SB wB') (Some (demo_address ''b'')) (Some demo_gadr) (gi_group_name infoB)
        (gi_group_member_list infoB) (gi_n_group_member_list infoB) (Some demo_new_members) (length demo_new_members), sB') \<and>
    consume_group_update_key_bundle (pg_host demo_device) demo_prims demo_D (demo_cache ''n'' 5) [] (Some (demo_address ''n''))
      (Some (update_bundle ((demo_stream_of ''a'' ''a'' 3)\<lparr>gs_group_info := Some (with_members demo_gi demo_new_members)\<rparr>) True [9] demo_new_devices)) =
      Some (store_sessions (pg_host demo_device) S []) \<and>
    consume_group_update_key_bundle (pg_host demo_device) demo_prims demo_D (demo_cache ''n'' 5) [] (Some (demo_address ''n''))
      (Some (update_bundle ((demo_stream_of ''b'' ''b'' 0)\<lparr>gs_group_info := Some (with_members demo_gi demo_new_members)\<rparr>) False [9] demo_new_devices)) =
      Some (hs_store_group_session (pg_host demo_device) [] x) \<and>
    (\<exists>g\<in>set SB. gs_sender g = Some (demo_address ''b'') \<and> same_stream g x) \<and>
    (\<exists>y\<in>set S. gs_sender y = Some (demo_address ''n'') \<and> (\<exists>g\<in>set SA. same_stream y g) \<and> (\<exists>g\<in>set SB. same_stream y g))"
proof -
  have A: "group_device demo_device demo_prims demo_D 0x113101 (demo_cache ''a'' 5) [demo_stream_of ''a'' ''a'' 3, demo_stream_of ''b'' ''a'' 0] 0
      (demo_address ''a'') demo_gadr demo_gi (group_chain_at (std_mac demo_prims) demo_chain 3) (demo_stream_of ''a'' ''a'' 3) (\<lambda>w. w) demo_new_members"
    using demo_stream_of_entry(2) by (intro demo_group_device) auto
  have B: "group_device demo_device demo_prims demo_D 0x113101 (demo_cache ''b'' 4) [demo_stream_of ''b'' ''b'' 0, demo_stream_of ''a'' ''b'' 1] 0
      (demo_address ''b'') demo_gadr demo_gi (group_chain_at (std_mac demo_prims) demo_chain 0) (demo_stream_of ''b'' ''b'' 0) (\<lambda>w. w) demo_new_members"
    using demo_stream_of_entry(2) by (intro demo_group_device) auto
  have m: "addition_msg demo_prims (demo_address ''a'') demo_gadr (gs_sequence (demo_stream_of ''a'' ''a'' 3)) demo_new_devices demo_new_members (demo_addition_msg 3)"
    using demo_addition_delivered(2) [of 3] by simp
  have N: "good_address demo_D (demo_address ''n'')" "user_address (demo_address ''n'')"
      "own_sign_key (pg_host demo_device) (demo_cache ''n'' 5) [] (Some (demo_address ''n'')) = Some (0, Some [9])"
    using demo_good(1) [of "''n''"] demo_cached [of "''n''" 5]
    by (simp_all add: user_address_def own_sign_key_def demo_user_def key_pair_of_def good_address_def) (simp add: demo_address_def)+
  have len: "length [9 :: byte] = pr_sign_pk_bytes demo_prims DS_MLDSA87" by (simp add: demo_fixed(3))
  show ?thesis
    using added_device_agrees [OF demo_library A len _ demo_own_key B len _ demo_own_key demo_addition(1) _ _ demo_addition(2) demo_addition_delivered(1) m
        _ _ _ demo_behind _ N, where w' = "[]"] N(2)
    unfolding Let_def by simp blast
qed

text \<open>
  C29: two devices \<open>B\<close> and \<open>C\<close> get the message about an addition by a third one when \<open>C\<close> has sent \<open>i\<close>
  messages and \<open>B\<close> has received the first \<open>j\<close> of them.  \<open>C\<close> derives its new key from the \<open>i\<close>-th key of
  its chain, \<open>B\<close> the new key of its session with \<open>C\<close> from the \<open>j\<close>-th, and both restart their numbers at
  0, so that no number tells that \<open>B\<close> was behind.  (Only the session with the device that added the
  members is brought up to date first.)
\<close>

theorem lagging_session_keys:
  assumes "prims_ok P" "is_valid_e2ees_pack_id P raw" "pack_kem raw = Some a" "pack_ds raw = Some d" "d \<noteq> DS_CURVE25519" "ds_fixed_length P d"
    and B: "group_device GB P D raw cacheB wB sB B gadr giB kB gB storedB ys"
    and C: "group_device GC P D raw cacheC wC sC C gadr giC kC (group_at (std_mac P) k Y i) storedC ys"
    and "good_devices P D d devs" and "good_members D ys" and "good_address D A" "user_address A"
    and ids: "address_id C \<noteq> address_id B" "address_id C \<noteq> address_id A"
    and "addition_msg P A gadr seq devs ys m"
    and "hs_load_group_session_by_address (pg_host GB) wB (Some B) (Some B) (Some gadr) = Some gB"
      "hs_load_group_session_by_id (pg_host GB) wB (Some A) (Some B) (gs_session_id gB) = Some IB" "IB \<in> set (storedB wB)"
    and "hs_load_group_session_by_address (pg_host GC) wC (Some C) (Some C) (Some gadr) = Some (group_at (std_mac P) k Y i)"
      "hs_load_group_session_by_id (pg_host GC) wC (Some A) (Some C) (gs_session_id Y) = Some IC" "IC \<in> set (storedC wC)"
    and X: "group_at (std_mac P) k X j \<in> set (storedB wB)" "gs_sender X = Some C"
  shows "\<exists>SB SC wB' wC' sB' sC' (infoB :: group_info) (infoC :: group_info).
    consume_add_group_members_msg GB P D cacheB wB sB (Some B) (Some m) =
      Some (True, pg_on_group_members_added GB (store_sessions (pg_host GB) SB wB') (Some B) (Some gadr) (gi_group_name infoB)
        (gi_group_member_list infoB) (gi_n_group_member_list infoB) (Some ys) (length ys), sB') \<and>
    consume_add_group_members_msg GC P D cacheC wC sC (Some C) (Some m) =
      Some (True, pg_on_group_members_added GC (store_sessions (pg_host GC) SC wC') (Some C) (Some gadr) (gi_group_name infoC)
        (gi_group_member_list infoC) (gi_n_group_member_list infoC) (Some ys) (length ys), sC') \<and>
    (\<exists>g\<in>set SC. \<exists>x\<in>set SB. gs_sender g = Some C \<and> gs_sender x = Some C \<and> gs_sequence g = 0 \<and> gs_sequence x = 0 \<and>
       gs_chain_key g = buf (add_key P (group_chain_at (std_mac P) k i)) \<and> gs_chain_key x = buf (add_key P (group_chain_at (std_mac P) k j)))"
proof -
  note L = library_groupI [OF assms(1-6)]
  let ?gC = "group_at (std_mac P) k Y i" and ?X = "group_at (std_mac P) k X j"
  let ?SB = "\<lambda>t. stored_by_member P D B A giB kB gB t devs ys (storedB wB)" and ?SC = "\<lambda>t. stored_by_member P D C A giC kC ?gC t devs ys (storedC wC)"
  have loadC: "hs_load_group_session_by_id (pg_host GC) wC (Some A) (Some C) (gs_session_id ?gC) = Some IC" using assms(20) by simp
  obtain tB wB' sB' and infoB :: group_info where runB: "consume_add_group_members_msg GB P D cacheB wB sB (Some B) (Some m) =
      Some (True, pg_on_group_members_added GB (store_sessions (pg_host GB) (?SB tB) wB') (Some B) (Some gadr) (gi_group_name infoB)
        (gi_group_member_list infoB) (gi_n_group_member_list infoB) (Some ys) (length ys), sB')"
    using member_run [OF L B assms(11,12,9,10,15-18) refl] by blast
  obtain tC wC' sC' and infoC :: group_info where runC: "consume_add_group_members_msg GC P D cacheC wC sC (Some C) (Some m) =
      Some (True, pg_on_group_members_added GC (store_sessions (pg_host GC) (?SC tC) wC') (Some C) (Some gadr) (gi_group_name infoC)
        (gi_group_member_list infoC) (gi_n_group_member_list infoC) (Some ys) (length ys), sC')"
    using member_run [OF L C assms(11,12,9,10,15,19) loadC assms(21) refl] by blast
  have kC: "kC = group_chain_at (std_mac P) k i" "gs_sender Y = Some C" using C by (simp_all add: group_device_def own_session_def)
  let ?own = "own_after P (with_members giC ys) (length devs) (Some tC) kC ?gC" and ?in = "renewed P (with_members giB ys) None ?X"
  have "?own \<in> set (?SC tC)" by (simp add: stored_by_member_def Let_def)
  moreover have "?in \<in> set (?SB tB)"
    using X ids by (force simp: stored_by_member_def Let_def others_after_def is_from_def)
  moreover have "gs_sender ?own = Some C" "gs_sequence ?own = 0" "gs_chain_key ?own = buf (add_key P (group_chain_at (std_mac P) k i))"
      "gs_sender ?in = Some C" "gs_sequence ?in = 0" "gs_chain_key ?in = buf (add_key P (group_chain_at (std_mac P) k j))"
    using kC X(2) by (simp_all add: own_after_def renewed_def keys_after_def)
  ultimately show ?thesis using runB runC by blast
qed

theorem lagging_session_keys_witness:
  "(\<exists>SB SC wB' wC' sB' sC' (infoB :: group_info) (infoC :: group_info).
    consume_add_group_members_msg demo_device demo_prims demo_D (demo_cache ''b'' 4)
        [demo_stream_of ''b'' ''b'' 0, demo_stream_of ''a'' ''b'' 0, demo_stream_of ''c'' ''b'' 0] 0 (Some (demo_address ''b'')) (Some (demo_addition_msg 0)) =
      Some (True, pg_on_group_members_added demo_device (store_sessions (pg_host demo_device) SB wB') (Some (demo_address ''b'')) (Some demo_gadr) (gi_group_name infoB)
        (gi_group_member_list infoB) (gi_n_group_member_list infoB) (Some demo_new_members) (length demo_new_members), sB') \<and>
    consume_add_group_members_msg demo_device demo_prims demo_D (demo_cache ''c'' 4)
        [demo_stream_of ''c'' ''c'' 1, demo_stream_of ''a'' ''c'' 0] 0 (Some (demo_address ''c'')) (Some (demo_addition_msg 0)) =
      Some (True, pg_on_group_members_added demo_device (store_sessions (pg_host demo_device) SC wC') (Some (demo_address ''c'')) (Some demo_gadr) (gi_group_name infoC)
        (gi_group_member_list infoC) (gi_n_group_member_list infoC) (Some demo_new_members) (length demo_new_members), sC') \<and>
    (\<exists>g\<in>set SC. \<exists>x\<in>set SB. gs_sender g = Some (demo_address ''c'') \<and> gs_sender x = Some (demo_address ''c'') \<and> gs_sequence g = 0 \<and> gs_sequence x = 0 \<and>
       gs_chain_key g = buf (add_key demo_prims (group_chain_at (std_mac demo_prims) demo_chain 1)) \<and>
       gs_chain_key x = buf (add_key demo_prims (group_chain_at (std_mac demo_prims) demo_chain 0)))) \<and>
   add_key demo_prims (group_chain_at (std_mac demo_prims) demo_chain 1) \<noteq> add_key demo_prims (group_chain_at (std_mac demo_prims) demo_chain 0)"
proof -
  have B: "group_device demo_device demo_prims demo_D 0x113101 (demo_cache ''b'' 4)
      [demo_stream_of ''b'' ''b'' 0, demo_stream_of ''a'' ''b'' 0, demo_stream_of ''c'' ''b'' 0] 0
      (demo_address ''b'') demo_gadr demo_gi (group_chain_at (std_mac demo_prims) demo_chain 0) (demo_stream_of ''b'' ''b'' 0) (\<lambda>w. w) demo_new_members"
    using demo_stream_of_entry(2) by (intro demo_group_device) auto
  have C: "group_device demo_device demo_prims demo_D 0x113101 (demo_cache ''c'' 4) [demo_stream_of ''c'' ''c'' 1, demo_stream_of ''a'' ''c'' 0] 0
      (demo_address ''c'') demo_gadr demo_gi (group_chain_at (std_mac demo_prims) demo_chain 1) (demo_stream_of ''c'' ''c'' 1) (\<lambda>w. w) demo_new_members"
    using demo_stream_of_entry(2) by (intro demo_group_device) auto
  have A: "good_address demo_D (demo_address ''a'')" "user_address (demo_address ''a'')"
    using demo_good(1) [of "''a''"] by (simp_all add: user_address_def demo_address_def)
  have keys: "add_key demo_prims (group_chain_at (std_mac demo_prims) demo_chain 1) \<noteq> add_key demo_prims (group_chain_at (std_mac demo_prims) demo_chain 0)"
    by (simp add: add_key_def std_kdf_def std_mac_def demo_prims_def demo_chain_def GROUP_CHAIN_KEY_SEED_def)
  let ?with = "\<lambda>u. demo_inbound\<lparr>gs_sender := Some (demo_address ''c''), gs_session_owner := Some (demo_address u)\<rparr>"
  have at: "group_at (std_mac demo_prims) demo_chain (?with u) i = demo_stream_of ''c'' u i" for u i by (simp add: demo_stream_of_def)
  have C': "group_device demo_device demo_prims demo_D 0x113101 (demo_cache ''c'' 4) [demo_stream_of ''c'' ''c'' 1, demo_stream_of ''a'' ''c'' 0] 0
      (demo_address ''c'') demo_gadr demo_gi (group_chain_at (std_mac demo_prims) demo_chain 1) (group_at (std_mac demo_prims) demo_chain (?with ''c'') 1)
      (\<lambda>w. w) demo_new_members"
    unfolding at by (rule C)
  have loads: "hs_load_group_session_by_address (pg_host demo_device) [demo_stream_of ''c'' ''c'' 1, demo_stream_of ''a'' ''c'' 0]
      (Some (demo_address ''c'')) (Some (demo_address ''c'')) (Some demo_gadr) = Some (group_at (std_mac demo_prims) demo_chain (?with ''c'') 1)"
    "group_at (std_mac demo_prims) demo_chain (?with ''b'') 0 \<in> set [demo_stream_of ''b'' ''b'' 0, demo_stream_of ''a'' ''b'' 0, demo_stream_of ''c'' ''b'' 0]"
    unfolding at by simp_all
  note devices = lagging_session_keys [OF demo_library B C' demo_addition A]
  note delivered = devices [OF _ _ demo_addition_delivered(2) [of 0]]
  note loaded = delivered [OF _ _ _ _ _ loads(1)]
  note run = loaded [OF _ _ _ _ _ _ _ loads(2), where IB = "demo_stream_of ''a'' ''b'' 0" and IC = "demo_stream_of ''a'' ''c'' 0"]
  show ?thesis by (rule conjI [OF _ keys], rule run) simp_all
qed

end
