(* ===== verification/Client.thy ===== *)
theory Client
  imports Group_Requests Account_Manager
begin

section \<open>Messages from the server and pending requests\<close>

text \<open>
  The receiving side of the client (\<open>process_proto_msg\<close> of \<open>src/e2ees_client.c\<close>), which hands every
  message of the server to its consumer, and the requests that are sent again when a connection is
  resumed (\<open>src/e2ees_client_internal.c\<close>).  A handler that is called without a test for NULL is
  dereferenced.
\<close>

subsection \<open>A new device of a known user\<close>

text \<open>The list of the groups found so far: a group whose address is there already is not added again.\<close>

fun address_seen :: "address list \<Rightarrow> address ptr \<Rightarrow> bool option" where
  "address_seen [] p = Some False"
| "address_seen (a # as) p = do { same \<leftarrow> compare_address (Some a) p; if same then Some True else address_seen as p }"

fun collect_addresses_loop :: "gen_defaults \<Rightarrow> address ptr array \<Rightarrow> nat \<Rightarrow> nat \<Rightarrow> address list \<Rightarrow> address list option" where
  "collect_addresses_loop D addresses j 0 found = Some found"
| "collect_addresses_loop D addresses j (Suc k) found =
     do { p \<leftarrow> array_get addresses j;
          seen \<leftarrow> address_seen found p;
          found \<leftarrow> (if seen then Some found else do { a \<leftarrow> copy_address_from_address D p; Some (found @ [a]) });
          collect_addresses_loop D addresses (Suc j) k found }"

fun old_devices_loop ::
    "'w plugin \<Rightarrow> gen_defaults \<Rightarrow> 'w \<Rightarrow> address ptr \<Rightarrow> address ptr array \<Rightarrow> nat \<Rightarrow> nat \<Rightarrow> address list \<Rightarrow> address list option" where
  "old_devices_loop G D w receiver_address old i 0 found = Some found"
| "old_devices_loop G D w receiver_address old i (Suc k) found =
     do { p \<leftarrow> array_get old i;
          let (n, addresses) = pg_load_group_addresses G w p receiver_address;
          found \<leftarrow> (if n = 0 then Some found else collect_addresses_loop D addresses 0 n found);
          old_devices_loop G D w receiver_address old (Suc i) k found }"

fun add_device_loop ::
    "'w plugin \<Rightarrow> prims \<Rightarrow> gen_defaults \<Rightarrow> cache \<Rightarrow> address ptr \<Rightarrow> address ptr \<Rightarrow> address list \<Rightarrow> 'w \<Rightarrow> seed \<Rightarrow> ('w \<times> seed) option" where
  "add_device_loop G P D cache receiver_address new_user_address [] w s = Some (w, s)"
| "add_device_loop G P D cache receiver_address new_user_address (g # gs) w s =
     do { (_, _, w, s) \<leftarrow> add_group_member_device_internal G P D cache w s receiver_address (Some g) new_user_address;
          add_device_loop G P D cache receiver_address new_user_address gs w s }"

definition consume_add_user_device_msg ::
    "'w plugin \<Rightarrow> prims \<Rightarrow> gen_defaults \<Rightarrow> cache \<Rightarrow> 'w \<Rightarrow> seed \<Rightarrow> address ptr \<Rightarrow> add_user_device_msg ptr \<Rightarrow> (bool \<times> 'w \<times> seed) option" where
  "consume_add_user_device_msg G P D cache w s receiver_address msg =
     do { valid \<leftarrow> is_valid_add_user_device_msg msg;
          new_user_address \<leftarrow> (if valid then do { m \<leftarrow> deref msg; Some (aud_user_address m) } else Some None);
          same \<leftarrow> compare_address receiver_address new_user_address;
          if \<not> is_valid_address receiver_address \<or> \<not> valid \<or> same then Some (True, w, s)
          else do {
            m \<leftarrow> deref msg;
            groups \<leftarrow> old_devices_loop G D w receiver_address (aud_old_address_list m) 0 (aud_n_old_address_list m) [];
            (w, s) \<leftarrow> add_device_loop G P D cache receiver_address new_user_address groups w s;
            Some (True, w, s) } }"

subsection \<open>The messages of the server\<close>

definition consume_proto_msg :: "'w plugin \<Rightarrow> 'w \<Rightarrow> address ptr \<Rightarrow> cstr \<Rightarrow> (consume_proto_msg_response ptr \<times> 'w) option" where
  "consume_proto_msg G w sender_address proto_msg_id =
     (let auth = hs_load_auth (pg_host G) w sender_address
      in if \<not> is_valid_string auth then Some (None, w)
      else do { id \<leftarrow> deref proto_msg_id; proto_fun \<leftarrow> deref (pg_consume_proto_msg G);
                Some (proto_fun w sender_address auth (Some id)) })"

text \<open>The loop over the signatures of the server: each is checked on the fingerprint it carries.\<close>

definition verify_server_signature :: "prims \<Rightarrow> bdata \<Rightarrow> server_signed_signature ptr \<Rightarrow> int option" where
  "verify_server_signature P server_public_key p =
     do { x \<leftarrow> deref p; suite \<leftarrow> deref (get_ds_suite P (sss_signing_alg x)); verify \<leftarrow> deref (ds_verify suite);
          sig \<leftarrow> read_pb (sss_signature x); fingerprint \<leftarrow> read_pb (sss_msg_fingerprint x);
          verify sig fingerprint (pb_data server_public_key) }"

fun verify_signatures_loop ::
    "prims \<Rightarrow> bdata \<Rightarrow> server_signed_signature ptr array \<Rightarrow> nat \<Rightarrow> nat \<Rightarrow> int \<Rightarrow> int option" where
  "verify_signatures_loop P server_public_key sigs i 0 ret = Some ret"
| "verify_signatures_loop P server_public_key sigs i (Suc k) ret =
     do { p \<leftarrow> array_get sigs i; server_check \<leftarrow> verify_server_signature P server_public_key p;
          verify_signatures_loop P server_public_key sigs (Suc i) k (if server_check < 0 then E2EES_RESULT_FAIL else ret) }"

definition no_seed :: "seed \<Rightarrow> bool \<times> 'w \<Rightarrow> bool \<times> 'w \<times> seed" where
  "no_seed s r = (fst r, snd r, s)"

text \<open>The switch over the payload.  Every other payload is consumed.\<close>

definition dispatch_payload ::
    "(alloc_site \<Rightarrow> bool) \<Rightarrow> 'w plugin \<Rightarrow> prims \<Rightarrow> gen_defaults \<Rightarrow> cache \<Rightarrow> 'w \<Rightarrow> seed \<Rightarrow> address ptr \<Rightarrow> proto_payload \<Rightarrow>
     (bool \<times> 'w \<times> seed) option" where
  "dispatch_payload mem_ok G P D cache w s receiver_address payload =
     (let H = pg_host G in
      case payload of
        PAYLOAD_SUPPLY_OPKS_MSG m \<Rightarrow> consume_supply_opks_msg G P D w s receiver_address m
      | PAYLOAD_ADD_USER_DEVICE_MSG m \<Rightarrow> consume_add_user_device_msg G P D cache w s receiver_address m
      | PAYLOAD_REMOVE_USER_DEVICE_MSG m \<Rightarrow> map_option (no_seed s) (consume_remove_user_device_msg H w receiver_address m)
      | PAYLOAD_INVITE_MSG m \<Rightarrow> consume_invite_msg H P D w s receiver_address m
      | PAYLOAD_ACCEPT_MSG m \<Rightarrow> consume_accept_msg H P D cache w s receiver_address m
      | PAYLOAD_E2EE_MSG m \<Rightarrow>
          do { e \<leftarrow> deref m;
               (case em_payload e of
                  PAYLOAD_ONE2ONE_MSG _ \<Rightarrow> consume_one2one_msg mem_ok H P D cache w s receiver_address m
                | PAYLOAD_GROUP_MSG _ \<Rightarrow> map_option (no_seed s) (consume_group_msg H P w receiver_address m)
                | _ \<Rightarrow> Some (False, w, s)) }
      | PAYLOAD_CREATE_GROUP_MSG m \<Rightarrow> map_option (no_seed s) (consume_create_group_msg H P D cache w receiver_address m)
      | PAYLOAD_ADD_GROUP_MEMBERS_MSG m \<Rightarrow> consume_add_group_members_msg G P D cache w s receiver_address m
      | PAYLOAD_ADD_GROUP_MEMBER_DEVICE_MSG m \<Rightarrow> consume_add_group_member_device_msg G P D cache w s receiver_address m
      | PAYLOAD_REMOVE_GROUP_MEMBERS_MSG m \<Rightarrow>
          map_option (no_seed s) (consume_remove_group_members_msg G P D cache w receiver_address m)
      | PAYLOAD_LEAVE_GROUP_MSG m \<Rightarrow> consume_leave_group_msg G P D cache w s receiver_address m
      | PAYLOAD_OTHER \<Rightarrow> Some (True, w, s))"

text \<open>The server is told that a message with a tag has been consumed; when it does not answer, the message is kept.\<close>

definition notify_consumed :: "'w plugin \<Rightarrow> 'w \<Rightarrow> proto_msg \<Rightarrow> (consume_proto_msg_response ptr \<times> 'w) option" where
  "notify_consumed G w msg =
     (case pm_tag msg of
        None \<Rightarrow> Some (Some \<lparr>cps_code = RESPONSE_CODE_OK\<rparr>, w)
      | Some proto_msg_id \<Rightarrow>
          do { (response, w) \<leftarrow> consume_proto_msg G w (pm_to msg) proto_msg_id;
               let keep = (\<lambda>w. store_pending_request_internal (pg_host G) w (pm_to msg) (PENDING_REQUEST_TYPE_PROTO_MSG msg));
               Some (case response of
                 None \<Rightarrow> (Some \<lparr>cps_code = RESPONSE_CODE_SERVICE_UNAVAILABLE\<rparr>, keep w)
               | Some r \<Rightarrow> if cps_code r = RESPONSE_CODE_OK \<or> cps_code r = RESPONSE_CODE_NOT_FOUND
                            then (response, w) else (response, keep w)) })"

definition process_proto_msg ::
    "(alloc_site \<Rightarrow> bool) \<Rightarrow> 'w plugin \<Rightarrow> prims \<Rightarrow> gen_defaults \<Rightarrow> cache \<Rightarrow> 'w \<Rightarrow> seed \<Rightarrow> bytes \<Rightarrow>
     (consume_proto_msg_response ptr \<times> 'w \<times> seed) option" where
  "process_proto_msg mem_ok G P D cache w s proto_msg_data =
     do { let proto_msg = pg_unpack_proto_msg G proto_msg_data;
          valid \<leftarrow> is_valid_proto_msg proto_msg;
          if \<not> valid then Some (None, w, s)
          else do {
            m \<leftarrow> deref proto_msg;
            server_public_key \<leftarrow> load_server_public_key_from_cache cache (pm_to m);
            ret \<leftarrow> verify_signatures_loop P server_public_key (pm_signature_list m) 0 (pm_n_signature_list m) E2EES_RESULT_SUCC;
            if ret \<noteq> E2EES_RESULT_SUCC then Some (None, w, s)
            else do {
              (consumed, w, s) \<leftarrow> dispatch_payload mem_ok G P D cache w s (pm_to m) (pm_payload m);
              if \<not> consumed then Some (None, w, s)
              else do { (response, w) \<leftarrow> notify_consumed G w m; Some (response, w, s) } } } }"

subsection \<open>Pending requests\<close>

text \<open>
  The cases of \<open>resend_pending_request\<close>, one per type of request.  \<open>unload\<close> removes the request from
  the database.
\<close>

definition resend_get_pre_key_bundle ::
    "'w plugin \<Rightarrow> prims \<Rightarrow> gen_defaults \<Rightarrow> cache \<Rightarrow> address ptr \<Rightarrow> cstr \<Rightarrow> ('w \<Rightarrow> 'w) \<Rightarrow> get_pre_key_bundle_request \<Rightarrow> bdata list \<Rightarrow>
     'w \<Rightarrow> seed \<Rightarrow> ('w \<times> seed) option" where
  "resend_get_pre_key_bundle G P D cache user_address auth unload request args w s =
     do { proto_fun \<leftarrow> deref (hs_get_pre_key_bundle (pg_host G));
          let (response, w) = proto_fun w user_address auth request;
          valid \<leftarrow> is_valid_get_pre_key_bundle_response response;
          if \<not> valid then Some (if map_option gbs_code response = Some RESPONSE_CODE_NOT_FOUND then unload w else w, s)
          else do {
            r \<leftarrow> deref response;
            (ret, _, w, s) \<leftarrow> consume_get_pre_key_bundle_response (pg_host G) P D cache w s user_address
              (if length args = 2 then pb_data (args ! 1) else None) response;
            if ret \<noteq> E2EES_RESULT_SUCC then Some (w, s)
            else do {
              active \<leftarrow> (case args of [] \<Rightarrow> Some False
                | arg # _ \<Rightarrow> (case pb_data arg of None \<Rightarrow> Some False | Some bs \<Rightarrow> do { b \<leftarrow> array_get (Some bs) 0; Some (b = 84) }));
              w \<leftarrow> (if \<not> active then Some w
                   else do {
                     ids \<leftarrow> map_loop (\<lambda>p. do { b \<leftarrow> deref p; a \<leftarrow> deref (pkb_user_address b); u \<leftarrow> deref (ad_user a);
                                             deref (pu_device_id u) })
                       (gbs_pre_key_bundles r) 0 (gbs_n_pre_key_bundles r);
                     send_sync_invite_msg (pg_host G) P D w user_address (gbr_user_id request) (gbr_domain request)
                       (Some (map Some ids)) (gbs_n_pre_key_bundles r) });
              Some (unload w, s) } } }"

definition resend_invite :: "'w plugin \<Rightarrow> address ptr \<Rightarrow> cstr \<Rightarrow> ('w \<Rightarrow> 'w) \<Rightarrow> invite_msg \<Rightarrow> 'w \<Rightarrow> 'w option" where
  "resend_invite G user_address auth unload request w =
     do { proto_fun \<leftarrow> deref (hs_invite (pg_host G));
          let (response, w) = proto_fun w user_address auth request;
          (ret, w) \<leftarrow> consume_invite_response (pg_host G) w user_address response;
          Some (if ret = E2EES_RESULT_SUCC then unload w else w) }"

definition resend_accept :: "'w plugin \<Rightarrow> address ptr \<Rightarrow> cstr \<Rightarrow> ('w \<Rightarrow> 'w) \<Rightarrow> accept_msg \<Rightarrow> 'w \<Rightarrow> 'w option" where
  "resend_accept G user_address auth unload request w =
     do { proto_fun \<leftarrow> deref (hs_accept (pg_host G));
          let (response, w) = proto_fun w user_address auth request;
          Some (if consume_accept_response (am_from request) response = E2EES_RESULT_SUCC then unload w else w) }"

definition resend_supply_opks ::
    "'w plugin \<Rightarrow> address ptr \<Rightarrow> cstr \<Rightarrow> ('w \<Rightarrow> 'w) \<Rightarrow> supply_opks_request \<Rightarrow> one_time_pre_key ptr list \<Rightarrow> 'w \<Rightarrow> 'w option" where
  "resend_supply_opks G user_address auth unload request keys w =
     do { proto_fun \<leftarrow> deref (pg_supply_opks G);
          let (response, w) = proto_fun w user_address auth request;
          if \<not> is_valid_supply_opks_response response then Some w
          else do {
            (ret, w) \<leftarrow> consume_supply_opks_response G w user_address (Some keys) (length keys) response;
            Some (if ret = E2EES_RESULT_SUCC then unload w else w) } }"

definition resend_one2one_msg :: "'w plugin \<Rightarrow> address ptr \<Rightarrow> cstr \<Rightarrow> ('w \<Rightarrow> 'w) \<Rightarrow> e2ee_msg \<Rightarrow> 'w \<Rightarrow> 'w option" where
  "resend_one2one_msg G user_address auth unload request w =
     do { proto_fun \<leftarrow> deref (hs_send_one2one_msg (pg_host G));
          let (response, w) = proto_fun w user_address auth request;
          Some (if map_option sor_code response = Some RESPONSE_CODE_OK then unload w else w) }"

definition resend_create_group ::
    "'w plugin \<Rightarrow> prims \<Rightarrow> gen_defaults \<Rightarrow> cache \<Rightarrow> u32 \<Rightarrow> address ptr \<Rightarrow> cstr \<Rightarrow> ('w \<Rightarrow> 'w) \<Rightarrow> create_group_msg \<Rightarrow> 'w \<Rightarrow> seed \<Rightarrow>
     ('w \<times> seed) option" where
  "resend_create_group G P D cache e2ees_pack_id user_address auth unload request w s =
     do { proto_fun \<leftarrow> deref (pg_create_group G);
          let (response, w) = proto_fun w user_address auth request;
          valid \<leftarrow> is_valid_create_group_response response;
          if \<not> valid then Some (if map_option cgs_code response = Some RESPONSE_CODE_NOT_FOUND then unload w else w, s)
          else do {
            group_info \<leftarrow> deref (cgm_group_info request);
            (_, w, s) \<leftarrow> consume_create_group_response G P D cache w s e2ees_pack_id user_address (gi_group_name group_info)
              (gi_group_member_list group_info) (gi_n_group_member_list group_info) response;
            Some (unload w, s) } }"

definition resend_add_group_members ::
    "'w plugin \<Rightarrow> prims \<Rightarrow> gen_defaults \<Rightarrow> cache \<Rightarrow> address ptr \<Rightarrow> cstr \<Rightarrow> ('w \<Rightarrow> 'w) \<Rightarrow> add_group_members_msg \<Rightarrow> 'w \<Rightarrow> seed \<Rightarrow>
     ('w \<times> seed) option" where
  "resend_add_group_members G P D cache user_address auth unload request w s =
     do { proto_fun \<leftarrow> deref (pg_add_group_members G);
          let (response, w) = proto_fun w user_address auth request;
          valid \<leftarrow> is_valid_add_group_members_response response;
          if \<not> valid then Some (if map_option ags_code response = Some RESPONSE_CODE_NOT_FOUND then unload w else w, s)
          else do {
            group_info \<leftarrow> deref (agm_group_info request);
            (_, w, s) \<leftarrow> consume_add_group_members_response G P D cache w s
              (hs_load_group_session_by_address (pg_host G) w user_address user_address (gi_group_address group_info)) response
              (agm_adding_member_list request) (agm_n_adding_member_list request);
            Some (unload w, s) } }"

definition resend_add_group_member_device ::
    "'w plugin \<Rightarrow> prims \<Rightarrow> gen_defaults \<Rightarrow> cache \<Rightarrow> address ptr \<Rightarrow> cstr \<Rightarrow> ('w \<Rightarrow> 'w) \<Rightarrow> add_group_member_device_msg \<Rightarrow> 'w \<Rightarrow> seed \<Rightarrow>
     ('w \<times> seed) option" where
  "resend_add_group_member_device G P D cache user_address auth unload request w s =
     do { proto_fun \<leftarrow> deref (pg_add_group_member_device G);
          let (response, w) = proto_fun w user_address auth request;
          valid \<leftarrow> is_valid_add_group_member_device_response response;
          if \<not> valid then Some (if map_option ads_code response = Some RESPONSE_CODE_NOT_FOUND then unload w else w, s)
          else do {
            group_info \<leftarrow> deref (agd_group_info request);
            (_, w, s) \<leftarrow> consume_add_group_member_device_response G P D cache w s
              (hs_load_group_session_by_address (pg_host G) w user_address user_address (gi_group_address group_info)) response;
            Some (unload w, s) } }"

definition resend_remove_group_members ::
    "'w plugin \<Rightarrow> prims \<Rightarrow> gen_defaults \<Rightarrow> cache \<Rightarrow> address ptr \<Rightarrow> cstr \<Rightarrow> ('w \<Rightarrow> 'w) \<Rightarrow> remove_group_members_msg \<Rightarrow> 'w \<Rightarrow> seed \<Rightarrow>
     ('w \<times> seed) option" where
  "resend_remove_group_members G P D cache user_address auth unload request w s =
     do { proto_fun \<leftarrow> deref (pg_remove_group_members G);
          let (response, w) = proto_fun w user_address auth request;
          valid \<leftarrow> is_valid_remove_group_members_response response;
          if \<not> valid then Some (if map_option rgs_code response = Some RESPONSE_CODE_NOT_FOUND then unload w else w, s)
          else do {
            group_info \<leftarrow> deref (rgm_group_info request);
            (_, w, s) \<leftarrow> consume_remove_group_members_response G P D cache w s
              (hs_load_group_session_by_address (pg_host G) w user_address user_address (gi_group_address group_info)) response
              (rgm_removing_member_list request) (rgm_n_removing_member_list request);
            Some (unload w, s) } }"

definition resend_leave_group ::
    "'w plugin \<Rightarrow> address ptr \<Rightarrow> cstr \<Rightarrow> ('w \<Rightarrow> 'w) \<Rightarrow> leave_group_msg \<Rightarrow> 'w \<Rightarrow> 'w option" where
  "resend_leave_group G user_address auth unload request w =
     do { proto_fun \<leftarrow> deref (pg_leave_group G);
          let (response, w) = proto_fun w user_address auth request;
          if \<not> is_valid_leave_group_response response
          then Some (if map_option lgs_code response = Some RESPONSE_CODE_NOT_FOUND then unload w else w)
          else do { (_, w) \<leftarrow> consume_leave_group_response (pg_host G) w user_address response; Some (unload w) } }"

definition resend_group_msg ::
    "'w plugin \<Rightarrow> prims \<Rightarrow> address ptr \<Rightarrow> cstr \<Rightarrow> ('w \<Rightarrow> 'w) \<Rightarrow> send_group_msg_request \<Rightarrow> 'w \<Rightarrow> 'w option" where
  "resend_group_msg G P user_address auth unload request w =
     do { proto_fun \<leftarrow> deref (hs_send_group_msg (pg_host G));
          let (response, w) = proto_fun w user_address auth request;
          if \<not> is_valid_send_group_msg_response response then Some w
          else do {
            (_, _, w) \<leftarrow> consume_send_group_msg_response (pg_host G) P w
              (hs_load_group_session_by_address (pg_host G) w user_address user_address (em_to (sgq_msg request))) response;
            Some (unload w) } }"

definition resend_proto_msg :: "'w plugin \<Rightarrow> ('w \<Rightarrow> 'w) \<Rightarrow> proto_msg \<Rightarrow> 'w \<Rightarrow> 'w option" where
  "resend_proto_msg G unload msg w =
     do { proto_msg_id \<leftarrow> deref (pm_tag msg);
          (response, w) \<leftarrow> consume_proto_msg G w (pm_to msg) proto_msg_id;
          Some (if map_option cps_code response = Some RESPONSE_CODE_OK then unload w else w) }"

definition with_seed :: "seed \<Rightarrow> 'w \<Rightarrow> 'w \<times> seed" where
  "with_seed s w = (w, s)"

text \<open>
  The switch.  The message logged for an unknown type has a \<open>%s\<close> without an argument, which is
  undefined.
\<close>

definition resend_request ::
    "'w plugin \<Rightarrow> prims \<Rightarrow> gen_defaults \<Rightarrow> cache \<Rightarrow> u32 \<Rightarrow> address ptr \<Rightarrow> cstr \<Rightarrow> ('w \<Rightarrow> 'w) \<Rightarrow> pending_request \<Rightarrow> 'w \<Rightarrow> seed \<Rightarrow>
     ('w \<times> seed) option" where
  "resend_request G P D cache e2ees_pack_id user_address auth unload pending_request w s =
     (case pending_request of
        PENDING_REQUEST_TYPE_GET_PRE_KEY_BUNDLE r args \<Rightarrow> resend_get_pre_key_bundle G P D cache user_address auth unload r args w s
      | PENDING_REQUEST_TYPE_INVITE r \<Rightarrow> map_option (with_seed s) (resend_invite G user_address auth unload r w)
      | PENDING_REQUEST_TYPE_ACCEPT r \<Rightarrow> map_option (with_seed s) (resend_accept G user_address auth unload r w)
      | PENDING_REQUEST_TYPE_PUBLISH_SPK r \<Rightarrow> Some (w, s)
      | PENDING_REQUEST_TYPE_SUPPLY_OPKS r keys \<Rightarrow>
          map_option (with_seed s) (resend_supply_opks G user_address auth unload r keys w)
      | PENDING_REQUEST_TYPE_SEND_ONE2ONE_MSG r \<Rightarrow> map_option (with_seed s) (resend_one2one_msg G user_address auth unload r w)
      | PENDING_REQUEST_TYPE_CREATE_GROUP r \<Rightarrow> resend_create_group G P D cache e2ees_pack_id user_address auth unload r w s
      | PENDING_REQUEST_TYPE_ADD_GROUP_MEMBERS r \<Rightarrow> resend_add_group_members G P D cache user_address auth unload r w s
      | PENDING_REQUEST_TYPE_ADD_GROUP_MEMBER_DEVICE r \<Rightarrow>
          resend_add_group_member_device G P D cache user_address auth unload r w s
      | PENDING_REQUEST_TYPE_REMOVE_GROUP_MEMBERS r \<Rightarrow> resend_remove_group_members G P D cache user_address auth unload r w s
      | PENDING_REQUEST_TYPE_LEAVE_GROUP r \<Rightarrow> map_option (with_seed s) (resend_leave_group G user_address auth unload r w)
      | PENDING_REQUEST_TYPE_SEND_GROUP_MSG r \<Rightarrow> map_option (with_seed s) (resend_group_msg G P user_address auth unload r w)
      | PENDING_REQUEST_TYPE_PROTO_MSG m \<Rightarrow> map_option (with_seed s) (resend_proto_msg G unload m w)
      | PENDING_REQUEST_TYPE_UNKNOWN \<Rightarrow> None)"

fun resend_loop ::
    "'w plugin \<Rightarrow> prims \<Rightarrow> gen_defaults \<Rightarrow> cache \<Rightarrow> u32 \<Rightarrow> address ptr \<Rightarrow> cstr \<Rightarrow> (cstr \<times> pending_request ptr) list \<Rightarrow> 'w \<Rightarrow> seed \<Rightarrow>
     ('w \<times> seed) option" where
  "resend_loop G P D cache e2ees_pack_id user_address auth [] w s = Some (w, s)"
| "resend_loop G P D cache e2ees_pack_id user_address auth ((pending_request_id, pending_request) # rest) w s =
     (let unload = (\<lambda>w. pg_unload_pending_request_data G w user_address pending_request_id)
      in case pending_request of
           None \<Rightarrow> resend_loop G P D cache e2ees_pack_id user_address auth rest (unload w) s
         | Some r \<Rightarrow>
             do { (w, s) \<leftarrow> resend_request G P D cache e2ees_pack_id user_address auth unload r w s;
                  resend_loop G P D cache e2ees_pack_id user_address auth rest w s })"

definition resend_pending_request ::
    "'w plugin \<Rightarrow> prims \<Rightarrow> gen_defaults \<Rightarrow> cache \<Rightarrow> 'w \<Rightarrow> seed \<Rightarrow> u32 \<Rightarrow> address ptr \<Rightarrow> cstr \<Rightarrow> ('w \<times> seed) option" where
  "resend_pending_request G P D cache w s e2ees_pack_id user_address auth =
     resend_loop G P D cache e2ees_pack_id user_address auth (pg_load_pending_request_data G w user_address) w s"

subsection \<open>Resuming a connection\<close>

definition resume_connection_internal ::
    "'w plugin \<Rightarrow> prims \<Rightarrow> gen_defaults \<Rightarrow> cache \<Rightarrow> 'w \<Rightarrow> seed \<Rightarrow> account ptr \<Rightarrow> ('w \<times> seed) option" where
  "resume_connection_internal G P D cache w s account =
     (case account of None \<Rightarrow> Some (w, s)
      | Some a \<Rightarrow>
          do { (a, w, s) \<leftarrow> purge_signed_pre_key G P D w s a;
               ids \<leftarrow> purge_one_time_pre_key (Some a);
               let w = fold (\<lambda>i w. pg_remove_one_time_pre_key G w (acc_address a) i) ids w;
               resend_pending_request G P D cache w s (acc_e2ees_pack_id a) (acc_address a) (acc_auth a) })"

fun resume_loop ::
    "'w plugin \<Rightarrow> prims \<Rightarrow> gen_defaults \<Rightarrow> cache \<Rightarrow> account ptr array \<Rightarrow> nat \<Rightarrow> nat \<Rightarrow> 'w \<Rightarrow> seed \<Rightarrow> ('w \<times> seed) option" where
  "resume_loop G P D cache accounts i 0 w s = Some (w, s)"
| "resume_loop G P D cache accounts i (Suc k) w s =
     do { cur_account \<leftarrow> array_get accounts i;
          (w, s) \<leftarrow> resume_connection_internal G P D cache w s cur_account;
          resume_loop G P D cache accounts (Suc i) k w s }"

definition resume_connection :: "'w plugin \<Rightarrow> prims \<Rightarrow> gen_defaults \<Rightarrow> cache \<Rightarrow> 'w \<Rightarrow> seed \<Rightarrow> ('w \<times> seed) option" where
  "resume_connection G P D cache w s =
     (let (account_num, accounts) = pg_load_accounts G w in resume_loop G P D cache accounts 0 account_num w s)"

end
