(* ===== verification/Client_Props.thy ===== *)
theory Client_Props
  imports Client Account_Manager_Props
begin

section \<open>Properties of the client\<close>

text \<open>
  What the client does with the signatures of the server, and with the requests that are pending when
  a connection is resumed.
\<close>

subsection \<open>A concrete plugin\<close>

text \<open>A world with the requests that are pending, the messages given to the server and the sessions that were dropped.\<close>

record client_world =
  cl_queue :: "(cstr \<times> pending_request ptr) list"
  cl_sent :: "e2ee_msg list"
  cl_dropped :: "(address ptr \<times> address ptr) list"

definition demo_client :: "response_code \<Rightarrow> account \<Rightarrow> proto_msg ptr \<Rightarrow> client_world plugin" where
  "demo_client code a m = (idle_plugin (idle_host
     \<lparr>hs_unload_session := (\<lambda>w adr peer. w\<lparr>cl_dropped := cl_dropped w @ [(adr, peer)]\<rparr>),
      hs_send_one2one_msg := Some (\<lambda>w adr auth m. (Some \<lparr>sor_code = code\<rparr>, w\<lparr>cl_sent := cl_sent w @ [m]\<rparr>))\<rparr>))
     \<lparr>pg_load_accounts := (\<lambda>w. (1, Some [Some a])), pg_load_pending_request_data := (\<lambda>w adr. cl_queue w),
      pg_unload_pending_request_data := (\<lambda>w adr i. w\<lparr>cl_queue := filter (\<lambda>e. fst e \<noteq> i) (cl_queue w)\<rparr>),
      pg_unpack_proto_msg := (\<lambda>b. m)\<rparr>"

text \<open>A message that drops the sessions with another user, with a signature of the server on the fingerprint \<open>f\<close>.\<close>

definition demo_signature :: "byte \<Rightarrow> byte \<Rightarrow> server_signed_signature" where
  "demo_signature f sig = \<lparr>sss_signer = Some \<lparr>su_cn = Some ''s'', su_domain = Some ''d'', su_o = Some ''o'', su_n_ou = 1, su_ou = Some [Some ''u'']\<rparr>,
     sss_signing_alg = 17, sss_signing_public_key_fingerprint = buf [1], sss_msg_fingerprint = buf [f], sss_signature = buf [sig]\<rparr>"

definition demo_proto_msg :: "byte \<Rightarrow> byte \<Rightarrow> proto_payload \<Rightarrow> proto_msg" where
  "demo_proto_msg f sig payload = \<lparr>pm_to = Some (demo_address ''a''), pm_n_signature_list = 1,
     pm_signature_list = Some [Some (demo_signature f sig)], pm_tag = None, pm_payload = payload\<rparr>"

abbreviation (input) demo_drop :: proto_payload where
  "demo_drop \<equiv> PAYLOAD_REMOVE_USER_DEVICE_MSG (Some \<lparr>rud_user_address = Some (demo_address ''b'')\<rparr>)"

lemma demo_proto_msg_valid: "is_valid_proto_msg (Some (demo_proto_msg f sig payload)) = Some True"
  by (simp add: is_valid_proto_msg_def demo_proto_msg_def demo_address_def is_valid_address_def is_valid_server_signed_signature_list_def
      is_valid_server_signed_signature_def demo_signature_def is_valid_subject_def is_valid_string_list_def valid_array_eq and_then_def array_get_def)

definition demo_client_cache :: cache where
  "demo_client_cache = [(cache_entry (demo_user ''a'' 5))\<lparr>ca_server_public_key := buf [2]\<rparr>]"

lemma demo_server_key: "load_server_public_key_from_cache demo_client_cache (Some (demo_address ''a'')) = Some (buf [2])"
  by (simp add: load_server_public_key_from_cache_def demo_client_cache_def cache_entry_def demo_user_def compare_address_def
      demo_address_def copy_simps)

lemma demo_signature_verify:
  "verify_server_signature demo_prims (buf [2]) (Some (demo_signature f sig)) = Some (if sig = f + 2 then 0 else - 1)"
  by (simp add: verify_server_signature_def demo_signature_def get_ds_suite_def ds_table_def ds_suite_object_def E2EES_DS_PQC_def, simp add: demo_prims_def)

subsection \<open>The signatures of the server\<close>

lemma verify_signatures_loop_fail:
  assumes "\<forall>p\<in>set (drop i sigs). verify_server_signature P key p \<noteq> None" and "i + k = length sigs"
    and "ret = E2EES_RESULT_FAIL \<or> (\<exists>p\<in>set (drop i sigs). \<exists>c. verify_server_signature P key p = Some c \<and> c < 0)"
  shows "verify_signatures_loop P key (Some sigs) i k ret = Some E2EES_RESULT_FAIL"
  using assms
proof (induction k arbitrary: i ret)
  case 0
  then show ?case by simp
next
  case (Suc k)
  have i: "i < length sigs" using Suc.prems(2) by simp
  then have set: "set (drop i sigs) = insert (sigs ! i) (set (drop (Suc i) sigs))"
    by (simp flip: Cons_nth_drop_Suc)
  obtain c where c: "verify_server_signature P key (sigs ! i) = Some c" using Suc.prems(1) set by auto
  have "verify_signatures_loop P key (Some sigs) (Suc i) k (if c < 0 then E2EES_RESULT_FAIL else ret) = Some E2EES_RESULT_FAIL"
    using Suc.prems set c by (intro Suc.IH) auto
  then show ?case using i c by (simp add: array_get_def)
qed

text \<open>
  C5: a message of the server of which one signature does not verify under the server's key is not
  processed: nothing is delivered or stored, no random value is drawn and nothing is sent.
\<close>

theorem bad_server_signature_ignored:
  assumes "pg_unpack_proto_msg G proto_msg_data = Some m" and "is_valid_proto_msg (Some m) = Some True"
    and "load_server_public_key_from_cache cache (pm_to m) = Some key"
    and "pm_signature_list m = Some sigs" "pm_n_signature_list m = length sigs"
    and "\<forall>p\<in>set sigs. verify_server_signature P key p \<noteq> None"
    and "p \<in> set sigs" "verify_server_signature P key p = Some c" "c < 0"
  shows "process_proto_msg mem_ok G P D cache w s proto_msg_data = Some (None, w, s)"
proof -
  have "verify_signatures_loop P key (Some sigs) 0 (length sigs) E2EES_RESULT_SUCC = Some E2EES_RESULT_FAIL"
    using assms(6-) by (intro verify_signatures_loop_fail) auto
  then show ?thesis using assms(1-5) by (simp add: process_proto_msg_def)
qed

theorem bad_server_signature_ignored_witness:
  "process_proto_msg (\<lambda>_. True) (demo_client RESPONSE_CODE_OK (demo_user ''a'' 5) (Some (demo_proto_msg 3 4 demo_drop))) demo_prims demo_D
     demo_client_cache \<lparr>cl_queue = [], cl_sent = [], cl_dropped = []\<rparr> 0 [1] = Some (None, \<lparr>cl_queue = [], cl_sent = [], cl_dropped = []\<rparr>, 0)"
  by (rule bad_server_signature_ignored [where m = "demo_proto_msg 3 4 demo_drop" and sigs = "[Some (demo_signature 3 4)]"
        and key = "buf [2]" and p = "Some (demo_signature 3 4)" and c = "- 1"])
    (simp_all add: demo_client_def idle_plugin_def demo_proto_msg_valid demo_signature_verify, simp_all add: demo_proto_msg_def demo_server_key)

text \<open>
  C30: the signatures are checked on the fingerprints they carry, and no fingerprint is compared with
  the message: with the signatures of any message that passes the check, or with none, every payload
  for the same receiver is dispatched.  (The message has no tag, so there is no acknowledgement.)
\<close>

theorem server_signature_not_of_payload:
  assumes "is_valid_proto_msg (Some m) = Some True"
    and "load_server_public_key_from_cache cache (pm_to m) = Some key"
    and "verify_signatures_loop P key (pm_signature_list m) 0 (pm_n_signature_list m) E2EES_RESULT_SUCC = Some E2EES_RESULT_SUCC"
    and "pg_unpack_proto_msg G proto_msg_data = Some (m\<lparr>pm_payload := payload\<rparr>)" and "pm_tag m = None"
  shows "process_proto_msg mem_ok G P D cache w s proto_msg_data =
    map_option (\<lambda>(consumed, w', s'). (if consumed then Some \<lparr>cps_code = RESPONSE_CODE_OK\<rparr> else None, w', s'))
      (dispatch_payload mem_ok G P D cache w s (pm_to m) payload)"
proof -
  have "is_valid_proto_msg (Some (m\<lparr>pm_payload := payload\<rparr>)) = Some True"
    using assms(1) by (simp add: is_valid_proto_msg_def split: if_splits)
  with assms(2-) show ?thesis
    by (cases "dispatch_payload mem_ok G P D cache w s (pm_to m) payload")
      (auto simp: process_proto_msg_def notify_consumed_def)
qed

theorem server_signature_not_of_payload_witness:
  "process_proto_msg (\<lambda>_. True) (demo_client RESPONSE_CODE_OK (demo_user ''a'' 5) (Some (demo_proto_msg 3 5 demo_drop))) demo_prims demo_D
     demo_client_cache \<lparr>cl_queue = [], cl_sent = [], cl_dropped = []\<rparr> 0 [1] =
   Some (Some \<lparr>cps_code = RESPONSE_CODE_OK\<rparr>,
     \<lparr>cl_queue = [], cl_sent = [], cl_dropped = [(Some (demo_address ''a''), Some (demo_address ''b''))]\<rparr>, 0)"
proof -
  let ?m = "demo_proto_msg 3 5 PAYLOAD_OTHER"
  have m: "pm_to ?m = Some (demo_address ''a'')" "demo_proto_msg 3 5 demo_drop = ?m\<lparr>pm_payload := demo_drop\<rparr>" "pm_tag ?m = None"
    by (simp_all add: demo_proto_msg_def)
  have sigs: "verify_signatures_loop demo_prims (buf [2]) (pm_signature_list ?m) 0 (pm_n_signature_list ?m)
      E2EES_RESULT_SUCC = Some E2EES_RESULT_SUCC"
    by (simp add: demo_proto_msg_def array_get_def demo_signature_verify)
  have "process_proto_msg (\<lambda>_. True) (demo_client RESPONSE_CODE_OK (demo_user ''a'' 5) (Some (demo_proto_msg 3 5 demo_drop))) demo_prims demo_D
     demo_client_cache \<lparr>cl_queue = [], cl_sent = [], cl_dropped = []\<rparr> 0 [1] =
    map_option (\<lambda>(consumed, w', s'). (if consumed then Some \<lparr>cps_code = RESPONSE_CODE_OK\<rparr> else None, w', s'))
      (dispatch_payload (\<lambda>_. True) (demo_client RESPONSE_CODE_OK (demo_user ''a'' 5) (Some (demo_proto_msg 3 5 demo_drop))) demo_prims demo_D
        demo_client_cache \<lparr>cl_queue = [], cl_sent = [], cl_dropped = []\<rparr> 0 (pm_to ?m) demo_drop)"
    by (rule server_signature_not_of_payload [OF demo_proto_msg_valid _ sigs _ m(3)])
      (simp_all add: m(1) demo_server_key, simp add: demo_client_def m(2))
  then show ?thesis
    by (simp add: m(1) dispatch_payload_def no_seed_def consume_remove_user_device_msg_def is_valid_remove_user_device_msg_def
        demo_address_def is_valid_address_def demo_client_def idle_plugin_def)
qed

subsection \<open>Pending requests\<close>

text \<open>
  The documented behaviour of the database and the server of one account: \<open>queue\<close> is what is pending,
  \<open>sent\<close> the messages given to the server, which answers each with \<open>code\<close>.
\<close>

definition resend_documented ::
    "'w plugin \<Rightarrow> ('w \<Rightarrow> (cstr \<times> pending_request ptr) list) \<Rightarrow> ('w \<Rightarrow> e2ee_msg list) \<Rightarrow> response_code \<Rightarrow> bool" where
  "resend_documented G queue sent code \<longleftrightarrow>
     (\<forall>w adr. pg_load_pending_request_data G w adr = queue w) \<and>
     (\<forall>w adr i. queue (pg_unload_pending_request_data G w adr i) = filter (\<lambda>e. fst e \<noteq> i) (queue w) \<and>
                sent (pg_unload_pending_request_data G w adr i) = sent w) \<and>
     (\<exists>f. hs_send_one2one_msg (pg_host G) = Some f \<and>
       (\<forall>w adr auth m. fst (f w adr auth m) = Some \<lparr>sor_code = code\<rparr> \<and>
          sent (snd (f w adr auth m)) = sent w @ [m] \<and> queue (snd (f w adr auth m)) = queue w)) \<and>
     (\<forall>w. queue (snd (hs_gen_ts (pg_host G) w)) = queue w \<and> sent (snd (hs_gen_ts (pg_host G) w)) = sent w) \<and>
     (\<forall>w adr. queue (pg_remove_expired_signed_pre_key G w adr) = queue w \<and> sent (pg_remove_expired_signed_pre_key G w adr) = sent w) \<and>
     (\<forall>w adr i. queue (pg_remove_one_time_pre_key G w adr i) = queue w \<and> sent (pg_remove_one_time_pre_key G w adr i) = sent w)"

abbreviation pending_msg :: "string \<times> e2ee_msg \<Rightarrow> cstr \<times> pending_request ptr" where
  "pending_msg e \<equiv> (Some (fst e), Some (PENDING_REQUEST_TYPE_SEND_ONE2ONE_MSG (snd e)))"

lemma resend_step:
  assumes "resend_documented G queue sent code"
  obtains w' where "resend_request G P D cache raw adr auth (\<lambda>w. pg_unload_pending_request_data G w adr i)
      (PENDING_REQUEST_TYPE_SEND_ONE2ONE_MSG m) w s = Some (w', s)" "sent w' = sent w @ [m]"
    "queue w' = (if code = RESPONSE_CODE_OK then filter (\<lambda>e. fst e \<noteq> i) (queue w) else queue w)"
proof -
  obtain f where f: "hs_send_one2one_msg (pg_host G) = Some f"
      "\<And>w adr auth m. fst (f w adr auth m) = Some \<lparr>sor_code = code\<rparr> \<and> sent (snd (f w adr auth m)) = sent w @ [m] \<and>
        queue (snd (f w adr auth m)) = queue w"
    using assms by (auto simp: resend_documented_def)
  obtain r v where v: "f w adr auth m = (r, v)" by fastforce
  show ?thesis
    using f(1) f(2) [of w adr auth m] assms that [of "if code = RESPONSE_CODE_OK then pg_unload_pending_request_data G v adr i else v"]
    by (auto simp: resend_request_def resend_one2one_msg_def with_seed_def v resend_documented_def split: if_splits)
qed

lemma resend_loop_sends:
  assumes "resend_documented G queue sent code"
  shows "\<exists>w'. resend_loop G P D cache raw adr auth (map pending_msg es) w s = Some (w', s) \<and> sent w' = sent w @ map snd es \<and>
    queue w' = (if code = RESPONSE_CODE_OK then filter (\<lambda>e. fst e \<notin> Some ` fst ` set es) (queue w) else queue w)"
proof (induction es arbitrary: w)
  case Nil
  then show ?case by simp
next
  case (Cons e es)
  obtain w1 where w1: "resend_request G P D cache raw adr auth (\<lambda>w. pg_unload_pending_request_data G w adr (Some (fst e)))
      (PENDING_REQUEST_TYPE_SEND_ONE2ONE_MSG (snd e)) w s = Some (w1, s)" "sent w1 = sent w @ [snd e]"
    "queue w1 = (if code = RESPONSE_CODE_OK then filter (\<lambda>x. fst x \<noteq> Some (fst e)) (queue w) else queue w)"
    by (rule resend_step [OF assms])
  obtain w2 where w2: "resend_loop G P D cache raw adr auth (map pending_msg es) w1 s = Some (w2, s)" "sent w2 = sent w1 @ map snd es"
    "queue w2 = (if code = RESPONSE_CODE_OK then filter (\<lambda>x. fst x \<notin> Some ` fst ` set es) (queue w1) else queue w1)"
    using Cons.IH [of w1] by blast
  show ?case
    by (intro exI [of _ w2] conjI) (use w1 w2 in \<open>auto intro!: filter_cong\<close>)
qed

text \<open>
  C25: when the connection is resumed on a host with one registered account, whose signed pre-key is still
  valid and whose pending requests are all one-to-one messages, a server that accepts messages gets each
  of them once and in order, and no request stays pending.
\<close>

theorem pending_messages_resent:
  assumes "resend_documented G queue sent RESPONSE_CODE_OK"
    and "pg_load_accounts G w = (1, Some [Some a])"
    and "acc_saved a" "acc_signed_pre_key a = Some spk" "fst (hs_gen_ts (pg_host G) w) \<le> spk_ttl spk"
    and "purge_one_time_pre_key (Some a) = Some ids"
    and "queue w = map pending_msg es"
  shows "\<exists>w'. resume_connection G P D cache w s = Some (w', s) \<and> sent w' = sent w @ map snd es \<and> queue w' = []"
proof -
  obtain now w1 where ts: "hs_gen_ts (pg_host G) w = (now, w1)" by fastforce
  let ?w2 = "fold (\<lambda>i w. pg_remove_one_time_pre_key G w (acc_address a) i) ids (pg_remove_expired_signed_pre_key G w1 (acc_address a))"
  have purge: "purge_signed_pre_key G P D w s a = Some (a, pg_remove_expired_signed_pre_key G w1 (acc_address a), s)"
    using assms(3-5) ts by (simp add: purge_signed_pre_key_def)
  have "queue (fold (\<lambda>i w. pg_remove_one_time_pre_key G w (acc_address a) i) ids v) = queue v \<and>
      sent (fold (\<lambda>i w. pg_remove_one_time_pre_key G w (acc_address a) i) ids v) = sent v" for v
    using assms(1) by (induction ids arbitrary: v) (auto simp: resend_documented_def)
  moreover have "queue w1 = queue w" "sent w1 = sent w"
    using assms(1) ts unfolding resend_documented_def by (metis snd_conv)+
  ultimately have kept: "queue ?w2 = map pending_msg es" "sent ?w2 = sent w"
    using assms(1,7) by (simp_all add: resend_documented_def)
  obtain w' where w': "resend_loop G P D cache (acc_e2ees_pack_id a) (acc_address a) (acc_auth a) (map pending_msg es) ?w2 s = Some (w', s)"
      "sent w' = sent ?w2 @ map snd es" "queue w' = filter (\<lambda>e. fst e \<notin> Some ` fst ` set es) (queue ?w2)"
    using resend_loop_sends [OF assms(1)] by (metis (no_types, lifting))
  have load: "pg_load_pending_request_data G ?w2 (acc_address a) = map pending_msg es"
    using assms(1) kept(1) by (simp add: resend_documented_def)
  have "queue w' = []" using w'(3) kept(1) by (auto simp: filter_empty_conv)
  moreover have "resume_connection G P D cache w s = Some (w', s)"
    using assms(2,6) purge w'(1) load
    by (simp add: resume_connection_def resume_connection_internal_def resend_pending_request_def array_get_def)
  ultimately show ?thesis using w'(2) kept(2) by auto
qed

definition demo_pending_msg :: "string \<Rightarrow> e2ee_msg" where
  "demo_pending_msg i = \<lparr>em_version = Some ''1'', em_session_id = Some ''s'', em_from = None, em_to = None, em_msg_id = Some i,
     em_notif_level = 0, em_payload = E2EE_PAYLOAD_NOT_SET\<rparr>"

lemma demo_client_documented: "resend_documented (demo_client code a m) cl_queue cl_sent code"
  by (auto simp: resend_documented_def demo_client_def idle_plugin_def idle_host_def)

theorem pending_messages_resent_witness:
  "\<exists>w'. resume_connection (demo_client RESPONSE_CODE_OK demo_saved None) demo_prims demo_D demo_client_cache
      \<lparr>cl_queue = map pending_msg [(''x'', demo_pending_msg ''1''), (''y'', demo_pending_msg ''2'')], cl_sent = [], cl_dropped = []\<rparr> 0 = Some (w', 0) \<and>
    cl_sent w' = [demo_pending_msg ''1'', demo_pending_msg ''2''] \<and> cl_queue w' = []"
proof -
  let ?w = "\<lparr>cl_queue = map pending_msg [(''x'', demo_pending_msg ''1''), (''y'', demo_pending_msg ''2'')], cl_sent = [], cl_dropped = []\<rparr>"
  have purge: "purge_one_time_pre_key (Some demo_saved) = Some []"
    by (simp add: purge_one_time_pre_key_def demo_saved_def demo_user_def array_get_def)
  have "\<exists>w'. resume_connection (demo_client RESPONSE_CODE_OK demo_saved None) demo_prims demo_D demo_client_cache ?w 0 = Some (w', 0) \<and>
      cl_sent w' = cl_sent ?w @ map snd [(''x'', demo_pending_msg ''1''), (''y'', demo_pending_msg ''2'')] \<and> cl_queue w' = []"
    by (rule pending_messages_resent [where spk = "demo_spk 2 7", OF demo_client_documented _ _ _ _ purge])
      (simp_all add: demo_client_def idle_plugin_def idle_host_def demo_saved_def demo_user_def demo_spk_def)
  then show ?thesis by simp
qed

text \<open>\<open>n\<close> resumed connections.\<close>

fun resends :: "'w plugin \<Rightarrow> prims \<Rightarrow> gen_defaults \<Rightarrow> cache \<Rightarrow> u32 \<Rightarrow> address ptr \<Rightarrow> cstr \<Rightarrow> nat \<Rightarrow> 'w \<Rightarrow> seed \<Rightarrow> ('w \<times> seed) option" where
  "resends G P D cache raw adr auth 0 w s = Some (w, s)"
| "resends G P D cache raw adr auth (Suc n) w s =
     do { (w, s) \<leftarrow> resend_pending_request G P D cache w s raw adr auth; resends G P D cache raw adr auth n w s }"

text \<open>
  A one-to-one message that the server refuses, for instance because the receiver is not found, is
  never given up: every resumed connection sends it again, and it stays pending.
\<close>

lemma refused_message_resent_forever:
  assumes "resend_documented G queue sent code" and "code \<noteq> RESPONSE_CODE_OK" and "queue w = [pending_msg (i, m)]"
  shows "\<exists>w'. resends G P D cache raw adr auth n w s = Some (w', s) \<and> sent w' = sent w @ replicate n m \<and> queue w' = queue w"
  using assms(3)
proof (induction n arbitrary: w)
  case 0
  then show ?case by simp
next
  case (Suc n)
  obtain w1 where w1: "resend_pending_request G P D cache w s raw adr auth = Some (w1, s)" "sent w1 = sent w @ [m]" "queue w1 = queue w"
    using resend_loop_sends [OF assms(1), of P D cache raw adr auth "[(i, m)]" w s] assms Suc.prems
    by (auto simp: resend_pending_request_def resend_documented_def)
  obtain w2 where "resends G P D cache raw adr auth n w1 s = Some (w2, s)" "sent w2 = sent w1 @ replicate n m" "queue w2 = queue w1"
    using Suc.IH [of w1] w1(3) Suc.prems by auto
  then show ?case using w1 by (auto simp: replicate_append_same)
qed

lemma refused_message_resent_forever_witness:
  "\<exists>w'. resends (demo_client RESPONSE_CODE_NOT_FOUND (demo_user ''a'' 5) None) demo_prims demo_D demo_client_cache 0x113101
      (Some (demo_address ''a'')) (Some ''t'') 3 \<lparr>cl_queue = [pending_msg (''x'', demo_pending_msg ''1'')], cl_sent = [], cl_dropped = []\<rparr> 0 = Some (w', 0) \<and>
    cl_sent w' = [] @ replicate 3 (demo_pending_msg ''1'') \<and> cl_queue w' = [pending_msg (''x'', demo_pending_msg ''1'')]"
  using refused_message_resent_forever [OF demo_client_documented,
      of RESPONSE_CODE_NOT_FOUND "\<lparr>cl_queue = [pending_msg (''x'', demo_pending_msg ''1'')], cl_sent = [], cl_dropped = []\<rparr>" "''x''" "demo_pending_msg ''1''"]
  by simp

end
