(* ===== verification/Gcm.thy ===== *)
theory Gcm
  imports Suite_Laws
begin

unbundle bit_operations_syntax

section \<open>Galois/counter mode (src/lib/mbedcrypto/library/gcm.c)\<close>

text \<open>
  The mode of operation behind every encryption of the library, over a block cipher: key tables,
  multiplication, start, update and finish.  The cipher (\<open>cipher.c\<close>, \<open>aes.c\<close>) and the multiplication of
  processors that have one (\<open>aesni.c\<close>, inline assembly) are parameters.  The parameter checks of the
  macros \<open>GCM_VALIDATE\<close> are compiled to nothing, and callers pass buffers that do not overlap.
\<close>

subsection \<open>Contexts\<close>

type_synonym u64 = "64 word"

text \<open>
  \<open>bc_setkey\<close> is the outcome of the lookup, setup and key schedule of the cipher; \<open>bc_update\<close> encrypts a
  block of 16 bytes under a key; \<open>bc_clmul\<close> is the multiplication of the processor.
\<close>

record block_cipher =
  bc_setkey :: "bytes \<Rightarrow> int"
  bc_update :: "bytes \<Rightarrow> bytes \<Rightarrow> int \<times> bytes"
  bc_clmul :: "(bytes \<Rightarrow> bytes \<Rightarrow> bytes) ptr"

text \<open>The field \<open>cipher_ctx\<close> is the cipher with its key.\<close>

record mbedtls_gcm_context =
  gc_cipher_ctx :: "bytes \<Rightarrow> int \<times> bytes"
  gc_clmul :: "(bytes \<Rightarrow> bytes \<Rightarrow> bytes) ptr"
  gc_HL :: "u64 list"
  gc_HH :: "u64 list"
  gc_len :: u64
  gc_add_len :: u64
  gc_base_ectr :: bytes
  gc_y :: bytes
  gc_buf :: bytes
  gc_mode :: int

abbreviation (input) MBEDTLS_GCM_ENCRYPT :: int where "MBEDTLS_GCM_ENCRYPT \<equiv> 1"
abbreviation (input) MBEDTLS_GCM_DECRYPT :: int where "MBEDTLS_GCM_DECRYPT \<equiv> 0"
abbreviation (input) MBEDTLS_ERR_GCM_BAD_INPUT :: int where "MBEDTLS_ERR_GCM_BAD_INPUT \<equiv> - 0x14"

definition mbedtls_gcm_init :: mbedtls_gcm_context where
  "mbedtls_gcm_init =
     \<lparr>gc_cipher_ctx = (\<lambda>x. (0, x)), gc_clmul = None, gc_HL = replicate 16 0, gc_HH = replicate 16 0, gc_len = 0, gc_add_len = 0,
      gc_base_ectr = replicate 16 0, gc_y = replicate 16 0, gc_buf = replicate 16 0, gc_mode = 0\<rparr>"

definition GET_UINT32_BE :: "bytes \<Rightarrow> nat \<Rightarrow> u64" where
  "GET_UINT32_BE b i =
     push_bit 24 (ucast (b ! i)) OR push_bit 16 (ucast (b ! (i + 1))) OR push_bit 8 (ucast (b ! (i + 2))) OR ucast (b ! (i + 3))"

definition PUT_UINT32_BE :: "u64 \<Rightarrow> bytes" where
  "PUT_UINT32_BE n = [ucast (drop_bit 24 n), ucast (drop_bit 16 n), ucast (drop_bit 8 n), ucast n]"

text \<open>\<open>dst[i] ^= src[i]\<close> for the bytes of \<open>src\<close>.\<close>

fun xor_into :: "bytes \<Rightarrow> bytes \<Rightarrow> bytes" where
  "xor_into (a # as) (b # bs) = (a XOR b) # xor_into as bs"
| "xor_into as [] = as"
| "xor_into [] bs = []"

subsection \<open>Multiplication\<close>

text \<open>The two loops of \<open>gcm_gen_table\<close>: the halvings of \<open>H\<close>, and the sums of table entries.\<close>

fun halve_loop :: "nat list \<Rightarrow> u64 \<Rightarrow> u64 \<Rightarrow> u64 list \<Rightarrow> u64 list \<Rightarrow> u64 list \<times> u64 list" where
  "halve_loop [] vl vh HL HH = (HL, HH)"
| "halve_loop (i # is) vl vh HL HH =
     (let T = (vl AND 1) * 0xe1000000;
          vl' = push_bit 63 vh OR drop_bit 1 vl;
          vh' = drop_bit 1 vh XOR push_bit 32 T
      in halve_loop is vl' vh' (HL[i := vl']) (HH[i := vh']))"

fun sum_loop :: "(nat \<times> nat) list \<Rightarrow> u64 list \<Rightarrow> u64 list \<Rightarrow> u64 list \<times> u64 list" where
  "sum_loop [] HL HH = (HL, HH)"
| "sum_loop ((i, j) # is) HL HH = sum_loop is (HL[i + j := HL ! i XOR HL ! j]) (HH[i + j := HH ! i XOR HH ! j])"

definition gcm_gen_table :: "mbedtls_gcm_context \<Rightarrow> int \<times> mbedtls_gcm_context" where
  "gcm_gen_table ctx =
     (let (ret, h) = gc_cipher_ctx ctx (replicate 16 0) in
      if ret \<noteq> 0 then (ret, ctx)
      else
        let vh = push_bit 32 (GET_UINT32_BE h 0) OR GET_UINT32_BE h 4;
            vl = push_bit 32 (GET_UINT32_BE h 8) OR GET_UINT32_BE h 12;
            HL = (gc_HL ctx)[8 := vl]; HH = (gc_HH ctx)[8 := vh]
        in if gc_clmul ctx \<noteq> None then (0, ctx\<lparr>gc_HL := HL, gc_HH := HH\<rparr>)
           else
             let (HL, HH) = halve_loop [4, 2, 1] vl vh (HL[0 := 0]) (HH[0 := 0]);
                 (HL, HH) = sum_loop [(i, j). i \<leftarrow> [2, 4, 8], j \<leftarrow> [1..<i]] HL HH
             in (0, ctx\<lparr>gc_HL := HL, gc_HH := HH\<rparr>))"

definition mbedtls_gcm_setkey :: "block_cipher \<Rightarrow> mbedtls_gcm_context \<Rightarrow> bytes \<Rightarrow> int \<times> mbedtls_gcm_context" where
  "mbedtls_gcm_setkey bc ctx key =
     (let ret = bc_setkey bc key in
      if ret \<noteq> 0 then (ret, ctx) else gcm_gen_table (ctx\<lparr>gc_cipher_ctx := bc_update bc key, gc_clmul := bc_clmul bc\<rparr>))"

definition last4 :: "u64 list" where
  "last4 =
     [0x0000, 0x1c20, 0x3840, 0x2460, 0x7080, 0x6ca0, 0x48c0, 0x54e0, 0xe100, 0xfd20, 0xd940, 0xc560, 0x9180, 0x8da0, 0xa9c0, 0xb5e0]"

text \<open>One nibble of the multiplication: shift by four, reduce, and add the table entry.\<close>

definition mult_nibble :: "mbedtls_gcm_context \<Rightarrow> byte \<Rightarrow> u64 \<times> u64 \<Rightarrow> u64 \<times> u64" where
  "mult_nibble ctx nibble z =
     (let (zh, zl) = z; rem = zl AND 0xf;
          zl = push_bit 60 zh OR drop_bit 4 zl;
          zh = drop_bit 4 zh XOR push_bit 48 (last4 ! unat rem)
      in (zh XOR gc_HH ctx ! unat nibble, zl XOR gc_HL ctx ! unat nibble))"

definition gcm_mult :: "mbedtls_gcm_context \<Rightarrow> bytes \<Rightarrow> bytes" where
  "gcm_mult ctx x =
     (case gc_clmul ctx of
        Some mult \<Rightarrow>
          mult x (PUT_UINT32_BE (drop_bit 32 (gc_HH ctx ! 8)) @ PUT_UINT32_BE (gc_HH ctx ! 8) @
                  PUT_UINT32_BE (drop_bit 32 (gc_HL ctx ! 8)) @ PUT_UINT32_BE (gc_HL ctx ! 8))
      | None \<Rightarrow>
          let lo = x ! 15 AND 0xf;
              (zh, zl) = fold (\<lambda>i z.
                 let lo = x ! i AND 0xf; hi = drop_bit 4 (x ! i) AND 0xf;
                     z = (if i \<noteq> 15 then mult_nibble ctx lo z else z)
                 in mult_nibble ctx hi z) (rev [0..<16]) (gc_HH ctx ! unat lo, gc_HL ctx ! unat lo)
          in PUT_UINT32_BE (drop_bit 32 zh) @ PUT_UINT32_BE zh @ PUT_UINT32_BE (drop_bit 32 zl) @ PUT_UINT32_BE zl)"

subsection \<open>The operations\<close>

text \<open>The loops over the initialisation vector and the additional data, 16 bytes at a time.\<close>

function hash_loop :: "mbedtls_gcm_context \<Rightarrow> bytes \<Rightarrow> bytes \<Rightarrow> bytes" where
  "hash_loop ctx block p = (if p = [] then block else hash_loop ctx (gcm_mult ctx (xor_into block (take 16 p))) (drop 16 p))"
  by pat_completeness auto
termination by (relation "measure (\<lambda>(_, _, p). length p)") auto

declare hash_loop.simps [simp del]

definition mbedtls_gcm_starts :: "mbedtls_gcm_context \<Rightarrow> int \<Rightarrow> bytes \<Rightarrow> bytes \<Rightarrow> int \<times> mbedtls_gcm_context" where
  "mbedtls_gcm_starts ctx mode iv add =
     (if length iv = 0 \<or> length iv div 2 ^ 61 \<noteq> 0 \<or> length add div 2 ^ 61 \<noteq> 0 then (MBEDTLS_ERR_GCM_BAD_INPUT, ctx)
      else
        let ctx = ctx\<lparr>gc_y := replicate 16 0, gc_buf := replicate 16 0, gc_mode := mode, gc_len := 0, gc_add_len := 0\<rparr>;
            y = (if length iv = 12 then (iv @ drop 12 (gc_y ctx))[15 := 1]
                 else gcm_mult ctx (xor_into (hash_loop ctx (gc_y ctx) iv)
                        (replicate 12 0 @ PUT_UINT32_BE (of_nat (length iv) * 8))));
            (ret, base_ectr) = gc_cipher_ctx ctx y;
            ctx = ctx\<lparr>gc_y := y\<rparr>
        in if ret \<noteq> 0 then (ret, ctx)
           else (0, ctx\<lparr>gc_base_ectr := base_ectr, gc_add_len := of_nat (length add), gc_buf := hash_loop ctx (gc_buf ctx) add\<rparr>))"

text \<open>\<open>for (i = 16; i > 12; i--) if (++y[i - 1] != 0) break\<close>.\<close>

fun incr_loop :: "bytes \<Rightarrow> nat \<Rightarrow> bytes" where
  "incr_loop y i =
     (if i \<le> 12 then y
      else let y = y[i - 1 := y ! (i - 1) + 1] in if y ! (i - 1) \<noteq> 0 then y else incr_loop y (i - 1))"

declare incr_loop.simps [simp del]

function update_loop :: "mbedtls_gcm_context \<Rightarrow> bytes \<Rightarrow> int \<times> mbedtls_gcm_context \<times> bytes" where
  "update_loop ctx input =
     (if input = [] then (0, ctx, [])
      else
        let y = incr_loop (gc_y ctx) 16;
            (ret, ectr) = gc_cipher_ctx ctx y;
            ctx = ctx\<lparr>gc_y := y\<rparr>
        in if ret \<noteq> 0 then (ret, ctx, [])
           else
             let p = take 16 input;
                 out = map2 (XOR) ectr p;
                 buf = (if gc_mode ctx = MBEDTLS_GCM_DECRYPT then xor_into (gc_buf ctx) p else gc_buf ctx);
                 buf = (if gc_mode ctx = MBEDTLS_GCM_ENCRYPT then xor_into buf out else buf);
                 (ret, ctx, rest) = update_loop (ctx\<lparr>gc_buf := gcm_mult ctx buf\<rparr>) (drop 16 input)
             in (ret, ctx, out @ rest))"
  by pat_completeness auto
termination by (relation "measure (\<lambda>(_, p). length p)") auto

declare update_loop.simps [simp del]

definition mbedtls_gcm_update :: "mbedtls_gcm_context \<Rightarrow> bytes \<Rightarrow> int \<times> mbedtls_gcm_context \<times> bytes" where
  "mbedtls_gcm_update ctx input =
     (let len = gc_len ctx + of_nat (length input) in
      if len < gc_len ctx \<or> len > 0xFFFFFFFE0 then (MBEDTLS_ERR_GCM_BAD_INPUT, ctx, [])
      else update_loop (ctx\<lparr>gc_len := len\<rparr>) input)"

definition mbedtls_gcm_finish :: "mbedtls_gcm_context \<Rightarrow> nat \<Rightarrow> int \<times> mbedtls_gcm_context \<times> bytes" where
  "mbedtls_gcm_finish ctx tag_len =
     (let orig_len = gc_len ctx * 8; orig_add_len = gc_add_len ctx * 8 in
      if tag_len > 16 \<or> tag_len < 4 then (MBEDTLS_ERR_GCM_BAD_INPUT, ctx, [])
      else
        let tag = take tag_len (gc_base_ectr ctx) in
        if orig_len \<noteq> 0 \<or> orig_add_len \<noteq> 0 then
          let work_buf = PUT_UINT32_BE (drop_bit 32 orig_add_len) @ PUT_UINT32_BE orig_add_len @
                         PUT_UINT32_BE (drop_bit 32 orig_len) @ PUT_UINT32_BE orig_len;
              ctx = ctx\<lparr>gc_buf := gcm_mult ctx (xor_into (gc_buf ctx) work_buf)\<rparr>
          in (0, ctx, xor_into tag (take tag_len (gc_buf ctx)))
        else (0, ctx, tag))"

definition mbedtls_gcm_crypt_and_tag ::
    "mbedtls_gcm_context \<Rightarrow> int \<Rightarrow> bytes \<Rightarrow> bytes \<Rightarrow> bytes \<Rightarrow> nat \<Rightarrow> int \<times> mbedtls_gcm_context \<times> bytes \<times> bytes" where
  "mbedtls_gcm_crypt_and_tag ctx mode iv add input tag_len =
     (let (ret, ctx) = mbedtls_gcm_starts ctx mode iv add in
      if ret \<noteq> 0 then (ret, ctx, [], [])
      else
        let (ret, ctx, output) = mbedtls_gcm_update ctx input in
        if ret \<noteq> 0 then (ret, ctx, output, [])
        else let (ret, ctx, tag) = mbedtls_gcm_finish ctx tag_len in (ret, ctx, output, tag))"

subsection \<open>Contexts in use\<close>

text \<open>What \<open>cipher.h\<close> promises of AES-256 in ECB mode: 16 bytes are encrypted to 16 bytes.\<close>

definition block_cipher_documented :: "block_cipher \<Rightarrow> bool" where
  "block_cipher_documented bc \<longleftrightarrow>
     (\<forall>k. length k = 32 \<longrightarrow> bc_setkey bc k = 0) \<and>
     (\<forall>k b. length k = 32 \<longrightarrow> length b = 16 \<longrightarrow> fst (bc_update bc k b) = 0 \<and> length (snd (bc_update bc k b)) = 16) \<and>
     (\<forall>mult. bc_clmul bc = Some mult \<longrightarrow> (\<forall>x h. length (mult x h) = 16))"

definition keyed :: "mbedtls_gcm_context \<Rightarrow> bool" where
  "keyed ctx \<longleftrightarrow> (\<forall>b. length b = 16 \<longrightarrow> fst (gc_cipher_ctx ctx b) = 0 \<and> length (snd (gc_cipher_ctx ctx b)) = 16) \<and>
     (\<forall>mult. gc_clmul ctx = Some mult \<longrightarrow> (\<forall>x h. length (mult x h) = 16))"

definition started :: "mbedtls_gcm_context \<Rightarrow> bool" where
  "started ctx \<longleftrightarrow> keyed ctx \<and> length (gc_y ctx) = 16 \<and> length (gc_buf ctx) = 16 \<and> length (gc_base_ectr ctx) = 16"

lemma length_xor_into [simp]: "length (xor_into as bs) = length as"
  by (induction as bs rule: xor_into.induct) auto

lemma length_PUT_UINT32_BE [simp]: "length (PUT_UINT32_BE n) = 4"
  by (simp add: PUT_UINT32_BE_def)

lemma length_gcm_mult [simp]: "keyed ctx \<Longrightarrow> length (gcm_mult ctx x) = 16"
  by (auto simp: gcm_mult_def keyed_def Let_def split_beta split: option.splits)

lemma length_hash_loop: "keyed ctx \<Longrightarrow> length block = 16 \<Longrightarrow> length (hash_loop ctx block p) = 16"
proof (induction ctx block p rule: hash_loop.induct)
  case (1 ctx block p)
  show ?case
  proof (cases "p = []")
    case True
    then show ?thesis using "1.prems" by (simp add: hash_loop.simps)
  next
    case False
    then show ?thesis using "1.IH" [OF False "1.prems"(1)] "1.prems" by (subst hash_loop.simps) simp
  qed
qed

lemma length_incr_loop [simp]: "length (incr_loop y i) = length y"
proof (induction y i rule: incr_loop.induct)
  case (1 y i)
  show ?case by (subst incr_loop.simps) (use 1 in \<open>simp add: Let_def\<close>)
qed

text \<open>Multiplication and the loops over data read only the tables of the context.\<close>

lemma gcm_mult_tables:
  assumes "gc_HL c = gc_HL d" "gc_HH c = gc_HH d" "gc_clmul c = gc_clmul d"
  shows "gcm_mult c = gcm_mult d"
proof -
  have "mult_nibble c = mult_nibble d" using assms by (simp add: mult_nibble_def fun_eq_iff)
  then show ?thesis using assms unfolding gcm_mult_def by presburger
qed

lemma gcm_mult_context [simp]:
  "gcm_mult (ctx\<lparr>gc_y := y\<rparr>) = gcm_mult ctx" "gcm_mult (ctx\<lparr>gc_buf := b\<rparr>) = gcm_mult ctx"
  "gcm_mult (ctx\<lparr>gc_mode := m\<rparr>) = gcm_mult ctx" "gcm_mult (ctx\<lparr>gc_len := l\<rparr>) = gcm_mult ctx"
  "gcm_mult (ctx\<lparr>gc_add_len := l\<rparr>) = gcm_mult ctx" "gcm_mult (ctx\<lparr>gc_base_ectr := b\<rparr>) = gcm_mult ctx"
  by (rule gcm_mult_tables; simp)+

lemma hash_loop_mult: "gcm_mult c = gcm_mult d \<Longrightarrow> hash_loop c block p = hash_loop d block p"
proof (induction c block p rule: hash_loop.induct)
  case (1 c block p)
  then show ?case by (subst (1 2) hash_loop.simps) simp
qed

lemma hash_loop_context [simp]:
  "hash_loop (ctx\<lparr>gc_y := y\<rparr>) block p = hash_loop ctx block p" "hash_loop (ctx\<lparr>gc_buf := b\<rparr>) block p = hash_loop ctx block p"
  "hash_loop (ctx\<lparr>gc_mode := m\<rparr>) block p = hash_loop ctx block p" "hash_loop (ctx\<lparr>gc_len := l\<rparr>) block p = hash_loop ctx block p"
  "hash_loop (ctx\<lparr>gc_add_len := l\<rparr>) block p = hash_loop ctx block p"
  by (rule hash_loop_mult, simp)+

lemma keyed_context [simp]:
  "keyed (ctx\<lparr>gc_y := y\<rparr>) = keyed ctx" "keyed (ctx\<lparr>gc_buf := b\<rparr>) = keyed ctx" "keyed (ctx\<lparr>gc_mode := m\<rparr>) = keyed ctx"
  "keyed (ctx\<lparr>gc_len := l\<rparr>) = keyed ctx" "keyed (ctx\<lparr>gc_add_len := l\<rparr>) = keyed ctx" "keyed (ctx\<lparr>gc_base_ectr := b\<rparr>) = keyed ctx"
  by (simp_all add: keyed_def)

lemma setkey_keyed:
  assumes "block_cipher_documented bc" and "length key = 32"
  obtains ctx where "mbedtls_gcm_setkey bc mbedtls_gcm_init key = (0, ctx)" "keyed ctx"
proof -
  let ?ctx = "mbedtls_gcm_init\<lparr>gc_cipher_ctx := bc_update bc key, gc_clmul := bc_clmul bc\<rparr>"
  have "\<exists>HL HH. gcm_gen_table ?ctx = (0, ?ctx\<lparr>gc_HL := HL, gc_HH := HH\<rparr>)"
    using assms by (simp add: gcm_gen_table_def block_cipher_documented_def split_beta Let_def del: halve_loop.simps sum_loop.simps) blast
  then obtain HL HH where table: "gcm_gen_table ?ctx = (0, ?ctx\<lparr>gc_HL := HL, gc_HH := HH\<rparr>)" by blast
  moreover have "keyed (?ctx\<lparr>gc_HL := HL, gc_HH := HH\<rparr>)" using assms by (simp add: keyed_def block_cipher_documented_def)
  moreover have "bc_setkey bc key = 0" using assms by (simp add: block_cipher_documented_def)
  ultimately show ?thesis using that by (simp add: mbedtls_gcm_setkey_def)
qed

text \<open>A start succeeds, and the mode is the only difference between encryption and decryption.\<close>

lemma starts_ok:
  assumes "keyed ctx" and "0 < length iv" "length iv < 2 ^ 61" "length ad < 2 ^ 61"
  obtains ctx' where "\<And>mode. mbedtls_gcm_starts ctx mode iv ad = (0, ctx'\<lparr>gc_mode := mode\<rparr>)" "started ctx'" "gc_len ctx' = 0"
    "gc_add_len ctx' = of_nat (length ad)"
proof -
  let ?y = "if length iv = 12 then (iv @ replicate 4 0)[15 := 1]
    else gcm_mult ctx (xor_into (hash_loop ctx (replicate 16 0) iv) (replicate 12 0 @ PUT_UINT32_BE (of_nat (length iv) * 8)))"
  let ?ctx = "ctx\<lparr>gc_y := ?y, gc_buf := hash_loop ctx (replicate 16 0) ad, gc_len := 0, gc_add_len := of_nat (length ad),
    gc_base_ectr := snd (gc_cipher_ctx ctx ?y)\<rparr>"
  have y: "length ?y = 16" using assms(1) by simp
  then have ectr: "fst (gc_cipher_ctx ctx ?y) = 0" "length (snd (gc_cipher_ctx ctx ?y)) = 16" using assms(1) by (simp_all only: keyed_def)
  have "mbedtls_gcm_starts ctx mode iv ad = (0, ?ctx\<lparr>gc_mode := mode\<rparr>)" for mode
    using assms(2-4) ectr(1) by (cases "length iv = 12") (simp_all add: mbedtls_gcm_starts_def Let_def split_beta)
  moreover have "started ?ctx" using assms(1) y ectr(2) by (simp add: started_def length_hash_loop)
  ultimately show ?thesis using that by simp
qed

subsection \<open>Updates\<close>

text \<open>One block of an update on a started context, whose cipher does not fail.\<close>

definition update_block :: "mbedtls_gcm_context \<Rightarrow> bytes \<Rightarrow> mbedtls_gcm_context \<times> bytes" where
  "update_block ctx p =
     (let y = incr_loop (gc_y ctx) 16; out = map2 (XOR) (snd (gc_cipher_ctx ctx y)) p;
          buf = (if gc_mode ctx = 0 then xor_into (gc_buf ctx) p else if gc_mode ctx = 1 then xor_into (gc_buf ctx) out else gc_buf ctx)
      in (ctx\<lparr>gc_y := y, gc_buf := gcm_mult ctx buf\<rparr>, out))"

lemma started_ectr:
  "started ctx \<Longrightarrow> fst (gc_cipher_ctx ctx (incr_loop (gc_y ctx) 16)) = 0"
  "started ctx \<Longrightarrow> length (snd (gc_cipher_ctx ctx (incr_loop (gc_y ctx) 16))) = 16"
  by (simp_all add: started_def keyed_def)

lemma update_loop_started:
  assumes "started ctx"
  shows "update_loop ctx input = (if input = [] then (0, ctx, [])
    else case update_loop (fst (update_block ctx (take 16 input))) (drop 16 input) of (ret, ctx', rest) \<Rightarrow>
      (ret, ctx', snd (update_block ctx (take 16 input)) @ rest))"
  using started_ectr(1) [OF assms] by (subst update_loop.simps) (simp add: update_block_def Let_def split_beta)

lemma update_block_ok:
  assumes "started ctx"
  shows "started (fst (update_block ctx p))" "length (snd (update_block ctx p)) = min 16 (length p)"
    "gc_mode (fst (update_block ctx p)) = gc_mode ctx" "gc_len (fst (update_block ctx p)) = gc_len ctx"
    "gc_add_len (fst (update_block ctx p)) = gc_add_len ctx" "gc_base_ectr (fst (update_block ctx p)) = gc_base_ectr ctx"
  using assms started_ectr(2) [OF assms] by (simp_all add: update_block_def started_def Let_def)

lemma update_loop_ok:
  assumes "started ctx"
  obtains ctx' out where "update_loop ctx xs = (0, ctx', out)" "started ctx'" "length out = length xs" "gc_mode ctx' = gc_mode ctx"
    "gc_len ctx' = gc_len ctx"
proof -
  have "\<exists>ctx' out. update_loop ctx xs = (0, ctx', out) \<and> started ctx' \<and> length out = length xs \<and> gc_mode ctx' = gc_mode ctx \<and>
      gc_len ctx' = gc_len ctx" using assms
  proof (induction "length xs" arbitrary: ctx xs rule: less_induct)
    case less
    show ?case
    proof (cases "xs = []")
      case True
      then show ?thesis using less.prems by (simp add: update_loop_started)
    next
      case False
      note block = update_block_ok [OF less.prems, of "take 16 xs"]
      have "length (drop 16 xs) < length xs" using False by simp
      from less.hyps [OF this block(1)] False less.prems block(2-4) show ?thesis
        by (auto simp: update_loop_started)
    qed
  qed
  then show ?thesis using that by blast
qed

lemma update_loop_append:
  assumes "started ctx" "16 dvd length xs" "update_loop ctx xs = (0, c, os)"
  shows "update_loop ctx (xs @ ys) = (case update_loop c ys of (ret, c', os') \<Rightarrow> (ret, c', os @ os'))"
  using assms
proof (induction "length xs" arbitrary: ctx xs os rule: less_induct)
  case less
  show ?case
  proof (cases "xs = []")
    case True
    then show ?thesis using less.prems by (simp add: update_loop_started split: prod.splits)
  next
    case False
    then have len: "16 \<le> length xs" "16 dvd length (drop 16 xs)" "length (drop 16 xs) < length xs"
      using less.prems(2) by (auto simp: dvd_imp_le dvd_minus_self)
    note block = update_block_ok(1) [OF less.prems(1), of "take 16 xs"]
    obtain c1 os1 where run: "update_loop (fst (update_block ctx (take 16 xs))) (drop 16 xs) = (0, c1, os1)"
      by (rule update_loop_ok [OF block, of "drop 16 xs"])
    moreover have "c1 = c" "os = snd (update_block ctx (take 16 xs)) @ os1"
      using less.prems(1,3) False run by (simp_all add: update_loop_started)
    ultimately show ?thesis
      using less.hyps [OF len(3) block len(2)] False less.prems(1) len(1) by (simp add: update_loop_started split: prod.splits)
  qed
qed

text \<open>Decryption of an encrypted block gives the block back and leaves the same state.\<close>

lemma map2_xor_cancel: "length p \<le> length e \<Longrightarrow> map2 (XOR) e (map2 (XOR) e p) = (p :: bytes)"
  by (induction e p rule: list_induct2') (simp_all add: bit.xor_left_self)

lemma update_block_inverse:
  assumes "started ctx" "length p \<le> 16"
  shows "update_block (ctx\<lparr>gc_mode := 0\<rparr>) (snd (update_block (ctx\<lparr>gc_mode := 1\<rparr>) p)) =
    ((fst (update_block (ctx\<lparr>gc_mode := 1\<rparr>) p))\<lparr>gc_mode := 0\<rparr>, p)"
  using started_ectr(2) [OF assms(1)] assms(2) by (simp add: update_block_def Let_def map2_xor_cancel)

lemma started_mode [simp]: "started (ctx\<lparr>gc_mode := m\<rparr>) = started ctx"
  by (simp add: started_def)

lemma update_loop_inverse:
  assumes "started ctx" "update_loop (ctx\<lparr>gc_mode := 1\<rparr>) xs = (0, c, ys)"
  shows "update_loop (ctx\<lparr>gc_mode := 0\<rparr>) ys = (0, c\<lparr>gc_mode := 0\<rparr>, xs)"
  using assms
proof (induction "length xs" arbitrary: ctx xs ys rule: less_induct)
  case less
  show ?case
  proof (cases "xs = []")
    case True
    then show ?thesis using less.prems by (auto simp: update_loop_started)
  next
    case False
    let ?e = "update_block (ctx\<lparr>gc_mode := 1\<rparr>) (take 16 xs)"
    have s: "started (ctx\<lparr>gc_mode := 1\<rparr>)" using less.prems(1) by simp
    note block = update_block_ok [OF s, of "take 16 xs"]
    obtain c1 ys1 where run: "update_loop (fst ?e) (drop 16 xs) = (0, c1, ys1)" "length ys1 = length (drop 16 xs)"
      by (rule update_loop_ok [OF block(1), of "drop 16 xs"])
    have eqs: "c1 = c" "ys = snd ?e @ ys1" using less.prems(2) s False run(1) by (simp_all add: update_loop_started [OF s])
    have mode: "(fst ?e)\<lparr>gc_mode := 1\<rparr> = fst ?e" using block(3) by (simp add: mbedtls_gcm_context.surjective)
    have "length (drop 16 xs) < length xs" using False by simp
    from less.hyps [OF this, of "fst ?e", unfolded mode, OF block(1) run(1) [unfolded eqs(1)]]
    have rest: "update_loop ((fst ?e)\<lparr>gc_mode := 0\<rparr>) ys1 = (0, c\<lparr>gc_mode := 0\<rparr>, drop 16 xs)" .
    have "ys \<noteq> []" "take 16 ys = snd ?e" "drop 16 ys = ys1"
      using eqs(2) block(2) run(2) False by (auto simp: min_def split: if_splits)
    then show ?thesis
      using rest less.prems(1) update_block_inverse [OF less.prems(1), of "take 16 xs"]
      by (simp add: update_loop_started [of "ctx\<lparr>gc_mode := 0\<rparr>"])
  qed
qed

lemma started_len [simp]: "started (ctx\<lparr>gc_len := l\<rparr>) = started ctx"
  by (simp add: started_def)

lemma update_block_len:
  "update_block (ctx\<lparr>gc_len := l\<rparr>) p = ((fst (update_block ctx p))\<lparr>gc_len := l\<rparr>, snd (update_block ctx p))"
  by (simp add: update_block_def Let_def)

lemma update_loop_len:
  "started ctx \<Longrightarrow> update_loop (ctx\<lparr>gc_len := l\<rparr>) xs = (case update_loop ctx xs of (ret, c, os) \<Rightarrow> (ret, c\<lparr>gc_len := l\<rparr>, os))"
proof (induction "length xs" arbitrary: ctx xs rule: less_induct)
  case less
  show ?case
  proof (cases "xs = []")
    case True
    then show ?thesis using less.prems by (simp add: update_loop_started)
  next
    case False
    then have "length (drop 16 xs) < length xs" by simp
    from less.hyps [OF this update_block_ok(1) [OF less.prems, of "take 16 xs"]] False less.prems show ?thesis
      by (simp add: update_loop_started [OF less.prems] update_loop_started [of "ctx\<lparr>gc_len := l\<rparr>"] update_block_len split_beta)
  qed
qed

text \<open>Updates within the limit succeed, and those of whole blocks can be joined with the next one.\<close>

lemma update_ok:
  assumes "started ctx" and "unat (gc_len ctx) + length xs \<le> GCM_LIMIT"
  obtains ctx' out l where "update_loop ctx xs = (0, ctx', out)" "mbedtls_gcm_update ctx xs = (0, ctx'\<lparr>gc_len := l\<rparr>, out)"
    "started ctx'" "length out = length xs" "gc_mode ctx' = gc_mode ctx" "unat l = unat (gc_len ctx) + length xs"
proof -
  let ?l = "gc_len ctx + of_nat (length xs)"
  have n: "unat (of_nat (length xs) :: u64) = length xs" using assms(2) by (simp add: unsigned_of_nat take_bit_nat_eq_self)
  have len: "unat ?l = unat (gc_len ctx) + length xs"
    using assms(2) n by (subst unat_add_lem [THEN iffD1]) simp_all
  then have ok: "\<not> ?l < gc_len ctx" "\<not> ?l > 0xFFFFFFFE0"
    using assms(2) by (simp_all add: word_less_nat_alt)
  obtain ctx' out where run: "update_loop ctx xs = (0, ctx', out)" "started ctx'" "length out = length xs" "gc_mode ctx' = gc_mode ctx"
    by (rule update_loop_ok [OF assms(1)])
  have "mbedtls_gcm_update ctx xs = (0, ctx'\<lparr>gc_len := ?l\<rparr>, out)"
    using run(1) ok by (simp add: mbedtls_gcm_update_def update_loop_len [OF assms(1)])
  with run len that show ?thesis by blast
qed

lemma update_nil: "unat (gc_len ctx) \<le> GCM_LIMIT \<Longrightarrow> mbedtls_gcm_update ctx [] = (0, ctx, [])"
  by (simp add: mbedtls_gcm_update_def update_loop.simps word_less_nat_alt)

lemma update_append:
  assumes "started ctx" and "unat (gc_len ctx) + length (xs @ ys) \<le> GCM_LIMIT" and "16 dvd length xs"
    and former: "mbedtls_gcm_update ctx xs = (0, c, os)" and latter: "mbedtls_gcm_update c ys = (0, c', os')"
  shows "mbedtls_gcm_update ctx (xs @ ys) = (0, c', os @ os')"
proof -
  have xs: "unat (gc_len ctx) + length xs \<le> GCM_LIMIT" using assms(2) by simp
  obtain d o1 l where 1: "update_loop ctx xs = (0, d, o1)" "started d"
      "mbedtls_gcm_update ctx xs = (0, d\<lparr>gc_len := l\<rparr>, o1)" "unat l = unat (gc_len ctx) + length xs"
    by (rule update_ok [OF assms(1) xs]) blast
  have d: "started (d\<lparr>gc_len := l\<rparr>)" "unat (gc_len (d\<lparr>gc_len := l\<rparr>)) + length ys \<le> GCM_LIMIT" using 1(2,4) assms(2) by simp_all
  obtain e o2 l' where 2: "update_loop (d\<lparr>gc_len := l\<rparr>) ys = (0, e, o2)"
      "mbedtls_gcm_update (d\<lparr>gc_len := l\<rparr>) ys = (0, e\<lparr>gc_len := l'\<rparr>, o2)" "unat l' = unat l + length ys"
    by (rule update_ok [OF d]) simp
  obtain d' where d': "update_loop d ys = (0, d', o2)" "e = d'\<lparr>gc_len := l\<rparr>"
    using 2(1) by (auto simp: update_loop_len [OF 1(2)] split: prod.splits)
  have both: "update_loop ctx (xs @ ys) = (0, d', o1 @ o2)" using update_loop_append [OF assms(1,3) 1(1), of ys] d'(1) by simp
  obtain l'' where
      run: "mbedtls_gcm_update ctx (xs @ ys) = (0, d'\<lparr>gc_len := l''\<rparr>, o1 @ o2)" "unat l'' = unat (gc_len ctx) + length (xs @ ys)"
    by (rule update_ok [OF assms(1,2)]) (simp add: both)
  have "l'' = l'" using run(2) 2(3) 1(4) by (simp add: word_unat_eq_iff)
  then show ?thesis using run(1) former latter 1(3) 2(2) d'(2) by simp
qed

subsection \<open>Tags\<close>

lemma finish_ok:
  assumes "started ctx" and "4 \<le> n" "n \<le> 16"
  obtains c tag where "mbedtls_gcm_finish ctx n = (0, c, tag)" "length tag = n"
proof -
  obtain ret c tag where fin: "mbedtls_gcm_finish ctx n = (ret, c, tag)" by (metis prod_cases3)
  moreover have "ret = 0 \<and> length tag = n"
    using fin assms by (auto simp: mbedtls_gcm_finish_def started_def Let_def split: if_splits)
  ultimately show ?thesis using that by simp
qed

lemma finish_mode: "mbedtls_gcm_finish ctx n = (ret, c, tag) \<Longrightarrow> mbedtls_gcm_finish (ctx\<lparr>gc_mode := m\<rparr>) n = (ret, c\<lparr>gc_mode := m\<rparr>, tag)"
  by (auto simp: mbedtls_gcm_finish_def Let_def split: if_splits)

text \<open>
  With a start in both modes at hand, encryption and decryption within the limit are inverse and
  compute the same tag.
\<close>

lemma update_finish_inverse:
  assumes "started ctx" and "gc_len ctx = 0" and "length xs \<le> GCM_LIMIT" and "4 \<le> n" "n \<le> 16"
  obtains c ys c1 tag where "mbedtls_gcm_update (ctx\<lparr>gc_mode := 1\<rparr>) xs = (0, c, ys)" "length ys = length xs"
    "mbedtls_gcm_finish c n = (0, c1, tag)" "length tag = n"
    "mbedtls_gcm_update (ctx\<lparr>gc_mode := 0\<rparr>) ys = (0, c\<lparr>gc_mode := 0\<rparr>, xs)"
    "mbedtls_gcm_finish (c\<lparr>gc_mode := 0\<rparr>) n = (0, c1\<lparr>gc_mode := 0\<rparr>, tag)"
proof -
  have e: "started (ctx\<lparr>gc_mode := 1\<rparr>)" "unat (gc_len (ctx\<lparr>gc_mode := 1\<rparr>)) + length xs \<le> GCM_LIMIT" using assms(1-3) by simp_all
  obtain d ys l where enc: "update_loop (ctx\<lparr>gc_mode := 1\<rparr>) xs = (0, d, ys)"
      "mbedtls_gcm_update (ctx\<lparr>gc_mode := 1\<rparr>) xs = (0, d\<lparr>gc_len := l\<rparr>, ys)" "started d" "length ys = length xs" "unat l = length xs"
    by (rule update_ok [OF e]) (simp add: assms(2))
  have f: "started (ctx\<lparr>gc_mode := 0\<rparr>)" "unat (gc_len (ctx\<lparr>gc_mode := 0\<rparr>)) + length ys \<le> GCM_LIMIT" using assms(1-3) enc(4) by simp_all
  have loop: "update_loop (ctx\<lparr>gc_mode := 0\<rparr>) ys = (0, d\<lparr>gc_mode := 0\<rparr>, xs)" by (rule update_loop_inverse [OF assms(1) enc(1)])
  obtain l' where dec: "mbedtls_gcm_update (ctx\<lparr>gc_mode := 0\<rparr>) ys = (0, d\<lparr>gc_mode := 0\<rparr>\<lparr>gc_len := l'\<rparr>, xs)" "unat l' = length ys"
    by (rule update_ok [OF f]) (simp add: assms(2) loop)
  have "l' = l" using dec(2) enc(4,5) by (simp add: word_unat_eq_iff)
  moreover obtain c1 tag where fin: "mbedtls_gcm_finish (d\<lparr>gc_len := l\<rparr>) n = (0, c1, tag)" "length tag = n"
    using finish_ok [of "d\<lparr>gc_len := l\<rparr>" n] enc(3) assms(4,5) by auto
  ultimately show ?thesis using that [OF enc(2,4) fin] dec(1) finish_mode [OF fin(1), of 0] by simp
qed

lemma crypt_and_tag_inverse:
  assumes "keyed ctx" and "0 < length iv" "length iv < 2 ^ 61" "length ad < 2 ^ 61" and "length xs \<le> GCM_LIMIT" and "4 \<le> n" "n \<le> 16"
  obtains c c' ys tag where "mbedtls_gcm_crypt_and_tag ctx MBEDTLS_GCM_ENCRYPT iv ad xs n = (0, c, ys, tag)" "length ys = length xs" "length tag = n"
    "mbedtls_gcm_crypt_and_tag ctx MBEDTLS_GCM_DECRYPT iv ad ys n = (0, c', xs, tag)"
proof -
  obtain d where start: "\<And>mode. mbedtls_gcm_starts ctx mode iv ad = (0, d\<lparr>gc_mode := mode\<rparr>)" "started d" "gc_len d = 0"
    by (rule starts_ok [OF assms(1-4)]) blast
  obtain c ys c1 tag where run: "mbedtls_gcm_update (d\<lparr>gc_mode := 1\<rparr>) xs = (0, c, ys)" "length ys = length xs"
      "mbedtls_gcm_finish c n = (0, c1, tag)" "length tag = n"
      "mbedtls_gcm_update (d\<lparr>gc_mode := 0\<rparr>) ys = (0, c\<lparr>gc_mode := 0\<rparr>, xs)"
      "mbedtls_gcm_finish (c\<lparr>gc_mode := 0\<rparr>) n = (0, c1\<lparr>gc_mode := 0\<rparr>, tag)"
    by (rule update_finish_inverse [OF start(2,3) assms(5-7)])
  show ?thesis
    by (rule that [of c1 ys tag "c1\<lparr>gc_mode := 0\<rparr>"]) (simp_all add: mbedtls_gcm_crypt_and_tag_def start(1) run)
qed

text \<open>
  The output is the input with a key stream that depends only on the cipher and the counter: under one
  key and one initialisation vector, two outputs differ exactly where the inputs do.
\<close>

lemma map2_xor_stream: "length p = length q \<Longrightarrow> length q \<le> length e \<Longrightarrow>
    map2 (XOR) (map2 (XOR) e p) (map2 (XOR) e q) = map2 (XOR) p (q :: bytes)"
proof (induction p q arbitrary: e rule: list_induct2)
  case Nil
  then show ?case by simp
next
  case (Cons x xs y ys)
  then obtain k e' where "e = k # e'" by (cases e) auto
  moreover have "(k XOR x) XOR (k XOR y) = x XOR y" by (simp add: xor.assoc xor.left_commute)
  ultimately show ?case using Cons by simp
qed

lemma update_loop_stream:
  assumes "started c" "started d" "gc_y c = gc_y d" "gc_cipher_ctx c = gc_cipher_ctx d" "length xs = length zs"
    and "update_loop c xs = (0, c', os)" "update_loop d zs = (0, d', os')"
  shows "map2 (XOR) os os' = map2 (XOR) xs zs"
  using assms
proof (induction "length xs" arbitrary: c d xs zs os os' rule: less_induct)
  case less
  show ?case
  proof (cases "xs = []")
    case True
    then show ?thesis using less.prems by (auto simp: update_loop_started)
  next
    case False
    then have zs: "zs \<noteq> []" using less.prems(5) by auto
    let ?b = "update_block c (take 16 xs)" and ?e = "update_block d (take 16 zs)"
    obtain c1 o1 where 1: "update_loop (fst ?b) (drop 16 xs) = (0, c1, o1)" "length o1 = length (drop 16 xs)"
      by (rule update_loop_ok [OF update_block_ok(1) [OF less.prems(1)]])
    obtain d1 o2 where 2: "update_loop (fst ?e) (drop 16 zs) = (0, d1, o2)" "length o2 = length (drop 16 zs)"
      by (rule update_loop_ok [OF update_block_ok(1) [OF less.prems(2)]])
    have outs: "os = snd ?b @ o1" "os' = snd ?e @ o2" "c1 = c'" "d1 = d'"
      using less.prems(1,2,6,7) False zs 1 2 by (simp_all add: update_loop_started)
    have "length (drop 16 xs) < length xs" "length (drop 16 xs) = length (drop 16 zs)" using zs less.prems(5) by simp_all
    moreover have "gc_y (fst ?b) = gc_y (fst ?e)" "gc_cipher_ctx (fst ?b) = gc_cipher_ctx (fst ?e)"
      using less.prems(3,4) by (simp_all add: update_block_def Let_def)
    ultimately have rest: "map2 (XOR) o1 o2 = map2 (XOR) (drop 16 xs) (drop 16 zs)"
      using less.hyps [OF _ update_block_ok(1) [OF less.prems(1)] update_block_ok(1) [OF less.prems(2)] _ _ _
          1(1) [unfolded outs(3)] 2(1) [unfolded outs(4)]] by blast
    have block: "map2 (XOR) (snd ?b) (snd ?e) = map2 (XOR) (take 16 xs) (take 16 zs)"
      using map2_xor_stream [of "take 16 xs" "take 16 zs" "snd (gc_cipher_ctx d (incr_loop (gc_y d) 16))"]
        started_ectr(2) [OF less.prems(2)] less.prems(3-5) by (simp add: update_block_def Let_def)
    have lens: "length (snd ?b) = length (snd ?e)" using update_block_ok(2) [OF less.prems(1)] update_block_ok(2) [OF less.prems(2)] less.prems(5) by simp
    have "map2 (XOR) os os' = map2 (XOR) (take 16 xs @ drop 16 xs) (take 16 zs @ drop 16 zs)"
      using outs(1,2) rest block lens less.prems(5) by (simp del: append_take_drop_id)
    then show ?thesis by simp
  qed
qed

subsection \<open>A cipher with the documented behaviour\<close>

text \<open>The key is added to the block: small enough to compute with, and none of the security goals.\<close>

definition demo_cipher :: block_cipher where
  "demo_cipher = \<lparr>bc_setkey = (\<lambda>_. 0), bc_update = (\<lambda>k b. (0, xor_into b k)), bc_clmul = None\<rparr>"

lemma demo_cipher_documented: "block_cipher_documented demo_cipher"
  by (simp add: block_cipher_documented_def demo_cipher_def)

end
