(* ===== verification/Files.thy ===== *)
theory Files
  imports Gcm
begin

section \<open>Encryption of data and of files (src/crypto.c)\<close>

text \<open>
  The encryptions of the library that are not part of a session: buffers under a given key, and files
  under a password.  Both are in Galois/counter mode with a constant initialisation vector.
\<close>

subsection \<open>Buffers\<close>

abbreviation (input) AES256_DATA_IV_LENGTH :: nat where "AES256_DATA_IV_LENGTH \<equiv> 12"
abbreviation (input) FILE_ENCRYPTION_BUFFER_LENGTH :: nat where "FILE_ENCRYPTION_BUFFER_LENGTH \<equiv> 8192"

text \<open>The bytes of a string literal in an array of 64 bytes.\<close>

definition literal64 :: "string \<Rightarrow> bytes" where
  "literal64 str = take 64 (map of_char str @ replicate 64 0)"

definition AES256_DATA_AD :: bytes where
  "AES256_DATA_AD = literal64 ''E2EES ---> data encryption with AES256/GCM/Nopadding algorithm''"

definition AES256_FILE_AD :: bytes where
  "AES256_FILE_AD = literal64 ''E2EES ---> file encryption with AES256/GCM/Nopadding algorithm''"

definition crypto_encrypt_aes_data_with_iv :: "block_cipher \<Rightarrow> bytes \<Rightarrow> bytes \<Rightarrow> bytes \<Rightarrow> nat \<times> bytes ptr" where
  "crypto_encrypt_aes_data_with_iv bc plaintext_data aes_key iv =
     (let ciphertext_data_len = crypto_aes256_gcm_ciphertext_data_len (length plaintext_data);
          (ret, ctx) = mbedtls_gcm_setkey bc mbedtls_gcm_init aes_key;
          (ret, ctx, output, tag) = (if ret = 0
             then mbedtls_gcm_crypt_and_tag ctx MBEDTLS_GCM_ENCRYPT iv AES256_DATA_AD plaintext_data AES256_GCM_TAG_LENGTH
             else (ret, ctx, [], []))
      in if ret = 0 then (ciphertext_data_len, Some (output @ tag)) else (0, None))"

definition crypto_encrypt_aes_data :: "block_cipher \<Rightarrow> bytes \<Rightarrow> bytes \<Rightarrow> nat \<times> bytes ptr" where
  "crypto_encrypt_aes_data bc plaintext_data aes_key =
     crypto_encrypt_aes_data_with_iv bc plaintext_data aes_key (replicate AES256_DATA_IV_LENGTH 0)"

text \<open>As in \<open>crypto_aes_decrypt_gcm\<close>, the tag of a ciphertext shorter than a tag is read from before the buffer.\<close>

definition crypto_decrypt_aes_data_with_iv :: "block_cipher \<Rightarrow> bytes \<Rightarrow> bytes \<Rightarrow> bytes \<Rightarrow> (nat \<times> bytes ptr) option" where
  "crypto_decrypt_aes_data_with_iv bc ciphertext_data aes_key iv =
     (if length ciphertext_data < AES256_GCM_TAG_LENGTH then None
      else
        let n = crypto_aes256_gcm_plaintext_data_len (length ciphertext_data);
            input_tag_buf = drop n ciphertext_data;
            (ret, ctx) = mbedtls_gcm_setkey bc mbedtls_gcm_init aes_key;
            (ret, ctx, output, tag_buf) = (if ret = E2EES_RESULT_SUCC
               then mbedtls_gcm_crypt_and_tag ctx MBEDTLS_GCM_DECRYPT iv AES256_DATA_AD (take n ciphertext_data) AES256_GCM_TAG_LENGTH
               else (ret, ctx, [], []))
        in Some (if ret = 0 \<and> tag_diff input_tag_buf tag_buf 0 = 0 then (n, Some output) else (0, None)))"

definition crypto_decrypt_aes_data :: "block_cipher \<Rightarrow> bytes \<Rightarrow> bytes \<Rightarrow> (nat \<times> bytes ptr) option" where
  "crypto_decrypt_aes_data bc ciphertext_data aes_key =
     crypto_decrypt_aes_data_with_iv bc ciphertext_data aes_key (replicate AES256_DATA_IV_LENGTH 0)"

subsection \<open>The file system\<close>

text \<open>
  A file system maps paths to contents; two paths are two files.  What the operating system decides is
  a parameter: which files can be opened, sized and removed, and which transfers, by their offset, are
  complete.  Opening a file for writing empties it.
\<close>

type_synonym file_system = "string \<rightharpoonup> bytes"

record file_env =
  fe_can_read :: "string \<Rightarrow> bool"
  fe_can_write :: "string \<Rightarrow> bool"
  fe_can_size :: "string \<Rightarrow> bool"
  fe_can_remove :: "string \<Rightarrow> bool"
  fe_read_ok :: "nat \<Rightarrow> bool"
  fe_write_ok :: "nat \<Rightarrow> bool"

definition content :: "file_system \<Rightarrow> string \<Rightarrow> bytes" where
  "content fs path = (case fs path of None \<Rightarrow> [] | Some c \<Rightarrow> c)"

definition remove_file :: "file_env \<Rightarrow> file_system \<Rightarrow> string \<Rightarrow> file_system" where
  "remove_file E fs path = (if fe_can_remove E path then fs(path := None) else fs)"

text \<open>The two streams, opened one after the other; the second is not opened when the first fails.\<close>

definition open_files :: "file_env \<Rightarrow> file_system \<Rightarrow> string \<Rightarrow> string \<Rightarrow> file_system option" where
  "open_files E fs infile outfile =
     (if fs infile = None \<or> \<not> fe_can_read E infile then None
      else if \<not> fe_can_write E outfile then None
      else Some (fs(outfile \<mapsto> [])))"

text \<open>\<open>ftell\<close> at the end of a file, negative when the size is not known.\<close>

definition file_size :: "file_env \<Rightarrow> file_system \<Rightarrow> string \<Rightarrow> int" where
  "file_size E fs path = (if fe_can_size E path then int (length (content fs path)) else - 1)"

text \<open>\<open>fread\<close> returns the bytes it read, \<open>fwrite\<close> whether all bytes were written.\<close>

definition fread :: "file_env \<Rightarrow> file_system \<Rightarrow> string \<Rightarrow> nat \<Rightarrow> nat \<Rightarrow> bytes" where
  "fread E fs path pos n = (if fe_read_ok E pos then take n (drop pos (content fs path)) else [])"

definition fwrite :: "file_env \<Rightarrow> file_system \<Rightarrow> string \<Rightarrow> bytes \<Rightarrow> bool \<times> file_system" where
  "fwrite E fs path data =
     (if fe_write_ok E (length (content fs path)) then (True, fs(path \<mapsto> content fs path @ data)) else (False, fs))"

subsection \<open>Files\<close>

text \<open>Read \<open>n\<close> bytes, transform and write them: the body of the loops, and the step for the rest.\<close>

definition crypt_block ::
    "file_env \<Rightarrow> string \<Rightarrow> string \<Rightarrow> nat \<Rightarrow> nat \<Rightarrow> mbedtls_gcm_context \<Rightarrow> file_system \<Rightarrow> int \<times> mbedtls_gcm_context \<times> file_system" where
  "crypt_block E infile outfile pos n ctx fs =
     (let in_buffer = fread E fs infile pos n in
      if length in_buffer \<noteq> n then (- 1, ctx, fs)
      else
        let (ret, ctx, out_buffer) = mbedtls_gcm_update ctx in_buffer in
        if ret \<noteq> 0 then (ret, ctx, fs)
        else let (written, fs) = fwrite E fs outfile out_buffer in (if written then 0 else - 1, ctx, fs))"

fun crypt_blocks_loop ::
    "file_env \<Rightarrow> string \<Rightarrow> string \<Rightarrow> nat \<Rightarrow> nat \<Rightarrow> mbedtls_gcm_context \<Rightarrow> file_system \<Rightarrow> int \<times> mbedtls_gcm_context \<times> file_system" where
  "crypt_blocks_loop E infile outfile pos 0 ctx fs = (0, ctx, fs)"
| "crypt_blocks_loop E infile outfile pos (Suc n_times) ctx fs =
     (let (ret, ctx, fs) = crypt_block E infile outfile pos FILE_ENCRYPTION_BUFFER_LENGTH ctx fs in
      if ret \<noteq> 0 then (ret, ctx, fs)
      else crypt_blocks_loop E infile outfile (pos + FILE_ENCRYPTION_BUFFER_LENGTH) n_times ctx fs)"

text \<open>
  The common part of encryption and decryption, up to the tag, on \<open>n\<close> bytes of the file; the number
  of blocks is an \<open>int\<close>.
\<close>

definition crypt_stream ::
    "block_cipher \<Rightarrow> file_env \<Rightarrow> int \<Rightarrow> bytes \<Rightarrow> string \<Rightarrow> string \<Rightarrow> nat \<Rightarrow> file_system \<Rightarrow> int \<times> mbedtls_gcm_context \<times> file_system" where
  "crypt_stream bc E mode aes_key infile outfile n fs =
     (let n_times = nat (sint (word_of_nat (n div FILE_ENCRYPTION_BUFFER_LENGTH) :: u32));
          rest = n mod FILE_ENCRYPTION_BUFFER_LENGTH;
          (ret, ctx) = mbedtls_gcm_setkey bc mbedtls_gcm_init aes_key;
          (ret, ctx) = (if ret = 0 then mbedtls_gcm_starts ctx mode (replicate AES256_DATA_IV_LENGTH 0) AES256_FILE_AD else (ret, ctx));
          (ret, ctx, fs) = (if ret = 0 then crypt_blocks_loop E infile outfile 0 n_times ctx fs else (ret, ctx, fs))
      in if ret = 0 \<and> rest > 0 then crypt_block E infile outfile (n_times * FILE_ENCRYPTION_BUFFER_LENGTH) rest ctx fs else (ret, ctx, fs))"

definition crypto_encrypt_aes_file ::
    "block_cipher \<Rightarrow> file_env \<Rightarrow> file_system \<Rightarrow> cstr \<Rightarrow> cstr \<Rightarrow> bytes \<Rightarrow> (int \<times> file_system) option" where
  "crypto_encrypt_aes_file bc E fs in_file_path out_file_path aes_key =
     do { infile \<leftarrow> deref in_file_path; outfile \<leftarrow> deref out_file_path;
          (case open_files E fs infile outfile of
             None \<Rightarrow> Some (E2EES_RESULT_FAIL, fs)
           | Some fs \<Rightarrow>
               let file_len = file_size E fs infile in
               if file_len < 0 then Some (E2EES_RESULT_FAIL, remove_file E fs outfile)
               else
                 let (ret, ctx, fs) = crypt_stream bc E MBEDTLS_GCM_ENCRYPT aes_key infile outfile (nat file_len) fs;
                     (ret, fs) =
                       (if ret \<noteq> 0 then (ret, fs)
                        else
                          let (ret, ctx, tag) = mbedtls_gcm_finish ctx AES256_GCM_TAG_LENGTH in
                          if ret \<noteq> 0 then (ret, fs)
                          else let (written, fs) = fwrite E fs outfile tag in (if written then 0 else - 1, fs))
                 in Some (if ret = 0 then (E2EES_RESULT_SUCC, fs) else (E2EES_RESULT_FAIL, remove_file E fs outfile))) }"

definition crypto_decrypt_aes_file ::
    "block_cipher \<Rightarrow> file_env \<Rightarrow> file_system \<Rightarrow> cstr \<Rightarrow> cstr \<Rightarrow> bytes \<Rightarrow> (int \<times> file_system) option" where
  "crypto_decrypt_aes_file bc E fs in_file_path out_file_path aes_key =
     do { infile \<leftarrow> deref in_file_path; outfile \<leftarrow> deref out_file_path;
          (case open_files E fs infile outfile of
             None \<Rightarrow> Some (E2EES_RESULT_FAIL, fs)
           | Some fs \<Rightarrow>
               let file_len = file_size E fs infile in
               if file_len < int AES256_GCM_TAG_LENGTH then Some (E2EES_RESULT_FAIL, remove_file E fs outfile)
               else
                 let n = nat file_len - AES256_GCM_TAG_LENGTH;
                     (ret, ctx, fs) = crypt_stream bc E MBEDTLS_GCM_DECRYPT aes_key infile outfile n fs;
                     ret =
                       (if ret \<noteq> 0 then ret
                        else
                          let (ret, ctx, tag) = mbedtls_gcm_finish ctx AES256_GCM_TAG_LENGTH in
                          if ret \<noteq> 0 then ret
                          else
                            let input_tag = fread E fs infile n AES256_GCM_TAG_LENGTH in
                            if length input_tag \<noteq> AES256_GCM_TAG_LENGTH then - 1
                            else if tag_diff input_tag tag 0 = 0 then 0 else - 1)
                 in Some (if ret = 0 then (E2EES_RESULT_SUCC, fs) else (E2EES_RESULT_FAIL, remove_file E fs outfile))) }"

text \<open>The key of a file is derived from its password without a salt; the result of the derivation is not checked.\<close>

definition AES256_FILE_KDF_INFO :: bytes where
  "AES256_FILE_KDF_INFO = map of_char ''FILE''"

definition file_key :: "prims \<Rightarrow> bytes ptr \<Rightarrow> nat \<Rightarrow> bytes option" where
  "file_key P password password_len =
     do { input \<leftarrow> read_bytes password password_len;
          (_, aes_key) \<leftarrow> crypto_hf_hkdf_sha256 P input [] AES256_FILE_KDF_INFO AES256_KEY_LENGTH;
          fill AES256_KEY_LENGTH aes_key }"

definition crypto_encrypt_file ::
    "block_cipher \<Rightarrow> prims \<Rightarrow> file_env \<Rightarrow> file_system \<Rightarrow> cstr \<Rightarrow> cstr \<Rightarrow> bytes ptr \<Rightarrow> nat \<Rightarrow> (int \<times> file_system) option" where
  "crypto_encrypt_file bc P E fs in_file_path out_file_path password password_len =
     do { aes_key \<leftarrow> file_key P password password_len;
          crypto_encrypt_aes_file bc E fs in_file_path out_file_path aes_key }"

definition crypto_decrypt_file ::
    "block_cipher \<Rightarrow> prims \<Rightarrow> file_env \<Rightarrow> file_system \<Rightarrow> cstr \<Rightarrow> cstr \<Rightarrow> bytes ptr \<Rightarrow> nat \<Rightarrow> (int \<times> file_system) option" where
  "crypto_decrypt_file bc P E fs in_file_path out_file_path password password_len =
     do { aes_key \<leftarrow> file_key P password password_len;
          crypto_decrypt_aes_file bc E fs in_file_path out_file_path aes_key }"

end
