(* ===== verification/Files_Props.thy ===== *)
theory Files_Props
  imports Files Base_Props
begin

section \<open>Properties of the encryption of data and files\<close>

text \<open>
  The loops over a file compute what one call on its contents computes; encryption and decryption are
  inverse; and no output is left of a file that does not authenticate.
\<close>

subsection \<open>Streams\<close>

definition files_work :: "file_env \<Rightarrow> bool" where
  "files_work E \<longleftrightarrow> (\<forall>p. fe_can_read E p \<and> fe_can_write E p \<and> fe_can_size E p \<and> fe_can_remove E p) \<and> (\<forall>n. fe_read_ok E n \<and> fe_write_ok E n)"

text \<open>One call on the whole contents under the key and the constants of a file.\<close>

definition file_context :: "block_cipher \<Rightarrow> bytes \<Rightarrow> mbedtls_gcm_context" where
  "file_context bc key = snd (mbedtls_gcm_setkey bc mbedtls_gcm_init key)"

definition crypt_whole :: "block_cipher \<Rightarrow> int \<Rightarrow> bytes \<Rightarrow> bytes \<Rightarrow> bytes \<times> bytes" where
  "crypt_whole bc mode key xs = snd (snd (mbedtls_gcm_crypt_and_tag (file_context bc key) mode (replicate 12 0) AES256_FILE_AD xs 16))"

lemma length_AD [simp]: "length AES256_FILE_AD = 64" "length AES256_DATA_AD = 64"
  by (simp_all add: AES256_FILE_AD_def AES256_DATA_AD_def literal64_def)

lemma crypt_block_run:
  assumes "files_work E" and "infile \<noteq> outfile" "fs infile = Some c" "fs outfile = Some p" and "pos + n \<le> length c"
    and "started ctx" "unat (gc_len ctx) + n \<le> GCM_LIMIT"
  obtains ctx' ys where "mbedtls_gcm_update ctx (take n (drop pos c)) = (0, ctx', ys)"
    "crypt_block E infile outfile pos n ctx fs = (0, ctx', fs(outfile \<mapsto> p @ ys))" "started ctx'" "unat (gc_len ctx') = unat (gc_len ctx) + n"
proof -
  have len: "length (take n (drop pos c)) = n" using assms(5) by simp
  have bound: "unat (gc_len ctx) + length (take n (drop pos c)) \<le> GCM_LIMIT" using assms(7) len by simp
  obtain d out l where run: "mbedtls_gcm_update ctx (take n (drop pos c)) = (0, d\<lparr>gc_len := l\<rparr>, out)" "started d"
      "unat l = unat (gc_len ctx) + length (take n (drop pos c))"
    by (rule update_ok [OF assms(6) bound])
  have "crypt_block E infile outfile pos n ctx fs = (0, d\<lparr>gc_len := l\<rparr>, fs(outfile \<mapsto> p @ out))"
    using assms(1-4) len run(1) by (simp add: crypt_block_def fread_def fwrite_def content_def files_work_def)
  then show ?thesis using that run(1,2) run(3) [unfolded len] by simp
qed

lemma crypt_blocks_run:
  assumes "files_work E" and "infile \<noteq> outfile" "fs infile = Some c" "fs outfile = Some p" and "pos + k * 8192 \<le> length c"
    and "started ctx" "unat (gc_len ctx) + k * 8192 \<le> GCM_LIMIT"
  shows "\<exists>ctx' ys. mbedtls_gcm_update ctx (take (k * 8192) (drop pos c)) = (0, ctx', ys) \<and>
    crypt_blocks_loop E infile outfile pos k ctx fs = (0, ctx', fs(outfile \<mapsto> p @ ys)) \<and> started ctx' \<and>
    unat (gc_len ctx') = unat (gc_len ctx) + k * 8192"
  using assms(3-)
proof (induction k arbitrary: pos ctx fs p)
  case 0
  then show ?case by (auto simp: update_nil fun_upd_idem)
next
  case (Suc k)
  have bounds: "pos + 8192 \<le> length c" "unat (gc_len ctx) + 8192 \<le> GCM_LIMIT" using Suc.prems by simp_all
  obtain d ys where block: "mbedtls_gcm_update ctx (take 8192 (drop pos c)) = (0, d, ys)"
      "crypt_block E infile outfile pos 8192 ctx fs = (0, d, fs(outfile \<mapsto> p @ ys))" "started d" "unat (gc_len d) = unat (gc_len ctx) + 8192"
    by (rule crypt_block_run [OF assms(1,2) Suc.prems(1,2) bounds(1) Suc.prems(4) bounds(2)])
  have "(fs(outfile \<mapsto> p @ ys)) infile = Some c" "(fs(outfile \<mapsto> p @ ys)) outfile = Some (p @ ys)"
    using assms(2) Suc.prems(1) by simp_all
  moreover have "(pos + 8192) + k * 8192 \<le> length c" "unat (gc_len d) + k * 8192 \<le> GCM_LIMIT" using Suc.prems block(4) by simp_all
  ultimately obtain d' ys' where rest: "mbedtls_gcm_update d (take (k * 8192) (drop (pos + 8192) c)) = (0, d', ys')"
      "crypt_blocks_loop E infile outfile (pos + 8192) k d (fs(outfile \<mapsto> p @ ys)) = (0, d', (fs(outfile \<mapsto> p @ ys))(outfile \<mapsto> (p @ ys) @ ys'))"
      "started d'" "unat (gc_len d') = unat (gc_len d) + k * 8192"
    using Suc.IH [OF _ _ _ block(3)] by blast
  let ?xs = "take 8192 (drop pos c)" and ?zs = "take (k * 8192) (drop (pos + 8192) c)"
  have split: "take (Suc k * 8192) (drop pos c) = ?xs @ ?zs"
    using take_add [of 8192 "k * 8192" "drop pos c"] by (simp add: add.commute)
  have len: "length ?xs = 8192" "length ?zs = k * 8192" using Suc.prems(3) by simp_all
  have "mbedtls_gcm_update ctx (?xs @ ?zs) = (0, d', ys @ ys')"
    by (rule update_append [OF Suc.prems(4) _ _ block(1) rest(1)]) (use Suc.prems(5) len in simp_all)
  then show ?case using split block rest by (intro exI [of _ d'] exI [of _ "ys @ ys'"]) (simp, simp add: fun_upd_def)
qed

text \<open>The whole file, from the key to the last block.\<close>

lemma crypt_stream_run:
  assumes bc: "block_cipher_documented bc" and key: "length key = 32" and E: "files_work E"
    and fs: "infile \<noteq> outfile" "fs infile = Some c" "fs outfile = Some []" and n: "n \<le> length c" "n \<le> GCM_LIMIT"
  obtains ctx d ys where "mbedtls_gcm_starts (file_context bc key) mode (replicate 12 0) AES256_FILE_AD = (0, ctx)"
    "mbedtls_gcm_update ctx (take n c) = (0, d, ys)" "crypt_stream bc E mode key infile outfile n fs = (0, d, fs(outfile \<mapsto> ys))"
    "started d"
proof -
  obtain k where k: "mbedtls_gcm_setkey bc mbedtls_gcm_init key = (0, k)" "keyed k" by (rule setkey_keyed [OF bc key])
  have iv: "0 < length (replicate 12 (0 :: byte))" "length (replicate 12 (0 :: byte)) < 2 ^ 61" "length AES256_FILE_AD < 2 ^ 61" by simp_all
  obtain s where s: "\<And>mode. mbedtls_gcm_starts k mode (replicate 12 0) AES256_FILE_AD = (0, s\<lparr>gc_mode := mode\<rparr>)" "started s" "gc_len s = 0"
    by (rule starts_ok [OF k(2) iv]) blast
  let ?s = "s\<lparr>gc_mode := mode\<rparr>" and ?q = "n div 8192" and ?r = "n mod 8192"
  have q: "nat (sint (word_of_nat ?q :: u32)) = ?q"
    using n(2) by (simp add: signed_of_nat signed_take_bit_int_eq_self)
  have n': "?q * 8192 + ?r = n" by simp
  have "0 + ?q * 8192 \<le> length c" "started ?s" "unat (gc_len ?s) + ?q * 8192 \<le> GCM_LIMIT" using n s(2,3) by simp_all
  from crypt_blocks_run [OF E fs this] obtain d ys where
    blocks: "mbedtls_gcm_update ?s (take (?q * 8192) c) = (0, d, ys)" "crypt_blocks_loop E infile outfile 0 ?q ?s fs = (0, d, fs(outfile \<mapsto> ys))"
      "started d" "unat (gc_len d) = ?q * 8192" using s(3) by auto
  have start: "mbedtls_gcm_starts (file_context bc key) mode (replicate 12 0) AES256_FILE_AD = (0, ?s)" using k(1) s(1) by (simp add: file_context_def)
  show ?thesis
  proof (cases "?r = 0")
    case True
    then show ?thesis using that [OF start, of d ys] blocks(1-3) n' k(1) s(1) q by (simp add: crypt_stream_def)
  next
    case False
    have fs': "(fs(outfile \<mapsto> ys)) infile = Some c" "(fs(outfile \<mapsto> ys)) outfile = Some ys" using fs by simp_all
    have bounds: "?q * 8192 + ?r \<le> length c" "unat (gc_len d) + ?r \<le> GCM_LIMIT" using n n' blocks(4) by simp_all
    obtain e zs where rest: "mbedtls_gcm_update d (take ?r (drop (?q * 8192) c)) = (0, e, zs)"
        "crypt_block E infile outfile (?q * 8192) ?r d (fs(outfile \<mapsto> ys)) = (0, e, (fs(outfile \<mapsto> ys))(outfile \<mapsto> ys @ zs))"
        "started e"
      by (rule crypt_block_run [OF E fs(1) fs' bounds(1) blocks(3) bounds(2)])
    have whole: "take n c = take (?q * 8192) c @ take ?r (drop (?q * 8192) c)" using take_add [of "?q * 8192" ?r c] n' by simp
    have "length (take (?q * 8192) c @ take ?r (drop (?q * 8192) c)) = n" unfolding whole [symmetric] using n(1) by simp
    then have "mbedtls_gcm_update ?s (take (?q * 8192) c @ take ?r (drop (?q * 8192) c)) = (0, e, ys @ zs)"
      by (intro update_append [OF _ _ _ blocks(1) rest(1)]) (use n s(2,3) in \<open>simp_all del: length_append\<close>)
    with whole show ?thesis using that [OF start, of e "ys @ zs"] blocks(2) rest(2,3) False k(1) s(1) q by (simp add: crypt_stream_def)
  qed
qed

lemma whole_of_run:
  assumes "mbedtls_gcm_starts (file_context bc key) mode (replicate 12 0) AES256_FILE_AD = (0, ctx)"
    and "mbedtls_gcm_update ctx xs = (0, d, ys)" and "mbedtls_gcm_finish d 16 = (0, e, tag)"
  shows "crypt_whole bc mode key xs = (ys, tag)"
  using assms by (simp add: crypt_whole_def mbedtls_gcm_crypt_and_tag_def)

lemma crypt_whole_inverse:
  assumes "block_cipher_documented bc" and "length key = 32" and "length xs \<le> GCM_LIMIT"
  shows "length (fst (crypt_whole bc 1 key xs)) = length xs" "length (snd (crypt_whole bc 1 key xs)) = 16"
    "crypt_whole bc 0 key (fst (crypt_whole bc 1 key xs)) = (xs, snd (crypt_whole bc 1 key xs))"
proof -
  obtain k where k: "mbedtls_gcm_setkey bc mbedtls_gcm_init key = (0, k)" "keyed k" by (rule setkey_keyed [OF assms(1,2)])
  have iv: "0 < length (replicate 12 (0 :: byte))" "length (replicate 12 (0 :: byte)) < 2 ^ 61" "length AES256_FILE_AD < 2 ^ 61"
    "4 \<le> (16 :: nat)" "16 \<le> (16 :: nat)" by simp_all
  obtain c c' ys tag where "mbedtls_gcm_crypt_and_tag k MBEDTLS_GCM_ENCRYPT (replicate 12 0) AES256_FILE_AD xs 16 = (0, c, ys, tag)"
      "length ys = length xs" "length tag = 16"
      "mbedtls_gcm_crypt_and_tag k MBEDTLS_GCM_DECRYPT (replicate 12 0) AES256_FILE_AD ys 16 = (0, c', xs, tag)"
    by (rule crypt_and_tag_inverse [OF k(2) iv(1-3) assms(3) iv(4,5)])
  then show "length (fst (crypt_whole bc 1 key xs)) = length xs" "length (snd (crypt_whole bc 1 key xs)) = 16"
    "crypt_whole bc 0 key (fst (crypt_whole bc 1 key xs)) = (xs, snd (crypt_whole bc 1 key xs))"
    using k(1) by (simp_all add: crypt_whole_def file_context_def)
qed

lemma stream_tag:
  assumes "block_cipher_documented bc" and "length key = 32" and "files_work E"
    and "infile \<noteq> outfile" "fs infile = Some c" "fs outfile = Some []" and "n \<le> length c" "n \<le> GCM_LIMIT"
  obtains d e ys tag where "crypt_stream bc E mode key infile outfile n fs = (0, d, fs(outfile \<mapsto> ys))"
    "mbedtls_gcm_finish d 16 = (0, e, tag)" "length tag = 16" "crypt_whole bc mode key (take n c) = (ys, tag)"
proof -
  obtain ctx d ys where run: "mbedtls_gcm_starts (file_context bc key) mode (replicate 12 0) AES256_FILE_AD = (0, ctx)"
      "mbedtls_gcm_update ctx (take n c) = (0, d, ys)" "crypt_stream bc E mode key infile outfile n fs = (0, d, fs(outfile \<mapsto> ys))"
      "started d"
    by (rule crypt_stream_run [OF assms])
  obtain e tag where "mbedtls_gcm_finish d 16 = (0, e, tag)" "length tag = 16" by (rule finish_ok [OF run(4), of 16]) simp_all
  then show ?thesis using that run whole_of_run [OF run(1,2)] by blast
qed

lemma encrypt_aes_file_run:
  assumes "block_cipher_documented bc" and "length key = 32" and "files_work E"
    and "infile \<noteq> outfile" "fs infile = Some c" and "length c \<le> GCM_LIMIT"
  shows "crypto_encrypt_aes_file bc E fs (Some infile) (Some outfile) key =
    Some (0, fs(outfile \<mapsto> fst (crypt_whole bc 1 key c) @ snd (crypt_whole bc 1 key c)))"
proof -
  have fs: "(fs(outfile \<mapsto> [])) infile = Some c" "(fs(outfile \<mapsto> [])) outfile = Some []" using assms(4,5) by simp_all
  obtain d e ys tag where run: "crypt_stream bc E 1 key infile outfile (length c) (fs(outfile \<mapsto> [])) = (0, d, (fs(outfile \<mapsto> []))(outfile \<mapsto> ys))"
      "mbedtls_gcm_finish d 16 = (0, e, tag)" "crypt_whole bc 1 key (take (length c) c) = (ys, tag)"
    by (rule stream_tag [OF assms(1-4) fs le_refl assms(6)])
  then show ?thesis using assms(3-5)
    by (simp add: crypto_encrypt_aes_file_def deref_def open_files_def file_size_def content_def fwrite_def files_work_def)
qed

lemma decrypt_aes_file_run:
  assumes "block_cipher_documented bc" and "length key = 32" and "files_work E"
    and "infile \<noteq> outfile" "fs infile = Some (body @ tag)" "length tag = 16" and "length body \<le> GCM_LIMIT"
  shows "crypto_decrypt_aes_file bc E fs (Some infile) (Some outfile) key =
    Some (if snd (crypt_whole bc 0 key body) = tag then (0, fs(outfile \<mapsto> fst (crypt_whole bc 0 key body))) else (- 1, fs(outfile := None)))"
proof -
  have fs: "(fs(outfile \<mapsto> [])) infile = Some (body @ tag)" "(fs(outfile \<mapsto> [])) outfile = Some []" using assms(4,5) by simp_all
  have n: "length body \<le> length (body @ tag)" by simp
  obtain d e ys t where run: "crypt_stream bc E 0 key infile outfile (length body) (fs(outfile \<mapsto> [])) = (0, d, (fs(outfile \<mapsto> []))(outfile \<mapsto> ys))"
      "mbedtls_gcm_finish d 16 = (0, e, t)" "length t = 16" "crypt_whole bc 0 key (take (length body) (body @ tag)) = (ys, t)"
    by (rule stream_tag [OF assms(1-4) fs n assms(7)])
  have "nat (int (length body) + 16) - 16 = length body" by simp
  with run show ?thesis using assms(3-6)
    by (auto simp: crypto_decrypt_aes_file_def deref_def open_files_def file_size_def content_def fread_def files_work_def remove_file_def tag_diff_eq_0)
qed

subsection \<open>Files\<close>

lemma file_key_ok:
  assumes "hf_documented P"
  obtains key where "file_key P (Some password) (length password) = Some key" "length key = 32"
  using hf_calls_std(3,4) [OF assms, where n = 32 and ikm = password and salt = "[]" and info = AES256_FILE_KDF_INFO] that
  by (simp add: file_key_def read_bytes_def fill_def)

text \<open>
  C15: a file of up to \<open>2 ^ 36 - 32\<close> bytes that is encrypted under a password and decrypted under the same
  password comes back unchanged; the encrypted file is longer by the tag, and no other file is touched.
\<close>

theorem file_round_trip:
  assumes "block_cipher_documented bc" and "hf_documented P" and "files_work E"
    and "plain \<noteq> sealed" "sealed \<noteq> result" and "fs plain = Some c" and "length c \<le> GCM_LIMIT"
  shows "\<exists>ct. crypto_encrypt_file bc P E fs (Some plain) (Some sealed) (Some password) (length password) = Some (0, fs(sealed \<mapsto> ct)) \<and>
    length ct = length c + 16 \<and>
    crypto_decrypt_file bc P E (fs(sealed \<mapsto> ct)) (Some sealed) (Some result) (Some password) (length password) =
      Some (0, fs(sealed \<mapsto> ct, result \<mapsto> c))"
proof -
  obtain key where key: "file_key P (Some password) (length password) = Some key" "length key = 32" by (rule file_key_ok [OF assms(2)])
  note whole = crypt_whole_inverse [OF assms(1) key(2) assms(7)]
  let ?ys = "fst (crypt_whole bc 1 key c)" and ?tag = "snd (crypt_whole bc 1 key c)"
  have enc: "crypto_encrypt_aes_file bc E fs (Some plain) (Some sealed) key = Some (0, fs(sealed \<mapsto> ?ys @ ?tag))"
    by (rule encrypt_aes_file_run [where fs = fs, OF assms(1) key(2) assms(3,4,6,7)])
  have "(fs(sealed \<mapsto> ?ys @ ?tag)) sealed = Some (?ys @ ?tag)" "length ?ys \<le> GCM_LIMIT" using whole(1) assms(7) by simp_all
  from decrypt_aes_file_run [where fs = "fs(sealed \<mapsto> ?ys @ ?tag)", OF assms(1) key(2) assms(3,5) this(1) whole(2) this(2)]
  have dec: "crypto_decrypt_aes_file bc E (fs(sealed \<mapsto> ?ys @ ?tag)) (Some sealed) (Some result) key = Some (0, fs(sealed \<mapsto> ?ys @ ?tag, result \<mapsto> c))"
    using whole(3) by simp
  show ?thesis
    using enc dec whole(1,2) key(1)
    by (intro exI [of _ "?ys @ ?tag"]) (simp add: crypto_encrypt_file_def crypto_decrypt_file_def)
qed

text \<open>A file environment in which every operation works.\<close>

definition demo_files :: file_env where
  "demo_files = \<lparr>fe_can_read = (\<lambda>_. True), fe_can_write = (\<lambda>_. True), fe_can_size = (\<lambda>_. True), fe_can_remove = (\<lambda>_. True),
     fe_read_ok = (\<lambda>_. True), fe_write_ok = (\<lambda>_. True)\<rparr>"

lemma demo_files_work: "files_work demo_files"
  by (simp add: files_work_def demo_files_def)

lemma demo_hf: "hf_documented demo_prims"
  using demo_prims_ok by (simp add: prims_ok_def)

theorem file_round_trip_witness:
  "\<exists>ct. crypto_encrypt_file demo_cipher demo_prims demo_files [''a'' \<mapsto> [1, 2, 3]] (Some ''a'') (Some ''b'') (Some [7]) 1 =
      Some (0, [''a'' \<mapsto> [1, 2, 3], ''b'' \<mapsto> ct]) \<and> length ct = 19 \<and>
    crypto_decrypt_file demo_cipher demo_prims demo_files [''a'' \<mapsto> [1, 2, 3], ''b'' \<mapsto> ct] (Some ''b'') (Some ''c'') (Some [7]) 1 =
      Some (0, [''a'' \<mapsto> [1, 2, 3], ''b'' \<mapsto> ct, ''c'' \<mapsto> [1, 2, 3]])"
  using file_round_trip [OF demo_cipher_documented demo_hf demo_files_work, of "''a''" "''b''" "''c''" "[''a'' \<mapsto> [1, 2, 3]]" "[1, 2, 3]" "[7]"]
  by simp

text \<open>
  C16: a file is decrypted exactly when its last 16 bytes are the tag of the others; otherwise, and also
  when it is shorter than a tag, the call fails and the output file is removed.
\<close>

theorem file_tag_decides:
  assumes "block_cipher_documented bc" and "length key = 32" and "files_work E"
    and "infile \<noteq> outfile" "fs infile = Some c" and "length c \<le> GCM_LIMIT"
  shows "crypto_decrypt_aes_file bc E fs (Some infile) (Some outfile) key =
    Some (if 16 \<le> length c \<and> snd (crypt_whole bc 0 key (take (length c - 16) c)) = drop (length c - 16) c
          then (0, fs(outfile \<mapsto> fst (crypt_whole bc 0 key (take (length c - 16) c)))) else (- 1, fs(outfile := None)))"
proof (cases "16 \<le> length c")
  case True
  then show ?thesis
    using decrypt_aes_file_run [OF assms(1-4), where fs = fs and body = "take (length c - 16) c" and tag = "drop (length c - 16) c"] assms(5,6)
    by simp
next
  case False
  then show ?thesis using assms(3-5)
    by (simp add: crypto_decrypt_aes_file_def deref_def open_files_def file_size_def content_def files_work_def remove_file_def)
qed

theorem file_tag_decides_witness:
  "crypto_decrypt_aes_file demo_cipher demo_files [''a'' \<mapsto> [1, 2, 3]] (Some ''a'') (Some ''b'') (replicate 32 0) = Some (- 1, [''a'' \<mapsto> [1, 2, 3]])"
  using file_tag_decides [OF demo_cipher_documented _ demo_files_work, of "replicate 32 0" "''a''" "''b''" "[''a'' \<mapsto> [1, 2, 3]]" "[1, 2, 3]"]
  by (simp add: fun_upd_idem)

lemma crypt_block_frame: "crypt_block E infile outfile pos n ctx fs = (ret, ctx', fs') \<Longrightarrow> p \<noteq> outfile \<Longrightarrow> fs' p = fs p"
  by (auto simp: crypt_block_def fwrite_def Let_def split: if_splits prod.splits)

lemma crypt_blocks_frame:
  "crypt_blocks_loop E infile outfile pos k ctx fs = (ret, ctx', fs') \<Longrightarrow> p \<noteq> outfile \<Longrightarrow> fs' p = fs p"
proof (induction k arbitrary: pos ctx fs)
  case 0
  then show ?case by simp
next
  case (Suc k)
  obtain r d g where "crypt_block E infile outfile pos 8192 ctx fs = (r, d, g)" by (metis prod_cases3)
  then show ?case using Suc crypt_block_frame [of E infile outfile pos 8192 ctx fs r d g p] by (auto split: if_splits)
qed

lemma crypt_stream_frame:
  assumes "crypt_stream bc E mode key infile outfile n fs = (ret, ctx, fs')" and "p \<noteq> outfile"
  shows "fs' p = fs p"
proof -
  obtain r c where r: "(if fst (mbedtls_gcm_setkey bc mbedtls_gcm_init key) = 0
      then mbedtls_gcm_starts (snd (mbedtls_gcm_setkey bc mbedtls_gcm_init key)) mode (replicate 12 0) AES256_FILE_AD
      else mbedtls_gcm_setkey bc mbedtls_gcm_init key) = (r, c)" by (metis prod.exhaust)
  let ?t = "nat (sint (word_of_nat (n div 8192) :: u32))"
  obtain r' d g where blocks: "crypt_blocks_loop E infile outfile 0 ?t c fs = (r', d, g)" by (metis prod_cases3)
  have g: "g p = fs p" by (rule crypt_blocks_frame [OF blocks assms(2)])
  obtain r'' d' g' where rest: "crypt_block E infile outfile (?t * 8192) (n mod 8192) d g = (r'', d', g')" by (metis prod_cases3)
  have "g' p = fs p" using crypt_block_frame [OF rest assms(2)] g by simp
  with g show ?thesis using assms(1) r blocks rest by (auto simp: crypt_stream_def split_beta Let_def split: if_splits)
qed

text \<open>
  C17: whatever the contents of the file, the cipher and the failures of reading and writing are,
  decryption touches no file but its output.  When it fails because one of the two files cannot be
  opened, nothing is changed, so an older output stays; when it fails later, no output is left.  The
  operating system lets the output be removed.
\<close>

theorem failed_decryption_leaves_no_output:
  assumes "fe_can_remove E outfile"
  shows "\<exists>ret fs'. crypto_decrypt_aes_file bc E fs (Some infile) (Some outfile) key = Some (ret, fs') \<and>
    (\<forall>p. p \<noteq> outfile \<longrightarrow> fs' p = fs p) \<and> (ret = 0 \<or> ret = - 1 \<and> (if open_files E fs infile outfile = None then fs' = fs else fs' outfile = None))"
proof (cases "open_files E fs infile outfile")
  case None
  then show ?thesis by (simp add: crypto_decrypt_aes_file_def deref_def)
next
  case (Some g)
  then have g: "\<And>p. p \<noteq> outfile \<Longrightarrow> g p = fs p" by (auto simp: open_files_def split: if_splits)
  let ?n = "nat (file_size E g infile) - 16"
  obtain r d h where run: "crypt_stream bc E 0 key infile outfile ?n g = (r, d, h)" by (metis prod_cases3)
  have h: "\<And>p. p \<noteq> outfile \<Longrightarrow> h p = fs p" using crypt_stream_frame [OF run] g by simp
  show ?thesis using Some run g h assms
    by (auto simp: crypto_decrypt_aes_file_def deref_def Let_def split_beta remove_file_def)
qed

theorem failed_decryption_leaves_no_output_witness:
  "\<exists>ret fs'. crypto_decrypt_aes_file demo_cipher demo_files [''a'' \<mapsto> replicate 20 1] (Some ''a'') (Some ''b'') (replicate 32 0) = Some (ret, fs') \<and>
    fs' ''a'' = Some (replicate 20 1) \<and> (ret = 0 \<or> ret = - 1 \<and> fs' ''b'' = None)"
  using failed_decryption_leaves_no_output [of demo_files "''b''" demo_cipher "[''a'' \<mapsto> replicate 20 1]" "''a''" "replicate 32 0"]
  by (force simp: demo_files_def open_files_def)

text \<open>
  When the input and the output are the same file, encryption succeeds and leaves nothing but a
  tag, which does not depend on the contents, and decryption removes the file.
\<close>

lemma in_place_destroys_file:
  assumes "block_cipher_documented bc" and "length key = 32" and "files_work E" and "fs path = Some c"
  shows "crypto_encrypt_aes_file bc E fs (Some path) (Some path) key = Some (0, fs(path \<mapsto> snd (crypt_whole bc 1 key []))) \<and>
    length (snd (crypt_whole bc 1 key [])) = 16 \<and>
    crypto_decrypt_aes_file bc E fs (Some path) (Some path) key = Some (- 1, fs(path := None))"
proof -
  obtain k where k: "mbedtls_gcm_setkey bc mbedtls_gcm_init key = (0, k)" "keyed k" by (rule setkey_keyed [OF assms(1,2)])
  have iv: "0 < length (replicate 12 (0 :: byte))" "length (replicate 12 (0 :: byte)) < 2 ^ 61" "length AES256_FILE_AD < 2 ^ 61" by simp_all
  obtain s where s: "\<And>mode. mbedtls_gcm_starts k mode (replicate 12 0) AES256_FILE_AD = (0, s\<lparr>gc_mode := mode\<rparr>)" "started s" "gc_len s = 0"
    by (rule starts_ok [OF k(2) iv]) blast
  obtain e tag where fin: "mbedtls_gcm_finish (s\<lparr>gc_mode := 1\<rparr>) 16 = (0, e, tag)" "length tag = 16"
    using finish_ok [of "s\<lparr>gc_mode := 1\<rparr>" 16] s(2) by auto
  have start: "mbedtls_gcm_starts (file_context bc key) 1 (replicate 12 0) AES256_FILE_AD = (0, s\<lparr>gc_mode := 1\<rparr>)"
    using k(1) s(1) by (simp add: file_context_def)
  have nil: "mbedtls_gcm_update (s\<lparr>gc_mode := 1\<rparr>) [] = (0, s\<lparr>gc_mode := 1\<rparr>, [])" by (rule update_nil) (simp add: s(3))
  have whole: "crypt_whole bc 1 key [] = ([], tag)" by (rule whole_of_run [OF start nil fin(1)])
  have "crypt_stream bc E 1 key path path 0 (fs(path \<mapsto> [])) = (0, s\<lparr>gc_mode := 1\<rparr>, fs(path \<mapsto> []))"
    using k(1) s(1) by (simp add: crypt_stream_def)
  then show ?thesis using assms(3,4) fin whole
    by (simp add: crypto_encrypt_aes_file_def crypto_decrypt_aes_file_def deref_def open_files_def file_size_def content_def fwrite_def
        files_work_def remove_file_def)
qed

lemma in_place_destroys_file_witness:
  "\<exists>tag. crypto_encrypt_aes_file demo_cipher demo_files [''a'' \<mapsto> [1, 2, 3]] (Some ''a'') (Some ''a'') (replicate 32 0) = Some (0, [''a'' \<mapsto> tag]) \<and>
    length tag = 16"
  using in_place_destroys_file [OF demo_cipher_documented _ demo_files_work, of "replicate 32 0" "[''a'' \<mapsto> [1, 2, 3]]" "''a''" "[1, 2, 3]"]
  by (intro exI [of _ "snd (crypt_whole demo_cipher 1 (replicate 32 0) [])"]) simp

subsection \<open>Buffers\<close>

text \<open>One encryption of a buffer under a key, and its decryption.\<close>

lemma data_run:
  assumes "block_cipher_documented bc" and "length key = 32"
  obtains s where "started s" "gc_len s = 0"
    "\<And>xs. length xs \<le> GCM_LIMIT \<Longrightarrow> \<exists>d e ys tag. mbedtls_gcm_update (s\<lparr>gc_mode := 1\<rparr>) xs = (0, d, ys) \<and> length ys = length xs \<and> length tag = 16 \<and>
       crypto_encrypt_aes_data bc xs key = (length xs + 16, Some (ys @ tag)) \<and>
       crypto_decrypt_aes_data bc (ys @ tag) key = Some (length xs, Some xs)"
proof -
  obtain k where k: "mbedtls_gcm_setkey bc mbedtls_gcm_init key = (0, k)" "keyed k" by (rule setkey_keyed [OF assms])
  have iv: "0 < length (replicate 12 (0 :: byte))" "length (replicate 12 (0 :: byte)) < 2 ^ 61" "length AES256_DATA_AD < 2 ^ 61" by simp_all
  obtain s where s: "\<And>mode. mbedtls_gcm_starts k mode (replicate 12 0) AES256_DATA_AD = (0, s\<lparr>gc_mode := mode\<rparr>)" "started s" "gc_len s = 0"
    by (rule starts_ok [OF k(2) iv]) blast
  have "\<exists>d e ys tag. mbedtls_gcm_update (s\<lparr>gc_mode := 1\<rparr>) xs = (0, d, ys) \<and> length ys = length xs \<and> length tag = 16 \<and>
       crypto_encrypt_aes_data bc xs key = (length xs + 16, Some (ys @ tag)) \<and>
       crypto_decrypt_aes_data bc (ys @ tag) key = Some (length xs, Some xs)" if n: "length xs \<le> GCM_LIMIT" for xs
  proof -
    obtain d ys e tag where run: "mbedtls_gcm_update (s\<lparr>gc_mode := 1\<rparr>) xs = (0, d, ys)" "length ys = length xs"
        "mbedtls_gcm_finish d 16 = (0, e, tag)" "length tag = 16"
        "mbedtls_gcm_update (s\<lparr>gc_mode := 0\<rparr>) ys = (0, d\<lparr>gc_mode := 0\<rparr>, xs)"
        "mbedtls_gcm_finish (d\<lparr>gc_mode := 0\<rparr>) 16 = (0, e\<lparr>gc_mode := 0\<rparr>, tag)"
      by (rule update_finish_inverse [OF s(2,3) n, of 16]) simp_all
    have len: "crypto_aes256_gcm_plaintext_data_len (length xs + 16) = length xs"
      using n by (simp add: crypto_aes256_gcm_plaintext_data_len_def)
    show ?thesis using k(1) s(1) run len
      by (simp add: crypto_encrypt_aes_data_def crypto_encrypt_aes_data_with_iv_def crypto_decrypt_aes_data_def
          crypto_decrypt_aes_data_with_iv_def mbedtls_gcm_crypt_and_tag_def crypto_aes256_gcm_ciphertext_data_len_def tag_diff_eq_0)
  qed
  with s(2,3) that show ?thesis by blast
qed

text \<open>
  C40: two buffers of the same length encrypted under the same key can be opened again, but their
  ciphertexts differ from each other exactly as the buffers do: the initialisation vector is constant,
  and whoever knows one buffer can read the other.
\<close>

theorem data_key_stream_reused:
  assumes "block_cipher_documented bc" and "length key = 32" and "length xs = length zs" "length zs \<le> GCM_LIMIT"
  shows "\<exists>c d. crypto_encrypt_aes_data bc xs key = (length xs + 16, Some c) \<and> crypto_encrypt_aes_data bc zs key = (length zs + 16, Some d) \<and>
    crypto_decrypt_aes_data bc c key = Some (length xs, Some xs) \<and> crypto_decrypt_aes_data bc d key = Some (length zs, Some zs) \<and>
    map2 (XOR) (take (length xs) c) (take (length zs) d) = map2 (XOR) xs zs"
proof -
  obtain s where s: "started s" "gc_len s = 0" and run: "\<And>xs. length xs \<le> GCM_LIMIT \<Longrightarrow>
      \<exists>d e ys tag. mbedtls_gcm_update (s\<lparr>gc_mode := 1\<rparr>) xs = (0, d, ys) \<and> length ys = length xs \<and> length tag = 16 \<and>
       crypto_encrypt_aes_data bc xs key = (length xs + 16, Some (ys @ tag)) \<and>
       crypto_decrypt_aes_data bc (ys @ tag) key = Some (length xs, Some xs)"
    by (rule data_run [OF assms(1,2)]) blast
  let ?s = "s\<lparr>gc_mode := 1\<rparr>"
  obtain c ys t where x: "mbedtls_gcm_update ?s xs = (0, c, ys)" "length ys = length xs"
      "crypto_encrypt_aes_data bc xs key = (length xs + 16, Some (ys @ t))" "crypto_decrypt_aes_data bc (ys @ t) key = Some (length xs, Some xs)"
    using run [of xs] assms(3,4) by auto
  obtain d ys' t' where z: "mbedtls_gcm_update ?s zs = (0, d, ys')" "length ys' = length zs"
      "crypto_encrypt_aes_data bc zs key = (length zs + 16, Some (ys' @ t'))" "crypto_decrypt_aes_data bc (ys' @ t') key = Some (length zs, Some zs)"
    using run [OF assms(4)] by auto
  have bounds: "started ?s" "unat (gc_len ?s) + length xs \<le> GCM_LIMIT" "unat (gc_len ?s) + length zs \<le> GCM_LIMIT" using s assms(3,4) by simp_all
  obtain c1 where c1: "update_loop ?s xs = (0, c1, ys)" by (rule update_ok [OF bounds(1,2)]) (simp add: x(1))
  obtain d1 where d1: "update_loop ?s zs = (0, d1, ys')" by (rule update_ok [OF bounds(1,3)]) (simp add: z(1))
  have "map2 (XOR) ys ys' = map2 (XOR) xs zs" by (rule update_loop_stream [OF bounds(1) bounds(1) refl refl assms(3) c1 d1])
  then show ?thesis using x z by (intro exI [of _ "ys @ t"] exI [of _ "ys' @ t'"]) simp
qed

theorem data_key_stream_reused_witness:
  "\<exists>c d. crypto_encrypt_aes_data demo_cipher [1, 2, 3] (replicate 32 5) = (19, Some c) \<and> crypto_encrypt_aes_data demo_cipher [4, 4, 4] (replicate 32 5) = (19, Some d) \<and>
    map2 (XOR) (take 3 c) (take 3 d) = [5, 6, 7]"
proof -
  have "map2 (XOR) [1, 2, 3] [4, 4, 4] = ([5, 6, 7] :: bytes)" by simp
  then show ?thesis
    using data_key_stream_reused [OF demo_cipher_documented, of "replicate 32 5" "[1, 2, 3]" "[4, 4, 4]"] by (auto simp: numeral_3_eq_3)
qed

end
