(* ===== verification/Base64.thy ===== *)
theory Base64
  imports Gcm
begin

section \<open>Base64 (src/lib/mbedcrypto/library/base64.c, src/crypto.c)\<close>

text \<open>
  The encoder and decoder of mbedtls with their table lookups in constant time, and the two functions of
  the library around them.  Integers of type \<open>int\<close> and \<open>uint32_t\<close> are words of 32 bits.
\<close>

subsection \<open>Lookups in constant time\<close>

definition base64_enc_map :: bytes where
  "base64_enc_map = map of_char ''ABCDEFGHIJKLMNOPQRSTUVWXYZabcdefghijklmnopqrstuvwxyz0123456789+/''"

definition base64_dec_map :: bytes where
  "base64_dec_map =
    [127, 127, 127, 127, 127, 127, 127, 127, 127, 127,
     127, 127, 127, 127, 127, 127, 127, 127, 127, 127,
     127, 127, 127, 127, 127, 127, 127, 127, 127, 127,
     127, 127, 127, 127, 127, 127, 127, 127, 127, 127,
     127, 127, 127,  62, 127, 127, 127,  63,  52,  53,
      54,  55,  56,  57,  58,  59,  60,  61, 127, 127,
     127,  64, 127, 127, 127,   0,   1,   2,   3,   4,
       5,   6,   7,   8,   9,  10,  11,  12,  13,  14,
      15,  16,  17,  18,  19,  20,  21,  22,  23,  24,
      25, 127, 127, 127, 127, 127, 127,  26,  27,  28,
      29,  30,  31,  32,  33,  34,  35,  36,  37,  38,
      39,  40,  41,  42,  43,  44,  45,  46,  47,  48,
      49,  50,  51, 127, 127, 127, 127, 127]"

definition mbedtls_base64_cond_assign_uchar :: "byte \<Rightarrow> byte \<Rightarrow> byte \<Rightarrow> byte" where
  "mbedtls_base64_cond_assign_uchar dest src condition =
     (let mask = condition OR - condition;
          mask = drop_bit 7 mask;
          mask = - mask
      in (src AND mask) OR (dest AND NOT mask))"

definition mbedtls_base64_cond_assign_uint32 :: "u32 \<Rightarrow> u32 \<Rightarrow> u32 \<Rightarrow> u32" where
  "mbedtls_base64_cond_assign_uint32 dest src condition =
     (let mask = condition OR - condition;
          mask = drop_bit 31 mask;
          mask = - mask
      in (src AND mask) OR (dest AND NOT mask))"

definition mbedtls_base64_eq :: "u64 \<Rightarrow> u64 \<Rightarrow> byte" where
  "mbedtls_base64_eq in_a in_b =
     (let difference = in_a XOR in_b;
          difference = difference OR - difference;
          difference = drop_bit 63 difference
      in ucast (1 XOR difference))"

fun lookup_loop :: "bytes \<Rightarrow> u64 \<Rightarrow> u64 \<Rightarrow> byte \<Rightarrow> byte" where
  "lookup_loop [] i table_index result = result"
| "lookup_loop (entry # table) i table_index result =
     lookup_loop table (i + 1) table_index (mbedtls_base64_cond_assign_uchar result entry (mbedtls_base64_eq i table_index))"

definition mbedtls_base64_table_lookup :: "bytes \<Rightarrow> u64 \<Rightarrow> byte" where
  "mbedtls_base64_table_lookup table table_index = lookup_loop table 0 table_index 0"

subsection \<open>Encoding\<close>

abbreviation (input) MBEDTLS_ERR_BASE64_BUFFER_TOO_SMALL :: int where "MBEDTLS_ERR_BASE64_BUFFER_TOO_SMALL \<equiv> - 0x2A"
abbreviation (input) MBEDTLS_ERR_BASE64_INVALID_CHARACTER :: int where "MBEDTLS_ERR_BASE64_INVALID_CHARACTER \<equiv> - 0x2C"

definition encode_digit :: "u32 \<Rightarrow> byte" where
  "encode_digit x = mbedtls_base64_table_lookup base64_enc_map (ucast (x AND 0x3F))"

text \<open>The loop over groups of three bytes, and the last one or two bytes.\<close>

fun encode_loop :: "bytes \<Rightarrow> bytes" where
  "encode_loop (b1 # b2 # b3 # src) =
     (let C1 = ucast b1; C2 = ucast b2; C3 = ucast b3 :: u32
      in encode_digit (drop_bit 2 C1) # encode_digit (push_bit 4 (C1 AND 3) + drop_bit 4 C2) #
         encode_digit (push_bit 2 (C2 AND 15) + drop_bit 6 C3) # encode_digit C3 # encode_loop src)"
| "encode_loop [b1, b2] =
     (let C1 = ucast b1; C2 = ucast b2 :: u32
      in [encode_digit (drop_bit 2 C1), encode_digit (push_bit 4 (C1 AND 3) + drop_bit 4 C2),
          encode_digit (push_bit 2 (C2 AND 15)), of_char CHR ''='' ])"
| "encode_loop [b1] =
     (let C1 = ucast b1; C2 = 0 :: u32
      in [encode_digit (drop_bit 2 C1), encode_digit (push_bit 4 (C1 AND 3) + drop_bit 4 C2), of_char CHR ''='', of_char CHR ''='' ])"
| "encode_loop [] = []"

text \<open>The return code, \<open>olen\<close> and the bytes written; nothing is written for an empty input.\<close>

definition mbedtls_base64_encode :: "nat \<Rightarrow> bytes \<Rightarrow> int \<times> nat \<times> bytes" where
  "mbedtls_base64_encode dlen src =
     (let slen = length src in
      if slen = 0 then (0, 0, [])
      else
        let n = slen div 3 + (if slen mod 3 \<noteq> 0 then 1 else 0) in
        if n > (2 ^ 64 - 1 - 1) div 4 then (MBEDTLS_ERR_BASE64_BUFFER_TOO_SMALL, 2 ^ 64 - 1, [])
        else if dlen < n * 4 + 1 then (MBEDTLS_ERR_BASE64_BUFFER_TOO_SMALL, n * 4 + 1, [])
        else (0, length (encode_loop src), encode_loop src @ [0]))"

subsection \<open>Decoding\<close>

text \<open>The first pass: the number of digits and pads, or an error.\<close>

function check_loop :: "bytes \<Rightarrow> nat \<Rightarrow> nat \<Rightarrow> int + nat \<times> nat" where
  "check_loop src n j =
     (case dropWhile (\<lambda>c. c = of_char CHR '' '') src of
        [] \<Rightarrow> Inr (n, j)
      | c # cs \<Rightarrow>
          if cs \<noteq> [] \<and> c = 13 \<and> hd cs = 10 then check_loop cs n j
          else if c = 10 then check_loop cs n j
          else if hd src = of_char CHR '' '' then Inl MBEDTLS_ERR_BASE64_INVALID_CHARACTER
          else
            let j' = (if c = of_char CHR ''='' then j + 1 else j) in
            if c = of_char CHR ''='' \<and> j' > 2 then Inl MBEDTLS_ERR_BASE64_INVALID_CHARACTER
            else
              let dec_map_lookup = mbedtls_base64_table_lookup base64_dec_map (ucast c) in
              if c > 127 \<or> dec_map_lookup = 127 then Inl MBEDTLS_ERR_BASE64_INVALID_CHARACTER
              else if dec_map_lookup < 64 \<and> j' \<noteq> 0 then Inl MBEDTLS_ERR_BASE64_INVALID_CHARACTER
              else check_loop cs (n + 1) j')"
  by pat_completeness auto
termination
proof (relation "measure (\<lambda>(src, _). length src)", goal_cases)
  case 1
  then show ?case by simp
next
  case (2 src n j c cs)
  then show ?case using length_dropWhile_le [of "\<lambda>c. c = of_char CHR '' ''" src] by simp
next
  case (3 src n j c cs)
  then show ?case using length_dropWhile_le [of "\<lambda>c. c = of_char CHR '' ''" src] by simp
next
  case (4 src n j c cs j' d)
  then show ?case using length_dropWhile_le [of "\<lambda>c. c = of_char CHR '' ''" src] by simp
qed

declare check_loop.simps [simp del]

text \<open>
  The second pass.  \<open>p\<close> are the bytes written to \<open>dst\<close> so far; a write behind its \<open>dlen\<close> bytes is undefined.
\<close>

definition push_byte :: "nat \<Rightarrow> bool \<Rightarrow> byte \<Rightarrow> bytes \<Rightarrow> bytes option" where
  "push_byte dlen condition b p = (if \<not> condition then Some p else if length p < dlen then Some (p @ [b]) else None)"

fun decode_loop :: "nat \<Rightarrow> bytes \<Rightarrow> u32 \<Rightarrow> nat \<Rightarrow> u32 \<Rightarrow> bytes \<Rightarrow> bytes option" where
  "decode_loop dlen [] j n x p = Some p"
| "decode_loop dlen (c # src) j n x p =
     (if c = 13 \<or> c = 10 \<or> c = of_char CHR '' '' then decode_loop dlen src j n x p
      else
        let dec_map_lookup = mbedtls_base64_table_lookup base64_dec_map (ucast c);
            j = mbedtls_base64_cond_assign_uint32 j (j - 1) (ucast (mbedtls_base64_eq (ucast dec_map_lookup) 64));
            x = push_bit 6 x OR ucast (dec_map_lookup AND 0x3F)
        in if n + 1 = 4 then
             do { p \<leftarrow> push_byte dlen (j > 0) (ucast (drop_bit 16 x)) p;
                  p \<leftarrow> push_byte dlen (j > 1) (ucast (drop_bit 8 x)) p;
                  p \<leftarrow> push_byte dlen (j > 2) (ucast x) p;
                  decode_loop dlen src j 0 x p }
           else decode_loop dlen src j (n + 1) x p)"

text \<open>The return code, \<open>olen\<close> and the bytes written.\<close>

definition mbedtls_base64_decode :: "nat \<Rightarrow> bytes \<Rightarrow> (int \<times> nat \<times> bytes) option" where
  "mbedtls_base64_decode dlen src =
     (case check_loop src 0 0 of
        Inl err \<Rightarrow> Some (err, 0, [])
      | Inr (n, j) \<Rightarrow>
          if n = 0 then Some (0, 0, [])
          else
            let n = (6 * (n div 8) + (6 * (n mod 8) + 7) div 8 + 2 ^ 64 - j) mod 2 ^ 64 in
            if dlen < n then Some (MBEDTLS_ERR_BASE64_BUFFER_TOO_SMALL, n, [])
            else do { p \<leftarrow> decode_loop dlen src 3 0 0 []; Some (0, length p, p) })"

subsection \<open>The functions of the library\<close>

text \<open>
  The string \<open>crypto_base64_encode\<close> returns, without its terminator; for an empty message the one byte of
  the buffer is never written, and reading it is undefined.
\<close>

definition base64_string :: "bytes \<Rightarrow> bytes option" where
  "base64_string msg =
     (let len = 4 * ((length msg + 2) div 3) + 1;
          (_, olen, output) = mbedtls_base64_encode len msg
      in if 0 \<in> set output then Some (takeWhile (\<lambda>c. c \<noteq> 0) output) else None)"

definition crypto_base64_decode :: "bytes \<Rightarrow> (nat \<times> bytes ptr) option" where
  "crypto_base64_decode base64_str =
     (let base64_str_len = length base64_str;
          pad = (if base64_str_len > 0 \<and> (base64_str_len mod 4 \<noteq> 0 \<or> base64_str ! (base64_str_len - 1) = of_char CHR ''='') then 1 else 0);
          len = ((base64_str_len + 3) div 4 - pad) * 4
      in do { (ret, msg_out_len, buffer) \<leftarrow> mbedtls_base64_decode (len + 1) base64_str;
              Some (if ret \<noteq> 0 \<or> msg_out_len > len + 1 then (0, None)
                    else if msg_out_len = 0 then (0, None)
                    else (msg_out_len, Some (take msg_out_len buffer))) })"

end
