(* ===== verification/Base64_Props.thy ===== *)
theory Base64_Props
  imports Base64
begin

section \<open>Properties of Base64\<close>

text \<open>
  The lookups in constant time are ordinary lookups, the decoder writes only into its buffer, and what
  the library decodes is what it encoded, with one exception.
\<close>

subsection \<open>Lookups\<close>

lemma bit_63_iff: "bit (w :: u64) 63 \<longleftrightarrow> 2 ^ 63 \<le> uint w"
proof -
  have "0 \<le> uint w" "uint w < 2 ^ 64" using unsigned_less [of w, where ?'a = int] by simp_all
  then have "uint w div 2 ^ 63 = (if 2 ^ 63 \<le> uint w then 1 else 0)" by (auto simp: int_div_pos_eq)
  then show ?thesis using bit_uint_iff [of w 63] by (simp add: bit_iff_odd split: if_splits)
qed

lemma drop_bit_63: "drop_bit 63 (w :: u64) = (if bit w 63 then 1 else 0)"
proof (rule bit_word_eqI)
  fix n
  show "bit (drop_bit 63 w) n = bit (if bit w 63 then 1 else 0 :: u64) n"
    by (cases "n = 0") (auto simp: bit_simps dest: bit_imp_le_length)
qed

lemma eq_correct: "mbedtls_base64_eq a b = (if a = b then 1 else 0)"
proof -
  let ?d = "a XOR b"
  have "bit (?d OR - ?d) 63" if "?d \<noteq> 0"
  proof -
    have d: "0 < uint ?d" "uint ?d < 2 ^ 64" using that unsigned_less [of ?d, where ?'a = int] by (simp_all add: word_uint_eq_iff order_less_le)
    have "uint (- ?d) = (- uint ?d) mod 2 ^ 64" by (simp add: uint_word_ariths)
    also have "\<dots> = 2 ^ 64 - uint ?d" using d by (subst zmod_zminus1_eq_if) simp
    finally have "2 ^ 63 \<le> uint ?d \<or> 2 ^ 63 \<le> uint (- ?d)" by (cases "2 ^ 63 \<le> uint ?d") simp_all
    then have "bit ?d 63 \<or> bit (- ?d) 63" unfolding bit_63_iff .
    then show ?thesis unfolding bit_or_iff .
  qed
  moreover have "?d = 0 \<longleftrightarrow> a = b" by (simp add: word_xor_eq_0)
  ultimately show ?thesis by (cases "a = b") (simp_all add: mbedtls_base64_eq_def drop_bit_63)
qed

lemma cond_assign_correct:
  "mbedtls_base64_cond_assign_uchar dest src (if c then 1 else 0) = (if c then src else dest)"
  "mbedtls_base64_cond_assign_uint32 dest' src' (if c then 1 else 0) = (if c then src' else dest')"
  by (simp_all add: mbedtls_base64_cond_assign_uchar_def mbedtls_base64_cond_assign_uint32_def)

lemma lookup_loop_correct:
  "unat i + length table < 2 ^ 64 \<Longrightarrow> lookup_loop table i k r =
     (if unat i \<le> unat k \<and> unat k < unat i + length table then table ! (unat k - unat i) else r)"
proof (induction table arbitrary: i r)
  case Nil
  then show ?case by auto
next
  case (Cons e table)
  then have nxt: "unat (i + 1) = Suc (unat i)" by (simp add: unat_word_ariths)
  have "lookup_loop (e # table) i k r = lookup_loop table (i + 1) k (if i = k then e else r)"
    by (simp add: eq_correct cond_assign_correct)
  also have "\<dots> = (if Suc (unat i) \<le> unat k \<and> unat k < Suc (unat i) + length table then table ! (unat k - Suc (unat i))
      else if i = k then e else r)"
    using Cons.IH [of "i + 1"] Cons.prems nxt by simp
  also have "\<dots> = (if unat i \<le> unat k \<and> unat k < unat i + length (e # table) then (e # table) ! (unat k - unat i) else r)"
    by (auto simp: word_unat_eq_iff nth_Cons' le_eq_less_or_eq)
  finally show ?case .
qed

text \<open>
  The lookup that runs through the whole table, and assigns each entry under a mask computed from
  the two indices, is the lookup of the entry; outside the table it is 0.
\<close>

lemma table_lookup_correct:
  assumes "length table < 2 ^ 64"
  shows "mbedtls_base64_table_lookup table k = (if unat k < length table then table ! unat k else 0)"
  using lookup_loop_correct [of 0 table k 0] assms by (simp add: mbedtls_base64_table_lookup_def)

lemma table_lookup_correct_witness: "mbedtls_base64_table_lookup base64_enc_map 27 = of_char CHR ''b''"
proof -
  have "unat (27 :: u64) < length base64_enc_map" "base64_enc_map ! unat (27 :: u64) = of_char CHR ''b''"
    by (simp_all add: base64_enc_map_def)
  then show ?thesis using table_lookup_correct [of base64_enc_map 27] by (simp add: base64_enc_map_def)
qed

subsection \<open>Digits\<close>

lemma map_lengths [simp]: "length base64_enc_map = 64" "length base64_dec_map = 128"
  by (simp_all add: base64_enc_map_def base64_dec_map_def)

text \<open>Every digit is decoded to its value and is neither a pad nor white space.\<close>

lemma base64_enc_values:
  "base64_enc_map =
    [65, 66, 67, 68, 69, 70, 71, 72, 73, 74, 75, 76, 77, 78, 79, 80,
     81, 82, 83, 84, 85, 86, 87, 88, 89, 90, 97, 98, 99, 100, 101, 102,
     103, 104, 105, 106, 107, 108, 109, 110, 111, 112, 113, 114, 115, 116, 117, 118,
     119, 120, 121, 122, 48, 49, 50, 51, 52, 53, 54, 55, 56, 57, 43, 47]"
  by (simp add: base64_enc_map_def)

lemma digits_inverse:
  assumes "i < 64"
  shows "base64_dec_map ! unat (base64_enc_map ! i) = of_nat i" "unat (base64_enc_map ! i) < 128"
    "base64_enc_map ! i \<notin> {13, 10, of_char CHR '' '', of_char CHR ''=''}"
proof -
  have "[0..<64] = 0 # Suc 0 # [2..<64]" by (simp add: upt_conv_Cons numeral_2_eq_2)
  then have "map (\<lambda>c. base64_dec_map ! unat c) base64_enc_map = map of_nat [0..<64]"
    by (simp add: base64_enc_values base64_dec_map_def)
  from arg_cong [OF this, of "\<lambda>xs. xs ! i"] show "base64_dec_map ! unat (base64_enc_map ! i) = of_nat i"
    using assms by simp
  have "list_all (\<lambda>c. unat c < 128 \<and> c \<notin> {13, 10, of_char CHR '' '', of_char CHR ''=''}) base64_enc_map"
    by (simp add: base64_enc_values)
  then show "unat (base64_enc_map ! i) < 128" "base64_enc_map ! i \<notin> {13, 10, of_char CHR '' '', of_char CHR ''=''}"
    using assms by (simp_all add: list_all_length)
qed

definition decoded :: "byte \<Rightarrow> byte" where
  "decoded c = mbedtls_base64_table_lookup base64_dec_map (ucast c)"

lemma unat_ucast_byte [simp]: "unat (ucast (c :: byte) :: u64) = unat c"
proof -
  have "unat c < 2 ^ 64" using unsigned_less [of c, where ?'a = nat] by simp
  then show ?thesis by (simp add: unsigned_ucast_eq take_bit_nat_eq_self)
qed

lemma decoded_eq: "decoded c = (if unat c < 128 then base64_dec_map ! unat c else 0)"
  by (simp add: decoded_def table_lookup_correct)

lemma decoded_pad [simp]: "decoded 61 = 64"
  by (simp add: decoded_eq base64_dec_map_def)

lemma encode_digit_ok:
  "decoded (encode_digit v) = ucast (v AND 0x3F)" "encode_digit v \<noteq> 13" "encode_digit v \<noteq> 10" "encode_digit v \<noteq> 32"
  "encode_digit v \<noteq> 61" "\<not> encode_digit v > 127"
proof -
  let ?i = "unat (v AND 0x3F)"
  have i: "?i < 64" using word_and_le1 [of v "0x3F"] by (simp add: word_le_nat_alt)
  have "unat (ucast (v AND 0x3F) :: u64) = ?i" using i by (simp add: unsigned_ucast_eq take_bit_nat_eq_self)
  then have d: "encode_digit v = base64_enc_map ! ?i" using i by (simp add: encode_digit_def table_lookup_correct)
  note digit = digits_inverse [OF i]
  show "decoded (encode_digit v) = ucast (v AND 0x3F)" using digit(1,2) d by (simp add: decoded_eq)
  show "encode_digit v \<noteq> 13" "encode_digit v \<noteq> 10" "encode_digit v \<noteq> 32" "encode_digit v \<noteq> 61" using digit(3) d by simp_all
  show "\<not> encode_digit v > 127" using digit(2) d by (simp add: word_less_nat_alt)
qed

text \<open>One digit and one pad in the second pass.\<close>

definition emit :: "nat \<Rightarrow> u32 \<Rightarrow> u32 \<Rightarrow> bytes \<Rightarrow> bytes option" where
  "emit dlen j x p =
     do { p \<leftarrow> push_byte dlen (j > 0) (ucast (drop_bit 16 x)) p; p \<leftarrow> push_byte dlen (j > 1) (ucast (drop_bit 8 x)) p;
          push_byte dlen (j > 2) (ucast x) p }"

definition add_bits :: "u32 \<Rightarrow> u32 \<Rightarrow> u32" where
  "add_bits x v = push_bit 6 x OR v"

lemma decode_value:
  assumes "decoded c < 64" and "c \<notin> {13, 10, 32}"
  shows "decode_loop dlen (c # src) j n x p =
    (let x = add_bits x (ucast (decoded c)) in if n + 1 = 4 then Option.bind (emit dlen j x p) (decode_loop dlen src j 0 x)
     else decode_loop dlen src j (n + 1) x p)"
proof -
  have "(ucast (decoded c) :: u64) \<noteq> 64" using assms(1) by (auto simp: word_unat_eq_iff word_less_nat_alt)
  moreover have "decoded c AND 0x3F = take_bit 6 (decoded c)" by (simp add: take_bit_eq_mask mask_eq_exp_minus_1)
  moreover have "take_bit 6 (decoded c) = decoded c"
    using assms(1) by (simp add: word_unat_eq_iff word_less_nat_alt unsigned_take_bit_eq take_bit_nat_eq_self)
  ultimately show ?thesis
    using assms(2) by (simp add: decoded_def [symmetric] eq_correct cond_assign_correct [where c = False, simplified] emit_def add_bits_def Let_def Option.bind_assoc)
qed

lemma decode_pad:
  "decode_loop dlen (61 # src) j n x p =
    (let j = j - 1; x = add_bits x 0 in if n + 1 = 4 then Option.bind (emit dlen j x p) (decode_loop dlen src j 0 x)
     else decode_loop dlen src j (n + 1) x p)"
proof -
  have "mbedtls_base64_table_lookup base64_dec_map 61 = 64" using decoded_pad by (simp add: decoded_def)
  then show ?thesis by (simp add: eq_correct cond_assign_correct [where c = True, simplified] emit_def add_bits_def Let_def Option.bind_assoc)
qed

lemma three_bytes:
  fixes b1 b2 b3 :: byte and x :: u32
  defines "C1 \<equiv> ucast b1 :: u32" and "C2 \<equiv> ucast b2 :: u32" and "C3 \<equiv> ucast b3 :: u32"
  defines "y \<equiv> add_bits (add_bits (add_bits (add_bits x (drop_bit 2 C1 AND 0x3F)) ((push_bit 4 (C1 AND 3) + drop_bit 4 C2) AND 0x3F))
    ((push_bit 2 (C2 AND 15) + drop_bit 6 C3) AND 0x3F)) (C3 AND 0x3F)"
  shows "ucast (drop_bit 16 y) = b1" "ucast (drop_bit 8 y) = b2" "ucast y = b3"
proof -
  have eight: "n \<in> {0, 1, 2, 3, 4, 5, 6, 7}" if "n < 8" for n :: nat using that by auto
  have "push_bit 4 (C1 AND 3) + drop_bit 4 C2 = push_bit 4 (C1 AND 3) OR drop_bit 4 C2"
    by (rule disjunctive_add) (auto simp: C1_def C2_def bit_simps dest: bit_imp_le_length)
  moreover have "push_bit 2 (C2 AND 15) + drop_bit 6 C3 = push_bit 2 (C2 AND 15) OR drop_bit 6 C3"
    by (rule disjunctive_add) (auto simp: C2_def C3_def bit_simps dest: bit_imp_le_length)
  ultimately have y: "y = push_bit 6 (push_bit 6 (push_bit 6 (push_bit 6 x OR (drop_bit 2 C1 AND 0x3F)) OR
    ((push_bit 4 (C1 AND 3) OR drop_bit 4 C2) AND 0x3F)) OR ((push_bit 2 (C2 AND 15) OR drop_bit 6 C3) AND 0x3F)) OR (C3 AND 0x3F)"
    by (simp only: y_def add_bits_def)
  show "ucast (drop_bit 16 y) = b1" unfolding y C1_def C2_def C3_def
    by (rule bit_word_eqI) (auto simp: bit_simps dest!: eight; auto simp: numeral_2_eq_2 numeral_3_eq_3 dest: bit_imp_le_length)
  show "ucast (drop_bit 8 y) = b2" unfolding y C1_def C2_def C3_def
    by (rule bit_word_eqI) (auto simp: bit_simps dest!: eight; auto simp: numeral_2_eq_2 numeral_3_eq_3 dest: bit_imp_le_length)
  show "ucast y = b3" unfolding y C1_def C2_def C3_def
    by (rule bit_word_eqI) (auto simp: bit_simps dest!: eight; auto simp: numeral_2_eq_2 numeral_3_eq_3 dest: bit_imp_le_length)
qed

lemma emit_ok:
  "length p + 3 \<le> dlen \<Longrightarrow> emit dlen 3 x p = Some (p @ [ucast (drop_bit 16 x), ucast (drop_bit 8 x), ucast x])"
  "length p + 2 \<le> dlen \<Longrightarrow> emit dlen 2 x p = Some (p @ [ucast (drop_bit 16 x), ucast (drop_bit 8 x)])"
  "length p + 1 \<le> dlen \<Longrightarrow> emit dlen 1 x p = Some (p @ [ucast (drop_bit 16 x)])"
  "emit dlen 0 x p = Some p"
  by (simp_all add: emit_def push_byte_def)

subsection \<open>Encoded messages\<close>

declare decode_loop.simps(2) [simp del]

lemma ucast_small:
  assumes "unat (w :: u32) < 64"
  shows "unat (ucast w :: byte) = unat w" "ucast (ucast w :: byte) = w"
proof -
  show u: "unat (ucast w :: byte) = unat w" using assms by (simp add: unsigned_ucast_eq take_bit_nat_eq_self)
  have "unat (ucast (ucast w :: byte) :: u32) = unat (ucast w :: byte)"
    using assms u by (subst unsigned_ucast_eq) (simp add: take_bit_nat_eq_self)
  then show "ucast (ucast w :: byte) = w" using u by (simp add: word_unat_eq_iff)
qed

lemma decode_digit:
  "decode_loop dlen (encode_digit v # src) j n x p =
    (let x = add_bits x (v AND 0x3F) in if n + 1 = 4 then Option.bind (emit dlen j x p) (decode_loop dlen src j 0 x)
     else decode_loop dlen src j (n + 1) x p)"
proof -
  have "unat (v AND 0x3F) < 64" using word_and_le1 [of v "0x3F"] by (simp add: word_le_nat_alt)
  note small = ucast_small [OF this] this
  show ?thesis
    using decode_value [of "encode_digit v" dlen src j n x p, unfolded encode_digit_ok(1) small(2)] encode_digit_ok(2-4) [of v] small(1,3)
    by (simp only: word_less_nat_alt) simp
qed

lemma decode_encoded:
  "length p + length xs \<le> dlen \<Longrightarrow> decode_loop dlen (encode_loop xs) 3 0 x p = Some (p @ xs)"
proof (induction xs arbitrary: x p rule: encode_loop.induct)
  case (1 b1 b2 b3 src)
  define v1 v2 v3 :: u32 where "v1 = drop_bit 2 (ucast b1)" and "v2 = push_bit 4 (ucast b1 AND 3) + drop_bit 4 (ucast b2)"
    and "v3 = push_bit 2 (ucast b2 AND 15) + drop_bit 6 (ucast b3)"
  note bytes = three_bytes [of x b1 b2 b3, folded v1_def v2_def v3_def]
  have enc: "encode_loop (b1 # b2 # b3 # src) = encode_digit v1 # encode_digit v2 # encode_digit v3 # encode_digit (ucast b3) # encode_loop src"
    by (simp only: encode_loop.simps Let_def v1_def v2_def v3_def)
  have "decode_loop dlen (encode_loop src) 3 0 y (p @ [b1, b2, b3]) = Some ((p @ [b1, b2, b3]) @ src)" for y
    using 1 by (intro "1.IH") simp_all
  then show ?case using 1(2) unfolding enc by (simp add: decode_digit emit_ok Let_def bytes)
next
  case (2 b1 b2)
  define v1 v2 v3 :: u32 where "v1 = drop_bit 2 (ucast b1)" and "v2 = push_bit 4 (ucast b1 AND 3) + drop_bit 4 (ucast b2)"
    and "v3 = push_bit 2 (ucast b2 AND 15)"
  have "v3 = push_bit 2 (ucast b2 AND 15) + drop_bit 6 (ucast (0 :: byte))" by (simp add: v3_def)
  note bytes = three_bytes [of x b1 b2 0, folded v1_def v2_def, folded this]
  have enc: "encode_loop [b1, b2] = [encode_digit v1, encode_digit v2, encode_digit v3, 61]" by (simp add: v1_def v2_def v3_def Let_def)
  show ?case using 2 bytes unfolding enc by (simp add: decode_digit decode_pad emit_ok Let_def)
next
  case (3 b1)
  define v1 v2 :: u32 where "v1 = drop_bit 2 (ucast b1)" and "v2 = push_bit 4 (ucast b1 AND 3)"
  have "v2 = push_bit 4 (ucast b1 AND 3) + drop_bit 4 (ucast (0 :: byte))" by (simp add: v2_def)
  note bytes = three_bytes [of x b1 0 0, folded v1_def, folded this]
  have enc: "encode_loop [b1] = [encode_digit v1, encode_digit v2, 61, 61]" by (simp add: v1_def v2_def Let_def)
  show ?case using 3 bytes unfolding enc by (simp add: decode_digit decode_pad emit_ok Let_def)
next
  case 4
  then show ?case by simp
qed

text \<open>The first pass over an encoded message.\<close>

lemma check_nil: "check_loop [] n j = Inr (n, j)"
  by (simp add: check_loop.simps)

lemma check_value:
  assumes "decoded c < 64" and "c \<notin> {13, 10, 32, 61}" and "\<not> c > 127"
  shows "check_loop (c # cs) n 0 = check_loop cs (n + 1) 0"
proof -
  have "decoded c \<noteq> 127" using assms(1) by auto
  then show ?thesis using assms by (subst check_loop.simps) (simp add: decoded_def [symmetric])
qed

lemma check_pad: "j < 2 \<Longrightarrow> check_loop (61 # cs) n j = check_loop cs (n + 1) (j + 1)"
  by (subst check_loop.simps) (simp add: decoded_def [symmetric, of 61, simplified])

lemma check_digit: "check_loop (encode_digit v # cs) n 0 = check_loop cs (n + 1) 0"
proof -
  have "unat (v AND 0x3F) < 64" using word_and_le1 [of v "0x3F"] by (simp add: word_le_nat_alt)
  then have "decoded (encode_digit v) < 64" using ucast_small(1) encode_digit_ok(1) [of v] by (simp only: word_less_nat_alt) simp
  then show ?thesis using encode_digit_ok(2-6) [of v] by (intro check_value) simp_all
qed

lemma length_encode_loop: "length (encode_loop xs) = 4 * ((length xs + 2) div 3)"
proof (induction xs rule: encode_loop.induct)
  case (1 b1 b2 b3 src)
  have "(length (b1 # b2 # b3 # src) + 2) div 3 = (length src + 2) div 3 + 1" by simp
  then show ?case using 1 by (simp add: Let_def)
qed (simp_all add: Let_def)

lemma three_more: "length (b1 # b2 # b3 # src) mod 3 = length src mod 3"
  by simp

lemma check_encoded: "check_loop (encode_loop xs) n 0 = Inr (n + length (encode_loop xs), (3 - length xs mod 3) mod 3)"
proof (induction xs arbitrary: n rule: encode_loop.induct)
  case (1 b1 b2 b3 src)
  then show ?case unfolding three_more by (simp add: Let_def check_digit)
qed (simp_all add: Let_def check_digit check_pad check_nil)

lemma last_encode_loop: "xs \<noteq> [] \<Longrightarrow> encode_loop xs \<noteq> [] \<and> (last (encode_loop xs) = 61 \<longleftrightarrow> length xs mod 3 \<noteq> 0)"
proof (induction xs rule: encode_loop.induct)
  case (1 b1 b2 b3 src)
  then show ?case unfolding three_more by (cases "src = []") (simp_all add: Let_def encode_digit_ok(5))
qed (simp_all add: Let_def)

lemma encode_loop_nonzero: "0 \<notin> set (encode_loop xs)"
proof -
  have "encode_digit v \<noteq> 0" for v
  proof
    assume "encode_digit v = 0"
    then have "ucast (v AND 0x3F) = decoded 0" using encode_digit_ok(1) [of v] by simp
    moreover have "decoded 0 = 127" by (simp add: decoded_eq base64_dec_map_def)
    moreover have "unat (v AND 0x3F) < 64" using word_and_le1 [of v "0x3F"] by (simp add: word_le_nat_alt)
    ultimately show False using ucast_small(1) [of "v AND 0x3F"] by simp
  qed
  then show ?thesis by (induction xs rule: encode_loop.induct) (auto simp: Let_def dest: sym)
qed

text \<open>The length the first pass computes.\<close>

lemma decoded_length: "6 * (n div 8) + (6 * (n mod 8) + 7) div 8 = (6 * n + 7) div (8 :: nat)"
proof -
  obtain q r where n: "n = 8 * q + r" "r < 8" by (metis mod_less_divisor mult_div_mod_eq zero_less_numeral)
  then have "6 * n + 7 = (6 * r + 7) + 8 * (6 * q)" by simp
  then have "(6 * n + 7) div 8 = (6 * r + 7) div 8 + 6 * q" by (metis add.commute div_mult_self2 zero_neq_numeral)
  then show ?thesis using n by simp
qed

lemma nonempty_round_trip:
  assumes "msg \<noteq> []" and "length msg < 2 ^ 60"
  shows "\<exists>str. base64_string msg = Some str \<and>
    crypto_base64_decode str = Some (if length msg = 2 then (0, None) else (length msg, Some msg))"
proof -
  let ?e = "encode_loop msg" and ?m = "(length msg + 2) div 3" and ?j = "(3 - length msg mod 3) mod 3"
  obtain q r where qr: "length msg = 3 * q + r" "r = 0 \<or> r = 1 \<or> r = 2"
  proof (rule that)
    show "length msg = 3 * (length msg div 3) + length msg mod 3" by simp
    show "length msg mod 3 = 0 \<or> length msg mod 3 = 1 \<or> length msg mod 3 = 2" by linarith
  qed
  have n: "length msg div 3 + (if length msg mod 3 \<noteq> 0 then 1 else 0) = ?m" using qr by auto
  have "takeWhile (\<lambda>c. c \<noteq> 0) (?e @ [0]) = ?e" using encode_loop_nonzero [of msg] by (subst takeWhile_append2) auto
  moreover have "\<not> ?m > (2 ^ 64 - 1 - 1) div 4" using assms(2) by simp
  ultimately have str: "base64_string msg = Some ?e"
    using assms(1) n by (simp add: base64_string_def mbedtls_base64_encode_def Let_def)
  have need: "((6 * (4 * ?m) + 7) div 8 + 2 ^ 64 - ?j) mod 2 ^ 64 = length msg"
  proof -
    have "(6 * (4 * ?m) + 7) div 8 = 3 * ?m" by simp
    moreover have "3 * ?m = length msg + ?j" using qr by auto
    ultimately have "(6 * (4 * ?m) + 7) div 8 + 2 ^ 64 - ?j = length msg + 2 ^ 64" by simp
    then show ?thesis using assms(2) by simp
  qed
  have check: "check_loop ?e 0 0 = Inr (4 * ?m, ?j)" using check_encoded [of msg 0] unfolding length_encode_loop by simp
  have pos: "(4 * ?m = 0) = False" using last_encode_loop [OF assms(1)] unfolding length_encode_loop [symmetric] by simp
  have dec: "mbedtls_base64_decode dlen ?e = Some (if dlen < length msg then (- 0x2A, length msg, []) else (0, length msg, msg))" for dlen
    unfolding mbedtls_base64_decode_def check sum.case prod.case decoded_length pos if_False Let_def need
    using decode_encoded [of "[]" msg dlen 0] by simp
  have last: "?e \<noteq> []" "?e ! (length ?e - 1) = 61 \<longleftrightarrow> length msg mod 3 \<noteq> 0"
    using last_encode_loop [OF assms(1)] last_conv_nth [of ?e] by auto
  let ?pad = "if length msg mod 3 \<noteq> 0 then 1 else 0 :: nat"
  have len: "(length ?e + 3) div 4 = ?m" "length ?e mod 4 = 0" by (simp_all add: length_encode_loop)
  have buffer: "(?m - ?pad) * 4 + 1 < length msg \<longleftrightarrow> length msg = 2" using qr assms(1) by (auto; presburger)
  have "crypto_base64_decode ?e = Some (if length msg = 2 then (0, None) else (length msg, Some msg))"
    using last len dec [of "(?m - ?pad) * 4 + 1"] buffer assms(1) by (simp add: crypto_base64_decode_def)
  with str show ?thesis by blast
qed

text \<open>
  C18: what the library encodes it decodes to the message again, with two exceptions.  A message of two
  bytes is encoded, but the buffer it is decoded into is too small by one byte and the result is no
  message.  For an empty message the encoder writes nothing into its buffer of one byte, and the string
  it returns is not defined.
\<close>

theorem base64_round_trip:
  assumes "length msg < 2 ^ 60"
  shows "if msg = [] then base64_string msg = None
    else \<exists>str. base64_string msg = Some str \<and>
      crypto_base64_decode str = Some (if length msg = 2 then (0, None) else (length msg, Some msg))"
  using nonempty_round_trip [OF _ assms] by (simp add: base64_string_def mbedtls_base64_encode_def)

theorem base64_round_trip_witness:
  "\<exists>str. base64_string [1, 2, 3, 4] = Some str \<and> crypto_base64_decode str = Some (4, Some [1, 2, 3, 4])"
proof -
  obtain str where "base64_string [1, 2, 3, 4] = Some str" "crypto_base64_decode str = Some (Suc (Suc (Suc (Suc 0))), Some [1, 2, 3, 4])"
    using base64_round_trip [of "[1, 2, 3, 4]"] by (auto split: if_splits)
  then show ?thesis by (simp add: eval_nat_numeral)
qed

subsection \<open>The buffer of the decoder\<close>

text \<open>White space is skipped in the second pass, and the first pass accepts digits followed by at most two pads.\<close>

definition solid :: "bytes \<Rightarrow> bytes" where
  "solid src = filter (\<lambda>c. c \<notin> {13, 10, 32}) src"

lemma solid_simps [simp]:
  "solid [] = []" "solid (c # src) = (if c \<in> {13, 10, 32} then solid src else c # solid src)"
  by (simp_all add: solid_def)

lemma solid_spaces: "solid (dropWhile (\<lambda>c. c = 32) src) = solid src"
  by (induction src) simp_all

lemma decode_solid: "decode_loop dlen src j n x p = decode_loop dlen (solid src) j n x p"
proof (induction src arbitrary: j n x p)
  case Nil
  then show ?case by simp
next
  case (Cons c src)
  have "decode_loop dlen src = decode_loop dlen (solid src)" using Cons by (intro ext)
  then show ?case by (simp add: decode_loop.simps(2) Let_def)
qed

lemma decoded_cases:
  assumes "unat c < 128"
  shows "decoded c = 127 \<or> decoded c < 64 \<or> c = 61"
proof -
  have "list_all (\<lambda>(i, v). v = 127 \<or> v < 64 \<or> i = 61) (enumerate 0 base64_dec_map)"
    by (simp add: base64_dec_map_def enumerate_eq_zip upt_rec)
  then have "base64_dec_map ! unat c = 127 \<or> base64_dec_map ! unat c < 64 \<or> unat c = 61"
    using assms by (auto simp: list_all_length nth_enumerate_eq)
  then show ?thesis using assms by (auto simp: decoded_eq word_unat_eq_iff)
qed

lemma check_solid:
  assumes "check_loop src n j = Inr (n', j')"
  shows "\<exists>vs. solid src = vs @ replicate (j' - j) 61 \<and> (\<forall>c\<in>set vs. decoded c < 64) \<and> (j \<noteq> 0 \<longrightarrow> vs = []) \<and>
    n' = n + length vs + (j' - j) \<and> j \<le> j' \<and> (j \<le> 2 \<longrightarrow> j' \<le> 2)"
  using assms
proof (induction src n j rule: check_loop.induct)
  case (1 src n j)
  show ?case
  proof (cases "dropWhile (\<lambda>c. c = of_char CHR '' '') src")
    case Nil
    then have "solid src = []" using solid_spaces [of src] by (simp del: dropWhile_eq_Nil_conv)
    then show ?thesis using "1.prems" Nil by (subst (asm) check_loop.simps) (simp del: dropWhile_eq_Nil_conv)
  next
    case (Cons c cs)
    have skip: "solid src = solid (c # cs)" using Cons solid_spaces [of src] by simp
    show ?thesis
    proof (cases "(cs \<noteq> [] \<and> c = 13 \<and> hd cs = 10) \<or> c = 10")
      case True
      then have "check_loop cs n j = Inr (n', j')" using "1.prems" Cons by (subst (asm) check_loop.simps) (auto split: if_splits)
      moreover have "solid src = solid cs" using skip True by auto
      ultimately show ?thesis using "1.IH"(1,2) [OF Cons] True by metis
    next
      case False
      let ?j = "if c = 61 then j + 1 else j"
      have valid: "hd src \<noteq> 32" "\<not> (c = 61 \<and> ?j > 2)" "\<not> (c > 127 \<or> decoded c = 127)" "\<not> (decoded c < 64 \<and> ?j \<noteq> 0)"
          "check_loop cs (n + 1) ?j = Inr (n', j')"
        using "1.prems" Cons False by (subst (asm) check_loop.simps, auto simp: decoded_def Let_def split: if_splits)+
      have c: "unat c < 128" using valid(3) by (simp add: word_less_nat_alt)
      have "c \<noteq> 13" using valid(3) by (auto simp: decoded_eq base64_dec_map_def)
      moreover have "c \<noteq> 32" using valid(3) by (auto simp: decoded_eq base64_dec_map_def)
      ultimately have src: "solid src = c # solid cs" using skip False by auto
      obtain vs where vs: "solid cs = vs @ replicate (j' - ?j) 61" "\<forall>c\<in>set vs. decoded c < 64" "?j \<noteq> 0 \<longrightarrow> vs = []"
          "n' = (n + 1) + length vs + (j' - ?j)" "?j \<le> j'" "?j \<le> 2 \<longrightarrow> j' \<le> 2"
        using "1.IH"(3) [OF Cons _ _ _ refl _ refl] False valid by (auto simp: decoded_def)
      show ?thesis
      proof (cases "c = 61")
        case True
        then have "solid src = [] @ replicate (j' - j) 61" using src vs(1,3,5) by (simp add: Suc_diff_le replicate_Suc [symmetric] del: replicate_Suc)
        then show ?thesis using True vs(3-6) valid(2) by (intro exI [of _ "[]"]) auto
      next
        case other: False
        then have "decoded c < 64" using decoded_cases [OF c] valid(3) by auto
        then show ?thesis using other vs src valid(4) by (intro exI [of _ "c # vs"]) auto
      qed
    qed
  qed
qed

text \<open>Digits write three bytes per group of four; pads write the rest of a group.\<close>

lemma emit_3: "length p + 3 \<le> dlen \<Longrightarrow> \<exists>q. emit dlen 3 x p = Some q \<and> length q = length p + 3"
  by (simp add: emit_ok)

lemma decode_values:
  assumes "\<forall>c\<in>set vs. decoded c < 64 \<and> c \<notin> {13, 10, 32}" and "n < 4" and "length p + 3 * ((n + length vs) div 4) \<le> dlen"
  shows "\<exists>y q. decode_loop dlen (vs @ rest) 3 n x p = decode_loop dlen rest 3 ((n + length vs) mod 4) y q \<and>
    length q = length p + 3 * ((n + length vs) div 4)"
  using assms
proof (induction vs arbitrary: n x p)
  case Nil
  then show ?case by auto
next
  case (Cons c vs)
  have c: "decoded c < 64" "c \<notin> {13, 10, 32}" using Cons.prems(1) by simp_all
  let ?x = "add_bits x (ucast (decoded c))"
  show ?case
  proof (cases "n = 3")
    case True
    have "(n + length (c # vs)) div 4 = 1 + length vs div 4" "(n + length (c # vs)) mod 4 = length vs mod 4" using True by simp_all
    moreover obtain q where q: "emit dlen 3 ?x p = Some q" "length q = length p + 3" using emit_3 [of p dlen ?x] Cons.prems(3) calculation by auto
    moreover obtain y q' where "decode_loop dlen (vs @ rest) 3 0 ?x q = decode_loop dlen rest 3 (length vs mod 4) y q'"
        "length q' = length q + 3 * (length vs div 4)"
      using Cons.IH [of 0 q ?x] Cons.prems(1,3) calculation by auto
    ultimately show ?thesis using True decode_value [OF c, of dlen "vs @ rest" 3 n x p]
      by (intro exI [of _ y] exI [of _ q']) simp
  next
    case False
    then show ?thesis using Cons.IH [of "n + 1" p ?x] Cons.prems decode_value [OF c, of dlen "vs @ rest" 3 n x p] by auto
  qed
qed

lemma decode_pads:
  assumes "r \<le> 2" and "n < 4"
    and "length p + (if r \<ge> 1 \<and> n = 3 then 2 else if r = 2 \<and> n = 2 then 1 else 0) \<le> dlen"
  shows "\<exists>q. decode_loop dlen (replicate r 61) 3 n x p = Some q \<and> length q \<le> dlen"
proof -
  have "r = 0 \<or> r = 1 \<or> r = 2" using assms(1) by auto
  then show ?thesis
    using assms(2,3) by (elim disjE) (auto simp: decode_pad Let_def numeral_2_eq_2 emit_ok [unfolded numeral_2_eq_2] split: if_splits)
qed

text \<open>
  C19: the decoder is safe on every input: it never writes behind the end of its buffer, whatever the
  length of the buffer is and whatever the input contains.
\<close>

theorem base64_decode_in_bounds:
  assumes "length src < 2 ^ 60"
  shows "\<exists>ret olen out. mbedtls_base64_decode dlen src = Some (ret, olen, out) \<and> length out \<le> dlen"
proof (cases "check_loop src 0 0")
  case (Inl err)
  then show ?thesis by (simp add: mbedtls_base64_decode_def)
next
  case (Inr nj)
  obtain n j where nj: "nj = (n, j)" by fastforce
  obtain vs where vs: "solid src = vs @ replicate j 61" "\<forall>c\<in>set vs. decoded c < 64" "n = length vs + j" "j \<le> 2"
    using check_solid [OF Inr [unfolded nj]] by auto
  have digits: "\<forall>c\<in>set vs. decoded c < 64 \<and> c \<notin> {13, 10, 32}"
    using arg_cong [OF vs(1), of set] vs(2) by (auto simp: solid_def)
  have "length (solid src) \<le> length src" by (simp add: solid_def)
  then have small: "n < 2 ^ 60" using vs(1,3) assms by simp
  obtain q m where k: "length vs = 4 * q + m" "m = 0 \<or> m = 1 \<or> m = 2 \<or> m = 3"
  proof (rule that)
    show "length vs = 4 * (length vs div 4) + length vs mod 4" by simp
    show "length vs mod 4 = 0 \<or> length vs mod 4 = 1 \<or> length vs mod 4 = 2 \<or> length vs mod 4 = 3" by linarith
  qed
  let ?w = "if j \<ge> 1 \<and> m = 3 then 2 else if j = 2 \<and> m = 2 then 1 else 0"
  have "j = 0 \<or> j = 1 \<or> j = 2" using vs(4) by auto
  then have need: "3 * q + ?w + j \<le> (6 * n + 7) div 8" using k vs(3) by auto
  then have "(6 * n + 7) div 8 + 2 ^ 64 - j = ((6 * n + 7) div 8 - j) + 2 ^ 64" by linarith
  moreover have "(6 * n + 7) div 8 < (2 :: nat) ^ 64" using small by simp
  then have "(6 * n + 7) div 8 - j < (2 :: nat) ^ 64" by (rule le_less_trans [OF diff_le_self])
  ultimately have len: "((6 * n + 7) div 8 + 2 ^ 64 - j) mod 2 ^ 64 = (6 * n + 7) div 8 - j" by (simp only: mod_add_self2 mod_less)
  show ?thesis
  proof (cases "n = 0 \<or> dlen < (6 * n + 7) div 8 - j")
    case True
    then show ?thesis using Inr nj len by (auto simp: mbedtls_base64_decode_def decoded_length)
  next
    case False
    then have room: "3 * q + ?w \<le> dlen" using need by linarith
    have m: "(0 + length vs) div 4 = q" "(0 + length vs) mod 4 = m" "m < 4" using k by auto
    obtain y p where p: "decode_loop dlen (vs @ replicate j 61) 3 0 0 [] = decode_loop dlen (replicate j 61) 3 m y p" "length p = 3 * q"
      using decode_values [OF digits, of 0 "[]" dlen "replicate j 61" 0] room m by auto
    obtain out where "decode_loop dlen (replicate j 61) 3 m y p = Some out" "length out \<le> dlen"
      using decode_pads [OF vs(4) m(3), of p dlen y] room p(2) by auto
    then show ?thesis using Inr nj len False p(1) vs(1) decode_solid [of dlen src 3 0 0 "[]"] by (auto simp: mbedtls_base64_decode_def decoded_length)
  qed
qed

theorem base64_decode_in_bounds_witness:
  "\<exists>ret olen out. mbedtls_base64_decode 1 [81, 81, 61, 61] = Some (ret, olen, out) \<and> length out \<le> 1"
  by (rule base64_decode_in_bounds) simp

end
