(* ===== verification/Exported.thy ===== *)
theory Exported
  imports Files Account
begin

section \<open>The exported cryptography\<close>

text \<open>
  The calls of \<open>src/crypto.c\<close> that select an algorithm by the pack id, and the functions of
  \<open>src/e2ees_crypto.c\<close> that an application calls for hashing, signatures, key encapsulation and
  encryption outside of a session.  An out argument that a call leaves as it is, is an argument of the
  model; the packing of a key pair is generated code and a parameter.
\<close>

subsection \<open>Calls by pack id (src/crypto.c)\<close>

text \<open>The return code of the hash function is not read.\<close>

definition crypto_hash_by_e2ees_pack_id :: "prims \<Rightarrow> u32 \<Rightarrow> bytes \<Rightarrow> (int \<times> (bytes \<times> nat) option) option" where
  "crypto_hash_by_e2ees_pack_id P e2ees_pack_id_raw msg =
     (let e2ees_pack_id = raw_to_e2ees_pack_id e2ees_pack_id_raw in
      case get_hf_suite P (ucast (pid_hash e2ees_pack_id)) of
        None \<Rightarrow> Some (E2EES_RESULT_FAIL, None)
      | Some hf_suite \<Rightarrow>
          do { param \<leftarrow> deref (hf_get_param hf_suite);
               hash \<leftarrow> deref (hf_hash hf_suite);
               (_, out) \<leftarrow> hash msg;
               hash_out \<leftarrow> fill (hfp_hf_len param) out;
               Some (E2EES_RESULT_SUCC, Some (hash_out, hfp_hf_len param)) })"

definition crypto_ds_key_gen_by_e2ees_pack_id ::
    "prims \<Rightarrow> u32 \<Rightarrow> bdata \<Rightarrow> bdata \<Rightarrow> seed \<Rightarrow> (int \<times> bdata \<times> bdata \<times> seed) option" where
  "crypto_ds_key_gen_by_e2ees_pack_id P e2ees_pack_id_raw pub_key priv_key s =
     (let e2ees_pack_id = raw_to_e2ees_pack_id e2ees_pack_id_raw in
      case get_ds_suite P (ucast (pid_ds e2ees_pack_id)) of
        None \<Rightarrow> Some (E2EES_RESULT_FAIL, pub_key, priv_key, s)
      | Some digital_signature_suite \<Rightarrow>
          do { key_gen \<leftarrow> deref (ds_key_gen digital_signature_suite);
               (result, pub_key, priv_key, s) \<leftarrow> key_gen s;
               if result < 0 then Some (E2EES_RESULT_FAIL, free_protobuf pub_key, free_protobuf priv_key, s)
               else Some (E2EES_RESULT_SUCC, pub_key, priv_key, s) })"

text \<open>
  The signature is written into a buffer of the announced length; its own length may be smaller.  On a
  failure the buffer is released and the length is what the signature function has set.
\<close>

definition crypto_ds_sign_by_e2ees_pack_id ::
    "prims \<Rightarrow> u32 \<Rightarrow> bytes ptr \<Rightarrow> nat \<Rightarrow> bytes \<Rightarrow> bytes ptr \<Rightarrow> nat \<Rightarrow> seed \<Rightarrow> (int \<times> bytes ptr \<times> nat \<times> seed) option" where
  "crypto_ds_sign_by_e2ees_pack_id P e2ees_pack_id_raw signature_out signature_out_len msg private_key private_key_len s =
     (let e2ees_pack_id = raw_to_e2ees_pack_id e2ees_pack_id_raw in
      case get_ds_suite P (ucast (pid_ds e2ees_pack_id)) of
        None \<Rightarrow> Some (E2EES_RESULT_FAIL, signature_out, signature_out_len, s)
      | Some digital_signature_suite \<Rightarrow>
          if private_key = None then Some (E2EES_RESULT_FAIL, signature_out, signature_out_len, s)
          else
            do { param \<leftarrow> deref (ds_get_param digital_signature_suite);
                 if private_key_len \<noteq> dsp_sign_priv_key_len param
                 then Some (E2EES_RESULT_FAIL, signature_out, signature_out_len, s)
                 else
                   do { sign \<leftarrow> deref (ds_sign digital_signature_suite);
                        key \<leftarrow> read_bytes private_key private_key_len;
                        (result, sig, s) \<leftarrow> sign s msg (Some key);
                        if length sig > dsp_sig_len param then None
                        else if result < 0 then Some (E2EES_RESULT_FAIL, None, length sig, s)
                        else Some (E2EES_RESULT_SUCC, Some sig, length sig, s) } })"

definition crypto_ds_verify_by_e2ees_pack_id :: "prims \<Rightarrow> u32 \<Rightarrow> bytes \<Rightarrow> bytes \<Rightarrow> bytes ptr \<Rightarrow> nat \<Rightarrow> int option" where
  "crypto_ds_verify_by_e2ees_pack_id P e2ees_pack_id_raw signature_in msg public_key public_key_len =
     (let e2ees_pack_id = raw_to_e2ees_pack_id e2ees_pack_id_raw in
      case get_ds_suite P (ucast (pid_ds e2ees_pack_id)) of
        None \<Rightarrow> Some E2EES_RESULT_FAIL
      | Some digital_signature_suite \<Rightarrow>
          if public_key = None then Some E2EES_RESULT_FAIL
          else
            do { param \<leftarrow> deref (ds_get_param digital_signature_suite);
                 if public_key_len \<noteq> dsp_sign_pub_key_len param then Some E2EES_RESULT_FAIL
                 else
                   do { verify \<leftarrow> deref (ds_verify digital_signature_suite);
                        key \<leftarrow> read_bytes public_key public_key_len;
                        result \<leftarrow> verify signature_in msg (Some key);
                        Some (if result < 0 then E2EES_RESULT_FAIL else E2EES_RESULT_SUCC) } })"

definition crypto_kem_key_gen_by_e2ees_pack_id ::
    "prims \<Rightarrow> u32 \<Rightarrow> bdata \<Rightarrow> bdata \<Rightarrow> seed \<Rightarrow> (int \<times> bdata \<times> bdata \<times> seed) option" where
  "crypto_kem_key_gen_by_e2ees_pack_id P e2ees_pack_id_raw pub_key priv_key s =
     (let e2ees_pack_id = raw_to_e2ees_pack_id e2ees_pack_id_raw in
      case get_kem_suite P (ucast (pid_kem e2ees_pack_id)) of
        None \<Rightarrow> Some (E2EES_RESULT_FAIL, pub_key, priv_key, s)
      | Some kem_suite \<Rightarrow>
          do { key_gen \<leftarrow> deref (kem_asym_key_gen kem_suite);
               (result, pub_key, priv_key, s) \<leftarrow> key_gen s;
               if result < 0 then Some (E2EES_RESULT_FAIL, free_protobuf pub_key, free_protobuf priv_key, s)
               else Some (E2EES_RESULT_SUCC, pub_key, priv_key, s) })"

text \<open>The results of an encapsulation: the return code, the secret, the ciphertext and its length.\<close>

definition crypto_kem_encaps_by_e2ees_pack_id ::
    "prims \<Rightarrow> u32 \<Rightarrow> bytes ptr \<Rightarrow> bytes ptr \<Rightarrow> nat \<Rightarrow> bytes ptr \<Rightarrow> nat \<Rightarrow> seed \<Rightarrow>
     (int \<times> bytes ptr \<times> bytes ptr \<times> nat \<times> seed) option" where
  "crypto_kem_encaps_by_e2ees_pack_id P e2ees_pack_id_raw shared_secret ciphertext ciphertext_len their_key their_key_len s =
     (let e2ees_pack_id = raw_to_e2ees_pack_id e2ees_pack_id_raw in
      case get_kem_suite P (ucast (pid_kem e2ees_pack_id)) of
        None \<Rightarrow> Some (E2EES_RESULT_FAIL, shared_secret, ciphertext, ciphertext_len, s)
      | Some kem_suite \<Rightarrow>
          if their_key = None then Some (E2EES_RESULT_FAIL, shared_secret, ciphertext, ciphertext_len, s)
          else
            do { param \<leftarrow> deref (kem_get_param kem_suite);
                 if their_key_len \<noteq> kp_asym_pub_key_len param
                 then Some (E2EES_RESULT_FAIL, shared_secret, ciphertext, ciphertext_len, s)
                 else
                   do { let tk_proto = \<lparr>pb_len = their_key_len, pb_data = their_key\<rparr>;
                        encaps \<leftarrow> deref (kem_encaps kem_suite);
                        (result, ss, ct_proto, s) \<leftarrow> encaps s tk_proto;
                        if result < 0 then Some (E2EES_RESULT_FAIL, None, ciphertext, ciphertext_len, s)
                        else do { ss \<leftarrow> fill (kp_shared_secret_len param) ss;
                                  Some (E2EES_RESULT_SUCC, Some ss, pb_data ct_proto, pb_len ct_proto, s) } } })"

definition crypto_kem_decaps_by_e2ees_pack_id ::
    "prims \<Rightarrow> u32 \<Rightarrow> bytes ptr \<Rightarrow> bytes ptr \<Rightarrow> nat \<Rightarrow> bytes ptr \<Rightarrow> nat \<Rightarrow> (int \<times> bytes ptr) option" where
  "crypto_kem_decaps_by_e2ees_pack_id P e2ees_pack_id_raw shared_secret our_key our_key_len ciphertext ciphertext_len =
     (let e2ees_pack_id = raw_to_e2ees_pack_id e2ees_pack_id_raw in
      case get_kem_suite P (ucast (pid_kem e2ees_pack_id)) of
        None \<Rightarrow> Some (E2EES_RESULT_FAIL, shared_secret)
      | Some kem_suite \<Rightarrow>
          do { param \<leftarrow> deref (kem_get_param kem_suite);
               if our_key = None \<or> our_key_len \<noteq> kp_asym_priv_key_len param then Some (E2EES_RESULT_FAIL, shared_secret)
               else if ciphertext = None \<or> ciphertext_len \<noteq> kp_kem_ciphertext_len param then Some (E2EES_RESULT_FAIL, shared_secret)
               else
                 do { let ok_proto = \<lparr>pb_len = our_key_len, pb_data = our_key\<rparr>;
                      let ct_proto = \<lparr>pb_len = ciphertext_len, pb_data = ciphertext\<rparr>;
                      decaps \<leftarrow> deref (kem_decaps kem_suite);
                      (result, ss) \<leftarrow> decaps ok_proto ct_proto;
                      if result < 0 then Some (E2EES_RESULT_FAIL, None)
                      else do { ss \<leftarrow> fill (kp_shared_secret_len param) ss; Some (E2EES_RESULT_SUCC, Some ss) } } })"

subsection \<open>Encryption (src/e2ees_crypto.c)\<close>

text \<open>
  The return code of the encryption is dropped, so that a failure leaves the caller with the contents
  of a fresh allocation, \<open>fresh\<close>.
\<close>

definition e2ees_encrypt_gcm ::
    "prims \<Rightarrow> (nat \<Rightarrow> bytes) \<Rightarrow> bytes \<Rightarrow> bytes ptr \<Rightarrow> bytes ptr \<Rightarrow> bytes \<Rightarrow> (nat \<times> bytes) option" where
  "e2ees_encrypt_gcm P fresh plaintext password iv add =
     do { let out_data_len = crypto_aes256_gcm_ciphertext_data_len (length plaintext);
          password \<leftarrow> read_bytes password AES256_KEY_LENGTH;
          iv \<leftarrow> read_bytes iv AES256_IV_LENGTH;
          (_, ciphertext) \<leftarrow> crypto_aes_encrypt_gcm P plaintext password iv add (fresh out_data_len);
          Some (out_data_len, ciphertext) }"

definition e2ees_decrypt_gcm :: "prims \<Rightarrow> bytes \<Rightarrow> bytes ptr \<Rightarrow> bytes ptr \<Rightarrow> bytes \<Rightarrow> (nat \<times> bytes) option" where
  "e2ees_decrypt_gcm P ciphertext password iv add =
     do { password \<leftarrow> read_bytes password AES256_KEY_LENGTH;
          iv \<leftarrow> read_bytes iv AES256_IV_LENGTH;
          (_, plaintext, out_data_len) \<leftarrow> crypto_aes_decrypt_gcm P ciphertext password iv add;
          Some (out_data_len, plaintext) }"

definition e2ees_encrypt_data :: "block_cipher \<Rightarrow> bytes \<Rightarrow> bytes ptr \<Rightarrow> nat \<Rightarrow> bytes ptr \<Rightarrow> (nat \<times> bytes ptr) option" where
  "e2ees_encrypt_data bc plaintext password password_len ciphertext =
     (if password_len \<noteq> AES256_KEY_LENGTH then Some (0, ciphertext)
      else do { key \<leftarrow> read_bytes password AES256_KEY_LENGTH; Some (crypto_encrypt_aes_data bc plaintext key) })"

definition e2ees_decrypt_data :: "block_cipher \<Rightarrow> bytes \<Rightarrow> bytes ptr \<Rightarrow> nat \<Rightarrow> bytes ptr \<Rightarrow> (nat \<times> bytes ptr) option" where
  "e2ees_decrypt_data bc ciphertext_data password password_len plaintext =
     (if password_len \<noteq> AES256_KEY_LENGTH then Some (0, plaintext)
      else do { key \<leftarrow> read_bytes password AES256_KEY_LENGTH; crypto_decrypt_aes_data bc ciphertext_data key })"

text \<open>
  Both file functions first print the password with the format \<open>%s\<close>, which reads up to a zero byte
  whatever the length is: \<open>printed\<close> is what reaches the standard output, \<open>None\<close> a read behind the
  buffer.
\<close>

definition printed :: "bytes ptr \<Rightarrow> bytes option" where
  "printed p = (case p of Some bs \<Rightarrow> (if 0 \<in> set bs then Some (takeWhile (\<lambda>b. b \<noteq> 0) bs) else None) | None \<Rightarrow> None)"

definition e2ees_encrypt_file ::
    "block_cipher \<Rightarrow> prims \<Rightarrow> file_env \<Rightarrow> file_system \<Rightarrow> bytes ptr \<Rightarrow> nat \<Rightarrow> cstr \<Rightarrow> cstr \<Rightarrow> (bool \<times> file_system \<times> bytes) option" where
  "e2ees_encrypt_file bc P E fs password password_len in_file_path out_file_path =
     do { out \<leftarrow> printed password;
          (succ, fs) \<leftarrow> crypto_encrypt_file bc P E fs in_file_path out_file_path password password_len;
          Some (succ = 0, fs, out) }"

definition e2ees_decrypt_file ::
    "block_cipher \<Rightarrow> prims \<Rightarrow> file_env \<Rightarrow> file_system \<Rightarrow> bytes ptr \<Rightarrow> nat \<Rightarrow> cstr \<Rightarrow> cstr \<Rightarrow> (bool \<times> file_system \<times> bytes) option" where
  "e2ees_decrypt_file bc P E fs password password_len in_file_path out_file_path =
     do { out \<leftarrow> printed password;
          (succ, fs) \<leftarrow> crypto_decrypt_file bc P E fs in_file_path out_file_path password password_len;
          Some (succ = 0, fs, out) }"

subsection \<open>Hashing, signatures and encapsulation (src/e2ees_crypto.c)\<close>

definition e2ees_hash :: "prims \<Rightarrow> u32 \<Rightarrow> bytes \<Rightarrow> bytes ptr \<Rightarrow> (nat \<times> bytes ptr) option" where
  "e2ees_hash P e2ees_pack_id msg hash_out =
     do { (result, out) \<leftarrow> crypto_hash_by_e2ees_pack_id P e2ees_pack_id msg;
          if result \<ge> 0 then do { (hash, hash_out_len) \<leftarrow> out; Some (hash_out_len, Some hash) }
          else Some (0, hash_out) }"

text \<open>The generated \<open>e2ees__key_pair__pack\<close> on the public and the private key.\<close>

type_synonym key_pair_pack = "bdata \<Rightarrow> bdata \<Rightarrow> bytes"

definition e2ees_ds_gen_key_pair :: "key_pair_pack \<Rightarrow> prims \<Rightarrow> u32 \<Rightarrow> seed \<Rightarrow> (nat \<times> bytes ptr \<times> seed) option" where
  "e2ees_ds_gen_key_pair pack P e2ees_pack_id s =
     do { (result, public_key, private_key, s) \<leftarrow> crypto_ds_key_gen_by_e2ees_pack_id P e2ees_pack_id empty_bdata empty_bdata s;
          if result \<ge> 0 then let keypair_out = pack public_key private_key in Some (length keypair_out, Some keypair_out, s)
          else Some (0, None, s) }"

definition e2ees_ds_sign :: "prims \<Rightarrow> u32 \<Rightarrow> bytes \<Rightarrow> bytes ptr \<Rightarrow> nat \<Rightarrow> seed \<Rightarrow> (nat \<times> bytes ptr \<times> seed) option" where
  "e2ees_ds_sign P e2ees_pack_id msg private_key private_key_len s =
     do { (result, signature_out, signature_out_len, s) \<leftarrow>
            crypto_ds_sign_by_e2ees_pack_id P e2ees_pack_id None 0 msg private_key private_key_len s;
          Some (if result \<ge> 0 then signature_out_len else 0, signature_out, s) }"

definition e2ees_ds_verify :: "prims \<Rightarrow> u32 \<Rightarrow> bytes \<Rightarrow> bytes \<Rightarrow> bytes ptr \<Rightarrow> nat \<Rightarrow> int option" where
  "e2ees_ds_verify P e2ees_pack_id signature_in msg public_key public_key_len =
     crypto_ds_verify_by_e2ees_pack_id P e2ees_pack_id signature_in msg public_key public_key_len"

definition e2ees_kem_gen_key_pair :: "key_pair_pack \<Rightarrow> prims \<Rightarrow> u32 \<Rightarrow> seed \<Rightarrow> (nat \<times> bytes ptr \<times> seed) option" where
  "e2ees_kem_gen_key_pair pack P e2ees_pack_id s =
     do { (result, public_key, private_key, s) \<leftarrow> crypto_kem_key_gen_by_e2ees_pack_id P e2ees_pack_id empty_bdata empty_bdata s;
          if result \<ge> 0 then let keypair_out = pack public_key private_key in Some (length keypair_out, Some keypair_out, s)
          else Some (0, None, s) }"

definition e2ees_kem_encaps ::
    "prims \<Rightarrow> u32 \<Rightarrow> bytes ptr \<Rightarrow> bytes ptr \<Rightarrow> bytes ptr \<Rightarrow> nat \<Rightarrow> seed \<Rightarrow> (nat \<times> bytes ptr \<times> bytes ptr \<times> seed) option" where
  "e2ees_kem_encaps P e2ees_pack_id shared_secret_out ciphertext_out public_key public_key_len s =
     do { (result, shared_secret_out, ciphertext_out, ciphertext_len, s) \<leftarrow>
            crypto_kem_encaps_by_e2ees_pack_id P e2ees_pack_id shared_secret_out ciphertext_out 0 public_key public_key_len s;
          Some (if result \<ge> 0 then ciphertext_len else 0, shared_secret_out, ciphertext_out, s) }"

definition e2ees_kem_decaps ::
    "prims \<Rightarrow> u32 \<Rightarrow> bytes ptr \<Rightarrow> bytes ptr \<Rightarrow> nat \<Rightarrow> bytes ptr \<Rightarrow> nat \<Rightarrow> (nat \<times> bytes ptr) option" where
  "e2ees_kem_decaps P e2ees_pack_id shared_secret_out ciphertext ciphertext_len private_key private_key_len =
     (let e2ees_pack_id_st = raw_to_e2ees_pack_id e2ees_pack_id in
      case get_kem_suite P (ucast (pid_kem e2ees_pack_id_st)) of
        None \<Rightarrow> Some (0, shared_secret_out)
      | Some kem_suite \<Rightarrow>
          do { (result, shared_secret_out) \<leftarrow> crypto_kem_decaps_by_e2ees_pack_id P e2ees_pack_id shared_secret_out
                 private_key private_key_len ciphertext ciphertext_len;
               param \<leftarrow> deref (kem_get_param kem_suite);
               Some (if result \<ge> 0 then kp_shared_secret_len param else 0, shared_secret_out) })"

end
