(* ===== verification/Exported_Props.thy ===== *)
theory Exported_Props
  imports Exported
begin

section \<open>Properties of the exported cryptography\<close>

text \<open>
  Encapsulation and decapsulation agree on a secret, signatures verify, and the pack ids with the
  elliptic curve have no encapsulation: the call goes through a null pointer.
\<close>

text \<open>The suites that a pack id selects.\<close>

lemma get_kem_suite_pack: "pack_kem raw = Some a \<Longrightarrow> get_kem_suite P (ucast (pid_kem (raw_to_e2ees_pack_id raw))) = Some (kem_suite_object P a)"
  by (simp add: get_kem_suite_def pack_kem_def)

lemma get_ds_suite_pack: "pack_ds raw = Some d \<Longrightarrow> get_ds_suite P (ucast (pid_ds (raw_to_e2ees_pack_id raw))) = Some (ds_suite_object P d)"
  by (simp add: get_ds_suite_def pack_ds_def)

lemmas exported_kem_defs = crypto_kem_key_gen_by_e2ees_pack_id_def e2ees_kem_encaps_def crypto_kem_encaps_by_e2ees_pack_id_def
  e2ees_kem_decaps_def crypto_kem_decaps_by_e2ees_pack_id_def get_kem_suite_pack kem_suite_object_def

lemmas exported_ds_defs = crypto_ds_key_gen_by_e2ees_pack_id_def e2ees_ds_sign_def crypto_ds_sign_by_e2ees_pack_id_def
  e2ees_ds_verify_def crypto_ds_verify_by_e2ees_pack_id_def get_ds_suite_pack ds_suite_object_def

subsection \<open>Encapsulation\<close>

text \<open>PQClean: decapsulation of what was encapsulated under the public key of the pair returns 0.\<close>

definition kem_returns :: "prims \<Rightarrow> kem_alg \<Rightarrow> bool" where
  "kem_returns P a \<longleftrightarrow> (\<forall>s t. case pr_kem_keypair P a s of (_, pk, sk, _) \<Rightarrow>
     (case pr_kem_enc P a t (Some pk) of (_, ct, _, _) \<Rightarrow> fst (pr_kem_dec P a (Some ct) (Some sk)) = 0))"

text \<open>
  C20: for every pack id whose key encapsulation is a post-quantum scheme, the exported functions agree: a
  secret encapsulated under a generated public key is recovered with the private key, and the lengths
  returned are those of the ciphertext and of the secret.
\<close>

theorem exported_kem_agree:
  assumes "pack_kem raw = Some a" and "a \<noteq> KEM_CURVE25519_ECDH" and "kem_documented P a" and "kem_returns P a"
  shows "\<exists>pk sk s1 ss ct t1.
    crypto_kem_key_gen_by_e2ees_pack_id P raw empty_bdata empty_bdata s = Some (E2EES_RESULT_SUCC, buf pk, buf sk, s1) \<and>
    e2ees_kem_encaps P raw out1 out2 (Some pk) (length pk) t = Some (length ct, Some ss, Some ct, t1) \<and>
    e2ees_kem_decaps P raw out3 (Some ct) (length ct) (Some sk) (length sk) = Some (length ss, Some ss)"
proof -
  obtain r pk sk s1 where kp: "pr_kem_keypair P a s = (r, pk, sk, s1)" by (metis prod_cases4)
  then have r: "r = 0" and pair: "std_pair P a sk pk" using assms(3) by (auto simp: kem_documented_def std_pair_def dest!: spec [of _ s])
  note len = pair_length_std [OF assms(3) pair]
  obtain ss ct t1 where e: "std_enc P a t pk = (ss, ct, t1)" by (metis prod_cases3)
  note enc = enc_call_std [OF assms(3) conjunct2 [OF len] e]
  have "case pr_kem_keypair P a s of (_, pk, sk, _) \<Rightarrow>
      (case pr_kem_enc P a t (Some pk) of (_, ct, _, _) \<Rightarrow> fst (pr_kem_dec P a (Some ct) (Some sk)) = 0)"
    using assms(4) by (simp add: kem_returns_def)
  then have "fst (pr_kem_dec P a (Some ct) (Some sk)) = 0" using kp e by (auto simp: std_enc_def split: prod.splits)
  then have dec: "pr_kem_dec P a (Some ct) (Some sk) = (0, ss)"
    using dec_enc_std [OF assms(3) pair e] by (cases "pr_kem_dec P a (Some ct) (Some sk)") (simp add: std_dec_def)
  have "crypto_kem_key_gen_by_e2ees_pack_id P raw empty_bdata empty_bdata s = Some (0, buf pk, buf sk, s1)"
    using assms(1,2) kp r len by (simp add: exported_kem_defs E2EES_KEM_PQC_def crypto_kem_asym_key_gen_pqc_def)
  moreover have "e2ees_kem_encaps P raw out1 out2 (Some pk) (length pk) t = Some (length ct, Some ss, Some ct, t1)"
    using assms(1,2) enc len by (simp add: exported_kem_defs E2EES_KEM_PQC_def crypto_kem_params_pqc_def buf_def)
  moreover have "e2ees_kem_decaps P raw out3 (Some ct) (length ct) (Some sk) (length sk) = Some (length ss, Some ss)"
    using assms(1,2) enc len dec by (simp add: exported_kem_defs E2EES_KEM_PQC_def crypto_kem_params_pqc_def crypto_kem_decaps_pqc_def)
  ultimately show ?thesis by blast
qed

theorem exported_kem_agree_witness:
  "\<exists>pk sk s1 ss ct t1.
    crypto_kem_key_gen_by_e2ees_pack_id demo_prims 0x113101 empty_bdata empty_bdata 3 = Some (E2EES_RESULT_SUCC, buf pk, buf sk, s1) \<and>
    e2ees_kem_encaps demo_prims 0x113101 None None (Some pk) (length pk) 7 = Some (length ct, Some ss, Some ct, t1) \<and>
    e2ees_kem_decaps demo_prims 0x113101 None (Some ct) (length ct) (Some sk) (length sk) = Some (length ss, Some ss)"
proof (rule exported_kem_agree)
  show "pack_kem 0x113101 = Some KEM_MLKEM1024" by code_simp
  show "kem_documented demo_prims KEM_MLKEM1024" using demo_prims_ok by (simp add: prims_ok_def)
  show "kem_returns demo_prims KEM_MLKEM1024" by (simp add: kem_returns_def demo_prims_def)
qed simp

text \<open>
  A pack id with the elliptic curve has no encapsulation: with a key of the right length
  \<open>e2ees_kem_encaps\<close> calls a null pointer.  Its decapsulation announces ciphertexts of length zero and
  refuses every other one.
\<close>

lemma ecdh_pack_has_no_encapsulation:
  assumes "pack_kem raw = Some KEM_CURVE25519_ECDH" and "length pk = 32" and "ct \<noteq> []"
  shows "e2ees_kem_encaps P raw out1 out2 (Some pk) (length pk) t = None \<and>
    e2ees_kem_decaps P raw out3 (Some ct) (length ct) (Some sk) (length sk) = Some (0, out3)"
  using assms by (simp add: exported_kem_defs E2EES_KEM_CURVE25519_ECDH_def)

lemma ecdh_pack_has_no_encapsulation_witness:
  "e2ees_kem_encaps demo_prims 0x110001 None None (Some (replicate 32 9)) (length (replicate 32 (9 :: byte))) 0 = None \<and>
   e2ees_kem_decaps demo_prims 0x110001 None (Some [1]) (length [1 :: byte]) (Some (replicate 32 9)) (length (replicate 32 (9 :: byte))) = Some (0, None)"
proof (rule ecdh_pack_has_no_encapsulation)
  show "pack_kem 0x110001 = Some KEM_CURVE25519_ECDH" by code_simp
qed simp_all

subsection \<open>Signatures\<close>

text \<open>
  C38: for every pack id with a post-quantum signature scheme, a message signed by the exported function with
  a generated private key is verified with the public key; a call with a key of another length fails
  without an effect.
\<close>

theorem exported_signature_verifies:
  assumes "pack_ds raw = Some d" and "d \<noteq> DS_CURVE25519" and "ds_documented P d"
  shows "\<exists>pk sk s1 sig t1.
    crypto_ds_key_gen_by_e2ees_pack_id P raw empty_bdata empty_bdata s = Some (E2EES_RESULT_SUCC, buf pk, buf sk, s1) \<and>
    e2ees_ds_sign P raw msg (Some sk) (length sk) t = Some (length sig, Some sig, t1) \<and>
    e2ees_ds_verify P raw sig msg (Some pk) (length pk) = Some E2EES_RESULT_SUCC \<and>
    (\<forall>key n. n \<noteq> length sk \<longrightarrow> e2ees_ds_sign P raw msg key n t = Some (0, None, t)) \<and>
    (\<forall>key n. n \<noteq> length pk \<longrightarrow> e2ees_ds_verify P raw sig msg key n = Some E2EES_RESULT_FAIL)"
proof -
  obtain r pk sk s1 where kp: "pr_sign_keypair P d s = (r, pk, sk, s1)" by (metis prod_cases4)
  then have gen: "r = 0" "length pk = pr_sign_pk_bytes P d" "length sk = pr_sign_sk_bytes P d"
    using assms(3) by (auto simp: ds_documented_def dest!: spec [of _ s])
  obtain q sig t1 where sig: "pr_sign_signature P d t msg (Some sk) = (q, sig, t1)" by (metis prod_cases3)
  have "case pr_sign_signature P d t msg (Some sk) of (ret, sig, s') \<Rightarrow> ret = 0 \<and> 0 < length sig \<and> length sig \<le> pr_sign_bytes P d"
    using assms(3) gen(3) by (simp add: ds_documented_def)
  then have q: "q = 0" "length sig \<le> pr_sign_bytes P d" using sig by simp_all
  have "case pr_sign_keypair P d s of (_, pk, sk, _) \<Rightarrow>
      (case pr_sign_signature P d t msg (Some sk) of (_, sig, _) \<Rightarrow> pr_sign_verify P d sig msg (Some pk) = 0)"
    using assms(3) by (simp add: ds_documented_def)
  then have ver: "pr_sign_verify P d sig msg (Some pk) = 0" using kp sig by simp
  note defs = exported_ds_defs E2EES_DS_PQC_def crypto_ds_params_pqc_def
  have "crypto_ds_key_gen_by_e2ees_pack_id P raw empty_bdata empty_bdata s = Some (0, buf pk, buf sk, s1)"
    using assms(1,2) kp gen by (simp add: defs crypto_ds_key_gen_pqc_def)
  moreover have "e2ees_ds_sign P raw msg (Some sk) (length sk) t = Some (length sig, Some sig, t1)"
    using assms(1,2) gen(3) sig q by (simp add: defs)
  moreover have "e2ees_ds_verify P raw sig msg (Some pk) (length pk) = Some 0" using assms(1,2) gen(2) ver by (simp add: defs)
  moreover have "n \<noteq> length sk \<Longrightarrow> e2ees_ds_sign P raw msg key n t = Some (0, None, t)" for key n
    using assms(1,2) gen(3) by (simp add: defs)
  moreover have "n \<noteq> length pk \<Longrightarrow> e2ees_ds_verify P raw sig msg key n = Some (- 1)" for key n
    using assms(1,2) gen(2) by (simp add: defs)
  ultimately show ?thesis by blast
qed

theorem exported_signature_verifies_witness:
  "\<exists>pk sk s1 sig t1.
    crypto_ds_key_gen_by_e2ees_pack_id demo_prims 0x113101 empty_bdata empty_bdata 3 = Some (E2EES_RESULT_SUCC, buf pk, buf sk, s1) \<and>
    e2ees_ds_sign demo_prims 0x113101 [1, 2] (Some sk) (length sk) 5 = Some (length sig, Some sig, t1) \<and>
    e2ees_ds_verify demo_prims 0x113101 sig [1, 2] (Some pk) (length pk) = Some E2EES_RESULT_SUCC \<and>
    (\<forall>key n. n \<noteq> length sk \<longrightarrow> e2ees_ds_sign demo_prims 0x113101 [1, 2] key n 5 = Some (0, None, 5)) \<and>
    (\<forall>key n. n \<noteq> length pk \<longrightarrow> e2ees_ds_verify demo_prims 0x113101 sig [1, 2] key n = Some E2EES_RESULT_FAIL)"
proof (rule exported_signature_verifies)
  show "pack_ds 0x113101 = Some DS_MLDSA87" by code_simp
  show "ds_documented demo_prims DS_MLDSA87" by (simp add: ds_documented_def demo_prims_def)
qed simp

subsection \<open>Files\<close>

text \<open>
  The file functions print the password, and read behind its buffer when no zero byte ends it.
\<close>

lemma file_call_reads_behind_password:
  assumes "0 \<notin> set password"
  shows "e2ees_encrypt_file bc P E fs (Some password) n infile outfile = None"
    and "e2ees_decrypt_file bc P E fs (Some password) n infile outfile = None"
  using assms by (simp_all add: e2ees_encrypt_file_def e2ees_decrypt_file_def printed_def)

lemma file_call_prints_password:
  assumes "0 \<notin> set password" and "e2ees_encrypt_file bc P E fs (Some (password @ [0])) n infile outfile = Some (ok, fs', out)"
  shows "out = password"
proof -
  have "takeWhile (\<lambda>b. b \<noteq> 0) (password @ [0]) = password" using assms(1) by (auto simp: takeWhile_append)
  then show ?thesis using assms(2) by (auto simp: e2ees_encrypt_file_def printed_def bind_eq_Some_conv)
qed

end
