(* ===== verification/Gcm_Props.thy ===== *)
theory Gcm_Props
  imports Gcm
begin

unbundle bit_operations_syntax

section \<open>The multiplication of Galois/counter mode\<close>

text \<open>
  The code multiplies with a table of sixteen multiples of the hash key, four bits at a time from the
  last nibble to the first, and reduces with the table \<open>last4\<close>.  The reference is the algorithm of the
  standard (NIST SP 800-38D, section 6.3), one bit at a time from the first to the last.
\<close>

type_synonym u128 = "128 word"

subsection \<open>The standard\<close>

text \<open>A block is a string of 128 bits, the most significant bit of a byte first; as a number its first bit is the most significant.\<close>

definition byte_bits :: "byte \<Rightarrow> bool list" where
  "byte_bits b = map (bit b) [7, 6, 5, 4, 3, 2, 1, 0]"

definition block_bits :: "bytes \<Rightarrow> bool list" where
  "block_bits bs = concat (map byte_bits bs)"

definition block_word :: "bytes \<Rightarrow> u128" where
  "block_word bs = horner_sum of_bool 2 (rev (block_bits bs))"

text \<open>The multiplication by the variable: a shift to the right, reduced with \<open>R = 11100001 || 0 ^ 120\<close>.\<close>

definition gf_R :: u128 where
  "gf_R = push_bit 120 0xe1"

definition gf_step :: "u128 \<Rightarrow> u128" where
  "gf_step V = drop_bit 1 V XOR (if bit V 0 then gf_R else 0)"

definition gf_mult :: "bool list \<Rightarrow> u128 \<Rightarrow> u128" where
  "gf_mult X Y = fst (fold (\<lambda>x (Z, V). (if x then Z XOR V else Z, gf_step V)) X (0, Y))"

subsection \<open>Linearity and Horner's rule\<close>

lemma gf_step_xor: "gf_step (a XOR b) = gf_step a XOR gf_step b"
  by (rule bit_word_eqI) (auto simp: gf_step_def bit_xor_iff bit_drop_bit_eq)

lemma gf_step_0 [simp]: "gf_step 0 = 0"
  by (simp add: gf_step_def)

fun horner :: "bool list \<Rightarrow> u128 \<Rightarrow> u128" where
  "horner [] H = 0"
| "horner (b # bs) H = (if b then H else 0) XOR gf_step (horner bs H)"

lemma horner_step: "horner bs (gf_step H) = gf_step (horner bs H)"
  by (induction bs) (simp_all add: gf_step_xor)

lemma fold_horner: "fst (fold (\<lambda>x (Z, V). (if x then Z XOR V else Z, gf_step V)) X (Z, V)) = Z XOR horner X V"
  by (induction X arbitrary: Z V) (simp_all add: horner_step xor.assoc)

lemma gf_mult_horner: "gf_mult X Y = horner X Y"
  by (simp add: gf_mult_def fold_horner)

subsection \<open>Halves\<close>

definition join :: "u64 \<Rightarrow> u64 \<Rightarrow> u128" where
  "join zh zl = push_bit 64 (ucast zh) OR ucast zl"

lemma bit_join: "bit (join zh zl) n \<longleftrightarrow> (if n < 64 then bit zl n else n < 128 \<and> bit zh (n - 64))"
  by (auto simp: join_def bit_or_iff bit_push_bit_iff bit_unsigned_iff dest: bit_imp_le_length)

lemma join_xor: "join (a XOR c) (b XOR d) = join a b XOR join c d"
  by (rule bit_word_eqI) (simp add: bit_xor_iff bit_join)

lemma join_high: "join (push_bit 56 0xe1) 0 = gf_R"
  by (simp add: join_def gf_R_def)

text \<open>One halving of the code is one step of the standard.\<close>

lemma halve_step:
  "gf_step (join vh vl) = join (drop_bit 1 vh XOR push_bit 32 ((vl AND 1) * 0xe1000000)) (push_bit 63 vh OR drop_bit 1 vl)"
proof -
  have b: "bit (join vh vl) 0 = odd vl" using bit_join [of vh vl 0] by (simp add: bit_0)
  have s: "drop_bit 1 (join vh vl) = join (drop_bit 1 vh) (push_bit 63 vh OR drop_bit 1 vl)"
  proof (rule bit_word_eqI)
    fix n assume "n < LENGTH(128)"
    then have "n < 63 \<or> n = 63 \<or> (\<exists>m. n = m + 64 \<and> m < 64)" by (auto intro: exI [of _ "n - 64"])
    then show "bit (drop_bit 1 (join vh vl)) n = bit (join (drop_bit 1 vh) (push_bit 63 vh OR drop_bit 1 vl)) n"
      by (elim disjE) (auto simp: bit_join bit_drop_bit_eq bit_or_iff bit_push_bit_iff dest: bit_imp_le_length)
  qed
  have T: "push_bit 32 ((vl AND 1) * 0xe1000000) = (if odd vl then push_bit 56 0xe1 else 0 :: u64)"
    by (simp add: and_one_eq mod2_eq_if)
  have J: "join (drop_bit 1 vh XOR push_bit 56 0xe1) z = join (drop_bit 1 vh) z XOR gf_R" for z
    using join_xor [of "drop_bit 1 vh" "push_bit 56 0xe1" z 0] unfolding join_high by (simp only: xor.right_neutral)
  show ?thesis unfolding gf_step_def b s T by (cases "odd vl") (simp_all only: J if_True if_False xor.right_neutral simp_thms)
qed

text \<open>Four steps at once, and the table \<open>last4\<close>.\<close>

lemma bit_R_low: "n < 64 \<Longrightarrow> \<not> bit gf_R n"
  unfolding gf_R_def bit_push_bit_iff by simp

lemma gf_step_bit: "n < 63 \<Longrightarrow> bit (gf_step V) n \<longleftrightarrow> bit V (Suc n)"
  using bit_R_low [of n] by (simp add: gf_step_def bit_xor_iff bit_drop_bit_eq)

lemma gf_step4:
  "gf_step (gf_step (gf_step (gf_step V))) = drop_bit 4 V XOR
     ((if bit V 0 then drop_bit 3 gf_R else 0) XOR (if bit V 1 then drop_bit 2 gf_R else 0) XOR
      (if bit V 2 then drop_bit 1 gf_R else 0) XOR (if bit V 3 then gf_R else 0))"
proof -
  have step: "gf_step W = drop_bit 1 W XOR (if bit W 0 then gf_R else 0)" for W by (simp add: gf_step_def)
  have bits: "bit (gf_step V) 0 = bit V 1" "bit (gf_step (gf_step V)) 0 = bit V 2" "bit (gf_step (gf_step (gf_step V))) 0 = bit V 3"
    by (simp_all only: gf_step_bit numeral_eq_Suc pred_numeral_simps One_nat_def) simp_all
  show ?thesis
    unfolding step [of "gf_step (gf_step (gf_step V))"] bits unfolding step [of "gf_step (gf_step V)"] bits
    unfolding step [of "gf_step V"] bits unfolding step [of V]
    by (simp add: drop_bit_xor xor.assoc eval_nat_numeral)
qed

lemma drop4_join: "drop_bit 4 (join zh zl) = join (drop_bit 4 zh) (push_bit 60 zh OR drop_bit 4 zl)"
proof (rule bit_word_eqI)
  fix n assume "n < LENGTH(128)"
  then have "n < 128" by simp
  then have "n < 60 \<or> (\<exists>m. n = m + 60 \<and> m < 4) \<or> (\<exists>m. n = m + 64 \<and> m < 64)" by presburger
  then show "bit (drop_bit 4 (join zh zl)) n = bit (join (drop_bit 4 zh) (push_bit 60 zh OR drop_bit 4 zl)) n"
    by (elim disjE) (auto simp: bit_join bit_drop_bit_eq bit_or_iff bit_push_bit_iff add.commute dest: bit_imp_le_length)
qed

lemma sixteen: "k < (16 :: nat) \<Longrightarrow> k \<in> {0, 1, 2, 3, 4, 5, 6, 7} \<or> k \<in> {8, 9, 10, 11, 12, 13, 14, 15}"
  unfolding insert_iff empty_iff by presburger

lemma last4_word:
  assumes "m < 16"
  shows "join (push_bit 48 (last4 ! m)) 0 =
    (if bit m 0 then drop_bit 3 gf_R else 0) XOR (if bit m 1 then drop_bit 2 gf_R else 0) XOR
    (if bit m 2 then drop_bit 1 gf_R else 0) XOR (if bit m 3 then gf_R else 0)"
  using sixteen [OF assms] by (elim disjE insertE emptyE; simp add: last4_def join_def gf_R_def bit_Suc_0_iff)

lemma low_nibble: "m = unat (w AND 0xf) \<Longrightarrow> m < 16 \<and> (\<forall>i<4. bit m i = bit (w :: u64) i)"
proof -
  assume m: "m = unat (w AND 0xf)"
  have mask: "(0xf :: u64) = mask 4" by (simp add: mask_eq_exp_minus_1)
  have "m = take_bit 4 (unat w)" unfolding m mask take_bit_eq_mask [symmetric] by (simp add: unsigned_take_bit_eq)
  then show ?thesis using take_bit_nat_less_exp [of 4 "unat w"] by (simp add: bit_take_bit_iff bit_unsigned_iff)
qed

definition table_entry :: "mbedtls_gcm_context \<Rightarrow> nat \<Rightarrow> u128" where
  "table_entry ctx n = join (gc_HH ctx ! n) (gc_HL ctx ! n)"

lemma mult_nibble_step:
  "(case mult_nibble ctx nibble (zh, zl) of (zh', zl') \<Rightarrow> join zh' zl') =
     gf_step (gf_step (gf_step (gf_step (join zh zl)))) XOR table_entry ctx (unat nibble)"
proof -
  define m where "m = unat (zl AND 0xf)"
  note low = low_nibble [OF m_def]
  have bits: "bit (join zh zl) 0 = bit m 0" "bit (join zh zl) 1 = bit m 1" "bit (join zh zl) 2 = bit m 2" "bit (join zh zl) 3 = bit m 3"
    using low by (simp_all only: bit_join) simp_all
  have "join (drop_bit 4 zh XOR push_bit 48 (last4 ! m)) (push_bit 60 zh OR drop_bit 4 zl) =
      drop_bit 4 (join zh zl) XOR join (push_bit 48 (last4 ! m)) 0"
    using join_xor [of "drop_bit 4 zh" "push_bit 48 (last4 ! m)" "push_bit 60 zh OR drop_bit 4 zl" 0] by (simp add: drop4_join)
  then have "join (drop_bit 4 zh XOR push_bit 48 (last4 ! m)) (push_bit 60 zh OR drop_bit 4 zl) =
      gf_step (gf_step (gf_step (gf_step (join zh zl))))"
    unfolding gf_step4 bits by (simp only: last4_word [OF conjunct1 [OF low]])
  then show ?thesis by (simp add: mult_nibble_def Let_def join_xor table_entry_def m_def)
qed

subsection \<open>The table\<close>

text \<open>The product of a nibble, whose first bit is the most significant one.\<close>

definition nibble_mult :: "u128 \<Rightarrow> nat \<Rightarrow> u128" where
  "nibble_mult H n = horner [bit n 3, bit n 2, bit n 1, bit n 0] H"

lemma nibble_mult_eq:
  "nibble_mult H n = (if bit n 3 then H else 0) XOR (if bit n 2 then gf_step H else 0) XOR
     (if bit n 1 then gf_step (gf_step H) else 0) XOR (if bit n 0 then gf_step (gf_step (gf_step H)) else 0)"
  by (simp add: nibble_mult_def gf_step_xor)

lemma gen_table_entries:
  assumes "gc_clmul ctx = None" "length (gc_HL ctx) = 16" "length (gc_HH ctx) = 16" and "gc_cipher_ctx ctx (replicate 16 0) = (0, h)"
  defines "H \<equiv> join (push_bit 32 (GET_UINT32_BE h 0) OR GET_UINT32_BE h 4) (push_bit 32 (GET_UINT32_BE h 8) OR GET_UINT32_BE h 12)"
  shows "\<exists>ctx'. gcm_gen_table ctx = (0, ctx') \<and> gc_clmul ctx' = None \<and> (\<forall>n<16. table_entry ctx' n = nibble_mult H n)"
proof -
  define vh where "vh = push_bit 32 (GET_UINT32_BE h 0) OR GET_UINT32_BE h 4"
  define vl where "vl = push_bit 32 (GET_UINT32_BE h 8) OR GET_UINT32_BE h 12"
  define half where "half = (\<lambda>(vh :: u64, vl :: u64). (drop_bit 1 vh XOR push_bit 32 ((vl AND 1) * 0xe1000000), push_bit 63 vh OR drop_bit 1 vl))"
  have half: "join (fst (half p)) (snd (half p)) = gf_step (join (fst p) (snd p))" for p
    by (simp add: half_def split_beta halve_step del: One_nat_def)
  obtain h4 l4 h2 l2 h1 l1 where p: "half (vh, vl) = (h4, l4)" "half (h4, l4) = (h2, l2)" "half (h2, l2) = (h1, l1)" by fastforce
  have e: "join h4 l4 = gf_step H" "join h2 l2 = gf_step (gf_step H)" "join h1 l1 = gf_step (gf_step (gf_step H))" "join vh vl = H"
    using half [of "(vh, vl)"] half [of "(h4, l4)"] half [of "(h2, l2)"] p by (simp_all add: H_def vh_def vl_def)
  have loop: "halve_loop [4, 2, 1] vl vh A B = (A[4 := l4, 2 := l2, 1 := l1], B[4 := h4, 2 := h2, 1 := h1])" for A B
  proof -
    have "halve_loop (i # is) vl vh A B = (case half (vh, vl) of (vh', vl') \<Rightarrow> halve_loop is vl' vh' (A[i := vl']) (B[i := vh']))" for i "is" vl vh A B
      by (simp add: half_def Let_def)
    then show ?thesis by (simp only: p prod.case halve_loop.simps(1))
  qed
  let ?HL = "[0, l1, l2, l2 XOR l1, l4, l4 XOR l1, l4 XOR l2, l4 XOR (l2 XOR l1), vl, vl XOR l1, vl XOR l2, vl XOR (l2 XOR l1),
      vl XOR l4, vl XOR (l4 XOR l1), vl XOR (l4 XOR l2), vl XOR (l4 XOR (l2 XOR l1))]"
  let ?HH = "[0, h1, h2, h2 XOR h1, h4, h4 XOR h1, h4 XOR h2, h4 XOR (h2 XOR h1), vh, vh XOR h1, vh XOR h2, vh XOR (h2 XOR h1),
      vh XOR h4, vh XOR (h4 XOR h1), vh XOR (h4 XOR h2), vh XOR (h4 XOR (h2 XOR h1))]"
  have sums: "sum_loop [(i, j). i \<leftarrow> [2, 4, 8], j \<leftarrow> [1..<i]] ((gc_HL ctx)[8 := vl, 0 := 0, 4 := l4, 2 := l2, 1 := l1])
      ((gc_HH ctx)[8 := vh, 0 := 0, 4 := h4, 2 := h2, 1 := h1]) = (?HL, ?HH)"
  proof -
    obtain a0 a1 a2 a3 a4 a5 a6 a7 a8 a9 a10 a11 a12 a13 a14 a15 where a:
      "gc_HL ctx = [a0, a1, a2, a3, a4, a5, a6, a7, a8, a9, a10, a11, a12, a13, a14, a15]"
      using assms(2) by (auto simp: length_Suc_conv numeral_eq_Suc)
    obtain b0 b1 b2 b3 b4 b5 b6 b7 b8 b9 b10 b11 b12 b13 b14 b15 where b:
      "gc_HH ctx = [b0, b1, b2, b3, b4, b5, b6, b7, b8, b9, b10, b11, b12, b13, b14, b15]"
      using assms(3) by (auto simp: length_Suc_conv numeral_eq_Suc)
    have "[(i, j). i \<leftarrow> [2 :: nat, 4, 8], j \<leftarrow> [1 ..< i]] =
        [(2, 1), (4, 1), (4, 2), (4, 3), (8, 1), (8, 2), (8, 3), (8, 4), (8, 5), (8, 6), (8, 7)]"
      by (simp add: upt_rec)
    then show ?thesis by (simp add: a b)
  qed
  have run: "gcm_gen_table ctx = (0, ctx\<lparr>gc_HL := ?HL, gc_HH := ?HH\<rparr>)"
    unfolding gcm_gen_table_def assms(4) Let_def prod.case vh_def [symmetric] vl_def [symmetric] loop sums using assms(1) by simp
  have "table_entry (ctx\<lparr>gc_HL := ?HL, gc_HH := ?HH\<rparr>) n = nibble_mult H n" if "n < 16" for n
  proof -
    have "join 0 0 = 0" by (simp add: join_def)
    with sixteen [OF that] show ?thesis
      by (elim disjE insertE emptyE; simp add: table_entry_def nibble_mult_eq join_xor e bit_Suc_0_iff)
  qed
  then show ?thesis using run assms(1) by (intro exI [of _ "ctx\<lparr>gc_HL := ?HL, gc_HH := ?HH\<rparr>"]) simp
qed

subsection \<open>Blocks as bytes\<close>

lemma length_byte_bits [simp]: "length (byte_bits b) = 8"
  by (simp add: byte_bits_def)

lemma length_block_bits [simp]: "length (block_bits bs) = 8 * length bs"
  by (induction bs) (simp_all add: block_bits_def)

lemma nth_byte_bits: "r < 8 \<Longrightarrow> byte_bits b ! (7 - r) = bit b r"
proof -
  assume "r < 8"
  then have "r \<in> {0, 1, 2, 3, 4, 5, 6, 7}" unfolding insert_iff empty_iff by presburger
  then show ?thesis by (elim insertE emptyE) (simp_all add: byte_bits_def)
qed

lemma nth_block_bits: "k < length bs \<Longrightarrow> s < 8 \<Longrightarrow> block_bits bs ! (8 * k + s) = byte_bits (bs ! k) ! s"
proof (induction bs arbitrary: k)
  case (Cons b bs)
  then show ?case by (cases k) (simp_all add: block_bits_def nth_append)
qed simp

lemma bit_block_word:
  assumes "length bs = 16" and "k < 16" "r < 8"
  shows "bit (block_word bs) (8 * (15 - k) + r) = bit (bs ! k) r"
proof -
  have i: "8 * (15 - k) + r < 128" "128 - Suc (8 * (15 - k) + r) = 8 * k + (7 - r)" using assms(2,3) by linarith+
  have "bit (block_word bs) (8 * (15 - k) + r) = rev (block_bits bs) ! (8 * (15 - k) + r)"
    using i(1) assms(1) by (simp add: block_word_def bit_horner_sum_bit_word_iff)
  also have "\<dots> = block_bits bs ! (8 * k + (7 - r))" using i assms(1) by (simp add: rev_nth)
  finally show ?thesis using nth_block_bits [of k bs "7 - r"] assms nth_byte_bits by simp
qed

text \<open>Two numbers that agree at every byte of a block are equal.\<close>

lemma block_eqI:
  fixes a b :: u128
  assumes "\<And>k r. k < 16 \<Longrightarrow> r < 8 \<Longrightarrow> bit a (8 * (15 - k) + r) = bit b (8 * (15 - k) + r)"
  shows "a = b"
proof (rule bit_word_eqI)
  fix n assume "n < LENGTH(128)"
  then have "15 - n div 8 < 16" "n mod 8 < 8" "8 * (15 - (15 - n div 8)) + n mod 8 = n" by simp_all
  then show "bit a n = bit b n" using assms [of "15 - n div 8" "n mod 8"] by metis
qed

lemma put_block: "block_word (PUT_UINT32_BE (drop_bit 32 zh) @ PUT_UINT32_BE zh @ PUT_UINT32_BE (drop_bit 32 zl) @ PUT_UINT32_BE zl) = join zh zl"
proof (rule block_eqI)
  fix k r :: nat assume k: "k < 16" "r < 8"
  let ?bs = "PUT_UINT32_BE (drop_bit 32 zh) @ PUT_UINT32_BE zh @ PUT_UINT32_BE (drop_bit 32 zl) @ PUT_UINT32_BE zl"
  have "bit (?bs ! k) r = bit (join zh zl) (8 * (15 - k) + r)"
    using sixteen [OF k(1)] k(2)
    by (elim disjE insertE emptyE) (simp_all add: PUT_UINT32_BE_def bit_join bit_unsigned_iff bit_drop_bit_eq)
  then show "bit (block_word ?bs) (8 * (15 - k) + r) = bit (join zh zl) (8 * (15 - k) + r)"
    using bit_block_word [of ?bs k r] k by simp
qed

lemma get_block:
  assumes "length h = 16"
  shows "join (push_bit 32 (GET_UINT32_BE h 0) OR GET_UINT32_BE h 4) (push_bit 32 (GET_UINT32_BE h 8) OR GET_UINT32_BE h 12) = block_word h"
proof (rule block_eqI)
  fix k r :: nat assume k: "k < 16" "r < 8"
  have out: "8 \<le> i \<Longrightarrow> \<not> bit (x :: byte) i" for x i by (auto dest: bit_imp_le_length)
  have "bit (join (push_bit 32 (GET_UINT32_BE h 0) OR GET_UINT32_BE h 4) (push_bit 32 (GET_UINT32_BE h 8) OR GET_UINT32_BE h 12)) (8 * (15 - k) + r) =
      bit (h ! k) r"
    using sixteen [OF k(1)] k(2)
    by (elim disjE insertE emptyE) (simp_all add: GET_UINT32_BE_def bit_join bit_or_iff bit_push_bit_iff bit_unsigned_iff out numeral_2_eq_2)
  then show "bit (join (push_bit 32 (GET_UINT32_BE h 0) OR GET_UINT32_BE h 4) (push_bit 32 (GET_UINT32_BE h 8) OR GET_UINT32_BE h 12)) (8 * (15 - k) + r) =
      bit (block_word h) (8 * (15 - k) + r)"
    using bit_block_word [OF assms k] by simp
qed

subsection \<open>The loop\<close>

lemma horner_append4: "horner ([a, b, c, d] @ bs) H = horner [a, b, c, d] H XOR gf_step (gf_step (gf_step (gf_step (horner bs H))))"
  by (simp add: gf_step_xor xor.assoc)

lemma nibbles:
  fixes b :: byte
  shows "nibble_mult H (unat (b AND 0xf)) = horner [bit b 3, bit b 2, bit b 1, bit b 0] H"
    and "nibble_mult H (unat (drop_bit 4 b AND 0xf)) = horner [bit b 7, bit b 6, bit b 5, bit b 4] H"
proof -
  have mask: "(0xf :: byte) = mask 4" by (simp add: mask_eq_exp_minus_1)
  have bits: "bit (unat (c AND 0xf)) i \<longleftrightarrow> i < 4 \<and> bit c i" for c :: byte and i
    unfolding mask take_bit_eq_mask [symmetric] by (simp add: bit_unsigned_iff bit_take_bit_iff)
  show "nibble_mult H (unat (b AND 0xf)) = horner [bit b 3, bit b 2, bit b 1, bit b 0] H"
    unfolding nibble_mult_def bits by simp
  show "nibble_mult H (unat (drop_bit 4 b AND 0xf)) = horner [bit b 7, bit b 6, bit b 5, bit b 4] H"
    unfolding nibble_mult_def bits by (simp add: bit_drop_bit_eq)
qed

lemma nibble_index: "unat (c AND 0xf) < 16" for c :: byte
proof -
  have mask: "(0xf :: byte) = mask 4" by (simp add: mask_eq_exp_minus_1)
  show ?thesis unfolding mask take_bit_eq_mask [symmetric] using take_bit_nat_less_exp [of 4 "unat c"] by (simp add: unsigned_take_bit_eq)
qed

lemma gcm_mult_horner:
  assumes "gc_clmul ctx = None" and table: "\<And>n. n < 16 \<Longrightarrow> table_entry ctx n = nibble_mult H n" and "length x = 16"
  shows "block_word (gcm_mult ctx x) = horner (block_bits x) H"
proof -
  define f where "f = (\<lambda>i z. let lo = x ! i AND 0xf; hi = drop_bit 4 (x ! i) AND 0xf; z = (if i \<noteq> 15 then mult_nibble ctx lo z else z) in mult_nibble ctx hi z)"
  define z0 where "z0 = (gc_HH ctx ! unat (x ! 15 AND 0xf), gc_HL ctx ! unat (x ! 15 AND 0xf))"
  define J where "J = (\<lambda>z. join (fst z) (snd z))"
  have nib: "J (mult_nibble ctx n z) = gf_step (gf_step (gf_step (gf_step (J z)))) XOR table_entry ctx (unat n)" for n z
    using mult_nibble_step [of ctx n "fst z" "snd z"] by (simp add: J_def split_beta)
  have entry: "table_entry ctx (unat (c AND 0xf)) = nibble_mult H (unat (c AND 0xf))" for c :: byte by (rule table [OF nibble_index])
  let ?hi = "\<lambda>b :: byte. [bit b 7, bit b 6, bit b 5, bit b 4]" and ?lo = "\<lambda>b :: byte. [bit b 3, bit b 2, bit b 1, bit b 0]"
  have lo: "J (mult_nibble ctx (b AND 0xf) z) = horner (?lo b @ bs) H" if "J z = horner bs H" for b z bs
    unfolding nib entry nibbles(1) that horner_append4 by (rule xor.commute)
  have hi: "J (mult_nibble ctx (drop_bit 4 b AND 0xf) z) = horner (?hi b @ bs) H" if "J z = horner bs H" for b z bs
    unfolding nib entry nibbles(2) that horner_append4 by (rule xor.commute)
  have byte: "block_bits (b # bs) = ?hi b @ ?lo b @ block_bits bs" for b bs by (simp add: block_bits_def byte_bits_def)
  have z0: "J z0 = horner (?lo (x ! 15)) H"
    using entry [of "x ! 15"] by (simp add: J_def z0_def table_entry_def nibbles(1))
  have "J (fold f (rev [k..<16]) z0) = horner (block_bits (drop k x)) H" if "k \<le> 15" for k
    using that
  proof (induction k rule: inc_induct)
    case base
    have "block_bits (drop 15 x) = ?hi (x ! 15) @ ?lo (x ! 15)" using assms(3) byte [of "x ! 15" "[]"] by (simp add: Cons_nth_drop_Suc [symmetric] block_bits_def)
    moreover have "fold f (rev [15..<16]) z0 = mult_nibble ctx (drop_bit 4 (x ! 15) AND 0xf) z0" by (simp add: f_def)
    ultimately show ?case using hi [OF z0] by (simp only:)
  next
    case (step k)
    have "block_bits (drop k x) = ?hi (x ! k) @ ?lo (x ! k) @ block_bits (drop (Suc k) x)"
      using step(2) assms(3) byte [of "x ! k"] by (simp add: Cons_nth_drop_Suc [symmetric])
    moreover have "fold f (rev [k..<16]) z0 = mult_nibble ctx (drop_bit 4 (x ! k) AND 0xf) (mult_nibble ctx (x ! k AND 0xf) (fold f (rev [Suc k..<16]) z0))"
      using step(2) by (simp add: upt_conv_Cons f_def Let_def)
    ultimately show ?case using hi [OF lo [OF step(3)]] by (simp only:)
  qed
  from this [of 0] have "J (fold f (rev [0..<16]) z0) = horner (block_bits x) H" by (simp only: drop_0 le0)
  then show ?thesis using assms(1)
    unfolding gcm_mult_def option.case Let_def z0_def [symmetric] f_def [unfolded Let_def, symmetric]
    by (simp add: split_beta put_block J_def del: upt_rec_numeral)
qed

text \<open>
  C11: under a key whose schedule succeeds, the multiplication of the code is the multiplication of the
  standard by the hash key, the encryption of the zero block.
\<close>

theorem gcm_mult_is_field_multiplication:
  assumes "bc_setkey bc key = 0" and "bc_update bc key (replicate 16 0) = (0, h)" "length h = 16" and "bc_clmul bc = None"
  shows "\<exists>ctx. mbedtls_gcm_setkey bc mbedtls_gcm_init key = (0, ctx) \<and>
    (\<forall>x. length x = 16 \<longrightarrow> block_word (gcm_mult ctx x) = gf_mult (block_bits x) (block_word h))"
proof -
  let ?ctx = "mbedtls_gcm_init\<lparr>gc_cipher_ctx := bc_update bc key, gc_clmul := bc_clmul bc\<rparr>"
  have "gc_clmul ?ctx = None" "length (gc_HL ?ctx) = 16" "length (gc_HH ?ctx) = 16" "gc_cipher_ctx ?ctx (replicate 16 0) = (0, h)"
    using assms(2,4) by (simp_all add: mbedtls_gcm_init_def)
  from gen_table_entries [OF this] obtain ctx where ctx: "gcm_gen_table ?ctx = (0, ctx)" "gc_clmul ctx = None"
      "\<And>n. n < 16 \<Longrightarrow> table_entry ctx n = nibble_mult (block_word h) n"
    unfolding get_block [OF assms(3)] by auto
  have "mbedtls_gcm_setkey bc mbedtls_gcm_init key = (0, ctx)" using ctx(1) assms(1) by (simp add: mbedtls_gcm_setkey_def)
  moreover have "length x = 16 \<Longrightarrow> block_word (gcm_mult ctx x) = gf_mult (block_bits x) (block_word h)" for x
    using gcm_mult_horner [OF ctx(2,3)] by (simp add: gf_mult_horner)
  ultimately show ?thesis by blast
qed

theorem gcm_mult_is_field_multiplication_witness:
  "\<exists>ctx. mbedtls_gcm_setkey demo_cipher mbedtls_gcm_init (replicate 32 5) = (0, ctx) \<and>
    (\<forall>x. length x = 16 \<longrightarrow> block_word (gcm_mult ctx x) = gf_mult (block_bits x) (block_word (replicate 16 5)))"
proof (rule gcm_mult_is_field_multiplication)
  show "bc_update demo_cipher (replicate 32 5) (replicate 16 0) = (0, replicate 16 5)"
    by (simp add: demo_cipher_def numeral_eq_Suc)
qed (simp_all add: demo_cipher_def)

subsection \<open>The encryption of messages over the vendored code\<close>

text \<open>The primitives of the library with the Galois/counter mode of the vendored code over a block cipher.\<close>

definition gcm_prims :: "block_cipher \<Rightarrow> prims \<Rightarrow> prims" where
  "gcm_prims bc P = P\<lparr>
     pr_gcm_setkey := (\<lambda>key. fst (mbedtls_gcm_setkey bc mbedtls_gcm_init key)),
     pr_gcm_crypt_and_tag := (\<lambda>encrypt key iv ad input.
       let (ret, _, output, tag) = mbedtls_gcm_crypt_and_tag (snd (mbedtls_gcm_setkey bc mbedtls_gcm_init key))
         (if encrypt then MBEDTLS_GCM_ENCRYPT else MBEDTLS_GCM_DECRYPT) iv ad input 16 in (ret, output, tag))\<rparr>"

text \<open>
  C10: message encryption over the code of the mode, with nothing assumed but a block cipher of 16 bytes: a
  message of at most 2^36 - 32 bytes is encrypted to 16 bytes more, decryption under the same key and
  associated data returns it, and with any other tag it fails and returns no data.
\<close>

theorem aead_over_gcm_code:
  assumes "block_cipher_documented bc" and "length key = 48" and "length pt \<le> GCM_LIMIT" and "length ad < 2 ^ 61"
  shows "\<exists>body tag. crypto_se_encrypt_aes256_gcm (gcm_prims bc P) (buf ad) (Some key) pt = Some (0, buf (body @ tag)) \<and>
    length body = length pt \<and> length tag = 16 \<and>
    crypto_se_decrypt_aes256_gcm (gcm_prims bc P) (buf ad) (Some key) (body @ tag) = Some (0, if pt = [] then empty_bdata else buf pt) \<and>
    (\<forall>forged. length forged = 16 \<longrightarrow> forged \<noteq> tag \<longrightarrow>
      crypto_se_decrypt_aes256_gcm (gcm_prims bc P) (buf ad) (Some key) (body @ forged) = Some (- 1, empty_bdata))"
proof -
  have k: "length (take 32 key) = 32" "0 < length (drop 32 key)" "length (drop 32 key) < 2 ^ 61" using assms(2) by simp_all
  obtain ctx where ctx: "mbedtls_gcm_setkey bc mbedtls_gcm_init (take 32 key) = (0, ctx)" "keyed ctx"
    by (rule setkey_keyed [OF assms(1) k(1)])
  obtain c c' ys tag where run:
      "mbedtls_gcm_crypt_and_tag ctx MBEDTLS_GCM_ENCRYPT (drop 32 key) ad pt 16 = (0, c, ys, tag)" "length ys = length pt" "length tag = 16"
      "mbedtls_gcm_crypt_and_tag ctx MBEDTLS_GCM_DECRYPT (drop 32 key) ad ys 16 = (0, c', pt, tag)"
    by (rule crypt_and_tag_inverse [OF ctx(2) k(2,3) assms(4,3), of 16]) simp_all
  have len: "(length pt + 16 + 2 ^ 64 - 16) mod 2 ^ 64 = length pt" using assms(3) by simp
  have dec: "crypto_se_decrypt_aes256_gcm (gcm_prims bc P) (buf ad) (Some key) (ys @ t) =
      Some (if t = tag then (0, if pt = [] then empty_bdata else buf pt) else (- 1, empty_bdata))" if "length t = 16" for t
    using that run(2-4) ctx(1) assms(2) len
    by (simp add: crypto_se_decrypt_aes256_gcm_def read_bytes_take crypto_aes_decrypt_gcm_def crypto_aes256_gcm_plaintext_data_len_def
        gcm_prims_def tag_diff_eq_0 buf_def empty_bdata_def)
  have "crypto_se_encrypt_aes256_gcm (gcm_prims bc P) (buf ad) (Some key) pt = Some (0, buf (ys @ tag))"
    using run(1-3) ctx(1) assms(2)
    by (simp add: crypto_se_encrypt_aes256_gcm_def read_bytes_take crypto_aes_encrypt_gcm_def crypto_aes256_gcm_ciphertext_data_len_def
        gcm_prims_def buf_def)
  then show ?thesis using run(2,3) dec by (intro exI [of _ ys] exI [of _ tag]) simp
qed

theorem aead_over_gcm_code_witness:
  "\<exists>body tag. crypto_se_encrypt_aes256_gcm (gcm_prims demo_cipher demo_prims) (buf [1]) (Some (replicate 48 2)) [5, 6] = Some (0, buf (body @ tag)) \<and>
    length body = length [5 :: byte, 6] \<and> length tag = 16 \<and>
    crypto_se_decrypt_aes256_gcm (gcm_prims demo_cipher demo_prims) (buf [1]) (Some (replicate 48 2)) (body @ tag) =
      Some (0, if [5 :: byte, 6] = [] then empty_bdata else buf [5, 6]) \<and>
    (\<forall>forged. length forged = 16 \<longrightarrow> forged \<noteq> tag \<longrightarrow>
      crypto_se_decrypt_aes256_gcm (gcm_prims demo_cipher demo_prims) (buf [1]) (Some (replicate 48 2)) (body @ forged) = Some (- 1, empty_bdata))"
  by (rule aead_over_gcm_code [OF demo_cipher_documented]) simp_all

end
