(* ===== verification/Sha256.thy ===== *)
theory Sha256
  imports Prelude
begin

unbundle bit_operations_syntax

section \<open>SHA-256 (src/lib/mbedcrypto/library/sha256.c)\<close>

text \<open>
  The hash function behind key derivation, message authentication and the fingerprints of the library,
  as the vendored code computes it: a context with the number of bytes seen, the state of eight words
  and a buffer for an incomplete block; 64 rounds over an array of working variables that is not moved,
  the roles of its elements rotate instead.
\<close>

subsection \<open>Contexts\<close>

record mbedtls_sha256_context =
  sh_total :: "u32 \<times> u32"
  sh_state :: "u32 list"
  sh_buffer :: bytes
  sh_is224 :: int

definition mbedtls_sha256_init :: mbedtls_sha256_context where
  "mbedtls_sha256_init = \<lparr>sh_total = (0, 0), sh_state = replicate 8 0, sh_buffer = replicate 64 0, sh_is224 = 0\<rparr>"

definition sha256_initial_state :: "u32 list" where
  "sha256_initial_state =
     [0x6A09E667, 0xBB67AE85, 0x3C6EF372, 0xA54FF53A, 0x510E527F, 0x9B05688C, 0x1F83D9AB, 0x5BE0CD19]"

definition sha224_initial_state :: "u32 list" where
  "sha224_initial_state =
     [0xC1059ED8, 0x367CD507, 0x3070DD17, 0xF70E5939, 0xFFC00B31, 0x68581511, 0x64F98FA7, 0xBEFA4FA4]"

definition mbedtls_sha256_starts_ret :: "mbedtls_sha256_context \<Rightarrow> int \<Rightarrow> int \<times> mbedtls_sha256_context" where
  "mbedtls_sha256_starts_ret ctx is224 =
     (0, ctx\<lparr>sh_total := (0, 0), sh_state := (if is224 = 0 then sha256_initial_state else sha224_initial_state), sh_is224 := is224\<rparr>)"

subsection \<open>The compression function\<close>

definition get_uint32_be :: "bytes \<Rightarrow> nat \<Rightarrow> u32" where
  "get_uint32_be b i =
     push_bit 24 (ucast (b ! i)) OR push_bit 16 (ucast (b ! (i + 1))) OR push_bit 8 (ucast (b ! (i + 2))) OR ucast (b ! (i + 3))"

definition put_uint32_be :: "u32 \<Rightarrow> bytes" where
  "put_uint32_be n = [ucast (drop_bit 24 n), ucast (drop_bit 16 n), ucast (drop_bit 8 n), ucast n]"

definition K :: "u32 list" where
  "K =
    [0x428A2F98, 0x71374491, 0xB5C0FBCF, 0xE9B5DBA5, 0x3956C25B, 0x59F111F1, 0x923F82A4, 0xAB1C5ED5,
     0xD807AA98, 0x12835B01, 0x243185BE, 0x550C7DC3, 0x72BE5D74, 0x80DEB1FE, 0x9BDC06A7, 0xC19BF174,
     0xE49B69C1, 0xEFBE4786, 0x0FC19DC6, 0x240CA1CC, 0x2DE92C6F, 0x4A7484AA, 0x5CB0A9DC, 0x76F988DA,
     0x983E5152, 0xA831C66D, 0xB00327C8, 0xBF597FC7, 0xC6E00BF3, 0xD5A79147, 0x06CA6351, 0x14292967,
     0x27B70A85, 0x2E1B2138, 0x4D2C6DFC, 0x53380D13, 0x650A7354, 0x766A0ABB, 0x81C2C92E, 0x92722C85,
     0xA2BFE8A1, 0xA81A664B, 0xC24B8B70, 0xC76C51A3, 0xD192E819, 0xD6990624, 0xF40E3585, 0x106AA070,
     0x19A4C116, 0x1E376C08, 0x2748774C, 0x34B0BCB5, 0x391C0CB3, 0x4ED8AA4A, 0x5B9CCA4F, 0x682E6FF3,
     0x748F82EE, 0x78A5636F, 0x84C87814, 0x8CC70208, 0x90BEFFFA, 0xA4506CEB, 0xBEF9A3F7, 0xC67178F2]"

definition SHR :: "u32 \<Rightarrow> nat \<Rightarrow> u32" where "SHR x n = drop_bit n (x AND 0xFFFFFFFF)"
definition ROTR :: "u32 \<Rightarrow> nat \<Rightarrow> u32" where "ROTR x n = SHR x n OR push_bit (32 - n) x"

definition S0 :: "u32 \<Rightarrow> u32" where "S0 x = ROTR x 7 XOR ROTR x 18 XOR SHR x 3"
definition S1 :: "u32 \<Rightarrow> u32" where "S1 x = ROTR x 17 XOR ROTR x 19 XOR SHR x 10"
definition S2 :: "u32 \<Rightarrow> u32" where "S2 x = ROTR x 2 XOR ROTR x 13 XOR ROTR x 22"
definition S3 :: "u32 \<Rightarrow> u32" where "S3 x = ROTR x 6 XOR ROTR x 11 XOR ROTR x 25"

definition F0 :: "u32 \<Rightarrow> u32 \<Rightarrow> u32 \<Rightarrow> u32" where "F0 x y z = (x AND y) OR (z AND (x OR y))"
definition F1 :: "u32 \<Rightarrow> u32 \<Rightarrow> u32 \<Rightarrow> u32" where "F1 x y z = z XOR (x AND (y XOR z))"

text \<open>\<open>R(t)\<close> computes the word \<open>t\<close> of the message schedule.\<close>

definition R_step :: "u32 list \<Rightarrow> nat \<Rightarrow> u32 list" where
  "R_step W t = W[t := S1 (W ! (t - 2)) + W ! (t - 7) + S0 (W ! (t - 15)) + W ! (t - 16)]"

text \<open>
  \<open>P(a, \<dots>, h, x, K)\<close> on the elements of the array \<open>A\<close>.  In the round \<open>j\<close> of a group of eight the
  argument \<open>a\<close> is the element \<open>- j mod 8\<close> and the others are those that follow it.
\<close>

definition P_step :: "u32 list \<Rightarrow> nat \<Rightarrow> u32 \<Rightarrow> u32 \<Rightarrow> u32 list" where
  "P_step A j x k =
     (let at = (\<lambda>n. (n + 8 - j) mod 8);
          a = A ! at 0; b = A ! at 1; c = A ! at 2; e = A ! at 4; f = A ! at 5; g = A ! at 6; h = A ! at 7;
          temp1 = h + S3 e + F1 e f g + k + x;
          temp2 = S2 a + F0 a b c
      in A[at 3 := A ! at 3 + temp1, at 7 := temp1 + temp2])"

definition process_round :: "nat \<Rightarrow> u32 list \<times> u32 list \<Rightarrow> u32 list \<times> u32 list" where
  "process_round i WA =
     (let (W, A) = WA; W = (if i < 16 then W else R_step W i) in (W, P_step A (i mod 8) (W ! i) (K ! i)))"

definition mbedtls_internal_sha256_process :: "mbedtls_sha256_context \<Rightarrow> bytes \<Rightarrow> int \<times> mbedtls_sha256_context" where
  "mbedtls_internal_sha256_process ctx data =
     (let W = map (\<lambda>i. get_uint32_be data (4 * i)) [0..<16] @ replicate 48 0;
          (W, A) = fold process_round [0..<64] (W, sh_state ctx)
      in (0, ctx\<lparr>sh_state := map2 (+) (sh_state ctx) A\<rparr>))"

subsection \<open>Updates\<close>

text \<open>\<open>memcpy (buffer + pos, src, length src)\<close>.\<close>

definition put_at :: "bytes \<Rightarrow> nat \<Rightarrow> bytes \<Rightarrow> bytes" where
  "put_at b pos src = take pos b @ src @ drop (pos + length src) b"

function blocks_loop :: "mbedtls_sha256_context \<Rightarrow> bytes \<Rightarrow> int \<times> mbedtls_sha256_context \<times> bytes" where
  "blocks_loop ctx input =
     (if length input < 64 then (0, ctx, input)
      else
        let (ret, ctx) = mbedtls_internal_sha256_process ctx (take 64 input) in
        if ret \<noteq> 0 then (ret, ctx, input) else blocks_loop ctx (drop 64 input))"
  by pat_completeness auto
termination by (relation "measure (\<lambda>(_, p). length p)") auto

declare blocks_loop.simps [simp del]

text \<open>The length of the input is cut to 32 bits before it is added to the count.\<close>

definition mbedtls_sha256_update_ret :: "mbedtls_sha256_context \<Rightarrow> bytes \<Rightarrow> int \<times> mbedtls_sha256_context" where
  "mbedtls_sha256_update_ret ctx input =
     (if length input = 0 then (0, ctx)
      else
        let left = unat (fst (sh_total ctx) AND 0x3F);
            fill = 64 - left;
            ilen = (of_nat (length input) :: u32);
            total0 = (fst (sh_total ctx) + ilen) AND 0xFFFFFFFF;
            total1 = (if total0 < ilen then snd (sh_total ctx) + 1 else snd (sh_total ctx));
            ctx = ctx\<lparr>sh_total := (total0, total1)\<rparr>;
            (ret, ctx, input, left) =
              (if left \<noteq> 0 \<and> length input \<ge> fill then
                 let ctx = ctx\<lparr>sh_buffer := put_at (sh_buffer ctx) left (take fill input)\<rparr>;
                     (ret, ctx) = mbedtls_internal_sha256_process ctx (sh_buffer ctx)
                 in (ret, ctx, drop fill input, 0)
               else (0, ctx, input, left))
        in if ret \<noteq> 0 then (ret, ctx)
           else
             let (ret, ctx, input) = blocks_loop ctx input in
             if ret \<noteq> 0 then (ret, ctx)
             else if length input > 0 then (0, ctx\<lparr>sh_buffer := put_at (sh_buffer ctx) left input\<rparr>)
             else (0, ctx))"

definition mbedtls_sha256_finish_ret :: "mbedtls_sha256_context \<Rightarrow> int \<times> mbedtls_sha256_context \<times> bytes" where
  "mbedtls_sha256_finish_ret ctx =
     (let used = unat (fst (sh_total ctx) AND 0x3F);
          ctx = ctx\<lparr>sh_buffer := (sh_buffer ctx)[used := 0x80]\<rparr>;
          used = used + 1;
          (ret, ctx) =
            (if used \<le> 56 then (0, ctx\<lparr>sh_buffer := put_at (sh_buffer ctx) used (replicate (56 - used) 0)\<rparr>)
             else
               let ctx = ctx\<lparr>sh_buffer := put_at (sh_buffer ctx) used (replicate (64 - used) 0)\<rparr>;
                   (ret, ctx) = mbedtls_internal_sha256_process ctx (sh_buffer ctx)
               in (ret, if ret \<noteq> 0 then ctx else ctx\<lparr>sh_buffer := put_at (sh_buffer ctx) 0 (replicate 56 0)\<rparr>))
      in if ret \<noteq> 0 then (ret, ctx, [])
         else
           let high = drop_bit 29 (fst (sh_total ctx)) OR push_bit 3 (snd (sh_total ctx));
               low = push_bit 3 (fst (sh_total ctx));
               ctx = ctx\<lparr>sh_buffer := put_at (put_at (sh_buffer ctx) 56 (put_uint32_be high)) 60 (put_uint32_be low)\<rparr>;
               (ret, ctx) = mbedtls_internal_sha256_process ctx (sh_buffer ctx)
           in if ret \<noteq> 0 then (ret, ctx, [])
              else (0, ctx, concat (map put_uint32_be (take (if sh_is224 ctx = 0 then 8 else 7) (sh_state ctx)))))"

end
