(* ===== verification/Md.thy ===== *)
theory Md
  imports Sha256
begin

unbundle bit_operations_syntax

section \<open>Message digests and key derivation (src/lib/mbedcrypto/library/md.c, hkdf.c)\<close>

text \<open>
  The layer over SHA-256 that computes HMAC, and the key derivation over it.  SHA-384 and SHA-512, which
  have a context of their own, are not used by the library and not modelled.  The outcome of the two
  allocations of \<open>mbedtls_md_setup\<close> is an argument; \<open>None\<close> is an access through a null pointer.
\<close>

subsection \<open>Contexts\<close>

datatype mbedtls_md_type_t = MBEDTLS_MD_SHA224 | MBEDTLS_MD_SHA256

record mbedtls_md_info_t =
  mi_type :: mbedtls_md_type_t
  mi_size :: nat
  mi_block_size :: nat

record mbedtls_md_context_t =
  mc_md_info :: "mbedtls_md_info_t ptr"
  mc_md_ctx :: "mbedtls_sha256_context ptr"
  mc_hmac_ctx :: "bytes ptr"

definition mbedtls_sha224_info :: mbedtls_md_info_t where
  "mbedtls_sha224_info = \<lparr>mi_type = MBEDTLS_MD_SHA224, mi_size = 28, mi_block_size = 64\<rparr>"

definition mbedtls_sha256_info :: mbedtls_md_info_t where
  "mbedtls_sha256_info = \<lparr>mi_type = MBEDTLS_MD_SHA256, mi_size = 32, mi_block_size = 64\<rparr>"

definition mbedtls_md_info_from_type :: "mbedtls_md_type_t \<Rightarrow> mbedtls_md_info_t ptr" where
  "mbedtls_md_info_from_type md_type =
     Some (case md_type of MBEDTLS_MD_SHA224 \<Rightarrow> mbedtls_sha224_info | MBEDTLS_MD_SHA256 \<Rightarrow> mbedtls_sha256_info)"

abbreviation (input) MBEDTLS_ERR_MD_BAD_INPUT_DATA :: int where "MBEDTLS_ERR_MD_BAD_INPUT_DATA \<equiv> - 0x5100"
abbreviation (input) MBEDTLS_ERR_MD_ALLOC_FAILED :: int where "MBEDTLS_ERR_MD_ALLOC_FAILED \<equiv> - 0x5180"
abbreviation (input) MBEDTLS_ERR_HKDF_BAD_INPUT_DATA :: int where "MBEDTLS_ERR_HKDF_BAD_INPUT_DATA \<equiv> - 0x5F80"

definition mbedtls_md_init :: mbedtls_md_context_t where
  "mbedtls_md_init = \<lparr>mc_md_info = None, mc_md_ctx = None, mc_hmac_ctx = None\<rparr>"

definition mbedtls_md_free :: "mbedtls_md_context_t \<Rightarrow> mbedtls_md_context_t" where
  "mbedtls_md_free ctx = (if mc_md_info ctx = None then ctx else mbedtls_md_init)"

definition mbedtls_md_setup ::
    "bool \<times> bool \<Rightarrow> mbedtls_md_context_t \<Rightarrow> mbedtls_md_info_t ptr \<Rightarrow> int \<Rightarrow> int \<times> mbedtls_md_context_t" where
  "mbedtls_md_setup mem ctx md_info hmac =
     (case md_info of
        None \<Rightarrow> (MBEDTLS_ERR_MD_BAD_INPUT_DATA, ctx)
      | Some info \<Rightarrow>
          let ctx = ctx\<lparr>mc_md_info := md_info, mc_md_ctx := None, mc_hmac_ctx := None\<rparr> in
          if \<not> fst mem then (MBEDTLS_ERR_MD_ALLOC_FAILED, ctx)
          else
            let ctx = ctx\<lparr>mc_md_ctx := Some mbedtls_sha256_init\<rparr> in
            if hmac \<noteq> 0 then
              if \<not> snd mem then (MBEDTLS_ERR_MD_ALLOC_FAILED, mbedtls_md_free ctx)
              else (0, ctx\<lparr>mc_hmac_ctx := Some (replicate (2 * mi_block_size info) 0)\<rparr>)
            else (0, ctx))"

subsection \<open>Digests\<close>

definition mbedtls_md_starts :: "mbedtls_md_context_t \<Rightarrow> (int \<times> mbedtls_md_context_t) option" where
  "mbedtls_md_starts ctx =
     (case mc_md_info ctx of
        None \<Rightarrow> Some (MBEDTLS_ERR_MD_BAD_INPUT_DATA, ctx)
      | Some info \<Rightarrow>
          do { c \<leftarrow> deref (mc_md_ctx ctx);
               let (ret, c) = (case mi_type info of
                  MBEDTLS_MD_SHA224 \<Rightarrow> mbedtls_sha256_starts_ret c 1
                | MBEDTLS_MD_SHA256 \<Rightarrow> mbedtls_sha256_starts_ret c 0);
               Some (ret, ctx\<lparr>mc_md_ctx := Some c\<rparr>) })"

definition mbedtls_md_update :: "mbedtls_md_context_t \<Rightarrow> bytes \<Rightarrow> (int \<times> mbedtls_md_context_t) option" where
  "mbedtls_md_update ctx input =
     (case mc_md_info ctx of
        None \<Rightarrow> Some (MBEDTLS_ERR_MD_BAD_INPUT_DATA, ctx)
      | Some info \<Rightarrow>
          do { c \<leftarrow> deref (mc_md_ctx ctx);
               let (ret, c) = mbedtls_sha256_update_ret c input;
               Some (ret, ctx\<lparr>mc_md_ctx := Some c\<rparr>) })"

definition mbedtls_md_finish :: "mbedtls_md_context_t \<Rightarrow> (int \<times> mbedtls_md_context_t \<times> bytes) option" where
  "mbedtls_md_finish ctx =
     (case mc_md_info ctx of
        None \<Rightarrow> Some (MBEDTLS_ERR_MD_BAD_INPUT_DATA, ctx, [])
      | Some info \<Rightarrow>
          do { c \<leftarrow> deref (mc_md_ctx ctx);
               let (ret, c, output) = mbedtls_sha256_finish_ret c;
               Some (ret, ctx\<lparr>mc_md_ctx := Some c\<rparr>, output) })"

definition mbedtls_md_get_size :: "mbedtls_md_info_t ptr \<Rightarrow> nat" where
  "mbedtls_md_get_size md_info = (case md_info of None \<Rightarrow> 0 | Some info \<Rightarrow> mi_size info)"

subsection \<open>HMAC\<close>

text \<open>\<open>pad[i] ^= key[i]\<close> for the bytes of the key.\<close>

fun xor_key :: "bytes \<Rightarrow> bytes \<Rightarrow> bytes" where
  "xor_key (p # ps) (k # ks) = (p XOR k) # xor_key ps ks"
| "xor_key ps [] = ps"
| "xor_key [] ks = []"

text \<open>A key longer than a block is replaced by its digest.\<close>

definition hmac_key :: "mbedtls_md_context_t \<Rightarrow> mbedtls_md_info_t \<Rightarrow> bytes \<Rightarrow> (int \<times> mbedtls_md_context_t \<times> bytes) option" where
  "hmac_key ctx info key =
     (if length key > mi_block_size info then
        do { (ret, ctx) \<leftarrow> mbedtls_md_starts ctx;
             if ret \<noteq> 0 then Some (ret, ctx, key)
             else do { (ret, ctx) \<leftarrow> mbedtls_md_update ctx key;
                       if ret \<noteq> 0 then Some (ret, ctx, key)
                       else do { (ret, ctx, sum) \<leftarrow> mbedtls_md_finish ctx;
                                 Some (ret, ctx, take (mi_size info) sum) } } }
      else Some (0, ctx, key))"

definition mbedtls_md_hmac_starts :: "mbedtls_md_context_t \<Rightarrow> bytes \<Rightarrow> (int \<times> mbedtls_md_context_t) option" where
  "mbedtls_md_hmac_starts ctx key =
     (case (mc_md_info ctx, mc_hmac_ctx ctx) of
        (Some info, Some _) \<Rightarrow>
          do { (ret, ctx, key) \<leftarrow> hmac_key ctx info key;
               if ret \<noteq> 0 then Some (ret, ctx)
               else
                 do { let ipad = xor_key (replicate (mi_block_size info) 0x36) key;
                      let opad = xor_key (replicate (mi_block_size info) 0x5C) key;
                      let ctx = ctx\<lparr>mc_hmac_ctx := Some (ipad @ opad)\<rparr>;
                      (ret, ctx) \<leftarrow> mbedtls_md_starts ctx;
                      if ret \<noteq> 0 then Some (ret, ctx) else mbedtls_md_update ctx ipad } }
      | _ \<Rightarrow> Some (MBEDTLS_ERR_MD_BAD_INPUT_DATA, ctx))"

definition mbedtls_md_hmac_update :: "mbedtls_md_context_t \<Rightarrow> bytes \<Rightarrow> (int \<times> mbedtls_md_context_t) option" where
  "mbedtls_md_hmac_update ctx input =
     (if mc_md_info ctx = None \<or> mc_hmac_ctx ctx = None then Some (MBEDTLS_ERR_MD_BAD_INPUT_DATA, ctx)
      else mbedtls_md_update ctx input)"

definition mbedtls_md_hmac_finish :: "mbedtls_md_context_t \<Rightarrow> (int \<times> mbedtls_md_context_t \<times> bytes) option" where
  "mbedtls_md_hmac_finish ctx =
     (case (mc_md_info ctx, mc_hmac_ctx ctx) of
        (Some info, Some pads) \<Rightarrow>
          do { let opad = take (mi_block_size info) (drop (mi_block_size info) pads);
               (ret, ctx, tmp) \<leftarrow> mbedtls_md_finish ctx;
               if ret \<noteq> 0 then Some (ret, ctx, [])
               else do { (ret, ctx) \<leftarrow> mbedtls_md_starts ctx;
                 if ret \<noteq> 0 then Some (ret, ctx, [])
                 else do { (ret, ctx) \<leftarrow> mbedtls_md_update ctx opad;
                   if ret \<noteq> 0 then Some (ret, ctx, [])
                   else do { (ret, ctx) \<leftarrow> mbedtls_md_update ctx (take (mi_size info) tmp);
                     if ret \<noteq> 0 then Some (ret, ctx, []) else mbedtls_md_finish ctx } } } }
      | _ \<Rightarrow> Some (MBEDTLS_ERR_MD_BAD_INPUT_DATA, ctx, []))"

definition mbedtls_md_hmac :: "bool \<times> bool \<Rightarrow> mbedtls_md_info_t ptr \<Rightarrow> bytes \<Rightarrow> bytes \<Rightarrow> (int \<times> bytes) option" where
  "mbedtls_md_hmac mem md_info key input =
     (if md_info = None then Some (MBEDTLS_ERR_MD_BAD_INPUT_DATA, [])
      else
        let (ret, ctx) = mbedtls_md_setup mem mbedtls_md_init md_info 1 in
        if ret \<noteq> 0 then Some (ret, [])
        else do { (ret, ctx) \<leftarrow> mbedtls_md_hmac_starts ctx key;
          if ret \<noteq> 0 then Some (ret, [])
          else do { (ret, ctx) \<leftarrow> mbedtls_md_hmac_update ctx input;
            if ret \<noteq> 0 then Some (ret, [])
            else do { (ret, ctx, output) \<leftarrow> mbedtls_md_hmac_finish ctx; Some (ret, output) } } })"

subsection \<open>HKDF\<close>

definition mbedtls_hkdf_extract ::
    "bool \<times> bool \<Rightarrow> mbedtls_md_info_t ptr \<Rightarrow> bytes ptr \<Rightarrow> nat \<Rightarrow> bytes \<Rightarrow> (int \<times> bytes) option" where
  "mbedtls_hkdf_extract mem md salt salt_len ikm =
     (case salt of
        None \<Rightarrow>
          if salt_len \<noteq> 0 then Some (MBEDTLS_ERR_HKDF_BAD_INPUT_DATA, [])
          else
            let hf_len = mbedtls_md_get_size md in
            if hf_len = 0 then Some (MBEDTLS_ERR_HKDF_BAD_INPUT_DATA, [])
            else mbedtls_md_hmac mem md (replicate hf_len 0) ikm
      | Some _ \<Rightarrow> do { salt \<leftarrow> read_bytes salt salt_len; mbedtls_md_hmac mem md salt ikm })"

text \<open>One block of output: \<open>T(i) = HMAC(prk, T(i - 1) | info | i)\<close>.\<close>

definition expand_block ::
    "mbedtls_md_context_t \<Rightarrow> bytes \<Rightarrow> bytes \<Rightarrow> bytes \<Rightarrow> nat \<Rightarrow> (int \<times> mbedtls_md_context_t \<times> bytes) option" where
  "expand_block ctx prk t info i =
     do { (ret, ctx) \<leftarrow> mbedtls_md_hmac_starts ctx prk;
          if ret \<noteq> 0 then Some (ret, ctx, [])
          else do { (ret, ctx) \<leftarrow> mbedtls_md_hmac_update ctx t;
            if ret \<noteq> 0 then Some (ret, ctx, [])
            else do { (ret, ctx) \<leftarrow> mbedtls_md_hmac_update ctx info;
              if ret \<noteq> 0 then Some (ret, ctx, [])
              else do { (ret, ctx) \<leftarrow> mbedtls_md_hmac_update ctx [of_nat i];
                if ret \<noteq> 0 then Some (ret, ctx, []) else mbedtls_md_hmac_finish ctx } } } }"

text \<open>The loop \<open>for (i = 1; i <= n; i++)\<close> with \<open>rounds\<close> left; \<open>t\<close> is the first \<open>t_len\<close> bytes of the array of this name.\<close>

fun expand_loop ::
    "nat \<Rightarrow> nat \<Rightarrow> bytes \<Rightarrow> bytes \<Rightarrow> nat \<Rightarrow> nat \<Rightarrow> mbedtls_md_context_t \<Rightarrow> bytes \<Rightarrow> nat \<Rightarrow> bytes \<Rightarrow> (int \<times> bytes) option" where
  "expand_loop hf_len n prk info 0 i ctx t pos okm = Some (0, okm)"
| "expand_loop hf_len n prk info (Suc rounds) i ctx t pos okm =
     do { (ret, ctx, t) \<leftarrow> expand_block ctx prk t info i;
          if ret \<noteq> 0 then Some (ret, okm)
          else
            let num_to_copy = (if i \<noteq> n then hf_len else length okm - pos) in
            if pos + num_to_copy > length okm \<or> num_to_copy > length t then None
            else expand_loop hf_len n prk info rounds (i + 1) ctx (take hf_len t) (pos + hf_len)
              (put_at okm pos (take num_to_copy t)) }"

definition mbedtls_hkdf_expand ::
    "bool \<times> bool \<Rightarrow> mbedtls_md_info_t ptr \<Rightarrow> bytes \<Rightarrow> bytes ptr \<Rightarrow> bytes ptr \<Rightarrow> (int \<times> bytes ptr) option" where
  "mbedtls_hkdf_expand mem md prk info okm =
     (case okm of
        None \<Rightarrow> Some (MBEDTLS_ERR_HKDF_BAD_INPUT_DATA, okm)
      | Some out \<Rightarrow>
          let hf_len = mbedtls_md_get_size md; okm_len = length out in
          if length prk < hf_len \<or> hf_len = 0 then Some (MBEDTLS_ERR_HKDF_BAD_INPUT_DATA, okm)
          else
            let info = (case info of None \<Rightarrow> [] | Some bs \<Rightarrow> bs);
                n = okm_len div hf_len + (if okm_len mod hf_len \<noteq> 0 then 1 else 0)
            in if n > 255 then Some (MBEDTLS_ERR_HKDF_BAD_INPUT_DATA, okm)
               else
                 let (ret, ctx) = mbedtls_md_setup mem mbedtls_md_init md 1 in
                 if ret \<noteq> 0 then Some (ret, okm)
                 else do { (ret, out) \<leftarrow> expand_loop hf_len n prk info n 1 ctx [] 0 out; Some (ret, Some out) })"

definition mbedtls_hkdf ::
    "bool \<times> bool \<Rightarrow> mbedtls_md_info_t ptr \<Rightarrow> bytes ptr \<Rightarrow> nat \<Rightarrow> bytes \<Rightarrow> bytes ptr \<Rightarrow> bytes ptr \<Rightarrow> (int \<times> bytes ptr) option" where
  "mbedtls_hkdf mem md salt salt_len ikm info okm =
     do { (ret, prk) \<leftarrow> mbedtls_hkdf_extract mem md salt salt_len ikm;
          if ret = 0 then mbedtls_hkdf_expand mem md (take (mbedtls_md_get_size md) prk) info okm else Some (ret, okm) }"

end
