(* ===== verification/Sha256_Props.thy ===== *)
theory Sha256_Props
  imports Sha256
begin

unbundle bit_operations_syntax

section \<open>SHA-256 computes the function of FIPS 180-4\<close>

text \<open>
  The reference is the text of the standard: padding, message schedule and compression as functions of
  the whole message.  The code is proved equal to it for every division of a message into updates.
\<close>

subsection \<open>The standard\<close>

definition Ch :: "u32 \<Rightarrow> u32 \<Rightarrow> u32 \<Rightarrow> u32" where "Ch x y z = (x AND y) XOR (NOT x AND z)"
definition Maj :: "u32 \<Rightarrow> u32 \<Rightarrow> u32 \<Rightarrow> u32" where "Maj x y z = (x AND y) XOR (x AND z) XOR (y AND z)"
definition Sigma0 :: "u32 \<Rightarrow> u32" where "Sigma0 x = word_rotr 2 x XOR word_rotr 13 x XOR word_rotr 22 x"
definition Sigma1 :: "u32 \<Rightarrow> u32" where "Sigma1 x = word_rotr 6 x XOR word_rotr 11 x XOR word_rotr 25 x"
definition sigma0 :: "u32 \<Rightarrow> u32" where "sigma0 x = word_rotr 7 x XOR word_rotr 18 x XOR drop_bit 3 x"
definition sigma1 :: "u32 \<Rightarrow> u32" where "sigma1 x = word_rotr 17 x XOR word_rotr 19 x XOR drop_bit 10 x"

definition fips_word :: "u32 list \<Rightarrow> nat \<Rightarrow> u32" where
  "fips_word W t = sigma1 (W ! (t - 2)) + W ! (t - 7) + sigma0 (W ! (t - 15)) + W ! (t - 16)"

definition fips_schedule :: "u32 list \<Rightarrow> nat \<Rightarrow> u32 list" where
  "fips_schedule M n = fold (\<lambda>t W. W @ [fips_word W t]) [16..<n] M"

fun fips_round :: "u32 \<Rightarrow> u32 \<Rightarrow> u32 list \<Rightarrow> u32 list" where
  "fips_round w k [a, b, c, d, e, f, g, h] =
     (let T1 = h + Sigma1 e + Ch e f g + k + w; T2 = Sigma0 a + Maj a b c in [T1 + T2, a, b, c, d + T1, e, f, g])"
| "fips_round w k st = st"

definition block_words :: "bytes \<Rightarrow> u32 list" where
  "block_words block = map (\<lambda>i. get_uint32_be block (4 * i)) [0..<16]"

definition fips_compress :: "u32 list \<Rightarrow> bytes \<Rightarrow> u32 list" where
  "fips_compress H block =
     (let W = fips_schedule (block_words block) 64 in map2 (+) H (fold (\<lambda>t. fips_round (W ! t) (K ! t)) [0..<64] H))"

function fips_blocks :: "u32 list \<Rightarrow> bytes \<Rightarrow> u32 list" where
  "fips_blocks H m = (if length m < 64 then H else fips_blocks (fips_compress H (take 64 m)) (drop 64 m))"
  by pat_completeness auto
termination by (relation "measure (\<lambda>(_, m). length m)") auto

declare fips_blocks.simps [simp del]

definition big_endian64 :: "nat \<Rightarrow> bytes" where
  "big_endian64 n = map (\<lambda>i. of_nat (n div 256 ^ (7 - i))) [0..<8]"

definition fips_pad :: "bytes \<Rightarrow> bytes" where
  "fips_pad m = m @ [0x80] @ replicate ((119 - length m mod 64) mod 64) 0 @ big_endian64 (8 * length m)"

definition fips_initial :: "int \<Rightarrow> u32 list" where
  "fips_initial is224 = (if is224 = 0 then sha256_initial_state else sha224_initial_state)"

definition fips_sha :: "int \<Rightarrow> bytes \<Rightarrow> bytes" where
  "fips_sha is224 m =
     concat (map put_uint32_be (take (if is224 = 0 then 8 else 7) (fips_blocks (fips_initial is224) (fips_pad m))))"

subsection \<open>One block\<close>

lemma SHR_eq: "SHR x n = drop_bit n x"
proof -
  have ones: "(0xFFFFFFFF :: u32) = - 1" by simp
  show ?thesis unfolding SHR_def ones by simp
qed

lemma ROTR_eq: "0 < n \<Longrightarrow> n < 32 \<Longrightarrow> ROTR x n = word_rotr n x"
proof (rule bit_word_eqI)
  fix i assume n: "0 < n" "n < 32" and "i < LENGTH(32)"
  then have i: "i < 32" by simp
  show "bit (ROTR x n) i = bit (word_rotr n x) i"
  proof (cases "i + n < 32")
    case True
    then have "\<not> 32 - n \<le> i" by simp
    then show ?thesis using True i n by (simp add: ROTR_def SHR_eq bit_or_iff bit_drop_bit_eq bit_push_bit_iff bit_word_rotr_iff add.commute)
  next
    case False
    then have "(i + n) mod 32 = i - (32 - n)" "\<not> bit x (n + i)" "32 - n \<le> i"
      using i n by (auto simp: mod_if dest: bit_imp_le_length)
    then show ?thesis using False i n
      by (simp add: ROTR_def SHR_eq bit_or_iff bit_drop_bit_eq bit_push_bit_iff bit_word_rotr_iff)
  qed
qed

lemma sha_functions:
  "S0 = sigma0" "S1 = sigma1" "S2 = Sigma0" "S3 = Sigma1" "F0 = Maj" "F1 = Ch"
proof -
  show "F0 = Maj" by (intro ext bit_word_eqI) (auto simp: F0_def Maj_def bit_simps)
  show "F1 = Ch" by (intro ext bit_word_eqI) (auto simp: F1_def Ch_def bit_simps)
qed (simp_all add: fun_eq_iff S0_def S1_def S2_def S3_def sigma0_def sigma1_def Sigma0_def Sigma1_def SHR_eq ROTR_eq)

text \<open>A round leaves the array in place and turns the roles of its elements.\<close>

lemma length_fips_round [simp]: "length (fips_round w k st) = length st"
  by (induction w k st rule: fips_round.induct) (simp_all add: Let_def)

lemma P_step_round:
  assumes "length st = 8"
  shows "P_step (rotate n st) (n mod 8) w k = rotate (Suc n) (fips_round w k st)"
proof -
  obtain a b c d e f g h where st: "st = [a, b, c, d, e, f, g, h]"
    using assms by (auto simp: length_Suc_conv numeral_eq_Suc)
  have "n mod 8 < 8" by simp
  then have "n mod 8 \<in> {0, 1, 2, 3, 4, 5, 6, 7}" by auto
  moreover have "Suc n mod 8 = (if n mod 8 = 7 then 0 else Suc (n mod 8))" by (simp add: mod_Suc)
  ultimately show ?thesis
    unfolding st by (auto simp: rotate_drop_take P_step_def sha_functions Let_def)
qed

lemma length_schedule:
  assumes "length M = 16" and "16 \<le> n"
  shows "length (fips_schedule M n) = n"
  using assms(2) by (induction n rule: dec_induct) (simp_all add: fips_schedule_def assms(1))

lemma schedule_Suc: "16 \<le> n \<Longrightarrow> fips_schedule M (Suc n) = fips_schedule M n @ [fips_word (fips_schedule M n) n]"
  by (simp add: fips_schedule_def)

lemma schedule_prefix:
  assumes "length M = 16" and "16 \<le> m" "m \<le> n"
  shows "take m (fips_schedule M n) = fips_schedule M m"
  using assms(3)
proof (induction n rule: dec_induct)
  case base
  then show ?case using assms by (simp add: length_schedule)
next
  case (step n)
  then show ?case using assms by (simp add: schedule_Suc length_schedule)
qed

lemma fips_word_prefix:
  assumes "16 \<le> t" "t \<le> length W" "t \<le> length V" "take t W = take t V"
  shows "fips_word W t = fips_word V t"
proof -
  have "W ! i = V ! i" if "i < t" for i using assms(4) that by (metis nth_take)
  then show ?thesis using assms(1) by (simp add: fips_word_def)
qed

lemma rounds:
  assumes "length M = 16" "length H = 8" and "n \<le> 64"
  shows "\<exists>W. fold process_round [0..<n] (M @ replicate 48 0, H) =
      (W, rotate n (fold (\<lambda>t. fips_round (fips_schedule M 64 ! t) (K ! t)) [0..<n] H)) \<and>
    length W = 64 \<and> take (max 16 n) W = fips_schedule M (max 16 n) \<and>
    length (fold (\<lambda>t. fips_round (fips_schedule M 64 ! t) (K ! t)) [0..<n] H) = 8"
  using assms(3)
proof (induction n)
  case 0
  have "fips_schedule M 16 = M" by (simp add: fips_schedule_def)
  then show ?case using assms by simp
next
  case (Suc n)
  let ?st = "fold (\<lambda>t. fips_round (fips_schedule M 64 ! t) (K ! t)) [0..<n] H"
  obtain W where W: "fold process_round [0..<n] (M @ replicate 48 0, H) = (W, rotate n ?st)"
      "length W = 64" "take (max 16 n) W = fips_schedule M (max 16 n)" "length ?st = 8"
    using Suc by auto
  define V where "V = (if n < 16 then W else R_step W n)"
  have V: "length V = 64" "take (max 16 (Suc n)) V = fips_schedule M (max 16 (Suc n))"
  proof -
    show "length V = 64" using W(2) by (simp add: V_def R_step_def)
    show "take (max 16 (Suc n)) V = fips_schedule M (max 16 (Suc n))"
    proof (cases "n < 16")
      case True
      then have "max 16 (Suc n) = 16" "max 16 n = 16" by auto
      then show ?thesis using True W(3) by (simp add: V_def)
    next
      case False
      then have t: "take n W = fips_schedule M n" using W(3) by (simp add: max_def)
      have "fips_word W n = fips_word (fips_schedule M n) n"
        using False Suc.prems W(2) t assms(1) by (intro fips_word_prefix) (simp_all add: length_schedule)
      then show ?thesis using False Suc.prems W(2) t
        by (simp add: V_def R_step_def sha_functions fips_word_def [symmetric] take_Suc_conv_app_nth schedule_Suc max_def)
    qed
  qed
  have "V ! n = take (max 16 (Suc n)) V ! n" by simp
  also have "\<dots> = take (max 16 (Suc n)) (fips_schedule M 64) ! n"
    using V(2) Suc.prems schedule_prefix [OF assms(1), of "max 16 (Suc n)" 64] by simp
  finally have "V ! n = fips_schedule M 64 ! n" by simp
  then have "process_round n (W, rotate n ?st) = (V, rotate (Suc n) (fips_round (fips_schedule M 64 ! n) (K ! n) ?st))"
    using P_step_round [OF W(4)] by (simp add: process_round_def V_def)
  then show ?case using W(1,4) V by simp
qed

lemma process_eq:
  assumes "length (sh_state ctx) = 8"
  shows "mbedtls_internal_sha256_process ctx data = (0, ctx\<lparr>sh_state := fips_compress (sh_state ctx) data\<rparr>)"
proof -
  have "length (block_words data) = 16" by (simp add: block_words_def)
  from rounds [OF this assms, of 64] obtain W where
    "fold process_round [0..<64] (block_words data @ replicate 48 0, sh_state ctx) =
      (W, rotate 64 (fold (\<lambda>t. fips_round (fips_schedule (block_words data) 64 ! t) (K ! t)) [0..<64] (sh_state ctx)))"
    "length (fold (\<lambda>t. fips_round (fips_schedule (block_words data) 64 ! t) (K ! t)) [0..<64] (sh_state ctx)) = 8"
    by auto
  then show ?thesis
    by (simp add: mbedtls_internal_sha256_process_def block_words_def [symmetric] fips_compress_def Let_def rotate_id split_beta)
qed

lemma length_fips_compress [simp]: "length H = 8 \<Longrightarrow> length (fips_compress H b) = 8"
proof -
  assume "length H = 8"
  moreover have "length (fold (\<lambda>t. fips_round (W ! t) (K ! t)) ts H) = length H" for W ts
    by (induction ts arbitrary: H) simp_all
  ultimately show ?thesis by (simp add: fips_compress_def Let_def)
qed

subsection \<open>Blocks\<close>

lemma fips_blocks_short [simp]: "length m < 64 \<Longrightarrow> fips_blocks H m = H"
  by (simp add: fips_blocks.simps)

lemma fips_blocks_step: "length b = 64 \<Longrightarrow> fips_blocks H (b @ m) = fips_blocks (fips_compress H b) m"
  by (subst fips_blocks.simps) simp

lemma length_fips_blocks [simp]: "length H = 8 \<Longrightarrow> length (fips_blocks H m) = 8"
proof (induction H m rule: fips_blocks.induct)
  case (1 H m)
  then show ?case by (subst fips_blocks.simps) simp
qed

text \<open>The bytes of a message behind its last complete block.\<close>

definition rest :: "bytes \<Rightarrow> bytes" where
  "rest m = drop (64 * (length m div 64)) m"

lemma length_rest [simp]: "length (rest m) = length m mod 64"
  by (simp add: rest_def minus_mult_div_eq_mod)

lemma rest_short [simp]: "length m < 64 \<Longrightarrow> rest m = m"
  by (simp add: rest_def)

lemma rest_step: "length b = 64 \<Longrightarrow> rest (b @ m) = rest m"
proof -
  assume "length b = 64"
  moreover have "(64 + length m) div 64 = Suc (length m div 64)" by simp
  ultimately show ?thesis by (simp add: rest_def del: div_add_self1)
qed

lemma blocks_append: "fips_blocks H (m @ xs) = fips_blocks (fips_blocks H m) (rest m @ xs) \<and> rest (m @ xs) = rest (rest m @ xs)"
proof (induction H m rule: fips_blocks.induct)
  case (1 H m)
  show ?case
  proof (cases "length m < 64")
    case False
    let ?b = "take 64 m" and ?r = "drop 64 m"
    have b: "length ?b = 64" using False by simp
    have m: "fips_blocks H m = fips_blocks (fips_compress H ?b) ?r" "rest m = rest ?r"
      using fips_blocks_step [OF b, of H ?r] rest_step [OF b, of ?r] by simp_all
    have "fips_blocks H (m @ xs) = fips_blocks (fips_compress H ?b) (?r @ xs)" "rest (m @ xs) = rest (?r @ xs)"
      using fips_blocks_step [OF b, of H "?r @ xs"] rest_step [OF b, of "?r @ xs"] by (simp_all flip: append_assoc)
    then show ?thesis using "1.IH" [OF False] m by simp
  qed simp
qed

lemma blocks_loop_eq:
  assumes "length (sh_state ctx) = 8"
  shows "blocks_loop ctx xs = (0, ctx\<lparr>sh_state := fips_blocks (sh_state ctx) xs\<rparr>, rest xs)"
  using assms
proof (induction "length xs" arbitrary: ctx xs rule: less_induct)
  case less
  show ?case
  proof (cases "length xs < 64")
    case True
    then show ?thesis by (simp add: blocks_loop.simps)
  next
    case False
    then have b: "length (take 64 xs) = 64" "length (drop 64 xs) < length xs" by simp_all
    have "fips_blocks (sh_state ctx) xs = fips_blocks (fips_compress (sh_state ctx) (take 64 xs)) (drop 64 xs)" "rest xs = rest (drop 64 xs)"
      using fips_blocks_step [OF b(1), of "sh_state ctx" "drop 64 xs"] rest_step [OF b(1), of "drop 64 xs"] by simp_all
    then show ?thesis using False less.hyps [OF b(2)] less.prems
      by (subst blocks_loop.simps) (simp add: process_eq)
  qed
qed

subsection \<open>Counting\<close>

text \<open>The two words of the counter hold the number of bytes, and the low bits the place in the buffer.\<close>

lemma low_bits: "unat ((of_nat n :: u32) AND 0x3F) = n mod 64"
proof -
  have mask: "(0x3F :: u32) = mask 6" by (simp add: mask_eq_exp_minus_1)
  show ?thesis
    unfolding mask take_bit_eq_mask [symmetric]
    by (simp add: unsigned_take_bit_eq unsigned_of_nat take_bit_take_bit) (simp add: take_bit_eq_mod)
qed

lemma carry:
  fixes n k B :: nat
  assumes "k < B"
  shows "(n mod B + k) mod B < k \<longleftrightarrow> B \<le> n mod B + k"
    and "(n + k) div B = n div B + (if B \<le> n mod B + k then 1 else 0)"
proof -
  have n: "n mod B < B" using assms by simp
  then have wrap: "n mod B + k - B < B" using assms by linarith
  show "(n mod B + k) mod B < k \<longleftrightarrow> B \<le> n mod B + k"
  proof (cases "n mod B + k < B")
    case False
    then have "(n mod B + k) mod B = n mod B + k - B" using wrap by (simp add: le_mod_geq)
    with False n show ?thesis by linarith
  qed (use n in auto)
  have "(n mod B + k) div B = (if B \<le> n mod B + k then 1 else 0)"
    using n assms wrap by (auto simp: le_div_geq)
  moreover have "n + k = n mod B + k + n div B * B" by simp
  then have "(n + k) div B = n div B + (n mod B + k) div B" using assms by (metis div_mult_self3 add.commute gr_implies_not0)
  ultimately show "(n + k) div B = n div B + (if B \<le> n mod B + k then 1 else 0)" by simp
qed

lemma counter_step:
  fixes n k :: nat
  assumes "k < 2 ^ 32"
  shows "(of_nat n + of_nat k :: u32) AND 0xFFFFFFFF = of_nat (n + k)"
    and "(if (of_nat (n + k) :: u32) < of_nat k then of_nat (n div 2 ^ 32) + 1 else of_nat (n div 2 ^ 32) :: u32) = of_nat ((n + k) div 2 ^ 32)"
proof -
  have ones: "(0xFFFFFFFF :: u32) = - 1" by simp
  show "(of_nat n + of_nat k :: u32) AND 0xFFFFFFFF = of_nat (n + k)" unfolding ones by simp
  have k: "unat (of_nat k :: u32) = k" using assms by (simp add: unsigned_of_nat take_bit_nat_eq_self)
  have u: "unat (of_nat (n + k) :: u32) = (n mod 2 ^ 32 + k) mod 2 ^ 32"
    by (simp only: unsigned_of_nat take_bit_eq_mod mod_add_left_eq) simp
  have "(of_nat (n + k) :: u32) < of_nat k \<longleftrightarrow> 2 ^ 32 \<le> n mod 2 ^ 32 + k"
    unfolding word_less_nat_alt k u by (rule carry(1) [OF assms])
  then show "(if (of_nat (n + k) :: u32) < of_nat k then of_nat (n div 2 ^ 32) + 1 else of_nat (n div 2 ^ 32) :: u32) = of_nat ((n + k) div 2 ^ 32)"
    unfolding carry(2) [OF assms] by simp
qed

subsection \<open>Updates\<close>

text \<open>The state of a context that has seen the message \<open>m\<close>.\<close>

definition absorbed :: "int \<Rightarrow> bytes \<Rightarrow> mbedtls_sha256_context \<Rightarrow> bool" where
  "absorbed is224 m ctx \<longleftrightarrow>
     sh_total ctx = (of_nat (length m), of_nat (length m div 2 ^ 32)) \<and> sh_state ctx = fips_blocks (fips_initial is224) m \<and>
     length (sh_buffer ctx) = 64 \<and> take (length m mod 64) (sh_buffer ctx) = rest m \<and> sh_is224 ctx = is224"

lemma length_initial [simp]: "length (fips_initial is224) = 8"
  by (simp add: fips_initial_def sha256_initial_state_def sha224_initial_state_def)

lemma starts_absorbed:
  assumes "length (sh_buffer ctx) = 64"
  obtains ctx' where "mbedtls_sha256_starts_ret ctx is224 = (0, ctx')" "absorbed is224 [] ctx'"
  using assms by (simp add: mbedtls_sha256_starts_ret_def absorbed_def fips_initial_def)

lemma length_put_at [simp]: "pos + length src \<le> length b \<Longrightarrow> length (put_at b pos src) = length b"
  by (simp add: put_at_def)

lemma take_put_at: "pos \<le> length b \<Longrightarrow> take (pos + length src) (put_at b pos src) = take pos b @ src"
  by (simp add: put_at_def)

text \<open>The work of an update after the counter: complete the buffer, hash whole blocks, keep the rest.\<close>

lemma update_buffer:
  assumes "length (sh_state ctx) = 8" "length (sh_buffer ctx) = 64" "take (length t) (sh_buffer ctx) = t" "length t < 64" and "xs \<noteq> []"
  shows "\<exists>b. (let (ret, ctx, input, left) =
              (if length t \<noteq> 0 \<and> length xs \<ge> 64 - length t then
                 let ctx = ctx\<lparr>sh_buffer := put_at (sh_buffer ctx) (length t) (take (64 - length t) xs)\<rparr>;
                     (ret, ctx) = mbedtls_internal_sha256_process ctx (sh_buffer ctx)
                 in (ret, ctx, drop (64 - length t) xs, 0)
               else (0, ctx, xs, length t))
        in if ret \<noteq> 0 then (ret, ctx)
           else
             let (ret, ctx, input) = blocks_loop ctx input in
             if ret \<noteq> 0 then (ret, ctx)
             else if length input > 0 then (0, ctx\<lparr>sh_buffer := put_at (sh_buffer ctx) left input\<rparr>)
             else (0, ctx)) = (0, ctx\<lparr>sh_state := fips_blocks (sh_state ctx) (t @ xs), sh_buffer := b\<rparr>) \<and>
      length b = 64 \<and> take (length (t @ xs) mod 64) b = rest (t @ xs)"
proof (cases "length t \<noteq> 0 \<and> length xs \<ge> 64 - length t")
  case True
  let ?b = "put_at (sh_buffer ctx) (length t) (take (64 - length t) xs)" and ?xs = "drop (64 - length t) xs"
  have b: "?b = t @ take (64 - length t) xs" "length ?b = 64"
    using True assms(2,3,4) by (simp_all add: put_at_def)
  have tx: "t @ xs = ?b @ ?xs" using b(1) by simp
  have eqs: "fips_blocks (sh_state ctx) (t @ xs) = fips_blocks (fips_compress (sh_state ctx) ?b) ?xs" "rest (t @ xs) = rest ?xs"
    "length (t @ xs) mod 64 = length ?xs mod 64"
    unfolding tx using b(2) by (simp_all add: fips_blocks_step rest_step)
  show ?thesis
  proof (cases "rest ?xs = []")
    case r: True
    then have "length ?xs mod 64 = 0" using length_rest [of ?xs] by simp
    with True r show ?thesis using assms(1) b(2) eqs by (intro exI [of _ ?b]) (simp add: process_eq blocks_loop_eq)
  next
    case r: False
    have "take (length ?xs mod 64) (put_at ?b 0 (rest ?xs)) = rest ?xs" using take_put_at [of 0 ?b "rest ?xs"] by simp
    with True r show ?thesis using assms(1) b(2) eqs
      by (intro exI [of _ "put_at ?b 0 (rest ?xs)"]) (simp add: process_eq blocks_loop_eq)
  qed
next
  case False
  have rest: "fips_blocks (sh_state ctx) (t @ xs) = fips_blocks (sh_state ctx) xs" "rest (t @ xs) = t @ rest xs" "length t + length (rest xs) \<le> 64"
    "length (t @ xs) mod 64 = length t + length (rest xs)"
  proof -
    have "length t = 0 \<or> length t + length xs < 64" using False by linarith
    moreover have "t = [] \<Longrightarrow> length (rest xs) \<le> 64" by simp
    ultimately show "fips_blocks (sh_state ctx) (t @ xs) = fips_blocks (sh_state ctx) xs" "rest (t @ xs) = t @ rest xs"
      "length t + length (rest xs) \<le> 64" "length (t @ xs) mod 64 = length t + length (rest xs)"
      by auto
  qed
  show ?thesis
  proof (cases "rest xs = []")
    case True
    then show ?thesis using False assms rest
      by (intro exI [of _ "sh_buffer ctx"]) (auto simp: blocks_loop_eq)
  next
    case r: False
    let ?b = "put_at (sh_buffer ctx) (length t) (rest xs)"
    have "take (length t + length (rest xs)) ?b = t @ rest xs" using assms(2-4) take_put_at [of "length t" "sh_buffer ctx" "rest xs"] by simp
    then show ?thesis using False r assms(1,2) rest
      by (intro exI [of _ ?b]) (auto simp: blocks_loop_eq)
  qed
qed

lemma update_absorbed:
  assumes "absorbed is224 m ctx" and "length xs < 2 ^ 32"
  obtains ctx' where "mbedtls_sha256_update_ret ctx xs = (0, ctx')" "absorbed is224 (m @ xs) ctx'"
proof (cases "xs = []")
  case True
  then show ?thesis using assms(1) that by (simp add: mbedtls_sha256_update_ret_def)
next
  case False
  define c where "c = ctx\<lparr>sh_total := (of_nat (length (m @ xs)), of_nat (length (m @ xs) div 2 ^ 32))\<rparr>"
  have t: "length (rest m) < 64" "take (length (rest m)) (sh_buffer c) = rest m" "length (sh_state c) = 8" "length (sh_buffer c) = 64"
    using assms(1) by (simp_all add: absorbed_def c_def)
  have left: "unat (fst (sh_total ctx) AND 0x3F) = length (rest m)" using assms(1) by (simp add: absorbed_def low_bits)
  have total: "(fst (sh_total ctx) + of_nat (length xs)) AND 0xFFFFFFFF = (of_nat (length (m @ xs)) :: u32)"
    "(if (of_nat (length (m @ xs)) :: u32) < of_nat (length xs) then snd (sh_total ctx) + 1 else snd (sh_total ctx)) =
      of_nat (length (m @ xs) div 2 ^ 32)"
    using assms counter_step [OF assms(2), of "length m"] by (simp_all only: absorbed_def fst_conv snd_conv length_append)
  obtain b where b: "mbedtls_sha256_update_ret ctx xs = (0, c\<lparr>sh_state := fips_blocks (sh_state c) (rest m @ xs), sh_buffer := b\<rparr>)"
      "length b = 64" "take (length (rest m @ xs) mod 64) b = rest (rest m @ xs)"
    using update_buffer [OF t(3,4,2,1) False] False
    unfolding mbedtls_sha256_update_ret_def Let_def left total c_def [symmetric] by auto
  have len: "length (rest m @ xs) mod 64 = length (m @ xs) mod 64" by (simp add: mod_add_left_eq)
  have "absorbed is224 (m @ xs) (c\<lparr>sh_state := fips_blocks (sh_state c) (rest m @ xs), sh_buffer := b\<rparr>)"
    unfolding absorbed_def using assms(1) blocks_append [of "fips_initial is224" m xs] b(2,3) len by (simp add: absorbed_def c_def)
  with b(1) show ?thesis by (rule that)
qed

subsection \<open>The digest\<close>

lemma bit_of_nat_word: "bit (of_nat n :: 'w::len word) j \<longleftrightarrow> j < LENGTH('w) \<and> bit n j"
  using bit_word_of_int_iff [of "int n" j, where ?'a = 'w] by (simp only: of_int_of_nat_eq bit_of_nat_iff_bit possible_bit_int simp_thms)

lemma bit_byte_of: "bit (of_nat (n div 256 ^ k) :: byte) j \<longleftrightarrow> j < 8 \<and> bit n (8 * k + j)"
proof -
  have "n div 256 ^ k = drop_bit (8 * k) n" by (simp add: drop_bit_eq_div power_mult)
  then show ?thesis by (simp add: bit_of_nat_word bit_drop_bit_eq)
qed

lemma bit_times8: "bit (8 * n :: nat) j \<longleftrightarrow> 3 \<le> j \<and> bit n (j - 3)"
proof -
  have "8 * n = push_bit 3 n" by (simp add: push_bit_eq_mult)
  then show ?thesis by (simp add: bit_push_bit_iff)
qed

lemma bit_high: "j < 32 \<Longrightarrow>
    bit (drop_bit 29 (of_nat n :: u32) OR push_bit 3 (of_nat (n div 2 ^ 32) :: u32)) j \<longleftrightarrow> bit (8 * n) (32 + j)"
proof -
  assume j: "j < 32"
  define q where "q = (of_nat (n div 2 ^ 32) :: u32)"
  have "n div 2 ^ 32 = drop_bit 32 n" by (simp add: drop_bit_eq_div)
  then have q: "bit q i \<longleftrightarrow> i < 32 \<and> bit n (32 + i)" for i
    by (simp add: q_def bit_of_nat_word bit_drop_bit_eq)
  have "bit (drop_bit 29 (of_nat n :: u32) OR push_bit 3 q) j \<longleftrightarrow> bit (8 * n) (32 + j)"
  proof (cases "j < 3")
    case True
    then show ?thesis by (simp add: bit_or_iff bit_push_bit_iff bit_drop_bit_eq bit_times8 bit_of_nat_word)
  next
    case False
    then obtain i where i: "j = i + 3" by (metis add.commute le_Suc_ex not_less)
    show ?thesis unfolding i using j i q [of i] by (simp add: bit_or_iff bit_push_bit_iff bit_drop_bit_eq bit_times8 bit_of_nat_word)
  qed
  then show ?thesis unfolding q_def .
qed

lemma bit_low: "j < 32 \<Longrightarrow> bit (push_bit 3 (of_nat n :: u32)) j \<longleftrightarrow> bit (8 * n) j"
  by (auto simp: bit_push_bit_iff bit_of_nat_word bit_times8)

lemma put_uint32_byte:
  assumes "\<And>j. j < 32 \<Longrightarrow> bit w j \<longleftrightarrow> bit n (8 * k + j)"
  shows "put_uint32_be w = map (\<lambda>i. of_nat (n div 256 ^ i)) [k + 3, k + 2, k + 1, k]"
proof -
  have "(ucast (drop_bit (8 * i) w) :: byte) = of_nat (n div 256 ^ (k + i))" if "i < 4" for i
    using that assms by (intro bit_word_eqI) (simp add: bit_unsigned_iff bit_drop_bit_eq bit_byte_of algebra_simps)
  from this [of 0] this [of 1] this [of 2] this [of 3] show ?thesis by (simp add: put_uint32_be_def)
qed

lemma length_field:
  "put_uint32_be (drop_bit 29 (of_nat n) OR push_bit 3 (of_nat (n div 2 ^ 32))) @ put_uint32_be (push_bit 3 (of_nat n)) = big_endian64 (8 * n)"
proof -
  have h: "put_uint32_be (drop_bit 29 (of_nat n) OR push_bit 3 (of_nat (n div 2 ^ 32))) = map (\<lambda>i. of_nat (8 * n div 256 ^ i)) [4 + 3, 4 + 2, 4 + 1, 4]"
    by (rule put_uint32_byte) (simp only: bit_high, simp)
  have l: "put_uint32_be (push_bit 3 (of_nat n)) = map (\<lambda>i. of_nat (8 * n div 256 ^ i)) [0 + 3, 0 + 2, 0 + 1, 0]"
    by (rule put_uint32_byte) (simp only: bit_low, simp)
  show ?thesis unfolding h l big_endian64_def by (simp add: upt_rec)
qed

lemma length_big_endian64 [simp]: "length (big_endian64 n) = 8"
  by (simp add: big_endian64_def)

lemma length_put_uint32_be [simp]: "length (put_uint32_be w) = 4"
  by (simp add: put_uint32_be_def)

lemma put_length:
  assumes "length b = 64"
  shows "put_at (put_at b 56 (put_uint32_be v)) 60 (put_uint32_be w) = take 56 b @ put_uint32_be v @ put_uint32_be w"
  using assms by (simp add: put_at_def)

lemma set_marker:
  assumes "length t < 64" "length b = 64" "take (length t) b = t"
  shows "take (Suc (length t)) (b[length t := 0x80]) = t @ [0x80]"
  using assms by (simp add: take_Suc_conv_app_nth)

lemma finish_absorbed:
  assumes "absorbed is224 m ctx"
  obtains ctx' where "mbedtls_sha256_finish_ret ctx = (0, ctx', fips_sha is224 m)" "length (sh_buffer ctx') = 64"
proof -
  define t where "t = rest m"
  define b where "b = (sh_buffer ctx)[length t := 0x80]"
  define L where "L = big_endian64 (8 * length m)"
  define H where "H = sh_state ctx"
  have c: "length t < 64" "length b = 64" "take (Suc (length t)) b = t @ [0x80]" "length H = 8" "sh_is224 ctx = is224"
    using assms set_marker [of t "sh_buffer ctx"] by (auto simp: absorbed_def t_def b_def H_def)
  have used: "unat (fst (sh_total ctx) AND 0x3F) = length t" using assms by (simp add: absorbed_def low_bits t_def)
  have field: "put_uint32_be (drop_bit 29 (fst (sh_total ctx)) OR push_bit 3 (snd (sh_total ctx))) @ put_uint32_be (push_bit 3 (fst (sh_total ctx))) = L"
    using assms length_field [of "length m"] by (simp only: absorbed_def L_def fst_conv snd_conv)
  have fields: "put_at (put_at z 56 (put_uint32_be (drop_bit 29 (fst (sh_total ctx)) OR push_bit 3 (snd (sh_total ctx))))) 60
      (put_uint32_be (push_bit 3 (fst (sh_total ctx)))) = take 56 z @ L" if "length z = 64" for z
    using put_length [OF that] field by simp
  have sha: "fips_sha is224 m = concat (map put_uint32_be (take (if is224 = 0 then 8 else 7)
      (fips_blocks H (t @ [0x80] @ replicate ((119 - length t) mod 64) 0 @ L))))"
    using assms blocks_append [of "fips_initial is224" m "[0x80] @ replicate ((119 - length t) mod 64) 0 @ L"]
    by (simp add: fips_sha_def fips_pad_def absorbed_def H_def t_def L_def)
  have L: "length L = 8" by (simp add: L_def)
  show ?thesis
  proof (cases "Suc (length t) \<le> 56")
    case True
    let ?z = "put_at b (Suc (length t)) (replicate (56 - Suc (length t)) 0)"
    have z: "length ?z = 64" "take 56 ?z = t @ [0x80] @ replicate (55 - length t) 0"
      using True c(2,3) take_put_at [of "Suc (length t)" b "replicate (56 - Suc (length t)) 0"] by simp_all
    have "(119 - length t) mod 64 = 55 - length t" using True by (simp add: le_mod_geq)
    then have "fips_blocks H (t @ [0x80] @ replicate ((119 - length t) mod 64) 0 @ L) = fips_compress H (take 56 ?z @ L)"
      using fips_blocks_step [of "take 56 ?z @ L" H "[]"] z L by simp
    moreover have "length (take 56 ?z @ L) = 64" using z(1) L by simp
    ultimately have "mbedtls_sha256_finish_ret ctx =
        (0, ctx\<lparr>sh_buffer := take 56 ?z @ L, sh_state := fips_compress H (take 56 ?z @ L)\<rparr>, fips_sha is224 m)"
      unfolding mbedtls_sha256_finish_ret_def Let_def used using True c(4,5) sha fields [OF z(1)]
      by (simp add: b_def [symmetric] process_eq H_def del: take_append)
    then show ?thesis by (rule that) (use z(1) L in simp)
  next
    case False
    let ?z = "put_at b (Suc (length t)) (replicate (64 - Suc (length t)) 0)"
    have z: "length ?z = 64" "?z = t @ [0x80] @ replicate (63 - length t) 0"
      using False c(1,2,3) by (simp_all add: put_at_def)
    let ?y = "put_at ?z 0 (replicate 56 0)"
    have y: "length ?y = 64" "take 56 ?y = replicate 56 0" using z(1) take_put_at [of 0 ?z "replicate 56 0"] by simp_all
    have "(119 - length t) mod 64 = (63 - length t) + 56" using False c(1) by simp
    then have pad: "t @ [0x80] @ replicate ((119 - length t) mod 64) 0 @ L = ?z @ (take 56 ?y @ L)"
      unfolding y(2) unfolding z(2) by (simp only: replicate_add append_assoc)
    have "fips_blocks H (t @ [0x80] @ replicate ((119 - length t) mod 64) 0 @ L) = fips_compress (fips_compress H ?z) (take 56 ?y @ L)"
      unfolding pad using fips_blocks_step [OF z(1)] fips_blocks_step [of "take 56 ?y @ L" _ "[]"] y(1) L by simp
    then have "mbedtls_sha256_finish_ret ctx =
        (0, ctx\<lparr>sh_buffer := take 56 ?y @ L, sh_state := fips_compress (fips_compress H ?z) (take 56 ?y @ L)\<rparr>, fips_sha is224 m)"
      unfolding mbedtls_sha256_finish_ret_def Let_def used using False c(4,5) sha fields [OF y(1)]
      by (simp add: b_def [symmetric] process_eq H_def del: take_append)
    then show ?thesis by (rule that) (use y(1) L in simp)
  qed
qed

lemma updates_absorbed:
  assumes "\<forall>xs\<in>set chunks. length xs < 2 ^ 32" and "absorbed is224 m ctx"
  shows "absorbed is224 (m @ concat chunks) (fold (\<lambda>xs c. snd (mbedtls_sha256_update_ret c xs)) chunks ctx)"
  using assms
proof (induction chunks arbitrary: m ctx)
  case (Cons xs chunks)
  then obtain c where "mbedtls_sha256_update_ret ctx xs = (0, c)" "absorbed is224 (m @ xs) c"
    using update_absorbed [of is224 m ctx xs] by auto
  with Cons show ?case by fastforce
qed simp

text \<open>
  C12: the streaming interface of SHA-256 computes the function of the standard: however a message is divided
  into updates of less than four gigabytes, the digest is that of the whole message.  (The code drops
  the upper half of the length of a single larger update.)
\<close>

theorem sha256_streaming:
  assumes "\<forall>xs\<in>set chunks. length xs < 2 ^ 32"
  shows "\<exists>ctx'. mbedtls_sha256_finish_ret (fold (\<lambda>xs c. snd (mbedtls_sha256_update_ret c xs)) chunks
      (snd (mbedtls_sha256_starts_ret mbedtls_sha256_init is224))) = (0, ctx', fips_sha is224 (concat chunks))"
proof -
  have "length (sh_buffer mbedtls_sha256_init) = 64" by (simp add: mbedtls_sha256_init_def)
  then obtain c where c: "mbedtls_sha256_starts_ret mbedtls_sha256_init is224 = (0, c)" "absorbed is224 [] c" by (rule starts_absorbed)
  note whole = updates_absorbed [OF assms c(2), simplified]
  show ?thesis unfolding c(1) snd_conv by (rule finish_absorbed [OF whole]) blast
qed

theorem sha256_streaming_witness:
  "\<exists>ctx'. mbedtls_sha256_finish_ret (fold (\<lambda>xs c. snd (mbedtls_sha256_update_ret c xs)) [[97], replicate 63 98, [], replicate 100 99]
      (snd (mbedtls_sha256_starts_ret mbedtls_sha256_init 0))) = (0, ctx', fips_sha 0 (concat [[97], replicate 63 98, [], replicate 100 99]))"
  by (rule sha256_streaming) simp

end
