(* ===== verification/Md_Props.thy ===== *)
theory Md_Props
  imports Md Sha256_Props Suite_Laws
begin

unbundle bit_operations_syntax

section \<open>HMAC and HKDF compute the functions of RFC 2104 and RFC 5869\<close>

text \<open>
  HMAC and HKDF use a digest through the four operations of \<open>md.c\<close>.  The locale \<open>message_digest\<close>
  states what they rely on; the digest is a relation, so that one proof covers both what is true of all
  inputs (the lengths) and what is true of inputs that the counter of SHA-256 can hold (the value).
\<close>

subsection \<open>The interface\<close>

locale message_digest =
  fixes info :: mbedtls_md_info_t
    and small :: "bytes \<Rightarrow> bool"
    and digest :: "bytes \<Rightarrow> bytes \<Rightarrow> bool"
    and ready :: "mbedtls_md_context_t \<Rightarrow> bool"
    and fed :: "bytes \<Rightarrow> mbedtls_md_context_t \<Rightarrow> bool"
  assumes sizes: "0 < mi_size info" "mi_size info \<le> mi_block_size info" "mi_block_size info = 64"
    and small_short: "length xs \<le> 64 \<Longrightarrow> small xs"
    and digest_length: "digest m d \<Longrightarrow> length d = mi_size info"
    and ready_info: "ready ctx \<Longrightarrow> mc_md_info ctx = Some info"
    and fed_info: "fed m ctx \<Longrightarrow> mc_md_info ctx = Some info"
    and ready_pads: "ready ctx \<Longrightarrow> ready (ctx\<lparr>mc_hmac_ctx := p\<rparr>)"
    and prepared: "\<exists>ctx. mbedtls_md_setup (True, True) mbedtls_md_init (Some info) 1 = (0, ctx) \<and> ready ctx \<and> mc_hmac_ctx ctx \<noteq> None"
    and starts: "ready ctx \<Longrightarrow> \<exists>ctx'. mbedtls_md_starts ctx = Some (0, ctx') \<and> fed [] ctx' \<and> mc_hmac_ctx ctx' = mc_hmac_ctx ctx"
    and update: "fed m ctx \<Longrightarrow> small xs \<Longrightarrow>
      \<exists>ctx'. mbedtls_md_update ctx xs = Some (0, ctx') \<and> fed (m @ xs) ctx' \<and> mc_hmac_ctx ctx' = mc_hmac_ctx ctx"
    and finish: "fed m ctx \<Longrightarrow>
      \<exists>ctx' d. mbedtls_md_finish ctx = Some (0, ctx', d) \<and> digest m d \<and> ready ctx' \<and> mc_hmac_ctx ctx' = mc_hmac_ctx ctx"
begin

text \<open>The key of a block, the message authentication code, and the blocks of a derivation.\<close>

definition block_key :: "bytes \<Rightarrow> bytes \<Rightarrow> bool" where
  "block_key key k \<longleftrightarrow> (if length key > 64 then digest key k else k = key)"

definition mac :: "bytes \<Rightarrow> bytes \<Rightarrow> bytes \<Rightarrow> bool" where
  "mac key m d \<longleftrightarrow> (\<exists>k inner. block_key key k \<and> digest (xor_key (replicate 64 0x36) k @ m) inner \<and>
     digest (xor_key (replicate 64 0x5C) k @ inner) d)"

fun chain :: "bytes \<Rightarrow> bytes \<Rightarrow> bytes \<Rightarrow> nat \<Rightarrow> bytes list \<Rightarrow> bool" where
  "chain prk ctxt t i [] \<longleftrightarrow> True"
| "chain prk ctxt t i (d # ds) \<longleftrightarrow> mac prk (t @ ctxt @ [of_nat i]) d \<and> chain prk ctxt d (i + 1) ds"

lemma length_xor_key [simp]: "length (xor_key ps ks) = length ps"
  by (induction ps ks rule: xor_key.induct) simp_all

lemma mac_length: "mac key m d \<Longrightarrow> length d = mi_size info"
  by (auto simp: mac_def digest_length)

lemma chain_length: "chain prk ctxt t i ds \<Longrightarrow> length (concat ds) = mi_size info * length ds"
  by (induction ds arbitrary: t i) (auto simp: mac_length)

text \<open>A context in the middle of a computation under \<open>key\<close> that has read \<open>m\<close>.\<close>

definition keyed :: "bytes \<Rightarrow> bytes \<Rightarrow> mbedtls_md_context_t \<Rightarrow> bool" where
  "keyed key m ctx \<longleftrightarrow> (\<exists>k. block_key key k \<and> fed (xor_key (replicate 64 0x36) k @ m) ctx \<and>
     mc_hmac_ctx ctx = Some (xor_key (replicate 64 0x36) k @ xor_key (replicate 64 0x5C) k))"

lemma hmac_key_ok:
  assumes "ready ctx" and "small key"
  obtains ctx' k where "hmac_key ctx info key = Some (0, ctx', k)" "block_key key k" "ready ctx'"
proof (cases "length key > 64")
  case True
  obtain c1 where 1: "mbedtls_md_starts ctx = Some (0, c1)" "fed [] c1" using starts [OF assms(1)] by auto
  obtain c2 where 2: "mbedtls_md_update c1 key = Some (0, c2)" "fed ([] @ key) c2" using update [OF 1(2) assms(2)] by auto
  obtain c3 d where 3: "mbedtls_md_finish c2 = Some (0, c3, d)" "digest ([] @ key) d" "ready c3" using finish [OF 2(2)] by auto
  show ?thesis
    by (rule that [of c3 d]) (use True 1 2 3 in \<open>simp_all add: hmac_key_def block_key_def sizes(3) digest_length\<close>)
next
  case False
  then show ?thesis using assms(1) that [of ctx key] by (simp add: hmac_key_def block_key_def sizes(3))
qed

lemma hmac_starts_ok:
  assumes "ready ctx" "mc_hmac_ctx ctx \<noteq> None" and "small key"
  obtains ctx' where "mbedtls_md_hmac_starts ctx key = Some (0, ctx')" "keyed key [] ctx'"
proof -
  obtain c0 k where 0: "hmac_key ctx info key = Some (0, c0, k)" "block_key key k" "ready c0"
    by (rule hmac_key_ok [OF assms(1,3)])
  let ?i = "xor_key (replicate 64 0x36) k" and ?o = "xor_key (replicate 64 0x5C) k"
  obtain c1 where 1: "mbedtls_md_starts (c0\<lparr>mc_hmac_ctx := Some (?i @ ?o)\<rparr>) = Some (0, c1)" "fed [] c1" "mc_hmac_ctx c1 = Some (?i @ ?o)"
    using starts [OF ready_pads [OF 0(3)]] by auto
  obtain c2 where 2: "mbedtls_md_update c1 ?i = Some (0, c2)" "fed ([] @ ?i) c2" "mc_hmac_ctx c2 = Some (?i @ ?o)"
    using update [OF 1(2) small_short, of ?i] 1(3) by auto
  show ?thesis
    by (rule that [of c2]) (use assms(1,2) 0 1 2 ready_info in \<open>auto simp: mbedtls_md_hmac_starts_def sizes(3) keyed_def\<close>)
qed

lemma hmac_update_ok:
  assumes "keyed key m ctx" and "small xs"
  obtains ctx' where "mbedtls_md_hmac_update ctx xs = Some (0, ctx')" "keyed key (m @ xs) ctx'"
proof -
  obtain k where k: "block_key key k" "fed (xor_key (replicate 64 0x36) k @ m) ctx"
      "mc_hmac_ctx ctx = Some (xor_key (replicate 64 0x36) k @ xor_key (replicate 64 0x5C) k)"
    using assms(1) by (auto simp: keyed_def)
  obtain c where c: "mbedtls_md_update ctx xs = Some (0, c)" "fed ((xor_key (replicate 64 0x36) k @ m) @ xs) c" "mc_hmac_ctx c = mc_hmac_ctx ctx"
    using update [OF k(2) assms(2)] by auto
  then have "keyed key (m @ xs) c" unfolding keyed_def using k by (intro exI [of _ k]) simp
  moreover have "mbedtls_md_hmac_update ctx xs = Some (0, c)"
    using c(1) k(3) fed_info [OF k(2)] by (simp add: mbedtls_md_hmac_update_def)
  ultimately show ?thesis using that by blast
qed

lemma hmac_finish_ok:
  assumes "keyed key m ctx"
  obtains ctx' d where "mbedtls_md_hmac_finish ctx = Some (0, ctx', d)" "mac key m d" "ready ctx'" "mc_hmac_ctx ctx' \<noteq> None"
proof -
  obtain k where k: "block_key key k" "fed (xor_key (replicate 64 0x36) k @ m) ctx"
      "mc_hmac_ctx ctx = Some (xor_key (replicate 64 0x36) k @ xor_key (replicate 64 0x5C) k)"
    using assms by (auto simp: keyed_def)
  obtain c1 e where 1: "mbedtls_md_finish ctx = Some (0, c1, e)" "digest (xor_key (replicate 64 0x36) k @ m) e" "ready c1"
      "mc_hmac_ctx c1 = mc_hmac_ctx ctx"
    using finish [OF k(2)] by auto
  obtain c2 where 2: "mbedtls_md_starts c1 = Some (0, c2)" "fed [] c2" "mc_hmac_ctx c2 = mc_hmac_ctx c1" using starts [OF 1(3)] by auto
  obtain c3 where 3: "mbedtls_md_update c2 (xor_key (replicate 64 0x5C) k) = Some (0, c3)" "fed ([] @ xor_key (replicate 64 0x5C) k) c3"
      "mc_hmac_ctx c3 = mc_hmac_ctx c2"
    using update [OF 2(2) small_short, of "xor_key (replicate 64 0x5C) k"] by auto
  have e: "length e = mi_size info" "small e" using digest_length [OF 1(2)] small_short sizes by auto
  obtain c4 where 4: "mbedtls_md_update c3 e = Some (0, c4)" "fed (([] @ xor_key (replicate 64 0x5C) k) @ e) c4" "mc_hmac_ctx c4 = mc_hmac_ctx c3"
    using update [OF 3(2) e(2)] by auto
  obtain c5 d where 5: "mbedtls_md_finish c4 = Some (0, c5, d)" "digest (([] @ xor_key (replicate 64 0x5C) k) @ e) d" "ready c5"
      "mc_hmac_ctx c5 = mc_hmac_ctx c4"
    using finish [OF 4(2)] by auto
  have "mac key m d" unfolding mac_def using k(1) 1(2) 5(2) by (intro exI [of _ k] exI [of _ e]) simp
  moreover have "mbedtls_md_hmac_finish ctx = Some (0, c5, d)"
    using k(3) fed_info [OF k(2)] 1(1) 2(1) 3(1) 4(1) 5(1) e(1) by (simp add: mbedtls_md_hmac_finish_def sizes(3))
  ultimately show ?thesis using that 5(3) k(3) 1(4) 2(3) 3(3) 4(3) 5(4) by fastforce
qed

lemma hmac_ok:
  assumes "small key" "small m"
  obtains d where "mbedtls_md_hmac (True, True) (Some info) key m = Some (0, d)" "mac key m d"
proof -
  obtain c0 where 0: "mbedtls_md_setup (True, True) mbedtls_md_init (Some info) 1 = (0, c0)" "ready c0" "mc_hmac_ctx c0 \<noteq> None"
    using prepared by auto
  obtain c1 where 1: "mbedtls_md_hmac_starts c0 key = Some (0, c1)" "keyed key [] c1" by (rule hmac_starts_ok [OF 0(2,3) assms(1)])
  obtain c2 where 2: "mbedtls_md_hmac_update c1 m = Some (0, c2)" "keyed key ([] @ m) c2" by (rule hmac_update_ok [OF 1(2) assms(2)])
  obtain c3 d where 3: "mbedtls_md_hmac_finish c2 = Some (0, c3, d)" "mac key ([] @ m) d" by (rule hmac_finish_ok [OF 2(2)])
  show ?thesis by (rule that [of d]) (use 0 1 2 3 in \<open>simp_all add: mbedtls_md_hmac_def\<close>)
qed

subsection \<open>Derivation\<close>

lemma expand_block_ok:
  assumes "ready ctx" "mc_hmac_ctx ctx \<noteq> None" and "small prk" "small t" "small ctxt"
  obtains ctx' d where "expand_block ctx prk t ctxt i = Some (0, ctx', d)" "mac prk (t @ ctxt @ [of_nat i]) d" "ready ctx'" "mc_hmac_ctx ctx' \<noteq> None"
proof -
  obtain c1 where 1: "mbedtls_md_hmac_starts ctx prk = Some (0, c1)" "keyed prk [] c1" by (rule hmac_starts_ok [OF assms(1-3)])
  obtain c2 where 2: "mbedtls_md_hmac_update c1 t = Some (0, c2)" "keyed prk ([] @ t) c2" by (rule hmac_update_ok [OF 1(2) assms(4)])
  obtain c3 where 3: "mbedtls_md_hmac_update c2 ctxt = Some (0, c3)" "keyed prk (([] @ t) @ ctxt) c3" by (rule hmac_update_ok [OF 2(2) assms(5)])
  have "small [of_nat i]" by (rule small_short) simp
  then obtain c4 where 4: "mbedtls_md_hmac_update c3 [of_nat i] = Some (0, c4)" "keyed prk ((([] @ t) @ ctxt) @ [of_nat i]) c4"
    by (rule hmac_update_ok [OF 3(2)])
  obtain c5 d where 5: "mbedtls_md_hmac_finish c4 = Some (0, c5, d)" "mac prk ((([] @ t) @ ctxt) @ [of_nat i]) d" "ready c5" "mc_hmac_ctx c5 \<noteq> None"
    by (rule hmac_finish_ok [OF 4(2)])
  show ?thesis by (rule that [of c5 d]) (use 1 2 3 4 5 in \<open>simp_all add: expand_block_def\<close>)
qed

lemma expand_loop_ok:
  assumes "ready ctx" "mc_hmac_ctx ctx \<noteq> None" and "small prk" "small t" "small ctxt"
    and "Suc n = i + k" "0 < i" "pos = (i - 1) * mi_size info"
    and "length okm \<le> n * mi_size info" "n * mi_size info < length okm + mi_size info"
  shows "\<exists>ds. length ds = k \<and> chain prk ctxt t i ds \<and>
    expand_loop (mi_size info) n prk ctxt k i ctx t pos okm = Some (0, take pos okm @ take (length okm - pos) (concat ds))"
  using assms
proof (induction k arbitrary: i ctx t pos okm)
  case 0
  then have "length okm \<le> pos" by auto
  then show ?case by simp
next
  case (Suc k)
  let ?h = "mi_size info"
  obtain c d where d: "expand_block ctx prk t ctxt i = Some (0, c, d)" "mac prk (t @ ctxt @ [of_nat i]) d" "ready c" "mc_hmac_ctx c \<noteq> None"
    by (rule expand_block_ok [OF Suc.prems(1-5), of i])
  have len: "length d = ?h" "small d" using mac_length [OF d(2)] small_short sizes by auto
  have pos: "pos + ?h = (i + 1 - 1) * ?h" using Suc.prems(7,8) by (cases i) simp_all
  define num where "num = (if i \<noteq> n then ?h else length okm - pos)"
  define N where "N = n * ?h"
  have N: "length okm \<le> N" "N < length okm + ?h" "i = n \<Longrightarrow> pos + ?h = N" using Suc.prems(9,10) pos by (simp_all add: N_def)
  have "(i + 1) * ?h \<le> n * ?h" if "i \<noteq> n" using that Suc.prems(6) by (intro mult_le_mono1) linarith
  then have "pos + ?h + ?h \<le> N" if "i \<noteq> n" using that pos by (simp add: N_def)
  with N have num: "num \<le> ?h" "pos + num \<le> length okm" "num = min ?h (length okm - pos)"
    by (cases "i = n"; simp add: num_def)+
  let ?okm = "put_at okm pos (take num d)"
  have okm: "length ?okm = length okm" "take (pos + num) ?okm = take pos okm @ take num d"
    using num len take_put_at [of pos okm "take num d"] by simp_all
  obtain ds where ds: "length ds = k" "chain prk ctxt d (i + 1) ds"
      "expand_loop ?h n prk ctxt k (i + 1) c d (pos + ?h) ?okm = Some (0, take (pos + ?h) ?okm @ take (length ?okm - (pos + ?h)) (concat ds))"
    using Suc.IH [OF d(3,4) Suc.prems(3) len(2) Suc.prems(5), of "i + 1" "pos + ?h" ?okm] Suc.prems(6,9,10) pos okm(1) by auto
  have "take (pos + ?h) ?okm @ take (length ?okm - (pos + ?h)) (concat ds) = take pos okm @ take (length okm - pos) (d @ concat ds)"
  proof (cases "num = ?h")
    case True
    then show ?thesis using okm len num by simp
  next
    case False
    then have "num = length okm - pos" "length okm \<le> pos + ?h" using num by (auto simp: min_def split: if_splits)
    then show ?thesis using okm len num by simp
  qed
  moreover have "expand_loop ?h n prk ctxt (Suc k) i ctx t pos okm = expand_loop ?h n prk ctxt k (i + 1) c d (pos + ?h) ?okm"
    using d(1) len(1) num(1,2) by (simp add: num_def [symmetric])
  ultimately show ?case using ds d(2) by (intro exI [of _ "d # ds"]) simp
qed

lemma expand_ok:
  assumes "small prk" "mi_size info \<le> length prk" "small (case ctxt of None \<Rightarrow> [] | Some bs \<Rightarrow> bs)" and "length out \<le> 255 * mi_size info"
  obtains ds where "chain prk (case ctxt of None \<Rightarrow> [] | Some bs \<Rightarrow> bs) [] 1 ds"
    "length ds = length out div mi_size info + (if length out mod mi_size info \<noteq> 0 then 1 else 0)"
    "mbedtls_hkdf_expand (True, True) (Some info) prk ctxt (Some out) = Some (0, Some (take (length out) (concat ds)))"
proof -
  let ?h = "mi_size info" and ?ctxt = "case ctxt of None \<Rightarrow> [] | Some bs \<Rightarrow> bs"
  define n where "n = length out div ?h + (if length out mod ?h \<noteq> 0 then 1 else 0)"
  define q r where "q = length out div ?h * ?h" and "r = length out mod ?h"
  have out: "length out = q + r" "r < ?h" using sizes(1) by (simp_all add: q_def r_def)
  have "n * ?h = q + (if r \<noteq> 0 then ?h else 0)" by (simp add: n_def add_mult_distrib q_def r_def)
  with out have n: "length out \<le> n * ?h" "n * ?h < length out + ?h" by auto
  have "n * ?h < 256 * ?h" using n(2) assms(4) by linarith
  then have "n < 256" by (simp only: mult_less_cancel2)
  moreover obtain c where c: "mbedtls_md_setup (True, True) mbedtls_md_init (Some info) 1 = (0, c)" "ready c" "mc_hmac_ctx c \<noteq> None"
    using prepared by auto
  moreover obtain ds where ds: "length ds = n" "chain prk ?ctxt [] 1 ds"
      "expand_loop ?h n prk ?ctxt n 1 c [] 0 out = Some (0, take 0 out @ take (length out - 0) (concat ds))"
    using expand_loop_ok [OF c(2,3) assms(1) small_short assms(3), of "[]" n 1 n 0 out] n by auto
  ultimately have "mbedtls_hkdf_expand (True, True) (Some info) prk ctxt (Some out) = Some (0, Some (take (length out) (concat ds)))"
    unfolding mbedtls_hkdf_expand_def mbedtls_md_get_size_def option.case Let_def n_def [symmetric] using assms(2) sizes(1) by simp
  then show ?thesis using that ds(1,2) unfolding n_def by blast
qed

lemma hkdf_ok:
  assumes "small salt" "small ikm" "small ctxt" and "length out \<le> 255 * mi_size info"
  obtains prk ds where "mac salt ikm prk" "chain prk ctxt [] 1 ds"
    "length ds = length out div mi_size info + (if length out mod mi_size info \<noteq> 0 then 1 else 0)"
    "mbedtls_hkdf (True, True) (Some info) (Some salt) (length salt) ikm (Some ctxt) (Some out) = Some (0, Some (take (length out) (concat ds)))"
proof -
  obtain prk where prk: "mbedtls_md_hmac (True, True) (Some info) salt ikm = Some (0, prk)" "mac salt ikm prk"
    by (rule hmac_ok [OF assms(1,2)])
  then have len: "length prk = mi_size info" "small prk" using mac_length small_short sizes by auto
  obtain ds where "chain prk ctxt [] 1 ds" "length ds = length out div mi_size info + (if length out mod mi_size info \<noteq> 0 then 1 else 0)"
    "mbedtls_hkdf_expand (True, True) (Some info) prk (Some ctxt) (Some out) = Some (0, Some (take (length out) (concat ds)))"
    using expand_ok [OF len(2), of "Some ctxt" out] len(1) assms(3,4) by auto
  then show ?thesis using that prk len(1) by (simp add: mbedtls_hkdf_def mbedtls_hkdf_extract_def mbedtls_md_get_size_def)
qed

end

subsection \<open>The digests of the library provide it\<close>

definition info_of :: "int \<Rightarrow> mbedtls_md_info_t" where
  "info_of is224 = (if is224 = 0 then mbedtls_sha256_info else mbedtls_sha224_info)"

text \<open>The weakest form of the state: arrays of their sizes.\<close>

definition usable :: "int \<Rightarrow> mbedtls_sha256_context \<Rightarrow> bool" where
  "usable is224 c \<longleftrightarrow> length (sh_buffer c) = 64 \<and> length (sh_state c) = 8 \<and> sh_is224 c = is224"

lemma absorbed_usable: "absorbed is224 m c \<Longrightarrow> usable is224 c"
  by (simp add: absorbed_def usable_def)

lemma update_usable:
  assumes "usable is224 c"
  obtains c' where "mbedtls_sha256_update_ret c xs = (0, c')" "usable is224 c'"
proof (cases "xs = []")
  case True
  then show ?thesis using assms that by (simp add: mbedtls_sha256_update_ret_def)
next
  case False
  define left where "left = unat (fst (sh_total c) AND 0x3F)"
  define total0 where "total0 = (fst (sh_total c) + of_nat (length xs)) AND 0xFFFFFFFF"
  define d where "d = c\<lparr>sh_total := (total0, if total0 < of_nat (length xs) then snd (sh_total c) + 1 else snd (sh_total c))\<rparr>"
  define t where "t = take left (sh_buffer d)"
  have "left < 64"
  proof -
    have mask: "(0x3F :: u32) = mask 6" by (simp add: mask_eq_exp_minus_1)
    show ?thesis unfolding left_def mask take_bit_eq_mask [symmetric] by (simp add: unsigned_take_bit_eq take_bit_nat_less_exp [of 6, simplified])
  qed
  then have t: "length t = left" "length t < 64" "take (length t) (sh_buffer d) = t" "length (sh_state d) = 8" "length (sh_buffer d) = 64"
    using assms by (simp_all add: t_def d_def usable_def)
  obtain b where "mbedtls_sha256_update_ret c xs = (0, d\<lparr>sh_state := fips_blocks (sh_state d) (t @ xs), sh_buffer := b\<rparr>)" "length b = 64"
    using update_buffer [OF t(4,5,3,2) False] False
    unfolding mbedtls_sha256_update_ret_def Let_def left_def [symmetric] total0_def [symmetric] d_def [symmetric] t(1) by auto
  moreover have "usable is224 (d\<lparr>sh_state := fips_blocks (sh_state d) (t @ xs), sh_buffer := b\<rparr>)" if "length b = 64" for b
    using assms that t(4) by (simp add: usable_def d_def)
  ultimately show ?thesis using that by blast
qed

lemma length_words: "length (concat (map put_uint32_be ws)) = 4 * length ws"
  by (induction ws) simp_all

lemma finish_usable:
  assumes "usable is224 c"
  obtains c' d where "mbedtls_sha256_finish_ret c = (0, c', d)" "usable is224 c'" "length d = mi_size (info_of is224)"
proof -
  obtain r c' d where f: "mbedtls_sha256_finish_ret c = (r, c', d)" by (metis prod_cases3)
  define used where "used = unat (fst (sh_total c) AND 0x3F)"
  have "r = 0 \<and> usable is224 c' \<and> length d = mi_size (info_of is224)"
    using f assms unfolding mbedtls_sha256_finish_ret_def Let_def used_def [symmetric]
    by (auto simp: process_eq usable_def put_at_def length_words info_of_def mbedtls_sha256_info_def mbedtls_sha224_info_def split: if_splits)
  then show ?thesis using that f by blast
qed

definition md_with :: "int \<Rightarrow> (mbedtls_sha256_context \<Rightarrow> bool) \<Rightarrow> mbedtls_md_context_t \<Rightarrow> bool" where
  "md_with is224 Q ctx \<longleftrightarrow> mc_md_info ctx = Some (info_of is224) \<and> (\<exists>c. mc_md_ctx ctx = Some c \<and> Q c)"

abbreviation md_ready :: "int \<Rightarrow> mbedtls_md_context_t \<Rightarrow> bool" where
  "md_ready is224 \<equiv> md_with is224 (\<lambda>c. length (sh_buffer c) = 64)"

lemma info_of_sizes: "0 < mi_size (info_of is224)" "mi_size (info_of is224) \<le> mi_block_size (info_of is224)" "mi_block_size (info_of is224) = 64"
  by (simp_all add: info_of_def mbedtls_sha256_info_def mbedtls_sha224_info_def)

lemma md_setup_ready:
  "\<exists>ctx. mbedtls_md_setup (True, True) mbedtls_md_init (Some (info_of is224)) 1 = (0, ctx) \<and> md_ready is224 ctx \<and> mc_hmac_ctx ctx \<noteq> None"
  by (simp add: mbedtls_md_setup_def md_with_def mbedtls_sha256_init_def)

lemma md_starts_with:
  assumes "is224 \<in> {0, 1}" and "md_ready is224 ctx" and "\<And>c. absorbed is224 [] c \<Longrightarrow> Q c"
  shows "\<exists>ctx'. mbedtls_md_starts ctx = Some (0, ctx') \<and> md_with is224 Q ctx' \<and> mc_hmac_ctx ctx' = mc_hmac_ctx ctx"
proof -
  obtain c where c: "mc_md_info ctx = Some (info_of is224)" "mc_md_ctx ctx = Some c" "length (sh_buffer c) = 64"
    using assms(2) by (auto simp: md_with_def)
  obtain c' where "mbedtls_sha256_starts_ret c is224 = (0, c')" "absorbed is224 [] c'" by (rule starts_absorbed [OF c(3)])
  then show ?thesis using c assms(1,3)
    by (auto simp: mbedtls_md_starts_def md_with_def info_of_def mbedtls_sha256_info_def mbedtls_sha224_info_def)
qed

lemma md_update_with:
  assumes "md_with is224 Q ctx" and "\<And>c. Q c \<Longrightarrow> \<exists>c'. mbedtls_sha256_update_ret c xs = (0, c') \<and> Q' c'"
  shows "\<exists>ctx'. mbedtls_md_update ctx xs = Some (0, ctx') \<and> md_with is224 Q' ctx' \<and> mc_hmac_ctx ctx' = mc_hmac_ctx ctx"
  using assms(1) by (auto simp: mbedtls_md_update_def md_with_def dest!: assms(2))

lemma md_finish_with:
  assumes "md_with is224 Q ctx" and "\<And>c. Q c \<Longrightarrow> \<exists>c' d. mbedtls_sha256_finish_ret c = (0, c', d) \<and> D d \<and> length (sh_buffer c') = 64"
  shows "\<exists>ctx' d. mbedtls_md_finish ctx = Some (0, ctx', d) \<and> D d \<and> md_ready is224 ctx' \<and> mc_hmac_ctx ctx' = mc_hmac_ctx ctx"
  using assms(1) by (auto simp: mbedtls_md_finish_def md_with_def dest!: assms(2))

lemma length_fips_sha: "length (fips_sha is224 m) = mi_size (info_of is224)"
  by (simp add: fips_sha_def length_words info_of_def mbedtls_sha256_info_def mbedtls_sha224_info_def)

text \<open>With inputs that the counter can hold, the digest is that of the standard.\<close>

lemma sha_digest:
  assumes "is224 \<in> {0, 1}"
  shows "message_digest (info_of is224) (\<lambda>xs. length xs < 2 ^ 32) (\<lambda>m d. d = fips_sha is224 m) (md_ready is224) (\<lambda>m. md_with is224 (absorbed is224 m))"
proof (unfold_locales, goal_cases)
  case 9
  show ?case by (rule md_setup_ready)
next
  case (10 ctx)
  then show ?case by (rule md_starts_with [OF assms])
next
  case (11 m ctx xs)
  then show ?case using update_absorbed by (intro md_update_with) blast+
next
  case (12 m ctx)
  then show ?case by (rule md_finish_with) (metis finish_absorbed)
qed (rule info_of_sizes | auto simp: length_fips_sha md_with_def)+

text \<open>With any input, the operations succeed and the digest has its size.\<close>

lemma any_digest:
  assumes "is224 \<in> {0, 1}"
  shows "message_digest (info_of is224) (\<lambda>_. True) (\<lambda>_ d. length d = mi_size (info_of is224)) (md_ready is224) (\<lambda>_. md_with is224 (usable is224))"
proof (unfold_locales, goal_cases)
  case 9
  show ?case by (rule md_setup_ready)
next
  case (10 ctx)
  then show ?case by (rule md_starts_with [OF assms _ absorbed_usable])
next
  case (11 m ctx xs)
  then show ?case using update_usable by (intro md_update_with) blast+
next
  case (12 m ctx)
  then show ?case by (rule md_finish_with) (metis finish_usable usable_def)
qed (rule info_of_sizes | auto simp: md_with_def)+

interpretation sha256: message_digest "info_of 0" "\<lambda>xs. length xs < 2 ^ 32" "\<lambda>m d. d = fips_sha 0 m" "md_ready 0" "\<lambda>m. md_with 0 (absorbed 0 m)"
  by (rule sha_digest) simp

interpretation sha224: message_digest "info_of 1" "\<lambda>xs. length xs < 2 ^ 32" "\<lambda>m d. d = fips_sha 1 m" "md_ready 1" "\<lambda>m. md_with 1 (absorbed 1 m)"
  by (rule sha_digest) simp

interpretation sized: message_digest "info_of 0" "\<lambda>_. True" "\<lambda>_ d. length d = mi_size (info_of 0)" "md_ready 0" "\<lambda>_. md_with 0 (usable 0)"
  by (rule any_digest) simp

subsection \<open>The standards\<close>

definition rfc2104 :: "(bytes \<Rightarrow> bytes) \<Rightarrow> bytes \<Rightarrow> bytes \<Rightarrow> bytes" where
  "rfc2104 H key m =
     (let k = (if length key > 64 then H key else key);
          block = k @ replicate (64 - length k) 0;
          ipad = map (\<lambda>b. b XOR 0x36) block; opad = map (\<lambda>b. b XOR 0x5C) block
      in H (opad @ H (ipad @ m)))"

text \<open>\<open>T(1) | T(2) | \<dots>\<close> from the block \<open>t\<close> before the block \<open>i\<close>.\<close>

fun rfc5869_blocks :: "(bytes \<Rightarrow> bytes \<Rightarrow> bytes) \<Rightarrow> bytes \<Rightarrow> bytes \<Rightarrow> bytes \<Rightarrow> nat \<Rightarrow> nat \<Rightarrow> bytes" where
  "rfc5869_blocks mac prk info t i 0 = []"
| "rfc5869_blocks mac prk info t i (Suc n) = mac prk (t @ info @ [of_nat i]) @ rfc5869_blocks mac prk info (mac prk (t @ info @ [of_nat i])) (i + 1) n"

definition rfc5869 :: "(bytes \<Rightarrow> bytes \<Rightarrow> bytes) \<Rightarrow> nat \<Rightarrow> bytes \<Rightarrow> bytes \<Rightarrow> bytes \<Rightarrow> nat \<Rightarrow> bytes" where
  "rfc5869 mac hash_len salt ikm info L =
     (let prk = mac salt ikm in take L (rfc5869_blocks mac prk info [] 1 ((L + hash_len - 1) div hash_len)))"

abbreviation hmac_sha256 :: "bytes \<Rightarrow> bytes \<Rightarrow> bytes" where
  "hmac_sha256 \<equiv> rfc2104 (fips_sha 0)"

lemma xor_key_pad: "length k \<le> n \<Longrightarrow> xor_key (replicate n p) k = map (\<lambda>b. b XOR p) (k @ replicate (n - length k) 0)"
proof (induction k arbitrary: n)
  case (Cons b k)
  then show ?case by (cases n) (simp_all add: xor.commute)
qed simp

lemma mac_rfc2104: "sha256.mac key m d \<longleftrightarrow> d = hmac_sha256 key m"
proof -
  have "sha256.block_key key k \<longleftrightarrow> k = (if length key > 64 then fips_sha 0 key else key)" for k
    by (simp add: sha256.block_key_def)
  moreover have "length (if length key > 64 then fips_sha 0 key else key) \<le> 64"
    by (simp add: length_fips_sha info_of_def mbedtls_sha256_info_def)
  ultimately show ?thesis by (simp add: sha256.mac_def rfc2104_def Let_def xor_key_pad)
qed

lemma chain_rfc5869: "sha256.chain prk info t i ds \<Longrightarrow> concat ds = rfc5869_blocks hmac_sha256 prk info t i (length ds)"
  by (induction ds arbitrary: t i) (simp_all add: mac_rfc2104)

lemma info_of_0: "info_of 0 = mbedtls_sha256_info" "mi_size mbedtls_sha256_info = 32"
  by (simp_all add: info_of_def mbedtls_sha256_info_def)

lemma hmac_code:
  assumes "length key < 2 ^ 32" "length m < 2 ^ 32"
  shows "mbedtls_md_hmac (True, True) (Some mbedtls_sha256_info) key m = Some (0, hmac_sha256 key m)"
  using sha256.hmac_ok [of key m] assms by (metis info_of_0(1) mac_rfc2104)

lemma block_count:
  fixes L :: nat
  shows "(L + 32 - 1) div 32 = L div 32 + (if L mod 32 \<noteq> 0 then 1 else 0)"
    and "L \<le> 32 * (L div 32 + (if L mod 32 \<noteq> 0 then 1 else 0))"
    and "255 * 32 < L \<Longrightarrow> 255 < L div 32 + (if L mod 32 \<noteq> 0 then 1 else 0)"
proof -
  define q r where "q = L div 32" and "r = L mod 32"
  have L: "L = r + 32 * q" "r < 32" by (simp_all add: q_def r_def)
  have "(L + 32 - 1) div 32 = q + (if r \<noteq> 0 then 1 else 0)"
    unfolding L(1) using L(2) by (cases "r = 0") simp_all
  then show "(L + 32 - 1) div 32 = L div 32 + (if L mod 32 \<noteq> 0 then 1 else 0)" unfolding q_def r_def .
  have "L \<le> 32 * (q + (if r \<noteq> 0 then 1 else 0))" using L by auto
  then show "L \<le> 32 * (L div 32 + (if L mod 32 \<noteq> 0 then 1 else 0))" unfolding q_def r_def .
  assume "255 * 32 < L"
  then have "255 < q + (if r \<noteq> 0 then 1 else 0)" using L by auto
  then show "255 < L div 32 + (if L mod 32 \<noteq> 0 then 1 else 0)" unfolding q_def r_def .
qed

lemma hkdf_code:
  assumes "length salt < 2 ^ 32" "length ikm < 2 ^ 32" "length info < 2 ^ 32"
  shows "length out \<le> 255 * 32 \<Longrightarrow>
      mbedtls_hkdf (True, True) (Some mbedtls_sha256_info) (Some salt) (length salt) ikm (Some info) (Some out) =
        Some (0, Some (rfc5869 hmac_sha256 32 salt ikm info (length out)))"
    and "length out > 255 * 32 \<Longrightarrow>
      mbedtls_hkdf (True, True) (Some mbedtls_sha256_info) (Some salt) (length salt) ikm (Some info) (Some out) =
        Some (MBEDTLS_ERR_HKDF_BAD_INPUT_DATA, Some out)"
proof -
  let ?n = "length out div 32 + (if length out mod 32 \<noteq> 0 then 1 else 0)"
  assume "length out \<le> 255 * 32"
  then obtain prk ds where run: "sha256.mac salt ikm prk" "sha256.chain prk info [] 1 ds" "length ds = ?n"
      "mbedtls_hkdf (True, True) (Some mbedtls_sha256_info) (Some salt) (length salt) ikm (Some info) (Some out) =
        Some (0, Some (take (length out) (concat ds)))"
    using sha256.hkdf_ok [OF assms, of out] unfolding info_of_0 by blast
  then show "mbedtls_hkdf (True, True) (Some mbedtls_sha256_info) (Some salt) (length salt) ikm (Some info) (Some out) =
        Some (0, Some (rfc5869 hmac_sha256 32 salt ikm info (length out)))"
    using chain_rfc5869 [OF run(2)] by (simp only: rfc5869_def Let_def mac_rfc2104 block_count(1))
next
  assume "length out > 255 * 32"
  note too_many = block_count(3) [OF this]
  have len: "length (hmac_sha256 salt ikm) = 32"
    by (simp add: rfc2104_def Let_def length_fips_sha info_of_0)
  have "mbedtls_hkdf_expand (True, True) (Some mbedtls_sha256_info) prk (Some info) (Some out) =
      Some (MBEDTLS_ERR_HKDF_BAD_INPUT_DATA, Some out)" if "length prk = 32" for prk
    unfolding mbedtls_hkdf_expand_def option.case Let_def mbedtls_md_get_size_def info_of_0(2) using too_many that by simp
  then show "mbedtls_hkdf (True, True) (Some mbedtls_sha256_info) (Some salt) (length salt) ikm (Some info) (Some out) =
        Some (MBEDTLS_ERR_HKDF_BAD_INPUT_DATA, Some out)"
    using hmac_code [OF assms(1,2)] info_of_0(2) len by (simp add: mbedtls_hkdf_def mbedtls_hkdf_extract_def mbedtls_md_get_size_def)
qed

text \<open>
  C13: the vendored key derivation computes HKDF-SHA256 of RFC 5869 over HMAC of RFC 2104, and refuses to derive
  more than 255 blocks, leaving the output as it is.
\<close>

theorem hkdf_computes_rfc5869:
  assumes "length salt < 2 ^ 32" "length ikm < 2 ^ 32" "length info < 2 ^ 32"
  shows "mbedtls_hkdf (True, True) (Some mbedtls_sha256_info) (Some salt) (length salt) ikm (Some info) (Some out) =
    Some (if length out \<le> 255 * 32 then (0, Some (rfc5869 hmac_sha256 32 salt ikm info (length out)))
          else (MBEDTLS_ERR_HKDF_BAD_INPUT_DATA, Some out))"
proof (cases "length out \<le> 255 * 32")
  case True
  then show ?thesis using hkdf_code(1) [OF assms True] by simp
next
  case False
  then have "length out > 255 * 32" by simp
  then show ?thesis using hkdf_code(2) [OF assms] False by simp
qed

theorem hkdf_computes_rfc5869_witness:
  "mbedtls_hkdf (True, True) (Some mbedtls_sha256_info) (Some [1, 2]) (length [1, 2 :: byte]) [3] (Some [4]) (Some (replicate 42 0)) =
     Some (0, Some (rfc5869 hmac_sha256 32 [1, 2] [3] [4] 42))"
  using hkdf_computes_rfc5869 [of "[1, 2]" "[3]" "[4]" "replicate 42 0"] by simp

subsection \<open>The hash functions of the suites\<close>

text \<open>The primitives of the library with the hash functions of the vendored code.\<close>

definition hash_prims :: "prims \<Rightarrow> prims" where
  "hash_prims P = P\<lparr>
     pr_hkdf := (\<lambda>salt ikm info n. case mbedtls_hkdf (True, True) (mbedtls_md_info_from_type MBEDTLS_MD_SHA256) (Some salt) (length salt) ikm
        (Some info) (Some (replicate n 0)) of Some (ret, Some okm) \<Rightarrow> (ret, okm) | _ \<Rightarrow> (- 1, [])),
     pr_hmac := (\<lambda>key input. case mbedtls_md_hmac (True, True) (mbedtls_md_info_from_type MBEDTLS_MD_SHA256) key input of
        Some r \<Rightarrow> r | None \<Rightarrow> (- 1, [])),
     pr_sha256 := (\<lambda>msg. let c = snd (mbedtls_sha256_update_ret (snd (mbedtls_sha256_starts_ret mbedtls_sha256_init 0)) msg);
        (ret, _, out) = mbedtls_sha256_finish_ret c in (ret, out))\<rparr>"

lemma from_type: "mbedtls_md_info_from_type MBEDTLS_MD_SHA256 = Some (info_of 0)"
  by (simp add: mbedtls_md_info_from_type_def info_of_0)

text \<open>
  C14: what the sessions rely on of the hash functions is true of the vendored code: key derivation of at most
  8160 bytes and message authentication return 0 and fill their outputs, for all inputs.
\<close>

theorem hash_code_documented: "hf_documented (hash_prims P)"
proof -
  have hmac: "case pr_hmac (hash_prims P) k m of (ret, out) \<Rightarrow> ret = 0 \<and> length out = 32" for k m
  proof (rule sized.hmac_ok [where key = k and m = m])
    fix d assume "mbedtls_md_hmac (True, True) (Some (info_of 0)) k m = Some (0, d)" "sized.mac k m d"
    then show ?thesis using sized.mac_length by (simp add: hash_prims_def from_type info_of_0)
  qed simp_all
  have hkdf: "case pr_hkdf (hash_prims P) salt ikm info n of (ret, out) \<Rightarrow> ret = 0 \<and> length out = n" if "n \<le> 8160" for salt ikm info n
  proof (rule sized.hkdf_ok [where salt = salt and ikm = ikm and ctxt = info and out = "replicate n 0"])
    fix prk ds
    assume chain: "sized.chain prk info [] 1 ds"
      and len: "length ds = length (replicate n (0 :: byte)) div mi_size (info_of 0) + (if length (replicate n (0 :: byte)) mod mi_size (info_of 0) \<noteq> 0 then 1 else 0)"
      and run: "mbedtls_hkdf (True, True) (Some (info_of 0)) (Some salt) (length salt) ikm (Some info) (Some (replicate n 0)) =
        Some (0, Some (take (length (replicate n (0 :: byte))) (concat ds)))"
    have "n \<le> length (concat ds)" using sized.chain_length [OF chain] len block_count(2) [of n] by (simp add: info_of_0)
    then show ?thesis using run by (simp add: hash_prims_def from_type)
  qed (use that in \<open>simp_all add: info_of_0\<close>)
  show ?thesis using hmac hkdf by (simp add: hf_documented_def)
qed

end
