(* ===== verification/Spec2Isabelle.thy ===== *)
theory Spec2Isabelle
  imports Base_Props Account_Props Ratchet_Props Session_Props Group_Props Messaging_Props Group_Renewal_Props Client_Props
    Files_Props Base64_Props Exported_Props Gcm_Props Md_Props
begin

section \<open>A verification library for the E2EE Security library\<close>

text \<open>
  The library under \<open>src/src\<close> gives a messenger end-to-end encryption: accounts with identity keys and
  pre-keys, sessions between two devices by a key agreement over a post-quantum KEM, a double ratchet
  inside each session, and group sessions over the one-to-one sessions.  It stores its state through
  the database handlers of a host program and reaches its peers through the host's server handlers.

  \<^bold>\<open>How code is modelled.\<close>  A pointer is an option (\<open>'a ptr\<close>, \<open>None\<close> for NULL), a struct a record, a C
  string \<open>cstr\<close>, an array of pointers a pointer to a list; \<open>ProtobufCBinaryData\<close> is \<open>bdata\<close>, a length and
  a buffer that need not agree.  An operation returns an option: \<open>None\<close> says that the C code accesses
  memory through NULL or outside an object, so a theorem that an operation returns \<open>Some\<close> is a theorem
  that it does not.  Failures the code handles are its integer return codes.  Counters and ids have
  their C width.  Randomness is a tape: each primitive that draws takes a seed and returns the next.
  Releasing memory and logging are left out, except where released memory is used again.

  \<^bold>\<open>Theories.\<close>
  \<^item> \<open>Prelude\<close>: pointers, buffers, arrays and loops over them, with their lemmas.
  \<^item> \<open>Cipher\<close>: \<open>cipher.h\<close>, \<open>cipher_*.c\<close> and the wrappers of \<open>crypto.c\<close>; the primitives of PQClean,
    curve25519 and mbedtls are the record \<open>prims\<close>, a parameter of every operation that reaches them.
    For the parts of mbedtls below the parameter is discharged on the code itself.
  \<^item> \<open>Proto\<close>: the structs of the protobuf messages.  \<open>Pack\<close>: \<open>e2ees.c\<close>, pack ids and tables of suites.
  \<^item> \<open>Mem_Util\<close>: \<open>mem_util.c\<close>, comparisons, copies and member lists.  \<open>Validation\<close>: \<open>validation.c\<close>.
  \<^item> \<open>Suite_Laws\<close>: what the documentation of the primitives promises (\<open>kem_documented\<close>, \<open>gcm_documented\<close>,
    \<open>hf_documented\<close>, together \<open>prims_ok\<close>), the locale \<open>e2ee_suite\<close> of the laws of a cipher suite, and its
    interpretation on every suite \<open>get_e2ees_pack\<close> selects; \<open>demo_prims\<close> satisfies the hypotheses.
  \<^item> \<open>Ratchet\<close>: \<open>ratchet.c\<close>, with \<open>decrypt_ratchet\<close> cut at its stages.  \<open>Ratchet_Laws\<close>, \<open>Ratchet_Runs\<close>,
    \<open>Ratchet_Channel\<close>, \<open>Ratchet_Talk\<close>, \<open>Ratchet_Safe\<close> and \<open>Ratchet_Props\<close>: its invariant, what one call
    does on every branch, the refinement of an ideal channel, conversations, and the properties;
    \<open>message_keys\<close> lists the keys a ratchet has for a message, on whichever chain.
  \<^item> \<open>Account\<close>, \<open>Account_Cache\<close>, \<open>Account_Props\<close>: \<open>account.c\<close> and \<open>account_cache.c\<close>.
  \<^item> \<open>Messages\<close>: the messages and their validators.  \<open>Host\<close>: the host as a record of handlers over a
    state \<open>'w\<close>, with the wrappers of \<open>e2ees.c\<close> and \<open>e2ees_client_internal.c\<close> that only call it.
  \<^item> \<open>Session\<close>, \<open>Session_Laws\<close>, \<open>Session_Props\<close>: \<open>session_pqc.c\<close>, \<open>session.c\<close> and the invitation
    handlers of \<open>session_manager.c\<close> and \<open>e2ees_client_internal.c\<close>; \<open>host_documented\<close> states that the
    database returns what was stored and that the server answers.
  \<^item> \<open>Group\<close>: \<open>group_session.c\<close>.  \<open>Group_Manager\<close>: the handlers of group messages in
    \<open>group_session_manager.c\<close>, \<open>e2ees_client.c\<close> and \<open>session_manager.c\<close>.  \<open>Group_Laws\<close>: the locale
    \<open>group_suite\<close>, its instance for every suite the library selects, and one step of sending and receiving;
    \<open>Group_Creation\<close>: the ways to a session; \<open>Group_Props\<close>: the properties of groups.
  \<^item> \<open>Messaging\<close>: sending, receiving and waiting of one-to-one messages, pre-key bundles and messages to
    one's other devices (\<open>session_manager.c\<close>, \<open>session.c\<close>, \<open>e2ees_client.c\<close>).  \<open>Messaging_Laws\<close>: one message
    from the client's call to the callback of the other side, and conversations as runs of such steps;
    \<open>Messaging_Props\<close>: end-to-end delivery, waiting messages, forged messages.
  \<^item> \<open>Requests\<close>: the remaining requests, responses and messages with their validators.  \<open>Host\<close> has the handlers
    they need in the record \<open>plugin\<close>, which extends a host.
  \<^item> \<open>Account_Manager\<close>: \<open>account_manager.c\<close>, registration, and the renewal of signed and one-time pre-keys in
    \<open>account.c\<close> and \<open>e2ees_client_internal.c\<close>; \<open>Account_Manager_Props\<close>: its properties, where the invitations
    after a registration are the requests of \<open>invite_each\<close>, assumed to return (\<open>requests_return\<close>).
  \<^item> \<open>Group_Sending\<close>: the functions of \<open>group_session.c\<close> that send keys over one-to-one sessions, the
    creation of a group and the renewals.  \<open>Group_Requests\<close>: the requests that create and leave a group and
    change its members (\<open>group_session_manager.c\<close>, \<open>e2ees_client.c\<close>, \<open>e2ees_client_internal.c\<close>).
    \<open>Group_Renewal\<close>: what an addition leaves in the sessions of the device that adds, of the other devices
    and of the added ones, as functions of the keys; \<open>Group_Renewal_Props\<close>: that these agree, and when not.
  \<^item> \<open>Client\<close>: the processing of a message from the server and the resuming of a connection
    (\<open>e2ees_client.c\<close>, \<open>resend_pending_request\<close> of \<open>e2ees_client_internal.c\<close>, one definition per case);
    \<open>Client_Props\<close>: signatures of the server and pending messages.
  \<^item> \<open>Gcm\<close>: \<open>gcm.c\<close> of mbedtls over a block cipher that is a parameter (\<open>block_cipher_documented\<close>, with the
    instance \<open>demo_cipher\<close>).  \<open>Gcm_Props\<close>: its multiplication by tables of nibbles is the multiplication of
    \<open>GF(2^128)\<close>, and for associated data below \<open>2 ^ 61\<close> bytes the code has the laws that
    \<open>Suite_Laws\<close> assumes of authenticated encryption (\<open>gcm_documented\<close>).
  \<^item> \<open>Sha256\<close>: \<open>sha256.c\<close>.  \<open>Sha256_Props\<close>: hashing in pieces is the function of FIPS 180-4 on the whole
    message.  \<open>Md\<close>: \<open>md.c\<close> and \<open>hkdf.c\<close>.  \<open>Md_Props\<close>: the locale \<open>message_digest\<close> of what a client of \<open>md.c\<close>
    relies on, its interpretations on SHA-256 and SHA-224, HMAC and HKDF against RFC 2104 and RFC 5869,
    and the laws \<open>hf_documented\<close> for the code.
  \<^item> \<open>Base64\<close>: \<open>base64.c\<close> and its calls in \<open>crypto.c\<close>.  \<open>Base64_Props\<close>: the round trip, and that decoding stays
    inside its buffers on every input.
  \<^item> \<open>Files\<close>: the functions of \<open>crypto.c\<close> on data and on files, with the file system as a map.
    \<open>Files_Props\<close>: round trips, what a wrong tag does, and what is left behind.
  \<^item> \<open>Exported\<close>: the calls of \<open>crypto.c\<close> by pack id and \<open>e2ees_crypto.c\<close>.  \<open>Exported_Props\<close>: that they agree.
  \<^item> \<open>Base_Props\<close>: properties of packs, authenticated encryption, member lists and copies.

  \<^bold>\<open>Bounds.\<close>  No definition uses fuel: the loops are structural recursions or functions with a
  termination proof.  Theorems bound message lengths by the limit of GCM (\<open>GCM_LIMIT\<close>) and numbers of
  messages by \<open>2 ^ 32\<close>, the width of the counters.

  \<^bold>\<open>Not modelled.\<close>  \<open>session_ecc.c\<close>, whose suite object has only NULL members, so nothing calls it; the packing
  of protobuf messages, which is generated code; of the vendored libraries under \<open>src/lib\<close> the AES block
  cipher and the cipher layer of mbedtls, SHA-512, curve25519, PQClean and SQLite, which are parameters;
  the release of memory and logging.
\<close>

end
